(* ===== verification/Prelude.thy ===== *)
theory Prelude
  imports Complex_Main "HOL-Library.AList" "HOL-Library.Char_ord" "HOL-Library.List_Lexorder"
    "HOL-Library.Product_Lexorder" "HOL-Library.Multiset"
begin

text \<open>
  The shared layer of the development: the Python values the components use and the lemmas their
  proofs share.
  \<^item> A \<open>dict\<close> is an association list in insertion order; a store is \<open>AList.update\<close>, which keeps the
    position of a key that is already there, as Python does.
  \<^item> A \<open>str\<close> is a list of characters; \<open>str_lower\<close>, \<open>str_strip\<close> and \<open>str_isalnum\<close> are Python's methods
    on ASCII text.
  \<^item> A \<open>Decimal\<close> is a rational number, so sums and products are exact (the 28-digit context of the
    \<open>decimal\<close> module is not modelled); \<open>quantize6\<close> is \<open>quantize(Decimal("0.000001"))\<close> with the
    default half-even rounding.
  \<^item> A \<open>datetime\<close> is a UTC instant in microseconds with its UTC offset; a \<open>date\<close> is a day number.
  \<^item> \<open>max_by\<close> and \<open>min_by\<close> are \<open>max(xs, key=...)\<close> and \<open>min(xs, key=...)\<close>, which return the first
    extremal element.
\<close>

named_theorems dict_simps "lookups and key sets of updated dicts"
named_theorems str_simps "Python string methods"

section \<open>Dicts in insertion order\<close>

type_synonym ('k, 'v) dict = "('k \<times> 'v) list"

abbreviation dget :: "('k, 'v) dict \<Rightarrow> 'k \<Rightarrow> 'v option" where
  "dget d k \<equiv> map_of d k"

definition dget_or :: "('k, 'v) dict \<Rightarrow> 'k \<Rightarrow> 'v \<Rightarrow> 'v" where
  "dget_or d k v = (case dget d k of None \<Rightarrow> v | Some w \<Rightarrow> w)"

abbreviation dset :: "'k \<Rightarrow> 'v \<Rightarrow> ('k, 'v) dict \<Rightarrow> ('k, 'v) dict" where
  "dset k v d \<equiv> AList.update k v d"

abbreviation dkeys :: "('k, 'v) dict \<Rightarrow> 'k list" where
  "dkeys d \<equiv> map fst d"

lemma dget_dset [dict_simps, simp]: "dget (dset k v d) = (dget d)(k \<mapsto> v)"
  by (rule update_conv')

lemma dget_or_dset [dict_simps]:
  "dget_or (dset k v d) j w = (if j = k then v else dget_or d j w)"
  by (simp add: dget_or_def)

lemma set_dkeys_dset [dict_simps, simp]: "set (dkeys (dset k v d)) = insert k (set (dkeys d))"
  by (induction d) auto

lemma distinct_dkeys_dset [simp]: "distinct (dkeys d) \<Longrightarrow> distinct (dkeys (dset k v d))"
  by (rule distinct_update)

lemma dget_None_iff: "dget d k = None \<longleftrightarrow> k \<notin> set (dkeys d)"
  by (auto simp: map_of_eq_None_iff)

lemma dset_new: "k \<notin> set (dkeys d) \<Longrightarrow> dset k v d = d @ [(k, v)]"
  by (induction d) auto

lemma dkeys_dset_old: "k \<in> set (dkeys d) \<Longrightarrow> dkeys (dset k v d) = dkeys d"
  by (induction d) auto

text \<open>The sum of a dict's values, and what an accumulating store does to it.\<close>

definition dsum :: "('k, 'v::comm_monoid_add) dict \<Rightarrow> 'v" where
  "dsum d = sum_list (map snd d)"

definition dadd :: "'k \<Rightarrow> 'v::comm_monoid_add \<Rightarrow> ('k, 'v) dict \<Rightarrow> ('k, 'v) dict" where
  "dadd k q d = dset k (dget_or d k 0 + q) d"

lemma dkeys_dadd [simp]: "fst ` set (dadd k q d) = insert k (fst ` set d)"
  unfolding dadd_def using set_dkeys_dset [of k _ d] by simp

lemma distinct_dkeys_dadd [simp]: "distinct (dkeys d) \<Longrightarrow> distinct (dkeys (dadd k q d))"
  by (simp add: dadd_def distinct_update)

lemma dget_or_dadd [dict_simps]:
  "dget_or (dadd k q d) j 0 = (if j = k then dget_or d k 0 + q else dget_or d j 0)"
  by (simp add: dadd_def dget_or_dset)

lemma dsum_Nil [simp]: "dsum [] = 0"
  by (simp add: dsum_def)

lemma dsum_Cons [simp]: "dsum ((k, v) # d) = v + dsum d"
  by (simp add: dsum_def)

lemma dsum_dadd [dict_simps]: "dsum (dadd k q d) = dsum d + q"
proof (induction d)
  case Nil
  show ?case by (simp add: dadd_def dget_or_def)
next
  case (Cons p d)
  obtain j v where p: "p = (j, v)" by (cases p)
  show ?case
  proof (cases "j = k")
    case True
    then show ?thesis by (simp add: p dadd_def dget_or_def ac_simps)
  next
    case False
    then have "dadd k q (p # d) = p # dadd k q d"
      by (simp add: p dadd_def dget_or_def)
    with Cons.IH show ?thesis by (simp add: p ac_simps)
  qed
qed

section \<open>Strings\<close>

definition lower_char :: "char \<Rightarrow> char" where
  "lower_char c = (let n = (of_char c :: nat) in if 65 \<le> n \<and> n \<le> 90 then char_of (n + 32) else c)"

definition str_lower :: "string \<Rightarrow> string" where
  "str_lower s = map lower_char s"

definition is_space :: "char \<Rightarrow> bool" where
  "is_space c = (let n = (of_char c :: nat) in n = 32 \<or> 9 \<le> n \<and> n \<le> 13 \<or> 28 \<le> n \<and> n \<le> 31)"

definition str_strip :: "string \<Rightarrow> string" where
  "str_strip s = rev (dropWhile is_space (rev (dropWhile is_space s)))"

definition is_digit :: "char \<Rightarrow> bool" where
  "is_digit c = (let n = (of_char c :: nat) in 48 \<le> n \<and> n \<le> 57)"

definition is_alnum :: "char \<Rightarrow> bool" where
  "is_alnum c = (let n = (of_char c :: nat) in
     48 \<le> n \<and> n \<le> 57 \<or> 65 \<le> n \<and> n \<le> 90 \<or> 97 \<le> n \<and> n \<le> 122)"

fun str_contains :: "string \<Rightarrow> string \<Rightarrow> bool" where
  "str_contains needle [] = (needle = [])"
| "str_contains needle (c # cs) = (take (length needle) (c # cs) = needle \<or> str_contains needle cs)"

lemma of_char_lower_char: "(of_char (lower_char c) :: nat) =
  (if 65 \<le> (of_char c :: nat) \<and> (of_char c :: nat) \<le> 90 then of_char c + 32 else of_char c)"
  by (simp add: lower_char_def Let_def)

lemma lower_char_idem [simp]: "lower_char (lower_char c) = lower_char c"
  by (simp add: lower_char_def Let_def)

lemma is_space_lower_char [simp]: "is_space (lower_char c) = is_space c"
  by (auto simp: is_space_def Let_def of_char_lower_char)

lemma str_lower_idem [str_simps, simp]: "str_lower (str_lower s) = str_lower s"
  by (simp add: str_lower_def)

lemma dropWhile_lower: "dropWhile is_space (map lower_char s) = map lower_char (dropWhile is_space s)"
  by (induction s) auto

lemma str_strip_lower [str_simps]: "str_strip (str_lower s) = str_lower (str_strip s)"
  by (simp add: str_strip_def str_lower_def dropWhile_lower rev_map)

lemma dropWhile_dropWhile: "dropWhile P (dropWhile P xs) = dropWhile P xs"
  by (induction xs) auto

lemma dropWhile_id: "xs = [] \<or> \<not> P (hd xs) \<Longrightarrow> dropWhile P xs = xs"
  by (cases xs) auto

lemma hd_rev_dropWhile_rev:
  "ys = [] \<or> \<not> P (hd ys) \<Longrightarrow>
   rev (dropWhile P (rev ys)) = [] \<or> \<not> P (hd (rev (dropWhile P (rev ys))))"
  by (cases ys) (auto simp: dropWhile_append)

lemma str_strip_idem [str_simps, simp]: "str_strip (str_strip s) = str_strip s"
proof -
  let ?t = "rev (dropWhile is_space (rev (dropWhile is_space s)))"
  have "dropWhile is_space s = [] \<or> \<not> is_space (hd (dropWhile is_space s))"
    using hd_dropWhile by blast
  then have "?t = [] \<or> \<not> is_space (hd ?t)"
    by (rule hd_rev_dropWhile_rev)
  then have "dropWhile is_space ?t = ?t" by (rule dropWhile_id)
  then show ?thesis by (simp add: str_strip_def dropWhile_dropWhile)
qed

section \<open>Decimals\<close>

type_synonym decimal = rat

definition round_half_even :: "rat \<Rightarrow> int" where
  "round_half_even x =
     (let f = \<lfloor>x\<rfloor>; r = x - of_int f
      in if r < 1 / 2 then f else if 1 / 2 < r then f + 1 else if even f then f else f + 1)"

definition quantize6 :: "decimal \<Rightarrow> decimal" where
  "quantize6 x = of_int (round_half_even (x * 1000000)) / 1000000"

lemma round_half_even_of_int [simp]: "round_half_even (of_int n) = n"
  by (simp add: round_half_even_def)

lemma round_half_even_error: "\<bar>of_int (round_half_even x) - x\<bar> \<le> 1 / 2"
proof -
  have "of_int \<lfloor>x\<rfloor> \<le> x" and "x < of_int \<lfloor>x\<rfloor> + 1" by linarith+
  then show ?thesis by (auto simp: round_half_even_def Let_def abs_le_iff)
qed

lemma quantize6_0 [simp]: "quantize6 0 = 0"
  using round_half_even_of_int [of 0] by (simp add: quantize6_def)

lemma quantize6_error: "\<bar>quantize6 x - x\<bar> \<le> 1 / 2000000"
proof -
  let ?r = "of_int (round_half_even (x * 1000000)) :: rat"
  have "\<bar>?r - x * 1000000\<bar> \<le> 1 / 2" by (rule round_half_even_error)
  moreover have "quantize6 x = ?r / 1000000" by (simp add: quantize6_def)
  ultimately show ?thesis unfolding abs_le_iff by linarith
qed

lemma quantize6_grid: "\<exists>n::int. quantize6 x = of_int n / 1000000"
  by (auto simp: quantize6_def)

lemma quantize6_idem [simp]: "quantize6 (quantize6 x) = quantize6 x"
proof -
  have "quantize6 x * 1000000 = of_int (round_half_even (x * 1000000))"
    by (simp add: quantize6_def)
  then show ?thesis unfolding quantize6_def [of "quantize6 x"] by (simp add: quantize6_def)
qed

section \<open>Dates and timestamps\<close>

type_synonym date = int

record py_datetime =
  dt_instant :: int
  dt_offset :: int

abbreviation DAY_US :: int where "DAY_US \<equiv> 86400000000"

definition dt_date :: "py_datetime \<Rightarrow> date" where
  "dt_date t = (dt_instant t + dt_offset t) div DAY_US"

definition utc_date :: "int \<Rightarrow> date" where
  "utc_date us = us div DAY_US"

definition as_utc_dt :: "int \<Rightarrow> py_datetime" where
  "as_utc_dt us = \<lparr>dt_instant = us, dt_offset = 0\<rparr>"

lemma dt_date_utc [simp]: "dt_date (as_utc_dt us) = utc_date us"
  by (simp add: dt_date_def as_utc_dt_def utc_date_def)

lemma utc_date_window: "utc_date us = d \<longleftrightarrow> d * DAY_US \<le> us \<and> us < d * DAY_US + DAY_US"
proof
  assume "utc_date us = d"
  then have d: "us div DAY_US = d" by (simp add: utc_date_def)
  have "us = us div DAY_US * DAY_US + us mod DAY_US" by simp
  moreover have "0 \<le> us mod DAY_US" and "us mod DAY_US < DAY_US" by simp_all
  ultimately show "d * DAY_US \<le> us \<and> us < d * DAY_US + DAY_US"
    unfolding d by linarith
next
  assume "d * DAY_US \<le> us \<and> us < d * DAY_US + DAY_US"
  then show "utc_date us = d" unfolding utc_date_def by auto
qed

section \<open>Selecting by a key\<close>

fun max_from :: "('a \<Rightarrow> 'b::linorder) \<Rightarrow> 'a \<Rightarrow> 'a list \<Rightarrow> 'a" where
  "max_from key b [] = b"
| "max_from key b (x # xs) = max_from key (if key b < key x then x else b) xs"

definition max_by :: "('a \<Rightarrow> 'b::linorder) \<Rightarrow> 'a list \<Rightarrow> 'a option" where
  "max_by key xs = (case xs of [] \<Rightarrow> None | x # ys \<Rightarrow> Some (max_from key x ys))"

fun min_from :: "('a \<Rightarrow> 'b::linorder) \<Rightarrow> 'a \<Rightarrow> 'a list \<Rightarrow> 'a" where
  "min_from key b [] = b"
| "min_from key b (x # xs) = min_from key (if key x < key b then x else b) xs"

definition min_by :: "('a \<Rightarrow> 'b::linorder) \<Rightarrow> 'a list \<Rightarrow> 'a option" where
  "min_by key xs = (case xs of [] \<Rightarrow> None | x # ys \<Rightarrow> Some (min_from key x ys))"

lemma max_from_in: "max_from key b xs \<in> insert b (set xs)"
proof (induction xs arbitrary: b)
  case Nil
  show ?case by simp
next
  case (Cons x xs)
  from Cons.IH [of "if key b < key x then x else b"] show ?case by (auto split: if_splits)
qed

lemma max_from_ge: "y \<in> insert b (set xs) \<Longrightarrow> key y \<le> key (max_from key b xs)"
proof (induction xs arbitrary: b y)
  case Nil
  then show ?case by simp
next
  case (Cons x xs)
  let ?b = "if key b < key x then x else b"
  have best: "key ?b \<le> key (max_from key ?b xs)" by (rule Cons.IH) simp
  consider "y = b" | "y = x" | "y \<in> set xs" using Cons.prems by auto
  then show ?case
  proof cases
    case 3
    then have "key y \<le> key (max_from key ?b xs)" by (intro Cons.IH) simp
    then show ?thesis by simp
  qed (use best in \<open>auto split: if_splits\<close>)
qed

lemma max_by_None [simp]: "max_by key xs = None \<longleftrightarrow> xs = []"
  by (simp add: max_by_def split: list.split)

lemma max_by_in: "max_by key xs = Some m \<Longrightarrow> m \<in> set xs"
  using max_from_in by (fastforce simp: max_by_def split: list.splits)

lemma max_by_ge: "max_by key xs = Some m \<Longrightarrow> y \<in> set xs \<Longrightarrow> key y \<le> key m"
  by (auto simp: max_by_def split: list.splits intro: max_from_ge)

lemma max_by_unique:
  assumes "max_by key xs = Some m" and "x \<in> set xs" and "\<And>y. y \<in> set xs \<Longrightarrow> key y \<le> key x"
    and "inj_on key (set xs)"
  shows "m = x"
proof -
  have m: "m \<in> set xs" using assms(1) by (rule max_by_in)
  have "key x \<le> key m" using assms(1,2) by (rule max_by_ge)
  moreover have "key m \<le> key x" using m by (rule assms(3))
  ultimately have "key m = key x" by simp
  then show ?thesis using assms(4) m assms(2) by (simp add: inj_on_eq_iff)
qed

lemma max_by_perm:
  assumes "set xs = set ys" and "inj_on key (set xs)"
  shows "max_by key xs = max_by key ys"
proof (cases "max_by key ys")
  case None
  with assms(1) show ?thesis by simp
next
  case (Some m)
  have m: "m \<in> set ys" using Some by (rule max_by_in)
  with assms(1) have "xs \<noteq> []" by auto
  then obtain n where n: "max_by key xs = Some n" by (cases "max_by key xs") simp_all
  have "n = m"
    using n
  proof (rule max_by_unique)
    show "m \<in> set xs" using m assms(1) by simp
    show "key y \<le> key m" if "y \<in> set xs" for y
      using Some that unfolding assms(1) by (rule max_by_ge)
  qed (rule assms(2))
  with n Some show ?thesis by simp
qed

section \<open>Lists\<close>

text \<open>\<open>sorted(xs, key=..., reverse=True)\<close> keeps the order of equal elements.\<close>

definition sort_desc :: "('a \<Rightarrow> 'b::linorder) \<Rightarrow> 'a list \<Rightarrow> 'a list" where
  "sort_desc key xs = rev (sort_key key (rev xs))"

lemma set_sort_desc [simp]: "set (sort_desc key xs) = set xs"
  by (simp add: sort_desc_def)

definition first_some :: "('a \<Rightarrow> 'b option) \<Rightarrow> 'a list \<Rightarrow> 'b option" where
  "first_some f xs = (case filter (\<lambda>x. f x \<noteq> None) xs of [] \<Rightarrow> None | x # _ \<Rightarrow> f x)"

lemma first_some_Nil [simp]: "first_some f [] = None"
  by (simp add: first_some_def)

lemma first_some_Cons [simp]:
  "first_some f (x # xs) = (case f x of None \<Rightarrow> first_some f xs | Some y \<Rightarrow> Some y)"
  by (auto simp: first_some_def split: option.split)

lemma first_some_append:
  "first_some f (xs @ ys) = (case first_some f xs of None \<Rightarrow> first_some f ys | Some y \<Rightarrow> Some y)"
  by (induction xs) (auto split: option.split)

lemma first_some_None: "first_some f xs = None \<longleftrightarrow> (\<forall>x \<in> set xs. f x = None)"
  by (induction xs) (auto split: option.split)

lemma first_some_cong:
  "(\<And>x. x \<in> set xs \<Longrightarrow> f x = g x) \<Longrightarrow> first_some f xs = first_some g xs"
  by (induction xs) (auto split: option.split)

lemma first_some_in: "first_some f xs = Some y \<Longrightarrow> \<exists>x \<in> set xs. f x = Some y"
  by (induction xs) (auto split: option.splits)

lemma first_some_filter:
  "(\<And>x. x \<in> set xs \<Longrightarrow> \<not> P x \<Longrightarrow> f x = None) \<Longrightarrow> first_some f (filter P xs) = first_some f xs"
  by (induction xs) (auto split: option.split)

end
