(* ===== verification/Core_Models.thy ===== *)
theory Core_Models
  imports Prelude
begin

text \<open>
  \<open>packages/core/src/tokemetry_core/models.py\<close>: the normalized value objects every provider adapter
  produces. A pydantic model is a record; its field constraints and validators are a \<open>validate_\<close>
  function that returns the error or the (possibly completed) value. A \<open>datetime\<close> field of an already
  validated object is timezone-aware; \<open>raw_datetime\<close> is what arrives before \<open>require_tz\<close>.
  JSON values (\<open>dict[str, Any]\<close>) are trees with objects in insertion order.
\<close>

section \<open>JSON values\<close>

datatype json =
    JNull
  | JBool bool
  | JInt int
  | JNum rat
  | JStr string
  | JArr "json list"
  | JObj "(string \<times> json) list"

section \<open>Errors\<close>

datatype model_error =
    TooShort string
  | Negative string
  | NaiveTimestamp
  | NotCanonical

text \<open>The first failing constraint of a list of checks, or the value.\<close>

fun first_error :: "('e option) list \<Rightarrow> 'a \<Rightarrow> 'e + 'a" where
  "first_error [] a = Inr a"
| "first_error (None # cs) a = first_error cs a"
| "first_error (Some e # cs) a = Inl e"

definition min_length1 :: "string \<Rightarrow> string \<Rightarrow> model_error option" where
  "min_length1 name s = (if s = [] then Some (TooShort name) else None)"

definition ge0 :: "string \<Rightarrow> 'a::{linorder,zero} \<Rightarrow> model_error option" where
  "ge0 name n = (if n < 0 then Some (Negative name) else None)"

definition ge0_opt :: "string \<Rightarrow> 'a::{linorder,zero} option \<Rightarrow> model_error option" where
  "ge0_opt name n = (case n of None \<Rightarrow> None | Some k \<Rightarrow> ge0 name k)"

lemma first_error_Inr: "first_error cs a = Inr b \<longleftrightarrow> b = a \<and> (\<forall>c \<in> set cs. c = None)"
  by (induction cs a rule: first_error.induct) auto

lemma min_length1_None [simp]: "min_length1 name s = None \<longleftrightarrow> s \<noteq> []"
  by (simp add: min_length1_def)

lemma ge0_None [simp]: "ge0 name n = None \<longleftrightarrow> 0 \<le> n"
  by (auto simp: ge0_def)

lemma ge0_opt_None [simp]: "ge0_opt name n = None \<longleftrightarrow> (\<forall>k. n = Some k \<longrightarrow> 0 \<le> k)"
  by (auto simp: ge0_opt_def split: option.split)

section \<open>Timestamps\<close>

datatype raw_datetime = Naive int | Aware py_datetime

definition require_tz :: "raw_datetime \<Rightarrow> model_error + py_datetime" where
  "require_tz t = (case t of Naive us \<Rightarrow> Inl NaiveTimestamp | Aware d \<Rightarrow> Inr d)"

text \<open>Stored timestamps may come back without a zone (SQLite); they are then UTC.\<close>

definition raw_as_utc :: "raw_datetime \<Rightarrow> py_datetime" where
  "raw_as_utc t = (case t of Naive us \<Rightarrow> as_utc_dt us | Aware d \<Rightarrow> d)"

section \<open>Value objects\<close>

datatype provenance = OFFICIAL | LOCAL_ESTIMATE | STATS_CACHE | IMPORTED | ADJUSTED

fun provenance_str :: "provenance \<Rightarrow> string" where
  "provenance_str OFFICIAL = ''official''"
| "provenance_str LOCAL_ESTIMATE = ''local_estimate''"
| "provenance_str STATS_CACHE = ''stats_cache''"
| "provenance_str IMPORTED = ''imported''"
| "provenance_str ADJUSTED = ''adjusted''"

record usage_event =
  ue_event_id :: string
  ue_provider :: string
  ue_native_model :: string
  ue_ts :: py_datetime
  ue_machine :: "string option"
  ue_session_id :: "string option"
  ue_project :: "string option"
  ue_git_branch :: "string option"
  ue_client_version :: "string option"
  ue_entrypoint :: "string option"
  ue_is_sidechain :: bool
  ue_session_kind :: "string option"
  ue_input_tokens :: int
  ue_output_tokens :: int
  ue_cache_read_tokens :: int
  ue_cache_write_short_tokens :: int
  ue_cache_write_long_tokens :: int
  ue_service_tier :: "string option"
  ue_speed :: "string option"
  ue_provenance :: provenance
  ue_extra :: "(string \<times> json) list"

definition validate_usage_event :: "usage_event \<Rightarrow> model_error + usage_event" where
  "validate_usage_event e = first_error
     [min_length1 ''event_id'' (ue_event_id e),
      min_length1 ''provider'' (ue_provider e),
      min_length1 ''native_model'' (ue_native_model e),
      ge0 ''input_tokens'' (ue_input_tokens e),
      ge0 ''output_tokens'' (ue_output_tokens e),
      ge0 ''cache_read_tokens'' (ue_cache_read_tokens e),
      ge0 ''cache_write_short_tokens'' (ue_cache_write_short_tokens e),
      ge0 ''cache_write_long_tokens'' (ue_cache_write_long_tokens e)] e"

definition ue_total_tokens :: "usage_event \<Rightarrow> int" where
  "ue_total_tokens e = ue_input_tokens e + ue_output_tokens e + ue_cache_read_tokens e
     + ue_cache_write_short_tokens e + ue_cache_write_long_tokens e"

record daily_aggregate =
  da_provider :: string
  da_day :: date
  da_native_model :: string
  da_machine :: "string option"
  da_input_tokens :: int
  da_output_tokens :: int
  da_cache_read_tokens :: int
  da_cache_write_short_tokens :: int
  da_cache_write_long_tokens :: int
  da_total_tokens :: int
  da_message_count :: int
  da_provenance :: provenance

definition da_default_total :: "daily_aggregate \<Rightarrow> int" where
  "da_default_total a =
     (if da_total_tokens a \<noteq> 0 then da_total_tokens a
      else da_input_tokens a + da_output_tokens a + da_cache_read_tokens a
        + da_cache_write_short_tokens a + da_cache_write_long_tokens a)"

definition validate_daily_aggregate :: "daily_aggregate \<Rightarrow> model_error + daily_aggregate" where
  "validate_daily_aggregate a = first_error
     [min_length1 ''provider'' (da_provider a),
      min_length1 ''native_model'' (da_native_model a),
      ge0 ''input_tokens'' (da_input_tokens a),
      ge0 ''output_tokens'' (da_output_tokens a),
      ge0 ''cache_read_tokens'' (da_cache_read_tokens a),
      ge0 ''cache_write_short_tokens'' (da_cache_write_short_tokens a),
      ge0 ''cache_write_long_tokens'' (da_cache_write_long_tokens a),
      ge0 ''total_tokens'' (da_total_tokens a),
      ge0 ''message_count'' (da_message_count a)]
     (a\<lparr>da_total_tokens := da_default_total a\<rparr>)"

record limit_snapshot =
  ls_provider :: string
  ls_ts :: py_datetime
  ls_machine :: "string option"
  ls_window_kind :: string
  ls_utilization_pct :: rat
  ls_resets_at :: "py_datetime option"
  ls_provenance :: provenance
  ls_account :: "string option"
  ls_organization :: "string option"
  ls_limit_amount :: "rat option"
  ls_remaining :: "rat option"
  ls_unit :: "string option"
  ls_raw :: "(string \<times> json) list"

definition validate_limit_snapshot :: "limit_snapshot \<Rightarrow> model_error + limit_snapshot" where
  "validate_limit_snapshot s = first_error
     [min_length1 ''provider'' (ls_provider s),
      min_length1 ''window_kind'' (ls_window_kind s),
      ge0 ''utilization_pct'' (ls_utilization_pct s),
      ge0_opt ''limit_amount'' (ls_limit_amount s),
      ge0_opt ''remaining'' (ls_remaining s)] s"

record source_file =
  sf_path :: string
  sf_size :: int

record parse_result =
  pr_events :: "usage_event list"
  pr_new_offset :: int
  pr_malformed_lines :: int

record price_row =
  pw_provider :: string
  pw_model :: string
  pw_effective_date :: date
  pw_input_per_mtok :: decimal
  pw_output_per_mtok :: decimal
  pw_cache_read_per_mtok :: decimal
  pw_cache_write_short_per_mtok :: decimal
  pw_cache_write_long_per_mtok :: decimal

definition validate_price_row :: "price_row \<Rightarrow> model_error + price_row" where
  "validate_price_row p = first_error
     [min_length1 ''provider'' (pw_provider p),
      min_length1 ''model'' (pw_model p),
      ge0 ''input_per_mtok'' (pw_input_per_mtok p),
      ge0 ''output_per_mtok'' (pw_output_per_mtok p),
      ge0 ''cache_read_per_mtok'' (pw_cache_read_per_mtok p),
      ge0 ''cache_write_short_per_mtok'' (pw_cache_write_short_per_mtok p),
      ge0 ''cache_write_long_per_mtok'' (pw_cache_write_long_per_mtok p)] p"

datatype period_kind = Rolling | Calendar | Opaque

record window_descriptor =
  wd_kind :: string
  wd_label :: string
  wd_period_kind :: period_kind
  wd_period_seconds :: "int option"
  wd_sort_order :: int

record provider_descriptor =
  pd_id :: string
  pd_display_name :: string
  pd_aliases :: "string list"
  pd_pricing_strategy :: string
  pd_limit_semantics :: string
  pd_supported_dimensions :: "string list"
  pd_windows :: "window_descriptor list"

definition validate_provider_descriptor ::
  "provider_descriptor \<Rightarrow> model_error + provider_descriptor" where
  "validate_provider_descriptor d = first_error
     [min_length1 ''id'' (pd_id d),
      min_length1 ''display_name'' (pd_display_name d),
      if pd_id d \<noteq> str_lower (str_strip (pd_id d)) then Some NotCanonical else None]
     (d\<lparr>pd_aliases := map (\<lambda>a. str_lower (str_strip a)) (pd_aliases d)\<rparr>)"

text \<open>
  A validated daily aggregate has a total: the sum of its split counters when the source gave
  none, the given total otherwise, and validating it again changes nothing. The hypothesis is that
  the aggregate passed validation.
\<close>

theorem validated_aggregate_total:
  assumes "validate_daily_aggregate a = Inr b"
  shows "validate_daily_aggregate b = Inr b
    \<and> (da_total_tokens a = 0 \<longrightarrow> da_total_tokens b = da_input_tokens b + da_output_tokens b
         + da_cache_read_tokens b + da_cache_write_short_tokens b + da_cache_write_long_tokens b)
    \<and> (da_total_tokens a \<noteq> 0 \<longrightarrow> b = a) \<and> 0 \<le> da_total_tokens b"
  using assms
  by (auto simp: validate_daily_aggregate_def first_error_Inr da_default_total_def)

theorem validated_aggregate_total_witness:
  "\<exists>b. validate_daily_aggregate \<lparr>da_provider = ''fake'', da_day = 20453, da_native_model = ''m'',
       da_machine = None, da_input_tokens = 1000, da_output_tokens = 500, da_cache_read_tokens = 0,
       da_cache_write_short_tokens = 0, da_cache_write_long_tokens = 0, da_total_tokens = 0,
       da_message_count = 10, da_provenance = STATS_CACHE\<rparr> = Inr b
     \<and> validate_daily_aggregate b = Inr b \<and> da_total_tokens b = 1500"
proof -
  let ?a = "\<lparr>da_provider = ''fake'', da_day = 20453, da_native_model = ''m'',
       da_machine = None, da_input_tokens = 1000, da_output_tokens = 500, da_cache_read_tokens = 0,
       da_cache_write_short_tokens = 0, da_cache_write_long_tokens = 0, da_total_tokens = 0,
       da_message_count = 10, da_provenance = STATS_CACHE\<rparr>"
  let ?b = "?a\<lparr>da_total_tokens := 1500\<rparr>"
  have h: "validate_daily_aggregate ?a = Inr ?b"
    by (simp add: validate_daily_aggregate_def first_error_Inr da_default_total_def)
  show ?thesis using h validated_aggregate_total [OF h] by auto
qed

end
