(* ===== verification/Py_Json.thy ===== *)
theory Py_Json
  imports Core_Models
begin

text \<open>
  What the code relies on when it reads parsed JSON: \<open>dict.get\<close> (a missing key and \<open>null\<close> are both
  \<open>None\<close>), \<open>Decimal(str(value))\<close> with the literals the \<open>decimal\<close> module accepts for finite numbers
  (sign, digits, fraction, exponent; the underscore and special-value spellings are refused here),
  and \<open>json.dumps(..., sort_keys=True)\<close> as the tree with every object's keys sorted.
\<close>

datatype value_error = InvalidDecimal | Unhashable | Invalid model_error

definition jget :: "(string \<times> json) list \<Rightarrow> string \<Rightarrow> json option" where
  "jget d k = (case map_of d k of None \<Rightarrow> None | Some JNull \<Rightarrow> None | Some v \<Rightarrow> Some v)"

fun jopt :: "string option \<Rightarrow> json" where
  "jopt None = JNull" | "jopt (Some s) = JStr s"

fun jopt_num :: "rat option \<Rightarrow> json" where
  "jopt_num None = JNull" | "jopt_num (Some q) = JNum q"

section \<open>Decimal literals\<close>

definition nat_of_digits :: "string \<Rightarrow> nat" where
  "nat_of_digits ds = foldl (\<lambda>n c. 10 * n + (of_char c - 48)) 0 ds"

text \<open>\<open>str(n)\<close> of a natural number.\<close>

fun str_of_nat :: "nat \<Rightarrow> string" where
  "str_of_nat n = (if n < 10 then [char_of (48 + n)] else str_of_nat (n div 10) @ [char_of (48 + n mod 10)])"

declare str_of_nat.simps [simp del]

lemma of_char_digit: "d < 10 \<Longrightarrow> (of_char (char_of (48 + d :: nat)) :: nat) = 48 + d"
  by simp

lemma nat_of_digits_snoc: "nat_of_digits (ds @ [c]) = 10 * nat_of_digits ds + (of_char c - 48)"
  by (simp add: nat_of_digits_def)

lemma nat_of_digits_str_of_nat [simp]: "nat_of_digits (str_of_nat n) = n"
proof (induction n rule: str_of_nat.induct)
  case (1 n)
  show ?case
  proof (cases "n < 10")
    case True
    then show ?thesis by (simp add: str_of_nat.simps [of n] nat_of_digits_def)
  next
    case False
    with 1 show ?thesis
      by (simp add: str_of_nat.simps [of n] nat_of_digits_snoc)
  qed
qed

lemma is_digit_digit: "d < 10 \<Longrightarrow> is_digit (char_of (48 + d :: nat))"
  by (simp add: is_digit_def Let_def)

lemma digits_str_of_nat [simp]: "list_all is_digit (str_of_nat n)"
proof (induction n rule: str_of_nat.induct)
  case (1 n)
  then show ?case by (cases "n < 10") (simp_all add: str_of_nat.simps [of n] is_digit_digit)
qed

lemma str_of_nat_ne [simp]: "str_of_nat n \<noteq> []"
  by (simp add: str_of_nat.simps [of n])

definition pow10 :: "int \<Rightarrow> rat" where
  "pow10 e = (if 0 \<le> e then 10 ^ nat e else 1 / 10 ^ nat (- e))"

definition split_sign :: "string \<Rightarrow> bool \<times> string" where
  "split_sign s = (case s of [] \<Rightarrow> (False, [])
     | c # t \<Rightarrow> if c = CHR ''-'' then (True, t) else if c = CHR ''+'' then (False, t) else (False, s))"

definition parse_exponent :: "string \<Rightarrow> int option" where
  "parse_exponent r = (case r of [] \<Rightarrow> Some 0
     | c # t \<Rightarrow>
         (let (neg, ds) = split_sign t
          in if (c = CHR ''e'' \<or> c = CHR ''E'') \<and> ds \<noteq> [] \<and> list_all is_digit ds
             then Some ((if neg then - 1 else 1) * int (nat_of_digits ds)) else None))"

definition parse_decimal :: "string \<Rightarrow> decimal option" where
  "parse_decimal s =
     (let (neg, t) = split_sign (str_strip s);
          ip = takeWhile is_digit t;
          r = dropWhile is_digit t;
          (fp, r') = (case r of [] \<Rightarrow> ([], [])
             | c # u \<Rightarrow> if c = CHR ''.'' then (takeWhile is_digit u, dropWhile is_digit u) else ([], r))
      in if ip = [] \<and> fp = [] then None
         else case parse_exponent r' of None \<Rightarrow> None
           | Some e \<Rightarrow> Some ((if neg then - 1 else 1) * of_nat (nat_of_digits (ip @ fp))
                              * pow10 (e - int (length fp))))"

definition to_decimal :: "json \<Rightarrow> value_error + decimal" where
  "to_decimal v = (case v of
     JInt n \<Rightarrow> Inr (of_int n)
   | JNum q \<Rightarrow> Inr q
   | JStr s \<Rightarrow> (case parse_decimal s of None \<Rightarrow> Inl InvalidDecimal | Some q \<Rightarrow> Inr q)
   | _ \<Rightarrow> Inl InvalidDecimal)"

lemma parse_decimal_examples:
  "parse_decimal ''0.0000022'' = Some (11 / 5000000)"
  "parse_decimal ''5'' = Some 5" "parse_decimal ''-1.5e-3'' = Some (- 3 / 2000)"
  "parse_decimal ''True'' = None"
  by code_simp+

section \<open>Canonical trees\<close>

text \<open>Insertion of an entry by key; equal keys do not occur in a dict.\<close>

fun insert_entry :: "string \<times> json \<Rightarrow> (string \<times> json) list \<Rightarrow> (string \<times> json) list" where
  "insert_entry e [] = [e]"
| "insert_entry e (f # fs) = (if fst e \<le> fst f then e # f # fs else f # insert_entry e fs)"

fun sort_keys :: "json \<Rightarrow> json"
  and sort_keys_list :: "json list \<Rightarrow> json list"
  and sort_keys_entries :: "(string \<times> json) list \<Rightarrow> (string \<times> json) list" where
  "sort_keys (JArr vs) = JArr (sort_keys_list vs)"
| "sort_keys (JObj es) = JObj (sort_keys_entries es)"
| "sort_keys v = v"
| "sort_keys_list [] = []"
| "sort_keys_list (v # vs) = sort_keys v # sort_keys_list vs"
| "sort_keys_entries [] = []"
| "sort_keys_entries ((k, v) # es) = insert_entry (k, sort_keys v) (sort_keys_entries es)"

end
