(* ===== verification/Units.thy ===== *)
theory Units
  imports Prelude
begin

text \<open>
  \<open>packages/core/src/tokemetry_core/units.py\<close>: the billable unit vocabulary and the validation of an
  event's \<open>billable_units\<close> map. Quantities are finite, so they are rationals.
\<close>

definition TOKEN_UNIT_TYPES :: "string list" where
  "TOKEN_UNIT_TYPES =
     [''input_token'', ''output_token'', ''cache_read_token'', ''cache_write_short_token'',
      ''cache_write_long_token'', ''reasoning_token'', ''batch_input_token'', ''batch_output_token'']"

definition BILLABLE_UNIT_TYPES :: "string list" where
  "BILLABLE_UNIT_TYPES =
     [''request'', ''web_search_request'', ''tool_call'', ''image_input'', ''image_output'',
      ''audio_input_second'', ''audio_output_second'', ''video_second'', ''storage_byte_hour'']"

definition ALL_UNIT_TYPES :: "string list" where
  "ALL_UNIT_TYPES = TOKEN_UNIT_TYPES @ BILLABLE_UNIT_TYPES"

definition MAX_BILLABLE_UNITS :: nat where
  "MAX_BILLABLE_UNITS = 32"

datatype unit_error =
    TooManyUnits nat
  | TokenUnit string
  | UnknownUnit string
  | NegativeQuantity string

fun validate_unit_entries ::
  "(string, rat) dict \<Rightarrow> (string, rat) dict \<Rightarrow> unit_error + (string, rat) dict" where
  "validate_unit_entries result [] = Inr result"
| "validate_unit_entries result ((unit_type, quantity) # rest) =
     (if unit_type \<in> set TOKEN_UNIT_TYPES then Inl (TokenUnit unit_type)
      else if unit_type \<notin> set BILLABLE_UNIT_TYPES then Inl (UnknownUnit unit_type)
      else if quantity < 0 then Inl (NegativeQuantity unit_type)
      else validate_unit_entries (dset unit_type quantity result) rest)"

definition validate_billable_units :: "(string, rat) dict \<Rightarrow> unit_error + (string, rat) dict" where
  "validate_billable_units units =
     (if length units > MAX_BILLABLE_UNITS then Inl (TooManyUnits (length units))
      else validate_unit_entries [] units)"

definition known_unit_types :: "string list" where
  "known_unit_types = sort ALL_UNIT_TYPES"

lemma token_not_billable: "u \<in> set TOKEN_UNIT_TYPES \<Longrightarrow> u \<notin> set BILLABLE_UNIT_TYPES"
  by (auto simp: TOKEN_UNIT_TYPES_def BILLABLE_UNIT_TYPES_def)

lemma dset_fold_new:
  "distinct (dkeys (result @ units)) \<Longrightarrow> validate_unit_entries result units = Inr out \<Longrightarrow>
   out = result @ units"
proof (induction result units rule: validate_unit_entries.induct)
  case (2 result u q rest)
  then have "dset u q result = result @ [(u, q)]" by (intro dset_new) auto
  with 2 show ?case by (simp split: if_splits)
qed simp

lemma validate_unit_entries_ok:
  "validate_unit_entries result units = Inr out \<longleftrightarrow>
   out = foldl (\<lambda>d (u, q). dset u q d) result units
   \<and> (\<forall>(u, q) \<in> set units. u \<in> set BILLABLE_UNIT_TYPES \<and> 0 \<le> q)"
  by (induction result units rule: validate_unit_entries.induct)
     (auto dest: token_not_billable)

text \<open>
  \<open>validate_billable_units\<close> accepts exactly the maps of at most 32 entries whose keys are
  non-token unit types and whose quantities are non-negative, and returns them unchanged; every other
  map is refused. The hypothesis says that the argument is a dict: no key occurs twice.
\<close>

theorem validate_billable_units_iff:
  assumes "distinct (dkeys units)"
  shows "validate_billable_units units =  Inr out \<longleftrightarrow>
    out = units \<and> length units \<le> 32
    \<and> (\<forall>(u, q) \<in> set units. u \<in> set BILLABLE_UNIT_TYPES \<and> u \<notin> set TOKEN_UNIT_TYPES \<and> 0 \<le> q)"
proof -
  have keep: "out = units" if "validate_unit_entries [] units = Inr out" for out
    using dset_fold_new [of "[]" units out] assms that by simp
  have "validate_unit_entries [] units = Inr out \<longleftrightarrow>
      out = units \<and> (\<forall>(u, q) \<in> set units. u \<in> set BILLABLE_UNIT_TYPES \<and> 0 \<le> q)"
    using keep validate_unit_entries_ok [of "[]" units] by (metis (no_types, lifting))
  then show ?thesis
    using token_not_billable
    by (auto simp: validate_billable_units_def MAX_BILLABLE_UNITS_def split_beta)
qed

theorem validate_billable_units_iff_witness:
  "validate_billable_units [(''web_search_request'', 3)] = Inr [(''web_search_request'', 3)]
   \<and> \<not> (\<exists>out. validate_billable_units [(''input_token'', 3)] = Inr out)"
proof -
  have d: "distinct (dkeys [(''web_search_request'', 3::rat)])"
    and d': "distinct (dkeys [(''input_token'', 3::rat)])" by simp_all
  show ?thesis
    using validate_billable_units_iff [OF d, of "[(''web_search_request'', 3)]"]
      validate_billable_units_iff [OF d']
    by (simp add: BILLABLE_UNIT_TYPES_def TOKEN_UNIT_TYPES_def)
qed

end
