(* ===== verification/Usage_V2.thy ===== *)
theory Usage_V2
  imports Core_Models Units Py_Json
begin

text \<open>
  \<open>packages/core/src/tokemetry_core/usage_v2.py\<close>: the provider-neutral v2 wire models. As in
  \<open>Core_Models\<close>, a pydantic model is a record and its validators a function with an error sum. A
  \<open>Decimal\<close> that is only carried along (\<open>observed_cost\<close>) keeps its coefficient and exponent, since its
  text depends on them.
\<close>

datatype pydecimal = Dec int int

fun dec_value :: "pydecimal \<Rightarrow> rat" where
  "dec_value (Dec c e) = of_int c * pow10 e"

definition SCHEMA_VERSION :: int where
  "SCHEMA_VERSION = 2"

datatype event_kind = Attempt | Logical_Request | Import | Adjustment

fun event_kind_str :: "event_kind \<Rightarrow> string" where
  "event_kind_str Attempt = ''attempt''"
| "event_kind_str Logical_Request = ''logical_request''"
| "event_kind_str Import = ''import''"
| "event_kind_str Adjustment = ''adjustment''"

datatype finality = Snapshot | Final

fun finality_str :: "finality \<Rightarrow> string" where
  "finality_str Snapshot = ''snapshot''"
| "finality_str Final = ''final''"

datatype source_type = Collector_Source | Gateway_Source | Sdk_Source | Importer_Source | Manual_Source

fun source_type_str :: "source_type \<Rightarrow> string" where
  "source_type_str Collector_Source = ''collector''"
| "source_type_str Gateway_Source = ''gateway''"
| "source_type_str Sdk_Source = ''sdk''"
| "source_type_str Importer_Source = ''importer''"
| "source_type_str Manual_Source = ''manual''"

record source_ref =
  sr_type :: source_type
  sr_name :: string
  sr_version :: string
  sr_instance_id :: "string option"

record routing =
  ro_policy :: "string option"
  ro_reason :: "string option"
  ro_attempt_index :: "int option"
  ro_fallback_from :: "string option"
  ro_fallback_trigger :: "string option"

record usage_event_v2 =
  e2_schema_version :: int
  e2_event_id :: string
  e2_event_kind :: event_kind
  e2_finality :: finality
  e2_sequence :: int
  e2_logical_request_id :: "string option"
  e2_attempt_id :: "string option"
  e2_provider_request_id :: "string option"
  e2_provider_response_id :: "string option"
  e2_provider :: string
  e2_native_model :: string
  e2_requested_model :: "string option"
  e2_routed_model :: "string option"
  e2_ts_started :: py_datetime
  e2_ts_first_token :: "py_datetime option"
  e2_ts_completed :: "py_datetime option"
  e2_machine :: "string option"
  e2_project :: "string option"
  e2_session_id :: "string option"
  e2_agent_id :: "string option"
  e2_environment :: "string option"
  e2_input_tokens :: int
  e2_output_tokens :: int
  e2_cache_read_tokens :: int
  e2_cache_write_short_tokens :: int
  e2_cache_write_long_tokens :: int
  e2_reasoning_tokens :: int
  e2_success :: bool
  e2_outcome :: "string option"
  e2_http_status :: "int option"
  e2_stop_reason :: "string option"
  e2_service_tier :: "string option"
  e2_streaming :: "bool option"
  e2_latency_ms :: "int option"
  e2_time_to_first_token_ms :: "int option"
  e2_tool_call_count :: int
  e2_tool_histogram :: "(string, int) dict option"
  e2_provenance :: provenance
  e2_source :: source_ref
  e2_routing :: "routing option"
  e2_dimensions :: "(string, string) dict"
  e2_billable_units :: "(string, rat) dict option"
  e2_observed_cost :: "pydecimal option"
  e2_extra :: "(string \<times> json) list"
  e2_trace_id :: "string option"
  e2_span_id :: "string option"
  e2_parent_span_id :: "string option"

datatype wire_error = BadField model_error | BadUnits unit_error | BadSchemaVersion int

definition check_routing :: "routing option \<Rightarrow> model_error option" where
  "check_routing r = (case r of None \<Rightarrow> None | Some ro \<Rightarrow> ge0_opt ''attempt_index'' (ro_attempt_index ro))"

definition validate_usage_event_v2 :: "usage_event_v2 \<Rightarrow> wire_error + usage_event_v2" where
  "validate_usage_event_v2 e =
     (if e2_schema_version e \<noteq> SCHEMA_VERSION then Inl (BadSchemaVersion (e2_schema_version e))
      else case first_error
        [min_length1 ''event_id'' (e2_event_id e), ge0 ''sequence'' (e2_sequence e),
         min_length1 ''provider'' (e2_provider e), min_length1 ''native_model'' (e2_native_model e),
         ge0 ''input_tokens'' (e2_input_tokens e), ge0 ''output_tokens'' (e2_output_tokens e),
         ge0 ''cache_read_tokens'' (e2_cache_read_tokens e),
         ge0 ''cache_write_short_tokens'' (e2_cache_write_short_tokens e),
         ge0 ''cache_write_long_tokens'' (e2_cache_write_long_tokens e),
         ge0 ''reasoning_tokens'' (e2_reasoning_tokens e), ge0_opt ''latency_ms'' (e2_latency_ms e),
         ge0_opt ''time_to_first_token_ms'' (e2_time_to_first_token_ms e),
         ge0 ''tool_call_count'' (e2_tool_call_count e),
         min_length1 ''name'' (sr_name (e2_source e)), min_length1 ''version'' (sr_version (e2_source e)),
         check_routing (e2_routing e),
         ge0_opt ''observed_cost'' (map_option dec_value (e2_observed_cost e))] () of
        Inl err \<Rightarrow> Inl (BadField err)
      | Inr _ \<Rightarrow>
          (case e2_billable_units e of None \<Rightarrow> Inr e
           | Some units \<Rightarrow> (case validate_billable_units units of
               Inl err \<Rightarrow> Inl (BadUnits err)
             | Inr out \<Rightarrow> Inr (e\<lparr>e2_billable_units := Some out\<rparr>))))"

definition e2_total_tokens :: "usage_event_v2 \<Rightarrow> int" where
  "e2_total_tokens e = e2_input_tokens e + e2_output_tokens e + e2_cache_read_tokens e
     + e2_cache_write_short_tokens e + e2_cache_write_long_tokens e + e2_reasoning_tokens e"

section \<open>Limits and aggregates\<close>

record limit_snapshot_v2 =
  l2_schema_version :: int
  l2_provider :: string
  l2_window_kind :: string
  l2_ts :: py_datetime
  l2_utilization_pct :: rat
  l2_account :: "string option"
  l2_organization :: "string option"
  l2_machine :: "string option"
  l2_source :: "source_ref option"
  l2_remaining :: "rat option"
  l2_limit_amount :: "rat option"
  l2_unit :: "string option"
  l2_resets_at :: "py_datetime option"
  l2_provenance :: provenance

definition validate_limit_snapshot_v2 :: "limit_snapshot_v2 \<Rightarrow> wire_error + limit_snapshot_v2" where
  "validate_limit_snapshot_v2 s =
     (if l2_schema_version s \<noteq> SCHEMA_VERSION then Inl (BadSchemaVersion (l2_schema_version s))
      else case first_error
        [min_length1 ''provider'' (l2_provider s), min_length1 ''window_kind'' (l2_window_kind s),
         ge0 ''utilization_pct'' (l2_utilization_pct s), ge0_opt ''remaining'' (l2_remaining s),
         ge0_opt ''limit_amount'' (l2_limit_amount s)] s of
        Inl err \<Rightarrow> Inl (BadField err) | Inr s' \<Rightarrow> Inr s')"

record aggregate_import_v2 =
  a2_schema_version :: int
  a2_provider :: string
  a2_day :: date
  a2_native_model :: string
  a2_machine :: "string option"
  a2_input_tokens :: int
  a2_output_tokens :: int
  a2_cache_read_tokens :: int
  a2_cache_write_short_tokens :: int
  a2_cache_write_long_tokens :: int
  a2_reasoning_tokens :: int
  a2_total_tokens :: int
  a2_message_count :: int
  a2_provenance :: provenance

definition a2_default_total :: "aggregate_import_v2 \<Rightarrow> int" where
  "a2_default_total a =
     (if a2_total_tokens a \<noteq> 0 then a2_total_tokens a
      else a2_input_tokens a + a2_output_tokens a + a2_cache_read_tokens a
        + a2_cache_write_short_tokens a + a2_cache_write_long_tokens a + a2_reasoning_tokens a)"

definition validate_aggregate_import_v2 :: "aggregate_import_v2 \<Rightarrow> wire_error + aggregate_import_v2" where
  "validate_aggregate_import_v2 a =
     (if a2_schema_version a \<noteq> SCHEMA_VERSION then Inl (BadSchemaVersion (a2_schema_version a))
      else case first_error
        [min_length1 ''provider'' (a2_provider a), min_length1 ''native_model'' (a2_native_model a),
         ge0 ''input_tokens'' (a2_input_tokens a), ge0 ''output_tokens'' (a2_output_tokens a),
         ge0 ''cache_read_tokens'' (a2_cache_read_tokens a),
         ge0 ''cache_write_short_tokens'' (a2_cache_write_short_tokens a),
         ge0 ''cache_write_long_tokens'' (a2_cache_write_long_tokens a),
         ge0 ''reasoning_tokens'' (a2_reasoning_tokens a), ge0 ''total_tokens'' (a2_total_tokens a),
         ge0 ''message_count'' (a2_message_count a)] (a\<lparr>a2_total_tokens := a2_default_total a\<rparr>) of
        Inl err \<Rightarrow> Inl (BadField err) | Inr a' \<Rightarrow> Inr a')"

section \<open>What a validated event guarantees\<close>

lemma first_error_all_None: "first_error cs () = Inr u \<longleftrightarrow> (\<forall>c \<in> set cs. c = None)"
  using first_error_Inr [of cs "()" u] by simp

lemma validated_counters:
  assumes "validate_usage_event_v2 e = Inr e'"
  shows "0 \<le> e2_input_tokens e'" "0 \<le> e2_output_tokens e'" "0 \<le> e2_cache_read_tokens e'"
    "0 \<le> e2_cache_write_short_tokens e'" "0 \<le> e2_cache_write_long_tokens e'"
    "0 \<le> e2_reasoning_tokens e'" "0 \<le> e2_sequence e'" "e2_event_id e' \<noteq> []" "e2_provider e' \<noteq> []"
    "e2_native_model e' \<noteq> []" "e2_schema_version e' = 2"
  using assms
  by (auto simp: validate_usage_event_v2_def first_error_all_None SCHEMA_VERSION_def
      split: sum.splits option.splits if_splits)

lemma validated_units:
  assumes "validate_usage_event_v2 e = Inr e'" and "e2_billable_units e = Some units"
    and "distinct (dkeys units)"
  shows "e2_billable_units e' = Some units \<and> length units \<le> MAX_BILLABLE_UNITS
    \<and> (\<forall>u \<in> set (dkeys units). u \<in> set BILLABLE_UNIT_TYPES)"
proof -
  obtain out where v: "validate_billable_units units = Inr out" and e': "e' = e\<lparr>e2_billable_units := Some out\<rparr>"
    using assms(1,2) by (auto simp: validate_usage_event_v2_def split: sum.splits if_splits)
  have "out = units"
    using dset_fold_new [of "[]" units out] v assms(3)
    by (simp add: validate_billable_units_def split: if_splits)
  with v e' validate_unit_entries_ok [of "[]" units out] show ?thesis
    by (auto simp: validate_billable_units_def split: if_splits)
qed

end
