(* ===== verification/Pricing_Strategies.thy ===== *)
theory Pricing_Strategies
  imports Core_Models Units
begin

text \<open>
  The provider plugins of the v2 cost path: \<open>ProviderPricingStrategyV2\<close> of \<open>interfaces.py\<close> (the token
  unit types a provider bills and its reasoning rule, turned into priceable quantities) and the four
  strategies of \<open>pricing/strategies/\<close>. The abstract class is the locale \<open>billing_plugin\<close>: what a
  subclass must provide are its assumptions, and each strategy of the code is an interpretation.
\<close>

datatype reasoning_billing = FOLD_INTO_OUTPUT | SEPARATE_IF_RATED

record pricing_strategy_v2 =
  ps_provider :: string
  ps_reasoning_billing :: reasoning_billing
  ps_emitted_token_units :: "string list"

definition needs_reasoning_rate :: "pricing_strategy_v2 \<Rightarrow> int \<Rightarrow> bool" where
  "needs_reasoning_rate s reasoning_tokens \<longleftrightarrow>
     reasoning_tokens > 0 \<and> ps_reasoning_billing s = SEPARATE_IF_RATED"

definition emitted_quantities ::
  "pricing_strategy_v2 \<Rightarrow> (string, int) dict \<Rightarrow> (string, decimal) dict" where
  "emitted_quantities s token_counts =
     map (\<lambda>(u, c). (u, of_int c)) (filter (\<lambda>(u, c). u \<in> set (ps_emitted_token_units s)) token_counts)"

definition fold_target :: "pricing_strategy_v2 \<Rightarrow> bool \<Rightarrow> string" where
  "fold_target s rate_available =
     (if ps_reasoning_billing s = SEPARATE_IF_RATED \<and> rate_available
      then ''reasoning_token'' else ''output_token'')"

definition add_billable :: "(string, rat) dict \<Rightarrow> (string, decimal) dict \<Rightarrow> (string, decimal) dict" where
  "add_billable billable_units quantities = foldl (\<lambda>d (u, q). dadd u q d) quantities billable_units"

definition strategy_quantities ::
  "pricing_strategy_v2 \<Rightarrow> (string, int) dict \<Rightarrow> int \<Rightarrow> (string, rat) dict \<Rightarrow> bool
   \<Rightarrow> (string, decimal) dict" where
  "strategy_quantities s token_counts reasoning_tokens billable_units rate_available =
     (let quantities = emitted_quantities s token_counts;
          quantities = (if reasoning_tokens > 0
            then dadd (fold_target s rate_available) (of_int reasoning_tokens) quantities
            else quantities)
      in add_billable billable_units quantities)"

subsection \<open>The built-in strategies\<close>

definition ANTHROPIC_UNITS :: "string list" where
  "ANTHROPIC_UNITS = [''input_token'', ''output_token'', ''cache_read_token'',
     ''cache_write_short_token'', ''cache_write_long_token'']"

definition anthropic_strategy :: pricing_strategy_v2 where
  "anthropic_strategy = \<lparr>ps_provider = ''anthropic'', ps_reasoning_billing = FOLD_INTO_OUTPUT,
     ps_emitted_token_units = ANTHROPIC_UNITS\<rparr>"

definition openai_strategy :: pricing_strategy_v2 where
  "openai_strategy = \<lparr>ps_provider = ''openai'', ps_reasoning_billing = SEPARATE_IF_RATED,
     ps_emitted_token_units = [''input_token'', ''output_token'', ''cache_read_token'']\<rparr>"

definition zai_strategy :: pricing_strategy_v2 where
  "zai_strategy = \<lparr>ps_provider = ''zai'', ps_reasoning_billing = SEPARATE_IF_RATED,
     ps_emitted_token_units = [''input_token'', ''output_token'', ''cache_read_token'']\<rparr>"

definition generic_strategy :: pricing_strategy_v2 where
  "generic_strategy = \<lparr>ps_provider = ''generic'', ps_reasoning_billing = SEPARATE_IF_RATED,
     ps_emitted_token_units = ANTHROPIC_UNITS\<rparr>"

lemmas strategy_defs = anthropic_strategy_def openai_strategy_def zai_strategy_def
  generic_strategy_def ANTHROPIC_UNITS_def

section \<open>Quantities\<close>

lemma dget_emitted_quantities:
  "dget (emitted_quantities s tc) u =
     (if u \<in> set (ps_emitted_token_units s) then map_option of_int (dget tc u) else None)"
  by (induction tc) (auto simp: emitted_quantities_def)

lemma distinct_emitted_quantities:
  "distinct (dkeys tc) \<Longrightarrow> distinct (dkeys (emitted_quantities s tc))"
proof (induction tc)
  case Nil
  show ?case by (simp add: emitted_quantities_def)
next
  case (Cons p tc)
  have "set (dkeys (emitted_quantities s tc)) \<subseteq> set (dkeys tc)"
    by (force simp: emitted_quantities_def)
  with Cons show ?case by (cases p) (auto simp: emitted_quantities_def)
qed

lemma dsum_emitted_quantities:
  "dsum (emitted_quantities s tc) =
     of_int (\<Sum>(u, c) \<leftarrow> tc. if u \<in> set (ps_emitted_token_units s) then c else 0)"
  by (induction tc) (auto simp: emitted_quantities_def)

lemma dsum_add_billable: "dsum (add_billable bu d) = dsum d + dsum bu"
  unfolding add_billable_def
  by (induction bu arbitrary: d) (auto simp: dsum_dadd ac_simps)

lemma dkeys_add_billable: "set (dkeys (add_billable bu d)) = set (dkeys d) \<union> set (dkeys bu)"
  unfolding add_billable_def by (induction bu arbitrary: d) (simp_all add: split_beta)

lemma dget_or_add_billable:
  "distinct (dkeys bu) \<Longrightarrow>
   dget_or (add_billable bu d) u 0 = dget_or d u 0 + dget_or bu u 0"
  unfolding add_billable_def
proof (induction bu arbitrary: d)
  case Nil
  show ?case by (simp add: dget_or_def)
next
  case (Cons p bu)
  obtain v q where p: "p = (v, q)" by (cases p)
  have "v \<notin> set (dkeys bu)" using Cons.prems p by simp
  then have "dget bu v = None" by (simp add: dget_None_iff)
  with Cons show ?case by (auto simp: p dget_or_dadd dget_or_def [of "(v, q) # bu"] dget_or_def [of bu])
qed

lemma distinct_add_billable: "distinct (dkeys d) \<Longrightarrow> distinct (dkeys (add_billable bu d))"
  unfolding add_billable_def by (induction bu arbitrary: d) auto

lemma distinct_strategy_quantities:
  "distinct (dkeys tc) \<Longrightarrow> distinct (dkeys (strategy_quantities s tc r bu av))"
  by (auto simp: strategy_quantities_def Let_def
      intro!: distinct_add_billable distinct_dkeys_dadd distinct_emitted_quantities)

lemma dget_or_strategy_quantities:
  assumes "distinct (dkeys bu)"
  shows "dget_or (strategy_quantities s tc r bu av) u 0 =
    (if u \<in> set (ps_emitted_token_units s) then of_int (dget_or tc u 0) else 0)
    + (if 0 < r \<and> u = fold_target s av then of_int r else 0) + dget_or bu u 0"
proof -
  have e: "dget_or (emitted_quantities s tc) v 0 =
      (if v \<in> set (ps_emitted_token_units s) then of_int (dget_or tc v 0) else 0)" for v
    by (auto simp: dget_or_def dget_emitted_quantities split: option.split)
  show ?thesis
    by (auto simp: strategy_quantities_def Let_def dget_or_add_billable [OF assms] dget_or_dadd e)
qed

section \<open>The abstract class\<close>

text \<open>
  What \<open>emitted_token_units\<close> promises: token unit types only, without \<open>reasoning_token\<close>, and always
  the output counter (which takes folded reasoning tokens).
\<close>

locale billing_plugin =
  fixes s :: pricing_strategy_v2
  assumes emitted_token_types: "set (ps_emitted_token_units s) \<subseteq> set TOKEN_UNIT_TYPES"
    and no_reasoning: "''reasoning_token'' \<notin> set (ps_emitted_token_units s)"
    and emits_output: "''output_token'' \<in> set (ps_emitted_token_units s)"
begin

lemma fold_target_token: "fold_target s av \<in> set TOKEN_UNIT_TYPES"
  by (simp add: fold_target_def TOKEN_UNIT_TYPES_def)

lemma conservation:
  "dsum (strategy_quantities s tc r bu av) =
     of_int (\<Sum>(u, c) \<leftarrow> tc. if u \<in> set (ps_emitted_token_units s) then c else 0)
     + of_int (max 0 r) + dsum bu"
  by (auto simp: strategy_quantities_def Let_def dsum_add_billable dsum_dadd dsum_emitted_quantities)

lemma reasoning_once:
  assumes "distinct (dkeys bu)" and "\<forall>u \<in> set (dkeys bu). u \<in> set BILLABLE_UNIT_TYPES"
  shows "dget_or (strategy_quantities s tc r bu av) ''output_token'' 0
      + dget_or (strategy_quantities s tc r bu av) ''reasoning_token'' 0
    = of_int (dget_or tc ''output_token'' 0 + max 0 r)"
proof -
  have "dget_or bu u 0 = 0" if "u \<in> set TOKEN_UNIT_TYPES" for u
    using assms(2) that token_not_billable dget_None_iff [of bu u] by (auto simp: dget_or_def)
  then have "dget_or bu ''output_token'' 0 = 0" and "dget_or bu ''reasoning_token'' 0 = 0"
    by (simp_all add: TOKEN_UNIT_TYPES_def)
  then show ?thesis
    using emits_output no_reasoning
    by (auto simp: dget_or_strategy_quantities [OF assms(1)] fold_target_def)
qed

lemma unemitted_never_priced:
  assumes "distinct (dkeys bu)" and "\<forall>u \<in> set (dkeys bu). u \<in> set BILLABLE_UNIT_TYPES"
    and "u \<in> set TOKEN_UNIT_TYPES" and "u \<notin> set (ps_emitted_token_units s)"
    and "u \<noteq> ''reasoning_token''"
  shows "dget_or (strategy_quantities s tc r bu av) u 0 = 0"
proof -
  have "dget_or bu u 0 = 0"
    using assms(2,3) token_not_billable dget_None_iff [of bu u] by (auto simp: dget_or_def)
  moreover have "u \<noteq> ''output_token''" using assms(4) emits_output by auto
  ultimately show ?thesis
    using assms(4,5) by (auto simp: dget_or_strategy_quantities [OF assms(1)] fold_target_def)
qed

end

text \<open>A provider that never bills reasoning as a line of its own.\<close>

locale folding_plugin = billing_plugin +
  assumes folds: "ps_reasoning_billing s = FOLD_INTO_OUTPUT"
begin

lemma never_looks_up: "\<not> needs_reasoning_rate s r"
  by (simp add: needs_reasoning_rate_def folds)

lemma always_output: "fold_target s av = ''output_token''"
  by (simp add: fold_target_def folds)

end

interpretation anthropic: folding_plugin anthropic_strategy
  by unfold_locales (auto simp: strategy_defs TOKEN_UNIT_TYPES_def)

interpretation openai: billing_plugin openai_strategy
  by unfold_locales (auto simp: strategy_defs TOKEN_UNIT_TYPES_def)

interpretation zai: billing_plugin zai_strategy
  by unfold_locales (auto simp: strategy_defs TOKEN_UNIT_TYPES_def)

interpretation generic: billing_plugin generic_strategy
  by unfold_locales (auto simp: strategy_defs TOKEN_UNIT_TYPES_def)

section \<open>Properties of the built-in strategies\<close>

definition built_in_strategies :: "pricing_strategy_v2 list" where
  "built_in_strategies = [anthropic_strategy, openai_strategy, zai_strategy, generic_strategy]"

lemma sum_listed:
  fixes tc :: "(string, int) dict"
  assumes "distinct (dkeys tc)" and "distinct us"
  shows "(\<Sum>(u, c) \<leftarrow> tc. if u \<in> set us then c else 0) = (\<Sum>u \<leftarrow> us. dget_or tc u 0)"
  using assms(1)
proof (induction tc)
  case (Cons p tc)
  obtain v c where p: "p = (v, c)" by (cases p)
  have "v \<notin> set (dkeys tc)" using Cons.prems p by simp
  then have none: "dget tc v = None" by (simp add: dget_None_iff)
  have "dget_or (p # tc) u 0 = dget_or tc u 0 + (if u = v then c else 0)" for u
    using none by (simp add: dget_or_def p)
  then have "(\<Sum>u \<leftarrow> us. dget_or (p # tc) u 0) = (\<Sum>u \<leftarrow> us. dget_or tc u 0) + (\<Sum>u \<leftarrow> us. if u = v then c else 0)"
    by (simp add: sum_list_addf)
  moreover have "(\<Sum>u \<leftarrow> us. if u = v then c else 0) = (if v \<in> set us then c else 0)"
    using assms(2) by (induction us) auto
  ultimately show ?case using Cons by (simp add: p)
qed (simp add: dget_or_def)

lemma token_billable_none:
  assumes "\<forall>u \<in> set (dkeys bu). u \<in> set BILLABLE_UNIT_TYPES" and "u \<in> set TOKEN_UNIT_TYPES"
  shows "dget_or bu u 0 = (0 :: rat)"
  using assms token_not_billable dget_None_iff [of bu u] by (auto simp: dget_or_def)

lemma strategy_units:
  assumes "s \<in> {anthropic_strategy, openai_strategy, zai_strategy, generic_strategy}"
  shows "ps_emitted_token_units s = (if s = anthropic_strategy \<or> s = generic_strategy then ANTHROPIC_UNITS
    else [''input_token'', ''output_token'', ''cache_read_token''])"
proof -
  consider "s = anthropic_strategy" | "s = openai_strategy" | "s = zai_strategy" | "s = generic_strategy"
    using assms by blast
  then show ?thesis by cases (simp_all add: strategy_defs)
qed

lemma strategy_target:
  assumes "s \<in> {anthropic_strategy, openai_strategy, zai_strategy, generic_strategy}"
  shows "fold_target s av = (if s \<noteq> anthropic_strategy \<and> av then ''reasoning_token'' else ''output_token'')"
proof -
  consider "s = anthropic_strategy" | "s = openai_strategy" | "s = zai_strategy" | "s = generic_strategy"
    using assms by blast
  then show ?thesis by cases (simp_all add: strategy_defs fold_target_def)
qed

text \<open>
  C9. What the built-in strategies make of an event's counters, unit by unit. Anthropic and the generic fallback hand
  on all five counters; OpenAI and Z.ai hand on input, output and cache reads and drop the two cache-write counters,
  which these providers do not bill. Reasoning tokens are counted exactly once: as output, or, where the strategy is
  not Anthropic's and a reasoning rate exists, as reasoning. The billable units are handed on as they are, and the
  quantities sum to just these. The hypotheses: the counters form a dict, and so do the billable units, whose keys
  are validated unit types.
\<close>

theorem strategies_conserve_usage:
  assumes "s \<in> set built_in_strategies" and "distinct (dkeys tc)"
    and "distinct (dkeys bu)" and "\<forall>u \<in> set (dkeys bu). u \<in> set BILLABLE_UNIT_TYPES"
  shows "let quantity = (\<lambda>u. dget_or (strategy_quantities s tc r bu av) u 0);
      counter = (\<lambda>u. of_int (dget_or tc u 0));
      cache_writes = (s = anthropic_strategy \<or> s = generic_strategy);
      reasoning = of_int (max 0 r);
      separate = (s \<noteq> anthropic_strategy \<and> av)
    in quantity ''input_token'' = counter ''input_token''
     \<and> quantity ''output_token'' = counter ''output_token'' + (if separate then 0 else reasoning)
     \<and> quantity ''reasoning_token'' = (if separate then reasoning else 0)
     \<and> quantity ''cache_read_token'' = counter ''cache_read_token''
     \<and> quantity ''cache_write_short_token'' = (if cache_writes then counter ''cache_write_short_token'' else 0)
     \<and> quantity ''cache_write_long_token'' = (if cache_writes then counter ''cache_write_long_token'' else 0)
     \<and> (\<forall>u \<in> set BILLABLE_UNIT_TYPES. quantity u = dget_or bu u 0)
     \<and> dsum (strategy_quantities s tc r bu av) = counter ''input_token'' + counter ''output_token'' + counter ''cache_read_token''
         + (if cache_writes then counter ''cache_write_short_token'' + counter ''cache_write_long_token'' else 0)
         + reasoning + dsum bu"
proof -
  have s: "s \<in> {anthropic_strategy, openai_strategy, zai_strategy, generic_strategy}"
    using assms(1) by (auto simp: built_in_strategies_def)
  note q = dget_or_strategy_quantities [OF assms(3), of s tc r av]
  have tokens: "dget_or bu u 0 = 0" if "u \<in> set TOKEN_UNIT_TYPES" for u
    using token_billable_none [OF assms(4) that] .
  have units: "u \<notin> set TOKEN_UNIT_TYPES" if "u \<in> set BILLABLE_UNIT_TYPES" for u
    using token_not_billable that by blast
  have "dsum (strategy_quantities s tc r bu av) =
      of_int (\<Sum>(u, c) \<leftarrow> tc. if u \<in> set (ps_emitted_token_units s) then c else 0) + of_int (max 0 r) + dsum bu"
    using s anthropic.conservation openai.conservation zai.conservation generic.conservation by blast
  moreover have "distinct (ps_emitted_token_units s)" using s by (auto simp: strategy_defs)
  ultimately have total: "dsum (strategy_quantities s tc r bu av) =
      of_int (\<Sum>u \<leftarrow> ps_emitted_token_units s. dget_or tc u 0) + of_int (max 0 r) + dsum bu"
    by (simp add: sum_listed [OF assms(2)])
  have billable: "\<forall>u \<in> set BILLABLE_UNIT_TYPES. dget_or (strategy_quantities s tc r bu av) u 0 = dget_or bu u 0"
  proof
    fix u assume "u \<in> set BILLABLE_UNIT_TYPES"
    then have "u \<notin> set TOKEN_UNIT_TYPES" by (rule units)
    then have "u \<notin> set (ps_emitted_token_units s)" "u \<noteq> fold_target s av"
      using s by (auto simp: strategy_defs TOKEN_UNIT_TYPES_def fold_target_def)
    then show "dget_or (strategy_quantities s tc r bu av) u 0 = dget_or bu u 0" by (simp add: q)
  qed
  define cw sep where "cw \<longleftrightarrow> s = anthropic_strategy \<or> s = generic_strategy" and "sep \<longleftrightarrow> s \<noteq> anthropic_strategy \<and> av"
  note flags = cw_def sep_def
  let ?E = "ps_emitted_token_units s" and ?Q = "strategy_quantities s tc r bu av"
  have emits: "?E = (if cw then ANTHROPIC_UNITS else [''input_token'', ''output_token'', ''cache_read_token''])"
    unfolding flags by (rule strategy_units [OF s])
  have emitted: "''input_token'' \<in> set ?E" "''output_token'' \<in> set ?E" "''cache_read_token'' \<in> set ?E"
    "''reasoning_token'' \<notin> set ?E" "''cache_write_short_token'' \<in> set ?E \<longleftrightarrow> cw" "''cache_write_long_token'' \<in> set ?E \<longleftrightarrow> cw"
    unfolding emits ANTHROPIC_UNITS_def by simp_all
  have fold: "fold_target s av = (if sep then ''reasoning_token'' else ''output_token'')"
    unfolding flags by (rule strategy_target [OF s])
  have listed: "(\<Sum>u \<leftarrow> ?E. f u) = f ''input_token'' + f ''output_token'' + f ''cache_read_token''
      + (if cw then f ''cache_write_short_token'' + f ''cache_write_long_token'' else 0)" for f :: "string \<Rightarrow> int"
    unfolding emits ANTHROPIC_UNITS_def by simp
  have none: "dget_or bu ''input_token'' 0 = 0" "dget_or bu ''output_token'' 0 = 0" "dget_or bu ''reasoning_token'' 0 = 0"
    "dget_or bu ''cache_read_token'' 0 = 0" "dget_or bu ''cache_write_short_token'' 0 = 0"
    "dget_or bu ''cache_write_long_token'' 0 = 0"
    by (rule tokens, simp add: TOKEN_UNIT_TYPES_def)+
  have i: "dget_or ?Q ''input_token'' 0 = of_int (dget_or tc ''input_token'' 0)"
    using q [of "''input_token''"] by (simp add: none emitted fold)
  have o: "dget_or ?Q ''output_token'' 0 = of_int (dget_or tc ''output_token'' 0) + (if sep then 0 else of_int (max 0 r))"
    using q [of "''output_token''"] by (simp add: none emitted fold)
  have rs: "dget_or ?Q ''reasoning_token'' 0 = (if sep then of_int (max 0 r) else 0)"
    using q [of "''reasoning_token''"] by (simp add: none emitted fold)
  have cr: "dget_or ?Q ''cache_read_token'' 0 = of_int (dget_or tc ''cache_read_token'' 0)"
    using q [of "''cache_read_token''"] by (simp add: none emitted fold)
  have cs: "dget_or ?Q ''cache_write_short_token'' 0 = (if cw then of_int (dget_or tc ''cache_write_short_token'' 0) else 0)"
    using q [of "''cache_write_short_token''"] by (simp add: none emitted fold)
  have cl: "dget_or ?Q ''cache_write_long_token'' 0 = (if cw then of_int (dget_or tc ''cache_write_long_token'' 0) else 0)"
    using q [of "''cache_write_long_token''"] by (simp add: none emitted fold)
  have sum: "dsum ?Q = of_int (dget_or tc ''input_token'' 0) + of_int (dget_or tc ''output_token'' 0)
      + of_int (dget_or tc ''cache_read_token'' 0)
      + (if cw then of_int (dget_or tc ''cache_write_short_token'' 0) + of_int (dget_or tc ''cache_write_long_token'' 0) else 0)
      + of_int (max 0 r) + dsum bu"
    unfolding total listed by simp
  show ?thesis
    unfolding Let_def flags [symmetric]
    by (intro conjI billable i o rs cr cs cl sum)
qed

theorem strategies_conserve_usage_witness:
  "dsum (strategy_quantities anthropic_strategy
      [(''input_token'', 100), (''output_token'', 20), (''cache_read_token'', 30), (''cache_write_short_token'', 7),
       (''cache_write_long_token'', 3)] 5 [(''tool_call'', 2)] True) = 100 + 20 + 30 + 7 + 3 + 5 + 2"
proof -
  let ?tc = "[(''input_token'', 100), (''output_token'', 20), (''cache_read_token'', 30), (''cache_write_short_token'', 7),
       (''cache_write_long_token'', 3 :: int)]"
  have s: "anthropic_strategy \<in> set built_in_strategies" by (simp add: built_in_strategies_def)
  have tc: "distinct (dkeys ?tc)" by simp
  have bu: "distinct (dkeys [(''tool_call'', 2::rat)])"
    "\<forall>u \<in> set (dkeys [(''tool_call'', 2::rat)]). u \<in> set BILLABLE_UNIT_TYPES"
    by (simp_all add: BILLABLE_UNIT_TYPES_def)
  show ?thesis
    using strategies_conserve_usage [OF s tc bu, of 5 True] unfolding Let_def by (simp add: dget_or_def)
qed

text \<open>
  A provider without cache-write TTL tiers never has a cache-write count priced: for OpenAI and
  Z.ai the short and long cache-write quantities are zero whatever the event's counters say. The
  hypotheses are that the billable-units map is a validated dict.
\<close>

theorem no_cache_write_tiers:
  assumes "s \<in> {openai_strategy, zai_strategy}"
    and "distinct (dkeys bu)" and "\<forall>u \<in> set (dkeys bu). u \<in> set BILLABLE_UNIT_TYPES"
    and "u \<in> {''cache_write_short_token'', ''cache_write_long_token''}"
  shows "dget_or (strategy_quantities s tc r bu av) u 0 = 0"
proof -
  have u: "u \<in> set TOKEN_UNIT_TYPES" "u \<noteq> ''reasoning_token''"
    and e: "u \<notin> set (ps_emitted_token_units openai_strategy)"
      "u \<notin> set (ps_emitted_token_units zai_strategy)"
    using assms(4) by (auto simp: TOKEN_UNIT_TYPES_def strategy_defs)
  from assms(1) consider "s = openai_strategy" | "s = zai_strategy" by blast
  then show ?thesis
    by cases (simp_all add: openai.unemitted_never_priced zai.unemitted_never_priced assms(2,3) u e)
qed

theorem no_cache_write_tiers_witness:
  "dget_or (strategy_quantities openai_strategy [(''cache_write_short_token'', 7)] 0 [] False)
     ''cache_write_short_token'' 0 = 0"
  using no_cache_write_tiers [of openai_strategy "[]" "''cache_write_short_token''"
      "[(''cache_write_short_token'', 7)]" 0 False] by simp

end
