(* ===== verification/Price_Table.thy ===== *)
theory Price_Table
  imports Py_Json
begin

text \<open>
  \<open>packages/core/src/tokemetry_core/pricing/\<close>: the v1 price table (\<open>table.py\<close>) with its dated/undated
  model fallback and manual overrides, the Anthropic strategy and default rows (\<open>anthropic.py\<close>), and
  the LiteLLM transform into price rows (\<open>litellm.py\<close>). A table is a dict from \<open>(provider, model)\<close> to
  the bucket of its rows, kept sorted by effective date.
\<close>

section \<open>Model ids\<close>

definition dated :: "string \<Rightarrow> bool" where
  "dated m \<longleftrightarrow> 9 \<le> length m \<and> m ! (length m - 9) = CHR ''-''
     \<and> list_all is_digit (drop (length m - 8) m)"

text \<open>\<open>re.sub(r"-\d{8}$", "", model)\<close>; the anchor also matches before one final newline.\<close>

definition base_model_id :: "string \<Rightarrow> string" where
  "base_model_id m =
     (if dated m then take (length m - 9) m
      else if m \<noteq> [] \<and> last m = CHR 0x0A \<and> dated (butlast m)
      then take (length m - 10) m @ [CHR 0x0A] else m)"

lemma base_model_id_undated: "\<not> dated m \<Longrightarrow> (m = [] \<or> last m \<noteq> CHR 0x0A) \<Longrightarrow> base_model_id m = m"
  by (auto simp: base_model_id_def)

section \<open>The table\<close>

type_synonym pricing_table = "(string \<times> string, price_row list) dict"

datatype lookup_error = UnknownModel string string date

definition pt_add :: "price_row \<Rightarrow> pricing_table \<Rightarrow> pricing_table" where
  "pt_add row t =
     (let key = (pw_provider row, pw_model row)
      in dset key (sort_key pw_effective_date (dget_or t key [] @ [row])) t)"

definition pricing_table :: "price_row list \<Rightarrow> pricing_table" where
  "pricing_table rows = foldl (\<lambda>t row. pt_add row t) [] rows"

definition pt_models :: "pricing_table \<Rightarrow> string \<Rightarrow> string list" where
  "pt_models t provider = sort (map snd (filter (\<lambda>(p, _). p = provider) (dkeys t)))"

definition pt_candidates :: "pricing_table \<Rightarrow> string \<Rightarrow> string \<Rightarrow> (string \<times> string) list" where
  "pt_candidates t provider model =
     (let base = base_model_id model
      in (provider, model) #
         (if base \<noteq> model then [(provider, base)]
          else sort_desc snd (filter (\<lambda>(p, m). p = provider \<and> m \<noteq> model \<and> base_model_id m = model)
                 (dkeys t))))"

definition latest_not_after :: "pricing_table \<Rightarrow> string \<times> string \<Rightarrow> date \<Rightarrow> price_row option" where
  "latest_not_after t key on =
     foldl (\<lambda>best row. if pw_effective_date row \<le> on then Some row else best) None (dget_or t key [])"

definition pt_resolve :: "pricing_table \<Rightarrow> string \<Rightarrow> string \<Rightarrow> date \<Rightarrow> lookup_error + price_row" where
  "pt_resolve t provider model on =
     (case first_some (\<lambda>c. latest_not_after t c on) (pt_candidates t provider model) of
        None \<Rightarrow> Inl (UnknownModel provider model on)
      | Some row \<Rightarrow> Inr row)"

definition pt_inv :: "pricing_table \<Rightarrow> bool" where
  "pt_inv t \<longleftrightarrow> distinct (dkeys t) \<and>
     (\<forall>((p, m), rows) \<in> set t. rows \<noteq> [] \<and> sorted (map pw_effective_date rows)
        \<and> (\<forall>r \<in> set rows. pw_provider r = p \<and> pw_model r = m))"

lemma last_fold_filter:
  "foldl (\<lambda>best row. if P row then Some row else best) b rows =
     (case filter P rows of [] \<Rightarrow> b | _ \<Rightarrow> Some (last (filter P rows)))"
  by (induction rows arbitrary: b) (auto split: list.splits)

lemma latest_not_after_alt:
  "latest_not_after t key on =
     (let rs = filter (\<lambda>r. pw_effective_date r \<le> on) (dget_or t key [])
      in if rs = [] then None else Some (last rs))"
  by (auto simp: latest_not_after_def last_fold_filter Let_def split: list.split)

lemma sorted_last_ge: "sorted (map f xs) \<Longrightarrow> x \<in> set xs \<Longrightarrow> f x \<le> f (last xs)"
  by (induction xs) auto

lemma pt_bucketD:
  assumes "pt_inv t"
  shows "sorted (map pw_effective_date (dget_or t (p, m) []))"
    and "\<forall>r \<in> set (dget_or t (p, m) []). pw_provider r = p \<and> pw_model r = m"
proof -
  have bucket: "sorted (map pw_effective_date rows) \<and> (\<forall>r \<in> set rows. pw_provider r = p \<and> pw_model r = m)"
    if "dget t (p, m) = Some rows" for rows
    using assms map_of_SomeD [OF that] by (auto simp: pt_inv_def)
  show "sorted (map pw_effective_date (dget_or t (p, m) []))"
    by (cases "dget t (p, m)") (simp_all add: dget_or_def bucket)
  show "\<forall>r \<in> set (dget_or t (p, m) []). pw_provider r = p \<and> pw_model r = m"
    by (cases "dget t (p, m)") (simp_all add: dget_or_def bucket)
qed

lemma set_update_subset: "set (dset k v d) \<subseteq> insert (k, v) (set d)"
  by (induction d) auto

lemma pt_inv_add:
  assumes "pt_inv t"
  shows "pt_inv (pt_add row t)"
proof -
  define p m where "p = pw_provider row" and "m = pw_model row"
  define b where "b = sort_key pw_effective_date (dget_or t (p, m) [] @ [row])"
  have setb: "set b = insert row (set (dget_or t (p, m) []))" by (simp add: b_def)
  have "row \<in> set b" by (simp add: setb)
  then have bne: "b \<noteq> []" by auto
  have bucket: "sorted (map pw_effective_date b)"
    "\<And>r. r \<in> set b \<Longrightarrow> pw_provider r = p \<and> pw_model r = m"
    using setb pt_bucketD(2) [OF assms, of p m] by (auto simp: b_def p_def [symmetric] m_def [symmetric])
  have "distinct (dkeys (dset (p, m) b t))"
    by (rule distinct_update) (use assms in \<open>simp add: pt_inv_def\<close>)
  moreover have "case e of ((p, m), rows) \<Rightarrow> rows \<noteq> [] \<and> sorted (map pw_effective_date rows)
      \<and> (\<forall>r \<in> set rows. pw_provider r = p \<and> pw_model r = m)" if "e \<in> set (dset (p, m) b t)" for e
  proof (cases "e = ((p, m), b)")
    case True
    with bucket bne show ?thesis by simp
  next
    case False
    with that have "e \<in> set t" using set_update_subset [of "(p, m)" b t] by blast
    with assms show ?thesis by (auto simp: pt_inv_def)
  qed
  ultimately have "pt_inv (dset (p, m) b t)" unfolding pt_inv_def by blast
  then show ?thesis by (simp add: pt_add_def Let_def b_def p_def m_def)
qed

lemma pt_inv_table: "pt_inv (pricing_table rows)"
proof -
  have "pt_inv (foldl (\<lambda>t row. pt_add row t) t rows)" if "pt_inv t" for t
    using that by (induction rows arbitrary: t) (auto intro: pt_inv_add)
  moreover have "pt_inv []" by (simp add: pt_inv_def)
  ultimately show ?thesis by (simp add: pricing_table_def)
qed

lemma set_bucket_add:
  "set (dget_or (pt_add row t) (p, m) []) =
     set (dget_or t (p, m) []) \<union> (if pw_provider row = p \<and> pw_model row = m then {row} else {})"
  by (auto simp: pt_add_def Let_def dget_or_dset)

lemma set_bucket_table:
  "set (dget_or (pricing_table rows) (p, m) []) =
     {r \<in> set rows. pw_provider r = p \<and> pw_model r = m}"
proof -
  have "set (dget_or (foldl (\<lambda>t row. pt_add row t) t rows) (p, m) []) =
      set (dget_or t (p, m) []) \<union> {r \<in> set rows. pw_provider r = p \<and> pw_model r = m}" for t
  proof (induction rows arbitrary: t)
    case (Cons r rows)
    show ?case by (auto simp: Cons set_bucket_add)
  qed simp
  from this [of "[]"] show ?thesis by (simp add: pricing_table_def dget_or_def)
qed

lemma latest_not_after_Some:
  assumes "latest_not_after (pricing_table rows) (p, m) on = Some r"
  shows "r \<in> set rows" and "pw_provider r = p" and "pw_model r = m" and "pw_effective_date r \<le> on"
    and "\<And>q. q \<in> set rows \<Longrightarrow> pw_provider q = p \<Longrightarrow> pw_model q = m \<Longrightarrow> pw_effective_date q \<le> on
      \<Longrightarrow> pw_effective_date q \<le> pw_effective_date r"
proof -
  let ?rs = "filter (\<lambda>r. pw_effective_date r \<le> on) (dget_or (pricing_table rows) (p, m) [])"
  have r: "r = last ?rs" and ne: "?rs \<noteq> []"
    using assms by (auto simp: latest_not_after_alt Let_def split: if_splits)
  then have mem: "r \<in> set ?rs" using last_in_set by blast
  then show "r \<in> set rows" "pw_provider r = p" "pw_model r = m" "pw_effective_date r \<le> on"
    using set_bucket_table [of rows p m] by auto
  have "sorted (map pw_effective_date ?rs)"
    using pt_bucketD(1) [OF pt_inv_table] by (rule sorted_filter)
  then show "pw_effective_date q \<le> pw_effective_date r"
    if "q \<in> set rows" "pw_provider q = p" "pw_model q = m" "pw_effective_date q \<le> on" for q
    unfolding r by (rule sorted_last_ge) (use that set_bucket_table [of rows p m] in auto)
qed

lemma latest_not_after_None:
  "latest_not_after (pricing_table rows) (p, m) on = None \<longleftrightarrow>
     (\<forall>q \<in> set rows. pw_provider q = p \<longrightarrow> pw_model q = m \<longrightarrow> \<not> pw_effective_date q \<le> on)"
  using set_bucket_table [of rows p m]
  by (auto simp: latest_not_after_alt Let_def filter_empty_conv)

lemma pt_candidates_model:
  assumes "c \<in> set (pt_candidates t provider model)"
  shows "fst c = provider"
    and "snd c = model \<or> snd c = base_model_id model \<or> base_model_id (snd c) = model"
proof -
  let ?snap = "filter (\<lambda>(p, m). p = provider \<and> m \<noteq> model \<and> base_model_id m = model) (dkeys t)"
  have "c \<in> {(provider, model), (provider, base_model_id model)} \<union> set (sort_desc snd ?snap)"
    using assms unfolding pt_candidates_def Let_def
    by (cases "base_model_id model = model") (simp_all del: set_sort_desc, blast)
  then consider "c = (provider, model)" | "c = (provider, base_model_id model)" | "c \<in> set ?snap"
    by (auto simp only: set_sort_desc)
  then have "fst c = provider \<and> (snd c = model \<or> snd c = base_model_id model \<or> base_model_id (snd c) = model)"
    by cases (simp, simp, simp add: split_beta)
  then show "fst c = provider"
    and "snd c = model \<or> snd c = base_model_id model \<or> base_model_id (snd c) = model" by blast+
qed

text \<open>
  A price found by the v1 table is a stored row of the provider for the requested model id, for
  its date-stripped base id, or for a dated snapshot of it; it is in force on the requested date, and
  no other row of the same model id in force on that date is more recent. When the exact id has a row
  in force, the row found is one of the exact id. The hypothesis is that the lookup succeeds.
\<close>

theorem pt_resolve_effective:
  assumes "pt_resolve (pricing_table rows) provider model on = Inr r"
  shows "r \<in> set rows \<and> pw_provider r = provider \<and> pw_effective_date r \<le> on
    \<and> (pw_model r = model \<or> pw_model r = base_model_id model \<or> base_model_id (pw_model r) = model)
    \<and> (\<forall>q \<in> set rows. pw_provider q = provider \<and> pw_model q = pw_model r
         \<and> pw_effective_date q \<le> on \<longrightarrow> pw_effective_date q \<le> pw_effective_date r)
    \<and> ((\<exists>q \<in> set rows. pw_provider q = provider \<and> pw_model q = model \<and> pw_effective_date q \<le> on)
         \<longrightarrow> pw_model r = model)"
proof -
  let ?t = "pricing_table rows"
  let ?f = "\<lambda>c. latest_not_after ?t c on"
  have fs: "first_some ?f (pt_candidates ?t provider model) = Some r"
    using assms by (simp add: pt_resolve_def split: option.splits)
  obtain c where c: "c \<in> set (pt_candidates ?t provider model)" and rc: "?f c = Some r"
    using first_some_in [OF fs] by (elim bexE)
  define m where "m = snd c"
  have cm: "c = (provider, m)"
    unfolding m_def pt_candidates_model(1) [OF c, symmetric] by (rule prod.collapse [symmetric])
  note m = pt_candidates_model(2) [OF c, folded m_def]
  note r = latest_not_after_Some [OF rc [unfolded cm]]
  have exact: "pw_model r = model" if "q \<in> set rows" "pw_provider q = provider" "pw_model q = model"
    "pw_effective_date q \<le> on" for q
  proof -
    obtain cs where cs: "pt_candidates ?t provider model = (provider, model) # cs"
      by (simp add: pt_candidates_def Let_def)
    have "?f (provider, model) \<noteq> None" using that latest_not_after_None by blast
    then have "?f (provider, model) = Some r" using fs by (auto simp: cs)
    then show ?thesis by (rule latest_not_after_Some(3))
  qed
  show ?thesis
    using r(1,2,4,5) m exact unfolding r(3) by blast
qed

definition sample_price :: "string \<Rightarrow> date \<Rightarrow> decimal \<Rightarrow> price_row" where
  "sample_price model day p = \<lparr>pw_provider = ''anthropic'', pw_model = model, pw_effective_date = day,
     pw_input_per_mtok = p, pw_output_per_mtok = p, pw_cache_read_per_mtok = p,
     pw_cache_write_short_per_mtok = p, pw_cache_write_long_per_mtok = p\<rparr>"

theorem pt_resolve_effective_witness:
  "pt_resolve (pricing_table [sample_price ''m'' 10 3, sample_price ''m'' 20 4, sample_price ''m'' 5 2])
      ''anthropic'' ''m-20251101'' 19 = Inr (sample_price ''m'' 10 3)
   \<and> pw_effective_date (sample_price ''m'' 10 3) \<le> 19"
proof -
  have b: "base_model_id ''m-20251101'' = ''m''"
    by (simp add: base_model_id_def dated_def is_digit_def)
  have h: "pt_resolve (pricing_table [sample_price ''m'' 10 3, sample_price ''m'' 20 4,
      sample_price ''m'' 5 2]) ''anthropic'' ''m-20251101'' 19 = Inr (sample_price ''m'' 10 3)"
    by (simp add: pt_resolve_def pricing_table_def pt_add_def pt_candidates_def b
        latest_not_after_def dget_or_def sample_price_def)
  from pt_resolve_effective [OF h] h show ?thesis by blast
qed

section \<open>Overrides\<close>

definition OVERRIDABLE_FIELDS :: "string list" where
  "OVERRIDABLE_FIELDS = [''input_per_mtok'', ''output_per_mtok'', ''cache_read_per_mtok'',
     ''cache_write_short_per_mtok'', ''cache_write_long_per_mtok'']"

datatype override_error = NonPriceFields "string list" | BadValue value_error

definition set_price_field :: "string \<Rightarrow> decimal \<Rightarrow> price_row \<Rightarrow> price_row" where
  "set_price_field name v row =
     (if name = ''input_per_mtok'' then row\<lparr>pw_input_per_mtok := v\<rparr>
      else if name = ''output_per_mtok'' then row\<lparr>pw_output_per_mtok := v\<rparr>
      else if name = ''cache_read_per_mtok'' then row\<lparr>pw_cache_read_per_mtok := v\<rparr>
      else if name = ''cache_write_short_per_mtok'' then row\<lparr>pw_cache_write_short_per_mtok := v\<rparr>
      else if name = ''cache_write_long_per_mtok'' then row\<lparr>pw_cache_write_long_per_mtok := v\<rparr>
      else row)"

fun override_row :: "price_row \<Rightarrow> (string, json) dict \<Rightarrow> override_error + price_row" where
  "override_row row [] = Inr row"
| "override_row row ((name, v) # upds) =
     (case to_decimal v of Inl e \<Rightarrow> Inl (BadValue e)
      | Inr d \<Rightarrow> override_row (set_price_field name d row) upds)"

fun override_rows ::
  "price_row list \<Rightarrow> (string, (string, json) dict) dict \<Rightarrow> string \<Rightarrow> override_error + price_row list" where
  "override_rows [] overrides provider = Inr []"
| "override_rows (row # rows) overrides provider =
     (case (if pw_provider row = provider then override_row row (dget_or overrides (pw_model row) [])
            else Inr row) of
        Inl e \<Rightarrow> Inl e
      | Inr row' \<Rightarrow> (case override_rows rows overrides provider of Inl e \<Rightarrow> Inl e
          | Inr rows' \<Rightarrow> Inr (row' # rows')))"

definition apply_overrides ::
  "price_row list \<Rightarrow> (string, (string, json) dict) dict \<Rightarrow> string \<Rightarrow> override_error + price_row list" where
  "apply_overrides rows overrides provider =
     (case filter (\<lambda>upds. \<exists>f \<in> set (dkeys upds). f \<notin> set OVERRIDABLE_FIELDS) (map snd overrides) of
        upds # _ \<Rightarrow> Inl (NonPriceFields (sort (filter (\<lambda>f. f \<notin> set OVERRIDABLE_FIELDS) (dkeys upds))))
      | [] \<Rightarrow> override_rows rows overrides provider)"

lemma override_row_keys: "override_row row upds = Inr row' \<Longrightarrow>
    pw_provider row' = pw_provider row \<and> pw_model row' = pw_model row
    \<and> pw_effective_date row' = pw_effective_date row"
proof (induction row upds rule: override_row.induct)
  case (2 row name v upds)
  then show ?case by (fastforce simp: set_price_field_def split: sum.splits if_splits)
qed simp

text \<open>
  Overrides only change prices: the result has one row per input row, in order, with the same
  provider, model and effective date; rows of another provider, and rows of a model with no override,
  come back as they were. The hypothesis is that no override was refused.
\<close>

theorem apply_overrides_frame:
  assumes "apply_overrides rows overrides provider = Inr out"
  shows "list_all2 (\<lambda>r r'. pw_provider r' = pw_provider r \<and> pw_model r' = pw_model r
      \<and> pw_effective_date r' = pw_effective_date r
      \<and> (pw_provider r \<noteq> provider \<or> dget overrides (pw_model r) = None \<longrightarrow> r' = r)) rows out"
proof -
  have "override_rows rows overrides provider = Inr out"
    using assms by (simp add: apply_overrides_def split: list.splits)
  then show ?thesis
  proof (induction rows arbitrary: out)
    case (Cons r rows)
    then obtain r' out' where
      r': "(if pw_provider r = provider then override_row r (dget_or overrides (pw_model r) [])
            else Inr r) = Inr r'"
      and "override_rows rows overrides provider = Inr out'" and out: "out = r' # out'"
      by (auto split: sum.splits)
    with Cons.IH show ?case
      by (auto simp: dget_or_def dest: override_row_keys split: if_splits option.splits)
  qed simp
qed

theorem apply_overrides_frame_witness:
  "apply_overrides [sample_price ''m'' 10 3, sample_price ''n'' 10 3]
     [(''m'', [(''input_per_mtok'', JStr ''7.50'')])] ''anthropic''
   = Inr [(sample_price ''m'' 10 3)\<lparr>pw_input_per_mtok := 15 / 2\<rparr>, sample_price ''n'' 10 3]
   \<and> length [sample_price ''m'' 10 3, sample_price ''n'' 10 3] = 2"
proof -
  have h: "apply_overrides [sample_price ''m'' 10 3, sample_price ''n'' 10 3]
     [(''m'', [(''input_per_mtok'', JStr ''7.50'')])] ''anthropic''
   = Inr [(sample_price ''m'' 10 3)\<lparr>pw_input_per_mtok := 15 / 2\<rparr>, sample_price ''n'' 10 3]"
    by code_simp
  from list_all2_lengthD [OF apply_overrides_frame [OF h]] h show ?thesis by simp
qed

section \<open>Anthropic pricing\<close>

definition anthropic_cost :: "usage_event \<Rightarrow> price_row \<Rightarrow> decimal" where
  "anthropic_cost e price = quantize6
     ((of_int (ue_input_tokens e) * pw_input_per_mtok price
       + of_int (ue_cache_write_short_tokens e) * pw_cache_write_short_per_mtok price
       + of_int (ue_cache_write_long_tokens e) * pw_cache_write_long_per_mtok price
       + of_int (ue_cache_read_tokens e) * pw_cache_read_per_mtok price
       + of_int (ue_output_tokens e) * pw_output_per_mtok price) / 1000000)"

definition default_row :: "string \<Rightarrow> decimal \<Rightarrow> decimal \<Rightarrow> price_row" where
  "default_row model input_price output_price =
     \<lparr>pw_provider = ''anthropic'', pw_model = model, pw_effective_date = 20454,
      pw_input_per_mtok = input_price, pw_output_per_mtok = output_price,
      pw_cache_read_per_mtok = input_price * (1 / 10),
      pw_cache_write_short_per_mtok = input_price * (5 / 4),
      pw_cache_write_long_per_mtok = input_price * 2\<rparr>"

definition DEFAULT_ANTHROPIC_PRICE_ROWS :: "price_row list" where
  "DEFAULT_ANTHROPIC_PRICE_ROWS =
     [default_row ''claude-opus-4-5'' 5 25, default_row ''claude-opus-4-1'' 15 75,
      default_row ''claude-sonnet-4-5'' 3 15, default_row ''claude-haiku-4-5'' 1 5]"

section \<open>LiteLLM price rows\<close>

definition per_mtok :: "json option \<Rightarrow> value_error + decimal option" where
  "per_mtok v = (case v of None \<Rightarrow> Inr None
     | Some j \<Rightarrow> (case to_decimal j of Inl e \<Rightarrow> Inl e | Inr d \<Rightarrow> Inr (Some (d * 1000000))))"

definition or_times :: "decimal option \<Rightarrow> decimal \<Rightarrow> decimal" where
  "or_times v fallback = (case v of None \<Rightarrow> fallback | Some d \<Rightarrow> d)"

definition litellm_row ::
  "string \<Rightarrow> date \<Rightarrow> string \<Rightarrow> decimal \<Rightarrow> decimal \<Rightarrow> (string \<times> json) list \<Rightarrow> value_error + price_row" where
  "litellm_row provider effective_date model_id input_price output_price entry =
     (case per_mtok (jget entry ''cache_creation_input_token_cost'') of Inl e \<Rightarrow> Inl e
      | Inr short_write \<Rightarrow>
     (case per_mtok (jget entry ''cache_creation_input_token_cost_above_1hr'') of Inl e \<Rightarrow> Inl e
      | Inr long_write \<Rightarrow>
     (case per_mtok (jget entry ''cache_read_input_token_cost'') of Inl e \<Rightarrow> Inl e
      | Inr cache_read \<Rightarrow>
     (case validate_price_row
        \<lparr>pw_provider = provider, pw_model = model_id, pw_effective_date = effective_date,
         pw_input_per_mtok = input_price, pw_output_per_mtok = output_price,
         pw_cache_read_per_mtok = or_times cache_read (input_price * (1 / 10)),
         pw_cache_write_short_per_mtok = or_times short_write (input_price * (5 / 4)),
         pw_cache_write_long_per_mtok = or_times long_write (input_price * 2)\<rparr> of
       Inl e \<Rightarrow> Inl (Invalid e) | Inr row \<Rightarrow> Inr row))))"

definition litellm_entry ::
  "string \<Rightarrow> date \<Rightarrow> string \<Rightarrow> json \<Rightarrow> value_error + price_row list" where
  "litellm_entry provider effective_date model_id v =
     (case v of JObj entry \<Rightarrow>
        if jget entry ''litellm_provider'' \<noteq> Some (JStr provider) then Inr []
        else if CHR ''.'' \<in> set model_id \<or> CHR ''/'' \<in> set model_id then Inr []
        else (case per_mtok (jget entry ''input_cost_per_token'') of Inl e \<Rightarrow> Inl e
          | Inr input_price \<Rightarrow>
         (case per_mtok (jget entry ''output_cost_per_token'') of Inl e \<Rightarrow> Inl e
          | Inr output_price \<Rightarrow>
         (case (input_price, output_price) of
            (Some i, Some j) \<Rightarrow> (case litellm_row provider effective_date model_id i j entry of
               Inl e \<Rightarrow> Inl e | Inr row \<Rightarrow> Inr [row])
          | _ \<Rightarrow> Inr [])))
      | _ \<Rightarrow> Inr [])"

fun price_rows_from_litellm ::
  "(string \<times> json) list \<Rightarrow> date \<Rightarrow> string \<Rightarrow> value_error + price_row list" where
  "price_rows_from_litellm [] effective_date provider = Inr []"
| "price_rows_from_litellm ((model_id, v) # data) effective_date provider =
     (case litellm_entry provider effective_date model_id v of Inl e \<Rightarrow> Inl e
      | Inr rows \<Rightarrow> (case price_rows_from_litellm data effective_date provider of Inl e \<Rightarrow> Inl e
          | Inr rest \<Rightarrow> Inr (rows @ rest)))"

end
