(* ===== verification/Registry.thy ===== *)
theory Registry
  imports Pricing_Strategies Price_Table
begin

text \<open>
  Provider identity and lookup: the seed descriptors and \<open>normalize_provider\<close> of
  \<open>packages/core/src/tokemetry_core/normalization.py\<close>, the \<open>ProviderRegistry\<close> of \<open>registry.py\<close>, the
  built-in v2 registrations of \<open>pricing/strategies/defaults.py\<close>, and the v1 \<open>CostEngine\<close> of the
  server's \<open>services/cost.py\<close>, which resolves a price and a strategy and remembers unknown models.
  A source factory is a function from \<open>unit\<close>.
\<close>

section \<open>Seed descriptors\<close>

definition window :: "string \<Rightarrow> string \<Rightarrow> int option \<Rightarrow> int \<Rightarrow> window_descriptor" where
  "window kind label seconds order = \<lparr>wd_kind = kind, wd_label = label, wd_period_kind = Rolling,
     wd_period_seconds = seconds, wd_sort_order = order\<rparr>"

definition ANTHROPIC_WINDOWS :: "window_descriptor list" where
  "ANTHROPIC_WINDOWS =
     [window ''five_hour'' ''5-hour block'' (Some 18000) 0,
      window ''seven_day'' ''Weekly'' (Some 604800) 1,
      window ''seven_day_opus'' ''Weekly (Opus)'' (Some 604800) 2,
      window ''seven_day_sonnet'' ''Weekly (Sonnet)'' (Some 604800) 3,
      window ''requests_per_minute'' ''Requests / min'' (Some 60) 4,
      window ''tokens_per_minute'' ''Tokens / min'' (Some 60) 5]"

definition ANTHROPIC_DESCRIPTOR :: provider_descriptor where
  "ANTHROPIC_DESCRIPTOR = \<lparr>pd_id = ''anthropic'', pd_display_name = ''Anthropic'',
     pd_aliases = [''claude'', ''claude-code'', ''claude_code''], pd_pricing_strategy = ''anthropic'',
     pd_limit_semantics = ''anthropic_oauth_windows'',
     pd_supported_dimensions = [''machine'', ''model'', ''project'', ''session''],
     pd_windows = ANTHROPIC_WINDOWS\<rparr>"

definition OPENAI_WINDOWS :: "window_descriptor list" where
  "OPENAI_WINDOWS =
     [window ''primary'' ''Primary limit'' None 0, window ''secondary'' ''Secondary limit'' None 1]"

definition OPENAI_DESCRIPTOR :: provider_descriptor where
  "OPENAI_DESCRIPTOR = \<lparr>pd_id = ''openai'', pd_display_name = ''OpenAI'',
     pd_aliases = [''codex'', ''codex-cli'', ''openai-codex''], pd_pricing_strategy = ''openai'',
     pd_limit_semantics = ''openai_windows'',
     pd_supported_dimensions = [''machine'', ''model'', ''project'', ''session''],
     pd_windows = OPENAI_WINDOWS\<rparr>"

definition ZAI_WINDOWS :: "window_descriptor list" where
  "ZAI_WINDOWS = [window ''prompt_5h'' ''Prompts / 5h'' (Some 18000) 0]"

definition ZAI_DESCRIPTOR :: provider_descriptor where
  "ZAI_DESCRIPTOR = \<lparr>pd_id = ''zai'', pd_display_name = ''Z.ai'',
     pd_aliases = [''z.ai'', ''z-ai'', ''z_ai''], pd_pricing_strategy = ''zai'',
     pd_limit_semantics = ''zai_coding_plan'',
     pd_supported_dimensions = [''machine'', ''model'', ''project'', ''session''],
     pd_windows = ZAI_WINDOWS\<rparr>"

definition SEED_PROVIDER_DESCRIPTORS :: "provider_descriptor list" where
  "SEED_PROVIDER_DESCRIPTORS = [ANTHROPIC_DESCRIPTOR, OPENAI_DESCRIPTOR, ZAI_DESCRIPTOR]"

lemmas descriptor_defs = SEED_PROVIDER_DESCRIPTORS_def ANTHROPIC_DESCRIPTOR_def
  OPENAI_DESCRIPTOR_def ZAI_DESCRIPTOR_def

section \<open>Normalization\<close>

definition build_alias_index :: "provider_descriptor list \<Rightarrow> (string, string) dict" where
  "build_alias_index descriptors =
     foldl (\<lambda>index d. foldl (\<lambda>index alias. dset alias (pd_id d) index) (dset (pd_id d) (pd_id d) index)
                (pd_aliases d)) [] descriptors"

definition ALIAS_TO_CANONICAL :: "(string, string) dict" where
  "ALIAS_TO_CANONICAL = build_alias_index SEED_PROVIDER_DESCRIPTORS"

definition normalize_provider :: "string \<Rightarrow> string" where
  "normalize_provider raw =
     (let cleaned = str_lower (str_strip raw) in dget_or ALIAS_TO_CANONICAL cleaned cleaned)"

lemma alias_index_eval: "ALIAS_TO_CANONICAL =
  [(''anthropic'', ''anthropic''), (''claude'', ''anthropic''), (''claude-code'', ''anthropic''),
   (''claude_code'', ''anthropic''), (''openai'', ''openai''), (''codex'', ''openai''),
   (''codex-cli'', ''openai''), (''openai-codex'', ''openai''), (''zai'', ''zai''),
   (''z.ai'', ''zai''), (''z-ai'', ''zai''), (''z_ai'', ''zai'')]"
  by (simp add: ALIAS_TO_CANONICAL_def build_alias_index_def descriptor_defs)

lemma cleaned_idem: "str_lower (str_strip (str_lower (str_strip s))) = str_lower (str_strip s)"
  by (simp add: str_strip_lower)

lemma canonical_range:
  assumes "p \<in> set (map snd ALIAS_TO_CANONICAL)"
  shows "dget ALIAS_TO_CANONICAL p = Some p \<and> str_lower (str_strip p) = p"
proof -
  have "list_all (\<lambda>p. dget ALIAS_TO_CANONICAL p = Some p \<and> str_lower (str_strip p) = p)
      (map snd ALIAS_TO_CANONICAL)"
    by code_simp
  with assms show ?thesis by (simp only: list_all_iff)
qed

definition seed_match :: "string \<Rightarrow> provider_descriptor list" where
  "seed_match c = filter (\<lambda>d. c \<in> set (pd_id d # pd_aliases d)) SEED_PROVIDER_DESCRIPTORS"

lemma alias_index_match:
  "dget_or ALIAS_TO_CANONICAL c c = (case seed_match c of [] \<Rightarrow> c | d # _ \<Rightarrow> pd_id d)"
proof (cases "c \<in> set (map fst ALIAS_TO_CANONICAL)")
  case True
  have "list_all (\<lambda>c. dget_or ALIAS_TO_CANONICAL c c
      = (case seed_match c of [] \<Rightarrow> c | d # _ \<Rightarrow> pd_id d)) (map fst ALIAS_TO_CANONICAL)"
    by code_simp
  with True show ?thesis by (simp only: list_all_iff)
next
  case False
  then have "dget ALIAS_TO_CANONICAL c = None" by (simp add: dget_None_iff)
  moreover have "seed_match c = []"
    using False by (simp add: alias_index_eval seed_match_def descriptor_defs)
  ultimately show ?thesis by (simp add: dget_or_def)
qed

text \<open>
  \<open>normalize_provider\<close> is idempotent and insensitive to case and surrounding whitespace; it
  returns the id of the seed descriptor that has the cleaned spelling as its id or as an alias, and
  the cleaned spelling itself when there is none.
\<close>

theorem normalize_provider_idempotent:
  "normalize_provider (normalize_provider raw) = normalize_provider raw
   \<and> normalize_provider (str_lower raw) = normalize_provider raw
   \<and> normalize_provider (str_strip raw) = normalize_provider raw
   \<and> normalize_provider raw =
       (case filter (\<lambda>d. str_lower (str_strip raw) \<in> set (pd_id d # pd_aliases d))
          SEED_PROVIDER_DESCRIPTORS of
          [] \<Rightarrow> str_lower (str_strip raw) | d # _ \<Rightarrow> pd_id d)"
proof (intro conjI)
  show "normalize_provider (normalize_provider raw) = normalize_provider raw"
  proof (cases "dget ALIAS_TO_CANONICAL (str_lower (str_strip raw))")
    case None
    then show ?thesis by (simp add: normalize_provider_def Let_def dget_or_def cleaned_idem)
  next
    case (Some p)
    then have "p \<in> set (map snd ALIAS_TO_CANONICAL)" by (force dest: map_of_SomeD)
    from canonical_range [OF this] Some show ?thesis
      by (simp add: normalize_provider_def Let_def dget_or_def)
  qed
  show "normalize_provider (str_lower raw) = normalize_provider raw"
    and "normalize_provider (str_strip raw) = normalize_provider raw"
    by (simp_all add: normalize_provider_def Let_def str_strip_lower)
qed (simp only: normalize_provider_def Let_def alias_index_match seed_match_def)

section \<open>Keyed registrations\<close>

text \<open>
  What every \<open>register_...\<close> method and its lookup promise: a lookup finds the value registered last
  under that key.
\<close>

locale keyed_registry =
  fixes reg :: "'k \<Rightarrow> 'v \<Rightarrow> 's \<Rightarrow> 's" and look :: "'s \<Rightarrow> 'k \<Rightarrow> 'v option"
  assumes look_same: "look (reg k v s) k = Some v"
    and look_other: "j \<noteq> k \<Longrightarrow> look (reg k v s) j = look s j"
begin

lemma look_history:
  "look (foldl (\<lambda>s (k, v). reg k v s) s kvs) j =
     (case map_of (rev kvs) j of None \<Rightarrow> look s j | Some v \<Rightarrow> Some v)"
proof (induction kvs rule: rev_induct)
  case (snoc p kvs)
  obtain k v where p: "p = (k, v)" by (cases p)
  show ?case
  proof (cases "j = k")
    case True
    then show ?thesis by (simp add: p look_same)
  next
    case False
    with snoc.IH show ?thesis by (simp add: p look_other)
  qed
qed simp

lemma look_last: "look (reg k v (foldl (\<lambda>s (k, v). reg k v s) s kvs)) k = Some v"
  by (rule look_same)

end

section \<open>The registry\<close>

record pricing_strategy =
  v1_provider :: string
  v1_cost :: "usage_event \<Rightarrow> price_row \<Rightarrow> decimal"

record ('u, 'l) provider_registry =
  reg_usage_sources :: "(string, unit \<Rightarrow> 'u) dict"
  reg_limits_sources :: "(string, unit \<Rightarrow> 'l) dict"
  reg_pricing :: "(string, pricing_strategy) dict"
  reg_pricing_v2 :: "(string, pricing_strategy_v2) dict"
  reg_default_pricing_v2 :: "pricing_strategy_v2 option"
  reg_descriptors :: "(string, provider_descriptor) dict"

datatype registry_error = UnknownProvider string

definition empty_registry :: "('u, 'l) provider_registry" where
  "empty_registry = \<lparr>reg_usage_sources = [], reg_limits_sources = [], reg_pricing = [],
     reg_pricing_v2 = [], reg_default_pricing_v2 = None, reg_descriptors = []\<rparr>"

definition register_provider ::
  "provider_descriptor \<Rightarrow> ('u, 'l) provider_registry \<Rightarrow> ('u, 'l) provider_registry" where
  "register_provider d r = r\<lparr>reg_descriptors := dset (pd_id d) d (reg_descriptors r)\<rparr>"

definition register_usage_source ::
  "string \<Rightarrow> (unit \<Rightarrow> 'u) \<Rightarrow> ('u, 'l) provider_registry \<Rightarrow> ('u, 'l) provider_registry" where
  "register_usage_source p f r = r\<lparr>reg_usage_sources := dset p f (reg_usage_sources r)\<rparr>"

definition register_limits_source ::
  "string \<Rightarrow> (unit \<Rightarrow> 'l) \<Rightarrow> ('u, 'l) provider_registry \<Rightarrow> ('u, 'l) provider_registry" where
  "register_limits_source p f r = r\<lparr>reg_limits_sources := dset p f (reg_limits_sources r)\<rparr>"

definition register_pricing ::
  "pricing_strategy \<Rightarrow> ('u, 'l) provider_registry \<Rightarrow> ('u, 'l) provider_registry" where
  "register_pricing s r = r\<lparr>reg_pricing := dset (v1_provider s) s (reg_pricing r)\<rparr>"

definition register_pricing_v2 ::
  "pricing_strategy_v2 \<Rightarrow> bool \<Rightarrow> ('u, 'l) provider_registry \<Rightarrow> ('u, 'l) provider_registry" where
  "register_pricing_v2 s is_default r =
     (let r = r\<lparr>reg_pricing_v2 := dset (ps_provider s) s (reg_pricing_v2 r)\<rparr>
      in if is_default then r\<lparr>reg_default_pricing_v2 := Some s\<rparr> else r)"

definition or_unknown :: "string \<Rightarrow> 'a option \<Rightarrow> registry_error + 'a" where
  "or_unknown p v = (case v of None \<Rightarrow> Inl (UnknownProvider p) | Some a \<Rightarrow> Inr a)"

definition usage_source :: "('u, 'l) provider_registry \<Rightarrow> string \<Rightarrow> registry_error + 'u" where
  "usage_source r p = or_unknown p (map_option (\<lambda>f. f ()) (dget (reg_usage_sources r) p))"

definition limits_source :: "('u, 'l) provider_registry \<Rightarrow> string \<Rightarrow> registry_error + 'l" where
  "limits_source r p = or_unknown p (map_option (\<lambda>f. f ()) (dget (reg_limits_sources r) p))"

definition pricing :: "('u, 'l) provider_registry \<Rightarrow> string \<Rightarrow> registry_error + pricing_strategy" where
  "pricing r p = or_unknown p (dget (reg_pricing r) p)"

definition pricing_v2 :: "('u, 'l) provider_registry \<Rightarrow> string \<Rightarrow> registry_error + pricing_strategy_v2" where
  "pricing_v2 r p = (case dget (reg_pricing_v2 r) p of Some s \<Rightarrow> Inr s
     | None \<Rightarrow> or_unknown p (reg_default_pricing_v2 r))"

definition provider_of :: "('u, 'l) provider_registry \<Rightarrow> string \<Rightarrow> registry_error + provider_descriptor" where
  "provider_of r p = or_unknown p (dget (reg_descriptors r) p)"

definition is_provider_registered :: "('u, 'l) provider_registry \<Rightarrow> string \<Rightarrow> bool" where
  "is_provider_registered r p \<longleftrightarrow> p \<in> set (dkeys (reg_descriptors r))"

definition resolve_provider :: "('u, 'l) provider_registry \<Rightarrow> string \<Rightarrow> provider_descriptor option" where
  "resolve_provider r raw = dget (reg_descriptors r) (normalize_provider raw)"

definition providers :: "('u, 'l) provider_registry \<Rightarrow> string list" where
  "providers r = sort (dkeys (reg_descriptors r))"

definition usage_providers :: "('u, 'l) provider_registry \<Rightarrow> string list" where
  "usage_providers r = sort (dkeys (reg_usage_sources r))"

definition limits_providers :: "('u, 'l) provider_registry \<Rightarrow> string list" where
  "limits_providers r = sort (dkeys (reg_limits_sources r))"

definition pricing_providers :: "('u, 'l) provider_registry \<Rightarrow> string list" where
  "pricing_providers r = sort (dkeys (reg_pricing r))"

definition pricing_v2_providers :: "('u, 'l) provider_registry \<Rightarrow> string list" where
  "pricing_v2_providers r = sort (dkeys (reg_pricing_v2 r))"

interpretation usage_reg: keyed_registry register_usage_source "\<lambda>r. dget (reg_usage_sources r)"
  by unfold_locales (simp_all add: register_usage_source_def)

interpretation limits_reg: keyed_registry register_limits_source "\<lambda>r. dget (reg_limits_sources r)"
  by unfold_locales (simp_all add: register_limits_source_def)

interpretation dict_reg: keyed_registry dset map_of
  by unfold_locales simp_all

text \<open>
  The usage source a registry hands out for a provider is a fresh object of the factory
  registered last under that name, whatever was registered before and in between for others; a name
  never registered is refused.
\<close>

theorem usage_source_last_registration:
  "usage_source (foldl (\<lambda>r (p, f). register_usage_source p f r) r regs) p =
     (case map_of (rev regs) p of Some f \<Rightarrow> Inr (f ()) | None \<Rightarrow> usage_source r p)"
  by (simp add: usage_source_def usage_reg.look_history or_unknown_def split: option.split)

section \<open>Built-in registrations\<close>

definition register_pricing_strategies_v2 :: "('u, 'l) provider_registry \<Rightarrow> ('u, 'l) provider_registry" where
  "register_pricing_strategies_v2 r =
     register_pricing_v2 generic_strategy True
       (register_pricing_v2 zai_strategy False
         (register_pricing_v2 openai_strategy False
           (register_pricing_v2 anthropic_strategy False r)))"

definition default_v2_pricing_registry :: "('u, 'l) provider_registry" where
  "default_v2_pricing_registry = register_pricing_strategies_v2 empty_registry"

lemma default_registry_eval:
  "pricing_v2 default_v2_pricing_registry p = Inr
     (if p = ''anthropic'' then anthropic_strategy else if p = ''openai'' then openai_strategy
      else if p = ''zai'' then zai_strategy else generic_strategy)"
  by (simp add: pricing_v2_def default_v2_pricing_registry_def register_pricing_strategies_v2_def
      register_pricing_v2_def empty_registry_def or_unknown_def strategy_defs)

lemma default_registry_built_in:
  "\<exists>s \<in> set built_in_strategies. pricing_v2 default_v2_pricing_registry p = Inr s"
  by (simp add: default_registry_eval built_in_strategies_def)

section \<open>The v1 cost engine\<close>

record ('u, 'l) cost_engine =
  ce_table :: pricing_table
  ce_registry :: "('u, 'l) provider_registry"
  ce_unknown_models :: "(string \<times> string) list"

definition cost_engine_cost ::
  "usage_event \<Rightarrow> ('u, 'l) cost_engine \<Rightarrow> decimal option \<times> ('u, 'l) cost_engine" where
  "cost_engine_cost e eng =
     (case (pt_resolve (ce_table eng) (ue_provider e) (ue_native_model e) (dt_date (ue_ts e)),
            pricing (ce_registry eng) (ue_provider e)) of
        (Inr price, Inr strategy) \<Rightarrow> (Some (v1_cost strategy e price), eng)
      | _ \<Rightarrow> (None, eng\<lparr>ce_unknown_models :=
                List.insert (ue_provider e, ue_native_model e) (ce_unknown_models eng)\<rparr>))"

definition cost_all :: "usage_event list \<Rightarrow> ('u, 'l) cost_engine \<Rightarrow> ('u, 'l) cost_engine" where
  "cost_all es eng = foldl (\<lambda>eng e. snd (cost_engine_cost e eng)) eng es"

lemma cost_engine_frame [simp]:
  "ce_table (snd (cost_engine_cost e eng)) = ce_table eng"
  "ce_registry (snd (cost_engine_cost e eng)) = ce_registry eng"
  by (auto simp: cost_engine_cost_def split: sum.split)

lemma cost_engine_value_cong:
  "ce_table eng = ce_table eng' \<Longrightarrow> ce_registry eng = ce_registry eng' \<Longrightarrow>
   fst (cost_engine_cost e eng) = fst (cost_engine_cost e eng')"
  by (auto simp: cost_engine_cost_def split: sum.split)

lemma cost_engine_unknown:
  "set (ce_unknown_models (snd (cost_engine_cost e eng))) = set (ce_unknown_models eng)
     \<union> (if fst (cost_engine_cost e eng) = None then {(ue_provider e, ue_native_model e)} else {})"
  by (auto simp: cost_engine_cost_def split: sum.split)

text \<open>
  The v1 cost engine prices an event exactly when a price row and a strategy are known, and the
  models it reports as unknown are exactly those of the events it could not price: after a run over a
  batch, a pair is reported if and only if it was before or some event of the batch with that
  provider and model got no cost.
\<close>

theorem cost_engine_unknown_models:
  "set (ce_unknown_models (cost_all es eng)) = set (ce_unknown_models eng)
     \<union> {(ue_provider e, ue_native_model e) | e. e \<in> set es \<and> fst (cost_engine_cost e eng) = None}"
proof (induction es arbitrary: eng)
  case (Cons e es)
  let ?eng = "snd (cost_engine_cost e eng)"
  have "fst (cost_engine_cost f ?eng) = fst (cost_engine_cost f eng)" for f
    by (rule cost_engine_value_cong) simp_all
  with Cons.IH [of ?eng] show ?case
    by (auto simp: cost_all_def cost_engine_unknown)
qed (simp add: cost_all_def)

end
