(* ===== verification/Price_Sources.thy ===== *)
theory Price_Sources
  imports Registry Py_Json
begin

text \<open>
  The sources of v2 rate cards (\<open>packages/core/src/tokemetry_core/pricing/sources/\<close>): the row type of
  \<open>rate_card.py\<close>, the curated official rows of \<open>curated.py\<close>, and the transform of the LiteLLM price
  database of \<open>litellm.py\<close>, which asks the provider's strategy which unit types to emit.
\<close>

record rate_card_row =
  rr_provider :: string
  rr_native_model :: string
  rr_unit_type :: string
  rr_effective_from :: date
  rr_unit_price :: decimal
  rr_source :: string
  rr_currency :: string
  rr_mode :: string
  rr_service_tier :: "string option"
  rr_context_bracket :: "string option"
  rr_region :: "string option"
  rr_priority :: int
  rr_override :: bool
  rr_verified_at :: "int option"

text \<open>A row with the dataclass defaults.\<close>

definition rate_row :: "string \<Rightarrow> string \<Rightarrow> string \<Rightarrow> date \<Rightarrow> decimal \<Rightarrow> string \<Rightarrow> rate_card_row" where
  "rate_row provider native_model unit_type effective_from price source =
     \<lparr>rr_provider = provider, rr_native_model = native_model, rr_unit_type = unit_type,
      rr_effective_from = effective_from, rr_unit_price = price, rr_source = source,
      rr_currency = ''USD'', rr_mode = ''realtime'', rr_service_tier = None,
      rr_context_bracket = None, rr_region = None, rr_priority = 0, rr_override = False,
      rr_verified_at = None\<rparr>"

section \<open>Curated rows\<close>

definition OFFICIAL_PRIORITY :: int where
  "OFFICIAL_PRIORITY = 100"

definition CURATED :: "(string \<times> string \<times> (string, decimal) dict) list" where
  "CURATED =
     [(''zai'', ''glm-4.6'', [(''input_token'', 6 / 10000000), (''output_token'', 22 / 10000000),
         (''cache_read_token'', 11 / 100000000)]),
      (''zai'', ''glm-4.5-air'', [(''input_token'', 2 / 10000000), (''output_token'', 11 / 10000000),
         (''cache_read_token'', 3 / 100000000)])]"

definition curated_rate_cards :: "date \<Rightarrow> int option \<Rightarrow> rate_card_row list" where
  "curated_rate_cards effective_from verified_at =
     concat (map (\<lambda>(provider, native_model, prices).
       map (\<lambda>(unit_type, price).
         (rate_row provider native_model unit_type effective_from price ''official'')
           \<lparr>rr_priority := OFFICIAL_PRIORITY, rr_verified_at := verified_at\<rparr>) prices) CURATED)"

section \<open>The LiteLLM transform\<close>

text \<open>Unit type, LiteLLM source key, fallback multiplier on the input price.\<close>

definition UNIT_SOURCE :: "(string \<times> string \<times> decimal option) list" where
  "UNIT_SOURCE =
     [(''input_token'', ''input_cost_per_token'', None),
      (''output_token'', ''output_cost_per_token'', None),
      (''cache_read_token'', ''cache_read_input_token_cost'', Some (1 / 10)),
      (''cache_write_short_token'', ''cache_creation_input_token_cost'', Some (5 / 4)),
      (''cache_write_long_token'', ''cache_creation_input_token_cost_above_1hr'', Some 2)]"

definition DEFAULT_LITELLM_PROVIDERS :: "string list" where
  "DEFAULT_LITELLM_PROVIDERS = [''anthropic'', ''openai'']"

definition per_token :: "json option \<Rightarrow> value_error + decimal option" where
  "per_token v = (case v of None \<Rightarrow> Inr None
     | Some j \<Rightarrow> (case to_decimal j of Inl e \<Rightarrow> Inl e | Inr d \<Rightarrow> Inr (Some d)))"

fun unit_rows ::
  "string \<Rightarrow> string \<Rightarrow> date \<Rightarrow> int option \<Rightarrow> decimal \<Rightarrow> string list \<Rightarrow> (string \<times> json) list
   \<Rightarrow> (string \<times> string \<times> decimal option) list \<Rightarrow> value_error + rate_card_row list" where
  "unit_rows provider model eff verified input_price emitted entry [] = Inr []"
| "unit_rows provider model eff verified input_price emitted entry ((unit_type, key, factor) # units) =
     (let rest = unit_rows provider model eff verified input_price emitted entry units;
          emit = (\<lambda>price. case rest of Inl e \<Rightarrow> Inl e
            | Inr rows \<Rightarrow> Inr ((rate_row provider model unit_type eff price ''litellm'')
                                 \<lparr>rr_verified_at := verified\<rparr> # rows))
      in if unit_type \<notin> set emitted then rest
         else case per_token (jget entry key) of
             Inl e \<Rightarrow> Inl e
           | Inr (Some price) \<Rightarrow> emit price
           | Inr None \<Rightarrow> (case factor of None \<Rightarrow> rest | Some m \<Rightarrow> emit (input_price * m)))"

definition emitted_units_of :: "string \<Rightarrow> string list" where
  "emitted_units_of provider =
     (case pricing_v2 (default_v2_pricing_registry :: (unit, unit) provider_registry) provider of
        Inl _ \<Rightarrow> [] | Inr s \<Rightarrow> ps_emitted_token_units s)"

definition litellm_entry_rows ::
  "string \<Rightarrow> date \<Rightarrow> int option \<Rightarrow> string \<Rightarrow> (string \<times> json) list \<Rightarrow> value_error + rate_card_row list" where
  "litellm_entry_rows provider eff verified model entry =
     (case per_token (jget entry ''input_cost_per_token'') of Inl e \<Rightarrow> Inl e
      | Inr input_price \<Rightarrow>
     (case per_token (jget entry ''output_cost_per_token'') of Inl e \<Rightarrow> Inl e
      | Inr output_price \<Rightarrow>
     (case input_price of None \<Rightarrow> Inr []
      | Some ip \<Rightarrow>
        if output_price = None then Inr []
        else unit_rows provider model eff verified ip (emitted_units_of provider) entry UNIT_SOURCE)))"

definition litellm_model_rows ::
  "string list \<Rightarrow> date \<Rightarrow> int option \<Rightarrow> string \<Rightarrow> json \<Rightarrow> value_error + rate_card_row list" where
  "litellm_model_rows wanted eff verified model v =
     (case v of JObj entry \<Rightarrow>
        (case map_of entry ''litellm_provider'' of
           Some (JArr _) \<Rightarrow> Inl Unhashable
         | Some (JObj _) \<Rightarrow> Inl Unhashable
         | Some (JStr provider) \<Rightarrow>
             if provider \<notin> set wanted then Inr []
             else if CHR ''.'' \<in> set model \<or> CHR ''/'' \<in> set model then Inr []
             else litellm_entry_rows provider eff verified model entry
         | _ \<Rightarrow> Inr [])
      | _ \<Rightarrow> Inr [])"

fun rate_cards_from_litellm ::
  "(string \<times> json) list \<Rightarrow> date \<Rightarrow> int option \<Rightarrow> string list \<Rightarrow> value_error + rate_card_row list" where
  "rate_cards_from_litellm [] eff verified wanted = Inr []"
| "rate_cards_from_litellm ((model, v) # data) eff verified wanted =
     (case litellm_model_rows wanted eff verified model v of Inl e \<Rightarrow> Inl e
      | Inr rows \<Rightarrow> (case rate_cards_from_litellm data eff verified wanted of Inl e \<Rightarrow> Inl e
          | Inr rows' \<Rightarrow> Inr (rows @ rows')))"

section \<open>What the transform emits\<close>

definition litellm_shape :: "string \<Rightarrow> string \<Rightarrow> date \<Rightarrow> int option \<Rightarrow> rate_card_row \<Rightarrow> bool" where
  "litellm_shape provider model eff verified r \<longleftrightarrow>
     r = (rate_row provider model (rr_unit_type r) eff (rr_unit_price r) ''litellm'')
           \<lparr>rr_verified_at := verified\<rparr>
     \<and> rr_unit_type r \<in> set (emitted_units_of provider)"

lemma unit_rows_ConsE:
  assumes "unit_rows provider model eff verified ip emitted entry ((ut, key, factor) # units) = Inr rows"
  obtains rest where "unit_rows provider model eff verified ip emitted entry units = Inr rest"
    and "rows = rest \<or> ut \<in> set emitted \<and>
      (\<exists>p. rows = (rate_row provider model ut eff p ''litellm'')\<lparr>rr_verified_at := verified\<rparr> # rest)"
  using assms by (auto simp: Let_def split: if_splits sum.splits option.splits)

lemma unit_rows_shape:
  "unit_rows provider model eff verified ip (emitted_units_of provider) entry units = Inr rows \<Longrightarrow>
   r \<in> set rows \<Longrightarrow> litellm_shape provider model eff verified r \<and> rr_unit_type r \<in> fst ` set units"
proof (induction units arbitrary: rows)
  case (Cons u units)
  obtain ut key factor where u: "u = (ut, key, factor)" by (cases u)
  from Cons.prems(1) [unfolded u] obtain rest where
    rest: "unit_rows provider model eff verified ip (emitted_units_of provider) entry units = Inr rest"
    and rows: "rows = rest \<or> ut \<in> set (emitted_units_of provider) \<and>
      (\<exists>p. rows = (rate_row provider model ut eff p ''litellm'')\<lparr>rr_verified_at := verified\<rparr> # rest)"
    by (rule unit_rows_ConsE)
  show ?case
  proof (cases "r \<in> set rest")
    case True
    from Cons.IH [OF rest this] show ?thesis by (simp add: u)
  next
    case False
    with rows Cons.prems(2) obtain p where "ut \<in> set (emitted_units_of provider)"
      and "r = (rate_row provider model ut eff p ''litellm'')\<lparr>rr_verified_at := verified\<rparr>"
      by auto
    then show ?thesis by (simp add: u litellm_shape_def rate_row_def)
  qed
qed simp

lemma unit_rows_units:
  "unit_rows provider model eff verified ip emitted entry units = Inr rows \<Longrightarrow>
   distinct (map fst units) \<Longrightarrow>
   set (map rr_unit_type rows) \<subseteq> set (map fst units) \<and> distinct (map rr_unit_type rows)"
proof (induction units arbitrary: rows)
  case (Cons u units)
  obtain ut key factor where u: "u = (ut, key, factor)" by (cases u)
  from Cons.prems(1) [unfolded u] obtain rest where
    rest: "unit_rows provider model eff verified ip emitted entry units = Inr rest"
    and rows: "rows = rest \<or> ut \<in> set emitted \<and>
      (\<exists>p. rows = (rate_row provider model ut eff p ''litellm'')\<lparr>rr_verified_at := verified\<rparr> # rest)"
    by (rule unit_rows_ConsE)
  have IH: "set (map rr_unit_type rest) \<subseteq> set (map fst units) \<and> distinct (map rr_unit_type rest)"
    using Cons.IH [OF rest] Cons.prems(2) by simp
  from rows show ?case
  proof (elim disjE conjE exE)
    fix p assume "rows = (rate_row provider model ut eff p ''litellm'')\<lparr>rr_verified_at := verified\<rparr> # rest"
    moreover have "ut \<notin> set (map fst units)" using Cons.prems(2) by (simp add: u)
    ultimately show ?thesis using IH by (auto simp: u rate_row_def)
  qed (use IH in \<open>auto simp: u\<close>)
qed simp

lemma litellm_model_rows_shape:
  assumes "litellm_model_rows wanted eff verified model v = Inr rows" and "r \<in> set rows"
  shows "\<exists>provider \<in> set wanted. litellm_shape provider model eff verified r
    \<and> CHR ''.'' \<notin> set model \<and> CHR ''/'' \<notin> set model"
proof -
  obtain entry provider where p: "provider \<in> set wanted"
    and m: "CHR ''.'' \<notin> set model" "CHR ''/'' \<notin> set model"
    and e: "litellm_entry_rows provider eff verified model entry = Inr rows"
  proof -
    obtain entry where v: "v = JObj entry"
      using assms by (cases v) (simp_all add: litellm_model_rows_def)
    obtain j where j: "map_of entry ''litellm_provider'' = Some j"
      using assms by (cases "map_of entry ''litellm_provider''") (auto simp: litellm_model_rows_def v)
    obtain provider where "j = JStr provider"
      using assms by (cases j) (simp_all add: litellm_model_rows_def v j)
    with assms that [of provider entry] show thesis
      by (simp add: litellm_model_rows_def v j split: if_splits)
  qed
  obtain ip where
    "unit_rows provider model eff verified ip (emitted_units_of provider) entry UNIT_SOURCE = Inr rows"
    using e assms(2) by (simp add: litellm_entry_rows_def split: sum.splits option.splits if_splits)
  with assms(2) unit_rows_shape p m show ?thesis by blast
qed

text \<open>
  Every row the LiteLLM transform produces is an undated, default-dimension, \<open>litellm\<close>-sourced
  row at priority 0 (below the official rows), of a wanted provider and of a canonical model id of the
  database, and of a unit type that the provider's pricing strategy really bills. The hypothesis is
  that no price of the database is malformed.
\<close>

theorem rate_cards_from_litellm_shape:
  assumes "rate_cards_from_litellm data eff verified wanted = Inr rows" and "r \<in> set rows"
  shows "rr_provider r \<in> set wanted \<and> rr_native_model r \<in> fst ` set data
    \<and> CHR ''.'' \<notin> set (rr_native_model r) \<and> CHR ''/'' \<notin> set (rr_native_model r)
    \<and> rr_unit_type r \<in> set (emitted_units_of (rr_provider r))
    \<and> rr_effective_from r = eff \<and> rr_priority r < OFFICIAL_PRIORITY \<and> rr_source r = ''litellm''
    \<and> rr_service_tier r = None \<and> rr_context_bracket r = None \<and> rr_mode r = ''realtime''"
  using assms
proof (induction data arbitrary: rows)
  case (Cons e data)
  obtain model v where e: "e = (model, v)" by (cases e)
  with Cons.prems obtain rows1 rows2 where
    m: "litellm_model_rows wanted eff verified model v = Inr rows1"
    and d: "rate_cards_from_litellm data eff verified wanted = Inr rows2" and rows: "rows = rows1 @ rows2"
    by (auto split: sum.splits)
  show ?case
  proof (cases "r \<in> set rows1")
    case True
    then obtain provider where p: "provider \<in> set wanted"
      and s: "litellm_shape provider model eff verified r"
      and c: "CHR ''.'' \<notin> set model" "CHR ''/'' \<notin> set model"
      using litellm_model_rows_shape [OF m] by blast
    have u: "rr_unit_type r \<in> set (emitted_units_of provider)"
      and "r = (rate_row provider model (rr_unit_type r) eff (rr_unit_price r) ''litellm'')
           \<lparr>rr_verified_at := verified\<rparr>"
      using s by (simp_all add: litellm_shape_def)
    then obtain ut pr where "r = (rate_row provider model ut eff pr ''litellm'')
           \<lparr>rr_verified_at := verified\<rparr>" by blast
    with p c u show ?thesis by (simp add: e rate_row_def OFFICIAL_PRIORITY_def)
  next
    case False
    with Cons.prems(2) rows have "r \<in> set rows2" by simp
    from Cons.IH [OF d this] show ?thesis by (simp add: e)
  qed
qed simp

theorem rate_cards_from_litellm_shape_witness:
  "\<exists>rows. rate_cards_from_litellm
      [(''gpt-5'', JObj [(''litellm_provider'', JStr ''openai''),
          (''input_cost_per_token'', JNum (1 / 800000)), (''output_cost_per_token'', JNum (1 / 100000))]),
       (''azure/gpt-5'', JObj [(''litellm_provider'', JStr ''openai'')])]
      20454 None DEFAULT_LITELLM_PROVIDERS = Inr rows
    \<and> map rr_unit_type rows = [''input_token'', ''output_token'', ''cache_read_token'']
    \<and> rr_unit_price (rows ! 2) = 1 / 8000000 \<and> rr_priority (rows ! 2) < OFFICIAL_PRIORITY"
proof -
  let ?data = "[(''gpt-5'', JObj [(''litellm_provider'', JStr ''openai''),
          (''input_cost_per_token'', JNum (1 / 800000)), (''output_cost_per_token'', JNum (1 / 100000))]),
       (''azure/gpt-5'', JObj [(''litellm_provider'', JStr ''openai'')])]"
  let ?row = "\<lambda>u p. rate_row ''openai'' ''gpt-5'' u 20454 p ''litellm''"
  let ?rows = "[?row ''input_token'' (1 / 800000), ?row ''output_token'' (1 / 100000),
      ?row ''cache_read_token'' (1 / 8000000)]"
  have h: "rate_cards_from_litellm ?data 20454 None DEFAULT_LITELLM_PROVIDERS = Inr ?rows"
    by (simp add: litellm_model_rows_def litellm_entry_rows_def DEFAULT_LITELLM_PROVIDERS_def UNIT_SOURCE_def jget_def
        per_token_def to_decimal_def emitted_units_of_def default_registry_eval strategy_defs
        rate_row_def)
  have "?row ''cache_read_token'' (1 / 8000000) \<in> set ?rows" by simp
  from rate_cards_from_litellm_shape [OF h this] h show ?thesis by (simp add: rate_row_def)
qed

lemma curated_wins: "r \<in> set (curated_rate_cards eff verified) \<Longrightarrow> rr_priority r = OFFICIAL_PRIORITY
    \<and> rr_effective_from r = eff \<and> rr_provider r = ''zai''"
  by (auto simp: curated_rate_cards_def CURATED_def rate_row_def)

end
