(* ===== verification/Projects.thy ===== *)
theory Projects
  imports Prelude
begin

text \<open>
  \<open>packages/core/src/tokemetry_core/projects.py\<close>: folding a raw working directory into a project label.
  The worktree pattern \<open>[\/].claude[\/]worktrees[\/][^\/]+.*$\<close> is modelled as the regular-expression
  engine runs it: the leftmost start, the name as long as possible with backtracking, a tail that stops
  at a newline, and \<open>$\<close> at the end or before a final newline, which then stays.
\<close>

definition DEFAULT_ROOTS :: "string list" where "DEFAULT_ROOTS = [''devel'']"

definition UNATTRIBUTED :: string where "UNATTRIBUTED = ''(unattributed)''"

definition is_sep :: "char \<Rightarrow> bool" where
  "is_sep c \<longleftrightarrow> c = CHR ''/'' \<or> c = CHR 0x5C"

text \<open>What follows \<open>/.claude/worktrees/\<close> at the start of a text.\<close>

definition marker_rest :: "string \<Rightarrow> string option" where
  "marker_rest s =
     (if 19 \<le> length s \<and> is_sep (s ! 0) \<and> str_lower (take 7 (drop 1 s)) = ''.claude'' \<and> is_sep (s ! 8)
         \<and> str_lower (take 9 (drop 9 s)) = ''worktrees'' \<and> is_sep (s ! 18)
      then Some (drop 19 s) else None)"

definition line_end :: "string \<Rightarrow> string option" where
  "line_end s = (let left = dropWhile (\<lambda>c. c \<noteq> CHR 0x0A) s
     in if left = [] \<or> left = [CHR 0x0A] then Some left else None)"

text \<open>What is left of a text after the pattern has matched at its start.\<close>

definition worktree_match :: "string \<Rightarrow> string option" where
  "worktree_match s =
     (case marker_rest s of
        None \<Rightarrow> None
      | Some r \<Rightarrow> first_some (\<lambda>k. line_end (drop k r))
                    (rev [1..<Suc (length (takeWhile (\<lambda>c. \<not> is_sep c) r))]))"

fun strip_worktree :: "string \<Rightarrow> string" where
  "strip_worktree [] = []"
| "strip_worktree (c # cs) =
     (case worktree_match (c # cs) of Some left \<Rightarrow> left | None \<Rightarrow> c # strip_worktree cs)"

text \<open>\<open>_SEP_RE.split\<close>: a separator is a run of slashes.\<close>

function split_seps :: "string \<Rightarrow> string list" where
  "split_seps s =
     (case dropWhile (\<lambda>c. \<not> is_sep c) s of
        [] \<Rightarrow> [s]
      | c # cs \<Rightarrow> takeWhile (\<lambda>c. \<not> is_sep c) s # split_seps (dropWhile is_sep cs))"
  by pat_completeness auto
termination
proof (relation "measure length")
  fix s :: string and c cs
  assume "dropWhile (\<lambda>c. \<not> is_sep c) s = c # cs"
  then have "length (c # cs) \<le> length s" using length_dropWhile_le [of "\<lambda>c. \<not> is_sep c" s] by simp
  moreover have "length (dropWhile is_sep cs) \<le> length cs" by (rule length_dropWhile_le)
  ultimately show "(dropWhile is_sep cs, s) \<in> measure length" by simp
qed simp

declare split_seps.simps [simp del]

definition is_alpha :: "char \<Rightarrow> bool" where
  "is_alpha c = (let n = (of_char c :: nat) in 65 \<le> n \<and> n \<le> 90 \<or> 97 \<le> n \<and> n \<le> 122)"

fun is_drive :: "string \<Rightarrow> bool" where
  "is_drive [c, d] = (is_alpha c \<and> d = CHR '':'')"
| "is_drive [c, d, e] = (is_alpha c \<and> d = CHR '':'' \<and> e = CHR 0x0A)"
| "is_drive _ = False"

text \<open>The loop over the segments: the segment after the first root marker that has one.\<close>

fun after_root :: "string list \<Rightarrow> string list \<Rightarrow> string option" where
  "after_root roots (seg # next_seg # rest) =
     (if str_lower seg \<in> set roots then Some next_seg else after_root roots (next_seg # rest))"
| "after_root roots _ = None"

definition path_segments :: "string \<Rightarrow> string list" where
  "path_segments path =
     (let segments = filter (\<lambda>seg. seg \<noteq> [] \<and> seg \<noteq> ''.'') (split_seps (strip_worktree path))
      in if segments \<noteq> [] \<and> is_drive (hd segments) then tl segments else segments)"

definition project_group :: "string option \<Rightarrow> string list \<Rightarrow> string" where
  "project_group path roots =
     (case path of
        None \<Rightarrow> UNATTRIBUTED
      | Some p \<Rightarrow>
          if str_strip p = [] then UNATTRIBUTED
          else let segments = path_segments p
               in if segments = [] then UNATTRIBUTED
                  else (case after_root (map str_lower roots) segments of
                          Some seg \<Rightarrow> seg | None \<Rightarrow> last segments))"

section \<open>Labels are path segments\<close>

lemma split_seps_segments: "seg \<in> set (split_seps s) \<Longrightarrow> \<forall>c \<in> set seg. \<not> is_sep c"
proof (induction s rule: split_seps.induct)
  case (1 s)
  show ?case
  proof (cases "dropWhile (\<lambda>c. \<not> is_sep c) s")
    case Nil
    then have "\<forall>c \<in> set s. \<not> is_sep c" by (simp add: dropWhile_eq_Nil_conv)
    then show ?thesis using 1(2) Nil by (subst (asm) split_seps.simps) simp
  next
    case (Cons c cs)
    then have "seg = takeWhile (\<lambda>c. \<not> is_sep c) s \<or> seg \<in> set (split_seps (dropWhile is_sep cs))"
      using 1(2) by (subst (asm) split_seps.simps) simp
    then show ?thesis using 1(1) [OF Cons] by (auto dest: set_takeWhileD)
  qed
qed

lemma after_root_in: "after_root roots segs = Some seg \<Longrightarrow> seg \<in> set segs"
  by (induction roots segs rule: after_root.induct) (auto split: if_splits)

lemma path_segments_ok:
  "seg \<in> set (path_segments p) \<Longrightarrow> seg \<noteq> [] \<and> seg \<noteq> ''.'' \<and> (\<forall>c \<in> set seg. \<not> is_sep c)"
proof -
  let ?segs = "filter (\<lambda>seg. seg \<noteq> [] \<and> seg \<noteq> ''.'') (split_seps (strip_worktree p))"
  assume "seg \<in> set (path_segments p)"
  then have "seg \<in> set ?segs"
    by (auto simp: path_segments_def Let_def split: if_splits dest: list.set_sel(2))
  then show ?thesis using split_seps_segments by auto
qed

lemma project_group_cases:
  "project_group path roots = UNATTRIBUTED
   \<or> (\<exists>p. path = Some p \<and> project_group path roots \<in> set (path_segments p))"
proof (cases path)
  case (Some p)
  show ?thesis
  proof (cases "after_root (map str_lower roots) (path_segments p)")
    case None
    then show ?thesis using Some by (auto simp: project_group_def Let_def)
  next
    case (Some seg)
    from after_root_in [OF this] Some \<open>path = Some p\<close> show ?thesis
      by (auto simp: project_group_def Let_def)
  qed
qed (simp add: project_group_def)

lemma project_group_no_sep: "\<forall>c \<in> set (project_group path roots). \<not> is_sep c"
  using project_group_cases [of path roots] path_segments_ok
  by (auto simp: UNATTRIBUTED_def is_sep_def)

lemma project_group_nonempty: "project_group path roots \<noteq> []"
  using project_group_cases [of path roots] path_segments_ok
  by (auto simp: UNATTRIBUTED_def)

section \<open>Worktrees belong to their project\<close>

lemma str_strip_Nil: "str_strip s = [] \<longleftrightarrow> (\<forall>c \<in> set s. is_space c)"
proof -
  have "str_strip s = [] \<longleftrightarrow> (\<forall>c \<in> set (dropWhile is_space s). is_space c)"
    by (simp add: str_strip_def dropWhile_eq_Nil_conv)
  also have "\<dots> \<longleftrightarrow> (\<forall>c \<in> set s. is_space c)"
    by (induction s) auto
  finally show ?thesis .
qed

lemma is_sep_lower [simp]: "is_sep c \<Longrightarrow> lower_char c = c"
  by (auto simp: is_sep_def lower_char_def)

lemma str_contains_take: "take (length n) s = n \<Longrightarrow> n \<noteq> [] \<Longrightarrow> str_contains n s"
  by (cases s) simp_all

lemma marker_none:
  assumes "\<not> str_contains ''.claude'' (str_lower cs)" and "s = [] \<or> is_sep (hd s)"
  shows "marker_rest (c # cs @ s) = None"
proof (rule ccontr)
  assume "marker_rest (c # cs @ s) \<noteq> None"
  then have t: "str_lower (take 7 (cs @ s)) = ''.claude''" and l: "19 \<le> Suc (length cs + length s)"
    by (auto simp: marker_rest_def split: if_splits)
  show False
  proof (cases "7 \<le> length cs")
    case True
    then have "take 7 (str_lower cs) = ''.claude''" using t by (simp add: str_lower_def take_map)
    then have "str_contains ''.claude'' (str_lower cs)" by (intro str_contains_take) (simp_all add: numeral_eq_Suc)
    with assms(1) show False ..
  next
    case False
    then have "length cs < 7" by simp
    then have "s \<noteq> []" using l by auto
    then obtain a s' where s: "s = a # s'" and a: "is_sep a" using assms(2) by (cases s) auto
    have "take 7 (cs @ s) = cs @ a # take (6 - length cs) s'"
      using False s by (simp add: take_Cons')
    then have "a \<in> set ''.claude''" using t a
      by (metis image_eqI in_set_conv_decomp is_sep_lower set_map str_lower_def)
    with a show False by (auto simp: is_sep_def)
  qed
qed

lemma str_contains_Cons: "\<not> str_contains n (c # cs) \<Longrightarrow> \<not> str_contains n cs"
  by simp

lemma strip_worktree_prefix:
  "\<lbrakk>\<not> str_contains ''.claude'' (str_lower p); s = [] \<or> is_sep (hd s)\<rbrakk>
   \<Longrightarrow> strip_worktree (p @ s) = p @ strip_worktree s"
proof (induction p)
  case (Cons c cs)
  have cs: "\<not> str_contains ''.claude'' (str_lower cs)"
    using Cons.prems(1) unfolding str_lower_def list.map by (rule str_contains_Cons)
  have "worktree_match (c # cs @ s) = None"
    by (simp add: worktree_match_def marker_none [OF cs Cons.prems(2)])
  with Cons.IH [OF cs Cons.prems(2)] show ?case by simp
qed simp

lemma line_end_plain: "CHR 0x0A \<notin> set s \<Longrightarrow> line_end s = Some []"
proof -
  assume "CHR 0x0A \<notin> set s"
  then have "dropWhile (\<lambda>c. c \<noteq> CHR 0x0A) s = []" by (auto simp: dropWhile_eq_Nil_conv)
  then show ?thesis by (simp add: line_end_def)
qed

lemma worktree_match_plain:
  assumes "str_lower c1 = ''.claude''" "str_lower c2 = ''worktrees''" "is_sep a" "is_sep b" "is_sep d"
    and "name \<noteq> []" "\<forall>c \<in> set name. \<not> is_sep c" "rest = [] \<or> is_sep (hd rest)" "CHR 0x0A \<notin> set rest"
  shows "worktree_match (a # c1 @ b # c2 @ d # name @ rest) = Some []"
proof -
  have l: "length c1 = 7" "length c2 = 9"
    using arg_cong [OF assms(1), of length] arg_cong [OF assms(2), of length] by (simp_all add: str_lower_def)
  have "marker_rest (a # c1 @ b # c2 @ d # name @ rest) = Some (name @ rest)"
    using assms(1-5) l by (simp add: marker_rest_def nth_append nth_Cons')
  moreover have "takeWhile (\<lambda>c. \<not> is_sep c) (name @ rest) = name"
    using assms(7,8) by (cases rest) (simp_all add: takeWhile_append)
  moreover have "rev [1..<Suc (length name)] = length name # rev [1..<length name]"
    using assms(6) by (cases name) simp_all
  ultimately show ?thesis
    using assms(9) by (simp add: worktree_match_def line_end_plain)
qed

lemma worktree_group:
  assumes "\<not> str_contains ''.claude'' (str_lower p)" and "str_strip p \<noteq> []"
    and "worktree_match s = Some []" and "is_sep (hd s)"
  shows "project_group (Some (p @ s)) roots = project_group (Some p) roots"
proof -
  have ne: "s \<noteq> []" using assms(3) by (auto simp: worktree_match_def marker_rest_def)
  have "strip_worktree s = []" using assms(3) ne by (cases s) simp_all
  then have "path_segments (p @ s) = path_segments p"
    using strip_worktree_prefix [OF assms(1), of s] strip_worktree_prefix [OF assms(1), of "[]"] assms(4)
    by (simp add: path_segments_def)
  moreover have "str_strip (p @ s) \<noteq> []" using assms(2) by (auto simp: str_strip_Nil)
  ultimately show ?thesis using assms(2) by (simp add: project_group_def)
qed

text \<open>
  A git worktree is attributed to the project it was taken from: below any directory that has no
  \<open>.claude\<close> in its path, \<open>.claude/worktrees/<name>\<close> and everything under it get the directory's own
  group, with either kind of slash and any case of the marker; and a group label is never empty and never
  a path. The hypotheses: the directory is not blank, the worktree's name and the tail are on one line.
\<close>

theorem project_group_worktree:
  assumes "\<not> str_contains ''.claude'' (str_lower p)" and "str_strip p \<noteq> []"
    and "str_lower c1 = ''.claude''" "str_lower c2 = ''worktrees''" "is_sep a" "is_sep b" "is_sep d"
    and "name \<noteq> []" "\<forall>c \<in> set name. \<not> is_sep c" "rest = [] \<or> is_sep (hd rest)" "CHR 0x0A \<notin> set rest"
  shows "project_group (Some (p @ a # c1 @ b # c2 @ d # name @ rest)) roots = project_group (Some p) roots
    \<and> project_group (Some p) roots \<noteq> [] \<and> (\<forall>c \<in> set (project_group (Some p) roots). \<not> is_sep c)"
  using worktree_group [OF assms(1,2) worktree_match_plain [OF assms(3-11)]] assms(5)
  by (simp add: project_group_nonempty project_group_no_sep)

theorem project_group_worktree_witness:
  "project_group (Some ''C:/devel/TheraCore/.Claude/worktrees/fix-1/src'') DEFAULT_ROOTS = ''TheraCore''"
proof -
  have c: "\<not> str_contains ''.claude'' (str_lower ''C:/devel/TheraCore'')" by code_simp
  have n: "str_strip ''C:/devel/TheraCore'' \<noteq> []" by code_simp
  have l: "str_lower ''.Claude'' = ''.claude''" "str_lower ''worktrees'' = ''worktrees''" by code_simp+
  have "project_group (Some (''C:/devel/TheraCore'' @ CHR ''/'' # ''.Claude'' @ CHR ''/'' # ''worktrees''
      @ CHR ''/'' # ''fix-1'' @ ''/src'')) DEFAULT_ROOTS = project_group (Some ''C:/devel/TheraCore'') DEFAULT_ROOTS"
    using project_group_worktree [OF c n l, of "CHR ''/''" "CHR ''/''" "CHR ''/''" "''fix-1''" "''/src''"]
    by (simp add: is_sep_def)
  also have "\<dots> = ''TheraCore''" by code_simp
  finally show ?thesis by simp
qed

end
