(* ===== verification/Audit_Log.thy ===== *)
theory Audit_Log
  imports Core_Models
begin

text \<open>
  \<open>apps/server/src/tokemetry_server/services/audit.py\<close>: the append-only log of administrative actions
  (table \<open>audit_log\<close> of \<open>db/models.py\<close>). The log is a list in id order; the values of a detail map are
  kept before their rendering to text (\<open>AuDec d\<close> for \<open>str(d)\<close>, \<open>AuDate d\<close> and \<open>AuTime t\<close> for
  \<open>isoformat()\<close>).
\<close>

datatype audit_value = AuNull | AuStr string | AuInt int | AuBool bool | AuDec decimal | AuDate date | AuTime int
  | AuObj "(string \<times> audit_value) list" | AuArr "audit_value list"

record audit_entry =
  au_actor :: "string option"
  au_action :: string
  au_subject :: "string option"
  au_detail :: "(string \<times> audit_value) list"
  au_ts :: int
  au_request_id :: "string option"

definition audit_record ::
  "string option \<Rightarrow> string \<Rightarrow> string option \<Rightarrow> (string \<times> audit_value) list \<Rightarrow> int \<Rightarrow> string option
   \<Rightarrow> audit_entry list \<Rightarrow> audit_entry list" where
  "audit_record actor action subject detail ts request_id entries =
     entries @ [\<lparr>au_actor = actor, au_action = action, au_subject = subject, au_detail = detail,
             au_ts = ts, au_request_id = request_id\<rparr>]"

text \<open>Newest first: by timestamp, then by id, both descending.\<close>

definition list_audit ::
  "string option \<Rightarrow> string option \<Rightarrow> nat \<Rightarrow> audit_entry list \<Rightarrow> audit_entry list" where
  "list_audit action actor limit entries =
     take limit (filter (\<lambda>e. (action = None \<or> action = Some (au_action e))
                    \<and> (actor = None \<or> actor = au_actor e)) (rev (sort_key au_ts entries)))"

lemma insort_key_append:
  "\<forall>y \<in> set ys. f x \<le> f y \<Longrightarrow> insort_key f x (xs @ ys) = insort_key f x xs @ ys"
  by (induction xs) (cases ys, auto)

lemma sort_key_snoc: "\<forall>y \<in> set xs. f y \<le> f e \<Longrightarrow> sort_key f (xs @ [e]) = sort_key f xs @ [e]"
  by (induction xs) (auto simp: insort_key_append)

lemma list_audit_newest:
  assumes "\<forall>e \<in> set entries. au_ts e \<le> ts" and "0 < limit"
  shows "list_audit (Some action) None limit (audit_record actor action subject detail ts rid entries) =
    \<lparr>au_actor = actor, au_action = action, au_subject = subject, au_detail = detail, au_ts = ts,
      au_request_id = rid\<rparr> # list_audit (Some action) None (limit - 1) entries"
  using assms sort_key_snoc [of entries au_ts]
  by (cases limit) (simp_all add: list_audit_def audit_record_def)

end
