(* ===== verification/Rate_Cards.thy ===== *)
theory Rate_Cards
  imports Price_Sources Audit_Log
begin

text \<open>
  The v2 rate cards of the server: the table \<open>rate_cards\<close> of \<open>db/models.py\<close>, the pricing-state version
  and the rate resolution of \<open>services/pricing_v2.py\<close>, the administration of \<open>services/pricing_admin.py\<close>
  and the import of \<open>services/pricing_import.py\<close>. The state is a record of the tables these services
  touch; an autoincrement id is the next number. The digest of an import diff is a parameter (a hash of
  the sorted changes).
\<close>

section \<open>State\<close>

record rate_card =
  rc_id :: int
  rc_provider :: string
  rc_native_model :: string
  rc_unit_type :: string
  rc_effective_from :: date
  rc_effective_to :: "date option"
  rc_currency :: string
  rc_region :: "string option"
  rc_service_tier :: "string option"
  rc_mode :: string
  rc_context_bracket :: "string option"
  rc_unit_price :: decimal
  rc_source :: string
  rc_verified_at :: "int option"
  rc_priority :: int
  rc_override :: bool
  rc_created_at :: int

record pricing_db =
  db_cards :: "rate_card list"
  db_next_card :: int
  db_settings :: "(string, string \<times> int) dict"
  db_audit :: "audit_entry list"

section \<open>The pricing-state version\<close>

definition PRICING_VERSION_KEY :: string where
  "PRICING_VERSION_KEY = ''pricing_version''"

definition current_pricing_version :: "'a pricing_db_scheme \<Rightarrow> string" where
  "current_pricing_version db =
     (case dget (db_settings db) PRICING_VERSION_KEY of
        Some (v, _) \<Rightarrow> if v \<noteq> [] then v else ''1''
      | None \<Rightarrow> ''1'')"

definition str_isdigit :: "string \<Rightarrow> bool" where
  "str_isdigit s \<longleftrightarrow> s \<noteq> [] \<and> list_all is_digit s"

definition bump_pricing_version :: "int \<Rightarrow> 'a pricing_db_scheme \<Rightarrow> string \<times> 'a pricing_db_scheme" where
  "bump_pricing_version now db =
     (let v = (case dget (db_settings db) PRICING_VERSION_KEY of
                 None \<Rightarrow> ''2''
               | Some (v, _) \<Rightarrow> str_of_nat (Suc (if str_isdigit v then nat_of_digits v else 1)))
      in (v, db\<lparr>db_settings := dset PRICING_VERSION_KEY (v, now) (db_settings db)\<rparr>))"

section \<open>Resolution\<close>

record resolved_rate =
  rs_unit_price :: decimal
  rs_rate_card_id :: int
  rs_currency :: string
  rs_source :: string

datatype price_time = OnDate date | AtTime py_datetime

definition as_date :: "price_time \<Rightarrow> date" where
  "as_date tm = (case tm of OnDate d \<Rightarrow> d | AtTime t \<Rightarrow> dt_date t)"

definition candidate_models :: "rate_card list \<Rightarrow> string \<Rightarrow> string \<Rightarrow> string list" where
  "candidate_models cards provider native_model =
     (let base = base_model_id native_model
      in native_model #
         (if base \<noteq> native_model then [base]
          else rev (sort (filter (\<lambda>m. m \<noteq> native_model \<and> base_model_id m = native_model)
                 (remdups (map rc_native_model (filter (\<lambda>c. rc_provider c = provider) cards)))))))"

definition card_covers :: "rate_card \<Rightarrow> date \<Rightarrow> bool" where
  "card_covers c on \<longleftrightarrow> rc_effective_from c \<le> on \<and> (case rc_effective_to c of None \<Rightarrow> True | Some e \<Rightarrow> on \<le> e)"

text \<open>A requested dimension value matches a card with that value or with none.\<close>

definition dim_matches :: "string option \<Rightarrow> string option \<Rightarrow> bool" where
  "dim_matches want have \<longleftrightarrow> have = None \<or> have = want"

definition card_matches ::
  "string \<Rightarrow> string \<Rightarrow> string \<Rightarrow> date \<Rightarrow> string option \<Rightarrow> string \<Rightarrow> string option \<Rightarrow> rate_card \<Rightarrow> bool" where
  "card_matches provider model unit_type on tier mode bracket c \<longleftrightarrow>
     rc_provider c = provider \<and> rc_native_model c = model \<and> rc_unit_type c = unit_type
     \<and> rc_mode c = mode \<and> card_covers c on
     \<and> dim_matches tier (rc_service_tier c) \<and> dim_matches bracket (rc_context_bracket c)"

definition dim_hit :: "string option \<Rightarrow> string option \<Rightarrow> int" where
  "dim_hit want have = (if want \<noteq> None \<and> have = want then 1 else 0)"

definition precedence ::
  "string option \<Rightarrow> string option \<Rightarrow> rate_card \<Rightarrow> int \<times> int \<times> int \<times> int \<times> date" where
  "precedence tier bracket c =
     (dim_hit tier (rc_service_tier c), dim_hit bracket (rc_context_bracket c), rc_priority c,
      if rc_override c then 1 else 0, rc_effective_from c)"

definition best_card ::
  "rate_card list \<Rightarrow> string \<Rightarrow> string \<Rightarrow> string \<Rightarrow> date \<Rightarrow> string option \<Rightarrow> string \<Rightarrow> string option
   \<Rightarrow> rate_card option" where
  "best_card cards provider model unit_type on tier mode bracket =
     max_by (precedence tier bracket)
       (filter (card_matches provider model unit_type on tier mode bracket) cards)"

definition to_resolved :: "rate_card \<Rightarrow> resolved_rate" where
  "to_resolved c = \<lparr>rs_unit_price = rc_unit_price c, rs_rate_card_id = rc_id c,
     rs_currency = rc_currency c, rs_source = rc_source c\<rparr>"

definition resolve_rate ::
  "rate_card list \<Rightarrow> string \<Rightarrow> string \<Rightarrow> string \<Rightarrow> price_time \<Rightarrow> string option \<Rightarrow> string \<Rightarrow> string option
   \<Rightarrow> resolved_rate option" where
  "resolve_rate cards provider native_model unit_type tm tier mode bracket =
     map_option to_resolved
       (first_some (\<lambda>model. best_card cards provider model unit_type (as_date tm) tier mode bracket)
          (candidate_models cards provider native_model))"

section \<open>Overlap\<close>

text \<open>\<open>date.max\<close>, 9999-12-31.\<close>

definition DATE_MAX :: date where
  "DATE_MAX = 2932896"

definition date_end :: "date option \<Rightarrow> date" where
  "date_end d = (case d of None \<Rightarrow> DATE_MAX | Some e \<Rightarrow> e)"

definition ranges_intersect :: "date \<Rightarrow> date option \<Rightarrow> date \<Rightarrow> date option \<Rightarrow> bool" where
  "ranges_intersect a_from a_to b_from b_to \<longleftrightarrow> a_from \<le> date_end b_to \<and> b_from \<le> date_end a_to"

type_synonym grain = "string \<times> string \<times> string \<times> string option \<times> string \<times> string option \<times> int"

definition card_grain :: "rate_card \<Rightarrow> grain" where
  "card_grain c = (rc_provider c, rc_native_model c, rc_unit_type c, rc_service_tier c, rc_mode c,
     rc_context_bracket c, rc_priority c)"

definition row_grain :: "rate_card_row \<Rightarrow> grain" where
  "row_grain r = (rr_provider r, rr_native_model r, rr_unit_type r, rr_service_tier r, rr_mode r,
     rr_context_bracket r, rr_priority r)"

datatype overlap_error = Overlap int

definition check_overlap ::
  "rate_card list \<Rightarrow> grain \<Rightarrow> date \<Rightarrow> date option \<Rightarrow> int option \<Rightarrow> overlap_error + unit" where
  "check_overlap cards g eff_from eff_to exclude_id =
     (case filter (\<lambda>c. card_grain c = g \<and> exclude_id \<noteq> Some (rc_id c)
             \<and> ranges_intersect eff_from eff_to (rc_effective_from c) (rc_effective_to c)) cards of
        [] \<Rightarrow> Inr ()
      | c # _ \<Rightarrow> Inl (Overlap (rc_id c)))"

section \<open>Administration\<close>

definition list_rate_cards ::
  "string option \<Rightarrow> string option \<Rightarrow> string option \<Rightarrow> date option \<Rightarrow> rate_card list \<Rightarrow> rate_card list" where
  "list_rate_cards provider native_model unit_type active_on cards =
     sort_key (\<lambda>c. (rc_provider c, rc_native_model c, rc_unit_type c, rc_effective_from c))
       (filter (\<lambda>c. (provider = None \<or> provider = Some (rc_provider c))
            \<and> (native_model = None \<or> native_model = Some (rc_native_model c))
            \<and> (unit_type = None \<or> unit_type = Some (rc_unit_type c))
            \<and> (case active_on of None \<Rightarrow> True | Some d \<Rightarrow> card_covers c d)) cards)"

definition new_card :: "int \<Rightarrow> rate_card_row \<Rightarrow> date option \<Rightarrow> int option \<Rightarrow> int \<Rightarrow> rate_card" where
  "new_card i r eff_to verified now =
     \<lparr>rc_id = i, rc_provider = rr_provider r, rc_native_model = rr_native_model r,
      rc_unit_type = rr_unit_type r, rc_effective_from = rr_effective_from r, rc_effective_to = eff_to,
      rc_currency = rr_currency r, rc_region = rr_region r, rc_service_tier = rr_service_tier r,
      rc_mode = rr_mode r, rc_context_bracket = rr_context_bracket r, rc_unit_price = rr_unit_price r,
      rc_source = rr_source r, rc_verified_at = verified, rc_priority = rr_priority r,
      rc_override = rr_override r, rc_created_at = now\<rparr>"

definition add_card :: "(int \<Rightarrow> rate_card) \<Rightarrow> 'a pricing_db_scheme \<Rightarrow> 'a pricing_db_scheme" where
  "add_card mk db = db\<lparr>db_cards := db_cards db @ [mk (db_next_card db)], db_next_card := db_next_card db + 1\<rparr>"

definition pricing_audit ::
  "string option \<Rightarrow> string \<Rightarrow> string \<Rightarrow> (string \<times> audit_value) list \<Rightarrow> int
   \<Rightarrow> 'a pricing_db_scheme \<Rightarrow> 'a pricing_db_scheme" where
  "pricing_audit actor action subject detail now db =
     db\<lparr>db_audit := audit_record actor action (Some subject) detail now None (db_audit db)\<rparr>"

text \<open>The keyword arguments of the call are the fields of \<open>r\<close> and \<open>eff_to\<close>.\<close>

definition create_rate_card ::
  "string option \<Rightarrow> int \<Rightarrow> rate_card_row \<Rightarrow> date option \<Rightarrow> 'a pricing_db_scheme
   \<Rightarrow> overlap_error + rate_card \<times> 'a pricing_db_scheme" where
  "create_rate_card actor now r eff_to db =
     (case check_overlap (db_cards db) (row_grain r) (rr_effective_from r) eff_to None of
        Inl e \<Rightarrow> Inl e
      | Inr _ \<Rightarrow>
          Inr (new_card (db_next_card db) r eff_to (Some now) now,
               pricing_audit actor ''rate_card_create'' (rr_provider r @ ''/'' @ rr_native_model r)
                 [(''unit_type'', AuStr (rr_unit_type r)), (''unit_price'', AuDec (rr_unit_price r)),
                  (''priority'', AuInt (rr_priority r)), (''override'', AuBool (rr_override r)),
                  (''source'', AuStr (rr_source r)), (''effective_from'', AuDate (rr_effective_from r))] now
                 (add_card (\<lambda>i. new_card i r eff_to (Some now) now) db)))"

definition set_effective_to :: "int \<Rightarrow> date \<Rightarrow> rate_card list \<Rightarrow> rate_card list" where
  "set_effective_to i d cards = map (\<lambda>c. if rc_id c = i then c\<lparr>rc_effective_to := Some d\<rparr> else c) cards"

definition close_rate_card ::
  "string option \<Rightarrow> int \<Rightarrow> date \<Rightarrow> int \<Rightarrow> 'a pricing_db_scheme \<Rightarrow> rate_card option \<times> 'a pricing_db_scheme" where
  "close_rate_card actor card_id eff_to now db =
     (case filter (\<lambda>c. rc_id c = card_id) (db_cards db) of
        [] \<Rightarrow> (None, db)
      | c # _ \<Rightarrow>
          (Some (c\<lparr>rc_effective_to := Some eff_to\<rparr>),
           pricing_audit actor ''rate_card_close'' (rc_provider c @ ''/'' @ rc_native_model c)
             [(''rate_card_id'', AuInt card_id), (''unit_type'', AuStr (rc_unit_type c)),
              (''effective_to'', AuDate eff_to)] now
             (db\<lparr>db_cards := set_effective_to card_id eff_to (db_cards db)\<rparr>)))"

section \<open>Import\<close>

datatype import_action = ANew | ASuperseded | AUnchanged | AConflict

record rate_card_change =
  ch_action :: import_action
  ch_provider :: string
  ch_native_model :: string
  ch_unit_type :: string
  ch_priority :: int
  ch_new_price :: "decimal option"
  ch_old_card_id :: "int option"
  ch_close_effective_to :: "date option"
  ch_reason :: "string option"

definition current_open_card :: "rate_card list \<Rightarrow> rate_card_row \<Rightarrow> rate_card option" where
  "current_open_card cards r =
     (case sort_desc rc_effective_from
        (filter (\<lambda>c. card_grain c = row_grain r \<and> rc_effective_to c = None) cards) of
        [] \<Rightarrow> None | c # _ \<Rightarrow> Some c)"

definition change_of ::
  "rate_card_row \<Rightarrow> import_action \<Rightarrow> int option \<Rightarrow> date option \<Rightarrow> string option \<Rightarrow> rate_card_change" where
  "change_of r action old close reason =
     \<lparr>ch_action = action, ch_provider = rr_provider r, ch_native_model = rr_native_model r,
      ch_unit_type = rr_unit_type r, ch_priority = rr_priority r, ch_new_price = Some (rr_unit_price r),
      ch_old_card_id = old, ch_close_effective_to = close, ch_reason = reason\<rparr>"

definition classify :: "rate_card_row \<Rightarrow> rate_card option \<Rightarrow> date \<Rightarrow> rate_card_change" where
  "classify r existing eff =
     (case existing of None \<Rightarrow> change_of r ANew None None None
      | Some c \<Rightarrow>
          if rc_unit_price c = rr_unit_price r then change_of r AUnchanged (Some (rc_id c)) None None
          else if rc_effective_from c < eff
          then change_of r ASuperseded (Some (rc_id c)) (Some (eff - 1)) None
          else change_of r AConflict (Some (rc_id c)) None
                 (Some ''stored card is effective on or after the import date''))"

definition import_changes :: "rate_card list \<Rightarrow> rate_card_row list \<Rightarrow> date \<Rightarrow> rate_card_change list" where
  "import_changes cards rows eff = map (\<lambda>r. classify r (current_open_card cards r) eff) rows"

type_synonym digest_row =
  "import_action \<times> string \<times> string \<times> string \<times> int \<times> decimal option \<times> int option \<times> date option"

definition digest_rows :: "rate_card_change list \<Rightarrow> digest_row list" where
  "digest_rows changes =
     map (\<lambda>c. (ch_action c, ch_provider c, ch_native_model c, ch_unit_type c, ch_priority c,
               ch_new_price c, ch_old_card_id c, ch_close_effective_to c))
       (sort_key (\<lambda>c. (ch_provider c, ch_native_model c, ch_unit_type c, ch_priority c)) changes)"

record import_diff =
  id_changes :: "rate_card_change list"
  id_digest :: string

definition compute_import_diff ::
  "(digest_row list \<Rightarrow> string) \<Rightarrow> rate_card list \<Rightarrow> rate_card_row list \<Rightarrow> date \<Rightarrow> import_diff" where
  "compute_import_diff sha cards rows eff =
     (let changes = import_changes cards rows eff
      in \<lparr>id_changes = changes, id_digest = sha (digest_rows changes)\<rparr>)"

definition diff_count :: "import_action \<Rightarrow> rate_card_change list \<Rightarrow> nat" where
  "diff_count a changes = length (filter (\<lambda>c. ch_action c = a) changes)"

datatype import_error = DigestMismatch

record import_result =
  ir_applied_new :: nat
  ir_applied_superseded :: nat
  ir_conflicts :: nat
  ir_unchanged :: nat
  ir_digest :: string
  ir_changes :: "rate_card_change list"

definition to_rate_card :: "rate_card_row \<Rightarrow> int \<Rightarrow> int \<Rightarrow> rate_card" where
  "to_rate_card r now i = new_card i r None (rr_verified_at r) now"

definition apply_change :: "int \<Rightarrow> rate_card_row \<times> rate_card_change \<Rightarrow> 'a pricing_db_scheme \<Rightarrow> 'a pricing_db_scheme" where
  "apply_change now rc db =
     (let (r, ch) = rc
      in case ch_action ch of
           ANew \<Rightarrow> add_card (to_rate_card r now) db
         | ASuperseded \<Rightarrow>
             add_card (to_rate_card r now)
               (case (ch_old_card_id ch, ch_close_effective_to ch) of
                  (Some i, Some d) \<Rightarrow> db\<lparr>db_cards := set_effective_to i d (db_cards db)\<rparr>
                | _ \<Rightarrow> db)
         | AUnchanged \<Rightarrow> db
         | AConflict \<Rightarrow> db)"

definition apply_import ::
  "(digest_row list \<Rightarrow> string) \<Rightarrow> rate_card_row list \<Rightarrow> date \<Rightarrow> string \<Rightarrow> string option \<Rightarrow> string \<Rightarrow> int
   \<Rightarrow> 'a pricing_db_scheme \<Rightarrow> import_error + import_result \<times> 'a pricing_db_scheme" where
  "apply_import sha rows eff expected actor source_label now db =
     (let diff = compute_import_diff sha (db_cards db) rows eff;
          changes = id_changes diff
      in if id_digest diff \<noteq> expected then Inl DigestMismatch
         else
           Inr (\<lparr>ir_applied_new = diff_count ANew changes,
                 ir_applied_superseded = diff_count ASuperseded changes,
                 ir_conflicts = diff_count AConflict changes, ir_unchanged = diff_count AUnchanged changes,
                 ir_digest = id_digest diff, ir_changes = changes\<rparr>,
                pricing_audit actor ''pricing_import'' source_label
                  [(''source'', AuStr source_label), (''digest'', AuStr (id_digest diff)),
                   (''effective_from'', AuDate eff),
                   (''new'', AuInt (int (diff_count ANew changes))),
                   (''superseded'', AuInt (int (diff_count ASuperseded changes))),
                   (''conflicts'', AuInt (int (diff_count AConflict changes))),
                   (''unchanged'', AuInt (int (diff_count AUnchanged changes)))] now
                  (fold (apply_change now) (zip rows changes) db)))"

end
