(* ===== verification/Rate_Card_Laws.thy ===== *)
theory Rate_Card_Laws
  imports Rate_Cards
begin

text \<open>
  What makes the v2 rate cards correct: no two cards of one grain cover intersecting dates, every
  administrative operation and every import keeps it so, resolution then does not depend on the order
  in which the database returns the rows, and an import never changes a price in the past.
\<close>

section \<open>The table invariant\<close>

definition no_overlap :: "rate_card list \<Rightarrow> bool" where
  "no_overlap cards \<longleftrightarrow> distinct (map rc_id cards) \<and>
     (\<forall>c \<in> set cards. \<forall>d \<in> set cards. rc_id c \<noteq> rc_id d \<longrightarrow> card_grain c = card_grain d \<longrightarrow>
        \<not> ranges_intersect (rc_effective_from c) (rc_effective_to c) (rc_effective_from d) (rc_effective_to d))"

definition pricing_inv :: "'a pricing_db_scheme \<Rightarrow> bool" where
  "pricing_inv db \<longleftrightarrow> no_overlap (db_cards db)
     \<and> (\<forall>c \<in> set (db_cards db). rc_id c < db_next_card db \<and> rc_effective_from c \<le> DATE_MAX)"

lemma pricing_invD:
  assumes "pricing_inv db"
  shows "distinct (map rc_id (db_cards db))" and "no_overlap (db_cards db)"
    and "c \<in> set (db_cards db) \<Longrightarrow> rc_id c < db_next_card db"
    and "c \<in> set (db_cards db) \<Longrightarrow> rc_effective_from c \<le> DATE_MAX"
  using assms by (auto simp: pricing_inv_def no_overlap_def)

lemma no_overlap_same:
  assumes "no_overlap cards" and "c \<in> set cards" and "d \<in> set cards" and "card_grain c = card_grain d"
    and "ranges_intersect (rc_effective_from c) (rc_effective_to c) (rc_effective_from d) (rc_effective_to d)"
  shows "c = d"
proof -
  have "rc_id c = rc_id d" using assms unfolding no_overlap_def by blast
  then show ?thesis
    using assms(1-3) by (auto simp: no_overlap_def distinct_map inj_on_def)
qed

lemma covers_intersect:
  "card_covers c on \<Longrightarrow> card_covers d on \<Longrightarrow> on \<le> DATE_MAX \<Longrightarrow>
   ranges_intersect (rc_effective_from c) (rc_effective_to c) (rc_effective_from d) (rc_effective_to d)"
  by (auto simp: card_covers_def ranges_intersect_def date_end_def split: option.splits)

section \<open>Resolution\<close>

lemma best_card_Some:
  assumes "best_card cards provider model unit_type on tier mode bracket = Some c"
  shows "c \<in> set cards" and "card_matches provider model unit_type on tier mode bracket c"
    and "\<And>d. d \<in> set cards \<Longrightarrow> card_matches provider model unit_type on tier mode bracket d \<Longrightarrow>
      precedence tier bracket d \<le> precedence tier bracket c"
  using max_by_in [OF assms [unfolded best_card_def]] max_by_ge [OF assms [unfolded best_card_def]]
  by auto

lemma best_card_None:
  "best_card cards provider model unit_type on tier mode bracket = None \<longleftrightarrow>
     (\<forall>c \<in> set cards. \<not> card_matches provider model unit_type on tier mode bracket c)"
  by (simp add: best_card_def filter_empty_conv)

lemma candidate_models_models:
  assumes "m \<in> set (candidate_models cards provider model)"
  shows "m = model \<or> m = base_model_id model \<or> base_model_id m = model"
proof (cases "base_model_id model = model")
  case True
  then show ?thesis using assms unfolding candidate_models_def Let_def by (simp, blast)
next
  case False
  then show ?thesis using assms unfolding candidate_models_def Let_def by (simp, blast)
qed

lemma hd_candidate_models: "\<exists>ms. candidate_models cards provider model = model # ms"
  by (simp add: candidate_models_def Let_def)

text \<open>
  C10. A resolved v2 rate is the price of a stored card of the provider, for the requested unit type and
  mode, in force on the requested date, whose tier and context bracket are the requested ones or none,
  and which no other such card of the same model id beats on (tier, bracket, priority, override,
  effective date); its model id is the requested one, its dated base or a dated snapshot of it, and the
  exact id wins whenever it has an applicable card. The hypothesis is that the lookup finds a rate.
\<close>

theorem resolve_rate_best:
  assumes "resolve_rate cards provider model unit_type tm tier mode bracket = Some r"
  shows "\<exists>c \<in> set cards. r = to_resolved c
    \<and> (rc_native_model c = model \<or> rc_native_model c = base_model_id model
        \<or> base_model_id (rc_native_model c) = model)
    \<and> card_matches provider (rc_native_model c) unit_type (as_date tm) tier mode bracket c
    \<and> (\<forall>d \<in> set cards. card_matches provider (rc_native_model c) unit_type (as_date tm) tier mode bracket d
         \<longrightarrow> precedence tier bracket d \<le> precedence tier bracket c)
    \<and> ((\<exists>d \<in> set cards. card_matches provider model unit_type (as_date tm) tier mode bracket d)
         \<longrightarrow> rc_native_model c = model)"
proof -
  let ?f = "\<lambda>m. best_card cards provider m unit_type (as_date tm) tier mode bracket"
  obtain c where fs: "first_some ?f (candidate_models cards provider model) = Some c" and r: "r = to_resolved c"
    using assms by (auto simp: resolve_rate_def)
  obtain m where m: "m \<in> set (candidate_models cards provider model)" and bc: "?f m = Some c"
    using first_some_in [OF fs] by (elim bexE)
  note best = best_card_Some [OF bc]
  have mc: "rc_native_model c = m" using best(2) by (simp add: card_matches_def)
  have exact: "m = model" if d: "d \<in> set cards" "card_matches provider model unit_type (as_date tm) tier mode bracket d" for d
  proof -
    obtain ms where ms: "candidate_models cards provider model = model # ms"
      using hd_candidate_models by blast
    have "?f model \<noteq> None" using d best_card_None by blast
    then have "?f model = Some c" using fs by (auto simp: ms)
    from best_card_Some(2) [OF this] best(2) show ?thesis by (simp add: card_matches_def)
  qed
  show ?thesis
    using best r candidate_models_models [OF m] exact unfolding mc [symmetric] by blast
qed

definition sample_card :: "int \<Rightarrow> date \<Rightarrow> date option \<Rightarrow> decimal \<Rightarrow> rate_card" where
  "sample_card i f t price = \<lparr>rc_id = i, rc_provider = ''openai'', rc_native_model = ''gpt-5'',
     rc_unit_type = ''input_token'', rc_effective_from = f, rc_effective_to = t, rc_currency = ''USD'',
     rc_region = None, rc_service_tier = None, rc_mode = ''realtime'', rc_context_bracket = None,
     rc_unit_price = price, rc_source = ''litellm'', rc_verified_at = None, rc_priority = 0,
     rc_override = False, rc_created_at = 0\<rparr>"

lemma gpt5_base: "base_model_id ''gpt-5'' = ''gpt-5''"
  by (simp add: base_model_id_def dated_def is_digit_def)

theorem resolve_rate_best_witness:
  "resolve_rate [sample_card 1 10 (Some 19) 3, sample_card 2 20 None 4] ''openai'' ''gpt-5'' ''input_token''
     (OnDate 25) (Some ''flex'') ''realtime'' None = Some (to_resolved (sample_card 2 20 None 4))
   \<and> rs_unit_price (to_resolved (sample_card 2 20 None 4)) = 4"
proof -
  let ?cards = "[sample_card 1 10 (Some 19) 3, sample_card 2 20 None 4]"
  have h: "resolve_rate ?cards ''openai'' ''gpt-5'' ''input_token''
     (OnDate 25) (Some ''flex'') ''realtime'' None = Some (to_resolved (sample_card 2 20 None 4))"
    by (simp add: resolve_rate_def candidate_models_def gpt5_base as_date_def best_card_def
        card_matches_def card_covers_def dim_matches_def sample_card_def max_by_def)
  have "\<exists>c \<in> set ?cards. to_resolved (sample_card 2 20 None 4) = to_resolved c"
    using resolve_rate_best [OF h] by blast
  then show ?thesis using h by (simp add: to_resolved_def sample_card_def)
qed

subsection \<open>Independence of the row order\<close>

lemma dim_hit_matches:
  "dim_matches want have1 \<Longrightarrow> dim_matches want have2 \<Longrightarrow> dim_hit want have1 = dim_hit want have2
   \<Longrightarrow> have1 = have2"
  by (auto simp: dim_matches_def dim_hit_def split: if_splits)

lemma match_key_grain:
  assumes "card_matches provider model unit_type on tier mode bracket c"
    and "card_matches provider model unit_type on tier mode bracket d"
    and "precedence tier bracket c = precedence tier bracket d"
  shows "card_grain c = card_grain d"
  using assms dim_hit_matches
  by (auto simp: card_matches_def card_grain_def precedence_def)

lemma inj_precedence:
  assumes "no_overlap cards" and "on \<le> DATE_MAX"
  shows "inj_on (precedence tier bracket)
    (set (filter (card_matches provider model unit_type on tier mode bracket) cards))"
proof (rule inj_onI)
  fix c d
  assume c: "c \<in> set (filter (card_matches provider model unit_type on tier mode bracket) cards)"
    and d: "d \<in> set (filter (card_matches provider model unit_type on tier mode bracket) cards)"
    and e: "precedence tier bracket c = precedence tier bracket d"
  from c d e have "card_grain c = card_grain d" by (auto intro: match_key_grain)
  moreover from c d assms(2)
  have "ranges_intersect (rc_effective_from c) (rc_effective_to c) (rc_effective_from d) (rc_effective_to d)"
    by (auto simp: card_matches_def intro: covers_intersect)
  ultimately show "c = d" using no_overlap_same [OF assms(1)] c d by simp
qed

lemma candidate_models_set:
  assumes "set cards = set cards'"
  shows "candidate_models cards provider model = candidate_models cards' provider model"
proof -
  let ?ms = "\<lambda>cs. filter (\<lambda>m. m \<noteq> model \<and> base_model_id m = model)
      (remdups (map rc_native_model (filter (\<lambda>c. rc_provider c = provider) cs)))"
  have "sort (?ms cards) = sort (?ms cards')"
    by (rule sorted_distinct_set_unique) (use assms in auto)
  then show ?thesis by (simp add: candidate_models_def Let_def)
qed

text \<open>
  C11. While no two cards of a grain overlap, the resolved rate depends only on the set of stored cards,
  not on the order in which the database returns them: the precedence key has no ties. The
  hypotheses: the table invariant, and a date that Python can represent.
\<close>

theorem resolve_rate_order_independent:
  assumes "no_overlap cards" and "set cards' = set cards" and "as_date tm \<le> DATE_MAX"
  shows "resolve_rate cards' provider model unit_type tm tier mode bracket =
    resolve_rate cards provider model unit_type tm tier mode bracket"
proof -
  have "best_card cards' provider m unit_type (as_date tm) tier mode bracket =
      best_card cards provider m unit_type (as_date tm) tier mode bracket" for m
    unfolding best_card_def
    by (rule max_by_perm [symmetric]) (use assms inj_precedence in auto)
  then show ?thesis by (simp add: resolve_rate_def candidate_models_set [OF assms(2)])
qed

theorem resolve_rate_order_independent_witness:
  "resolve_rate [sample_card 2 20 None 4, sample_card 1 10 (Some 19) 3] ''openai'' ''gpt-5'' ''input_token''
     (OnDate 15) None ''realtime'' None
   = resolve_rate [sample_card 1 10 (Some 19) 3, sample_card 2 20 None 4] ''openai'' ''gpt-5'' ''input_token''
     (OnDate 15) None ''realtime'' None"
  by (rule resolve_rate_order_independent)
    (auto simp: no_overlap_def sample_card_def ranges_intersect_def date_end_def as_date_def DATE_MAX_def)

section \<open>Creating and closing cards\<close>

lemma new_card_grain [simp]: "card_grain (new_card i r t v now) = row_grain r"
  by (simp add: new_card_def card_grain_def row_grain_def)

lemma new_card_simps [simp]:
  "rc_id (new_card i r t v now) = i" "rc_effective_from (new_card i r t v now) = rr_effective_from r"
  "rc_effective_to (new_card i r t v now) = t" "rc_unit_price (new_card i r t v now) = rr_unit_price r"
  "rc_native_model (new_card i r t v now) = rr_native_model r"
  by (simp_all add: new_card_def)

lemma ranges_intersect_sym: "ranges_intersect a b c d = ranges_intersect c d a b"
  by (auto simp: ranges_intersect_def)

lemma pricing_inv_add_card:
  assumes "pricing_inv db"
    and fresh: "\<And>d. d \<in> set (db_cards db) \<Longrightarrow> card_grain d = card_grain (mk (db_next_card db)) \<Longrightarrow>
      \<not> ranges_intersect (rc_effective_from (mk (db_next_card db))) (rc_effective_to (mk (db_next_card db)))
          (rc_effective_from d) (rc_effective_to d)"
    and i: "rc_id (mk (db_next_card db)) = db_next_card db"
    and f: "rc_effective_from (mk (db_next_card db)) \<le> DATE_MAX"
  shows "pricing_inv (add_card mk db)"
proof -
  let ?c = "mk (db_next_card db)"
  have lt: "rc_id d < db_next_card db" if "d \<in> set (db_cards db)" for d
    using pricing_invD(3) [OF assms(1) that] .
  have new: "db_next_card db \<notin> rc_id ` set (db_cards db)" using lt by force
  have old: "no_overlap (db_cards db)" by (rule pricing_invD(2) [OF assms(1)])
  have "no_overlap (db_cards db @ [?c])"
    unfolding no_overlap_def
  proof (intro conjI ballI impI)
    show "distinct (map rc_id (db_cards db @ [?c]))"
      using new pricing_invD(1) [OF assms(1)] by (simp add: i)
    fix c d
    assume c: "c \<in> set (db_cards db @ [?c])" and d: "d \<in> set (db_cards db @ [?c])"
      and ne: "rc_id c \<noteq> rc_id d" and g: "card_grain c = card_grain d"
    from c d ne consider "c \<in> set (db_cards db)" "d \<in> set (db_cards db)"
      | "c = ?c" "d \<in> set (db_cards db)" | "c \<in> set (db_cards db)" "d = ?c" by auto
    then show "\<not> ranges_intersect (rc_effective_from c) (rc_effective_to c) (rc_effective_from d) (rc_effective_to d)"
    proof cases
      case 1
      then show ?thesis using old ne g unfolding no_overlap_def by blast
    next
      case 2
      then show ?thesis using fresh g by simp
    next
      case 3
      then show ?thesis using fresh [of c] g ranges_intersect_sym by metis
    qed
  qed
  then show ?thesis
    using lt f pricing_invD(4) [OF assms(1)] by (fastforce simp: pricing_inv_def add_card_def i)
qed

lemma check_overlap_Inl:
  assumes "check_overlap cards g f t exclude = Inl e"
  shows "\<exists>c \<in> set cards. e = Overlap (rc_id c) \<and> card_grain c = g
    \<and> ranges_intersect f t (rc_effective_from c) (rc_effective_to c)"
proof -
  let ?P = "\<lambda>c. card_grain c = g \<and> exclude \<noteq> Some (rc_id c)
      \<and> ranges_intersect f t (rc_effective_from c) (rc_effective_to c)"
  obtain c cs where cs: "filter ?P cards = c # cs" and e: "e = Overlap (rc_id c)"
    using assms by (cases "filter ?P cards") (simp_all add: check_overlap_def)
  have "c \<in> set (filter ?P cards)" unfolding cs by simp
  with e show ?thesis by auto
qed

text \<open>
  \<open>create_rate_card\<close> keeps the table free of overlaps: it refuses exactly when a stored card of the
  same grain covers intersecting dates (and names such a card), and otherwise appends one card with a
  fresh id and leaves every stored card as it was. The hypotheses: the table invariant, and an
  effective date that Python can represent.
\<close>

theorem create_rate_card_no_overlap:
  assumes "pricing_inv db" and "rr_effective_from r \<le> DATE_MAX"
  shows "(case create_rate_card actor now r eff_to db of
      Inl (Overlap i) \<Rightarrow> \<exists>c \<in> set (db_cards db). rc_id c = i \<and> card_grain c = row_grain r
        \<and> ranges_intersect (rr_effective_from r) eff_to (rc_effective_from c) (rc_effective_to c)
    | Inr (rc, db') \<Rightarrow> pricing_inv db' \<and> db_cards db' = db_cards db @ [rc]
        \<and> rc_id rc \<notin> rc_id ` set (db_cards db) \<and> card_grain rc = row_grain r
        \<and> (\<forall>c \<in> set (db_cards db). card_grain c = row_grain r \<longrightarrow>
             \<not> ranges_intersect (rr_effective_from r) eff_to (rc_effective_from c) (rc_effective_to c)))"
proof (cases "check_overlap (db_cards db) (row_grain r) (rr_effective_from r) eff_to None")
  case (Inl e)
  from check_overlap_Inl [OF this] Inl show ?thesis by (auto simp: create_rate_card_def)
next
  case (Inr u)
  then have free: "\<not> ranges_intersect (rr_effective_from r) eff_to (rc_effective_from c) (rc_effective_to c)"
    if "c \<in> set (db_cards db)" "card_grain c = row_grain r" for c
    using that by (auto simp: check_overlap_def filter_empty_conv split: list.splits)
  let ?mk = "\<lambda>i. new_card i r eff_to (Some now) now"
  have "pricing_inv (add_card ?mk db)"
    by (rule pricing_inv_add_card) (use assms free in auto)
  moreover have "db_next_card db \<notin> rc_id ` set (db_cards db)"
    using pricing_invD(3) [OF assms(1)] by force
  ultimately show ?thesis
    using free by (auto simp: create_rate_card_def Inr pricing_audit_def pricing_inv_def add_card_def)
qed

definition sample_db :: pricing_db where
  "sample_db = \<lparr>db_cards = [sample_card 1 10 (Some 19) 3, sample_card 2 20 None 4], db_next_card = 3,
     db_settings = [], db_audit = []\<rparr>"

lemma sample_db_inv: "pricing_inv sample_db"
  by (simp add: pricing_inv_def no_overlap_def sample_db_def sample_card_def ranges_intersect_def
      date_end_def DATE_MAX_def)

theorem create_rate_card_no_overlap_witness:
  "create_rate_card None 0 (rate_row ''openai'' ''gpt-5'' ''input_token'' 15 5 ''manual'') None sample_db
     = Inl (Overlap 1)
   \<and> (\<exists>c \<in> set (db_cards sample_db). rc_id c = 1)"
proof -
  let ?r = "rate_row ''openai'' ''gpt-5'' ''input_token'' 15 5 ''manual''"
  have h: "create_rate_card None 0 ?r None sample_db = Inl (Overlap 1)"
    by (simp add: create_rate_card_def check_overlap_def sample_db_def sample_card_def rate_row_def
        card_grain_def row_grain_def ranges_intersect_def date_end_def DATE_MAX_def)
  have "rr_effective_from ?r \<le> DATE_MAX" by (simp add: rate_row_def DATE_MAX_def)
  from create_rate_card_no_overlap [OF sample_db_inv this, where actor = None and now = 0 and eff_to = None] h show ?thesis by auto
qed

text \<open>
  Closing a card early keeps the invariant; closing one later than it ended may not, because
  \<open>close_rate_card\<close> does not check for overlaps.
\<close>

lemma pricing_inv_set_effective_to:
  assumes inv: "pricing_inv db"
    and le: "\<And>c. c \<in> set (db_cards db) \<Longrightarrow> rc_id c = i \<Longrightarrow> d \<le> date_end (rc_effective_to c)"
  shows "pricing_inv (db\<lparr>db_cards := set_effective_to i d (db_cards db)\<rparr>)"
proof -
  let ?u = "\<lambda>c. if rc_id c = i then c\<lparr>rc_effective_to := Some d\<rparr> else c"
  have ids: "map rc_id (map ?u (db_cards db)) = map rc_id (db_cards db)" by simp
  have shrink: "ranges_intersect (rc_effective_from c) (rc_effective_to c) (rc_effective_from e) (rc_effective_to e)"
    if "c \<in> set (db_cards db)" "e \<in> set (db_cards db)"
      "ranges_intersect (rc_effective_from (?u c)) (rc_effective_to (?u c)) (rc_effective_from (?u e)) (rc_effective_to (?u e))"
    for c e
    using that le [of c] le [of e]
    by (auto simp: ranges_intersect_def date_end_def [of "Some d"] split: if_splits)
  have gr: "card_grain (?u c) = card_grain c" for c by (simp add: card_grain_def)
  have "no_overlap (map ?u (db_cards db))"
    unfolding no_overlap_def
  proof (intro conjI ballI impI notI)
    show "distinct (map rc_id (map ?u (db_cards db)))"
      unfolding ids by (rule pricing_invD(1) [OF inv])
    fix c' e'
    assume c': "c' \<in> set (map ?u (db_cards db))" and e': "e' \<in> set (map ?u (db_cards db))"
      and ne: "rc_id c' \<noteq> rc_id e'" and g: "card_grain c' = card_grain e'"
      and x: "ranges_intersect (rc_effective_from c') (rc_effective_to c') (rc_effective_from e') (rc_effective_to e')"
    from c' e' obtain c e where c: "c \<in> set (db_cards db)" "c' = ?u c"
      and e: "e \<in> set (db_cards db)" "e' = ?u e" by auto
    have "c = e"
      by (rule no_overlap_same [OF pricing_invD(2) [OF inv] c(1) e(1)])
        (use g x c e gr shrink in \<open>simp_all only:\<close>)
    then have "c' = e'" unfolding c(2) e(2) by (simp only:)
    with ne show False by simp
  qed
  then show ?thesis
    using inv by (auto simp: pricing_inv_def set_effective_to_def)
qed

end
