(* ===== verification/Rate_Card_Import.thy ===== *)
theory Rate_Card_Import
  imports Rate_Card_Laws
begin

text \<open>
  The laws of \<open>apply_import\<close> (\<open>services/pricing_import.py\<close>): applying the precomputed changes of rows
  with distinct grains is applying each row to the table as it then is, which gives the preservation of
  the table invariant, the idempotence of an import and the immutability of past prices.
\<close>

section \<open>One row at a time\<close>

definition import_row :: "int \<Rightarrow> date \<Rightarrow> rate_card_row \<Rightarrow> 'a pricing_db_scheme \<Rightarrow> 'a pricing_db_scheme" where
  "import_row now eff r db = apply_change now (r, classify r (current_open_card (db_cards db) r) eff) db"

definition ids_ok :: "'a pricing_db_scheme \<Rightarrow> bool" where
  "ids_ok db \<longleftrightarrow> distinct (map rc_id (db_cards db)) \<and> (\<forall>c \<in> set (db_cards db). rc_id c < db_next_card db)"

lemma pricing_inv_ids: "pricing_inv db \<Longrightarrow> ids_ok db"
  by (auto simp: ids_ok_def pricing_inv_def no_overlap_def)

lemma ids_ok_same:
  assumes "ids_ok db" and "c \<in> set (db_cards db)" and "d \<in> set (db_cards db)" and "rc_id c = rc_id d"
  shows "c = d"
proof -
  have "inj_on rc_id (set (db_cards db))" using assms(1) by (simp add: ids_ok_def distinct_map)
  from inj_onD [OF this assms(4,2,3)] show ?thesis .
qed

lemma current_open_card_Some:
  assumes "current_open_card cards r = Some c"
  shows "c \<in> set cards" and "card_grain c = row_grain r" and "rc_effective_to c = None"
proof -
  let ?xs = "filter (\<lambda>c. card_grain c = row_grain r \<and> rc_effective_to c = None) cards"
  obtain cs where "sort_desc rc_effective_from ?xs = c # cs"
    using assms by (cases "sort_desc rc_effective_from ?xs") (simp_all add: current_open_card_def)
  then have "c \<in> set (sort_desc rc_effective_from ?xs)" by (simp only: list.set_intros(1))
  then have "c \<in> set ?xs" unfolding set_sort_desc .
  then show "c \<in> set cards" "card_grain c = row_grain r" "rc_effective_to c = None" by auto
qed

lemma current_open_card_None:
  "current_open_card cards r = None \<Longrightarrow> c \<in> set cards \<Longrightarrow> card_grain c = row_grain r \<Longrightarrow>
   rc_effective_to c \<noteq> None"
proof -
  let ?xs = "filter (\<lambda>c. card_grain c = row_grain r \<and> rc_effective_to c = None) cards"
  assume "current_open_card cards r = None" and c: "c \<in> set cards" "card_grain c = row_grain r"
  then have "sort_desc rc_effective_from ?xs = []" by (simp add: current_open_card_def split: list.splits)
  then have "set ?xs = {}" using set_sort_desc [of rc_effective_from ?xs] by simp
  with c show "rc_effective_to c \<noteq> None" by auto
qed

lemma current_open_card_single:
  "filter (\<lambda>c. card_grain c = row_grain r \<and> rc_effective_to c = None) cards = [c] \<Longrightarrow>
   current_open_card cards r = Some c"
  by (simp add: current_open_card_def sort_desc_def)

lemma current_open_card_cong:
  assumes "filter (\<lambda>c. card_grain c = row_grain r) cards = filter (\<lambda>c. card_grain c = row_grain r) cards'"
  shows "current_open_card cards r = current_open_card cards' r"
proof -
  have "filter (\<lambda>c. card_grain c = row_grain r \<and> rc_effective_to c = None) cs
      = filter (\<lambda>c. rc_effective_to c = None) (filter (\<lambda>c. card_grain c = row_grain r) cs)" for cs
    by (auto intro: filter_cong)
  then show ?thesis unfolding current_open_card_def by (simp only: assms)
qed

text \<open>The four ways a row acts on the table.\<close>

lemma import_row_cases:
  obtains (new) "current_open_card (db_cards db) r = None"
      "import_row now eff r db = add_card (to_rate_card r now) db"
    | (same) c where "current_open_card (db_cards db) r = Some c" "rc_unit_price c = rr_unit_price r"
      "import_row now eff r db = db"
    | (superseded) c where "current_open_card (db_cards db) r = Some c" "rc_effective_from c < eff"
      "rc_unit_price c \<noteq> rr_unit_price r"
      "import_row now eff r db = add_card (to_rate_card r now)
         (db\<lparr>db_cards := set_effective_to (rc_id c) (eff - 1) (db_cards db)\<rparr>)"
    | (conflict) c where "current_open_card (db_cards db) r = Some c" "\<not> rc_effective_from c < eff"
      "rc_unit_price c \<noteq> rr_unit_price r" "import_row now eff r db = db"
proof (cases "current_open_card (db_cards db) r")
  case None
  then show thesis
    by (intro new) (simp_all add: import_row_def classify_def apply_change_def change_of_def)
next
  case (Some c)
  consider "rc_unit_price c = rr_unit_price r"
    | "rc_unit_price c \<noteq> rr_unit_price r" "rc_effective_from c < eff"
    | "rc_unit_price c \<noteq> rr_unit_price r" "\<not> rc_effective_from c < eff" by blast
  then show thesis
  proof cases
    case 1
    with Some show thesis
      by (intro same) (simp_all add: import_row_def classify_def apply_change_def change_of_def)
  next
    case 2
    with Some show thesis
      by (intro superseded) (simp_all add: import_row_def classify_def apply_change_def change_of_def)
  next
    case 3
    with Some show thesis
      by (intro conflict) (simp_all add: import_row_def classify_def apply_change_def change_of_def)
  qed
qed

lemma db_cards_add [simp]: "db_cards (add_card mk db) = db_cards db @ [mk (db_next_card db)]"
  by (simp add: add_card_def)

lemma to_rate_card_simps [simp]:
  "card_grain (to_rate_card r now i) = row_grain r" "rc_id (to_rate_card r now i) = i"
  "rc_effective_from (to_rate_card r now i) = rr_effective_from r"
  "rc_effective_to (to_rate_card r now i) = None" "rc_unit_price (to_rate_card r now i) = rr_unit_price r"
  by (simp_all add: to_rate_card_def)

lemma ids_ok_add: "ids_ok db \<Longrightarrow> ids_ok (add_card (to_rate_card r now) db)"
  by (fastforce simp: ids_ok_def add_card_def)

lemma ids_ok_ids: "ids_ok db \<longleftrightarrow> distinct (map rc_id (db_cards db))
    \<and> (\<forall>i \<in> set (map rc_id (db_cards db)). i < db_next_card db)"
  by (simp add: ids_ok_def)

lemma ids_set_effective_to: "map rc_id (set_effective_to i d cards) = map rc_id cards"
  by (simp add: set_effective_to_def)

lemma ids_ok_close: "ids_ok db \<Longrightarrow> ids_ok (db\<lparr>db_cards := set_effective_to i d (db_cards db)\<rparr>)"
  unfolding ids_ok_ids by (simp add: ids_set_effective_to del: set_map)

lemma ids_ok_import_row: "ids_ok db \<Longrightarrow> ids_ok (import_row now eff r db)"
  by (rule import_row_cases [of db r now eff]) (simp_all add: ids_ok_add ids_ok_close)

lemma import_row_frame:
  assumes ok: "ids_ok db" and g: "g \<noteq> row_grain r"
  shows "filter (\<lambda>c. card_grain c = g) (db_cards (import_row now eff r db))
    = filter (\<lambda>c. card_grain c = g) (db_cards db)"
proof (rule import_row_cases [of db r now eff])
  fix c assume c: "current_open_card (db_cards db) r = Some c"
    and e: "import_row now eff r db = add_card (to_rate_card r now)
         (db\<lparr>db_cards := set_effective_to (rc_id c) (eff - 1) (db_cards db)\<rparr>)"
  note c' = current_open_card_Some [OF c]
  let ?u = "\<lambda>d. if rc_id d = rc_id c then d\<lparr>rc_effective_to := Some (eff - 1)\<rparr> else d"
  have "filter (\<lambda>c. card_grain c = g) (map ?u cs) = filter (\<lambda>c. card_grain c = g) cs"
    if "set cs \<subseteq> set (db_cards db)" for cs
    using that
  proof (induction cs)
    case (Cons d cs)
    show ?case
    proof (cases "rc_id d = rc_id c")
      case True
      with Cons.prems c' ok have "d = c" using ids_ok_same [of db d c] by simp
      with Cons c'(2) g show ?thesis by (simp add: card_grain_def)
    next
      case False
      with Cons show ?thesis by simp
    qed
  qed simp
  then show ?thesis using g by (auto simp: e set_effective_to_def)
qed (use g in auto)

lemma import_changes_frame:
  assumes "ids_ok db" and "row_grain r \<notin> row_grain ` set rows"
  shows "import_changes (db_cards (import_row now eff r db)) rows eff = import_changes (db_cards db) rows eff"
  unfolding import_changes_def
proof (rule map_cong [OF refl])
  fix r' assume "r' \<in> set rows"
  with assms(2) have "row_grain r' \<noteq> row_grain r" by (metis image_eqI)
  from current_open_card_cong [OF import_row_frame [OF assms(1) this]] show
    "classify r' (current_open_card (db_cards (import_row now eff r db)) r') eff =
     classify r' (current_open_card (db_cards db) r') eff"
    by (rule arg_cong)
qed

lemma import_changes_Cons: "import_changes cards (r # rows) eff =
    classify r (current_open_card cards r) eff # import_changes cards rows eff"
  by (simp add: import_changes_def)

lemma fold_import_rows:
  assumes "ids_ok db" and "distinct (map row_grain rows)"
  shows "fold (apply_change now) (zip rows (import_changes (db_cards db) rows eff)) db
    = fold (import_row now eff) rows db"
  using assms
proof (induction rows arbitrary: db)
  case (Cons r rows)
  let ?db = "import_row now eff r db"
  have "import_changes (db_cards ?db) rows eff = import_changes (db_cards db) rows eff"
    using Cons.prems by (intro import_changes_frame) auto
  moreover have "fold (apply_change now) (zip rows (import_changes (db_cards ?db) rows eff)) ?db
      = fold (import_row now eff) rows ?db"
    by (rule Cons.IH) (use Cons.prems ids_ok_import_row in auto)
  ultimately show ?case
    by (simp add: import_changes_Cons import_row_def [symmetric])
qed (simp add: import_changes_def)

section \<open>The invariant\<close>

definition closed_before :: "rate_card list \<Rightarrow> rate_card_row \<Rightarrow> date \<Rightarrow> bool" where
  "closed_before cards r eff \<longleftrightarrow>
     (\<forall>c \<in> set cards. card_grain c = row_grain r \<longrightarrow>
        (case rc_effective_to c of None \<Rightarrow> True | Some e \<Rightarrow> e < eff))"

lemma closed_beforeD:
  "closed_before cards r eff \<Longrightarrow> c \<in> set cards \<Longrightarrow> card_grain c = row_grain r \<Longrightarrow>
   rc_effective_to c = Some e \<Longrightarrow> e < eff"
  unfolding closed_before_def by (auto split: option.splits)

lemma closed_before_frame:
  assumes "ids_ok db" and "row_grain r' \<noteq> row_grain r" and "closed_before (db_cards db) r' eff"
  shows "closed_before (db_cards (import_row now eff r db)) r' eff"
proof -
  have "closed_before cards r' eff = (\<forall>c \<in> set (filter (\<lambda>c. card_grain c = row_grain r') cards).
      case rc_effective_to c of None \<Rightarrow> True | Some e \<Rightarrow> e < eff)" for cards
    by (auto simp: closed_before_def)
  then show ?thesis using assms(3) import_row_frame [OF assms(1,2)] by (simp only:)
qed

lemma open_unique:
  assumes "pricing_inv db" and "c \<in> set (db_cards db)" and "d \<in> set (db_cards db)"
    and "card_grain c = card_grain d" and "rc_effective_to c = None" and "rc_effective_to d = None"
  shows "c = d"
  by (rule no_overlap_same [OF pricing_invD(2) [OF assms(1)] assms(2-4)])
    (use assms pricing_invD(4) [OF assms(1)] in \<open>simp add: ranges_intersect_def date_end_def\<close>)

lemma pricing_inv_import_row:
  assumes inv: "pricing_inv db" and rf: "rr_effective_from r = eff" and max: "eff \<le> DATE_MAX"
    and cb: "closed_before (db_cards db) r eff"
  shows "pricing_inv (import_row now eff r db)"
proof (rule import_row_cases [of db r now eff])
  assume none: "current_open_card (db_cards db) r = None"
    and e: "import_row now eff r db = add_card (to_rate_card r now) db"
  show ?thesis
    unfolding e
  proof (rule pricing_inv_add_card [OF inv])
    fix d assume d: "d \<in> set (db_cards db)" "card_grain d = card_grain (to_rate_card r now (db_next_card db))"
    then have g: "card_grain d = row_grain r" by simp
    from current_open_card_None [OF none d(1) g] obtain x where x: "rc_effective_to d = Some x" by blast
    from closed_beforeD [OF cb d(1) g x] show "\<not> ranges_intersect
       (rc_effective_from (to_rate_card r now (db_next_card db))) (rc_effective_to (to_rate_card r now (db_next_card db)))
       (rc_effective_from d) (rc_effective_to d)"
      by (simp add: ranges_intersect_def date_end_def x rf)
  qed (use rf max in simp_all)
next
  fix c assume c: "current_open_card (db_cards db) r = Some c"
    and lt: "rc_effective_from c < eff"
    and e: "import_row now eff r db = add_card (to_rate_card r now)
         (db\<lparr>db_cards := set_effective_to (rc_id c) (eff - 1) (db_cards db)\<rparr>)"
  note c' = current_open_card_Some [OF c]
  let ?db = "db\<lparr>db_cards := set_effective_to (rc_id c) (eff - 1) (db_cards db)\<rparr>"
  have inv1: "pricing_inv ?db"
  proof (rule pricing_inv_set_effective_to [OF inv])
    fix d assume "d \<in> set (db_cards db)" "rc_id d = rc_id c"
    then have "d = c" using ids_ok_same [OF pricing_inv_ids [OF inv] _ c'(1)] by simp
    then show "eff - 1 \<le> date_end (rc_effective_to d)" using c'(3) max by (simp add: date_end_def)
  qed
  show ?thesis
    unfolding e
  proof (rule pricing_inv_add_card [OF inv1])
    fix d assume d: "d \<in> set (db_cards ?db)" "card_grain d = card_grain (to_rate_card r now (db_next_card ?db))"
    have "d \<in> set (set_effective_to (rc_id c) (eff - 1) (db_cards db))" using d(1) by simp
    then obtain d0 where d0': "d0 \<in> set (db_cards db)"
      and dd: "d = (if rc_id d0 = rc_id c then d0\<lparr>rc_effective_to := Some (eff - 1)\<rparr> else d0)"
      unfolding set_effective_to_def set_map by (elim imageE)
    have "card_grain d0 = card_grain d" by (simp add: dd card_grain_def)
    with d(2) d0' have d0: "d0 \<in> set (db_cards db)" "card_grain d0 = row_grain r" by simp_all
    have "date_end (rc_effective_to d) < eff"
    proof (cases "rc_id d0 = rc_id c")
      case False
      then have "rc_effective_to d0 \<noteq> None"
        using open_unique [OF inv d0(1) c'(1)] c'(2,3) d0(2) by auto
      then show ?thesis
        using closed_beforeD [OF cb d0] False by (auto simp: dd date_end_def)
    qed (simp add: dd date_end_def)
    then show "\<not> ranges_intersect
       (rc_effective_from (to_rate_card r now (db_next_card ?db))) (rc_effective_to (to_rate_card r now (db_next_card ?db)))
       (rc_effective_from d) (rc_effective_to d)"
      by (simp add: ranges_intersect_def rf)
  qed (use rf max in simp_all)
qed (use inv in simp_all)

lemma pricing_inv_import_rows:
  assumes "pricing_inv db" and "distinct (map row_grain rows)" and "eff \<le> DATE_MAX"
    and "\<forall>r \<in> set rows. rr_effective_from r = eff \<and> closed_before (db_cards db) r eff"
  shows "pricing_inv (fold (import_row now eff) rows db)"
  using assms
proof (induction rows arbitrary: db)
  case (Cons r rows)
  have "pricing_inv (import_row now eff r db)"
    using Cons.prems by (intro pricing_inv_import_row) auto
  moreover have "closed_before (db_cards (import_row now eff r db)) r' eff" if r': "r' \<in> set rows" for r'
  proof (rule closed_before_frame)
    show "ids_ok db" by (rule pricing_inv_ids [OF Cons.prems(1)])
    show "row_grain r' \<noteq> row_grain r" using Cons.prems(2) r' by (auto simp: image_iff)
    show "closed_before (db_cards db) r' eff" using Cons.prems(4) r' by simp
  qed
  ultimately have "pricing_inv (fold (import_row now eff) rows (import_row now eff r db))"
    using Cons.prems by (intro Cons.IH) auto
  then show ?case by simp
qed simp

definition import_ok :: "'a pricing_db_scheme \<Rightarrow> rate_card_row list \<Rightarrow> date \<Rightarrow> bool" where
  "import_ok db rows eff \<longleftrightarrow> pricing_inv db \<and> distinct (map row_grain rows) \<and> eff \<le> DATE_MAX
     \<and> (\<forall>r \<in> set rows. rr_effective_from r = eff \<and> closed_before (db_cards db) r eff)"

lemma apply_import_Inr:
  assumes "apply_import sha rows eff expected actor label now db = Inr (res, db')"
    and "ids_ok db" and "distinct (map row_grain rows)"
  shows "db_cards db' = db_cards (fold (import_row now eff) rows db)"
    and "db_next_card db' = db_next_card (fold (import_row now eff) rows db)"
    and "ir_changes res = import_changes (db_cards db) rows eff"
    and "ir_applied_new res = diff_count ANew (ir_changes res)"
    and "ir_applied_superseded res = diff_count ASuperseded (ir_changes res)"
  using assms(1) fold_import_rows [OF assms(2,3), of now eff]
  by (auto simp: apply_import_def compute_import_diff_def Let_def pricing_audit_def split: if_splits)

lemma apply_import_inv:
  assumes "import_ok db rows eff"
    and "apply_import sha rows eff expected actor label now db = Inr (res, db')"
  shows "pricing_inv db'"
proof -
  have ok: "ids_ok db" and d: "distinct (map row_grain rows)"
    using assms(1) pricing_inv_ids by (auto simp: import_ok_def)
  have "pricing_inv (fold (import_row now eff) rows db)"
    using assms(1) by (intro pricing_inv_import_rows) (auto simp: import_ok_def)
  then show ?thesis by (simp add: pricing_inv_def apply_import_Inr(1,2) [OF assms(2) ok d])
qed

text \<open>
  An import keeps the table free of overlaps, and every row it opened or superseded left exactly
  the counts it reports. The hypotheses: the table invariant; rows of pairwise different grains, all
  effective from the import date; no closed card of an imported grain reaches the import date; and the
  digest the caller confirmed is the current one.
\<close>

theorem apply_import_no_overlap:
  assumes "import_ok db rows eff"
    and "apply_import sha rows eff expected actor label now db = Inr (res, db')"
  shows "pricing_inv db' \<and> expected = sha (digest_rows (import_changes (db_cards db) rows eff))
    \<and> length (ir_changes res) = length rows
    \<and> ir_applied_new res + ir_applied_superseded res + ir_unchanged res + ir_conflicts res = length rows"
proof -
  have "pricing_inv db'" by (rule apply_import_inv [OF assms])
  moreover have "diff_count ANew cs + diff_count ASuperseded cs + diff_count AUnchanged cs
      + diff_count AConflict cs = length cs" for cs
  proof (induction cs)
    case (Cons c cs)
    then show ?case by (cases "ch_action c") (simp_all add: diff_count_def)
  qed (simp add: diff_count_def)
  ultimately show ?thesis
    using assms(2) by (auto simp: apply_import_def compute_import_diff_def Let_def import_changes_def
        split: if_splits)
qed

definition sample_row :: "date \<Rightarrow> decimal \<Rightarrow> rate_card_row" where
  "sample_row eff price = rate_row ''openai'' ''gpt-5'' ''input_token'' eff price ''litellm''"

lemma sample_grain: "row_grain (sample_row eff price) = card_grain (sample_card i f t p)"
  by (simp add: row_grain_def card_grain_def sample_row_def sample_card_def rate_row_def)

lemma sample_import_ok: "import_ok sample_db [sample_row 30 5] 30"
  using sample_db_inv sample_grain [of 30 5]
  by (simp add: import_ok_def sample_db_def closed_before_def DATE_MAX_def)
    (simp add: sample_row_def rate_row_def sample_card_def)

lemma sample_changes: "import_changes (db_cards sample_db) [sample_row 30 5] 30 =
    [change_of (sample_row 30 5) ASuperseded (Some 2) (Some 29) None]"
  by (simp add: import_changes_def classify_def current_open_card_def sample_db_def sort_desc_def
      sample_grain [of 30 5 1 10 "Some 19" 3] sample_grain [of 30 5 2 20 None 4, symmetric])
    (simp add: sample_card_def sample_row_def rate_row_def card_grain_def)

definition sample_imported :: pricing_db where
  "sample_imported = sample_db\<lparr>
     db_cards := [sample_card 1 10 (Some 19) 3, sample_card 2 20 (Some 29) 4, sample_card 3 30 None 5],
     db_next_card := 4\<rparr>"

lemma sample_import: "\<exists>res entries. apply_import (\<lambda>_. ''d'') [sample_row 30 5] 30 ''d'' None ''litellm'' 0 sample_db =
    Inr (res, sample_imported\<lparr>db_audit := entries\<rparr>) \<and> ir_applied_superseded res = 1"
proof -
  let ?ch = "change_of (sample_row 30 5) ASuperseded (Some 2) (Some 29) None"
  have "apply_change 0 (sample_row 30 5, ?ch) sample_db = sample_imported"
    by (simp add: change_of_def apply_change_def add_card_def sample_db_def sample_imported_def
      set_effective_to_def to_rate_card_def new_card_def sample_card_def sample_row_def rate_row_def)
  then show ?thesis
    by (simp add: apply_import_def compute_import_diff_def sample_changes Let_def pricing_audit_def
        diff_count_def) (simp add: change_of_def, blast)
qed

theorem apply_import_no_overlap_witness:
  "\<exists>res db'. apply_import (\<lambda>_. ''d'') [sample_row 30 5] 30 ''d'' None ''litellm'' 0 sample_db = Inr (res, db')
     \<and> ir_applied_superseded res = 1 \<and> pricing_inv db'"
  using sample_import apply_import_no_overlap [OF sample_import_ok] by blast

section \<open>Idempotence\<close>

definition settled :: "rate_card list \<Rightarrow> rate_card_row \<Rightarrow> date \<Rightarrow> bool" where
  "settled cards r eff \<longleftrightarrow> ch_action (classify r (current_open_card cards r) eff) \<in> {AUnchanged, AConflict}"

lemma settled_open:
  assumes "filter (\<lambda>c. card_grain c = row_grain r \<and> rc_effective_to c = None) cards = [c]"
    and "rc_unit_price c = rr_unit_price r"
  shows "settled cards r eff"
  using current_open_card_single [OF assms(1)] assms(2)
  by (simp add: settled_def classify_def change_of_def)

lemma settled_import_row:
  assumes inv: "pricing_inv db"
  shows "settled (db_cards (import_row now eff r db)) r eff"
proof (rule import_row_cases [of db r now eff])
  let ?open = "\<lambda>c. card_grain c = row_grain r \<and> rc_effective_to c = None"
  assume none: "current_open_card (db_cards db) r = None"
    and e: "import_row now eff r db = add_card (to_rate_card r now) db"
  have "filter ?open (db_cards db) = []"
    using current_open_card_None [OF none] by (auto simp: filter_empty_conv)
  then show ?thesis by (intro settled_open) (auto simp: e)
next
  let ?open = "\<lambda>c. card_grain c = row_grain r \<and> rc_effective_to c = None"
  fix c assume c: "current_open_card (db_cards db) r = Some c"
    and e: "import_row now eff r db = add_card (to_rate_card r now)
         (db\<lparr>db_cards := set_effective_to (rc_id c) (eff - 1) (db_cards db)\<rparr>)"
  note c' = current_open_card_Some [OF c]
  have "\<not> ?open (if rc_id d = rc_id c then d\<lparr>rc_effective_to := Some (eff - 1)\<rparr> else d)"
    if "d \<in> set (db_cards db)" for d
    using open_unique [OF inv that c'(1)] c'(2,3) by auto
  then have "filter ?open (set_effective_to (rc_id c) (eff - 1) (db_cards db)) = []"
    unfolding set_effective_to_def filter_empty_conv set_map ball_simps by blast
  then show ?thesis by (intro settled_open) (auto simp: e)
qed (auto simp: settled_def classify_def change_of_def)

lemma settled_frame:
  assumes "ids_ok db" and "row_grain r' \<noteq> row_grain r" and "settled (db_cards db) r' eff"
  shows "settled (db_cards (import_row now eff r db)) r' eff"
  using assms(3) unfolding settled_def
  by (simp only: current_open_card_cong [OF import_row_frame [OF assms(1,2)]])

lemma settled_import_rows:
  assumes "settled (db_cards db) r' eff" and "ids_ok db" and "row_grain r' \<notin> row_grain ` set rows"
  shows "settled (db_cards (fold (import_row now eff) rows db)) r' eff"
  using assms
proof (induction rows arbitrary: db)
  case (Cons r rows)
  have "settled (db_cards (import_row now eff r db)) r' eff"
    by (rule settled_frame) (use Cons.prems in auto)
  then have "settled (db_cards (fold (import_row now eff) rows (import_row now eff r db))) r' eff"
    by (rule Cons.IH) (use Cons.prems ids_ok_import_row in auto)
  then show ?case by simp
qed simp

lemma settled_all:
  assumes "import_ok db rows eff" and "r' \<in> set rows"
  shows "settled (db_cards (fold (import_row now eff) rows db)) r' eff"
  using assms
proof (induction rows arbitrary: db)
  case (Cons r rows)
  have inv: "pricing_inv db" and cb: "\<forall>r \<in> set (r # rows). closed_before (db_cards db) r eff"
    and grains: "distinct (map row_grain (r # rows))"
    and rest: "eff \<le> DATE_MAX" "\<forall>r \<in> set (r # rows). rr_effective_from r = eff"
    using Cons.prems(1) by (auto simp: import_ok_def)
  have inv': "pricing_inv (import_row now eff r db)"
    using inv cb rest by (intro pricing_inv_import_row) auto
  show ?case
  proof (cases "r' = r")
    case True
    have "settled (db_cards (fold (import_row now eff) rows (import_row now eff r db))) r eff"
      by (rule settled_import_rows)
        (use settled_import_row [OF inv] ids_ok_import_row [OF pricing_inv_ids [OF inv]] grains in auto)
    with True show ?thesis by simp
  next
    case False
    have "closed_before (db_cards (import_row now eff r db)) q eff" if "q \<in> set rows" for q
    proof (rule closed_before_frame [OF pricing_inv_ids [OF inv]])
      show "row_grain q \<noteq> row_grain r" using grains that by (auto simp: image_iff)
    qed (use cb that in simp)
    with inv' grains rest have "import_ok (import_row now eff r db) rows eff"
      by (simp add: import_ok_def)
    from Cons.IH [OF this] Cons.prems(2) False show ?thesis by simp
  qed
qed simp

lemma settled_no_effect:
  "\<forall>r \<in> set rows. settled (db_cards db) r eff \<Longrightarrow> fold (import_row now eff) rows db = db"
proof (induction rows)
  case (Cons r rows)
  have "settled (db_cards db) r eff" using Cons.prems by simp
  then have "import_row now eff r db = db"
    unfolding settled_def import_row_def apply_change_def Let_def
    by (auto split: import_action.splits)
  with Cons show ?case by simp
qed simp

lemma diff_count_0: "diff_count a cs = 0 \<longleftrightarrow> (\<forall>c \<in> set cs. ch_action c \<noteq> a)"
  by (auto simp: diff_count_def filter_empty_conv)

lemma settled_counts:
  assumes "\<forall>r \<in> set rows. settled cards r eff"
  shows "diff_count ANew (import_changes cards rows eff) = 0
    \<and> diff_count ASuperseded (import_changes cards rows eff) = 0"
  using assms unfolding diff_count_0 import_changes_def settled_def by auto

text \<open>
  An import is idempotent: importing the same rows again adds, closes and supersedes nothing,
  whatever digest, actor and time the second call has. The hypotheses are those of the first import
  (table invariant, one row per grain, the import date, a confirmed digest) and that the second call's
  digest is confirmed too.
\<close>

theorem apply_import_idempotent:
  assumes ok: "import_ok db rows eff"
    and imp: "apply_import sha rows eff expected actor label now db = Inr (res, db')"
    and again: "apply_import sha' rows eff expected' actor' label' now' db' = Inr (res2, db2)"
  shows "db_cards db2 = db_cards db' \<and> ir_applied_new res2 = 0 \<and> ir_applied_superseded res2 = 0"
proof -
  have ids: "ids_ok db" and d: "distinct (map row_grain rows)"
    using ok pricing_inv_ids by (auto simp: import_ok_def)
  note inr = apply_import_Inr [OF imp ids d]
  have st: "\<forall>r \<in> set rows. settled (db_cards db') r eff"
    using settled_all [OF ok] by (simp add: inr(1))
  have "ids_ok db'"
    using pricing_inv_ids apply_import_inv [OF ok imp] by blast
  note inr2 = apply_import_Inr [OF again this d]
  show ?thesis
    using settled_no_effect [OF st] settled_counts [OF st] by (simp add: inr2)
qed

theorem apply_import_idempotent_witness:
  "\<exists>res db' res2 db2. apply_import (\<lambda>_. ''d'') [sample_row 30 5] 30 ''d'' None ''litellm'' 0 sample_db = Inr (res, db')
     \<and> apply_import (\<lambda>_. ''d'') [sample_row 30 5] 30 ''d'' None ''litellm'' 1 db' = Inr (res2, db2)
     \<and> ir_applied_superseded res = 1 \<and> length (db_cards db2) = 3"
proof -
  obtain res db' where i: "apply_import (\<lambda>_. ''d'') [sample_row 30 5] 30 ''d'' None ''litellm'' 0 sample_db = Inr (res, db')"
    and n: "ir_applied_superseded res = 1" and l: "length (db_cards db') = 3"
    using sample_import by (force simp: sample_imported_def)
  obtain res2 db2 where j: "apply_import (\<lambda>_. ''d'') [sample_row 30 5] 30 ''d'' None ''litellm'' 1 db' = Inr (res2, db2)"
    by (simp add: apply_import_def compute_import_diff_def Let_def)
  from apply_import_idempotent [OF sample_import_ok i j] i j n l show ?thesis by auto
qed

section \<open>The past does not change\<close>

lemma max_from_map:
  "\<forall>x \<in> insert b (set xs). key (u x) = key x \<Longrightarrow> max_from key (u b) (map u xs) = u (max_from key b xs)"
  by (induction xs arbitrary: b) auto

lemma max_by_map:
  "\<forall>x \<in> set xs. key (u x) = key x \<Longrightarrow> max_by key (map u xs) = map_option u (max_by key xs)"
  by (cases xs) (simp_all add: max_by_def max_from_map)

definition past_rate ::
  "rate_card list \<Rightarrow> string \<Rightarrow> string \<Rightarrow> date \<Rightarrow> string option \<Rightarrow> string \<Rightarrow> string option \<Rightarrow> string
   \<Rightarrow> resolved_rate option" where
  "past_rate cards provider unit_type on tier mode bracket model =
     map_option to_resolved (best_card cards provider model unit_type on tier mode bracket)"

lemma past_rate_import_row:
  assumes ok: "ids_ok db" and rf: "rr_effective_from r = eff" and on: "on < eff"
  shows "past_rate (db_cards (import_row now eff r db)) provider unit_type on tier mode bracket model
    = past_rate (db_cards db) provider unit_type on tier mode bracket model"
proof -
  let ?m = "card_matches provider model unit_type on tier mode bracket"
  have new: "\<not> ?m (to_rate_card r now i)" for i
    using on rf by (simp add: card_matches_def card_covers_def)
  show ?thesis
  proof (rule import_row_cases [of db r now eff])
    fix c assume c: "current_open_card (db_cards db) r = Some c"
      and e: "import_row now eff r db = add_card (to_rate_card r now)
         (db\<lparr>db_cards := set_effective_to (rc_id c) (eff - 1) (db_cards db)\<rparr>)"
    note c' = current_open_card_Some [OF c]
    let ?u = "\<lambda>d. if rc_id d = rc_id c then d\<lparr>rc_effective_to := Some (eff - 1)\<rparr> else d"
    have same: "?m (?u d) = ?m d" if "d \<in> set (db_cards db)" for d
      using ids_ok_same [OF ok that c'(1)] c'(3) on
      by (auto simp: card_matches_def card_covers_def)
    have "filter ?m (map ?u (db_cards db)) = map ?u (filter ?m (db_cards db))"
      unfolding filter_map comp_def using same by (intro arg_cong [where f = "map ?u"] filter_cong) auto
    moreover have "max_by (precedence tier bracket) (map ?u (filter ?m (db_cards db)))
        = map_option ?u (max_by (precedence tier bracket) (filter ?m (db_cards db)))"
      by (rule max_by_map) (simp add: precedence_def)
    ultimately have "best_card (map ?u (db_cards db)) provider model unit_type on tier mode bracket
        = map_option ?u (best_card (db_cards db) provider model unit_type on tier mode bracket)"
      unfolding best_card_def by (simp only:)
    moreover have "to_resolved (?u d) = to_resolved d" for d by (simp add: to_resolved_def)
    ultimately have "past_rate (map ?u (db_cards db)) provider unit_type on tier mode bracket model
        = past_rate (db_cards db) provider unit_type on tier mode bracket model"
      by (simp add: past_rate_def option.map_comp comp_def)
    then show ?thesis using new by (simp add: e past_rate_def best_card_def set_effective_to_def)
  qed (use new in \<open>simp_all add: past_rate_def best_card_def\<close>)
qed

lemma past_rate_import_rows:
  assumes "ids_ok db" and "\<forall>r \<in> set rows. rr_effective_from r = eff" and "on < eff"
  shows "past_rate (db_cards (fold (import_row now eff) rows db)) provider unit_type on tier mode bracket
    = past_rate (db_cards db) provider unit_type on tier mode bracket"
  using assms
proof (induction rows arbitrary: db)
  case (Cons r rows)
  have "past_rate (db_cards (import_row now eff r db)) provider unit_type on tier mode bracket
      = past_rate (db_cards db) provider unit_type on tier mode bracket"
    by (rule ext, rule past_rate_import_row) (use Cons.prems in auto)
  with Cons show ?case by (simp add: ids_ok_import_row)
qed simp

lemma first_some_candidates:
  assumes "\<And>m. g m \<noteq> None \<Longrightarrow> m \<in> rc_native_model ` {c \<in> set cards. rc_provider c = provider}"
    and "\<And>m. g m \<noteq> None \<Longrightarrow> m \<in> rc_native_model ` {c \<in> set cards'. rc_provider c = provider}"
  shows "first_some g (candidate_models cards provider model) = first_some g (candidate_models cards' provider model)"
proof -
  let ?P = "\<lambda>m. g m \<noteq> None"
  let ?ms = "\<lambda>cs. filter (\<lambda>m. m \<noteq> model \<and> base_model_id m = model)
      (remdups (map rc_native_model (filter (\<lambda>c. rc_provider c = provider) cs)))"
  have drop: "first_some g xs = first_some g (filter ?P xs)" for xs
    by (rule first_some_filter [symmetric]) simp
  have "sort (filter ?P (?ms cards)) = sort (filter ?P (?ms cards'))"
    by (rule sorted_distinct_set_unique) (use assms in auto)
  then have "filter ?P (rev (sort (?ms cards))) = filter ?P (rev (sort (?ms cards')))"
    by (simp only: rev_filter [symmetric] filter_sort)
  then have eq: "first_some g (rev (sort (?ms cards))) = first_some g (rev (sort (?ms cards')))"
    unfolding drop [of "rev (sort (?ms cards))"] drop [of "rev (sort (?ms cards'))"] by (rule arg_cong)
  show ?thesis
  proof (cases "base_model_id model \<noteq> model")
    case True
    show ?thesis unfolding candidate_models_def Let_def if_P [OF True] by (rule refl)
  next
    case False
    show ?thesis
      unfolding candidate_models_def Let_def if_not_P [OF False] first_some_Cons eq by (rule refl)
  qed
qed

lemma first_some_map_option: "map_option h (first_some f xs) = first_some (\<lambda>x. map_option h (f x)) xs"
  by (induction xs) (auto split: option.split)

lemma resolve_rate_past:
  "resolve_rate cards provider model unit_type tm tier mode bracket =
     first_some (past_rate cards provider unit_type (as_date tm) tier mode bracket)
       (candidate_models cards provider model)"
  by (simp add: resolve_rate_def first_some_map_option past_rate_def [abs_def])

lemma past_rate_model:
  assumes "past_rate cards provider unit_type on tier mode bracket m \<noteq> None"
  shows "m \<in> rc_native_model ` {c \<in> set cards. rc_provider c = provider}"
proof -
  obtain c where c: "best_card cards provider m unit_type on tier mode bracket = Some c"
    using assms by (auto simp: past_rate_def)
  from best_card_Some(1,2) [OF c] show ?thesis by (auto simp: card_matches_def)
qed

lemma import_keeps_rate:
  assumes "import_ok db rows eff"
    and "apply_import sha rows eff expected actor label now db = Inr (res, db')"
    and "as_date tm < eff"
  shows "resolve_rate (db_cards db') provider model unit_type tm tier mode bracket =
    resolve_rate (db_cards db) provider model unit_type tm tier mode bracket"
proof -
  have ids: "ids_ok db" and d: "distinct (map row_grain rows)"
    and f: "\<forall>r \<in> set rows. rr_effective_from r = eff"
    using assms(1) pricing_inv_ids by (auto simp: import_ok_def)
  let ?past = "\<lambda>cards. past_rate cards provider unit_type (as_date tm) tier mode bracket"
  have past: "?past (db_cards db') = ?past (db_cards db)"
    using past_rate_import_rows [OF ids f assms(3)] by (simp add: apply_import_Inr [OF assms(2) ids d])
  have "first_some (?past (db_cards db)) (candidate_models (db_cards db') provider model) =
      first_some (?past (db_cards db)) (candidate_models (db_cards db) provider model)"
  proof (rule first_some_candidates)
    fix m assume m: "?past (db_cards db) m \<noteq> None"
    from past_rate_model [OF m] show "m \<in> rc_native_model ` {c \<in> set (db_cards db). rc_provider c = provider}" .
    from m have "?past (db_cards db') m \<noteq> None" unfolding past .
    from past_rate_model [OF this] show "m \<in> rc_native_model ` {c \<in> set (db_cards db'). rc_provider c = provider}" .
  qed
  then show ?thesis by (simp only: resolve_rate_past past)
qed

text \<open>
  An import never changes the past: every rate resolved for a date before the import date is the
  same after the import as before it, for every provider, model (dated fallbacks included), unit type,
  tier, mode and bracket. The hypotheses are those of a proper import.
\<close>

theorem apply_import_keeps_history:
  assumes "import_ok db rows eff"
    and "apply_import sha rows eff expected actor label now db = Inr (res, db')"
    and "as_date tm < eff"
  shows "resolve_rate (db_cards db') provider model unit_type tm tier mode bracket =
    resolve_rate (db_cards db) provider model unit_type tm tier mode bracket"
  using assms by (rule import_keeps_rate)

theorem apply_import_keeps_history_witness:
  "\<exists>res db'. apply_import (\<lambda>_. ''d'') [sample_row 30 5] 30 ''d'' None ''litellm'' 0 sample_db = Inr (res, db')
     \<and> resolve_rate (db_cards db') ''openai'' ''gpt-5'' ''input_token'' (OnDate 25) None ''realtime'' None
       = resolve_rate (db_cards sample_db) ''openai'' ''gpt-5'' ''input_token'' (OnDate 25) None ''realtime'' None"
proof -
  obtain res db' where i: "apply_import (\<lambda>_. ''d'') [sample_row 30 5] 30 ''d'' None ''litellm'' 0 sample_db = Inr (res, db')"
    using sample_import by blast
  have "as_date (OnDate 25) < 30" by (simp add: as_date_def)
  from i apply_import_keeps_history [OF sample_import_ok i this] show ?thesis by blast
qed

section \<open>What an import does not check\<close>

text \<open>
  \<open>apply_import\<close> does not run the overlap check that \<open>create_rate_card\<close> runs: importing two rows
  of one grain leaves two open cards of that grain, and a card that was closed in the future is
  overlapped by the imported one, although the table was free of overlaps before.
\<close>

theorem apply_import_can_overlap:
  "(\<exists>res db'. apply_import (\<lambda>_. ''d'') [sample_row 30 5, sample_row 30 6] 30 ''d'' None ''litellm'' 0
        \<lparr>db_cards = [], db_next_card = 1, db_settings = [], db_audit = []\<rparr> = Inr (res, db') \<and> \<not> pricing_inv db')
   \<and> (\<exists>res db'. apply_import (\<lambda>_. ''d'') [sample_row 30 5] 30 ''d'' None ''litellm'' 0
        \<lparr>db_cards = [sample_card 1 10 (Some 40) 3], db_next_card = 2, db_settings = [], db_audit = []\<rparr>
        = Inr (res, db') \<and> \<not> pricing_inv db')"
proof (rule conjI)
  show "\<exists>res db'. apply_import (\<lambda>_. ''d'') [sample_row 30 5, sample_row 30 6] 30 ''d'' None ''litellm'' 0
        \<lparr>db_cards = [], db_next_card = 1, db_settings = [], db_audit = []\<rparr> = Inr (res, db') \<and> \<not> pricing_inv db'"
    by (simp add: apply_import_def compute_import_diff_def import_changes_def current_open_card_def
        sort_desc_def classify_def change_of_def apply_change_def add_card_def Let_def pricing_audit_def
        pricing_inv_def no_overlap_def to_rate_card_def)
      (simp add: new_card_def sample_row_def rate_row_def ranges_intersect_def date_end_def DATE_MAX_def
        card_grain_def row_grain_def)
  show "\<exists>res db'. apply_import (\<lambda>_. ''d'') [sample_row 30 5] 30 ''d'' None ''litellm'' 0
        \<lparr>db_cards = [sample_card 1 10 (Some 40) 3], db_next_card = 2, db_settings = [], db_audit = []\<rparr>
        = Inr (res, db') \<and> \<not> pricing_inv db'"
    by (simp add: apply_import_def compute_import_diff_def import_changes_def current_open_card_def
        sort_desc_def classify_def change_of_def apply_change_def add_card_def Let_def pricing_audit_def
        pricing_inv_def no_overlap_def to_rate_card_def sample_card_def)
      (simp add: new_card_def sample_row_def rate_row_def ranges_intersect_def date_end_def DATE_MAX_def
        card_grain_def row_grain_def)
qed

section \<open>The pricing version\<close>

text \<open>
  \<open>bump_pricing_version\<close> returns the version that is current afterwards, touches no rate card,
  and counts: after a bump the version is a decimal number, and a further bump gives the next number,
  so versions never repeat.
\<close>

theorem bump_pricing_version_counts:
  "current_pricing_version (snd (bump_pricing_version now db)) = fst (bump_pricing_version now db)
   \<and> db_cards (snd (bump_pricing_version now db)) = db_cards db
   \<and> (\<exists>n. fst (bump_pricing_version now db) = str_of_nat n
        \<and> fst (bump_pricing_version now' (snd (bump_pricing_version now db))) = str_of_nat (Suc n))"
proof -
  have two: "str_of_nat 2 = ''2''" by code_simp
  have v: "\<exists>n. fst (bump_pricing_version now db) = str_of_nat n"
    using two [symmetric] by (auto simp: bump_pricing_version_def Let_def split: option.split)
  have ne: "fst (bump_pricing_version now db) \<noteq> []" using v str_of_nat_ne by metis
  have cur: "dget (db_settings (snd (bump_pricing_version now db))) PRICING_VERSION_KEY
      = Some (fst (bump_pricing_version now db), now)"
    by (simp add: bump_pricing_version_def Let_def)
  obtain n where n: "fst (bump_pricing_version now db) = str_of_nat n" using v by blast
  have "fst (bump_pricing_version now' (snd (bump_pricing_version now db))) = str_of_nat (Suc n)"
    by (simp add: bump_pricing_version_def [of now'] Let_def str_isdigit_def cur n)
  with n have "\<exists>n. fst (bump_pricing_version now db) = str_of_nat n
        \<and> fst (bump_pricing_version now' (snd (bump_pricing_version now db))) = str_of_nat (Suc n)"
    by blast
  then show ?thesis
    using cur ne by (simp add: current_pricing_version_def bump_pricing_version_def [of now db] Let_def)
qed

end
