(* ===== verification/Data_Quality.thy ===== *)
theory Data_Quality
  imports Core_Models
begin

text \<open>
  \<open>apps/server/src/tokemetry_server/services/data_quality.py\<close>: the record of ingest anomalies (table
  \<open>data_quality_events\<close>), where a burst of the same anomaly collapses onto one open record. Stored
  timestamps are UTC instants in microseconds; ids are the next number.
\<close>

definition DATA_QUALITY_KINDS :: "string list" where
  "DATA_QUALITY_KINDS = [''unknown_provider'', ''unknown_model'', ''schema_drift'', ''sequence_conflict'',
     ''unpriced_usage'', ''limit_source_failure'', ''clock_skew'', ''retention_rollup_mismatch'',
     ''trace_context_malformed'']"

record dq_event =
  dq_id :: int
  dq_kind :: string
  dq_subject :: string
  dq_detail :: "(string \<times> json) list"
  dq_source_id :: "string option"
  dq_ts :: int
  dq_resolved :: bool

record dq_table =
  dq_rows :: "dq_event list"
  dq_next :: int
  dq_window :: int

datatype dq_error = UnknownKind string

definition open_records :: "string \<Rightarrow> string \<Rightarrow> dq_event list \<Rightarrow> dq_event list" where
  "open_records kind subject rows =
     filter (\<lambda>r. dq_kind r = kind \<and> dq_subject r = subject \<and> \<not> dq_resolved r) rows"

definition open_record :: "string \<Rightarrow> string \<Rightarrow> dq_event list \<Rightarrow> dq_event option" where
  "open_record kind subject rows =
     (case sort_desc dq_ts (open_records kind subject rows) of [] \<Rightarrow> None | r # _ \<Rightarrow> Some r)"

definition within_window :: "dq_table \<Rightarrow> int \<Rightarrow> int \<Rightarrow> bool" where
  "within_window t new_ts existing_ts \<longleftrightarrow> new_ts - existing_ts \<le> dq_window t"

definition dq_record ::
  "string \<Rightarrow> string \<Rightarrow> int \<Rightarrow> (string \<times> json) list option \<Rightarrow> string option \<Rightarrow> dq_table
   \<Rightarrow> dq_error + dq_table" where
  "dq_record kind subject ts detail source_id t =
     (if kind \<notin> set DATA_QUALITY_KINDS then Inl (UnknownKind kind)
      else
        let fresh = t\<lparr>dq_rows := dq_rows t @ [\<lparr>dq_id = dq_next t, dq_kind = kind, dq_subject = subject,
               dq_detail = (case detail of None \<Rightarrow> [] | Some d \<Rightarrow> d), dq_source_id = source_id,
               dq_ts = ts, dq_resolved = False\<rparr>], dq_next := dq_next t + 1\<rparr>
        in Inr (case open_record kind subject (dq_rows t) of
             None \<Rightarrow> fresh
           | Some r \<Rightarrow>
               if within_window t ts (dq_ts r)
               then t\<lparr>dq_rows := map (\<lambda>q. if dq_id q = dq_id r then
                        q\<lparr>dq_ts := ts,
                          dq_detail := (case detail of None \<Rightarrow> dq_detail q | Some d \<Rightarrow> d),
                          dq_source_id := (if source_id = None then dq_source_id q else source_id)\<rparr>
                        else q) (dq_rows t)\<rparr>
               else fresh))"

text \<open>The savepoint: a failed recording leaves the table as it was.\<close>

definition dq_record_safe ::
  "string \<Rightarrow> string \<Rightarrow> int \<Rightarrow> (string \<times> json) list option \<Rightarrow> string option \<Rightarrow> dq_table \<Rightarrow> dq_table" where
  "dq_record_safe kind subject ts detail source_id t =
     (case dq_record kind subject ts detail source_id t of Inl _ \<Rightarrow> t | Inr t' \<Rightarrow> t')"

definition resolve_open :: "string \<Rightarrow> string \<Rightarrow> dq_table \<Rightarrow> nat \<times> dq_table" where
  "resolve_open kind subject t =
     (length (open_records kind subject (dq_rows t)),
      t\<lparr>dq_rows := map (\<lambda>r. if dq_kind r = kind \<and> dq_subject r = subject then r\<lparr>dq_resolved := True\<rparr> else r)
                     (dq_rows t)\<rparr>)"

definition open_events :: "string option \<Rightarrow> dq_table \<Rightarrow> dq_event list" where
  "open_events kind t =
     sort_desc dq_ts (filter (\<lambda>r. \<not> dq_resolved r \<and> (kind = None \<or> kind = Some (dq_kind r))) (dq_rows t))"

section \<open>Bursts collapse\<close>

definition dq_inv :: "dq_table \<Rightarrow> bool" where
  "dq_inv t \<longleftrightarrow> distinct (map dq_id (dq_rows t)) \<and> (\<forall>r \<in> set (dq_rows t). dq_id r < dq_next t)"

lemma open_record_Some:
  assumes "open_record kind subject rows = Some r"
  shows "r \<in> set rows" and "dq_kind r = kind" and "dq_subject r = subject" and "\<not> dq_resolved r"
proof -
  obtain rs where "sort_desc dq_ts (open_records kind subject rows) = r # rs"
    using assms by (auto simp: open_record_def split: list.splits)
  then have "r \<in> set (sort_desc dq_ts (open_records kind subject rows))" by (simp only: list.set_intros(1))
  then have "r \<in> set (open_records kind subject rows)" unfolding set_sort_desc .
  then show "r \<in> set rows" "dq_kind r = kind" "dq_subject r = subject" "\<not> dq_resolved r"
    by (auto simp: open_records_def)
qed

lemma map_update_one:
  assumes "distinct (map f xs)" and "r \<in> set xs"
  shows "length (filter P (map (\<lambda>q. if f q = f r then u q else q) xs)) + (if P r then 1 else 0)
    = length (filter P xs) + (if P (u r) then 1 else 0)"
  using assms
proof (induction xs)
  case (Cons x xs)
  show ?case
  proof (cases "x = r")
    case True
    have "\<forall>q \<in> set xs. f q \<noteq> f r"
    proof (intro ballI notI)
      fix q assume "q \<in> set xs" and "f q = f r"
      then have "f x \<in> f ` set xs" using True by (metis imageI)
      with Cons.prems(1) show False by simp
    qed
    then have "map (\<lambda>q. if f q = f r then u q else q) xs = xs" by (induction xs) auto
    with True show ?thesis by simp
  next
    case False
    with Cons.prems have r: "r \<in> set xs" and "f x \<noteq> f r" by (auto simp: image_iff)
    with Cons show ?thesis by simp
  qed
qed simp

lemma dq_inv_record:
  assumes "dq_inv t" and "dq_record kind subject ts detail source_id t = Inr t'"
  shows "dq_inv t'"
proof -
  have ids: "map dq_id (map (\<lambda>q. if P q then q\<lparr>dq_ts := a, dq_detail := d q, dq_source_id := s q\<rparr> else q) rows)
      = map dq_id rows" for P a d s rows by simp
  have fresh: "dq_next t \<notin> dq_id ` set (dq_rows t)" using assms(1) by (auto simp: dq_inv_def)
  from assms show ?thesis
    by (auto simp: dq_record_def Let_def dq_inv_def fresh comp_def if_distrib
        split: if_splits option.splits cong: if_cong) fastforce+
qed

text \<open>
  Data-quality recording collapses bursts: while an open record of the same kind and subject lies
  within the window, a new observation only moves that record (the table does not grow and the number
  of open records of the subject stays), and otherwise exactly one open record is added. The
  hypotheses: a recognised kind, and a table with unique ids.
\<close>

theorem dq_record_collapses:
  assumes "dq_inv t" and "kind \<in> set DATA_QUALITY_KINDS"
  shows "\<exists>t'. dq_record kind subject ts detail source_id t = Inr t' \<and> dq_inv t' \<and>
    (case open_record kind subject (dq_rows t) of
       Some r \<Rightarrow>
         (if ts - dq_ts r \<le> dq_window t
          then length (dq_rows t') = length (dq_rows t)
            \<and> length (open_records kind subject (dq_rows t')) = length (open_records kind subject (dq_rows t))
          else length (open_records kind subject (dq_rows t')) = Suc (length (open_records kind subject (dq_rows t))))
     | None \<Rightarrow> length (open_records kind subject (dq_rows t')) = 1)"
proof -
  obtain t' where t': "dq_record kind subject ts detail source_id t = Inr t'"
    using assms(2) by (simp add: dq_record_def Let_def)
  note inv' = dq_inv_record [OF assms(1) t']
  show ?thesis
  proof (cases "open_record kind subject (dq_rows t)")
    case None
    then have "sort_desc dq_ts (open_records kind subject (dq_rows t)) = []"
      by (simp add: open_record_def split: list.splits)
    then have "set (open_records kind subject (dq_rows t)) = {}"
      using set_sort_desc [of dq_ts "open_records kind subject (dq_rows t)"] by simp
    with None t' inv' assms(2) show ?thesis by (auto simp: dq_record_def Let_def open_records_def)
  next
    case (Some r)
    note r = open_record_Some [OF Some]
    let ?u = "\<lambda>q. q\<lparr>dq_ts := ts, dq_detail := (case detail of None \<Rightarrow> dq_detail q | Some d \<Rightarrow> d),
        dq_source_id := (if source_id = None then dq_source_id q else source_id)\<rparr>"
    have one: "length (open_records kind subject (map (\<lambda>q. if dq_id q = dq_id r then ?u q else q) (dq_rows t)))
        = length (open_records kind subject (dq_rows t))"
      using map_update_one [of dq_id "dq_rows t" r
          "\<lambda>q. dq_kind q = kind \<and> dq_subject q = subject \<and> \<not> dq_resolved q" ?u] assms(1) r
      by (simp add: dq_inv_def open_records_def)
    with Some r t' inv' assms(2) show ?thesis
      by (auto simp: dq_record_def Let_def within_window_def) (simp_all add: open_records_def)
  qed
qed

theorem dq_record_collapses_witness:
  "\<exists>t'. dq_record ''sequence_conflict'' ''p/e'' 50 None None
      \<lparr>dq_rows = [\<lparr>dq_id = 1, dq_kind = ''sequence_conflict'', dq_subject = ''p/e'', dq_detail = [],
         dq_source_id = None, dq_ts = 10, dq_resolved = False\<rparr>], dq_next = 2, dq_window = 3600\<rparr> = Inr t'
    \<and> length (dq_rows t') = 1"
proof -
  let ?t = "\<lparr>dq_rows = [\<lparr>dq_id = 1, dq_kind = ''sequence_conflict'', dq_subject = ''p/e'', dq_detail = [],
         dq_source_id = None, dq_ts = 10, dq_resolved = False\<rparr>], dq_next = 2, dq_window = 3600\<rparr>"
  have i: "dq_inv ?t" by (simp add: dq_inv_def)
  have k: "''sequence_conflict'' \<in> set DATA_QUALITY_KINDS" by (simp add: DATA_QUALITY_KINDS_def)
  show ?thesis
    using dq_record_collapses [OF i k, of "''p/e''" 50 None None]
    by (auto simp: open_record_def open_records_def sort_desc_def)
qed

lemma resolve_open_none: "open_records kind subject (dq_rows (snd (resolve_open kind subject t))) = []"
proof -
  let ?u = "\<lambda>r. if dq_kind r = kind \<and> dq_subject r = subject then r\<lparr>dq_resolved := True\<rparr> else r"
  have u: "\<not> (dq_kind (?u r) = kind \<and> dq_subject (?u r) = subject \<and> \<not> dq_resolved (?u r))" for r
    by (cases "dq_kind r = kind \<and> dq_subject r = subject") auto
  have rows: "dq_rows (snd (resolve_open kind subject t)) = map ?u (dq_rows t)"
    by (simp add: resolve_open_def)
  show ?thesis
    unfolding open_records_def rows filter_empty_conv set_map
    by (intro ballI, elim imageE, hypsubst, rule u)
qed

end
