(* ===== verification/Sources.thy ===== *)
theory Sources
  imports Usage_V2 Data_Quality
begin

text \<open>
  Source identity and health of the server: the table \<open>sources\<close> and \<open>services/sources.py\<close>
  (\<open>SourceRegistryService\<close>, \<open>SourceHealthService\<close>), and the trace-context checks of
  \<open>services/trace_context.py\<close>. A stored timestamp is a \<open>raw_datetime\<close>: SQLite gives it back as the wall
  clock it was written with, without the offset; Postgres gives it back with its zone.
\<close>

section \<open>Stored timestamps\<close>

definition store_sqlite :: "py_datetime \<Rightarrow> raw_datetime" where
  "store_sqlite t = Naive (dt_instant t + dt_offset t)"

definition as_naive :: "raw_datetime \<Rightarrow> py_datetime \<Rightarrow> py_datetime" where
  "as_naive stored incoming =
     (case stored of Naive wall \<Rightarrow> \<lparr>dt_instant = wall - dt_offset incoming, dt_offset = dt_offset incoming\<rparr>
      | Aware t \<Rightarrow> t)"

definition seconds_between :: "py_datetime \<Rightarrow> py_datetime \<Rightarrow> rat" where
  "seconds_between later earlier = of_int (dt_instant later - dt_instant earlier) / 1000000"

section \<open>The registry of sources\<close>

record source_row =
  so_id :: int
  so_type :: string
  so_name :: string
  so_version :: "string option"
  so_instance_id :: "string option"
  so_machine :: "string option"
  so_token_label :: "string option"
  so_billing_mode :: string
  so_first_seen :: raw_datetime
  so_last_seen :: raw_datetime
  so_revoked :: bool
  so_last_successful_ingest :: "raw_datetime option"
  so_recent_error_count :: int
  so_error_window_started_at :: "raw_datetime option"
  so_reported_schema_version :: "int option"
  so_clock_skew_seconds :: "rat option"

record source_table =
  st_rows :: "source_row list"
  st_next :: int

datatype source_error = MultipleSources

definition source_identity :: "source_row \<Rightarrow> string \<times> string \<times> string option" where
  "source_identity r = (so_type r, so_name r, so_instance_id r)"

definition ref_identity :: "source_ref \<Rightarrow> string \<times> string \<times> string option" where
  "ref_identity s = (source_type_str (sr_type s), sr_name s, sr_instance_id s)"

definition new_source :: "int \<Rightarrow> source_ref \<Rightarrow> py_datetime \<Rightarrow> string option \<Rightarrow> string option \<Rightarrow> source_row" where
  "new_source i s ts machine token_label =
     \<lparr>so_id = i, so_type = source_type_str (sr_type s), so_name = sr_name s,
      so_version = Some (sr_version s), so_instance_id = sr_instance_id s, so_machine = machine,
      so_token_label = token_label, so_billing_mode = ''api_billed'', so_first_seen = Aware ts,
      so_last_seen = Aware ts, so_revoked = False, so_last_successful_ingest = None,
      so_recent_error_count = 0, so_error_window_started_at = None, so_reported_schema_version = None,
      so_clock_skew_seconds = None\<rparr>"

definition touch_source ::
  "source_ref \<Rightarrow> py_datetime \<Rightarrow> string option \<Rightarrow> string option \<Rightarrow> source_row \<Rightarrow> source_row" where
  "touch_source s ts machine token_label r =
     r\<lparr>so_last_seen := (if dt_instant (as_naive (so_last_seen r) ts) < dt_instant ts then Aware ts
                        else so_last_seen r),
       so_version := Some (sr_version s),
       so_machine := (if machine \<noteq> None \<and> so_machine r = None then machine else so_machine r),
       so_token_label := (if token_label \<noteq> None \<and> so_token_label r = None then token_label
                          else so_token_label r)\<rparr>"

definition resolve_or_create ::
  "source_ref \<Rightarrow> py_datetime \<Rightarrow> string option \<Rightarrow> string option \<Rightarrow> source_table
   \<Rightarrow> source_error + int \<times> source_table" where
  "resolve_or_create s ts machine token_label t =
     (case filter (\<lambda>r. source_identity r = ref_identity s) (st_rows t) of
        [] \<Rightarrow> Inr (st_next t, t\<lparr>st_rows := st_rows t @ [new_source (st_next t) s ts machine token_label],
                               st_next := st_next t + 1\<rparr>)
      | [r] \<Rightarrow> Inr (so_id r, t\<lparr>st_rows := map (\<lambda>q. if so_id q = so_id r
                                  then touch_source s ts machine token_label q else q) (st_rows t)\<rparr>)
      | _ \<Rightarrow> Inl MultipleSources)"

section \<open>Health\<close>

record health_config =
  hc_error_window :: rat
  hc_clock_skew_warn :: rat
  hc_stale_thresholds :: "(string, rat) dict"
  hc_default_stale :: rat

definition default_health_config :: health_config where
  "default_health_config = \<lparr>hc_error_window = 3600, hc_clock_skew_warn = 300,
     hc_stale_thresholds = [(''collector'', 1800), (''gateway'', 600)], hc_default_stale = 1800\<rparr>"

definition health_update ::
  "health_config \<Rightarrow> py_datetime \<Rightarrow> int \<Rightarrow> py_datetime option \<Rightarrow> int \<Rightarrow> source_row \<Rightarrow> source_row" where
  "health_update cfg received_at schema_version max_event_ts error_count r =
     (let lapsed = (case so_error_window_started_at r of None \<Rightarrow> True
            | Some w \<Rightarrow> hc_error_window cfg < seconds_between received_at (as_naive w received_at));
          r = r\<lparr>so_reported_schema_version := Some schema_version,
                so_last_successful_ingest := (if error_count = 0 then Some (Aware received_at)
                                              else so_last_successful_ingest r)\<rparr>;
          r = (if lapsed then r\<lparr>so_recent_error_count := error_count,
                                so_error_window_started_at := Some (Aware received_at)\<rparr>
               else r\<lparr>so_recent_error_count := so_recent_error_count r + error_count\<rparr>)
      in case max_event_ts of None \<Rightarrow> r
         | Some t \<Rightarrow> r\<lparr>so_clock_skew_seconds := Some (seconds_between t received_at)\<rparr>)"

definition round3 :: "rat \<Rightarrow> rat" where
  "round3 x = of_int (round_half_even (x * 1000)) / 1000"

definition record_ingest ::
  "health_config \<Rightarrow> int \<Rightarrow> py_datetime \<Rightarrow> int \<Rightarrow> py_datetime option \<Rightarrow> int \<Rightarrow> (int \<Rightarrow> string)
   \<Rightarrow> source_table \<times> dq_table \<Rightarrow> source_table \<times> dq_table" where
  "record_ingest cfg source_id received_at schema_version max_event_ts error_count show_id db =
     (let (t, dq) = db
      in if source_id \<notin> so_id ` set (st_rows t) then (t, dq)
         else
           (t\<lparr>st_rows := map (\<lambda>r. if so_id r = source_id
                then health_update cfg received_at schema_version max_event_ts error_count r else r)
                (st_rows t)\<rparr>,
            case max_event_ts of None \<Rightarrow> dq
            | Some ts \<Rightarrow>
                if hc_clock_skew_warn cfg < \<bar>seconds_between ts received_at\<bar>
                then dq_record_safe ''clock_skew'' (''source:'' @ show_id source_id) (dt_instant received_at)
                       (Some [(''skew_seconds'', JNum (round3 (seconds_between ts received_at)))]) None dq
                else dq))"

definition staleness_threshold :: "health_config \<Rightarrow> string \<Rightarrow> rat" where
  "staleness_threshold cfg source_type = dget_or (hc_stale_thresholds cfg) source_type (hc_default_stale cfg)"

record source_health =
  sh_source_id :: int
  sh_last_successful_ingest :: "raw_datetime option"
  sh_recent_error_count :: int
  sh_reported_schema_version :: "int option"
  sh_clock_skew_seconds :: "rat option"
  sh_stale :: bool
  sh_staleness_threshold_seconds :: rat

definition source_health_at :: "health_config \<Rightarrow> source_row \<Rightarrow> py_datetime \<Rightarrow> source_health" where
  "source_health_at cfg r moment =
     (let threshold = staleness_threshold cfg (so_type r)
      in \<lparr>sh_source_id = so_id r, sh_last_successful_ingest = so_last_successful_ingest r,
          sh_recent_error_count = so_recent_error_count r,
          sh_reported_schema_version = so_reported_schema_version r,
          sh_clock_skew_seconds = so_clock_skew_seconds r,
          sh_stale = (case so_last_successful_ingest r of None \<Rightarrow> True
            | Some l \<Rightarrow> threshold < seconds_between moment (as_naive l moment)),
          sh_staleness_threshold_seconds = threshold\<rparr>)"

section \<open>Trace context\<close>

definition is_lower_hex :: "char \<Rightarrow> bool" where
  "is_lower_hex c \<longleftrightarrow> is_digit c \<or> (let n = (of_char c :: nat) in 97 \<le> n \<and> n \<le> 102)"

text \<open>The anchor of the patterns also matches before one final line feed.\<close>

definition hex_match :: "nat \<Rightarrow> string \<Rightarrow> bool" where
  "hex_match n s \<longleftrightarrow> (length s = n \<and> list_all is_lower_hex s)
     \<or> (length s = n + 1 \<and> list_all is_lower_hex (take n s) \<and> s ! n = CHR 0x0A)"

definition is_valid_trace_id :: "string \<Rightarrow> bool" where
  "is_valid_trace_id s \<longleftrightarrow> hex_match 32 s \<and> s \<noteq> replicate 32 (CHR ''0'')"

definition is_valid_span_id :: "string \<Rightarrow> bool" where
  "is_valid_span_id s \<longleftrightarrow> hex_match 16 s \<and> s \<noteq> replicate 16 (CHR ''0'')"

definition malformed_trace_fields ::
  "string option \<Rightarrow> string option \<Rightarrow> string option \<Rightarrow> string list" where
  "malformed_trace_fields trace_id span_id parent_span_id =
     (case trace_id of Some v \<Rightarrow> if is_valid_trace_id v then [] else [''trace_id''] | None \<Rightarrow> [])
     @ (case span_id of Some v \<Rightarrow> if is_valid_span_id v then [] else [''span_id''] | None \<Rightarrow> [])
     @ (case parent_span_id of Some v \<Rightarrow> if is_valid_span_id v then [] else [''parent_span_id''] | None \<Rightarrow> [])"

section \<open>Identity\<close>

definition source_inv :: "source_table \<Rightarrow> bool" where
  "source_inv t \<longleftrightarrow> distinct (map so_id (st_rows t)) \<and> distinct (map source_identity (st_rows t))
     \<and> (\<forall>r \<in> set (st_rows t). so_id r < st_next t)"

lemma source_inv_ids: "source_inv t \<longleftrightarrow> distinct (map so_id (st_rows t))
    \<and> distinct (map source_identity (st_rows t)) \<and> (\<forall>i \<in> set (map so_id (st_rows t)). i < st_next t)"
  by (simp add: source_inv_def)

lemma touch_source_frame [simp]:
  "so_id (touch_source s ts machine label r) = so_id r"
  "source_identity (touch_source s ts machine label r) = source_identity r"
  "so_billing_mode (touch_source s ts machine label r) = so_billing_mode r"
  "so_first_seen (touch_source s ts machine label r) = so_first_seen r"
  "so_revoked (touch_source s ts machine label r) = so_revoked r"
  by (simp_all add: touch_source_def source_identity_def)

lemma new_source_simps [simp]:
  "so_id (new_source i s ts machine label) = i"
  "source_identity (new_source i s ts machine label) = ref_identity s"
  "so_billing_mode (new_source i s ts machine label) = ''api_billed''"
  by (simp_all add: new_source_def source_identity_def ref_identity_def)

lemma filter_distinct_key:
  "distinct (map f xs) \<Longrightarrow> filter (\<lambda>x. f x = k) xs = [] \<or> (\<exists>x \<in> set xs. f x = k \<and> filter (\<lambda>x. f x = k) xs = [x])"
proof (induction xs)
  case (Cons x xs)
  show ?case
  proof (cases "f x = k")
    case True
    then have "filter (\<lambda>x. f x = k) xs = []"
      using Cons.prems by (auto simp: filter_empty_conv) (metis imageI)
    with True show ?thesis by simp
  next
    case False
    with Cons show ?thesis by auto
  qed
qed simp

lemma map_touch_keys:
  "map so_id (map (\<lambda>q. if so_id q = i then touch_source s ts machine label q else q) rows) = map so_id rows"
  "map source_identity (map (\<lambda>q. if so_id q = i then touch_source s ts machine label q else q) rows)
    = map source_identity rows"
  by simp_all

lemma resolve_ok:
  assumes "source_inv t"
  shows "\<exists>i t'. resolve_or_create s ts machine label t = Inr (i, t') \<and> source_inv t'
    \<and> (\<exists>r \<in> set (st_rows t'). so_id r = i \<and> source_identity r = ref_identity s)
    \<and> (if ref_identity s \<in> source_identity ` set (st_rows t)
       then map so_id (st_rows t') = map so_id (st_rows t)
         \<and> map so_billing_mode (st_rows t') = map so_billing_mode (st_rows t)
       else st_rows t' = st_rows t @ [new_source i s ts machine label])
    \<and> (\<forall>ts' machine' label'. \<exists>t''. resolve_or_create s ts' machine' label' t' = Inr (i, t''))"
proof -
  have ids: "distinct (map so_id (st_rows t))" and idn: "distinct (map source_identity (st_rows t))"
    and lt: "\<forall>r \<in> set (st_rows t). so_id r < st_next t"
    using assms by (simp_all add: source_inv_def)
  have again: "\<exists>t''. resolve_or_create s ts' machine' label' t' = Inr (i, t'')"
    if inv': "source_inv t'" and r: "r \<in> set (st_rows t')" "so_id r = i" "source_identity r = ref_identity s"
    for t' i r ts' machine' label'
  proof -
    have "filter (\<lambda>r. source_identity r = ref_identity s) (st_rows t') = [r]"
      using filter_distinct_key [of source_identity "st_rows t'" "ref_identity s"] inv' r
      by (auto simp: source_inv_def filter_empty_conv distinct_map inj_on_def)
    then show ?thesis by (simp add: resolve_or_create_def r(2))
  qed
  from filter_distinct_key [OF idn, of "ref_identity s"] show ?thesis
  proof
    assume f: "filter (\<lambda>r. source_identity r = ref_identity s) (st_rows t) = []"
    let ?r = "new_source (st_next t) s ts machine label"
    let ?t = "t\<lparr>st_rows := st_rows t @ [?r], st_next := st_next t + 1\<rparr>"
    have new: "ref_identity s \<notin> source_identity ` set (st_rows t)" "st_next t \<notin> so_id ` set (st_rows t)"
      using f lt by (auto simp: filter_empty_conv image_iff)
    then have inv': "source_inv ?t" using ids idn lt by (auto simp: source_inv_def less_Suc_eq)
    then show ?thesis using again [OF inv', of ?r "st_next t"] new
      by (auto simp: resolve_or_create_def f)
  next
    assume "\<exists>r \<in> set (st_rows t). source_identity r = ref_identity s
      \<and> filter (\<lambda>r. source_identity r = ref_identity s) (st_rows t) = [r]"
    then obtain r where r: "r \<in> set (st_rows t)" "source_identity r = ref_identity s"
      and f: "filter (\<lambda>r. source_identity r = ref_identity s) (st_rows t) = [r]" by blast
    let ?u = "\<lambda>q. if so_id q = so_id r then touch_source s ts machine label q else q"
    let ?t = "t\<lparr>st_rows := map ?u (st_rows t)\<rparr>"
    have rows: "st_rows ?t = map ?u (st_rows t)" "st_next ?t = st_next t" by simp_all
    have inv': "source_inv ?t"
      using assms unfolding source_inv_ids rows map_touch_keys .
    have mem: "touch_source s ts machine label r \<in> set (st_rows ?t)"
    proof -
      have "?u r \<in> set (map ?u (st_rows t))" unfolding set_map using r(1) by (rule imageI)
      then show ?thesis by simp
    qed
    have keep: "map so_id (st_rows ?t) = map so_id (st_rows t)"
      "map so_billing_mode (st_rows ?t) = map so_billing_mode (st_rows t)"
      by simp_all
    have res: "resolve_or_create s ts machine label t = Inr (so_id r, ?t)"
      by (simp add: resolve_or_create_def f)
    have old: "ref_identity s \<in> source_identity ` set (st_rows t)" using r by (metis imageI)
    have found: "\<exists>q \<in> set (st_rows ?t). so_id q = so_id r \<and> source_identity q = ref_identity s"
      by (rule bexI [OF _ mem]) (simp add: r(2))
    have later: "\<forall>ts' machine' label'. \<exists>t''. resolve_or_create s ts' machine' label' ?t = Inr (so_id r, t'')"
      using again [OF inv' mem] by (simp add: r(2))
    show ?thesis
      by (intro exI [of _ "so_id r"] exI [of _ ?t] conjI res inv' found later) (simp only: old if_True keep simp_thms)
  qed
qed

text \<open>
  A source is identified by its type, name and instance: resolving a reference never fails and
  yields the one row with that identity; a first sighting adds one row billed by API, a repeat adds
  none and keeps the ids, identities and billing modes of all rows; and resolving the same reference
  again yields the same id. The hypothesis is that ids and identities of the stored rows are unique.
\<close>

theorem resolve_or_create_identity:
  assumes "source_inv t"
  shows "\<exists>i t'. resolve_or_create s ts machine label t = Inr (i, t') \<and> source_inv t'
    \<and> (\<exists>r \<in> set (st_rows t'). so_id r = i \<and> source_identity r = ref_identity s)
    \<and> (if ref_identity s \<in> source_identity ` set (st_rows t)
       then map so_id (st_rows t') = map so_id (st_rows t)
         \<and> map so_billing_mode (st_rows t') = map so_billing_mode (st_rows t)
       else st_rows t' = st_rows t @ [new_source i s ts machine label])
    \<and> (\<forall>ts' machine' label'. \<exists>t''. resolve_or_create s ts' machine' label' t' = Inr (i, t''))"
  using assms by (rule resolve_ok)

definition gw_ref :: source_ref where
  "gw_ref = \<lparr>sr_type = Gateway_Source, sr_name = ''gw'', sr_version = ''1'', sr_instance_id = None\<rparr>"

theorem resolve_or_create_identity_witness:
  "\<exists>i t'. resolve_or_create gw_ref (as_utc_dt 0) None None \<lparr>st_rows = [], st_next = 1\<rparr> = Inr (i, t')
     \<and> length (st_rows t') = 1"
proof -
  have inv: "source_inv \<lparr>st_rows = [], st_next = 1\<rparr>" by (simp add: source_inv_def)
  show ?thesis using resolve_or_create_identity [OF inv, of gw_ref "as_utc_dt 0" None None] by auto
qed

text \<open>
  On SQLite the alignment of a stored wall clock with the offset of the incoming event can move
  \<open>last_seen\<close> backwards, although the code promises it never does: an event at 10:00+02:00 is stored as
  the wall clock 10:00, and a later batch with an event at 08:30Z, half an hour later in time, does not
  advance it, while one at 11:00+05:00, two hours earlier in time, replaces it.
\<close>

theorem last_seen_can_go_back:
  "let hour = 3600000000 :: int;
       first = \<lparr>dt_instant = 8 * hour, dt_offset = 2 * hour\<rparr>;
       earlier = \<lparr>dt_instant = 6 * hour, dt_offset = 5 * hour\<rparr>;
       row = (new_source 1 gw_ref first None None)\<lparr>so_last_seen := store_sqlite first\<rparr>
   in so_last_seen (touch_source gw_ref earlier None None row) = Aware earlier
      \<and> dt_instant earlier < dt_instant first
      \<and> so_last_seen (touch_source gw_ref (as_utc_dt (8 * hour + hour div 2)) None None row) = store_sqlite first"
  by (simp add: Let_def touch_source_def new_source_def store_sqlite_def as_naive_def as_utc_dt_def)

end
