(* ===== verification/Revisions.thy ===== *)
theory Revisions
  imports Usage_V2 Data_Quality
begin

text \<open>
  The event ledger of the server: the active rows, archived revisions and billable units of
  \<open>db/models.py\<close>, and the revision engine of \<open>services/revisions.py\<close>. A ledger row stores its
  timestamps as UTC instants. Its fingerprint, the JSON text of the row with sorted keys, is the row
  itself with its JSON fields in key order: equal texts are equal such rows. Numeric columns come back
  from the database with ten decimals (\<open>reload\<close>).
\<close>

section \<open>Tables\<close>

record ledger_row =
  lg_provider :: string
  lg_event_id :: string
  lg_schema_version :: int
  lg_event_kind :: string
  lg_finality :: string
  lg_sequence :: int
  lg_logical_request_id :: "string option"
  lg_attempt_id :: "string option"
  lg_provider_request_id :: "string option"
  lg_provider_response_id :: "string option"
  lg_requested_model :: "string option"
  lg_routed_model :: "string option"
  lg_native_model :: string
  lg_ts_started :: int
  lg_ts_first_token :: "int option"
  lg_ts_completed :: "int option"
  lg_machine :: "string option"
  lg_project :: "string option"
  lg_session_id :: "string option"
  lg_agent_id :: "string option"
  lg_environment :: "string option"
  lg_input_tokens :: int
  lg_output_tokens :: int
  lg_cache_read_tokens :: int
  lg_cache_write_short_tokens :: int
  lg_cache_write_long_tokens :: int
  lg_reasoning_tokens :: int
  lg_success :: bool
  lg_outcome :: "string option"
  lg_http_status :: "int option"
  lg_stop_reason :: "string option"
  lg_service_tier :: "string option"
  lg_streaming :: "bool option"
  lg_latency_ms :: "int option"
  lg_time_to_first_token_ms :: "int option"
  lg_tool_call_count :: int
  lg_tool_histogram :: "(string, int) dict option"
  lg_provenance :: string
  lg_cost_usd :: "pydecimal option"
  lg_observed_cost :: "pydecimal option"
  lg_source_id :: "int option"
  lg_routing :: "routing option"
  lg_dimensions :: "(string, string) dict"
  lg_extra :: "(string \<times> json) list"
  lg_trace_id :: "string option"
  lg_span_id :: "string option"
  lg_parent_span_id :: "string option"

datatype revision_reason = SUPERSEDED | CONFLICT | CORRECTION

record event_revision =
  rv_provider :: string
  rv_event_id :: string
  rv_sequence :: int
  rv_finality :: string
  rv_previous :: ledger_row
  rv_reason_text :: "string option"
  rv_reason :: revision_reason
  rv_actor :: "string option"
  rv_ts :: int

record billable_unit =
  bu_provider :: string
  bu_event_id :: string
  bu_unit_type :: string
  bu_quantity :: rat

record ledger =
  lb_events :: "ledger_row list"
  lb_revisions :: "event_revision list"
  lb_units :: "billable_unit list"
  lb_dq :: dq_table

section \<open>The decision\<close>

datatype outcome = ACCEPTED | UPDATED | DUPLICATE | REJECTED | CORRECTED

datatype conflict_mode = REVISION | KEEP_MAX

record 'fp event_state =
  es_finality :: string
  es_sequence :: int
  es_output_tokens :: int
  es_fingerprint :: 'fp

record revision_decision =
  rd_outcome :: outcome
  rd_write :: bool
  rd_archive_reason :: "revision_reason option"
  rd_conflict :: bool

definition decision :: "outcome \<Rightarrow> bool \<Rightarrow> revision_decision" where
  "decision oc w = \<lparr>rd_outcome = oc, rd_write = w, rd_archive_reason = None, rd_conflict = False\<rparr>"

definition resolve_keep_max :: "'fp event_state \<Rightarrow> 'fp event_state \<Rightarrow> revision_decision" where
  "resolve_keep_max incoming existing =
     (if es_fingerprint incoming = es_fingerprint existing then decision DUPLICATE False
      else if es_output_tokens existing \<le> es_output_tokens incoming then decision UPDATED True
      else decision DUPLICATE False)"

definition resolve_over_final :: "'fp event_state \<Rightarrow> bool \<Rightarrow> revision_decision" where
  "resolve_over_final incoming correction =
     (if es_finality incoming = ''final''
      then if correction then (decision CORRECTED True)\<lparr>rd_archive_reason := Some CORRECTION\<rparr>
           else (decision REJECTED False)\<lparr>rd_conflict := True\<rparr>
      else decision DUPLICATE False)"

definition resolve_over_snapshot :: "'fp event_state \<Rightarrow> 'fp event_state \<Rightarrow> revision_decision" where
  "resolve_over_snapshot incoming existing =
     (if es_finality incoming = ''final''
      then (decision UPDATED True)\<lparr>rd_archive_reason := Some SUPERSEDED\<rparr>
      else if es_sequence existing < es_sequence incoming
      then (decision UPDATED True)\<lparr>rd_archive_reason := Some SUPERSEDED\<rparr>
      else if es_sequence incoming = es_sequence existing
      then (decision REJECTED False)\<lparr>rd_conflict := True\<rparr>
      else decision DUPLICATE False)"

definition resolve ::
  "'fp event_state \<Rightarrow> 'fp event_state option \<Rightarrow> conflict_mode \<Rightarrow> bool \<Rightarrow> revision_decision" where
  "resolve incoming existing mode correction =
     (case existing of None \<Rightarrow> decision ACCEPTED True
      | Some ex \<Rightarrow>
          if mode = KEEP_MAX then resolve_keep_max incoming ex
          else if es_fingerprint incoming = es_fingerprint ex then decision DUPLICATE False
          else if es_finality ex = ''final'' then resolve_over_final incoming correction
          else resolve_over_snapshot incoming ex)"

section \<open>Rows and fingerprints\<close>

definition to_utc :: "py_datetime option \<Rightarrow> int option" where
  "to_utc t = map_option dt_instant t"

definition usage_event_v2_row :: "usage_event_v2 \<Rightarrow> int option \<Rightarrow> pydecimal option \<Rightarrow> ledger_row" where
  "usage_event_v2_row e source_id cost =
     \<lparr>lg_provider = e2_provider e, lg_event_id = e2_event_id e,
      lg_schema_version = e2_schema_version e, lg_event_kind = event_kind_str (e2_event_kind e),
      lg_finality = finality_str (e2_finality e), lg_sequence = e2_sequence e,
      lg_logical_request_id = e2_logical_request_id e, lg_attempt_id = e2_attempt_id e,
      lg_provider_request_id = e2_provider_request_id e,
      lg_provider_response_id = e2_provider_response_id e,
      lg_requested_model = e2_requested_model e, lg_routed_model = e2_routed_model e,
      lg_native_model = e2_native_model e, lg_ts_started = dt_instant (e2_ts_started e),
      lg_ts_first_token = to_utc (e2_ts_first_token e), lg_ts_completed = to_utc (e2_ts_completed e),
      lg_machine = e2_machine e, lg_project = e2_project e, lg_session_id = e2_session_id e,
      lg_agent_id = e2_agent_id e, lg_environment = e2_environment e,
      lg_input_tokens = e2_input_tokens e, lg_output_tokens = e2_output_tokens e,
      lg_cache_read_tokens = e2_cache_read_tokens e,
      lg_cache_write_short_tokens = e2_cache_write_short_tokens e,
      lg_cache_write_long_tokens = e2_cache_write_long_tokens e,
      lg_reasoning_tokens = e2_reasoning_tokens e, lg_success = e2_success e,
      lg_outcome = e2_outcome e, lg_http_status = e2_http_status e,
      lg_stop_reason = e2_stop_reason e, lg_service_tier = e2_service_tier e,
      lg_streaming = e2_streaming e, lg_latency_ms = e2_latency_ms e,
      lg_time_to_first_token_ms = e2_time_to_first_token_ms e,
      lg_tool_call_count = e2_tool_call_count e, lg_tool_histogram = e2_tool_histogram e,
      lg_provenance = provenance_str (e2_provenance e), lg_cost_usd = cost,
      lg_observed_cost = e2_observed_cost e, lg_source_id = source_id, lg_routing = e2_routing e,
      lg_dimensions = e2_dimensions e, lg_extra = e2_extra e, lg_trace_id = e2_trace_id e,
      lg_span_id = e2_span_id e, lg_parent_span_id = e2_parent_span_id e\<rparr>"

definition row_fingerprint :: "ledger_row \<Rightarrow> ledger_row" where
  "row_fingerprint r = r\<lparr>lg_tool_histogram := map_option (sort_key fst) (lg_tool_histogram r),
     lg_dimensions := sort_key fst (lg_dimensions r), lg_extra := sort_keys_entries (lg_extra r)\<rparr>"

definition event_state_of :: "ledger_row \<Rightarrow> ledger_row event_state" where
  "event_state_of r = \<lparr>es_finality = lg_finality r, es_sequence = lg_sequence r,
     es_output_tokens = lg_output_tokens r, es_fingerprint = row_fingerprint r\<rparr>"

text \<open>\<open>Numeric(20, 10)\<close>: what a decimal column returns in a later transaction.\<close>

fun numeric_column :: "pydecimal \<Rightarrow> pydecimal" where
  "numeric_column (Dec c e) = Dec (round_half_even (of_int c * pow10 (e + 10))) (- 10)"

definition reload :: "ledger_row \<Rightarrow> ledger_row" where
  "reload r = r\<lparr>lg_cost_usd := map_option numeric_column (lg_cost_usd r),
     lg_observed_cost := map_option numeric_column (lg_observed_cost r)\<rparr>"

definition commit_ledger :: "ledger \<Rightarrow> ledger" where
  "commit_ledger st = st\<lparr>lb_events := map reload (lb_events st)\<rparr>"

section \<open>The engine\<close>

definition row_key :: "ledger_row \<Rightarrow> string \<times> string" where
  "row_key r = (lg_provider r, lg_event_id r)"

definition event_key :: "usage_event_v2 \<Rightarrow> string \<times> string" where
  "event_key e = (e2_provider e, e2_event_id e)"

definition active_row :: "ledger \<Rightarrow> string \<times> string \<Rightarrow> ledger_row option" where
  "active_row st k = (case filter (\<lambda>r. row_key r = k) (lb_events st) of [] \<Rightarrow> None | r # _ \<Rightarrow> Some r)"

definition archive ::
  "int \<Rightarrow> ledger_row \<Rightarrow> revision_reason \<Rightarrow> string option \<Rightarrow> string option \<Rightarrow> ledger \<Rightarrow> ledger" where
  "archive now r reason actor reason_text st =
     st\<lparr>lb_revisions := lb_revisions st @
       [\<lparr>rv_provider = lg_provider r, rv_event_id = lg_event_id r, rv_sequence = lg_sequence r,
         rv_finality = lg_finality r, rv_previous = r,
         rv_reason_text = (if reason = CORRECTION then reason_text else None),
         rv_reason = reason, rv_actor = actor, rv_ts = now\<rparr>]\<rparr>"

definition put_row :: "ledger_row \<Rightarrow> ledger \<Rightarrow> ledger" where
  "put_row row st = (case active_row st (row_key row) of
       None \<Rightarrow> st\<lparr>lb_events := lb_events st @ [row]\<rparr>
     | Some _ \<Rightarrow> st\<lparr>lb_events := map (\<lambda>r. if row_key r = row_key row then row else r) (lb_events st)\<rparr>)"

definition unit_key :: "billable_unit \<Rightarrow> string \<times> string" where
  "unit_key u = (bu_provider u, bu_event_id u)"

definition units_of :: "usage_event_v2 \<Rightarrow> billable_unit list" where
  "units_of e = (case e2_billable_units e of None \<Rightarrow> []
     | Some units \<Rightarrow> map (\<lambda>(u, q). \<lparr>bu_provider = e2_provider e, bu_event_id = e2_event_id e,
           bu_unit_type = u, bu_quantity = q\<rparr>) units)"

definition replace_billable_units :: "usage_event_v2 \<Rightarrow> ledger \<Rightarrow> ledger" where
  "replace_billable_units e st =
     st\<lparr>lb_units := filter (\<lambda>u. unit_key u \<noteq> event_key e) (lb_units st) @ units_of e\<rparr>"

definition conflict_detail :: "ledger_row \<Rightarrow> ledger_row option \<Rightarrow> (string \<times> json) list" where
  "conflict_detail row existing =
     [(''incoming_finality'', JStr (lg_finality row)), (''incoming_sequence'', JInt (lg_sequence row)),
      (''existing_finality'', (case existing of None \<Rightarrow> JNull | Some r \<Rightarrow> JStr (lg_finality r))),
      (''existing_sequence'', (case existing of None \<Rightarrow> JNull | Some r \<Rightarrow> JInt (lg_sequence r)))]"

record apply_options =
  ao_mode :: conflict_mode
  ao_correction :: bool
  ao_actor :: "string option"
  ao_reason_text :: "string option"
  ao_source_id :: "int option"
  ao_cost :: "pydecimal option"

definition default_options :: apply_options where
  "default_options = \<lparr>ao_mode = REVISION, ao_correction = False, ao_actor = None,
     ao_reason_text = None, ao_source_id = None, ao_cost = None\<rparr>"

definition apply_event ::
  "bool \<Rightarrow> int \<Rightarrow> apply_options \<Rightarrow> usage_event_v2 \<Rightarrow> ledger \<Rightarrow> outcome \<times> ledger" where
  "apply_event has_dq now opts e st =
     (let row = usage_event_v2_row e (ao_source_id opts) (ao_cost opts);
          existing = active_row st (event_key e);
          d = resolve (event_state_of row) (map_option event_state_of existing) (ao_mode opts)
                (ao_correction opts);
          st1 = (case (rd_archive_reason d, existing) of
                   (Some reason, Some old) \<Rightarrow> archive now old reason (ao_actor opts) (ao_reason_text opts) st
                 | _ \<Rightarrow> st);
          st2 = (if rd_write d then
                   let st' = put_row row st1
                   in if e2_billable_units e \<noteq> None \<or> existing \<noteq> None
                      then replace_billable_units e st' else st'
                 else st1);
          st3 = (if rd_conflict d \<and> has_dq then
                   st2\<lparr>lb_dq := dq_record_safe ''sequence_conflict''
                       (e2_provider e @ ''/'' @ e2_event_id e) (dt_instant (e2_ts_started e))
                       (Some (conflict_detail row existing)) None (lb_dq st2)\<rparr>
                 else st2)
      in (rd_outcome d, st3))"

end
