(* ===== verification/Revision_Laws.thy ===== *)
theory Revision_Laws
  imports Revisions
begin

text \<open>
  What the revision engine promises: the decision is a maximum by rank (the locale \<open>ranked_policy\<close>,
  which both conflict modes interpret), the ledger keeps its keys, replays change nothing, every
  superseded state is archived, and only an authorised correction replaces a final state.
\<close>

section \<open>Policies that keep a maximum\<close>

definition settle_step :: "('s \<Rightarrow> 's \<Rightarrow> bool) \<Rightarrow> 's option \<Rightarrow> 's \<Rightarrow> 's option" where
  "settle_step writes a x = (case a of None \<Rightarrow> Some x | Some y \<Rightarrow> if writes x y then Some x else Some y)"

definition settle :: "('s \<Rightarrow> 's \<Rightarrow> bool) \<Rightarrow> 's option \<Rightarrow> 's list \<Rightarrow> 's option" where
  "settle writes a xs = foldl (settle_step writes) a xs"

locale ranked_policy =
  fixes writes :: "'s \<Rightarrow> 's \<Rightarrow> bool" and rank :: "'s \<Rightarrow> 'r::linorder" and ok :: "'s set \<Rightarrow> bool"
  assumes writes_iff: "ok S \<Longrightarrow> x \<in> S \<Longrightarrow> y \<in> S \<Longrightarrow> writes x y \<longleftrightarrow> rank y < rank x"
    and rank_inj: "ok S \<Longrightarrow> inj_on rank S"
begin

lemma settle_max_from:
  "ok S \<Longrightarrow> insert b (set xs) \<subseteq> S \<Longrightarrow> settle writes (Some b) xs = Some (max_from rank b xs)"
proof (induction xs arbitrary: b)
  case (Cons x xs)
  have "writes x b \<longleftrightarrow> rank b < rank x" using Cons.prems by (intro writes_iff [of S]) auto
  with Cons show ?case by (simp add: settle_def settle_step_def)
qed (simp add: settle_def)

lemma settle_max: "ok S \<Longrightarrow> set xs \<subseteq> S \<Longrightarrow> settle writes None xs = max_by rank xs"
  using settle_max_from by (cases xs) (simp_all add: settle_def settle_step_def max_by_def)

lemma settle_order:
  assumes "ok S" and "set xs = S" and "set ys = S"
  shows "settle writes None xs = settle writes None ys"
proof -
  have "max_by rank xs = max_by rank ys"
    by (rule max_by_perm) (use assms rank_inj in auto)
  then show ?thesis using assms by (simp add: settle_max [of S])
qed

lemma settle_idem:
  assumes "ok S" and "set xs \<subseteq> S" and "x \<in> set xs"
  shows "settle writes None (xs @ [x]) = settle writes None xs"
proof (cases "settle writes None xs")
  case None
  then have "xs = []" using settle_max [OF assms(1,2)] by simp
  with assms(3) show ?thesis by simp
next
  case (Some m)
  then have m: "max_by rank xs = Some m" using settle_max [OF assms(1,2)] by simp
  have "rank x \<le> rank m" using max_by_ge [OF m assms(3)] .
  moreover have "m \<in> S" "x \<in> S" using max_by_in [OF m] assms(2,3) by auto
  ultimately have "\<not> writes x m" using writes_iff [OF assms(1)] by fastforce
  with Some show ?thesis by (simp add: settle_def settle_step_def)
qed

end

definition revision_writes :: "'fp event_state \<Rightarrow> 'fp event_state \<Rightarrow> bool" where
  "revision_writes inc ex = rd_write (resolve inc (Some ex) REVISION False)"

definition revision_rank :: "'fp event_state \<Rightarrow> int \<times> int" where
  "revision_rank s = (if es_finality s = ''final'' then (1, 0) else (0, es_sequence s))"

text \<open>States of one event that do not contradict each other: one final, one snapshot per sequence.\<close>

definition revision_consistent :: "'fp event_state set \<Rightarrow> bool" where
  "revision_consistent S \<longleftrightarrow> inj_on es_fingerprint S \<and> inj_on revision_rank S"

definition keep_max_writes :: "'fp event_state \<Rightarrow> 'fp event_state \<Rightarrow> bool" where
  "keep_max_writes inc ex = rd_write (resolve inc (Some ex) KEEP_MAX False)"

definition keep_max_consistent :: "'fp event_state set \<Rightarrow> bool" where
  "keep_max_consistent S \<longleftrightarrow> inj_on es_fingerprint S \<and> inj_on es_output_tokens S"

lemmas resolve_defs = resolve_def resolve_over_final_def resolve_over_snapshot_def
  resolve_keep_max_def decision_def

interpretation revision: ranked_policy revision_writes revision_rank revision_consistent
proof
  fix S :: "'a event_state set" and x y
  assume S: "revision_consistent S" and x: "x \<in> S" and y: "y \<in> S"
  have fp: "es_fingerprint x = es_fingerprint y \<Longrightarrow> x = y"
    and rk: "revision_rank x = revision_rank y \<Longrightarrow> x = y"
    using S x y by (auto simp: revision_consistent_def inj_on_def)
  show "revision_writes x y \<longleftrightarrow> revision_rank y < revision_rank x"
  proof (cases "x = y")
    case True
    then show ?thesis by (simp add: revision_writes_def resolve_defs)
  next
    case False
    then have "es_fingerprint x \<noteq> es_fingerprint y" and "revision_rank x \<noteq> revision_rank y"
      using fp rk by blast+
    then show ?thesis
      by (auto simp: revision_writes_def resolve_defs revision_rank_def split: if_splits)
  qed
qed (simp add: revision_consistent_def)

interpretation keep_max: ranked_policy keep_max_writes es_output_tokens keep_max_consistent
proof
  fix S :: "'a event_state set" and x y
  assume S: "keep_max_consistent S" and x: "x \<in> S" and y: "y \<in> S"
  have fp: "es_fingerprint x = es_fingerprint y \<Longrightarrow> x = y"
    and rk: "es_output_tokens x = es_output_tokens y \<Longrightarrow> x = y"
    using S x y by (auto simp: keep_max_consistent_def inj_on_def)
  show "keep_max_writes x y \<longleftrightarrow> es_output_tokens y < es_output_tokens x"
  proof (cases "x = y")
    case True
    then show ?thesis by (simp add: keep_max_writes_def resolve_defs)
  next
    case False
    then have "es_fingerprint x \<noteq> es_fingerprint y" and "es_output_tokens x \<noteq> es_output_tokens y"
      using fp rk by blast+
    then show ?thesis by (auto simp: keep_max_writes_def resolve_defs)
  qed
qed (simp add: keep_max_consistent_def)

section \<open>The decision matrix\<close>

text \<open>
  C8. The decision is the abstract ranking. A state ranks above another if it is final and the other is not, or if both
  are snapshots and its sequence number is larger. In revision mode, against a stored state with another fingerprint:
  the incoming state is written exactly if it ranks above the stored one, or both are final and the correction flag
  is set; it is a silent duplicate exactly if it ranks below; and it is a rejected conflict otherwise, when the two
  rank alike. An equal fingerprint is a duplicate. In keep-max mode it is written exactly if it has no fewer
  output tokens, and is a duplicate otherwise. A first state is accepted. What is written over a state in revision mode
  is archived, as a correction just when one final replaces another, and nothing else is.
\<close>

theorem resolve_coherent:
  "(let d = resolve inc existing mode correction in
     (rd_write d \<longleftrightarrow> rd_outcome d \<in> {ACCEPTED, UPDATED, CORRECTED})
     \<and> (rd_conflict d \<longleftrightarrow> rd_outcome d = REJECTED)
     \<and> (rd_outcome d = ACCEPTED \<longleftrightarrow> existing = None)
     \<and> (rd_archive_reason d \<noteq> None \<longleftrightarrow> mode = REVISION \<and> rd_outcome d \<in> {UPDATED, CORRECTED})
     \<and> (rd_outcome d = CORRECTED \<longleftrightarrow> rd_archive_reason d = Some CORRECTION)
     \<and> (\<forall>ex. existing = Some ex \<longrightarrow>
          (let both_final = (es_finality inc = ''final'' \<and> es_finality ex = ''final'') in
           if mode = KEEP_MAX then
             rd_outcome d = (if es_fingerprint inc \<noteq> es_fingerprint ex \<and> es_output_tokens ex \<le> es_output_tokens inc
               then UPDATED else DUPLICATE)
           else if es_fingerprint inc = es_fingerprint ex then rd_outcome d = DUPLICATE
           else (rd_outcome d = UPDATED \<longleftrightarrow> revision_rank ex < revision_rank inc)
             \<and> (rd_outcome d = CORRECTED \<longleftrightarrow> both_final \<and> correction)
             \<and> (rd_outcome d = DUPLICATE \<longleftrightarrow> revision_rank inc < revision_rank ex)
             \<and> (rd_outcome d = REJECTED \<longleftrightarrow> revision_rank inc = revision_rank ex \<and> \<not> (both_final \<and> correction)))))"
proof -
  have "mode = REVISION \<or> mode = KEEP_MAX" by (cases mode) simp_all
  then show ?thesis
    by (cases existing) (auto simp: resolve_defs revision_rank_def Let_def split: if_splits)
qed

theorem resolve_coherent_witness:
  "(let d = resolve \<lparr>es_finality = ''snapshot'', es_sequence = 3, es_output_tokens = 5, es_fingerprint = ''b''\<rparr>
       (Some \<lparr>es_finality = ''snapshot'', es_sequence = 4, es_output_tokens = 2, es_fingerprint = ''a''\<rparr>)
       REVISION True
    in rd_outcome d = DUPLICATE \<and> \<not> rd_write d)"
  using resolve_coherent [of "\<lparr>es_finality = ''snapshot'', es_sequence = 3, es_output_tokens = 5, es_fingerprint = ''b''\<rparr>"
       "Some \<lparr>es_finality = ''snapshot'', es_sequence = 4, es_output_tokens = 2, es_fingerprint = ''a''\<rparr>"
       REVISION True]
  by (simp add: Let_def revision_rank_def)

section \<open>Rows of the ledger\<close>

lemma row_key_of_event [simp]: "row_key (usage_event_v2_row e src cost) = event_key e"
  by (simp add: row_key_def event_key_def usage_event_v2_row_def)

lemma active_row_find: "active_row st k = find (\<lambda>r. row_key r = k) (lb_events st)"
proof -
  have "(case filter P xs of [] \<Rightarrow> None | r # _ \<Rightarrow> Some r) = find P xs" for P :: "ledger_row \<Rightarrow> bool" and xs
    by (induction xs) auto
  then show ?thesis by (simp add: active_row_def)
qed

lemma find_replace:
  "find (\<lambda>r. f r = k) (map (\<lambda>r. if f r = f row then row else r) xs) =
     (if k = f row then (if find (\<lambda>r. f r = k) xs = None then None else Some row)
      else find (\<lambda>r. f r = k) xs)"
  by (induction xs) auto

lemma find_snoc: "find P (xs @ [x]) = (case find P xs of None \<Rightarrow> if P x then Some x else None | Some y \<Rightarrow> Some y)"
  by (induction xs) auto

lemma active_row_put: "active_row (put_row row st) k = (if k = row_key row then Some row else active_row st k)"
proof (cases "active_row st (row_key row)")
  case None
  then show ?thesis
    by (auto simp: put_row_def active_row_find find_snoc split: option.split)
next
  case (Some old)
  then show ?thesis by (auto simp: put_row_def active_row_find find_replace)
qed

lemma active_row_None_iff: "active_row st k = None \<longleftrightarrow> k \<notin> row_key ` set (lb_events st)"
  by (auto simp: active_row_find find_None_iff)

lemma map_replace_key: "map f (map (\<lambda>r. if f r = f row then row else r) xs) = map f xs"
  by (induction xs) auto

lemma keys_put:
  "map row_key (lb_events (put_row row st)) = map row_key (lb_events st)
     @ (if active_row st (row_key row) = None then [row_key row] else [])"
  by (cases "active_row st (row_key row)") (simp_all add: put_row_def map_replace_key del: map_map)

lemma put_row_frame [simp]:
  "lb_revisions (put_row row st) = lb_revisions st" "lb_units (put_row row st) = lb_units st"
  "lb_dq (put_row row st) = lb_dq st"
  by (simp_all add: put_row_def split: option.split)

lemma archive_frame [simp]:
  "lb_events (archive now r reason actor txt st) = lb_events st"
  "lb_units (archive now r reason actor txt st) = lb_units st"
  "lb_dq (archive now r reason actor txt st) = lb_dq st"
  "active_row (archive now r reason actor txt st) k = active_row st k"
  by (simp_all add: archive_def active_row_def)

lemma replace_units_frame [simp]:
  "lb_events (replace_billable_units e st) = lb_events st"
  "lb_revisions (replace_billable_units e st) = lb_revisions st"
  "lb_dq (replace_billable_units e st) = lb_dq st"
  "active_row (replace_billable_units e st) k = active_row st k"
  by (simp_all add: replace_billable_units_def active_row_def)

definition event_decision :: "apply_options \<Rightarrow> usage_event_v2 \<Rightarrow> ledger \<Rightarrow> revision_decision" where
  "event_decision opts e st =
     resolve (event_state_of (usage_event_v2_row e (ao_source_id opts) (ao_cost opts)))
       (map_option event_state_of (active_row st (event_key e))) (ao_mode opts) (ao_correction opts)"

lemma apply_outcome [simp]: "fst (apply_event has_dq now opts e st) = rd_outcome (event_decision opts e st)"
  by (simp add: apply_event_def event_decision_def Let_def)

lemma apply_events: "lb_events (snd (apply_event has_dq now opts e st)) =
    (if rd_write (event_decision opts e st)
     then lb_events (put_row (usage_event_v2_row e (ao_source_id opts) (ao_cost opts)) st) else lb_events st)"
  by (auto simp: apply_event_def event_decision_def Let_def put_row_def split: option.split)

lemma apply_active: "active_row (snd (apply_event has_dq now opts e st)) k =
    (if k = event_key e \<and> rd_write (event_decision opts e st)
     then Some (usage_event_v2_row e (ao_source_id opts) (ao_cost opts)) else active_row st k)"
proof -
  have "active_row (snd (apply_event has_dq now opts e st)) k = active_row
      (if rd_write (event_decision opts e st)
       then put_row (usage_event_v2_row e (ao_source_id opts) (ao_cost opts)) st else st) k"
    unfolding active_row_def using apply_events [of has_dq now opts e st] by simp
  then show ?thesis by (simp add: active_row_put)
qed

lemma apply_revisions: "lb_revisions (snd (apply_event has_dq now opts e st)) = lb_revisions
    (case (rd_archive_reason (event_decision opts e st), active_row st (event_key e)) of
       (Some reason, Some old) \<Rightarrow> archive now old reason (ao_actor opts) (ao_reason_text opts) st
     | _ \<Rightarrow> st)"
  by (auto simp: apply_event_def event_decision_def Let_def split: option.split)

lemma apply_units: "lb_units (snd (apply_event has_dq now opts e st)) =
    (if rd_write (event_decision opts e st)
        \<and> (e2_billable_units e \<noteq> None \<or> active_row st (event_key e) \<noteq> None)
     then lb_units (replace_billable_units e st) else lb_units st)"
  by (auto simp: apply_event_def event_decision_def Let_def replace_billable_units_def split: option.split)

lemma apply_dq: "lb_dq (snd (apply_event has_dq now opts e st)) =
    (if rd_conflict (event_decision opts e st) \<and> has_dq
     then dq_record_safe ''sequence_conflict'' (e2_provider e @ ''/'' @ e2_event_id e)
       (dt_instant (e2_ts_started e))
       (Some (conflict_detail (usage_event_v2_row e (ao_source_id opts) (ao_cost opts)) (active_row st (event_key e))))
       None (lb_dq st)
     else lb_dq st)"
  by (auto simp: apply_event_def event_decision_def Let_def split: option.split)

lemmas apply_simps = apply_outcome apply_events apply_active apply_revisions apply_units apply_dq

end
