(* ===== verification/Ledger_Props.thy ===== *)
theory Ledger_Props
  imports Revision_Laws
begin

text \<open>
  The properties of the event ledger (\<open>services/revisions.py\<close>), proved over the engine lemmas and the
  policy interpretations of \<open>Revision_Laws\<close>.
\<close>

section \<open>Keys and units\<close>

definition ledger_inv :: "ledger \<Rightarrow> bool" where
  "ledger_inv st \<longleftrightarrow> distinct (map row_key (lb_events st))
     \<and> unit_key ` set (lb_units st) \<subseteq> row_key ` set (lb_events st)
     \<and> (\<lambda>r. (rv_provider r, rv_event_id r)) ` set (lb_revisions st) \<subseteq> row_key ` set (lb_events st)"

lemma keys_apply: "row_key ` set (lb_events (snd (apply_event has_dq now opts e st))) =
    row_key ` set (lb_events st) \<union> (if rd_write (event_decision opts e st) then {event_key e} else {})"
proof -
  have "row_key ` set (lb_events (put_row row st)) = insert (row_key row) (row_key ` set (lb_events st))" for row
  proof -
    have "row_key ` set (lb_events (put_row row st)) = set (map row_key (lb_events (put_row row st)))" by simp
    also have "\<dots> = insert (row_key row) (row_key ` set (lb_events st))"
      unfolding keys_put using active_row_None_iff [of st "row_key row"] by auto
    finally show ?thesis .
  qed
  then show ?thesis by (simp add: apply_events)
qed

lemma distinct_keys_apply:
  assumes "distinct (map row_key (lb_events st))"
  shows "distinct (map row_key (lb_events (snd (apply_event has_dq now opts e st))))"
proof -
  have "distinct (map row_key (lb_events (put_row row st)))" for row
    unfolding keys_put using assms active_row_None_iff [of st "row_key row"] by simp
  with assms show ?thesis by (simp add: apply_events)
qed

lemma unit_key_units_of: "u \<in> set (units_of e) \<Longrightarrow> unit_key u = event_key e"
  by (auto simp: units_of_def unit_key_def event_key_def split: option.splits)

lemma active_row_key: "active_row st k = Some r \<Longrightarrow> row_key r = k \<and> r \<in> set (lb_events st)"
  by (auto simp: active_row_find find_Some_iff)

lemma ledger_inv_apply:
  assumes "ledger_inv st"
  shows "ledger_inv (snd (apply_event has_dq now opts e st))"
proof -
  let ?st = "snd (apply_event has_dq now opts e st)"
  have keys: "row_key ` set (lb_events st) \<subseteq> row_key ` set (lb_events ?st)"
    by (auto simp: keys_apply)
  have u: "unit_key ` set (lb_units st) \<subseteq> row_key ` set (lb_events st)"
    and r: "(\<lambda>r. (rv_provider r, rv_event_id r)) ` set (lb_revisions st) \<subseteq> row_key ` set (lb_events st)"
    and d: "distinct (map row_key (lb_events st))"
    using assms by (simp_all add: ledger_inv_def)
  have "unit_key ` set (lb_units ?st) \<subseteq> row_key ` set (lb_events ?st)"
  proof
    fix k assume "k \<in> unit_key ` set (lb_units ?st)"
    then obtain b where b: "b \<in> set (lb_units ?st)" and k: "k = unit_key b" by blast
    show "k \<in> row_key ` set (lb_events ?st)"
    proof (cases "b \<in> set (lb_units st)")
      case True
      then show ?thesis using k u keys by blast
    next
      case False
      with b have "rd_write (event_decision opts e st)" and "b \<in> set (units_of e)"
        by (auto simp: apply_units replace_billable_units_def split: if_splits)
      then show ?thesis by (simp add: k keys_apply unit_key_units_of)
    qed
  qed
  moreover have "(\<lambda>r. (rv_provider r, rv_event_id r)) ` set (lb_revisions ?st) \<subseteq> row_key ` set (lb_events ?st)"
  proof
    fix k assume "k \<in> (\<lambda>r. (rv_provider r, rv_event_id r)) ` set (lb_revisions ?st)"
    then obtain b where b: "b \<in> set (lb_revisions ?st)" and k: "k = (rv_provider b, rv_event_id b)" by blast
    show "k \<in> row_key ` set (lb_events ?st)"
    proof (cases "b \<in> set (lb_revisions st)")
      case True
      then show ?thesis using k r keys by blast
    next
      case False
      with b obtain old where "active_row st (event_key e) = Some old" and "k = row_key old"
        by (auto simp: k apply_revisions archive_def row_key_def split: option.splits)
      with active_row_key [of st "event_key e" old] keys show ?thesis by blast
    qed
  qed
  ultimately show ?thesis using distinct_keys_apply [OF d] by (simp add: ledger_inv_def)
qed

text \<open>
  C6. Applying any event in any mode keeps the ledger well formed: one active row per (provider, event
  id), and billable units and revisions only of events that exist. The hypothesis is the invariant
  itself, before.
\<close>

theorem apply_event_ledger_inv:
  assumes "ledger_inv st"
  shows "ledger_inv (snd (apply_event has_dq now opts e st))"
  using assms by (rule ledger_inv_apply)

definition empty_ledger :: ledger where
  "empty_ledger = \<lparr>lb_events = [], lb_revisions = [], lb_units = [],
     lb_dq = \<lparr>dq_rows = [], dq_next = 1, dq_window = 3600000000\<rparr>\<rparr>"

lemma empty_ledger_inv: "ledger_inv empty_ledger"
  by (simp add: ledger_inv_def empty_ledger_def)

definition sample_event :: "finality \<Rightarrow> int \<Rightarrow> int \<Rightarrow> usage_event_v2" where
  "sample_event fin seqn out = \<lparr>e2_schema_version = 2, e2_event_id = ''e1'', e2_event_kind = Attempt,
     e2_finality = fin, e2_sequence = seqn, e2_logical_request_id = None, e2_attempt_id = None,
     e2_provider_request_id = None, e2_provider_response_id = None, e2_provider = ''openai'',
     e2_native_model = ''gpt-5'', e2_requested_model = None, e2_routed_model = None,
     e2_ts_started = as_utc_dt 0, e2_ts_first_token = None, e2_ts_completed = None, e2_machine = None,
     e2_project = None, e2_session_id = None, e2_agent_id = None, e2_environment = None,
     e2_input_tokens = 10, e2_output_tokens = out, e2_cache_read_tokens = 0,
     e2_cache_write_short_tokens = 0, e2_cache_write_long_tokens = 0, e2_reasoning_tokens = 0,
     e2_success = True, e2_outcome = None, e2_http_status = None, e2_stop_reason = None,
     e2_service_tier = None, e2_streaming = None, e2_latency_ms = None,
     e2_time_to_first_token_ms = None, e2_tool_call_count = 0, e2_tool_histogram = None,
     e2_provenance = LOCAL_ESTIMATE,
     e2_source = \<lparr>sr_type = Gateway_Source, sr_name = ''gw'', sr_version = ''1'', sr_instance_id = None\<rparr>,
     e2_routing = None, e2_dimensions = [], e2_billable_units = None, e2_observed_cost = None,
     e2_extra = [], e2_trace_id = None, e2_span_id = None, e2_parent_span_id = None\<rparr>"

lemma sample_event_simps [simp]:
  "event_key (sample_event fin seqn out) = (''openai'', ''e1'')"
  "e2_billable_units (sample_event fin seqn out) = None"
  "e2_observed_cost (sample_event fin seqn out) = None"
  "lg_finality (usage_event_v2_row (sample_event fin seqn out) src cost) = finality_str fin"
  "lg_sequence (usage_event_v2_row (sample_event fin seqn out) src cost) = seqn"
  "lg_output_tokens (usage_event_v2_row (sample_event fin seqn out) src cost) = out"
  by (simp_all add: sample_event_def event_key_def usage_event_v2_row_def)

lemma active_empty [simp]: "active_row empty_ledger k = None"
  by (simp add: active_row_def empty_ledger_def)

lemma accepted_on_empty [simp]:
  "active_row st (event_key e) = None \<Longrightarrow> event_decision opts e st = decision ACCEPTED True"
  by (simp add: event_decision_def resolve_def)

theorem apply_event_ledger_inv_witness:
  "ledger_inv (snd (apply_event True 0 default_options (sample_event Final 0 5) empty_ledger))
   \<and> row_key ` set (lb_events (snd (apply_event True 0 default_options (sample_event Final 0 5) empty_ledger)))
     = {(''openai'', ''e1'')}"
  using apply_event_ledger_inv [OF empty_ledger_inv, of True 0 default_options "sample_event Final 0 5"]
  by (simp add: keys_apply decision_def) (simp add: empty_ledger_def)

text \<open>
  When an event is written, its billable units replace those of the superseded state as a whole;
  when it is not, and for every other event always, the stored units stay. The hypothesis is the
  ledger invariant.
\<close>

theorem apply_event_units:
  assumes "ledger_inv st"
  shows "filter (\<lambda>u. unit_key u = k) (lb_units (snd (apply_event has_dq now opts e st))) =
    (if k = event_key e \<and> rd_write (event_decision opts e st) then units_of e
     else filter (\<lambda>u. unit_key u = k) (lb_units st))"
proof -
  have own: "filter (\<lambda>u. unit_key u = event_key e) (units_of e) = units_of e"
    by (simp add: filter_id_conv unit_key_units_of)
  have other: "filter (\<lambda>u. unit_key u = k) (units_of e) = []" if "k \<noteq> event_key e"
    using that unit_key_units_of by (auto simp: filter_empty_conv)
  have none: "filter (\<lambda>u. unit_key u = event_key e) (lb_units st) = []"
    if "active_row st (event_key e) = None"
  proof -
    have "event_key e \<notin> unit_key ` set (lb_units st)"
      using that assms unfolding active_row_None_iff ledger_inv_def by blast
    then show ?thesis unfolding filter_empty_conv by (metis imageI)
  qed
  have keep: "filter (\<lambda>u. unit_key u = k \<and> unit_key u \<noteq> event_key e) (lb_units st)
      = filter (\<lambda>u. unit_key u = k) (lb_units st)" if "k \<noteq> event_key e"
    using that by (intro filter_cong) auto
  show ?thesis
  proof (cases "k = event_key e")
    case True
    show ?thesis
      using own none by (auto simp: True apply_units replace_billable_units_def units_of_def
          filter_empty_conv split: option.splits)
  next
    case False
    then show ?thesis
      using other keep by (simp add: apply_units replace_billable_units_def conj_commute)
  qed
qed

theorem apply_event_units_witness:
  "filter (\<lambda>u. unit_key u = (''openai'', ''e1''))
     (lb_units (snd (apply_event True 0 default_options
        ((sample_event Final 0 5)\<lparr>e2_billable_units := Some [(''tool_call'', 2)]\<rparr>) empty_ledger)))
   = [\<lparr>bu_provider = ''openai'', bu_event_id = ''e1'', bu_unit_type = ''tool_call'', bu_quantity = 2\<rparr>]"
  using apply_event_units [OF empty_ledger_inv, of "(''openai'', ''e1'')" True 0 default_options
      "(sample_event Final 0 5)\<lparr>e2_billable_units := Some [(''tool_call'', 2)]\<rparr>"]
  by (simp add: decision_def event_key_def sample_event_def units_of_def)

section \<open>History\<close>

definition event_history :: "ledger \<Rightarrow> string \<times> string \<Rightarrow> ledger_row list" where
  "event_history st k =
     map rv_previous (filter (\<lambda>r. (rv_provider r, rv_event_id r) = k) (lb_revisions st))
     @ (case active_row st k of None \<Rightarrow> [] | Some r \<Rightarrow> [r])"

lemma archive_reason_write:
  assumes "ao_mode opts = REVISION" and "active_row st (event_key e) = Some old"
  shows "rd_archive_reason (event_decision opts e st) \<noteq> None \<longleftrightarrow> rd_write (event_decision opts e st)"
  using assms by (auto simp: event_decision_def resolve_defs)

lemma keep_max_write:
  assumes "ao_mode opts = KEEP_MAX" and "active_row st (event_key e) = Some row"
    and "rd_write (event_decision opts e st)"
  shows "lg_output_tokens row \<le> lg_output_tokens (usage_event_v2_row e (ao_source_id opts) (ao_cost opts))"
  using assms
  by (simp add: event_decision_def event_state_of_def resolve_def resolve_keep_max_def decision_def split: if_splits)

lemma keep_max_no_archive:
  "ao_mode opts = KEEP_MAX \<Longrightarrow> rd_archive_reason (event_decision opts e st) = None"
  by (simp add: event_decision_def resolve_def resolve_keep_max_def decision_def split: option.split)



section \<open>Replays\<close>

lemma replay_decision:
  assumes "active_row st (event_key e) = Some row"
    and "row_fingerprint row = row_fingerprint (usage_event_v2_row e (ao_source_id opts) (ao_cost opts))"
  shows "event_decision opts e st = decision DUPLICATE False"
  using assms by (simp add: event_decision_def resolve_def resolve_keep_max_def event_state_of_def)

lemma duplicate_no_effect:
  assumes "event_decision opts e st = decision DUPLICATE False"
  shows "apply_event has_dq now opts e st = (DUPLICATE, st)"
  using assms by (simp add: apply_event_def event_decision_def Let_def decision_def split: option.splits)

lemma replay_noop:
  assumes "rd_write (event_decision opts e st)"
    and "ao_source_id opts' = ao_source_id opts" and "ao_cost opts' = ao_cost opts"
  shows "apply_event has_dq' now' opts' e (snd (apply_event has_dq now opts e st))
    = (DUPLICATE, snd (apply_event has_dq now opts e st))"
proof (rule duplicate_no_effect, rule replay_decision)
  show "active_row (snd (apply_event has_dq now opts e st)) (event_key e)
      = Some (usage_event_v2_row e (ao_source_id opts) (ao_cost opts))"
    using assms(1) by (simp add: apply_active)
qed (simp add: assms(2,3))

text \<open>
  Ingest is idempotent within a transaction: an event that was written and arrives again, in any
  mode, with or without the correction flag and from any actor, is a duplicate and changes nothing at
  all. The hypotheses: it was written, and the second call carries the same source and cost.
\<close>

theorem apply_event_replay:
  assumes "rd_write (event_decision opts e st)"
    and "ao_source_id opts' = ao_source_id opts" and "ao_cost opts' = ao_cost opts"
  shows "apply_event has_dq' now' opts' e (snd (apply_event has_dq now opts e st))
    = (DUPLICATE, snd (apply_event has_dq now opts e st))"
  using assms by (rule replay_noop)

theorem apply_event_replay_witness:
  "apply_event True 9 default_options (sample_event Final 0 5)
     (snd (apply_event True 0 default_options (sample_event Final 0 5) empty_ledger))
   = (DUPLICATE, snd (apply_event True 0 default_options (sample_event Final 0 5) empty_ledger))"
  by (rule apply_event_replay) (simp_all add: decision_def)

lemma reload_plain:
  "reload (usage_event_v2_row e src None) = usage_event_v2_row e src None"
  if "map_option numeric_column (e2_observed_cost e) = e2_observed_cost e"
  using that by (simp add: reload_def usage_event_v2_row_def)

lemma active_row_commit: "active_row (commit_ledger st) k = map_option reload (active_row st k)"
proof -
  have "row_key (reload r) = row_key r" for r by (simp add: reload_def row_key_def)
  then have "find (\<lambda>r. row_key r = k) (map reload rows) = map_option reload (find (\<lambda>r. row_key r = k) rows)"
    for rows by (induction rows) auto
  then show ?thesis by (simp add: active_row_find commit_ledger_def)
qed

text \<open>
  The same holds across transactions for an event without an observed cost: once committed, its
  replay is a duplicate that changes nothing. The hypotheses: it was written, it carries no decimal
  column, and the second call has the same source.
\<close>

theorem apply_event_replay_committed:
  assumes "rd_write (event_decision opts e st)" and "e2_observed_cost e = None"
    and "ao_cost opts = None" and "ao_cost opts' = None" and "ao_source_id opts' = ao_source_id opts"
  shows "apply_event has_dq' now' opts' e (commit_ledger (snd (apply_event has_dq now opts e st)))
    = (DUPLICATE, commit_ledger (snd (apply_event has_dq now opts e st)))"
proof (rule duplicate_no_effect, rule replay_decision)
  show "active_row (commit_ledger (snd (apply_event has_dq now opts e st))) (event_key e)
      = Some (usage_event_v2_row e (ao_source_id opts) (ao_cost opts))"
    using assms(1,2,3) by (simp add: active_row_commit apply_active reload_plain)
qed (simp add: assms)

theorem apply_event_replay_committed_witness:
  "fst (apply_event True 9 default_options (sample_event Final 0 5)
     (commit_ledger (snd (apply_event True 0 default_options (sample_event Final 0 5) empty_ledger))))
   = DUPLICATE"
  using apply_event_replay_committed [of default_options "sample_event Final 0 5" empty_ledger
      default_options True 9 True 0]
  by (simp add: decision_def default_options_def)

text \<open>
  With an observed cost it does not hold: the decimal comes back from the database with ten
  decimals, its text differs from the incoming one, and the identical replay of a committed final event
  is rejected as a sequence conflict.
\<close>

theorem observed_cost_replay_rejected:
  "let e = (sample_event Final 0 5)\<lparr>e2_observed_cost := Some (Dec 12 (- 3))\<rparr>;
       st = snd (apply_event True 0 default_options e empty_ledger)
   in fst (apply_event True 0 default_options e empty_ledger) = ACCEPTED
    \<and> fst (apply_event True 9 default_options e st) = DUPLICATE
    \<and> fst (apply_event True 9 default_options e (commit_ledger st)) = REJECTED"
proof -
  let ?e = "(sample_event Final 0 5)\<lparr>e2_observed_cost := Some (Dec 12 (- 3))\<rparr>"
  let ?row = "usage_event_v2_row ?e None None"
  let ?st = "snd (apply_event True 0 default_options ?e empty_ledger)"
  have k: "event_key ?e = (''openai'', ''e1'')" by (simp add: event_key_def sample_event_def)
  have o: "ao_source_id default_options = None" "ao_cost default_options = None"
    "ao_mode default_options = REVISION" "\<not> ao_correction default_options"
    by (simp_all add: default_options_def)
  have w: "rd_write (event_decision default_options ?e empty_ledger)" by (simp add: decision_def)
  have a: "active_row (commit_ledger ?st) (event_key ?e) = Some (reload ?row)"
    using w by (simp add: active_row_commit apply_active o)
  have n: "numeric_column (Dec 12 (- 3)) = Dec 120000000 (- 10)" by code_simp
  have ne: "row_fingerprint (reload ?row) \<noteq> row_fingerprint ?row"
  proof
    assume "row_fingerprint (reload ?row) = row_fingerprint ?row"
    then have "lg_observed_cost (row_fingerprint (reload ?row)) = lg_observed_cost (row_fingerprint ?row)"
      by (rule arg_cong)
    then show False by (simp add: row_fingerprint_def reload_def usage_event_v2_row_def sample_event_def n del: numeric_column.simps)
  qed
  have f: "lg_finality ?row = ''final''" "lg_finality (reload ?row) = ''final''"
    by (simp_all add: usage_event_v2_row_def sample_event_def reload_def)
  have "event_decision default_options ?e (commit_ledger ?st) = (decision REJECTED False)\<lparr>rd_conflict := True\<rparr>"
    using ne f by (simp add: event_decision_def a o resolve_def resolve_over_final_def event_state_of_def)
  then have "fst (apply_event True 9 default_options ?e (commit_ledger ?st)) = REJECTED"
    by (simp add: decision_def)
  moreover have "fst (apply_event True 9 default_options ?e ?st) = DUPLICATE"
    using replay_noop [OF w, of default_options True 9 True 0] by simp
  ultimately show ?thesis using w by (simp add: Let_def decision_def)
qed

text \<open>
  The fingerprint does not cover billable units: an event that differs from the active state only
  in its billable units is a duplicate, and its units are dropped. The hypothesis is that the first
  state was written.
\<close>

theorem changed_units_dropped:
  assumes "rd_write (event_decision opts e st)"
  shows "apply_event has_dq now' opts (e\<lparr>e2_billable_units := units\<rparr>) (snd (apply_event has_dq now opts e st))
    = (DUPLICATE, snd (apply_event has_dq now opts e st))"
proof (rule duplicate_no_effect, rule replay_decision)
  have "event_key (e\<lparr>e2_billable_units := units\<rparr>) = event_key e" by (simp add: event_key_def)
  then show "active_row (snd (apply_event has_dq now opts e st)) (event_key (e\<lparr>e2_billable_units := units\<rparr>))
      = Some (usage_event_v2_row e (ao_source_id opts) (ao_cost opts))"
    using assms by (simp add: apply_active)
qed (simp add: usage_event_v2_row_def)

theorem changed_units_dropped_witness:
  "lb_units (snd (apply_event True 1 default_options
      ((sample_event Final 0 5)\<lparr>e2_billable_units := Some [(''tool_call'', 2)]\<rparr>)
      (snd (apply_event True 0 default_options (sample_event Final 0 5) empty_ledger)))) = []"
  using changed_units_dropped [of default_options "sample_event Final 0 5" empty_ledger True 1
      "Some [(''tool_call'', 2)]" 0]
  by (simp add: decision_def apply_units) (simp add: empty_ledger_def)

section \<open>Order of arrival\<close>

definition apply_all :: "bool \<Rightarrow> int \<Rightarrow> apply_options \<Rightarrow> usage_event_v2 list \<Rightarrow> ledger \<Rightarrow> ledger" where
  "apply_all has_dq now opts es st = foldl (\<lambda>st e. snd (apply_event has_dq now opts e st)) st es"

definition incoming_state :: "apply_options \<Rightarrow> usage_event_v2 \<Rightarrow> ledger_row event_state" where
  "incoming_state opts e = event_state_of (usage_event_v2_row e (ao_source_id opts) (ao_cost opts))"

lemma inj_fingerprint_states: "inj_on es_fingerprint (event_state_of ` R)"
proof (rule inj_onI)
  fix x y assume "x \<in> event_state_of ` R" and "y \<in> event_state_of ` R"
  then obtain r q where x: "x = event_state_of r" and y: "y = event_state_of q" by blast
  assume "es_fingerprint x = es_fingerprint y"
  then have f: "row_fingerprint r = row_fingerprint q" by (simp add: x y event_state_of_def)
  have "lg_finality (row_fingerprint r) = lg_finality (row_fingerprint q)"
    "lg_sequence (row_fingerprint r) = lg_sequence (row_fingerprint q)"
    "lg_output_tokens (row_fingerprint r) = lg_output_tokens (row_fingerprint q)"
    using f by simp_all
  then have "lg_finality r = lg_finality q" "lg_sequence r = lg_sequence q"
    "lg_output_tokens r = lg_output_tokens q"
    by (simp_all add: row_fingerprint_def)
  with f show "x = y" by (simp add: x y event_state_of_def)
qed

lemma apply_all_settles:
  assumes "\<forall>e \<in> set es. event_key e = k" and "ao_mode opts = REVISION" and "\<not> ao_correction opts"
  shows "map_option event_state_of (active_row (apply_all has_dq now opts es st) k) =
    settle revision_writes (map_option event_state_of (active_row st k)) (map (incoming_state opts) es)"
  using assms
proof (induction es arbitrary: st)
  case (Cons e es)
  let ?st = "snd (apply_event has_dq now opts e st)"
  have "map_option event_state_of (active_row ?st k)
      = settle_step revision_writes (map_option event_state_of (active_row st k)) (incoming_state opts e)"
    using Cons.prems
    by (cases "active_row st k")
      (auto simp: apply_active settle_step_def revision_writes_def event_decision_def incoming_state_def
        resolve_def decision_def)
  moreover have "map_option event_state_of (active_row (apply_all has_dq now opts es ?st) k) =
    settle revision_writes (map_option event_state_of (active_row ?st k)) (map (incoming_state opts) es)"
    by (rule Cons.IH) (use Cons.prems in auto)
  ultimately show ?case by (simp add: apply_all_def settle_def)
qed (simp add: apply_all_def settle_def)


lemma sample_incoming: "incoming_state default_options (sample_event fin seqn out) =
    \<lparr>es_finality = finality_str fin, es_sequence = seqn, es_output_tokens = out,
     es_fingerprint = row_fingerprint (usage_event_v2_row (sample_event fin seqn out) None None)\<rparr>"
  by (simp add: incoming_state_def event_state_of_def default_options_def)


section \<open>Finals and keep-max\<close>

lemma event_state_simps [simp]:
  "es_finality (event_state_of r) = lg_finality r" "es_sequence (event_state_of r) = lg_sequence r"
  "es_output_tokens (event_state_of r) = lg_output_tokens r"
  "es_fingerprint (event_state_of r) = row_fingerprint r"
  by (simp_all add: event_state_of_def)

lemma final_not_written:
  assumes "active_row st (event_key e) = Some row" and "lg_finality row = ''final''"
    and "ao_mode opts = REVISION" and "\<not> ao_correction opts"
  shows "\<not> rd_write (event_decision opts e st)"
  using assms by (simp add: event_decision_def resolve_def resolve_over_final_def decision_def)

text \<open>
  A final state is stable: in revision mode without the correction flag no delivery of any kind
  changes the active row of an event that is final. The hypotheses say just that.
\<close>

theorem final_is_stable:
  assumes "active_row st k = Some row" and "lg_finality row = ''final''"
    and "ao_mode opts = REVISION" and "\<not> ao_correction opts"
  shows "active_row (apply_all has_dq now opts es st) k = Some row"
  using assms
proof (induction es arbitrary: st)
  case (Cons e es)
  have "active_row (snd (apply_event has_dq now opts e st)) k = Some row"
    using Cons.prems final_not_written [of st e row opts] by (auto simp: apply_active)
  from Cons.IH [OF this Cons.prems(2-4)] show ?case by (simp add: apply_all_def)
qed (simp add: apply_all_def)

theorem final_is_stable_witness:
  "active_row (apply_all True 0 default_options [sample_event Snapshot 9 7, sample_event Final 1 8]
     (snd (apply_event True 0 default_options (sample_event Final 0 5) empty_ledger))) (''openai'', ''e1'')
   = Some (usage_event_v2_row (sample_event Final 0 5) None None)"
  by (rule final_is_stable) (simp_all add: apply_active decision_def default_options_def)

text \<open>
  The keep-max mode of v1 traffic: the output tokens of an active row never decrease under any
  sequence of deliveries, and nothing is archived. The hypotheses: keep-max mode, and an active row.
\<close>

theorem keep_max_monotone:
  assumes "ao_mode opts = KEEP_MAX" and "active_row st k = Some row"
  shows "\<exists>row'. active_row (apply_all has_dq now opts es st) k = Some row'
      \<and> lg_output_tokens row \<le> lg_output_tokens row'
    \<and> lb_revisions (apply_all has_dq now opts es st) = lb_revisions st"
  using assms
proof (induction es arbitrary: st row)
  case (Cons e es)
  let ?st = "snd (apply_event has_dq now opts e st)"
  note r = keep_max_no_archive [OF Cons.prems(1), of e st]
  obtain row1 where row1: "active_row ?st k = Some row1" and le: "lg_output_tokens row \<le> lg_output_tokens row1"
  proof (cases "k = event_key e \<and> rd_write (event_decision opts e st)")
    case True
    then show thesis
      using that keep_max_write [OF Cons.prems(1)] Cons.prems(2) by (simp add: apply_active)
  next
    case False
    then have "active_row ?st k = active_row st k" by (auto simp: apply_active)
    with Cons.prems(2) that [of row] show thesis by simp
  qed
  from Cons.IH [OF Cons.prems(1) row1] le show ?case by (auto simp: apply_all_def apply_revisions r)
qed (simp add: apply_all_def)

theorem keep_max_monotone_witness:
  "\<exists>row'. active_row (apply_all True 0 (default_options\<lparr>ao_mode := KEEP_MAX\<rparr>) [sample_event Final 0 3, sample_event Final 0 8]
     (snd (apply_event True 0 default_options (sample_event Final 0 5) empty_ledger))) (''openai'', ''e1'') = Some row'
   \<and> 5 \<le> lg_output_tokens row'"
proof -
  have a: "active_row (snd (apply_event True 0 default_options (sample_event Final 0 5) empty_ledger)) (''openai'', ''e1'')
      = Some (usage_event_v2_row (sample_event Final 0 5) None None)"
    by (simp add: apply_active decision_def default_options_def)
  have m: "ao_mode (default_options\<lparr>ao_mode := KEEP_MAX\<rparr>) = KEEP_MAX" by simp
  show ?thesis
    using keep_max_monotone [OF m a, of True 0 "[sample_event Final 0 3, sample_event Final 0 8]"] by auto
qed

end
