(* ===== verification/Cost_Engine.thy ===== *)
theory Cost_Engine
  imports Rate_Card_Import Sources Revisions
begin

text \<open>
  The v2 cost path of the server: billing-mode resolution (\<open>services/billing_mode.py\<close>), the record of
  computed costs (\<open>services/computed_costs.py\<close>), the provider-neutral engine (\<open>services/cost_v2.py\<close>) and
  the worker that prices what has no cost yet (\<open>services/cost_worker.py\<close>). The engine reads rates
  through a function from unit types, which may fail; the database reader never does. The tables are
  the pricing tables extended with the ledger, the sources and the computed costs.
\<close>

section \<open>Billing mode\<close>

definition API_BILLED :: string where "API_BILLED = ''api_billed''"
definition SUBSCRIPTION :: string where "SUBSCRIPTION = ''subscription''"

definition resolve_billing_mode :: "string option \<Rightarrow> string option \<Rightarrow> (string, string) dict \<Rightarrow> string" where
  "resolve_billing_mode source_mode machine overrides =
     (case source_mode of
        Some m \<Rightarrow> if m \<noteq> API_BILLED then m
          else (case Option.bind machine (dget overrides) of Some o' \<Rightarrow> o' | None \<Rightarrow> m)
      | None \<Rightarrow> (case Option.bind machine (dget overrides) of Some o' \<Rightarrow> o' | None \<Rightarrow> API_BILLED))"

section \<open>Computed costs\<close>

record computed_cost =
  cc_provider :: string
  cc_event_id :: string
  cc_pricing_version :: string
  cc_cost_status :: string
  cc_amount :: "decimal option"
  cc_currency :: string
  cc_billing_mode :: string
  cc_subscription_equivalent_amount :: "decimal option"
  cc_missing_units :: "string list option"
  cc_observed_cost :: "pydecimal option"
  cc_calculated_at :: int
  cc_active :: bool

datatype 'e cost_error =
    InvalidStatus string
  | MultipleRows
  | NoStrategy registry_error
  | ResolverFailed 'e

definition COST_STATUSES :: "string list" where
  "COST_STATUSES = [''priced'', ''unpriced'', ''partial'', ''estimated'', ''error'']"

definition cost_key :: "computed_cost \<Rightarrow> string \<times> string" where
  "cost_key c = (cc_provider c, cc_event_id c)"

definition deactivate :: "string \<times> string \<Rightarrow> computed_cost list \<Rightarrow> computed_cost list" where
  "deactivate k costs = map (\<lambda>c. if cost_key c = k \<and> cc_active c then c\<lparr>cc_active := False\<rparr> else c) costs"

definition record_cost :: "computed_cost \<Rightarrow> computed_cost list \<Rightarrow> 'e cost_error + computed_cost list" where
  "record_cost new costs =
     (if cc_cost_status new \<notin> set COST_STATUSES then Inl (InvalidStatus (cc_cost_status new))
      else
        let costs = deactivate (cost_key new) costs;
            same = (\<lambda>c. cost_key c = cost_key new \<and> cc_pricing_version c = cc_pricing_version new)
        in case filter same costs of
             [] \<Rightarrow> Inr (costs @ [new\<lparr>cc_active := True\<rparr>])
           | [_] \<Rightarrow> Inr (map (\<lambda>c. if same c then new\<lparr>cc_active := True\<rparr> else c) costs)
           | _ \<Rightarrow> Inl MultipleRows)"

definition active_cost :: "string \<times> string \<Rightarrow> computed_cost list \<Rightarrow> 'e cost_error + computed_cost option" where
  "active_cost k costs =
     (case filter (\<lambda>c. cost_key c = k \<and> cc_active c) costs of
        [] \<Rightarrow> Inr None | [c] \<Rightarrow> Inr (Some c) | _ \<Rightarrow> Inl MultipleRows)"

section \<open>The engine\<close>

record cost_result =
  cr_amount :: "decimal option"
  cr_cost_status :: string
  cr_missing_units :: "string list"

record price_inputs =
  pi_provider :: string
  pi_native_model :: string
  pi_at :: py_datetime
  pi_service_tier :: "string option"
  pi_token_counts :: "(string, int) dict"
  pi_reasoning_tokens :: int
  pi_billable_units :: "(string, rat) dict"
  pi_source_id :: "int option"
  pi_machine :: "string option"

type_synonym plain_registry = "(unit, unit) provider_registry"

type_synonym 'e unit_rates = "string \<Rightarrow> 'e + resolved_rate option"

definition cost_quantities ::
  "plain_registry \<Rightarrow> 'e unit_rates \<Rightarrow> price_inputs \<Rightarrow> 'e cost_error + (string, decimal) dict" where
  "cost_quantities reg rates inp =
     (case pricing_v2 reg (pi_provider inp) of
        Inl e \<Rightarrow> Inl (NoStrategy e)
      | Inr s \<Rightarrow>
          if needs_reasoning_rate s (pi_reasoning_tokens inp)
          then (case rates ''reasoning_token'' of
                  Inl e \<Rightarrow> Inl (ResolverFailed e)
                | Inr r \<Rightarrow> Inr (strategy_quantities s (pi_token_counts inp) (pi_reasoning_tokens inp)
                             (pi_billable_units inp) (r \<noteq> None)))
          else Inr (strategy_quantities s (pi_token_counts inp) (pi_reasoning_tokens inp)
                 (pi_billable_units inp) False))"

text \<open>The loop over the consumed units: running total, missing units, whether any unit was priced.\<close>

fun price_units ::
  "'e unit_rates \<Rightarrow> (string, decimal) dict \<Rightarrow> decimal \<Rightarrow> string list \<Rightarrow> bool
   \<Rightarrow> 'e + decimal \<times> string list \<times> bool" where
  "price_units rates [] acc missing priced_any = Inr (acc, missing, priced_any)"
| "price_units rates ((unit_type, quantity) # rest) acc missing priced_any =
     (case rates unit_type of
        Inl e \<Rightarrow> Inl e
      | Inr None \<Rightarrow> price_units rates rest acc (missing @ [unit_type]) priced_any
      | Inr (Some r) \<Rightarrow> price_units rates rest (acc + rs_unit_price r * quantity) missing True)"

definition mk_result :: "decimal option \<Rightarrow> string \<Rightarrow> string list \<Rightarrow> cost_result" where
  "mk_result amount status missing =
     \<lparr>cr_amount = amount, cr_cost_status = status, cr_missing_units = missing\<rparr>"

definition zero_consumption_result :: "'e unit_rates \<Rightarrow> cost_result" where
  "zero_consumption_result rates =
     (case rates ''input_token'' of
        Inl _ \<Rightarrow> mk_result None ''error'' []
      | Inr None \<Rightarrow> mk_result None ''unpriced'' []
      | Inr (Some _) \<Rightarrow> mk_result (Some (quantize6 0)) ''priced'' [])"

definition compute_cost ::
  "plain_registry \<Rightarrow> 'e unit_rates \<Rightarrow> price_inputs \<Rightarrow> 'e cost_error + cost_result" where
  "compute_cost reg rates inp =
     (case cost_quantities reg rates inp of
        Inl e \<Rightarrow> Inl e
      | Inr quantities \<Rightarrow>
          let consumed = filter (\<lambda>(u, q). q > 0) quantities
          in Inr (if consumed = [] then zero_consumption_result rates
               else case price_units rates consumed 0 [] False of
                   Inl _ \<Rightarrow> mk_result None ''error'' []
                 | Inr (acc, missing, priced_any) \<Rightarrow>
                     if \<not> priced_any then mk_result None ''unpriced'' missing
                     else if missing \<noteq> [] then mk_result (Some (quantize6 acc)) ''partial'' missing
                     else mk_result (Some (quantize6 acc)) ''priced'' []))"

section \<open>Recording the cost of an event\<close>

record cost_db = pricing_db +
  cd_ledger :: ledger
  cd_costs :: "computed_cost list"
  cd_sources :: source_table

record cost_config =
  cf_registry :: plain_registry
  cf_overrides :: "(string, string) dict"

definition db_rates :: "'z cost_db_scheme \<Rightarrow> price_inputs \<Rightarrow> 'e unit_rates" where
  "db_rates db inp unit_type = Inr (resolve_rate (db_cards db) (pi_provider inp) (pi_native_model inp)
     unit_type (AtTime (pi_at inp)) (pi_service_tier inp) ''realtime'' None)"

definition source_billing_mode :: "'z cost_db_scheme \<Rightarrow> int option \<Rightarrow> string option" where
  "source_billing_mode db source_id =
     (case source_id of None \<Rightarrow> None
      | Some i \<Rightarrow> map_of (map (\<lambda>r. (so_id r, so_billing_mode r)) (st_rows (cd_sources db))) i)"

definition cost_row ::
  "string \<times> string \<Rightarrow> string \<Rightarrow> string \<Rightarrow> pydecimal option \<Rightarrow> int \<Rightarrow> cost_result \<Rightarrow> computed_cost" where
  "cost_row k version mode observed now res =
     \<lparr>cc_provider = fst k, cc_event_id = snd k, cc_pricing_version = version,
      cc_cost_status = cr_cost_status res,
      cc_amount = (if mode = SUBSCRIPTION then None else cr_amount res),
      cc_currency = ''USD'', cc_billing_mode = mode,
      cc_subscription_equivalent_amount = (if mode = SUBSCRIPTION then cr_amount res else None),
      cc_missing_units = (if cr_missing_units res = [] then None else Some (cr_missing_units res)),
      cc_observed_cost = observed, cc_calculated_at = now, cc_active = True\<rparr>"

definition record_inputs ::
  "cost_config \<Rightarrow> (price_inputs \<Rightarrow> 'e unit_rates) \<Rightarrow> int \<Rightarrow> string \<times> string \<Rightarrow> price_inputs
   \<Rightarrow> string option \<Rightarrow> pydecimal option \<Rightarrow> 'z cost_db_scheme \<Rightarrow> 'e cost_error + computed_cost \<times> 'z cost_db_scheme" where
  "record_inputs cfg rates now k inp pricing_version observed db =
     (let version = (case pricing_version of Some v \<Rightarrow> v | None \<Rightarrow> current_pricing_version db)
      in case compute_cost (cf_registry cfg) (rates inp) inp of
           Inl e \<Rightarrow> Inl e
         | Inr res \<Rightarrow>
             let mode = resolve_billing_mode (source_billing_mode db (pi_source_id inp)) (pi_machine inp)
                          (cf_overrides cfg);
                 row = cost_row k version mode observed now res
             in (case record_cost row (cd_costs db) of
                   Inl e \<Rightarrow> Inl e
                 | Inr costs \<Rightarrow> Inr (row, db\<lparr>cd_costs := costs\<rparr>)))"

definition wire_inputs :: "usage_event_v2 \<Rightarrow> price_inputs" where
  "wire_inputs e = \<lparr>pi_provider = e2_provider e, pi_native_model = e2_native_model e,
     pi_at = e2_ts_started e, pi_service_tier = e2_service_tier e,
     pi_token_counts = [(''input_token'', e2_input_tokens e), (''output_token'', e2_output_tokens e),
       (''cache_read_token'', e2_cache_read_tokens e),
       (''cache_write_short_token'', e2_cache_write_short_tokens e),
       (''cache_write_long_token'', e2_cache_write_long_tokens e)],
     pi_reasoning_tokens = e2_reasoning_tokens e,
     pi_billable_units = (case e2_billable_units e of None \<Rightarrow> [] | Some u \<Rightarrow> u),
     pi_source_id = None, pi_machine = e2_machine e\<rparr>"

definition row_inputs :: "ledger_row \<Rightarrow> (string, rat) dict \<Rightarrow> price_inputs" where
  "row_inputs r billable_units = \<lparr>pi_provider = lg_provider r, pi_native_model = lg_native_model r,
     pi_at = as_utc_dt (lg_ts_started r), pi_service_tier = lg_service_tier r,
     pi_token_counts = [(''input_token'', lg_input_tokens r), (''output_token'', lg_output_tokens r),
       (''cache_read_token'', lg_cache_read_tokens r),
       (''cache_write_short_token'', lg_cache_write_short_tokens r),
       (''cache_write_long_token'', lg_cache_write_long_tokens r)],
     pi_reasoning_tokens = lg_reasoning_tokens r, pi_billable_units = billable_units,
     pi_source_id = lg_source_id r, pi_machine = lg_machine r\<rparr>"

definition is_final_attempt :: "ledger_row \<Rightarrow> bool" where
  "is_final_attempt r \<longleftrightarrow> lg_event_kind r = ''attempt'' \<and> lg_finality r = ''final''"

definition compute_and_record ::
  "cost_config \<Rightarrow> (price_inputs \<Rightarrow> 'e unit_rates) \<Rightarrow> int \<Rightarrow> usage_event_v2 \<Rightarrow> string option \<Rightarrow> 'z cost_db_scheme
   \<Rightarrow> 'e cost_error + computed_cost option \<times> 'z cost_db_scheme" where
  "compute_and_record cfg rates now e pricing_version db =
     (if e2_event_kind e \<noteq> Attempt \<or> e2_finality e \<noteq> Final then Inr (None, db)
      else case record_inputs cfg rates now (e2_provider e, e2_event_id e) (wire_inputs e) pricing_version
             (e2_observed_cost e) db of
          Inl err \<Rightarrow> Inl err | Inr (row, db') \<Rightarrow> Inr (Some row, db'))"

definition compute_and_record_row ::
  "cost_config \<Rightarrow> (price_inputs \<Rightarrow> 'e unit_rates) \<Rightarrow> int \<Rightarrow> ledger_row \<Rightarrow> (string, rat) dict \<Rightarrow> string option
   \<Rightarrow> 'z cost_db_scheme \<Rightarrow> 'e cost_error + computed_cost option \<times> 'z cost_db_scheme" where
  "compute_and_record_row cfg rates now r billable_units pricing_version db =
     (if \<not> is_final_attempt r then Inr (None, db)
      else case record_inputs cfg rates now (row_key r) (row_inputs r billable_units) pricing_version
             (lg_observed_cost r) db of
          Inl err \<Rightarrow> Inl err | Inr (row, db') \<Rightarrow> Inr (Some row, db'))"

section \<open>The worker\<close>

definition billable_units_for :: "'z cost_db_scheme \<Rightarrow> string \<times> string \<Rightarrow> (string, rat) dict" where
  "billable_units_for db k =
     foldl (\<lambda>d u. dset (bu_unit_type u) (bu_quantity u) d) []
       (filter (\<lambda>u. unit_key u = k) (lb_units (cd_ledger db)))"

definition has_active_cost :: "computed_cost list \<Rightarrow> string \<times> string \<Rightarrow> bool" where
  "has_active_cost costs k \<longleftrightarrow> (\<exists>c \<in> set costs. cost_key c = k \<and> cc_active c)"

definition uncosted :: "'z cost_db_scheme \<Rightarrow> ledger_row list" where
  "uncosted db = filter (\<lambda>r. is_final_attempt r \<and> \<not> has_active_cost (cd_costs db) (row_key r))
     (lb_events (cd_ledger db))"

fun record_rows ::
  "cost_config \<Rightarrow> int \<Rightarrow> string \<Rightarrow> ledger_row list \<Rightarrow> 'z cost_db_scheme \<Rightarrow> unit cost_error + 'z cost_db_scheme" where
  "record_rows cfg now version [] db = Inr db"
| "record_rows cfg now version (r # rows) db =
     (case compute_and_record_row cfg (db_rates db) now r (billable_units_for db (row_key r)) (Some version) db of
        Inl e \<Rightarrow> Inl e
      | Inr (_, db') \<Rightarrow> record_rows cfg now version rows db')"

definition worker_config :: "(string, string) dict \<Rightarrow> cost_config" where
  "worker_config overrides = \<lparr>cf_registry = default_v2_pricing_registry, cf_overrides = overrides\<rparr>"

definition sweep_uncosted_costs ::
  "nat \<Rightarrow> (string, string) dict \<Rightarrow> int \<Rightarrow> 'z cost_db_scheme \<Rightarrow> unit cost_error + nat \<times> 'z cost_db_scheme" where
  "sweep_uncosted_costs batch_size overrides now db =
     (let rows = take batch_size (uncosted db)
      in if rows = [] then Inr (0, db)
         else case record_rows (worker_config overrides) now (current_pricing_version db) rows db of
             Inl e \<Rightarrow> Inl e
           | Inr db' \<Rightarrow> Inr (length rows, db'))"

end
