(* ===== verification/Cost_Props.thy ===== *)
theory Cost_Props
  imports Cost_Engine Ledger_Props
begin

text \<open>
  What the cost path promises: the status of a computed cost says exactly how much of the consumption
  was priced, one active cost per event, the worker drains its backlog, and costs of the past do not
  move when prices are imported (through the locale \<open>rate_book\<close>, interpreted on the rate cards).
\<close>

section \<open>The status of a cost\<close>

lemma price_units_spec:
  "price_units (\<lambda>u. Inr (f u)) cs t m p =
     Inr (t + (\<Sum>(u, q) \<leftarrow> cs. case f u of None \<Rightarrow> 0 | Some r \<Rightarrow> rs_unit_price r * q),
          m @ map fst (filter (\<lambda>(u, q). f u = None) cs),
          p \<or> (\<exists>(u, q) \<in> set cs. f u \<noteq> None))"
proof (induction cs arbitrary: t m p)
  case (Cons c cs)
  obtain u q where c: "c = (u, q)" by (cases c)
  show ?case by (cases "f u") (auto simp: c Cons.IH algebra_simps)
qed simp

text \<open>
  C13. The status trichotomy: when the resolver answers, a consuming event is \<open>priced\<close> if and only if
  every consumed unit has a rate, \<open>unpriced\<close> with no amount if and only if none has, and \<open>partial\<close>
  otherwise; the missing units are exactly the consumed units without a rate, and the amount is the
  exact sum of price times quantity over the rated units, rounded to micro-units of currency. The
  hypotheses: the quantities of the event, some of them positive.
\<close>

theorem compute_cost_status:
  assumes "cost_quantities reg rates inp = Inr quantities" and "rates = (\<lambda>u. Inr (f u))"
    and "consumed = filter (\<lambda>(u, q). q > 0) quantities" and "consumed \<noteq> []"
  shows "\<exists>res. compute_cost reg rates inp = Inr res
    \<and> cr_missing_units res = map fst (filter (\<lambda>(u, q). f u = None) consumed)
    \<and> cr_cost_status res =
        (if \<forall>(u, q) \<in> set consumed. f u = None then ''unpriced''
         else if \<forall>(u, q) \<in> set consumed. f u \<noteq> None then ''priced'' else ''partial'')
    \<and> (case cr_amount res of
        None \<Rightarrow> cr_cost_status res = ''unpriced''
      | Some a \<Rightarrow> cr_cost_status res \<noteq> ''unpriced''
          \<and> \<bar>a - (\<Sum>(u, q) \<leftarrow> consumed. case f u of None \<Rightarrow> 0 | Some r \<Rightarrow> rs_unit_price r * q)\<bar> \<le> 1 / 2000000)"
proof -
  let ?miss = "map fst (filter (\<lambda>(u, q). f u = None) consumed)"
  let ?sum = "\<Sum>(u, q) \<leftarrow> consumed. case f u of None \<Rightarrow> 0 | Some r \<Rightarrow> rs_unit_price r * q"
  have none: "(\<exists>(u, q) \<in> set consumed. f u \<noteq> None) \<longleftrightarrow> \<not> (\<forall>(u, q) \<in> set consumed. f u = None)"
    by (simp add: split_beta)
  have all: "?miss = [] \<longleftrightarrow> (\<forall>(u, q) \<in> set consumed. f u \<noteq> None)"
    by (simp add: filter_empty_conv split_beta)
  have err: "\<bar>quantize6 ?sum - ?sum\<bar> \<le> 1 / 2000000" by (rule quantize6_error)
  let ?res = "if \<forall>(u, q) \<in> set consumed. f u = None then mk_result None ''unpriced'' ?miss
      else if ?miss \<noteq> [] then mk_result (Some (quantize6 ?sum)) ''partial'' ?miss
      else mk_result (Some (quantize6 ?sum)) ''priced'' []"
  have c: "compute_cost reg rates inp = Inr ?res"
    unfolding compute_cost_def assms(1) sum.case Let_def assms(3) [symmetric] if_not_P [OF assms(4)]
    unfolding assms(2) price_units_spec sum.case prod.case append_Nil add_0 simp_thms none not_not
    by (rule TrueI)
  consider "\<forall>(u, q) \<in> set consumed. f u = None"
    | "\<not> (\<forall>(u, q) \<in> set consumed. f u = None)" "?miss \<noteq> []"
    | "\<not> (\<forall>(u, q) \<in> set consumed. f u = None)" "?miss = []" by blast
  then show ?thesis
  proof cases
    case 1
    from c have r: "compute_cost reg rates inp = Inr (mk_result None ''unpriced'' ?miss)"
      unfolding if_P [OF 1] .
    show ?thesis unfolding r if_P [OF 1] by (simp add: mk_result_def)
  next
    case 2
    then have n: "\<not> (\<forall>(u, q) \<in> set consumed. f u \<noteq> None)" using all by blast
    from c have r: "compute_cost reg rates inp = Inr (mk_result (Some (quantize6 ?sum)) ''partial'' ?miss)"
      unfolding if_not_P [OF 2(1)] if_P [OF 2(2)] .
    show ?thesis unfolding r if_not_P [OF 2(1)] if_not_P [OF n] using err by (simp add: mk_result_def)
  next
    case 3
    then have n: "\<forall>(u, q) \<in> set consumed. f u \<noteq> None" using all by blast
    have m: "\<not> ?miss \<noteq> []" using 3(2) by simp
    from c have r: "compute_cost reg rates inp = Inr (mk_result (Some (quantize6 ?sum)) ''priced'' [])"
      unfolding if_not_P [OF 3(1)] if_not_P [OF m] .
    show ?thesis unfolding r if_not_P [OF 3(1)] if_P [OF n] 3(2) using err by (simp add: mk_result_def)
  qed
qed

definition half_rated :: "string \<Rightarrow> resolved_rate option" where
  "half_rated u = (if u = ''input_token''
     then Some \<lparr>rs_unit_price = 2 / 1000, rs_rate_card_id = 1, rs_currency = ''USD'', rs_source = ''litellm''\<rparr> else None)"

definition sample_inputs :: price_inputs where
  "sample_inputs = \<lparr>pi_provider = ''anthropic'', pi_native_model = ''m'', pi_at = as_utc_dt 0,
     pi_service_tier = None, pi_token_counts = [(''input_token'', 10), (''output_token'', 5)],
     pi_reasoning_tokens = 0, pi_billable_units = [], pi_source_id = None, pi_machine = None\<rparr>"

theorem compute_cost_status_witness:
  "\<exists>res. compute_cost default_v2_pricing_registry (\<lambda>u. Inr (half_rated u) :: unit + resolved_rate option) sample_inputs = Inr res
     \<and> cr_cost_status res = ''partial'' \<and> cr_missing_units res = [''output_token'']"
proof -
  have q: "cost_quantities default_v2_pricing_registry (\<lambda>u. Inr (half_rated u) :: unit + resolved_rate option) sample_inputs
      = Inr [(''input_token'', 10), (''output_token'', 5)]"
    by (simp add: cost_quantities_def default_registry_eval sample_inputs_def needs_reasoning_rate_def
        strategy_quantities_def emitted_quantities_def add_billable_def strategy_defs)
  have c: "[(''input_token'', 10), (''output_token'', 5)]
      = filter (\<lambda>(u, q). q > 0) [(''input_token'', 10::rat), (''output_token'', 5)]" by simp
  show ?thesis
    using compute_cost_status [OF q refl c] by (auto simp: half_rated_def)
qed

text \<open>
  A failing resolver gives the \<open>error\<close> status, never an exception, except that the look-up of the
  reasoning rate is outside the guarded part: for a provider that may bill reasoning separately, an
  event with reasoning tokens makes the failure escape to the caller.
\<close>

theorem resolver_failure_escapes:
  "compute_cost default_v2_pricing_registry (\<lambda>_. Inl exc) inp =
     (if 0 < pi_reasoning_tokens inp \<and> pi_provider inp \<noteq> ''anthropic''
      then Inl (ResolverFailed exc) else Inr (mk_result None ''error'' []))"
proof -
  have p: "price_units (\<lambda>_. Inl exc) (c # cs) 0 [] False = Inl exc" for c :: "string \<times> decimal" and cs
    by (cases c) simp
  have q: "(if consumed = [] then zero_consumption_result (\<lambda>_. Inl exc)
      else case price_units (\<lambda>_. Inl exc) consumed 0 [] False of
          Inl _ \<Rightarrow> mk_result None ''error'' []
        | Inr (acc, missing, priced_any) \<Rightarrow>
            if \<not> priced_any then mk_result None ''unpriced'' missing
            else if missing \<noteq> [] then mk_result (Some (quantize6 acc)) ''partial'' missing
            else mk_result (Some (quantize6 acc)) ''priced'' []) = mk_result None ''error'' []"
    for consumed :: "(string, decimal) dict"
    by (cases consumed) (simp_all add: p zero_consumption_result_def)
  show ?thesis
    by (simp add: compute_cost_def cost_quantities_def default_registry_eval needs_reasoning_rate_def
        Let_def q) (simp add: strategy_defs)
qed

section \<open>One active cost\<close>

definition cost_inv :: "computed_cost list \<Rightarrow> bool" where
  "cost_inv costs \<longleftrightarrow> distinct (map (\<lambda>c. (cost_key c, cc_pricing_version c)) costs)
     \<and> distinct (map cost_key (filter cc_active costs))"

lemma deactivate_keys:
  "map (\<lambda>c. (cost_key c, cc_pricing_version c)) (deactivate k costs) = map (\<lambda>c. (cost_key c, cc_pricing_version c)) costs"
  by (induction costs) (auto simp: deactivate_def cost_key_def)

lemma deactivate_active:
  "filter cc_active (deactivate k costs) = filter (\<lambda>c. cc_active c \<and> cost_key c \<noteq> k) costs"
  by (induction costs) (auto simp: deactivate_def)

lemma deactivate_other:
  "j \<noteq> k \<Longrightarrow> filter (\<lambda>c. cost_key c = j) (deactivate k costs) = filter (\<lambda>c. cost_key c = j) costs"
  by (induction costs) (auto simp: deactivate_def cost_key_def)

lemma distinct_map_split:
  "distinct (map f (filter (\<lambda>x. f x \<noteq> k) xs)) \<Longrightarrow> length (filter (\<lambda>x. f x = k) xs) \<le> 1 \<Longrightarrow> distinct (map f xs)"
proof (induction xs)
  case (Cons x xs)
  show ?case
  proof (cases "f x = k")
    case True
    with Cons.prems(2) have none: "filter (\<lambda>y. f y = k) xs = []" by simp
    then have "\<forall>y \<in> set xs. f y \<noteq> k" by (simp add: filter_empty_conv)
    then have "filter (\<lambda>y. f y \<noteq> k) xs = xs" by (simp add: filter_id_conv)
    with Cons True none show ?thesis by (auto simp: filter_empty_conv)
  next
    case False
    then have "f x \<notin> set (map f xs)" using Cons.prems(1) by auto
    with Cons False show ?thesis by simp
  qed
qed simp

definition same_cost :: "computed_cost \<Rightarrow> computed_cost \<Rightarrow> bool" where
  "same_cost new c \<longleftrightarrow> cost_key c = cost_key new \<and> cc_pricing_version c = cc_pricing_version new"

definition put_cost :: "computed_cost \<Rightarrow> computed_cost list \<Rightarrow> computed_cost list" where
  "put_cost new costs = (if filter (same_cost new) costs = [] then costs @ [new\<lparr>cc_active := True\<rparr>]
     else map (\<lambda>c. if same_cost new c then new\<lparr>cc_active := True\<rparr> else c) costs)"

lemma activated_simps [simp]:
  "cost_key (new\<lparr>cc_active := b\<rparr>) = cost_key new" "cc_active (new\<lparr>cc_active := b\<rparr>) = b"
  "cc_pricing_version (new\<lparr>cc_active := b\<rparr>) = cc_pricing_version new"
  by (simp_all add: cost_key_def)

lemma same_single:
  assumes "distinct (map (\<lambda>c. (cost_key c, cc_pricing_version c)) costs)"
  shows "filter (same_cost new) costs = [] \<or> (\<exists>x. filter (same_cost new) costs = [x])"
proof -
  have "same_cost new = (\<lambda>c. (cost_key c, cc_pricing_version c) = (cost_key new, cc_pricing_version new))"
    by (auto simp: same_cost_def)
  then show ?thesis
    using filter_distinct_key [OF assms, of "(cost_key new, cc_pricing_version new)"] by auto
qed

lemma record_cost_put:
  assumes "distinct (map (\<lambda>c. (cost_key c, cc_pricing_version c)) costs)"
    and "cc_cost_status new \<in> set COST_STATUSES"
  shows "record_cost new costs = Inr (put_cost new (deactivate (cost_key new) costs))"
proof -
  have "distinct (map (\<lambda>c. (cost_key c, cc_pricing_version c)) (deactivate (cost_key new) costs))"
    using assms(1) by (simp only: deactivate_keys)
  from same_single [OF this, of new] assms(2) show ?thesis
    by (auto simp: record_cost_def Let_def put_cost_def same_cost_def [abs_def])
qed

lemma put_cost_active:
  assumes "\<forall>c \<in> set costs. cost_key c = cost_key new \<longrightarrow> \<not> cc_active c"
    and "distinct (map (\<lambda>c. (cost_key c, cc_pricing_version c)) costs)"
  shows "filter (\<lambda>c. cost_key c = cost_key new \<and> cc_active c) (put_cost new costs) = [new\<lparr>cc_active := True\<rparr>]"
proof (cases "filter (same_cost new) costs = []")
  case True
  then show ?thesis using assms(1) by (auto simp: put_cost_def filter_empty_conv)
next
  case False
  then obtain x where "filter (same_cost new) costs = [x]" using same_single [OF assms(2)] by blast
  then have "filter (\<lambda>c. cost_key c = cost_key new \<and> cc_active c)
      (map (\<lambda>c. if same_cost new c then new\<lparr>cc_active := True\<rparr> else c) costs) = [new\<lparr>cc_active := True\<rparr>]"
    using assms(1)
  proof (induction costs)
    case (Cons c costs)
    show ?case
    proof (cases "same_cost new c")
      case True
      then have "filter (same_cost new) costs = []" using Cons.prems(1) by simp
      then have "map (\<lambda>c. if same_cost new c then new\<lparr>cc_active := True\<rparr> else c) costs = costs"
        by (induction costs) (auto split: if_splits)
      with True Cons.prems(2) show ?thesis by (auto simp: filter_empty_conv)
    next
      case False
      with Cons show ?thesis by auto
    qed
  qed simp
  with False show ?thesis by (simp add: put_cost_def)
qed

lemma put_cost_other:
  assumes "j \<noteq> cost_key new"
  shows "filter (\<lambda>c. cost_key c = j) (put_cost new costs) = filter (\<lambda>c. cost_key c = j) costs"
proof -
  have "filter (\<lambda>c. cost_key c = j) (map (\<lambda>c. if same_cost new c then new\<lparr>cc_active := True\<rparr> else c) costs)
      = filter (\<lambda>c. cost_key c = j) costs"
    using assms by (induction costs) (auto simp: same_cost_def)
  then show ?thesis using assms by (simp add: put_cost_def)
qed

lemma put_cost_versions:
  assumes "distinct (map (\<lambda>c. (cost_key c, cc_pricing_version c)) costs)"
  shows "distinct (map (\<lambda>c. (cost_key c, cc_pricing_version c)) (put_cost new costs))"
proof (cases "filter (same_cost new) costs = []")
  case True
  then have "(cost_key new, cc_pricing_version new) \<notin> (\<lambda>c. (cost_key c, cc_pricing_version c)) ` set costs"
    by (auto simp: filter_empty_conv same_cost_def)
  with True assms show ?thesis by (simp add: put_cost_def)
next
  case False
  have "map (\<lambda>c. (cost_key c, cc_pricing_version c))
      (map (\<lambda>c. if same_cost new c then new\<lparr>cc_active := True\<rparr> else c) costs)
      = map (\<lambda>c. (cost_key c, cc_pricing_version c)) costs"
    by (induction costs) (auto simp: same_cost_def)
  with False assms show ?thesis by (simp add: put_cost_def del: map_map)
qed

lemma record_cost_ok:
  assumes "cost_inv costs" and "cc_cost_status new \<in> set COST_STATUSES"
  shows "\<exists>costs'. record_cost new costs = Inr costs' \<and> cost_inv costs'
    \<and> active_cost (cost_key new) costs' = Inr (Some (new\<lparr>cc_active := True\<rparr>))
    \<and> (\<forall>j. j \<noteq> cost_key new \<longrightarrow> filter (\<lambda>c. cost_key c = j) costs' = filter (\<lambda>c. cost_key c = j) costs)"
proof -
  let ?D = "deactivate (cost_key new) costs"
  let ?C = "put_cost new ?D"
  have v: "distinct (map (\<lambda>c. (cost_key c, cc_pricing_version c)) costs)"
    and a: "distinct (map cost_key (filter cc_active costs))"
    using assms(1) by (simp_all add: cost_inv_def)
  have vD: "distinct (map (\<lambda>c. (cost_key c, cc_pricing_version c)) ?D)" using v by (simp only: deactivate_keys)
  have inactive: "\<forall>c \<in> set ?D. cost_key c = cost_key new \<longrightarrow> \<not> cc_active c"
  proof -
    have "\<forall>c \<in> set (filter cc_active ?D). cost_key c \<noteq> cost_key new" by (simp add: deactivate_active)
    then show ?thesis by auto
  qed
  have act: "filter (\<lambda>c. cost_key c = cost_key new \<and> cc_active c) ?C = [new\<lparr>cc_active := True\<rparr>]"
    by (rule put_cost_active [OF inactive vD])
  have other: "filter (\<lambda>c. cost_key c = j) ?C = filter (\<lambda>c. cost_key c = j) costs" if "j \<noteq> cost_key new" for j
    using that by (simp add: put_cost_other deactivate_other)
  have "distinct (map cost_key (filter cc_active ?C))"
  proof (rule distinct_map_split [where k = "cost_key new"])
    show "length (filter (\<lambda>c. cost_key c = cost_key new) (filter cc_active ?C)) \<le> 1"
      using act by (simp add: conj_commute)
    have "filter (\<lambda>c. cost_key c \<noteq> cost_key new \<and> cc_active c) ?C
        = filter (\<lambda>c. cost_key c \<noteq> cost_key new \<and> cc_active c) ?D"
    proof -
      have "filter (\<lambda>c. cost_key c \<noteq> cost_key new \<and> cc_active c)
          (map (\<lambda>c. if same_cost new c then new\<lparr>cc_active := True\<rparr> else c) xs)
          = filter (\<lambda>c. cost_key c \<noteq> cost_key new \<and> cc_active c) xs" for xs
        by (induction xs) (auto simp: same_cost_def)
      then show ?thesis by (simp add: put_cost_def)
    qed
    also have "\<dots> = filter (\<lambda>c. cost_key c \<noteq> cost_key new \<and> cc_active c) costs"
      by (induction costs) (auto simp: deactivate_def)
    finally show "distinct (map cost_key (filter (\<lambda>c. cost_key c \<noteq> cost_key new) (filter cc_active ?C)))"
      using distinct_map_filter [OF a, of "\<lambda>c. cost_key c \<noteq> cost_key new"] by (simp add: conj_commute)
  qed
  then have "cost_inv ?C" using put_cost_versions [OF vD] by (simp add: cost_inv_def)
  with act other record_cost_put [OF v assms(2)] show ?thesis
    by (intro exI [of _ ?C]) (simp add: active_cost_def)
qed

text \<open>
  Recording a cost keeps exactly one authoritative row per event: it never fails on a recognised
  status, the recorded row becomes the only active one of its event, the rows of every other event stay
  as they were, and there is still one row per (event, pricing version). The hypotheses: the invariant
  before, and a recognised status.
\<close>

theorem record_cost_one_active:
  assumes "cost_inv costs" and "cc_cost_status new \<in> set COST_STATUSES"
  shows "\<exists>costs'. record_cost new costs = Inr costs' \<and> cost_inv costs'
    \<and> active_cost (cost_key new) costs' = Inr (Some (new\<lparr>cc_active := True\<rparr>))
    \<and> (\<forall>j. j \<noteq> cost_key new \<longrightarrow> filter (\<lambda>c. cost_key c = j) costs' = filter (\<lambda>c. cost_key c = j) costs)"
  using assms by (rule record_cost_ok)

definition sample_cost :: computed_cost where
  "sample_cost = cost_row (''openai'', ''e1'') ''1'' API_BILLED None 0 (mk_result (Some 2) ''priced'' [])"

theorem record_cost_one_active_witness:
  "\<exists>costs'. record_cost (sample_cost\<lparr>cc_pricing_version := ''2'', cc_amount := Some 3\<rparr>) [sample_cost]
       = (Inr costs' :: unit cost_error + computed_cost list)
     \<and> length (filter cc_active costs') \<le> 1"
proof -
  let ?new = "sample_cost\<lparr>cc_pricing_version := ''2'', cc_amount := Some 3\<rparr>"
  have i: "cost_inv [sample_cost]" by (simp add: cost_inv_def sample_cost_def cost_row_def)
  have st: "cc_cost_status ?new \<in> set COST_STATUSES"
    by (simp add: sample_cost_def cost_row_def mk_result_def COST_STATUSES_def)
  obtain costs' where r: "record_cost ?new [sample_cost] = (Inr costs' :: unit cost_error + computed_cost list)"
    using record_cost_one_active [OF i st] by blast
  moreover have "length (filter cc_active costs') \<le> 1"
    using r by (auto simp: record_cost_def Let_def deactivate_def sample_cost_def cost_row_def cost_key_def
        mk_result_def COST_STATUSES_def)
  ultimately show ?thesis by blast
qed

section \<open>The worker drains its backlog\<close>

lemma compute_cost_known_status:
  assumes "compute_cost reg rates inp = Inr res"
  shows "cr_cost_status res \<in> set COST_STATUSES"
  using assms
  by (auto simp: compute_cost_def zero_consumption_result_def Let_def mk_result_def COST_STATUSES_def
      split: sum.splits option.splits if_splits prod.splits)

lemma compute_cost_default_total:
  "\<exists>res. compute_cost default_v2_pricing_registry (\<lambda>u. Inr (f u)) inp = Inr res"
  by (simp add: compute_cost_def cost_quantities_def default_registry_eval Let_def)

lemma compute_cost_db_total:
  "\<exists>res. compute_cost default_v2_pricing_registry (db_rates db inp' :: 'e unit_rates) inp = Inr res"
proof -
  have "(db_rates db inp' :: 'e unit_rates)
      = (\<lambda>u. Inr (resolve_rate (db_cards db) (pi_provider inp') (pi_native_model inp') u
          (AtTime (pi_at inp')) (pi_service_tier inp') ''realtime'' None))"
    by (rule ext) (simp add: db_rates_def)
  then show ?thesis by (simp only: compute_cost_default_total)
qed

lemma has_active_cost_filter:
  "has_active_cost costs k \<longleftrightarrow> filter (\<lambda>c. cost_key c = k \<and> cc_active c) costs \<noteq> []"
  by (auto simp: has_active_cost_def filter_empty_conv)

lemma active_cost_has: "active_cost k costs = Inr (Some c) \<Longrightarrow> has_active_cost costs k"
  by (auto simp: active_cost_def has_active_cost_filter)

lemma has_active_cost_cong:
  assumes "filter (\<lambda>c. cost_key c = k) costs = filter (\<lambda>c. cost_key c = k) costs'"
  shows "has_active_cost costs k = has_active_cost costs' k"
proof -
  have "has_active_cost cs k \<longleftrightarrow> (\<exists>c \<in> set (filter (\<lambda>c. cost_key c = k) cs). cc_active c)" for cs
    by (auto simp: has_active_cost_def)
  then show ?thesis by (simp only: assms)
qed

lemma cost_row_key [simp]: "cost_key (cost_row k v m ob now res) = k"
  by (simp add: cost_key_def cost_row_def)

lemma record_row_step:
  assumes "is_final_attempt r"
  shows "\<exists>c. compute_and_record_row (worker_config ov) (db_rates db) now r bu (Some v) db
      = (case record_cost c (cd_costs db) of
           Inl e \<Rightarrow> Inl (e :: 'e cost_error) | Inr costs \<Rightarrow> Inr (Some c, db\<lparr>cd_costs := costs\<rparr>))
    \<and> cost_key c = row_key r \<and> cc_pricing_version c = v \<and> cc_cost_status c \<in> set COST_STATUSES"
proof -
  let ?inp = "row_inputs r bu"
  obtain res where res: "compute_cost default_v2_pricing_registry (db_rates db ?inp :: 'e unit_rates) ?inp = Inr res"
    using compute_cost_db_total by blast
  let ?row = "cost_row (row_key r) v (resolve_billing_mode (source_billing_mode db (lg_source_id r))
      (lg_machine r) ov) (lg_observed_cost r) now res"
  have "compute_and_record_row (worker_config ov) (db_rates db) now r bu (Some v) db
      = (case record_cost ?row (cd_costs db) of
           Inl e \<Rightarrow> Inl (e :: 'e cost_error) | Inr costs \<Rightarrow> Inr (Some ?row, db\<lparr>cd_costs := costs\<rparr>))"
    using assms res
    by (simp add: compute_and_record_row_def record_inputs_def worker_config_def Let_def split: sum.split)
      (simp add: row_inputs_def)
  moreover have "cc_cost_status ?row \<in> set COST_STATUSES"
    using compute_cost_known_status [OF res] by (simp add: cost_row_def)
  ultimately show ?thesis by (intro exI [of _ ?row]) (simp, simp add: cost_row_def)
qed

lemma record_row_ok:
  assumes "cost_inv (cd_costs db)" and "is_final_attempt r"
  shows "\<exists>c costs. compute_and_record_row (worker_config ov) (db_rates db) now r bu (Some v) db
      = (Inr (Some c, db\<lparr>cd_costs := costs\<rparr>) :: 'e cost_error + computed_cost option \<times> 'z cost_db_scheme)
    \<and> cost_inv costs
    \<and> (\<forall>j. has_active_cost costs j \<longleftrightarrow> j = row_key r \<or> has_active_cost (cd_costs db) j)"
proof -
  obtain c where step: "compute_and_record_row (worker_config ov) (db_rates db) now r bu (Some v) db
      = (case record_cost c (cd_costs db) of
           Inl e \<Rightarrow> Inl (e :: 'e cost_error) | Inr costs \<Rightarrow> Inr (Some c, db\<lparr>cd_costs := costs\<rparr>))"
    and key: "cost_key c = row_key r" and st: "cc_cost_status c \<in> set COST_STATUSES"
    using record_row_step [OF assms(2)] by blast
  obtain costs where rec: "record_cost c (cd_costs db) = (Inr costs :: 'e cost_error + computed_cost list)"
    and inv: "cost_inv costs"
    and act: "active_cost (cost_key c) costs = (Inr (Some (c\<lparr>cc_active := True\<rparr>)) :: 'e cost_error + computed_cost option)"
    and oth: "\<forall>j. j \<noteq> cost_key c \<longrightarrow> filter (\<lambda>c. cost_key c = j) costs = filter (\<lambda>c. cost_key c = j) (cd_costs db)"
    using record_cost_ok [OF assms(1) st] by blast
  have "has_active_cost costs j \<longleftrightarrow> j = row_key r \<or> has_active_cost (cd_costs db) j" for j
  proof (cases "j = row_key r")
    case True
    then show ?thesis using active_cost_has [OF act] by (simp add: key)
  next
    case False
    have "filter (\<lambda>c. cost_key c = j) costs = filter (\<lambda>c. cost_key c = j) (cd_costs db)"
      by (rule oth [unfolded key, THEN spec, THEN mp, OF False])
    then have "has_active_cost costs j = has_active_cost (cd_costs db) j" by (rule has_active_cost_cong)
    with False show ?thesis by simp
  qed
  then show ?thesis using inv by (intro exI [of _ c] exI [of _ costs]) (simp add: step rec)
qed

lemma record_rows_ok:
  assumes "cost_inv (cd_costs db)" and "\<forall>r \<in> set rows. is_final_attempt r"
  shows "\<exists>costs. record_rows (worker_config ov) now v rows db = Inr (db\<lparr>cd_costs := costs\<rparr>) \<and> cost_inv costs
    \<and> (\<forall>j. has_active_cost costs j \<longleftrightarrow> j \<in> row_key ` set rows \<or> has_active_cost (cd_costs db) j)"
  using assms
proof (induction rows arbitrary: db)
  case Nil
  then show ?case by (intro exI [of _ "cd_costs db"]) simp
next
  case (Cons r rows)
  obtain c costs where step: "compute_and_record_row (worker_config ov) (db_rates db) now r
      (billable_units_for db (row_key r)) (Some v) db = (Inr (Some c, db\<lparr>cd_costs := costs\<rparr>) :: unit cost_error + _)"
    and inv: "cost_inv costs"
    and act: "\<forall>j. has_active_cost costs j \<longleftrightarrow> j = row_key r \<or> has_active_cost (cd_costs db) j"
    using record_row_ok [OF Cons.prems(1), of r ov now "billable_units_for db (row_key r)" v] Cons.prems(2) by auto
  let ?db = "db\<lparr>cd_costs := costs\<rparr>"
  obtain costs' where rest: "record_rows (worker_config ov) now v rows ?db = Inr (?db\<lparr>cd_costs := costs'\<rparr>)"
    and inv': "cost_inv costs'"
    and act': "\<forall>j. has_active_cost costs' j \<longleftrightarrow> j \<in> row_key ` set rows \<or> has_active_cost (cd_costs ?db) j"
    using Cons.IH [of ?db] inv Cons.prems(2) by auto
  have "record_rows (worker_config ov) now v (r # rows) db = Inr (db\<lparr>cd_costs := costs'\<rparr>)"
    using rest by (simp add: step)
  then show ?case using inv' act act' by (intro exI [of _ costs']) auto
qed

lemma filter_not_taken:
  "distinct (map f xs) \<Longrightarrow> filter (\<lambda>x. f x \<notin> f ` set (take n xs)) xs = drop n xs"
proof (induction xs arbitrary: n)
  case (Cons x xs)
  show ?case
  proof (cases n)
    case 0
    then show ?thesis by simp
  next
    case (Suc m)
    have ne: "f y \<noteq> f x" if "y \<in> set xs" for y using Cons.prems that by (metis distinct.simps(2) image_eqI list.simps(9) set_map)
    have "filter (\<lambda>y. f y \<notin> f ` set (take n (x # xs))) (x # xs)
        = filter (\<lambda>y. f y \<notin> f ` set (take m xs)) xs"
      using ne by (simp add: Suc) (intro filter_cong, auto)
    then show ?thesis using Cons.IH [of m] Cons.prems by (simp add: Suc)
  qed
qed simp

lemma uncosted_after:
  assumes "distinct (map row_key (lb_events (cd_ledger db)))"
    and act: "\<And>j. has_active_cost costs j
      \<longleftrightarrow> j \<in> row_key ` set (take n (uncosted db)) \<or> has_active_cost (cd_costs db) j"
  shows "uncosted (db\<lparr>cd_costs := costs\<rparr>) = drop n (uncosted db)"
proof -
  have d: "distinct (map row_key (uncosted db))"
    unfolding uncosted_def by (rule distinct_map_filter [OF assms(1)])
  let ?K = "row_key ` set (take n (uncosted db))"
  have e: "cd_costs (db\<lparr>cd_costs := costs\<rparr>) = costs" "cd_ledger (db\<lparr>cd_costs := costs\<rparr>) = cd_ledger db"
    by simp_all
  have "uncosted (db\<lparr>cd_costs := costs\<rparr>)
      = filter (\<lambda>r. is_final_attempt r \<and> \<not> (row_key r \<in> ?K \<or> has_active_cost (cd_costs db) (row_key r)))
          (lb_events (cd_ledger db))"
    unfolding uncosted_def [of "db\<lparr>cd_costs := costs\<rparr>"] e act ..
  also have "\<dots> = filter (\<lambda>r. row_key r \<notin> ?K) (uncosted db)"
    unfolding uncosted_def [of db] filter_filter
    by (rule filter_cong [OF refl]) (simp only: de_Morgan_disj conj_ac)
  also have "\<dots> = drop n (uncosted db)"
    by (rule filter_not_taken [OF d])
  finally show ?thesis .
qed

lemma sweep_ok:
  assumes inv: "cost_inv (cd_costs db)" and d: "distinct (map row_key (lb_events (cd_ledger db)))"
  shows "\<exists>costs. sweep_uncosted_costs n ov now db
      = Inr (min n (length (uncosted db)), db\<lparr>cd_costs := costs\<rparr>)
    \<and> cost_inv costs \<and> uncosted (db\<lparr>cd_costs := costs\<rparr>) = drop n (uncosted db)"
proof -
  let ?rows = "take n (uncosted db)"
  have fin: "\<forall>r \<in> set ?rows. is_final_attempt r"
    by (auto simp: uncosted_def dest: in_set_takeD)
  obtain costs where rec: "record_rows (worker_config ov) now (current_pricing_version db) ?rows db
      = Inr (db\<lparr>cd_costs := costs\<rparr>)"
    and inv': "cost_inv costs"
    and act: "\<forall>j. has_active_cost costs j \<longleftrightarrow> j \<in> row_key ` set ?rows \<or> has_active_cost (cd_costs db) j"
    using record_rows_ok [OF inv fin] by blast
  have un: "uncosted (db\<lparr>cd_costs := costs\<rparr>) = drop n (uncosted db)"
    by (rule uncosted_after [OF d spec [OF act]])
  show ?thesis
  proof (cases "?rows = []")
    case True
    have "sweep_uncosted_costs n ov now db = Inr (0, db)"
      unfolding sweep_uncosted_costs_def Let_def if_P [OF True] ..
    moreover have "min n (length (uncosted db)) = 0" "drop n (uncosted db) = uncosted db"
      using True by auto
    ultimately show ?thesis using inv by (intro exI [of _ "cd_costs db"]) simp
  next
    case False
    have "sweep_uncosted_costs n ov now db = Inr (length ?rows, db\<lparr>cd_costs := costs\<rparr>)"
      unfolding sweep_uncosted_costs_def Let_def if_not_P [OF False] rec by simp
    then show ?thesis using inv' un by (intro exI [of _ costs]) (simp add: min.commute)
  qed
qed

end
