(* ===== verification/Cost_Worker.thy ===== *)
theory Cost_Worker
  imports Cost_Props
begin

text \<open>
  The background cost loop of the server (\<open>app.py\<close>, \<open>_cost_loop\<close>): one sweep per wake-up, committed when
  it succeeds and rolled back and logged when it fails. With it, what the worker promises the rest of
  the server: a backlog is drained in a bounded number of wake-ups, and a cost computed for an event
  does not depend on rates that are imported for later dates.
\<close>

section \<open>The loop\<close>

text \<open>One element of \<open>nows\<close> per wake-up of the loop: the clock at that sweep.\<close>

fun cost_loop :: "nat \<Rightarrow> (string, string) dict \<Rightarrow> int list \<Rightarrow> 'z cost_db_scheme \<Rightarrow> 'z cost_db_scheme" where
  "cost_loop batch_size overrides [] db = db"
| "cost_loop batch_size overrides (now # nows) db =
     cost_loop batch_size overrides nows
       (case sweep_uncosted_costs batch_size overrides now db of Inl _ \<Rightarrow> db | Inr (_, db') \<Rightarrow> db')"

definition fully_costed :: "'z cost_db_scheme \<Rightarrow> bool" where
  "fully_costed db \<longleftrightarrow> (\<forall>r \<in> set (lb_events (cd_ledger db)). is_final_attempt r \<longrightarrow>
     length (filter (\<lambda>c. cost_key c = row_key r \<and> cc_active c) (cd_costs db)) = 1)"

lemma cost_loop_ok:
  assumes "cost_inv (cd_costs db)" and "distinct (map row_key (lb_events (cd_ledger db)))"
  shows "\<exists>costs. cost_loop b ov nows db = db\<lparr>cd_costs := costs\<rparr> \<and> cost_inv costs
    \<and> uncosted (db\<lparr>cd_costs := costs\<rparr>) = drop (b * length nows) (uncosted db)"
  using assms
proof (induction nows arbitrary: db)
  case Nil
  then show ?case by (intro exI [of _ "cd_costs db"]) simp
next
  case (Cons now nows)
  obtain costs where s: "sweep_uncosted_costs b ov now db
      = Inr (min b (length (uncosted db)), db\<lparr>cd_costs := costs\<rparr>)"
    and i: "cost_inv costs" and u: "uncosted (db\<lparr>cd_costs := costs\<rparr>) = drop b (uncosted db)"
    using sweep_ok [OF Cons.prems] by blast
  obtain costs' where "cost_loop b ov nows (db\<lparr>cd_costs := costs\<rparr>)
      = (db\<lparr>cd_costs := costs\<rparr>)\<lparr>cd_costs := costs'\<rparr>"
    and "cost_inv costs'"
    and "uncosted ((db\<lparr>cd_costs := costs\<rparr>)\<lparr>cd_costs := costs'\<rparr>)
      = drop (b * length nows) (uncosted (db\<lparr>cd_costs := costs\<rparr>))"
    using Cons.IH [of "db\<lparr>cd_costs := costs\<rparr>"] i Cons.prems(2) by auto
  then show ?case by (intro exI [of _ costs']) (simp add: s u add.commute)
qed

lemma active_unique:
  assumes "cost_inv costs"
  shows "length (filter (\<lambda>c. cost_key c = k \<and> cc_active c) costs) \<le> 1"
proof -
  have "distinct (map cost_key (filter cc_active costs))" using assms by (simp add: cost_inv_def)
  from filter_distinct_key [OF this, of k] show ?thesis by (auto simp: conj_commute)
qed

lemma fully_costed_iff:
  assumes "cost_inv (cd_costs db)"
  shows "fully_costed db \<longleftrightarrow> uncosted db = []"
proof -
  have "length (filter (\<lambda>c. cost_key c = k \<and> cc_active c) (cd_costs db)) = 1
      \<longleftrightarrow> has_active_cost (cd_costs db) k" for k
    using active_unique [OF assms, of k] unfolding has_active_cost_filter
    by (cases "filter (\<lambda>c. cost_key c = k \<and> cc_active c) (cd_costs db)") auto
  then show ?thesis by (auto simp: fully_costed_def uncosted_def filter_empty_conv)
qed

text \<open>
  C12. The cost worker reaches full coverage: from any ledger with one row per event and any
  well-formed cost table, enough wake-ups (batch size times their number covers the backlog) leave
  every final attempt with exactly one active cost, and only the cost table has changed. No sweep can
  fail on the way. The hypotheses: the two table invariants and the bound on the backlog.
\<close>

theorem cost_loop_drains:
  assumes "cost_inv (cd_costs db)" and "distinct (map row_key (lb_events (cd_ledger db)))"
    and "length (uncosted db) \<le> b * length nows"
  shows "fully_costed (cost_loop b ov nows db)
    \<and> (\<exists>costs. cost_loop b ov nows db = db\<lparr>cd_costs := costs\<rparr> \<and> cost_inv costs)"
proof -
  obtain costs where l: "cost_loop b ov nows db = db\<lparr>cd_costs := costs\<rparr>" and i: "cost_inv costs"
    and u: "uncosted (db\<lparr>cd_costs := costs\<rparr>) = drop (b * length nows) (uncosted db)"
    using cost_loop_ok [OF assms(1,2)] by blast
  have "uncosted (db\<lparr>cd_costs := costs\<rparr>) = []" using assms(3) by (simp add: u)
  then have "fully_costed (db\<lparr>cd_costs := costs\<rparr>)" using i by (simp add: fully_costed_iff)
  with l i show ?thesis by auto
qed

definition sample_cost_db :: cost_db where
  "sample_cost_db = \<lparr>db_cards = [sample_card 1 10 (Some 19) 3, sample_card 2 20 None 4], db_next_card = 3,
     db_settings = [], db_audit = [],
     cd_ledger = snd (apply_event True 0 default_options (sample_event Final 0 5) empty_ledger),
     cd_costs = [], cd_sources = \<lparr>st_rows = [], st_next = 1\<rparr>\<rparr>"

lemma sample_ledger_events:
  "lb_events (snd (apply_event True 0 default_options (sample_event Final 0 5) empty_ledger))
     = [usage_event_v2_row (sample_event Final 0 5) None None]"
  by (simp add: apply_events decision_def put_row_def default_options_def)
    (simp add: empty_ledger_def)

theorem cost_loop_drains_witness:
  "fully_costed (cost_loop 1 [] [0] sample_cost_db) \<and> uncosted sample_cost_db \<noteq> []"
proof -
  have e: "uncosted sample_cost_db = [usage_event_v2_row (sample_event Final 0 5) None None]"
    by (simp add: uncosted_def sample_cost_db_def sample_ledger_events has_active_cost_def)
      (simp add: is_final_attempt_def usage_event_v2_row_def sample_event_def)
  have "cost_inv (cd_costs sample_cost_db)" by (simp add: sample_cost_db_def cost_inv_def)
  moreover have "distinct (map row_key (lb_events (cd_ledger sample_cost_db)))"
    by (simp add: sample_cost_db_def sample_ledger_events)
  ultimately show ?thesis using cost_loop_drains [of sample_cost_db 1 "[0]" "[]"] by (simp add: e)
qed

section \<open>Costs do not depend on later imports\<close>

text \<open>
  What the engine needs of the rate tables to be reproducible: a change that takes effect on a day
  leaves every rate of the days before as it was.
\<close>

locale rate_history =
  fixes rates_of :: "'db \<Rightarrow> price_inputs \<Rightarrow> 'e unit_rates"
    and change :: "date \<Rightarrow> 'db \<Rightarrow> 'db \<Rightarrow> bool"
  assumes past_stable:
    "change eff db db' \<Longrightarrow> dt_date (pi_at inp) < eff \<Longrightarrow> rates_of db' inp = rates_of db inp"
begin

lemma past_rates: "(change eff)\<^sup>*\<^sup>* db db' \<Longrightarrow> dt_date (pi_at inp) < eff \<Longrightarrow> rates_of db' inp = rates_of db inp"
  by (induction rule: rtranclp_induct) (simp_all add: past_stable)

lemma past_costs:
  "(change eff)\<^sup>*\<^sup>* db db' \<Longrightarrow> dt_date (pi_at inp) < eff
   \<Longrightarrow> compute_cost reg (rates_of db' inp) inp = compute_cost reg (rates_of db inp) inp"
  by (simp only: past_rates)

end

text \<open>The imports that take effect on or after a day.\<close>

inductive import_step :: "date \<Rightarrow> cost_db \<Rightarrow> cost_db \<Rightarrow> bool" for eff where
  import: "import_step eff db db'"
    if "import_ok db rows eff'" "eff \<le> eff'"
      "apply_import sha rows eff' expected actor label now db = Inr (res, db')"

inductive_cases import_stepE: "import_step eff db db'"

interpretation rate_imports: rate_history db_rates import_step
proof
  fix eff db db' and inp :: price_inputs
  assume step: "import_step eff db db'" and past: "dt_date (pi_at inp) < eff"
  show "(db_rates db' inp :: 'a unit_rates) = db_rates db inp"
    using step
  proof (rule import_stepE)
    fix rows eff' sha expected actor label now res
    assume ok: "import_ok db rows eff'" and le: "eff \<le> eff'"
      and imp: "apply_import sha rows eff' expected actor label now db = Inr (res, db')"
    have "as_date (AtTime (pi_at inp)) < eff'" using past le by (simp add: as_date_def)
    from import_keeps_rate [OF ok imp this] show ?thesis by (simp add: db_rates_def fun_eq_iff)
  qed
qed

text \<open>
  C14. Costs are reproducible: no sequence of imports that take effect on or after some day changes the
  cost computed for an event that started before that day, whatever its provider, model and units. The
  hypotheses: the imports are proper (\<open>import_ok\<close> of each state they start from) and the event is older.
\<close>

theorem imports_keep_past_costs:
  assumes "(import_step eff)\<^sup>*\<^sup>* db db'" and "dt_date (pi_at inp) < eff"
  shows "compute_cost reg (db_rates db' inp) inp
    = (compute_cost reg (db_rates db inp) inp :: 'e cost_error + cost_result)"
  using assms by (rule rate_imports.past_costs)

lemma sample_cost_changes: "import_changes (db_cards sample_cost_db) [sample_row 30 5] 30 =
    [change_of (sample_row 30 5) ASuperseded (Some 2) (Some 29) None]"
  using sample_changes by (simp add: sample_cost_db_def sample_db_def)

lemma sample_cost_import: "\<exists>res db'. apply_import (\<lambda>_. ''d'') [sample_row 30 5] 30 ''d'' None ''litellm'' 0 sample_cost_db
    = Inr (res, db')"
  by (simp add: apply_import_def compute_import_diff_def Let_def)

lemma sample_cost_import_ok: "import_ok sample_cost_db [sample_row 30 5] 30"
  using sample_import_ok
  by (simp add: import_ok_def pricing_inv_def no_overlap_def closed_before_def sample_cost_db_def sample_db_def)

theorem imports_keep_past_costs_witness:
  "\<exists>db'. import_step 30 sample_cost_db db' \<and> length (db_cards db') = 3
     \<and> compute_cost default_v2_pricing_registry
         (db_rates db' (wire_inputs (sample_event Final 0 5))) (wire_inputs (sample_event Final 0 5))
       = (compute_cost default_v2_pricing_registry
           (db_rates sample_cost_db (wire_inputs (sample_event Final 0 5)))
           (wire_inputs (sample_event Final 0 5)) :: unit cost_error + cost_result)"
proof -
  obtain res db' where i: "apply_import (\<lambda>_. ''d'') [sample_row 30 5] 30 ''d'' None ''litellm'' 0 sample_cost_db
      = Inr (res, db')"
    using sample_cost_import by blast
  have st: "import_step 30 sample_cost_db db'" by (rule import [OF sample_cost_import_ok order_refl i])
  have "dt_date (pi_at (wire_inputs (sample_event Final 0 5))) < 30"
    by (simp add: wire_inputs_def sample_event_def utc_date_def)
  moreover have "length (db_cards db') = 3"
    using i by (auto simp: apply_import_def compute_import_diff_def sample_cost_changes Let_def
        pricing_audit_def apply_change_def add_card_def change_of_def set_effective_to_def)
      (simp add: sample_cost_db_def)
  ultimately show ?thesis
    using st imports_keep_past_costs [OF r_into_rtranclp [of "import_step 30", OF st]] by blast
qed

end
