(* ===== verification/Rollups.thy ===== *)
theory Rollups
  imports Projects Cost_Engine
begin

text \<open>
  Daily rollups (\<open>services/rollups.py\<close>, \<open>daily_rollups_upsert\<close> of \<open>db/upsert.py\<close>, table
  \<open>daily_rollups\<close>): the aggregation query over the ledger joined with the active costs and the sources,
  the fold of raw project directories into groups, and the upsert. The order of the query's groups is
  that of their first row (SQL leaves it open); sums of prices are exact.
\<close>

definition DERIVED :: string where "DERIVED = ''derived''"

definition UNPRICED_STATUSES :: "string list" where "UNPRICED_STATUSES = [''unpriced'', ''error'']"

definition TOKEN_KEYS :: "string list" where
  "TOKEN_KEYS = [''input_tokens'', ''output_tokens'', ''cache_read_tokens'', ''cache_write_short_tokens'',
     ''cache_write_long_tokens'', ''reasoning_tokens'', ''total_tokens'']"

record rollup_grain =
  rg_provider :: string
  rg_model :: string
  rg_machine :: string
  rg_project :: string
  rg_source :: string
  rg_environment :: string
  rg_billing_mode :: string

record rollup_agg =
  ag_tokens :: "int list"
  ag_cost_priced :: "decimal option"
  ag_cost_partial :: "decimal option"
  ag_cost_estimated :: "decimal option"
  ag_unpriced_count :: int
  ag_subscription_value :: "decimal option"

record rollup_row =
  ro_day :: date
  ro_grain :: rollup_grain
  ro_provenance :: string
  ro_tokens :: "int list"
  ro_cost_usd :: "decimal option"
  ro_cost_priced_usd :: "decimal option"
  ro_cost_partial_usd :: "decimal option"
  ro_cost_estimated_usd :: "decimal option"
  ro_unpriced_event_count :: int
  ro_subscription_value_usd :: "decimal option"

record rollup_db = cost_db +
  rd_rollups :: "rollup_row list"

section \<open>The aggregation query\<close>

type_synonym joined_row = "ledger_row \<times> computed_cost option"

definition join_cost :: "'a cost_db_scheme \<Rightarrow> ledger_row \<Rightarrow> joined_row list" where
  "join_cost db r =
     (case filter (\<lambda>c. cost_key c = row_key r \<and> cc_active c) (cd_costs db) of
        [] \<Rightarrow> [(r, None)]
      | costs \<Rightarrow> map (\<lambda>c. (r, Some c)) costs)"

definition in_day :: "date \<Rightarrow> ledger_row \<Rightarrow> bool" where
  "in_day day r \<longleftrightarrow> day * DAY_US \<le> lg_ts_started r \<and> lg_ts_started r < day * DAY_US + DAY_US"

definition day_rows :: "'a cost_db_scheme \<Rightarrow> date \<Rightarrow> joined_row list" where
  "day_rows db day = concat (map (join_cost db)
     (filter (\<lambda>r. is_final_attempt r \<and> in_day day r) (lb_events (cd_ledger db))))"

definition coalesce :: "'v option \<Rightarrow> 'v \<Rightarrow> 'v" where
  "coalesce x d = (case x of Some v \<Rightarrow> v | None \<Rightarrow> d)"

definition source_name :: "'a cost_db_scheme \<Rightarrow> int option \<Rightarrow> string option" where
  "source_name db i = (case i of None \<Rightarrow> None
     | Some i \<Rightarrow> map_of (map (\<lambda>q. (so_id q, so_name q)) (st_rows (cd_sources db))) i)"

definition raw_grain :: "'a cost_db_scheme \<Rightarrow> joined_row \<Rightarrow> rollup_grain" where
  "raw_grain db = (\<lambda>(r, c). \<lparr>rg_provider = lg_provider r, rg_model = lg_native_model r,
     rg_machine = coalesce (lg_machine r) [], rg_project = coalesce (lg_project r) [],
     rg_source = coalesce (source_name db (lg_source_id r)) [],
     rg_environment = coalesce (lg_environment r) [],
     rg_billing_mode = coalesce (map_option cc_billing_mode c) ''api_billed''\<rparr>)"

definition token_columns :: "ledger_row \<Rightarrow> int list" where
  "token_columns r = [lg_input_tokens r, lg_output_tokens r, lg_cache_read_tokens r,
     lg_cache_write_short_tokens r, lg_cache_write_long_tokens r, lg_reasoning_tokens r,
     lg_input_tokens r + lg_output_tokens r + lg_cache_read_tokens r
       + lg_cache_write_short_tokens r + lg_cache_write_long_tokens r + lg_reasoning_tokens r]"

definition priced_part :: "joined_row \<Rightarrow> decimal option" where
  "priced_part = (\<lambda>(r, c). case c of
       None \<Rightarrow> map_option dec_value (lg_cost_usd r)
     | Some c \<Rightarrow> if cc_billing_mode c \<noteq> ''subscription'' \<and> cc_cost_status c = ''priced'' then cc_amount c else None)"

definition status_part :: "string \<Rightarrow> joined_row \<Rightarrow> decimal option" where
  "status_part status = (\<lambda>(r, c). case c of
       None \<Rightarrow> None
     | Some c \<Rightarrow> if cc_billing_mode c \<noteq> ''subscription'' \<and> cc_cost_status c = status then cc_amount c else None)"

definition unpriced_part :: "joined_row \<Rightarrow> int" where
  "unpriced_part = (\<lambda>(r, c). case c of
       None \<Rightarrow> 0 | Some c \<Rightarrow> if cc_cost_status c \<in> set UNPRICED_STATUSES then 1 else 0)"

definition subscription_part :: "joined_row \<Rightarrow> decimal option" where
  "subscription_part = (\<lambda>(r, c). case c of
       None \<Rightarrow> None
     | Some c \<Rightarrow> if cc_billing_mode c = ''subscription'' then cc_subscription_equivalent_amount c else None)"

text \<open>SQL's \<open>SUM\<close>: NULL when no row contributes.\<close>

definition sql_sum :: "decimal option list \<Rightarrow> decimal option" where
  "sql_sum xs = (case filter (\<lambda>x. x \<noteq> None) xs of [] \<Rightarrow> None | ys \<Rightarrow> Some (sum_list (map the ys)))"

definition sql_record :: "joined_row list \<Rightarrow> rollup_agg" where
  "sql_record rows = \<lparr>ag_tokens = map (\<lambda>i. sum_list (map (\<lambda>(r, c). token_columns r ! i) rows)) [0..<7],
     ag_cost_priced = sql_sum (map priced_part rows),
     ag_cost_partial = sql_sum (map (status_part ''partial'') rows),
     ag_cost_estimated = sql_sum (map (status_part ''estimated'') rows),
     ag_unpriced_count = sum_list (map unpriced_part rows),
     ag_subscription_value = sql_sum (map subscription_part rows)\<rparr>"

definition group_keys :: "('a \<Rightarrow> 'k) \<Rightarrow> 'a list \<Rightarrow> 'k list" where
  "group_keys key xs = rev (remdups (rev (map key xs)))"

definition sql_groups :: "('a \<Rightarrow> 'k) \<Rightarrow> 'a list \<Rightarrow> ('k \<times> 'a list) list" where
  "sql_groups key xs = map (\<lambda>k. (k, filter (\<lambda>x. key x = k) xs)) (group_keys key xs)"

section \<open>The fold into project groups\<close>

definition add_cost :: "decimal option \<Rightarrow> decimal option \<Rightarrow> decimal option" where
  "add_cost l r = (if l = None \<and> r = None then None else Some (coalesce l 0 + coalesce r 0))"

definition merge_agg :: "rollup_agg option \<Rightarrow> rollup_agg \<Rightarrow> rollup_agg" where
  "merge_agg old new =
     (let base = (case old of
                    None \<Rightarrow> \<lparr>ag_tokens = ag_tokens new, ag_cost_priced = None, ag_cost_partial = None,
                      ag_cost_estimated = None, ag_unpriced_count = 0, ag_subscription_value = None\<rparr>
                  | Some g \<Rightarrow> g\<lparr>ag_tokens := map (\<lambda>(a, b). a + b) (zip (ag_tokens g) (ag_tokens new))\<rparr>)
      in base\<lparr>ag_cost_priced := add_cost (ag_cost_priced base) (ag_cost_priced new),
           ag_cost_partial := add_cost (ag_cost_partial base) (ag_cost_partial new),
           ag_cost_estimated := add_cost (ag_cost_estimated base) (ag_cost_estimated new),
           ag_unpriced_count := ag_unpriced_count base + ag_unpriced_count new,
           ag_subscription_value := add_cost (ag_subscription_value base) (ag_subscription_value new)\<rparr>)"

definition merge_record ::
  "string list \<Rightarrow> rollup_grain \<times> rollup_agg \<Rightarrow> (rollup_grain, rollup_agg) dict \<Rightarrow> (rollup_grain, rollup_agg) dict" where
  "merge_record roots = (\<lambda>(g, a) merged.
     let k = g\<lparr>rg_project := project_group (Some (rg_project g)) roots\<rparr>
     in dset k (merge_agg (dget merged k) a) merged)"

definition merged_groups :: "'a cost_db_scheme \<Rightarrow> date \<Rightarrow> string list \<Rightarrow> (rollup_grain, rollup_agg) dict" where
  "merged_groups db day roots = fold (merge_record roots)
     (map (\<lambda>(k, rows). (k, sql_record rows)) (sql_groups (raw_grain db) (day_rows db day))) []"

definition rollup_of :: "date \<Rightarrow> rollup_grain \<times> rollup_agg \<Rightarrow> rollup_row" where
  "rollup_of day = (\<lambda>(k, a). \<lparr>ro_day = day, ro_grain = k, ro_provenance = DERIVED, ro_tokens = ag_tokens a,
     ro_cost_usd = add_cost (add_cost (ag_cost_priced a) (ag_cost_partial a)) (ag_cost_estimated a),
     ro_cost_priced_usd = ag_cost_priced a, ro_cost_partial_usd = ag_cost_partial a,
     ro_cost_estimated_usd = ag_cost_estimated a, ro_unpriced_event_count = ag_unpriced_count a,
     ro_subscription_value_usd = ag_subscription_value a\<rparr>)"

definition aggregate_day :: "'a cost_db_scheme \<Rightarrow> date \<Rightarrow> string list \<Rightarrow> rollup_row list" where
  "aggregate_day db day roots = map (rollup_of day) (merged_groups db day roots)"

section \<open>Refreshing the table\<close>

definition ro_key :: "rollup_row \<Rightarrow> date \<times> rollup_grain \<times> string" where
  "ro_key q = (ro_day q, ro_grain q, ro_provenance q)"

definition upsert_rollup :: "rollup_row \<Rightarrow> rollup_row list \<Rightarrow> rollup_row list" where
  "upsert_rollup row rows =
     (if ro_key row \<in> ro_key ` set rows then map (\<lambda>q. if ro_key q = ro_key row then row else q) rows
      else rows @ [row])"

definition daily_rollups_upsert :: "rollup_row list \<Rightarrow> rollup_row list \<Rightarrow> rollup_row list" where
  "daily_rollups_upsert new rows = fold upsert_rollup new rows"

fun refresh_rollups_for_days :: "date list \<Rightarrow> string list \<Rightarrow> 'a rollup_db_scheme \<Rightarrow> nat \<times> 'a rollup_db_scheme" where
  "refresh_rollups_for_days [] roots db = (0, db)"
| "refresh_rollups_for_days (day # days) roots db =
     (let rows = aggregate_day db day roots;
          db1 = (if rows = [] then db else db\<lparr>rd_rollups := daily_rollups_upsert rows (rd_rollups db)\<rparr>);
          (n, db2) = refresh_rollups_for_days days roots db1
      in (length rows + n, db2))"

definition event_span :: "'a cost_db_scheme \<Rightarrow> (int \<times> int) option" where
  "event_span db =
     (let ts = map lg_ts_started (filter is_final_attempt (lb_events (cd_ledger db)))
      in if ts = [] then None else Some (Min (set ts), Max (set ts)))"

definition event_days :: "(int \<times> int) option \<Rightarrow> date list" where
  "event_days bounds =
     (case bounds of None \<Rightarrow> [] | Some (low, high) \<Rightarrow> [utc_date low..utc_date high])"

definition rebuild_all_rollups :: "string list \<Rightarrow> 'a rollup_db_scheme \<Rightarrow> nat \<times> 'a rollup_db_scheme" where
  "rebuild_all_rollups roots db =
     (let db' = db\<lparr>rd_rollups := filter (\<lambda>q. ro_provenance q \<noteq> DERIVED) (rd_rollups db)\<rparr>
      in refresh_rollups_for_days (event_days (event_span db')) roots db')"

end
