(* ===== verification/Rollup_Laws.thy ===== *)
theory Rollup_Laws
  imports Rollups Cost_Worker
begin

text \<open>
  What the rollups promise: every token and every dollar of a day's final attempts is in exactly one
  rollup row, whatever the project folding does, and a rebuild leaves the table with exactly the rows
  the ledger gives. A quantity that the aggregation sums is a \<open>rollup_measure\<close>; the conservation lemma
  is proved once for all of them.
\<close>

section \<open>Sums over groups\<close>

lemma set_group_keys [simp]: "set (group_keys key xs) = key ` set xs"
  by (simp add: group_keys_def)

lemma distinct_group_keys [simp]: "distinct (group_keys key xs)"
  by (simp add: group_keys_def)

lemma sum_list_no_key: "k \<notin> set ks \<Longrightarrow> sum_list (map (\<lambda>j. if k = j then v else 0) ks) = (0::'v::comm_monoid_add)"
  by (induction ks) auto

lemma sum_list_one_key:
  fixes v :: "'v::comm_monoid_add"
  shows "distinct ks \<Longrightarrow> k \<in> set ks \<Longrightarrow> sum_list (map (\<lambda>j. if k = j then v else 0) ks) = v"
  by (induction ks) (auto simp: sum_list_no_key)

lemma sum_list_groups:
  fixes h :: "'a \<Rightarrow> 'v::comm_monoid_add"
  assumes "distinct ks" and "key ` set xs \<subseteq> set ks"
  shows "sum_list (map (\<lambda>k. sum_list (map h (filter (\<lambda>x. key x = k) xs))) ks) = sum_list (map h xs)"
  using assms(2)
proof (induction xs)
  case Nil
  show ?case by (induction ks) simp_all
next
  case (Cons x xs)
  have "sum_list (map (\<lambda>k. sum_list (map h (filter (\<lambda>x. key x = k) (x # xs)))) ks)
      = sum_list (map (\<lambda>k. (if key x = k then h x else 0) + sum_list (map h (filter (\<lambda>x. key x = k) xs))) ks)"
    by (rule arg_cong [where f = sum_list], rule map_cong [OF refl]) simp
  also have "\<dots> = h x + sum_list (map h xs)"
    using Cons sum_list_one_key [OF assms(1), of "key x" "h x"] by (simp add: sum_list_addf)
  finally show ?case by simp
qed

lemma sum_dset:
  fixes f :: "'v \<Rightarrow> 'a::comm_monoid_add"
  assumes "case dget d k of None \<Rightarrow> f v = x | Some w \<Rightarrow> f v = f w + x"
  shows "sum_list (map (\<lambda>p. f (snd p)) (dset k v d)) = sum_list (map (\<lambda>p. f (snd p)) d) + x"
  using assms by (induction d) (auto simp: ac_simps split: option.splits)

section \<open>Measures\<close>

definition wf_groups :: "(rollup_grain, rollup_agg) dict \<Rightarrow> bool" where
  "wf_groups d \<longleftrightarrow> distinct (dkeys d) \<and> (\<forall>p \<in> set d. length (ag_tokens (snd p)) = 7)"

locale rollup_measure =
  fixes f :: "rollup_agg \<Rightarrow> 'v::comm_monoid_add" and h :: "joined_row \<Rightarrow> 'v"
  assumes of_record: "f (sql_record rows) = sum_list (map h rows)"
    and merge_new: "length (ag_tokens a) = 7 \<Longrightarrow> f (merge_agg None a) = f a"
    and merge_old: "length (ag_tokens a) = 7 \<Longrightarrow> length (ag_tokens g) = 7 \<Longrightarrow> f (merge_agg (Some g) a) = f g + f a"
begin

abbreviation total_of :: "(rollup_grain, rollup_agg) dict \<Rightarrow> 'v" where
  "total_of d \<equiv> sum_list (map (\<lambda>p. f (snd p)) d)"

lemma total_merge:
  assumes "wf_groups d" and "length (ag_tokens a) = 7"
  shows "total_of (merge_record roots (g, a) d) = total_of d + f a"
proof -
  have "length (ag_tokens w) = 7" if "dget d k = Some w" for k w
    using assms(1) map_of_SomeD [OF that] by (auto simp: wf_groups_def)
  then show ?thesis
    unfolding merge_record_def Let_def prod.case
    by (intro sum_dset) (auto simp: merge_new merge_old assms(2) split: option.split)
qed

end

lemma length_merge_agg: "length (ag_tokens a) = 7 \<Longrightarrow> (\<And>g. old = Some g \<Longrightarrow> length (ag_tokens g) = 7)
  \<Longrightarrow> length (ag_tokens (merge_agg old a)) = 7"
  by (auto simp: merge_agg_def Let_def split: option.split)

lemma set_dset_subset: "set (dset k v d) \<subseteq> insert (k, v) (set d)"
  by (induction d) auto

lemma wf_merge:
  assumes "wf_groups d" and "length (ag_tokens a) = 7"
  shows "wf_groups (merge_record roots (g, a) d)"
proof -
  have "length (ag_tokens w) = 7" if "dget d k = Some w" for k w
    using assms(1) map_of_SomeD [OF that] by (auto simp: wf_groups_def)
  then have l: "length (ag_tokens (merge_agg (dget d k) a)) = 7" for k
    using assms(2) by (intro length_merge_agg) auto
  show ?thesis
    using assms(1) l set_dset_subset [of _ _ d]
    by (fastforce simp: wf_groups_def merge_record_def Let_def distinct_update)
qed

lemma length_sql_record [simp]: "length (ag_tokens (sql_record rows)) = 7"
  by (simp add: sql_record_def)

context rollup_measure
begin

lemma total_fold:
  "wf_groups d \<Longrightarrow> total_of (fold (merge_record roots) (map (\<lambda>(k, rows). (k, sql_record rows)) gs) d)
     = total_of d + sum_list (map (\<lambda>(k, rows). sum_list (map h rows)) gs)"
proof (induction gs arbitrary: d)
  case (Cons p gs)
  obtain k rows where p: "p = (k, rows)" by (cases p)
  have w: "wf_groups (merge_record roots (k, sql_record rows) d)"
    by (rule wf_merge [OF Cons.prems length_sql_record])
  show ?case
    using Cons.IH [OF w] total_merge [OF Cons.prems length_sql_record]
    by (simp add: p of_record ac_simps)
qed simp

lemma conserve: "total_of (merged_groups db day roots) = sum_list (map h (day_rows db day))"
proof -
  have "sum_list (map (\<lambda>(k, rows). sum_list (map h rows)) (sql_groups key xs)) = sum_list (map h xs)"
    for key :: "joined_row \<Rightarrow> rollup_grain" and xs
    using sum_list_groups [of "group_keys key xs" key xs h] by (simp add: sql_groups_def comp_def)
  then show ?thesis
    unfolding merged_groups_def by (simp add: total_fold wf_groups_def)
qed

end

lemma coalesce_simps [simp]: "coalesce None d = d" "coalesce (Some v) d = v"
  by (simp_all add: coalesce_def)

lemma coalesce_sql_sum: "coalesce (sql_sum xs) 0 = sum_list (map (\<lambda>x. coalesce x 0) xs)"
proof -
  have e: "sum_list (map (\<lambda>x. coalesce x 0) xs) = sum_list (map the (filter (\<lambda>x. x \<noteq> None) xs))"
    by (induction xs) auto
  show ?thesis unfolding e sql_sum_def by (auto split: list.split)
qed

lemma coalesce_add_cost [simp]: "coalesce (add_cost l r) 0 = coalesce l 0 + coalesce r 0"
  by (auto simp: add_cost_def)

interpretation unpriced: rollup_measure ag_unpriced_count unpriced_part
  by unfold_locales (simp_all add: sql_record_def merge_agg_def Let_def)

interpretation priced: rollup_measure "\<lambda>a. coalesce (ag_cost_priced a) 0" "\<lambda>x. coalesce (priced_part x) 0"
  by unfold_locales (simp_all add: sql_record_def merge_agg_def Let_def coalesce_sql_sum comp_def)

interpretation partial: rollup_measure "\<lambda>a. coalesce (ag_cost_partial a) 0"
    "\<lambda>x. coalesce (status_part ''partial'' x) 0"
  by unfold_locales (simp_all add: sql_record_def merge_agg_def Let_def coalesce_sql_sum comp_def)

interpretation estimated: rollup_measure "\<lambda>a. coalesce (ag_cost_estimated a) 0"
    "\<lambda>x. coalesce (status_part ''estimated'' x) 0"
  by unfold_locales (simp_all add: sql_record_def merge_agg_def Let_def coalesce_sql_sum comp_def)

interpretation subscription: rollup_measure "\<lambda>a. coalesce (ag_subscription_value a) 0"
    "\<lambda>x. coalesce (subscription_part x) 0"
  by unfold_locales (simp_all add: sql_record_def merge_agg_def Let_def coalesce_sql_sum comp_def)

lemma tokens_measure:
  "i < 7 \<Longrightarrow> rollup_measure (\<lambda>a. ag_tokens a ! i) (\<lambda>x. token_columns (fst x) ! i)"
  by unfold_locales (simp_all add: sql_record_def merge_agg_def Let_def case_prod_unfold)

section \<open>A day is conserved\<close>

definition day_events :: "'a cost_db_scheme \<Rightarrow> date \<Rightarrow> ledger_row list" where
  "day_events db day = filter (\<lambda>r. is_final_attempt r \<and> utc_date (lg_ts_started r) = day) (lb_events (cd_ledger db))"

definition active_of :: "'a cost_db_scheme \<Rightarrow> ledger_row \<Rightarrow> computed_cost option" where
  "active_of db r = find (\<lambda>c. cost_key c = row_key r \<and> cc_active c) (cd_costs db)"

text \<open>What an event contributes to the cost of its day: the amount of its active cost when that is a
  known API cost, the transitional cost when it has none, nothing otherwise.\<close>

definition event_cost :: "'a cost_db_scheme \<Rightarrow> ledger_row \<Rightarrow> decimal" where
  "event_cost db r =
     (case active_of db r of
        None \<Rightarrow> coalesce (map_option dec_value (lg_cost_usd r)) 0
      | Some c \<Rightarrow> if cc_billing_mode c \<noteq> ''subscription''
             \<and> cc_cost_status c \<in> {''priced'', ''partial'', ''estimated''} then coalesce (cc_amount c) 0 else 0)"

lemma find_filter: "find P xs = (case filter P xs of [] \<Rightarrow> None | x # _ \<Rightarrow> Some x)"
  by (induction xs) auto

lemma join_cost_one:
  assumes "cost_inv (cd_costs db)"
  shows "join_cost db r = [(r, active_of db r)]"
proof -
  let ?a = "filter (\<lambda>c. cost_key c = row_key r \<and> cc_active c) (cd_costs db)"
  have "active_of db r = (case ?a of [] \<Rightarrow> None | c # _ \<Rightarrow> Some c)"
    unfolding active_of_def by (rule find_filter)
  moreover have "length ?a \<le> 1" by (rule active_unique [OF assms])
  ultimately show ?thesis by (cases ?a) (auto simp: join_cost_def)
qed

lemma day_rows_events:
  assumes "cost_inv (cd_costs db)"
  shows "day_rows db day = map (\<lambda>r. (r, active_of db r)) (day_events db day)"
proof -
  have "in_day day r \<longleftrightarrow> utc_date (lg_ts_started r) = day" for r
    by (simp only: utc_date_window in_day_def)
  then show ?thesis
    by (simp add: day_rows_def day_events_def join_cost_one [OF assms, abs_def] concat_map_singleton)
qed

lemma sum_rollups:
  "sum_list (map (\<lambda>q. f q) (aggregate_day db day roots))
    = sum_list (map (\<lambda>p. f (rollup_of day p)) (merged_groups db day roots))"
  by (simp add: aggregate_day_def comp_def)

lemma day_tokens:
  assumes "cost_inv (cd_costs db)" and "i < 7"
  shows "sum_list (map (\<lambda>q. ro_tokens q ! i) (aggregate_day db day roots))
    = sum_list (map (\<lambda>r. token_columns r ! i) (day_events db day))"
  using rollup_measure.conserve [OF tokens_measure [OF assms(2)], of db day roots]
  by (simp add: sum_rollups rollup_of_def case_prod_unfold day_rows_events [OF assms(1)] comp_def)

lemma day_costs:
  assumes "cost_inv (cd_costs db)"
  shows "sum_list (map (\<lambda>q. coalesce (ro_cost_usd q) 0) (aggregate_day db day roots))
    = sum_list (map (event_cost db) (day_events db day))"
proof -
  have part: "event_cost db = (\<lambda>r. coalesce (priced_part (r, active_of db r)) 0 + coalesce (status_part ''partial'' (r, active_of db r)) 0
      + coalesce (status_part ''estimated'' (r, active_of db r)) 0)"
    by (rule ext) (auto simp: priced_part_def status_part_def event_cost_def split: option.split)
  show ?thesis
    using priced.conserve [of db day roots] partial.conserve [of db day roots]
      estimated.conserve [of db day roots]
    by (simp add: sum_rollups rollup_of_def case_prod_unfold day_rows_events [OF assms(1)] comp_def
        sum_list_addf part)
qed

section \<open>The table after a rebuild\<close>

lemma distinct_merged: "distinct (dkeys (merged_groups db day roots))"
proof -
  have "distinct (dkeys (fold (merge_record roots) gs d))" if "distinct (dkeys d)" for gs d
    using that by (induction gs arbitrary: d) (auto simp: merge_record_def Let_def distinct_update)
  then show ?thesis by (simp add: merged_groups_def)
qed

lemma distinct_aggregate: "distinct (map ro_key (aggregate_day db day roots))"
proof -
  have "map ro_key (aggregate_day db day roots) = map (\<lambda>k. (day, k, DERIVED)) (dkeys (merged_groups db day roots))"
    by (simp add: aggregate_day_def rollup_of_def ro_key_def case_prod_unfold)
  then show ?thesis using distinct_merged [of db day roots] by (simp add: distinct_map inj_on_def)
qed

lemma aggregate_day_rows: "q \<in> set (aggregate_day db day roots) \<Longrightarrow> ro_day q = day \<and> ro_provenance q = DERIVED"
  by (auto simp: aggregate_day_def rollup_of_def)

lemma aggregate_day_cong [simp]:
  "aggregate_day (db\<lparr>rd_rollups := rs\<rparr>) day roots = aggregate_day (db :: 'a rollup_db_scheme) day roots"
proof -
  have "join_cost (db\<lparr>rd_rollups := rs\<rparr>) = join_cost db" by (simp add: join_cost_def fun_eq_iff)
  moreover have "raw_grain (db\<lparr>rd_rollups := rs\<rparr>) = raw_grain db"
    by (simp add: raw_grain_def source_name_def [abs_def])
  ultimately show ?thesis by (simp add: aggregate_day_def merged_groups_def day_rows_def)
qed

lemma upsert_new:
  "distinct (map ro_key (rows @ new)) \<Longrightarrow> daily_rollups_upsert new rows = rows @ new"
proof (induction new arbitrary: rows)
  case (Cons q new)
  then have "upsert_rollup q rows = rows @ [q]" by (auto simp: upsert_rollup_def)
  then show ?case using Cons.IH [of "rows @ [q]"] Cons.prems by (simp add: daily_rollups_upsert_def)
qed (simp add: daily_rollups_upsert_def)

lemma refresh_days:
  fixes db :: "'a rollup_db_scheme"
  assumes "distinct days" and "distinct (map ro_key (rd_rollups db))"
    and "\<forall>q \<in> set (rd_rollups db). ro_provenance q = DERIVED \<longrightarrow> ro_day q \<notin> set days"
  shows "snd (refresh_rollups_for_days days roots db)
    = db\<lparr>rd_rollups := rd_rollups db @ concat (map (\<lambda>d. aggregate_day db d roots) days)\<rparr>"
  using assms
proof (induction days arbitrary: db)
  case (Cons day days)
  let ?new = "aggregate_day db day roots"
  let ?db = "db\<lparr>rd_rollups := rd_rollups db @ ?new\<rparr>"
  have d: "distinct (map ro_key (rd_rollups db @ ?new))"
  proof -
    have ne: "ro_key q' \<noteq> ro_key q" if q': "q' \<in> set (rd_rollups db)" and q: "q \<in> set ?new" for q' q
    proof
      assume "ro_key q' = ro_key q"
      then have "ro_provenance q' = DERIVED" "ro_day q' = day"
        using aggregate_day_rows [OF q] by (simp_all add: ro_key_def)
      with Cons.prems(3) q' show False by simp
    qed
    have "ro_key ` set (rd_rollups db) \<inter> ro_key ` set ?new = {}"
      using ne by blast
    with Cons.prems(2) distinct_aggregate [of db day roots] show ?thesis by simp
  qed
  have "snd (refresh_rollups_for_days days roots ?db)
      = ?db\<lparr>rd_rollups := rd_rollups ?db @ concat (map (\<lambda>d. aggregate_day ?db d roots) days)\<rparr>"
  proof (rule Cons.IH)
    show "\<forall>q \<in> set (rd_rollups ?db). ro_provenance q = DERIVED \<longrightarrow> ro_day q \<notin> set days"
      using Cons.prems aggregate_day_rows [of _ db day roots] by auto
  qed (use Cons.prems d in auto)
  moreover have "(if ?new = [] then db else db\<lparr>rd_rollups := daily_rollups_upsert ?new (rd_rollups db)\<rparr>) = ?db"
    by (simp add: upsert_new [OF d])
  ultimately show ?case by (simp add: Let_def case_prod_unfold)
qed simp

lemma in_span:
  assumes "r \<in> set (day_events db day)"
  shows "day \<in> set (event_days (event_span db))"
proof -
  let ?ts = "map lg_ts_started (filter is_final_attempt (lb_events (cd_ledger db)))"
  have r: "lg_ts_started r \<in> set ?ts" and d: "utc_date (lg_ts_started r) = day"
    using assms by (auto simp: day_events_def)
  then have "Min (set ?ts) \<le> lg_ts_started r" "lg_ts_started r \<le> Max (set ?ts)"
    by (auto intro!: Min_le Max_ge)
  then have "utc_date (Min (set ?ts)) \<le> day" "day \<le> utc_date (Max (set ?ts))"
    unfolding d [symmetric] utc_date_def by (auto intro: zdiv_mono1)
  moreover have "?ts \<noteq> []" using r by (metis empty_iff list.set(1))
  ultimately show ?thesis by (simp add: event_span_def event_days_def Let_def)
qed

lemma no_rows_no_rollups: "day_rows db day = [] \<Longrightarrow> aggregate_day db day roots = []"
  by (simp add: aggregate_day_def merged_groups_def sql_groups_def group_keys_def)

lemma join_cost_nonempty: "join_cost db r \<noteq> []"
  by (simp add: join_cost_def split: list.split)

lemma outside_span: "day \<notin> set (event_days (event_span db)) \<Longrightarrow> aggregate_day db day roots = []"
proof (rule no_rows_no_rollups)
  assume out: "day \<notin> set (event_days (event_span db))"
  have "day_events db day = []" using in_span [of _ db day] out by (cases "day_events db day") auto
  then show "day_rows db day = []"
    by (auto simp: day_rows_def day_events_def filter_empty_conv in_day_def utc_date_window)
qed

lemma filter_concat_days:
  assumes "distinct days" and "\<And>d q. q \<in> set (f d) \<Longrightarrow> ro_day q = d \<and> ro_provenance q = DERIVED"
  shows "filter (\<lambda>q. ro_provenance q = DERIVED \<and> ro_day q = day) (concat (map f days))
    = (if day \<in> set days then f day else [])"
  using assms(1)
proof (induction days)
  case (Cons d days)
  have "filter (\<lambda>q. ro_provenance q = DERIVED \<and> ro_day q = day) (f d) = (if d = day then f d else [])"
    using assms(2) [of _ d] by (auto simp: filter_id_conv filter_empty_conv)
  with Cons show ?case by auto
qed simp

lemma rebuild_rows:
  fixes db :: "'a rollup_db_scheme"
  assumes "distinct (map ro_key (rd_rollups db))"
  shows "filter (\<lambda>q. ro_provenance q = DERIVED \<and> ro_day q = day) (rd_rollups (snd (rebuild_all_rollups roots db)))
      = aggregate_day db day roots
    \<and> filter (\<lambda>q. ro_provenance q \<noteq> DERIVED) (rd_rollups (snd (rebuild_all_rollups roots db)))
      = filter (\<lambda>q. ro_provenance q \<noteq> DERIVED) (rd_rollups db)"
proof -
  let ?kept = "filter (\<lambda>q. ro_provenance q \<noteq> DERIVED) (rd_rollups db)"
  let ?days = "event_days (event_span db)"
  have sp: "event_span (db\<lparr>rd_rollups := rs\<rparr>) = event_span db" for rs by (simp add: event_span_def)
  have dd: "distinct ?days" by (simp add: event_days_def split: option.split)
  have "distinct (map ro_key ?kept)" using assms by (rule distinct_map_filter)
  then have r: "rd_rollups (snd (rebuild_all_rollups roots db))
      = ?kept @ concat (map (\<lambda>d. aggregate_day db d roots) ?days)"
    unfolding rebuild_all_rollups_def Let_def sp by (subst refresh_days [OF dd]) auto
  have "filter (\<lambda>q. ro_provenance q = DERIVED \<and> ro_day q = day) ?kept = []"
    by (auto simp: filter_empty_conv)
  moreover have "filter (\<lambda>q. ro_provenance q = DERIVED \<and> ro_day q = day)
      (concat (map (\<lambda>d. aggregate_day db d roots) ?days)) = aggregate_day db day roots"
    by (subst filter_concat_days [OF dd]) (auto dest: aggregate_day_rows simp: outside_span)
  moreover have "filter (\<lambda>q. ro_provenance q \<noteq> DERIVED) (concat (map (\<lambda>d. aggregate_day db d roots) ?days)) = []"
    by (auto simp: filter_empty_conv dest: aggregate_day_rows)
  ultimately show ?thesis unfolding r by simp
qed

section \<open>The promises\<close>

text \<open>
  C16. Aggregating a day conserves every quantity: over the rows of a day, each of the seven token
  columns sums to the sum over the day's final attempts, and the costs sum to what those attempts cost,
  however the query groups them and the project folding merges groups. The hypothesis: at most one
  active cost per event.
\<close>

theorem aggregate_day_conserves:
  assumes "cost_inv (cd_costs db)"
  shows "(\<forall>i < 7. sum_list (map (\<lambda>q. ro_tokens q ! i) (aggregate_day db day roots))
      = sum_list (map (\<lambda>r. token_columns r ! i) (day_events db day)))
    \<and> sum_list (map (\<lambda>q. coalesce (ro_cost_usd q) 0) (aggregate_day db day roots))
      = sum_list (map (event_cost db) (day_events db day))"
  using day_tokens [OF assms] day_costs [OF assms] by blast

text \<open>
  C17. A rebuild makes the derived rollups of every day, also days without events, exactly the rows
  aggregated from the current ledger, each token column of them summing to the day's final attempts,
  and leaves imported rollups alone. The hypotheses: one row per grain, one active cost per event.
\<close>

theorem rebuild_all_rollups_exact:
  fixes db :: "'a rollup_db_scheme"
  assumes "distinct (map ro_key (rd_rollups db))" and "cost_inv (cd_costs db)"
  shows "let table = rd_rollups (snd (rebuild_all_rollups roots db)) in (\<forall>day. filter (\<lambda>q. ro_provenance q = DERIVED \<and> ro_day q = day) table = aggregate_day db day roots
      \<and> (\<forall>i < 7. sum_list (map (\<lambda>q. ro_tokens q ! i)
              (filter (\<lambda>q. ro_provenance q = DERIVED \<and> ro_day q = day) table))
          = sum_list (map (\<lambda>r. token_columns r ! i) (day_events db day))))
    \<and> filter (\<lambda>q. ro_provenance q \<noteq> DERIVED) table = filter (\<lambda>q. ro_provenance q \<noteq> DERIVED) (rd_rollups db)"
  unfolding Let_def using rebuild_rows [OF assms(1)] day_tokens [OF assms(2)] by simp

section \<open>A refresh alone leaves stale rows\<close>

definition sample_rollup_db :: "computed_cost list \<Rightarrow> rollup_row list \<Rightarrow> rollup_db" where
  "sample_rollup_db costs rollups = \<lparr>db_cards = [], db_next_card = 1, db_settings = [], db_audit = [],
     cd_ledger = empty_ledger\<lparr>lb_events := [usage_event_v2_row (sample_event Final 0 5) None None]\<rparr>,
     cd_costs = costs, cd_sources = \<lparr>st_rows = [], st_next = 1\<rparr>, rd_rollups = rollups\<rparr>"

lemma sample_day_events:
  "day_events (sample_rollup_db costs rollups) 0 = [usage_event_v2_row (sample_event Final 0 5) None None]"
  by (simp add: day_events_def sample_rollup_db_def)
    (simp add: is_final_attempt_def usage_event_v2_row_def sample_event_def utc_date_def as_utc_dt_def)

lemma sample_columns:
  "token_columns (usage_event_v2_row (sample_event Final 0 5) None None) = [10, 5, 0, 0, 0, 0, 15]"
  by (simp add: token_columns_def usage_event_v2_row_def sample_event_def)

theorem aggregate_day_conserves_witness:
  "sum_list (map (\<lambda>q. ro_tokens q ! 6) (aggregate_day (sample_rollup_db [] []) 0 DEFAULT_ROOTS)) = 15"
proof -
  have "cost_inv (cd_costs (sample_rollup_db [] []))" by (simp add: sample_rollup_db_def cost_inv_def)
  from aggregate_day_conserves [OF this, of 0 DEFAULT_ROOTS] show ?thesis
    by (simp add: sample_day_events sample_columns)
qed

theorem rebuild_all_rollups_exact_witness:
  "sum_list (map (\<lambda>q. ro_tokens q ! 0) (filter (\<lambda>q. ro_provenance q = DERIVED \<and> ro_day q = 0)
     (rd_rollups (snd (rebuild_all_rollups DEFAULT_ROOTS (sample_rollup_db [] []))))))= 10"
proof -
  have c: "cost_inv (cd_costs (sample_rollup_db [] []))" by (simp add: sample_rollup_db_def cost_inv_def)
  have d: "distinct (map ro_key (rd_rollups (sample_rollup_db [] [])))" by (simp add: sample_rollup_db_def)
  show ?thesis
    using rebuild_all_rollups_exact [OF d c, of DEFAULT_ROOTS, unfolded Let_def, THEN conjunct1, THEN spec [of _ 0],
        THEN conjunct2, THEN spec [of _ 0]]
    unfolding sample_day_events by (simp add: sample_columns)
qed

definition subscription_cost :: computed_cost where
  "subscription_cost = cost_row (''openai'', ''e1'') ''1'' SUBSCRIPTION None 0 (mk_result (Some 2) ''priced'' [])"

text \<open>
  A refresh of a day does not remove rows that have left the aggregation: when the billing mode of an
  event changes (here its first cost is a subscription cost), the row of the old grain stays beside the
  new one, and the day counts the event's 15 tokens twice, until the next rebuild.
\<close>

theorem refresh_leaves_stale_rows:
  "let before = snd (refresh_rollups_for_days [0] DEFAULT_ROOTS (sample_rollup_db [] []));
       costed = before\<lparr>cd_costs := [subscription_cost]\<rparr>;
       tokens_of = (\<lambda>db. map (\<lambda>q. ro_tokens q ! 6) (rd_rollups db))
   in tokens_of before = [15] \<and> cost_inv (cd_costs costed)
      \<and> tokens_of (snd (refresh_rollups_for_days [0] DEFAULT_ROOTS costed)) = [15, 15]
      \<and> tokens_of (snd (rebuild_all_rollups DEFAULT_ROOTS costed)) = [15]"
  by code_simp

end
