(* ===== verification/Repricing.thy ===== *)
theory Repricing
  imports Rollup_Laws
begin

text \<open>
  Auditable repricing and revert (\<open>services/repricing.py\<close>) and the server-side cache savings
  (\<open>services/cache_savings.py\<close>). \<open>now\<close> is the clock of the run. A revert re-activates stored costs; the
  audit entries keep their detail values before rendering.
\<close>

section \<open>Repricing\<close>

record reprice_result =
  rp_pricing_version :: string
  rp_affected :: nat

definition matching_events ::
  "int \<Rightarrow> int \<Rightarrow> string option \<Rightarrow> string option \<Rightarrow> 'a cost_db_scheme \<Rightarrow> ledger_row list" where
  "matching_events start finish provider native_model db =
     filter (\<lambda>r. is_final_attempt r \<and> start \<le> lg_ts_started r \<and> lg_ts_started r \<le> finish
          \<and> (provider = None \<or> provider = Some (lg_provider r))
          \<and> (native_model = None \<or> native_model = Some (lg_native_model r)))
       (lb_events (cd_ledger db))"

definition reprice_audit ::
  "string option \<Rightarrow> string \<Rightarrow> string option \<Rightarrow> string option \<Rightarrow> (string \<times> audit_value) list \<Rightarrow> int
   \<Rightarrow> 'a pricing_db_scheme \<Rightarrow> 'a pricing_db_scheme" where
  "reprice_audit actor action provider native_model detail now db =
     pricing_audit actor action (coalesce provider ''*'' @ ''/'' @ coalesce native_model ''*'') detail now db"

definition refresh_affected_rollups :: "string list \<Rightarrow> ledger_row list \<Rightarrow> 'a rollup_db_scheme \<Rightarrow> 'a rollup_db_scheme" where
  "refresh_affected_rollups roots rows db =
     (if rows = [] then db
      else snd (refresh_rollups_for_days
        (sorted_list_of_set (set (map (\<lambda>r. utc_date (lg_ts_started r)) rows))) roots db))"

definition reprice ::
  "string option \<Rightarrow> int \<Rightarrow> int \<Rightarrow> string option \<Rightarrow> string option \<Rightarrow> (string, string) dict \<Rightarrow> int
   \<Rightarrow> 'a rollup_db_scheme \<Rightarrow> unit cost_error + reprice_result \<times> 'a rollup_db_scheme" where
  "reprice actor start finish provider native_model overrides now db =
     (let (version, db1) = bump_pricing_version now db;
          rows = matching_events start finish provider native_model db1
      in case record_rows (worker_config overrides) now version rows db1 of
           Inl e \<Rightarrow> Inl e
         | Inr db2 \<Rightarrow>
             Inr (\<lparr>rp_pricing_version = version, rp_affected = length rows\<rparr>,
                  reprice_audit actor ''reprice'' provider native_model
                    [(''start'', AuTime start), (''end'', AuTime finish), (''affected'', AuInt (int (length rows))),
                     (''pricing_version'', AuStr version)] now
                    (refresh_affected_rollups DEFAULT_ROOTS rows db2)))"

section \<open>Revert\<close>

text \<open>\<open>scalar_one_or_none\<close> of an event's cost under a named pricing version.\<close>

definition cost_of_version :: "string \<times> string \<Rightarrow> string \<Rightarrow> computed_cost list \<Rightarrow> 'e cost_error + computed_cost option" where
  "cost_of_version k version costs =
     (case filter (\<lambda>c. cost_key c = k \<and> cc_pricing_version c = version) costs of
        [] \<Rightarrow> Inr None | [c] \<Rightarrow> Inr (Some c) | _ \<Rightarrow> Inl MultipleRows)"

definition activate_version :: "string \<times> string \<Rightarrow> string \<Rightarrow> computed_cost list \<Rightarrow> computed_cost list" where
  "activate_version k version costs =
     map (\<lambda>c. if cost_key c = k \<and> cc_pricing_version c = version then c\<lparr>cc_active := True\<rparr> else c)
       (deactivate k costs)"

fun revert_rows :: "string \<Rightarrow> ledger_row list \<Rightarrow> computed_cost list \<Rightarrow> unit cost_error + nat \<times> computed_cost list" where
  "revert_rows version [] costs = Inr (0, costs)"
| "revert_rows version (r # rows) costs =
     (case cost_of_version (row_key r) version costs of
        Inl e \<Rightarrow> Inl e
      | Inr None \<Rightarrow> revert_rows version rows costs
      | Inr (Some _) \<Rightarrow>
          (case revert_rows version rows (activate_version (row_key r) version costs) of
             Inl e \<Rightarrow> Inl e | Inr (n, costs') \<Rightarrow> Inr (Suc n, costs')))"

definition revert ::
  "string option \<Rightarrow> string \<Rightarrow> int \<Rightarrow> int \<Rightarrow> string option \<Rightarrow> string option \<Rightarrow> int
   \<Rightarrow> 'a rollup_db_scheme \<Rightarrow> unit cost_error + reprice_result \<times> 'a rollup_db_scheme" where
  "revert actor version start finish provider native_model now db =
     (case revert_rows version (matching_events start finish provider native_model db) (cd_costs db) of
        Inl e \<Rightarrow> Inl e
      | Inr (n, costs) \<Rightarrow>
          Inr (\<lparr>rp_pricing_version = version, rp_affected = n\<rparr>,
               reprice_audit actor ''reprice_revert'' provider native_model
                 [(''start'', AuTime start), (''end'', AuTime finish), (''reverted'', AuInt (int n)),
                  (''pricing_version'', AuStr version)] now
                 (db\<lparr>cd_costs := costs\<rparr>)))"

section \<open>Cache savings\<close>

record query_filters =
  qf_provider :: "string option"
  qf_native_model :: "string option"
  qf_source :: "string option"
  qf_machine :: "string option"
  qf_project :: "string option"
  qf_session_id :: "string option"
  qf_agent :: "string option"
  qf_environment :: "string option"
  qf_outcome :: "string option"
  qf_trace_id :: "string option"
  qf_unknown_provider :: bool
  qf_unknown_model :: bool

text \<open>The five filters that the savings query applies.\<close>

definition filter_matches :: "query_filters \<Rightarrow> ledger_row \<Rightarrow> bool" where
  "filter_matches f r \<longleftrightarrow> (qf_provider f = None \<or> qf_provider f = Some (lg_provider r))
     \<and> (qf_native_model f = None \<or> qf_native_model f = Some (lg_native_model r))
     \<and> (qf_machine f = None \<or> qf_machine f = lg_machine r)
     \<and> (qf_project f = None \<or> qf_project f = lg_project r)
     \<and> (qf_environment f = None \<or> qf_environment f = lg_environment r)"

text \<open>The range ends at 23:59:59 of the last day.\<close>

definition savings_range :: "date \<Rightarrow> date \<Rightarrow> ledger_row \<Rightarrow> bool" where
  "savings_range start finish r \<longleftrightarrow>
     start * DAY_US \<le> lg_ts_started r \<and> lg_ts_started r \<le> finish * DAY_US + 86399000000"

definition model_saving :: "'a cost_db_scheme \<Rightarrow> date \<Rightarrow> (string \<times> string) \<times> ledger_row list \<Rightarrow> decimal" where
  "model_saving db finish = (\<lambda>((provider, model), rows).
     let tokens = sum_list (map lg_cache_read_tokens rows)
     in if tokens = 0 then 0
        else case (resolve_rate (db_cards db) provider model ''input_token'' (OnDate finish) None ''realtime'' None,
                   resolve_rate (db_cards db) provider model ''cache_read_token'' (OnDate finish) None ''realtime'' None) of
            (Some input_rate, Some cache_rate) \<Rightarrow>
              let delta = rs_unit_price input_rate - rs_unit_price cache_rate
              in if delta > 0 then of_int tokens * delta else 0
          | _ \<Rightarrow> 0)"

definition cache_savings_usd :: "query_filters \<Rightarrow> date \<Rightarrow> date \<Rightarrow> 'a cost_db_scheme \<Rightarrow> decimal" where
  "cache_savings_usd f start finish db =
     sum_list (map (model_saving db finish)
       (sql_groups (\<lambda>r. (lg_provider r, lg_native_model r))
         (filter (\<lambda>r. is_final_attempt r \<and> savings_range start finish r \<and> filter_matches f r)
           (lb_events (cd_ledger db)))))"

end
