(* ===== verification/Repricing_Laws.thy ===== *)
theory Repricing_Laws
  imports Repricing
begin

text \<open>
  What repricing promises: a run prices every matching event under the new version and a revert to the
  former version gives back every cost as it was. The history of the cost table, its rows without the
  \<open>active\<close> flag, only grows; a state of the table is its history and, per event, the active version.
\<close>

section \<open>The history of the cost table\<close>

definition shelved :: "computed_cost \<Rightarrow> computed_cost" where
  "shelved c = c\<lparr>cc_active := False\<rparr>"

definition cost_history :: "computed_cost list \<Rightarrow> computed_cost list" where
  "cost_history costs = map shelved costs"

definition version_key :: "computed_cost \<Rightarrow> (string \<times> string) \<times> string" where
  "version_key c = (cost_key c, cc_pricing_version c)"

lemma shelved_simps [simp]:
  "cost_key (shelved c) = cost_key c" "cc_pricing_version (shelved c) = cc_pricing_version c"
  "version_key (shelved c) = version_key c" "shelved (shelved c) = shelved c"
  by (simp_all add: shelved_def cost_key_def version_key_def)

lemma shelved_eqD: "shelved c = shelved c' \<Longrightarrow> cc_active c = cc_active c' \<Longrightarrow> c = c'"
  by (cases c; cases c') (simp add: shelved_def)

lemma cost_inv_versions: "cost_inv costs \<Longrightarrow> distinct (map version_key costs)"
  by (simp add: cost_inv_def version_key_def [abs_def])

lemma version_keys_history: "map version_key (cost_history costs) = map version_key costs"
  by (simp add: cost_history_def comp_def)

lemma history_deactivate [simp]: "cost_history (deactivate k costs) = cost_history costs"
  by (simp add: cost_history_def deactivate_def shelved_def)

lemma history_record_new:
  assumes "cost_inv costs" and "cc_cost_status new \<in> set COST_STATUSES"
    and "version_key new \<notin> version_key ` set costs"
  shows "record_cost new costs = Inr (deactivate (cost_key new) costs @ [new\<lparr>cc_active := True\<rparr>])"
proof -
  have "version_key new \<notin> version_key ` set (deactivate (cost_key new) costs)"
  proof -
    have "map version_key (deactivate (cost_key new) costs) = map version_key costs"
      unfolding version_key_def [abs_def] by (rule deactivate_keys)
    then show ?thesis using assms(3) by (metis set_map)
  qed
  then have "filter (same_cost new) (deactivate (cost_key new) costs) = []"
    by (auto simp: filter_empty_conv same_cost_def version_key_def image_def)
  then show ?thesis
    using assms(1,2) by (simp add: record_cost_put cost_inv_def put_cost_def)
qed

text \<open>The active row of an event is determined by the history and its version.\<close>

lemma active_determined:
  assumes "cost_inv costs'" and "set (cost_history costs) \<subseteq> set (cost_history costs')"
    and "c \<in> set costs" "cc_active c" and "c' \<in> set costs'" "cc_active c'"
    and "version_key c = version_key c'"
  shows "c = c'"
proof -
  have d: "distinct (map version_key (cost_history costs'))"
    using cost_inv_versions [OF assms(1)] by (simp only: version_keys_history)
  have "shelved c \<in> set (cost_history costs')" using assms(2,3) by (auto simp: cost_history_def)
  moreover have "shelved c' \<in> set (cost_history costs')" using assms(5) by (simp add: cost_history_def)
  moreover have "version_key (shelved c) = version_key (shelved c')" using assms(7) by simp
  ultimately have "shelved c = shelved c'" using d by (meson distinct_map inj_onD)
  then show ?thesis using assms(4,6) by (simp add: shelved_eqD)
qed

lemma active_cost_Some_iff:
  assumes "cost_inv costs"
  shows "active_cost k costs = (Inr (Some c) :: 'e cost_error + computed_cost option)
    \<longleftrightarrow> c \<in> set costs \<and> cost_key c = k \<and> cc_active c"
proof -
  let ?a = "filter (\<lambda>c. cost_key c = k \<and> cc_active c) costs"
  have l: "length ?a \<le> 1" by (rule active_unique [OF assms])
  have s: "c \<in> set costs \<and> cost_key c = k \<and> cc_active c \<longleftrightarrow> c \<in> set ?a" by auto
  show ?thesis unfolding s using l by (cases ?a) (auto simp: active_cost_def)
qed

lemma active_cost_None_iff:
  assumes "cost_inv costs"
  shows "active_cost k costs = (Inr None :: 'e cost_error + computed_cost option) \<longleftrightarrow> \<not> has_active_cost costs k"
proof -
  have "length (filter (\<lambda>c. cost_key c = k \<and> cc_active c) costs) \<le> 1" by (rule active_unique [OF assms])
  then show ?thesis
    unfolding has_active_cost_filter
    by (cases "filter (\<lambda>c. cost_key c = k \<and> cc_active c) costs") (auto simp: active_cost_def)
qed

lemma active_cost_total:
  assumes "cost_inv costs"
  shows "\<exists>c. active_cost k costs = (Inr c :: 'e cost_error + computed_cost option)"
proof -
  have "length (filter (\<lambda>c. cost_key c = k \<and> cc_active c) costs) \<le> 1" by (rule active_unique [OF assms])
  then show ?thesis
    by (cases "filter (\<lambda>c. cost_key c = k \<and> cc_active c) costs") (auto simp: active_cost_def)
qed

section \<open>Pricing rows under a fresh version\<close>

lemma record_rows_history:
  assumes "cost_inv (cd_costs db)" and "\<forall>r \<in> set rows. is_final_attempt r"
    and "distinct (map row_key rows)" and "\<forall>r \<in> set rows. (row_key r, v) \<notin> version_key ` set (cd_costs db)"
  shows "\<exists>costs extra. record_rows (worker_config ov) now v rows db = Inr (db\<lparr>cd_costs := costs\<rparr>) \<and> cost_inv costs
    \<and> cost_history costs = cost_history (cd_costs db) @ extra
    \<and> (\<forall>c \<in> set costs. cc_active c \<longleftrightarrow>
          (if cost_key c \<in> row_key ` set rows then cc_pricing_version c = v
           else \<exists>c0 \<in> set (cd_costs db). cc_active c0 \<and> version_key c0 = version_key c))
    \<and> row_key ` set rows \<subseteq> cost_key ` {c \<in> set costs. cc_active c}"
  using assms
proof (induction rows arbitrary: db)
  case Nil
  have "cc_active c \<longleftrightarrow> (\<exists>c0 \<in> set (cd_costs db). cc_active c0 \<and> version_key c0 = version_key c)"
    if "c \<in> set (cd_costs db)" for c
    using cost_inv_versions [OF Nil.prems(1)] that by (auto simp: distinct_map inj_on_def)
  then show ?case using Nil.prems(1) by (intro exI [of _ "cd_costs db"] exI [of _ "[]"]) simp
next
  case (Cons r rows)
  obtain c where step: "compute_and_record_row (worker_config ov) (db_rates db) now r
      (billable_units_for db (row_key r)) (Some v) db
      = (case record_cost c (cd_costs db) of
           Inl e \<Rightarrow> Inl (e :: unit cost_error) | Inr costs \<Rightarrow> Inr (Some c, db\<lparr>cd_costs := costs\<rparr>))"
    and key: "cost_key c = row_key r" and ver: "cc_pricing_version c = v"
    and st: "cc_cost_status c \<in> set COST_STATUSES"
    using record_row_step [of r ov db now "billable_units_for db (row_key r)" v] Cons.prems(2) by auto
  have vk: "version_key c = (row_key r, v)" by (simp add: version_key_def key ver)
  have new: "version_key c \<notin> version_key ` set (cd_costs db)" using Cons.prems(4) by (simp add: vk)
  let ?costs = "deactivate (row_key r) (cd_costs db) @ [c\<lparr>cc_active := True\<rparr>]"
  let ?db = "db\<lparr>cd_costs := ?costs\<rparr>"
  have rec: "record_cost c (cd_costs db) = (Inr ?costs :: unit cost_error + computed_cost list)"
    using history_record_new [OF Cons.prems(1) st new] by (simp add: key)
  obtain costs1 where "record_cost c (cd_costs db) = (Inr costs1 :: unit cost_error + computed_cost list)"
    and "cost_inv costs1"
    using record_cost_ok [OF Cons.prems(1) st] by blast
  then have inv: "cost_inv ?costs" using rec by simp
  have vks: "version_key ` set ?costs = insert (row_key r, v) (version_key ` set (cd_costs db))"
  proof -
    have "map version_key (deactivate (row_key r) (cd_costs db)) = map version_key (cd_costs db)"
      unfolding version_key_def [abs_def] by (rule deactivate_keys)
    then have "version_key ` set (deactivate (row_key r) (cd_costs db)) = version_key ` set (cd_costs db)"
      by (metis set_map)
    moreover have "version_key (c\<lparr>cc_active := True\<rparr>) = (row_key r, v)"
      using vk by (simp add: version_key_def)
    ultimately show ?thesis by simp
  qed
  have inv'': "cost_inv (cd_costs ?db)" using inv by simp
  have fin': "\<forall>r \<in> set rows. is_final_attempt r" and d': "distinct (map row_key rows)"
    using Cons.prems(2,3) by simp_all
  have fresh': "\<forall>r \<in> set rows. (row_key r, v) \<notin> version_key ` set (cd_costs ?db)"
  proof
    fix r' assume r': "r' \<in> set rows"
    then have "row_key r' \<noteq> row_key r" using Cons.prems(3) by (auto simp: image_iff)
    moreover have "(row_key r', v) \<notin> version_key ` set (cd_costs db)" using Cons.prems(4) r' by simp
    moreover have "cd_costs ?db = ?costs" by simp
    ultimately show "(row_key r', v) \<notin> version_key ` set (cd_costs ?db)" using vks by (simp del: set_append)
  qed
  obtain costs extra where rest: "record_rows (worker_config ov) now v rows ?db = Inr (?db\<lparr>cd_costs := costs\<rparr>)"
    and inv': "cost_inv costs" and hist: "cost_history costs = cost_history (cd_costs ?db) @ extra"
    and act: "\<forall>x \<in> set costs. cc_active x \<longleftrightarrow>
          (if cost_key x \<in> row_key ` set rows then cc_pricing_version x = v
           else \<exists>c0 \<in> set (cd_costs ?db). cc_active c0 \<and> version_key c0 = version_key x)"
    and cover: "row_key ` set rows \<subseteq> cost_key ` {c \<in> set costs. cc_active c}"
    using Cons.IH [of ?db, OF inv'' fin' d' fresh'] by blast
  have fresh_r: "row_key r \<notin> row_key ` set rows" using Cons.prems(3) by auto
  have actD: "(\<exists>c0 \<in> set ?costs. cc_active c0 \<and> version_key c0 = version_key x) \<longleftrightarrow>
      (if cost_key x = row_key r then cc_pricing_version x = v
       else \<exists>c0 \<in> set (cd_costs db). cc_active c0 \<and> version_key c0 = version_key x)" for x
  proof -
    have "{c0 \<in> set (deactivate (row_key r) (cd_costs db)). cc_active c0}
        = {c0 \<in> set (cd_costs db). cc_active c0 \<and> cost_key c0 \<noteq> row_key r}"
      using arg_cong [OF deactivate_active [of "row_key r" "cd_costs db"], of set] by auto
    then have "(\<exists>c0 \<in> set (deactivate (row_key r) (cd_costs db)). cc_active c0 \<and> version_key c0 = version_key x)
        \<longleftrightarrow> (\<exists>c0 \<in> set (cd_costs db). cc_active c0 \<and> cost_key c0 \<noteq> row_key r \<and> version_key c0 = version_key x)"
      by blast
    moreover have "version_key (c\<lparr>cc_active := True\<rparr>) = version_key x
        \<longleftrightarrow> cost_key x = row_key r \<and> cc_pricing_version x = v"
      using vk by (auto simp: version_key_def)
    ultimately show ?thesis by (auto simp: version_key_def)
  qed
  have "record_rows (worker_config ov) now v (r # rows) db = Inr (db\<lparr>cd_costs := costs\<rparr>)"
    using rest by (simp add: step rec)
  moreover have "cost_history costs = cost_history (cd_costs db) @ (shelved c # extra)"
    using hist by (simp add: cost_history_def) (simp add: cost_history_def [symmetric] shelved_def)
  moreover have "\<forall>x \<in> set costs. cc_active x \<longleftrightarrow>
          (if cost_key x \<in> row_key ` set (r # rows) then cc_pricing_version x = v
           else \<exists>c0 \<in> set (cd_costs db). cc_active c0 \<and> version_key c0 = version_key x)"
    using act actD fresh_r by auto
  moreover have "row_key r \<in> cost_key ` {x \<in> set costs. cc_active x}"
  proof -
    have "shelved c \<in> set (cost_history costs)" using hist by (simp add: cost_history_def shelved_def)
    then obtain x where x: "x \<in> set costs" "shelved x = shelved c" by (auto simp: cost_history_def)
    then have "cost_key x = row_key r" "cc_pricing_version x = v"
      using key ver by (metis shelved_simps(1), metis shelved_simps(2))
    then have "cc_active x" using act actD fresh_r x(1) by auto
    with x(1) \<open>cost_key x = row_key r\<close> show ?thesis by (auto simp: image_iff intro: bexI [of _ x])
  qed
  ultimately show ?case using inv' cover by (intro exI [of _ costs] exI [of _ "shelved c # extra"]) auto
qed

section \<open>Re-activating a version\<close>

lemma cost_inv_iff: "cost_inv costs \<longleftrightarrow> distinct (map version_key costs)
    \<and> (\<forall>c \<in> set costs. \<forall>c' \<in> set costs. cc_active c \<longrightarrow> cc_active c' \<longrightarrow> cost_key c = cost_key c'
        \<longrightarrow> cc_pricing_version c = cc_pricing_version c')"
proof (cases "distinct (map version_key costs)")
  case True
  then have d: "distinct costs" and i: "inj_on version_key (set costs)" by (simp_all add: distinct_map)
  have "distinct (map cost_key (filter cc_active costs)) \<longleftrightarrow> inj_on cost_key {c \<in> set costs. cc_active c}"
    using d by (simp add: distinct_map)
  also have "\<dots> \<longleftrightarrow> (\<forall>c \<in> set costs. \<forall>c' \<in> set costs. cc_active c \<longrightarrow> cc_active c' \<longrightarrow> cost_key c = cost_key c'
        \<longrightarrow> cc_pricing_version c = cc_pricing_version c')"
    using i unfolding inj_on_def version_key_def by blast
  finally show ?thesis using True by (simp add: cost_inv_def version_key_def [abs_def])
next
  case False
  then show ?thesis by (simp add: cost_inv_def version_key_def [abs_def])
qed

lemma activate_version_map:
  "activate_version k v costs
    = map (\<lambda>c. if cost_key c = k then c\<lparr>cc_active := (cc_pricing_version c = v)\<rparr> else c) costs"
proof -
  have "(if cost_key (if cost_key c = k \<and> cc_active c then c\<lparr>cc_active := False\<rparr> else c) = k
          \<and> cc_pricing_version (if cost_key c = k \<and> cc_active c then c\<lparr>cc_active := False\<rparr> else c) = v
        then (if cost_key c = k \<and> cc_active c then c\<lparr>cc_active := False\<rparr> else c)\<lparr>cc_active := True\<rparr>
        else (if cost_key c = k \<and> cc_active c then c\<lparr>cc_active := False\<rparr> else c))
      = (if cost_key c = k then c\<lparr>cc_active := (cc_pricing_version c = v)\<rparr> else c)" for c
    by (cases c) (auto simp: cost_key_def)
  then show ?thesis by (simp add: activate_version_def deactivate_def comp_def)
qed

lemma activate_version_history [simp]: "cost_history (activate_version k v costs) = cost_history costs"
  by (simp add: cost_history_def activate_version_map shelved_def)

lemma activate_version_active:
  assumes "c \<in> set (activate_version k v costs)" and "distinct (map version_key costs)"
  shows "cc_active c \<longleftrightarrow> (if cost_key c = k then cc_pricing_version c = v
    else \<exists>c0 \<in> set costs. cc_active c0 \<and> version_key c0 = version_key c)"
proof -
  obtain c1 where c1: "c1 \<in> set costs"
    and c: "c = (if cost_key c1 = k then c1\<lparr>cc_active := (cc_pricing_version c1 = v)\<rparr> else c1)"
    using assms(1) unfolding activate_version_map by auto
  show ?thesis
  proof (cases "cost_key c1 = k")
    case True
    then show ?thesis using c by simp
  next
    case False
    then have "c = c1" using c by simp
    moreover have "(\<exists>c0 \<in> set costs. cc_active c0 \<and> version_key c0 = version_key c1) \<longleftrightarrow> cc_active c1"
      using assms(2) c1 by (auto simp: distinct_map inj_on_def)
    ultimately show ?thesis using False by simp
  qed
qed

lemma activate_version_inv: "cost_inv costs \<Longrightarrow> cost_inv (activate_version k v costs)"
proof -
  assume inv: "cost_inv costs"
  then have d: "distinct (map version_key costs)" by (rule cost_inv_versions)
  have "map version_key (activate_version k v costs) = map version_key costs"
    by (metis activate_version_history version_keys_history)
  then have d': "distinct (map version_key (activate_version k v costs))" using d by simp
  have one: "cc_pricing_version c = cc_pricing_version c'"
    if c: "c \<in> set (activate_version k v costs)" "cc_active c"
      and c': "c' \<in> set (activate_version k v costs)" "cc_active c'" and eq: "cost_key c = cost_key c'" for c c'
  proof (cases "cost_key c = k")
    case True
    then show ?thesis
      using activate_version_active [OF c(1) d] activate_version_active [OF c'(1) d] c(2) c'(2) eq by simp
  next
    case False
    have False': "cost_key c' \<noteq> k" using False eq by simp
    have "\<exists>x \<in> set costs. cc_active x \<and> version_key x = version_key c"
      using activate_version_active [OF c(1) d] c(2) False by simp
    then obtain x where x: "x \<in> set costs" "cc_active x" "version_key x = version_key c" by (elim bexE conjE)
    have "\<exists>x \<in> set costs. cc_active x \<and> version_key x = version_key c'"
      using activate_version_active [OF c'(1) d] c'(2) False' by simp
    then obtain x' where x': "x' \<in> set costs" "cc_active x'" "version_key x' = version_key c'" by (elim bexE conjE)
    have "cost_key x = cost_key x'" using x(3) x'(3) eq by (simp add: version_key_def)
    then have "cc_pricing_version x = cc_pricing_version x'"
      using inv x(1,2) x'(1,2) unfolding cost_inv_iff by blast
    then show ?thesis using x(3) x'(3) by (simp add: version_key_def)
  qed
  show ?thesis unfolding cost_inv_iff using d' one by blast
qed

lemma cost_of_version_Some:
  assumes "cost_inv costs" and "(k, v) \<in> version_key ` set costs"
  shows "\<exists>c. cost_of_version k v costs = (Inr (Some c) :: 'e cost_error + computed_cost option)"
proof -
  have "(\<lambda>c. cost_key c = k \<and> cc_pricing_version c = v) = (\<lambda>c. version_key c = (k, v))"
    by (auto simp: version_key_def)
  then show ?thesis
    using filter_distinct_key [OF cost_inv_versions [OF assms(1)], of "(k, v)"] assms(2)
    by (auto simp: cost_of_version_def filter_empty_conv)
qed

lemma version_keys_activate: "version_key ` set (activate_version k v costs) = version_key ` set costs"
  by (metis activate_version_history set_map version_keys_history)

lemma revert_rows_ok:
  assumes "cost_inv costs" and "\<forall>r \<in> set rows. (row_key r, v) \<in> version_key ` set costs"
    and "distinct (map row_key rows)"
  shows "\<exists>costs'. revert_rows v rows costs = Inr (length rows, costs') \<and> cost_inv costs'
    \<and> cost_history costs' = cost_history costs
    \<and> (\<forall>c \<in> set costs'. cc_active c \<longleftrightarrow>
          (if cost_key c \<in> row_key ` set rows then cc_pricing_version c = v
           else \<exists>c0 \<in> set costs. cc_active c0 \<and> version_key c0 = version_key c))"
  using assms
proof (induction rows arbitrary: costs)
  case Nil
  have "cc_active c \<longleftrightarrow> (\<exists>c0 \<in> set costs. cc_active c0 \<and> version_key c0 = version_key c)" if "c \<in> set costs" for c
    using cost_inv_versions [OF Nil.prems(1)] that by (auto simp: distinct_map inj_on_def)
  then show ?case using Nil.prems(1) by simp
next
  case (Cons r rows)
  let ?costs = "activate_version (row_key r) v costs"
  have d: "distinct (map version_key costs)" by (rule cost_inv_versions [OF Cons.prems(1)])
  obtain c where c: "cost_of_version (row_key r) v costs = (Inr (Some c) :: unit cost_error + computed_cost option)"
  proof -
    have "(row_key r, v) \<in> version_key ` set costs" using Cons.prems(2) by simp
    from cost_of_version_Some [OF Cons.prems(1) this] show ?thesis using that by blast
  qed
  obtain costs' where rest: "revert_rows v rows ?costs = Inr (length rows, costs')" and inv: "cost_inv costs'"
    and hist: "cost_history costs' = cost_history ?costs"
    and act: "\<forall>x \<in> set costs'. cc_active x \<longleftrightarrow>
          (if cost_key x \<in> row_key ` set rows then cc_pricing_version x = v
           else \<exists>c0 \<in> set ?costs. cc_active c0 \<and> version_key c0 = version_key x)"
    using Cons.IH [OF activate_version_inv [OF Cons.prems(1)], of "row_key r" v] Cons.prems(2,3)
    by (auto simp: version_keys_activate)
  have actD: "(\<exists>c0 \<in> set ?costs. cc_active c0 \<and> version_key c0 = version_key x) \<longleftrightarrow>
      (if cost_key x = row_key r then cc_pricing_version x = v
       else \<exists>c0 \<in> set costs. cc_active c0 \<and> version_key c0 = version_key x)"
    if "x \<in> set costs'" for x
  proof -
    have "version_key x \<in> version_key ` set ?costs"
    proof -
      have "version_key ` set costs' = version_key ` set ?costs"
        using hist by (metis set_map version_keys_history)
      with that show ?thesis by blast
    qed
    then obtain y where y: "y \<in> set ?costs" "version_key y = version_key x" by auto
    then have k: "cost_key y = cost_key x" "cc_pricing_version y = cc_pricing_version x"
      by (simp_all add: version_key_def)
    have "(\<exists>c0 \<in> set ?costs. cc_active c0 \<and> version_key c0 = version_key x) \<longleftrightarrow> cc_active y"
      using cost_inv_versions [OF activate_version_inv [OF Cons.prems(1)], of "row_key r" v] y
      by (auto simp: distinct_map inj_on_def)
    then show ?thesis using activate_version_active [OF y(1) d] k y(2) by simp
  qed
  have "revert_rows v (r # rows) costs = Inr (length (r # rows), costs')" using rest by (simp add: c)
  moreover have "\<forall>x \<in> set costs'. cc_active x \<longleftrightarrow>
          (if cost_key x \<in> row_key ` set (r # rows) then cc_pricing_version x = v
           else \<exists>c0 \<in> set costs. cc_active c0 \<and> version_key c0 = version_key x)"
    using act actD by auto
  ultimately show ?case using inv hist by (intro exI [of _ costs']) simp
qed

section \<open>Reprice, then revert\<close>

lemma refresh_days_fields:
  "cd_costs (snd (refresh_rollups_for_days days roots db)) = cd_costs db
   \<and> cd_ledger (snd (refresh_rollups_for_days days roots db)) = cd_ledger db"
  by (induction days arbitrary: db) (auto simp: Let_def case_prod_unfold)

lemma refresh_affected_fields [simp]:
  "cd_costs (refresh_affected_rollups roots rows db) = cd_costs db"
  "cd_ledger (refresh_affected_rollups roots rows db) = cd_ledger db"
  by (simp_all add: refresh_affected_rollups_def refresh_days_fields)

lemma reprice_audit_fields [simp]:
  "cd_costs (reprice_audit actor action p m detail now db) = cd_costs db"
  "cd_ledger (reprice_audit actor action p m detail now db) = cd_ledger db"
  "rd_rollups (reprice_audit actor action p m detail now db) = rd_rollups db"
  by (simp_all add: reprice_audit_def pricing_audit_def)

lemma bump_fields [simp]:
  "cd_costs (snd (bump_pricing_version now db)) = cd_costs db"
  "cd_ledger (snd (bump_pricing_version now db)) = cd_ledger db"
  by (simp_all add: bump_pricing_version_def Let_def)

lemma matching_events_ledger: "cd_ledger db' = cd_ledger db
  \<Longrightarrow> matching_events s f p m db' = matching_events s f p m db"
  by (simp add: matching_events_def)

lemma active_cost_eqI:
  assumes "cost_inv costs" and "cost_inv costs'"
    and "\<And>c. c \<in> set costs \<Longrightarrow> cc_active c \<Longrightarrow> cost_key c = k \<Longrightarrow> c \<in> set costs'"
    and "has_active_cost costs' k \<Longrightarrow> has_active_cost costs k"
  shows "active_cost k costs' = (active_cost k costs :: 'e cost_error + computed_cost option)"
proof (cases "has_active_cost costs k")
  case True
  then obtain c where "c \<in> set costs" "cc_active c" "cost_key c = k" by (auto simp: has_active_cost_def)
  then have "active_cost k costs = (Inr (Some c) :: 'e cost_error + computed_cost option)"
    and "active_cost k costs' = (Inr (Some c) :: 'e cost_error + computed_cost option)"
    using assms(3) by (simp_all add: active_cost_Some_iff [OF assms(1)] active_cost_Some_iff [OF assms(2)])
  then show ?thesis by simp
next
  case False
  then have "active_cost k costs = (Inr None :: 'e cost_error + computed_cost option)"
    and "active_cost k costs' = (Inr None :: 'e cost_error + computed_cost option)"
    using assms(4) by (auto simp: active_cost_None_iff [OF assms(1)] active_cost_None_iff [OF assms(2)])
  then show ?thesis by simp
qed

lemma shelved_member:
  assumes "set (cost_history costs) \<subseteq> set (cost_history costs')" and "c \<in> set costs"
  obtains y where "y \<in> set costs'" "shelved y = shelved c"
proof -
  have "shelved c \<in> set (cost_history costs')" using assms by (auto simp: cost_history_def)
  then show ?thesis using that by (auto simp: cost_history_def)
qed

lemma version_key_cong: "shelved y = shelved c \<Longrightarrow> version_key y = version_key c"
  by (metis shelved_simps(3))

text \<open>Two changes of the active versions, the second undoing the first.\<close>

lemma roundtrip_active:
  assumes inv: "cost_inv costs" and inv2: "cost_inv costs2"
    and h1: "cost_history costs1 = cost_history costs @ extra" and h2: "cost_history costs2 = cost_history costs1"
    and a1: "\<forall>c \<in> set costs1. cc_active c \<longleftrightarrow> (if cost_key c \<in> M then cc_pricing_version c = w
           else \<exists>c0 \<in> set costs. cc_active c0 \<and> version_key c0 = version_key c)"
    and a2: "\<forall>c \<in> set costs2. cc_active c \<longleftrightarrow> (if cost_key c \<in> M then cc_pricing_version c = v
           else \<exists>c0 \<in> set costs1. cc_active c0 \<and> version_key c0 = version_key c)"
    and old: "\<And>k. k \<in> M \<Longrightarrow> \<exists>c \<in> set costs. cost_key c = k \<and> cc_active c \<and> cc_pricing_version c = v"
  shows "active_cost k costs2 = (active_cost k costs :: 'e cost_error + computed_cost option)"
proof (rule active_cost_eqI [OF inv inv2])
  fix c assume c: "c \<in> set costs" "cc_active c" "cost_key c = k"
  have sub1: "set (cost_history costs) \<subseteq> set (cost_history costs1)" and
    sub2: "set (cost_history costs) \<subseteq> set (cost_history costs2)" using h1 h2 by simp_all
  obtain y where y: "y \<in> set costs2" "shelved y = shelved c" using shelved_member [OF sub2 c(1)] .
  obtain y1 where y1: "y1 \<in> set costs1" "shelved y1 = shelved c" using shelved_member [OF sub1 c(1)] .
  have vy: "version_key y = version_key c" and vy1: "version_key y1 = version_key c"
    by (rule version_key_cong [OF y(2)], rule version_key_cong [OF y1(2)])
  then have ky: "cost_key y = k" "cost_key y1 = k" "cc_pricing_version y = cc_pricing_version c"
    using c(3) by (simp_all add: version_key_def)
  have "cc_active y"
  proof (cases "k \<in> M")
    case True
    obtain c' where c': "c' \<in> set costs" "cost_key c' = k" "cc_active c'" "cc_pricing_version c' = v"
      using old [OF True] by blast
    have "cc_pricing_version c = v"
      using inv c c' unfolding cost_inv_iff by metis
    then show ?thesis using bspec [OF a2 y(1)] True ky by simp
  next
    case False
    have "\<exists>c0 \<in> set costs. cc_active c0 \<and> version_key c0 = version_key y1"
      using c(1,2) vy1 by (intro bexI [of _ c]) simp_all
    then have "cc_active y1" using bspec [OF a1 y1(1)] False ky(2) by simp
    then have "\<exists>c1 \<in> set costs1. cc_active c1 \<and> version_key c1 = version_key y"
      using y1(1) vy vy1 by (intro bexI [of _ y1]) simp_all
    then show ?thesis using bspec [OF a2 y(1)] False ky(1) by simp
  qed
  then have "c = y" using active_determined [OF inv2 sub2 c(1,2) y(1)] vy by simp
  then show "c \<in> set costs2" using y(1) by simp
next
  assume "has_active_cost costs2 k"
  then obtain c where c: "c \<in> set costs2" "cost_key c = k" "cc_active c" by (auto simp: has_active_cost_def)
  show "has_active_cost costs k"
  proof (cases "k \<in> M")
    case True
    from old [OF this] show ?thesis unfolding has_active_cost_def by blast
  next
    case False
    have "\<exists>c1 \<in> set costs1. cc_active c1 \<and> version_key c1 = version_key c"
      using bspec [OF a2 c(1)] c(2,3) False by simp
    then obtain c1 where c1: "c1 \<in> set costs1" "cc_active c1" "version_key c1 = version_key c" by (elim bexE conjE)
    then have "cost_key c1 = k" using c(2) by (simp add: version_key_def)
    then have "\<exists>c0 \<in> set costs. cc_active c0 \<and> version_key c0 = version_key c1"
      using bspec [OF a1 c1(1)] c1(2) False by simp
    then obtain c0 where "c0 \<in> set costs" "cc_active c0" "version_key c0 = version_key c1" by (elim bexE conjE)
    then show ?thesis using \<open>cost_key c1 = k\<close> by (auto simp: has_active_cost_def version_key_def)
  qed
qed

lemma reprice_revert:
  fixes db :: "'a rollup_db_scheme"
  assumes inv: "cost_inv (cd_costs db)" and d: "distinct (map row_key (lb_events (cd_ledger db)))"
    and fresh: "fst (bump_pricing_version now db) \<notin> cc_pricing_version ` set (cd_costs db)"
    and old: "\<forall>r \<in> set (matching_events s f p m db). \<exists>c \<in> set (cd_costs db).
      cost_key c = row_key r \<and> cc_active c \<and> cc_pricing_version c = v"
  shows "\<exists>res db1 res' db2. reprice actor s f p m ov now db = Inr (res, db1)
    \<and> revert actor v s f p m now' db1 = Inr (res', db2)
    \<and> rp_affected res = length (matching_events s f p m db) \<and> rp_affected res' = rp_affected res
    \<and> (\<forall>r \<in> set (matching_events s f p m db). \<exists>c.
          active_cost (row_key r) (cd_costs db1) = (Inr (Some c) :: unit cost_error + computed_cost option)
          \<and> cc_pricing_version c = rp_pricing_version res)
    \<and> (\<forall>k. active_cost k (cd_costs db2) = (active_cost k (cd_costs db) :: unit cost_error + computed_cost option))"
proof -
  obtain w db0 where b: "bump_pricing_version now db = (w, db0)" by (cases "bump_pricing_version now db")
  have f0: "cd_costs db0 = cd_costs db" "cd_ledger db0 = cd_ledger db"
    using bump_fields [of now db] b by simp_all
  let ?rows = "matching_events s f p m db"
  have rows0: "matching_events s f p m db0 = ?rows" by (rule matching_events_ledger [OF f0(2)])
  have fin: "\<forall>r \<in> set ?rows. is_final_attempt r" by (simp add: matching_events_def)
  have dr: "distinct (map row_key ?rows)" unfolding matching_events_def by (rule distinct_map_filter [OF d])
  have fr: "\<forall>r \<in> set ?rows. (row_key r, w) \<notin> version_key ` set (cd_costs db0)"
    using fresh b f0 by (auto simp: version_key_def)
  have inv0: "cost_inv (cd_costs db0)" using inv f0 by simp
  obtain costs1 extra where rec: "record_rows (worker_config ov) now w ?rows db0 = Inr (db0\<lparr>cd_costs := costs1\<rparr>)"
    and inv1: "cost_inv costs1" and h1: "cost_history costs1 = cost_history (cd_costs db0) @ extra"
    and a1: "\<forall>c \<in> set costs1. cc_active c \<longleftrightarrow>
          (if cost_key c \<in> row_key ` set ?rows then cc_pricing_version c = w
           else \<exists>c0 \<in> set (cd_costs db0). cc_active c0 \<and> version_key c0 = version_key c)"
    and cover: "row_key ` set ?rows \<subseteq> cost_key ` {c \<in> set costs1. cc_active c}"
    using record_rows_history [OF inv0 fin dr fr] by blast
  obtain res db1 where r1: "reprice actor s f p m ov now db = Inr (res, db1)"
    and res: "rp_affected res = length ?rows" "rp_pricing_version res = w"
    and c1: "cd_costs db1 = costs1" and l1: "cd_ledger db1 = cd_ledger db"
    using rec f0(2) that [of "\<lparr>rp_pricing_version = w, rp_affected = length ?rows\<rparr>"]
    by (simp add: reprice_def b rows0 Let_def)
  have known: "\<forall>r \<in> set ?rows. (row_key r, v) \<in> version_key ` set costs1"
  proof
    fix r assume "r \<in> set ?rows"
    then obtain c where c: "c \<in> set (cd_costs db)" "cost_key c = row_key r" "cc_pricing_version c = v"
      using old by blast
    have sub: "set (cost_history (cd_costs db)) \<subseteq> set (cost_history costs1)" using h1 f0 by simp
    obtain y where y: "y \<in> set costs1" "shelved y = shelved c" using shelved_member [OF sub c(1)] .
    have "version_key y = (row_key r, v)" using version_key_cong [OF y(2)] c(2,3) by (simp add: version_key_def)
    with y(1) show "(row_key r, v) \<in> version_key ` set costs1" by (metis image_eqI)
  qed
  obtain costs2 where rev: "revert_rows v ?rows costs1 = Inr (length ?rows, costs2)" and inv2: "cost_inv costs2"
    and h2: "cost_history costs2 = cost_history costs1"
    and a2: "\<forall>c \<in> set costs2. cc_active c \<longleftrightarrow>
          (if cost_key c \<in> row_key ` set ?rows then cc_pricing_version c = v
           else \<exists>c0 \<in> set costs1. cc_active c0 \<and> version_key c0 = version_key c)"
    using revert_rows_ok [OF inv1 known dr] by blast
  obtain res' db2 where r2: "revert actor v s f p m now' db1 = Inr (res', db2)"
    and res': "rp_affected res' = length ?rows" and c2: "cd_costs db2 = costs2"
    using rev by (simp add: revert_def c1 matching_events_ledger [OF l1])
  have priced: "\<exists>c. active_cost (row_key r) costs1 = (Inr (Some c) :: unit cost_error + computed_cost option)
      \<and> cc_pricing_version c = w" if r: "r \<in> set ?rows" for r
  proof -
    have "row_key r \<in> cost_key ` {c \<in> set costs1. cc_active c}" using cover r by blast
    then obtain c where c: "c \<in> set costs1" "cc_active c" "cost_key c = row_key r" by (elim imageE) auto
    then have "cc_pricing_version c = w" using bspec [OF a1 c(1)] r by simp
    then show ?thesis using c by (intro exI [of _ c]) (simp add: active_cost_Some_iff [OF inv1])
  qed
  have restored: "active_cost k costs2 = (active_cost k (cd_costs db) :: unit cost_error + computed_cost option)" for k
  proof (rule roundtrip_active [OF inv inv2 _ h2 _ a2])
    show "cost_history costs1 = cost_history (cd_costs db) @ extra" using h1 f0 by simp
    show "\<forall>c \<in> set costs1. cc_active c \<longleftrightarrow>
          (if cost_key c \<in> row_key ` set ?rows then cc_pricing_version c = w
           else \<exists>c0 \<in> set (cd_costs db). cc_active c0 \<and> version_key c0 = version_key c)"
      using a1 f0 by simp
    show "\<exists>c \<in> set (cd_costs db). cost_key c = k \<and> cc_active c \<and> cc_pricing_version c = v"
      if "k \<in> row_key ` set ?rows" for k
      using that old by (elim imageE) simp
  qed
  show ?thesis
    by (rule exI [of _ res], rule exI [of _ db1], rule exI [of _ res'], rule exI [of _ db2])
      (simp add: r1 r2 res res' c1 c2 priced restored)
qed

text \<open>
  C15. Repricing is reversible: a run prices every matching final attempt under the new version, and a
  revert of the same range to the version that was active before restores the authoritative cost of every
  event exactly, matching or not. Neither run can fail. The hypotheses: the table invariants, a version
  that no stored cost carries yet, and the matching events priced under the former version.
\<close>

theorem reprice_revert_roundtrip:
  fixes db :: "'a rollup_db_scheme"
  assumes "cost_inv (cd_costs db)" and "distinct (map row_key (lb_events (cd_ledger db)))"
    and "fst (bump_pricing_version now db) \<notin> cc_pricing_version ` set (cd_costs db)"
    and "\<forall>r \<in> set (matching_events s f p m db). \<exists>c \<in> set (cd_costs db).
      cost_key c = row_key r \<and> cc_active c \<and> cc_pricing_version c = v"
  shows "\<exists>res db1 res' db2. reprice actor s f p m ov now db = Inr (res, db1)
    \<and> revert actor v s f p m now' db1 = Inr (res', db2)
    \<and> rp_affected res = length (matching_events s f p m db) \<and> rp_affected res' = rp_affected res
    \<and> (\<forall>r \<in> set (matching_events s f p m db). \<exists>c.
          active_cost (row_key r) (cd_costs db1) = (Inr (Some c) :: unit cost_error + computed_cost option)
          \<and> cc_pricing_version c = rp_pricing_version res)
    \<and> (\<forall>k. active_cost k (cd_costs db2) = (active_cost k (cd_costs db) :: unit cost_error + computed_cost option))"
  using assms by (rule reprice_revert)

definition priced_db :: rollup_db where
  "priced_db = (sample_rollup_db [sample_cost] [])\<lparr>db_cards := [sample_card 1 (-5) None 3]\<rparr>"

lemma priced_matching: "matching_events 0 10 None None priced_db = [usage_event_v2_row (sample_event Final 0 5) None None]"
  by code_simp

theorem reprice_revert_roundtrip_witness:
  "\<exists>res db1 res' db2. reprice None 0 10 None None [] 7 priced_db = Inr (res, db1)
    \<and> revert None ''1'' 0 10 None None 8 db1 = Inr (res', db2) \<and> rp_affected res = 1
    \<and> active_cost (''openai'', ''e1'') (cd_costs db2)
      = (active_cost (''openai'', ''e1'') (cd_costs priced_db) :: unit cost_error + computed_cost option)"
proof -
  have 1: "cost_inv (cd_costs priced_db)" by code_simp
  have 2: "distinct (map row_key (lb_events (cd_ledger priced_db)))" by code_simp
  have 3: "fst (bump_pricing_version 7 priced_db) \<notin> cc_pricing_version ` set (cd_costs priced_db)" by code_simp
  have 4: "\<forall>r \<in> set (matching_events 0 10 None None priced_db). \<exists>c \<in> set (cd_costs priced_db).
      cost_key c = row_key r \<and> cc_active c \<and> cc_pricing_version c = ''1''" by code_simp
  show ?thesis using reprice_revert_roundtrip [OF 1 2 3 4, where actor = None and ov = "[]" and now' = 8] by (auto simp: priced_matching)
qed

section \<open>What a revert leaves behind\<close>

text \<open>
  A reprice refreshes the rollups of the days it touched, a revert does not: after a reprice to another
  price and the revert, the event costs 2 again while the rollup of its day still shows the repriced
  amount, until something else refreshes the day.
\<close>

theorem revert_leaves_rollups:
  "case reprice None 0 10 None None [] 7 priced_db of Inl _ \<Rightarrow> False | Inr (_, db1) \<Rightarrow>
     (case revert None ''1'' 0 10 None None 8 db1 of Inl _ \<Rightarrow> False | Inr (_, db2) \<Rightarrow>
        map ro_cost_usd (rd_rollups db2) = [Some 30]
        \<and> map ro_cost_usd (aggregate_day db2 0 DEFAULT_ROOTS) = [Some 2])"
  by code_simp

text \<open>
  The cache-savings query ignores most of the filters it is given: only provider, model, machine,
  project and environment restrict it; a filter on source, session, agent, outcome or trace gives the
  figure of the whole server.
\<close>

theorem cache_savings_ignores_filters:
  "cache_savings_usd (f\<lparr>qf_source := a, qf_session_id := b, qf_agent := c, qf_outcome := d, qf_trace_id := e,
     qf_unknown_provider := g, qf_unknown_model := h\<rparr>) start finish db = cache_savings_usd f start finish db"
  by (simp add: cache_savings_usd_def filter_matches_def [abs_def])

end
