(* ===== verification/Privacy.thy ===== *)
theory Privacy
  imports Usage_V2
begin

text \<open>
  The privacy gate of the v2 ingest (\<open>services/privacy.py\<close>): the recursive scan of \<open>extra\<close> for
  content-like keys, the bounds on dimensions and tool names, the size and depth limits. The serialized
  size of an event is pydantic's and is a parameter; the message texts of issues, which repeat the path
  and the limits, are left out. \<open>extra\<close> is a JSON object, whose keys are strings.
\<close>

section \<open>Content-like keys\<close>

definition CONTENT_KEY_TOKENS :: "string list" where
  "CONTENT_KEY_TOKENS = [''prompt'', ''response'', ''message'', ''content'', ''text'', ''arguments'', ''path'',
     ''code'', ''snippet'', ''completion'', ''body'']"

definition normalize_key :: "string \<Rightarrow> string" where
  "normalize_key key = filter is_alnum (str_lower key)"

definition looks_like_content :: "string \<Rightarrow> bool" where
  "looks_like_content key = list_ex (\<lambda>token. str_contains token (normalize_key key)) CONTENT_KEY_TOKENS"

fun json_depth :: "json \<Rightarrow> nat"
  and depth_items :: "json list \<Rightarrow> nat"
  and depth_entries :: "(string \<times> json) list \<Rightarrow> nat" where
  "json_depth (JObj es) = 1 + depth_entries es"
| "json_depth (JArr vs) = 1 + depth_items vs"
| "json_depth v = 0"
| "depth_items [] = 0"
| "depth_items (v # vs) = max (json_depth v) (depth_items vs)"
| "depth_entries [] = 0"
| "depth_entries ((k, v) # es) = max (json_depth v) (depth_entries es)"

section \<open>Policy and result\<close>

record validation_issue =
  vi_field_path :: string
  vi_code :: string

record privacy_policy =
  pp_mode :: string
  pp_dimension_allowlist :: "string list"
  pp_max_dimensions :: nat
  pp_max_key_length :: nat
  pp_max_value_length :: nat
  pp_tool_names_enabled :: bool
  pp_max_tool_names :: nat
  pp_max_tool_name_length :: nat
  pp_extra_namespaces :: "string list"
  pp_max_event_bytes :: nat
  pp_max_json_depth :: nat

definition default_policy :: privacy_policy where
  "default_policy = \<lparr>pp_mode = ''reject'',
     pp_dimension_allowlist = [''team'', ''cost_center'', ''environment''],
     pp_max_dimensions = 16, pp_max_key_length = 64, pp_max_value_length = 256,
     pp_tool_names_enabled = False, pp_max_tool_names = 32, pp_max_tool_name_length = 64,
     pp_extra_namespaces = [''gateway'', ''otel''], pp_max_event_bytes = 32768, pp_max_json_depth = 8\<rparr>"

record privacy_result =
  pr_event :: usage_event_v2
  pr_issues :: "validation_issue list"
  pr_stripped :: "string list"

definition pr_ok :: "privacy_result \<Rightarrow> bool" where
  "pr_ok r \<longleftrightarrow> pr_issues r = []"

definition issue_if :: "bool \<Rightarrow> string \<Rightarrow> string \<Rightarrow> validation_issue list" where
  "issue_if b path code = (if b then [\<lparr>vi_field_path = path, vi_code = code\<rparr>] else [])"

section \<open>The checks\<close>

text \<open>The dumped event is an object of scalars, the source, and up to five further containers.\<close>

definition event_depth :: "usage_event_v2 \<Rightarrow> nat" where
  "event_depth e = 1 + foldl max 0
     [1, if e2_routing e = None then 0 else 1, if e2_tool_histogram e = None then 0 else 1, 1,
      if e2_billable_units e = None then 0 else 1, json_depth (JObj (e2_extra e))]"

definition check_size_and_depth ::
  "(usage_event_v2 \<Rightarrow> nat) \<Rightarrow> privacy_policy \<Rightarrow> usage_event_v2 \<Rightarrow> validation_issue list" where
  "check_size_and_depth byte_size pol e =
     issue_if (pp_max_event_bytes pol < byte_size e) ''<event>'' ''event_too_large''
     @ issue_if (pp_max_json_depth pol < event_depth e) ''<event>'' ''event_too_deep''"

fun scan_value :: "string \<Rightarrow> json \<Rightarrow> json \<times> string list"
  and scan_items :: "string \<Rightarrow> nat \<Rightarrow> json list \<Rightarrow> json list \<times> string list"
  and scan_entries :: "string \<Rightarrow> (string \<times> json) list \<Rightarrow> (string \<times> json) list \<times> string list" where
  "scan_value path (JObj es) = (let (es', hits) = scan_entries path es in (JObj es', hits))"
| "scan_value path (JArr vs) = (let (vs', hits) = scan_items path 0 vs in (JArr vs', hits))"
| "scan_value path v = (v, [])"
| "scan_items path i [] = ([], [])"
| "scan_items path i (v # vs) =
     (let (v', hits) = scan_value (path @ ''['' @ str_of_nat i @ '']'') v;
          (vs', hits') = scan_items path (Suc i) vs
      in (v' # vs', hits @ hits'))"
| "scan_entries path [] = ([], [])"
| "scan_entries path ((k, v) # es) =
     (let child = path @ ''.'' @ k;
          (es', hits') = scan_entries path es
      in if looks_like_content k then (es', child # hits')
         else let (v', hits) = scan_value child v in ((k, v') # es', hits @ hits'))"

definition namespace_issues :: "privacy_policy \<Rightarrow> usage_event_v2 \<Rightarrow> validation_issue list" where
  "namespace_issues pol e =
     concat (map (\<lambda>(namespace, _).
       issue_if (namespace \<noteq> e2_provider e \<and> namespace \<notin> set (pp_extra_namespaces pol))
         (''extra.'' @ namespace) ''extra_namespace_not_allowed'') (e2_extra e))"

text \<open>The cleaned map, the issues and the stripped paths.\<close>

definition check_extra ::
  "privacy_policy \<Rightarrow> usage_event_v2 \<Rightarrow> (string \<times> json) list \<times> validation_issue list \<times> string list" where
  "check_extra pol e =
     (let (cleaned, hits) = scan_entries ''extra'' (e2_extra e)
      in (cleaned,
          namespace_issues pol e
            @ (if pp_mode pol = ''strip'' then [] else concat (map (\<lambda>p. issue_if True p ''content_key'') hits)),
          if pp_mode pol = ''strip'' then hits else []))"

definition check_dimensions :: "privacy_policy \<Rightarrow> usage_event_v2 \<Rightarrow> validation_issue list" where
  "check_dimensions pol e =
     issue_if (pp_max_dimensions pol < length (e2_dimensions e)) ''dimensions'' ''too_many_dimensions''
     @ concat (map (\<lambda>(k, v).
         issue_if (k \<notin> set (pp_dimension_allowlist pol)) (''dimensions.'' @ k) ''dimension_not_allowed''
         @ issue_if (pp_max_key_length pol < length k) (''dimensions.'' @ k) ''dimension_key_too_long''
         @ issue_if (pp_max_value_length pol < length v) (''dimensions.'' @ k) ''dimension_value_too_long'')
       (e2_dimensions e))"

definition check_tool_histogram :: "privacy_policy \<Rightarrow> usage_event_v2 \<Rightarrow> validation_issue list" where
  "check_tool_histogram pol e =
     (case e2_tool_histogram e of
        None \<Rightarrow> []
      | Some histogram \<Rightarrow>
          if \<not> pp_tool_names_enabled pol then issue_if True ''tool_histogram'' ''tool_names_disabled''
          else issue_if (pp_max_tool_names pol < length histogram) ''tool_histogram'' ''too_many_tool_names''
            @ concat (map (\<lambda>(name, count).
                issue_if (pp_max_tool_name_length pol < length name) (''tool_histogram.'' @ name) ''tool_name_too_long''
                @ issue_if (count < 0) (''tool_histogram.'' @ name) ''tool_count_negative'') histogram))"

definition replace_extra :: "usage_event_v2 \<Rightarrow> (string \<times> json) list \<Rightarrow> usage_event_v2" where
  "replace_extra e extra = e\<lparr>e2_extra := extra\<rparr>"

definition sanitize :: "(usage_event_v2 \<Rightarrow> nat) \<Rightarrow> privacy_policy \<Rightarrow> usage_event_v2 \<Rightarrow> privacy_result" where
  "sanitize byte_size pol e =
     (let (cleaned, extra_issues, stripped) = check_extra pol e
      in \<lparr>pr_event = (if pp_mode pol = ''strip'' \<and> stripped \<noteq> [] then replace_extra e cleaned else e),
          pr_issues = check_size_and_depth byte_size pol e @ extra_issues @ check_dimensions pol e
            @ check_tool_histogram pol e,
          pr_stripped = stripped\<rparr>)"

section \<open>What the scan leaves\<close>

fun content_free :: "json \<Rightarrow> bool"
  and items_free :: "json list \<Rightarrow> bool"
  and entries_free :: "(string \<times> json) list \<Rightarrow> bool" where
  "content_free (JObj es) = entries_free es"
| "content_free (JArr vs) = items_free vs"
| "content_free v = True"
| "items_free [] = True"
| "items_free (v # vs) = (content_free v \<and> items_free vs)"
| "entries_free [] = True"
| "entries_free ((k, v) # es) = (\<not> looks_like_content k \<and> content_free v \<and> entries_free es)"

lemma scan_unfold:
  "scan_items p i (v # vs) =
     (fst (scan_value (p @ ''['' @ str_of_nat i @ '']'') v) # fst (scan_items p (Suc i) vs),
      snd (scan_value (p @ ''['' @ str_of_nat i @ '']'') v) @ snd (scan_items p (Suc i) vs))"
  "scan_entries p ((k, v) # es) =
     (if looks_like_content k then (fst (scan_entries p es), (p @ ''.'' @ k) # snd (scan_entries p es))
      else ((k, fst (scan_value (p @ ''.'' @ k) v)) # fst (scan_entries p es),
            snd (scan_value (p @ ''.'' @ k) v) @ snd (scan_entries p es)))"
  "scan_value p (JObj es) = (JObj (fst (scan_entries p es)), snd (scan_entries p es))"
  "scan_value p (JArr vs) = (JArr (fst (scan_items p 0 vs)), snd (scan_items p 0 vs))"
  by (simp_all add: Let_def case_prod_unfold)

lemmas json_induct = content_free_items_free_entries_free.induct

lemma scan_cleans:
  "content_free (fst (scan_value p v))"
  "items_free (fst (scan_items p i vs))"
  "entries_free (fst (scan_entries p es))"
  by (induction v and vs and es arbitrary: p and p i and p rule: json_induct)
    (simp_all add: scan_unfold del: scan_items.simps(2) scan_entries.simps(2) scan_value.simps(1,2))

lemma scan_keeps:
  "content_free v \<Longrightarrow> scan_value p v = (v, [])"
  "items_free vs \<Longrightarrow> scan_items p i vs = (vs, [])"
  "entries_free es \<Longrightarrow> scan_entries p es = (es, [])"
  by (induction v and vs and es arbitrary: p and p i and p rule: json_induct)
    (simp_all add: scan_unfold del: scan_items.simps(2) scan_entries.simps(2) scan_value.simps(1,2))

lemma scan_no_hits:
  "snd (scan_value p v) = [] \<Longrightarrow> content_free v"
  "snd (scan_items p i vs) = [] \<Longrightarrow> items_free vs"
  "snd (scan_entries p es) = [] \<Longrightarrow> entries_free es"
  by (induction v and vs and es arbitrary: p and p i and p rule: json_induct)
    (auto simp: scan_unfold split: if_splits simp del: scan_items.simps(2) scan_entries.simps(2) scan_value.simps(1,2))

lemma scan_depth:
  "json_depth (fst (scan_value p v)) \<le> json_depth v"
  "depth_items (fst (scan_items p i vs)) \<le> depth_items vs"
  "depth_entries (fst (scan_entries p es)) \<le> depth_entries es"
  by (induction v and vs and es arbitrary: p and p i and p rule: json_induct)
    (auto simp: scan_unfold intro: max.coboundedI1 max.coboundedI2
      simp del: scan_items.simps(2) scan_entries.simps(2) scan_value.simps(1,2))

lemma scan_keys: "set (dkeys (fst (scan_entries p es))) \<subseteq> set (dkeys es)"
proof (induction es)
  case (Cons e es)
  obtain k v where "e = (k, v)" by (cases e)
  then have "set (dkeys (fst (scan_entries p (e # es)))) \<subseteq> insert k (set (dkeys (fst (scan_entries p es))))"
    by (auto simp: scan_unfold simp del: scan_entries.simps(2))
  also have "\<dots> \<subseteq> insert k (set (dkeys es))" using Cons.IH by (rule insert_mono)
  finally show ?case using \<open>e = (k, v)\<close> by simp
qed simp

section \<open>What the gate lets through\<close>

lemma issue_if_Nil [simp]: "issue_if b p c = [] \<longleftrightarrow> \<not> b"
  by (simp add: issue_if_def)

lemma sanitize_fields:
  "pr_stripped (sanitize bytes pol e) = (if pp_mode pol = ''strip'' then snd (scan_entries ''extra'' (e2_extra e)) else [])"
  "pr_event (sanitize bytes pol e) =
     (if pp_mode pol = ''strip'' then e\<lparr>e2_extra := fst (scan_entries ''extra'' (e2_extra e))\<rparr> else e)"
  using scan_no_hits(3) [of "''extra''" "e2_extra e"] scan_keeps(3) [of "e2_extra e" "''extra''"]
  by (auto simp: sanitize_def check_extra_def Let_def case_prod_unfold replace_extra_def)

lemma event_depth_eq: "event_depth e = Suc (max 1 (json_depth (JObj (e2_extra e))))"
  by (auto simp: event_depth_def)

text \<open>
  C20. The gate's contract. An event passes exactly if: as sent, its serialized size and its depth are within
  the limits; the keys at the top of \<open>extra\<close> are its provider or allowed namespaces; outside \<open>strip\<close>
  mode, \<open>extra\<close> has no content-like key at any depth; it has no more dimensions than allowed, each
  allowlisted and with key and value within their lengths; and a tool histogram comes only where the policy
  enables it, with no more tools than allowed, each name within its length and no count negative. Of the event
  handed on: it differs from the one sent in nothing but \<open>extra\<close>, and not at all outside \<open>strip\<close> mode or
  where there was nothing to strip; and if the event passed, it has no content-like key at any depth, no new
  key at the top of \<open>extra\<close>, and is within the depth limit.
\<close>

theorem sanitize_contract:
  "let e' = pr_event (sanitize bytes pol e) in
     (pr_ok (sanitize bytes pol e) \<longleftrightarrow>
        bytes e \<le> pp_max_event_bytes pol \<and> event_depth e \<le> pp_max_json_depth pol
      \<and> set (dkeys (e2_extra e)) \<subseteq> insert (e2_provider e) (set (pp_extra_namespaces pol))
      \<and> (pp_mode pol = ''strip'' \<or> entries_free (e2_extra e))
      \<and> length (e2_dimensions e) \<le> pp_max_dimensions pol
      \<and> (\<forall>(k, v) \<in> set (e2_dimensions e). k \<in> set (pp_dimension_allowlist pol)
          \<and> length k \<le> pp_max_key_length pol \<and> length v \<le> pp_max_value_length pol)
      \<and> (case e2_tool_histogram e of None \<Rightarrow> True
         | Some h \<Rightarrow> pp_tool_names_enabled pol \<and> length h \<le> pp_max_tool_names pol
             \<and> (\<forall>(name, count) \<in> set h. length name \<le> pp_max_tool_name_length pol \<and> 0 \<le> count)))
   \<and> (pr_ok (sanitize bytes pol e) \<longrightarrow> entries_free (e2_extra e')
        \<and> set (dkeys (e2_extra e')) \<subseteq> set (dkeys (e2_extra e)) \<and> event_depth e' \<le> pp_max_json_depth pol)
   \<and> e' = (if pp_mode pol = ''strip'' then e\<lparr>e2_extra := e2_extra e'\<rparr> else e)
   \<and> (entries_free (e2_extra e) \<longrightarrow> e' = e)"
proof -
  let ?e' = "pr_event (sanitize bytes pol e)"
  have hits: "snd (scan_entries ''extra'' (e2_extra e)) = [] \<longleftrightarrow> entries_free (e2_extra e)"
    using scan_no_hits(3) [of "''extra''" "e2_extra e"] scan_keeps(3) [of "e2_extra e" "''extra''"] by auto
  have ok: "pr_ok (sanitize bytes pol e) \<longleftrightarrow> check_size_and_depth bytes pol e = [] \<and> namespace_issues pol e = []
      \<and> (pp_mode pol = ''strip'' \<or> entries_free (e2_extra e)) \<and> check_dimensions pol e = [] \<and> check_tool_histogram pol e = []"
    by (auto simp: pr_ok_def sanitize_def check_extra_def Let_def case_prod_unfold issue_if_def hits [symmetric])
  have size: "check_size_and_depth bytes pol e = [] \<longleftrightarrow> bytes e \<le> pp_max_event_bytes pol \<and> event_depth e \<le> pp_max_json_depth pol"
    by (auto simp: check_size_and_depth_def)
  have names: "namespace_issues pol e = [] \<longleftrightarrow> set (dkeys (e2_extra e)) \<subseteq> insert (e2_provider e) (set (pp_extra_namespaces pol))"
    by (auto simp: namespace_issues_def case_prod_unfold)
  have dims: "check_dimensions pol e = [] \<longleftrightarrow> length (e2_dimensions e) \<le> pp_max_dimensions pol
      \<and> (\<forall>(k, v) \<in> set (e2_dimensions e). k \<in> set (pp_dimension_allowlist pol)
          \<and> length k \<le> pp_max_key_length pol \<and> length v \<le> pp_max_value_length pol)"
    by (auto simp: check_dimensions_def case_prod_unfold)
  have tools: "check_tool_histogram pol e = [] \<longleftrightarrow> (case e2_tool_histogram e of None \<Rightarrow> True
      | Some h \<Rightarrow> pp_tool_names_enabled pol \<and> length h \<le> pp_max_tool_names pol
          \<and> (\<forall>(name, count) \<in> set h. length name \<le> pp_max_tool_name_length pol \<and> 0 \<le> count))"
    by (auto simp: check_tool_histogram_def case_prod_unfold not_less split: option.split)
  have free: "entries_free (e2_extra ?e')" if "pr_ok (sanitize bytes pol e)"
    using that scan_cleans(3) [of "''extra''" "e2_extra e"] by (auto simp: sanitize_fields ok)
  have keys: "set (dkeys (e2_extra ?e')) \<subseteq> set (dkeys (e2_extra e))"
    using scan_keys [of "''extra''" "e2_extra e"] by (simp add: sanitize_fields)
  have depth: "event_depth ?e' \<le> event_depth e"
    using scan_depth(3) [of "''extra''" "e2_extra e"] by (auto simp: sanitize_fields event_depth_eq)
  have same: "?e' = e" if "entries_free (e2_extra e)"
    using scan_keeps(3) [OF that, of "''extra''"] by (simp add: sanitize_fields)
  have only: "?e' = (if pp_mode pol = ''strip'' then e\<lparr>e2_extra := e2_extra ?e'\<rparr> else e)"
    by (simp add: sanitize_fields)
  have passed: "entries_free (e2_extra ?e') \<and> set (dkeys (e2_extra ?e')) \<subseteq> set (dkeys (e2_extra e))
      \<and> event_depth ?e' \<le> pp_max_json_depth pol" if p: "pr_ok (sanitize bytes pol e)"
    using free [OF p] keys depth p unfolding ok size by (meson order_trans)
  have pass: "pr_ok (sanitize bytes pol e) \<longleftrightarrow>
        bytes e \<le> pp_max_event_bytes pol \<and> event_depth e \<le> pp_max_json_depth pol
      \<and> set (dkeys (e2_extra e)) \<subseteq> insert (e2_provider e) (set (pp_extra_namespaces pol))
      \<and> (pp_mode pol = ''strip'' \<or> entries_free (e2_extra e))
      \<and> length (e2_dimensions e) \<le> pp_max_dimensions pol
      \<and> (\<forall>(k, v) \<in> set (e2_dimensions e). k \<in> set (pp_dimension_allowlist pol)
          \<and> length k \<le> pp_max_key_length pol \<and> length v \<le> pp_max_value_length pol)
      \<and> (case e2_tool_histogram e of None \<Rightarrow> True
         | Some h \<Rightarrow> pp_tool_names_enabled pol \<and> length h \<le> pp_max_tool_names pol
             \<and> (\<forall>(name, count) \<in> set h. length name \<le> pp_max_tool_name_length pol \<and> 0 \<le> count))"
    unfolding ok size names dims tools by (simp only: conj_assoc)
  show ?thesis
    unfolding Let_def using passed same by (intro conjI pass only) blast+
qed

text \<open>
  Sanitizing is idempotent: what the gate returned it returns again unchanged, with nothing left to
  strip, in either mode, whether or not the event passed.
\<close>

theorem sanitize_idempotent:
  "pr_event (sanitize bytes pol (pr_event (sanitize bytes pol e))) = pr_event (sanitize bytes pol e)
   \<and> pr_stripped (sanitize bytes pol (pr_event (sanitize bytes pol e))) = []"
  using scan_keeps(3) [OF scan_cleans(3) [of "''extra''" "e2_extra e"], of "''extra''"]
  by (simp add: sanitize_fields)

end
