(* ===== verification/Py_Text.thy ===== *)
theory Py_Text
  imports Py_Json "HOL-Library.Monad_Syntax"
begin

text \<open>
  How the code writes numbers and times: \<open>f"{x:.1f}"\<close>, \<open>f"{t:%H:%M}"\<close>, \<open>datetime.isoformat\<close>, and the
  \<open>datetime.fromisoformat\<close> of such a text. A day number counts from 1970-01-01; the calendar is the proleptic
  Gregorian one of the \<open>datetime\<close> module. Of the spellings \<open>fromisoformat\<close> accepts, \<open>parse_iso\<close> reads the
  extended one that \<open>isoformat\<close> writes, with optional seconds and the suffix \<open>Z\<close>.
\<close>

section \<open>Numbers\<close>

fun digits :: "nat \<Rightarrow> nat \<Rightarrow> string" where
  "digits 0 n = []"
| "digits (Suc w) n = digits w (n div 10) @ [char_of (48 + n mod 10)]"

definition fmt_fixed :: "nat \<Rightarrow> rat \<Rightarrow> string" where
  "fmt_fixed d x =
     (let n = nat (round_half_even (\<bar>x\<bar> * 10 ^ d))
      in (if x < 0 then ''-'' else []) @ str_of_nat (n div 10 ^ d)
         @ (if d = 0 then [] else CHR ''.'' # digits d (n mod 10 ^ d)))"

definition str_of_int :: "int \<Rightarrow> string" where
  "str_of_int i = (if i < 0 then ''-'' @ str_of_nat (nat (- i)) else str_of_nat (nat i))"

definition round_to :: "nat \<Rightarrow> rat \<Rightarrow> rat" where
  "round_to d x = of_int (round_half_even (x * 10 ^ d)) / 10 ^ d"

lemma length_digits [simp]: "length (digits w n) = w"
  by (induction w n rule: digits.induct) simp_all

lemma digits_are_digits [simp]: "list_all is_digit (digits w n)"
  by (induction w n rule: digits.induct) (simp_all add: is_digit_digit)

lemma nat_of_digits_digits [simp]: "nat_of_digits (digits w n) = n mod 10 ^ w"
proof (induction w n rule: digits.induct)
  case (2 w n)
  have "nat_of_digits (digits (Suc w) n) = 10 * (n div 10 mod 10 ^ w) + n mod 10"
    using 2 by (simp add: nat_of_digits_snoc of_char_digit)
  then show ?case by (simp add: mod_mult2_eq)
qed (simp add: nat_of_digits_def)

section \<open>The calendar\<close>

definition EPOCH_ORDINAL :: int where "EPOCH_ORDINAL = 719162"

definition days_before_year :: "int \<Rightarrow> int" where
  "days_before_year k = 365 * k + k div 4 - k div 100 + k div 400"

definition is_leap :: "int \<Rightarrow> bool" where
  "is_leap y \<longleftrightarrow> 4 dvd y \<and> (\<not> 100 dvd y \<or> 400 dvd y)"

definition days_before_month :: "bool \<Rightarrow> nat \<Rightarrow> int" where
  "days_before_month leap m =
     [0, 31, 59, 90, 120, 151, 181, 212, 243, 273, 304, 334] ! (m - 1) + (if leap \<and> 2 < m then 1 else 0)"

lemma div_Suc: "0 < m \<Longrightarrow> (k + 1) div m = k div m + (if m dvd k + 1 then 1 else 0)" for k m :: int
proof -
  assume m: "0 < m"
  have k: "k = m * (k div m) + k mod m" and r: "0 \<le> k mod m" "k mod m < m" using m by simp_all
  show ?thesis
  proof (cases "k mod m = m - 1")
    case True
    then have "k + 1 = m * (k div m) + m" using k by linarith
    then have "k + 1 = m * (k div m + 1)" by (simp add: distrib_left)
    then show ?thesis using m by simp
  next
    case False
    then have lt: "k mod m + 1 < m" using r by simp
    have e: "k + 1 = m * (k div m) + (k mod m + 1)" using k by simp
    have "(k + 1) div m = k div m" using m r lt by (subst e, subst div_mult_self4) simp_all
    moreover have "\<not> m dvd k + 1"
    proof
      assume "m dvd k + 1"
      then have "(k + 1) mod m = 0" by simp
      moreover have "(k + 1) mod m = (k mod m + 1) mod m" by (simp add: mod_simps)
      moreover have "(k mod m + 1) mod m = k mod m + 1" using lt r by (simp add: mod_pos_pos_trivial)
      ultimately show False using r by simp
    qed
    ultimately show ?thesis by simp
  qed
qed

lemma days_before_next_year: "days_before_year (k + 1) = days_before_year k + (if is_leap (k + 1) then 366 else 365)"
proof -
  have "400 dvd k + 1 \<Longrightarrow> 100 dvd k + 1" "100 dvd k + 1 \<Longrightarrow> 4 dvd k + 1"
    by (erule dvd_trans [rotated], simp)+
  then show ?thesis
    unfolding days_before_year_def is_leap_def div_Suc [of 4 k, simplified] div_Suc [of 100 k, simplified] div_Suc [of 400 k, simplified]
    by (cases "4 dvd k + 1"; cases "100 dvd k + 1"; cases "400 dvd k + 1") simp_all
qed

function year_search :: "int \<Rightarrow> int \<Rightarrow> int" where
  "year_search n k = (if n < days_before_year (k + 1) then k else year_search n (k + 1))"
  by auto
termination
  by (relation "measure (\<lambda>(n, k). nat (n + 1 - days_before_year k))") (auto simp: days_before_next_year split: if_splits)

declare year_search.simps [simp del]

function month_search :: "bool \<Rightarrow> int \<Rightarrow> nat \<Rightarrow> nat" where
  "month_search leap doy m =
     (if m < 12 \<and> days_before_month leap (m + 1) \<le> doy then month_search leap doy (m + 1) else m)"
  by auto
termination
  by (relation "measure (\<lambda>(leap, doy, m). 12 - m)") auto

declare month_search.simps [simp del]

definition ymd_of_ordinal :: "int \<Rightarrow> int \<times> nat \<times> int" where
  "ymd_of_ordinal n =
     (let k = year_search n (400 * n div 146097 - 1); leap = is_leap (k + 1); doy = n - days_before_year k;
          m = month_search leap doy 1
      in (k + 1, m, doy - days_before_month leap m + 1))"

definition ordinal_of_ymd :: "int \<Rightarrow> nat \<Rightarrow> int \<Rightarrow> int" where
  "ordinal_of_ymd y m d = days_before_year (y - 1) + days_before_month (is_leap y) m + d - 1"

definition valid_ymd :: "int \<Rightarrow> nat \<Rightarrow> int \<Rightarrow> bool" where
  "valid_ymd y m d \<longleftrightarrow> 1 \<le> y \<and> y \<le> 9999 \<and> 1 \<le> m \<and> m \<le> 12 \<and> 1 \<le> d
     \<and> d \<le> (if m = 12 then 31 else days_before_month (is_leap y) (m + 1) - days_before_month (is_leap y) m)"

lemma year_search_bounds:
  "days_before_year k \<le> n \<Longrightarrow>
   days_before_year (year_search n k) \<le> n \<and> n < days_before_year (year_search n k + 1)"
proof (induction n k rule: year_search.induct)
  case (1 n k)
  then show ?case by (cases "n < days_before_year (k + 1)") (simp_all add: year_search.simps [of n k])
qed

lemma div_bounds: "4 * (k div 4) \<le> k \<and> k - 99 \<le> 100 * (k div 100) \<and> 400 * (k div 400) \<le> k" for k :: int
  by (intro conjI) presburger+

lemma year_start_arith:
  fixes k n a b c :: int
  assumes "146097 * (k + 1) \<le> 400 * n" and "4 * a \<le> k" and "k - 99 \<le> 100 * b" and "400 * c \<le> k"
  shows "365 * k + a - b + c \<le> n"
proof -
  have "400 * a \<le> 100 * k" "4 * k - 396 \<le> 400 * b" using assms(2,3) by simp_all
  then have "400 * (365 * k + a - b + c) \<le> 146097 * (k + 1)" using assms(4) by (simp add: algebra_simps)
  then show ?thesis using assms(1) by simp
qed

lemma year_start: "days_before_year (400 * n div 146097 - 1) \<le> n"
proof -
  define k where "k = 400 * n div 146097 - 1"
  have "146097 * (k + 1) \<le> 400 * n" by (simp add: k_def)
  then show ?thesis unfolding days_before_year_def k_def [symmetric] using div_bounds [of k]
    by (elim conjE) (rule year_start_arith)
qed

lemma ordinal_of_ymd_of_ordinal: "(case ymd_of_ordinal n of (y, m, d) \<Rightarrow> ordinal_of_ymd y m d) = n"
  by (simp add: ymd_of_ordinal_def ordinal_of_ymd_def Let_def)

lemma month_search_bounds:
  "\<lbrakk>1 \<le> m; m \<le> 12; days_before_month leap m \<le> doy\<rbrakk> \<Longrightarrow>
   let r = month_search leap doy m in 1 \<le> r \<and> r \<le> 12 \<and> days_before_month leap r \<le> doy
     \<and> (r < 12 \<longrightarrow> doy < days_before_month leap (r + 1))"
proof (induction leap doy m rule: month_search.induct)
  case (1 leap doy m)
  show ?case
  proof (cases "m < 12 \<and> days_before_month leap (m + 1) \<le> doy")
    case True
    then show ?thesis using 1 by (simp add: month_search.simps [of leap doy m])
  qed (use "1.prems" in \<open>auto simp: month_search.simps [of leap doy m]\<close>)
qed

lemma days_before_month_first: "days_before_month leap (Suc 0) = 0"
  by (simp add: days_before_month_def)

lemma days_mono: "j \<le> k \<Longrightarrow> days_before_year j \<le> days_before_year k"
proof (induction k rule: int_ge_induct)
  case (step k)
  then show ?case by (auto simp: days_before_next_year)
qed simp

lemma valid_ymd_of_ordinal:
  assumes "0 \<le> n" and "n < days_before_year 9999"
  shows "case ymd_of_ordinal n of (y, m, d) \<Rightarrow> valid_ymd y m d"
proof -
  define k where "k = year_search n (400 * n div 146097 - 1)"
  have b: "days_before_year k \<le> n" "n < days_before_year (k + 1)"
    using year_search_bounds [OF year_start] by (simp_all add: k_def)
  have lo: "0 \<le> k"
  proof (rule ccontr)
    assume "\<not> 0 \<le> k"
    then have "days_before_year (k + 1) \<le> days_before_year 0" by (intro days_mono) simp
    then show False using b(2) assms(1) by (simp add: days_before_year_def [of 0])
  qed
  have hi: "k < 9999"
  proof (rule ccontr)
    assume "\<not> k < 9999"
    then have "days_before_year 9999 \<le> days_before_year k" by (intro days_mono) simp
    then show False using b(1) assms(2) by linarith
  qed
  have d: "0 \<le> n - days_before_year k" "n - days_before_year k < (if is_leap (k + 1) then 366 else 365)"
    using b by (auto simp: days_before_next_year split: if_splits)
  let ?leap = "is_leap (k + 1)"
  define m where "m = month_search ?leap (n - days_before_year k) (Suc 0)"
  have m: "1 \<le> m" "m \<le> 12" "days_before_month ?leap m \<le> n - days_before_year k"
    "m < 12 \<longrightarrow> n - days_before_year k < days_before_month ?leap (m + 1)"
    using month_search_bounds [of "Suc 0" ?leap "n - days_before_year k", folded m_def] d(1)
    by (simp_all add: Let_def days_before_month_first)
  have "m = 12 \<Longrightarrow> n - days_before_year k < days_before_month ?leap 12 + 31"
    using d(2) by (simp add: days_before_month_def split: if_splits)
  then show ?thesis using m lo hi
    by (auto simp: ymd_of_ordinal_def k_def [symmetric] m_def [symmetric] Let_def valid_ymd_def)
qed

section \<open>Timestamps as text\<close>

abbreviation SECOND_US :: int where "SECOND_US \<equiv> 1000000"

abbreviation MINUTE_US :: int where "MINUTE_US \<equiv> 60000000"

abbreviation HOUR_US :: int where "HOUR_US \<equiv> 3600000000"

definition wall_us :: "py_datetime \<Rightarrow> int" where
  "wall_us t = dt_instant t + dt_offset t"

definition hour_minute :: "py_datetime \<Rightarrow> string" where
  "hour_minute t = (let us = wall_us t mod DAY_US
     in digits 2 (nat (us div HOUR_US)) @ '':'' @ digits 2 (nat (us div MINUTE_US mod 60)))"

definition clock_text :: "bool \<Rightarrow> int \<Rightarrow> string" where
  "clock_text seconds us =
     (let s = nat (us div SECOND_US mod 60); f = nat (us mod SECOND_US)
      in digits 2 (nat (us div HOUR_US)) @ CHR '':'' # digits 2 (nat (us div MINUTE_US mod 60))
         @ (if seconds \<or> s \<noteq> 0 \<or> f \<noteq> 0 then CHR '':'' # digits 2 s else [])
         @ (if f \<noteq> 0 then CHR ''.'' # digits 6 f else []))"

definition iso_format :: "py_datetime \<Rightarrow> string" where
  "iso_format t =
     (case ymd_of_ordinal (wall_us t div DAY_US + EPOCH_ORDINAL) of (y, m, d) \<Rightarrow>
        digits 4 (nat y) @ CHR ''-'' # digits 2 m @ CHR ''-'' # digits 2 (nat d) @ CHR ''T''
        # clock_text True (wall_us t mod DAY_US)
        @ (if dt_offset t < 0 then CHR ''-'' else CHR ''+'') # clock_text False \<bar>dt_offset t\<bar>)"

definition take_number :: "nat \<Rightarrow> string \<Rightarrow> (nat \<times> string) option" where
  "take_number w s =
     (if w \<le> length s \<and> list_all is_digit (take w s) then Some (nat_of_digits (take w s), drop w s) else None)"

definition take_char :: "char \<Rightarrow> string \<Rightarrow> string option" where
  "take_char c s = (case s of [] \<Rightarrow> None | d # t \<Rightarrow> if d = c then Some t else None)"

definition clock_value :: "nat \<Rightarrow> nat \<Rightarrow> nat \<Rightarrow> nat \<Rightarrow> string \<Rightarrow> (int \<times> string) option" where
  "clock_value h m s f rest =
     (if h < 24 \<and> m < 60 \<and> s < 60
      then Some (int h * HOUR_US + int m * MINUTE_US + int s * SECOND_US + int f, rest) else None)"

definition parse_clock :: "string \<Rightarrow> (int \<times> string) option" where
  "parse_clock text = do {
     (h, r1) \<leftarrow> take_number 2 text;
     r2 \<leftarrow> take_char (CHR '':'') r1;
     (m, r3) \<leftarrow> take_number 2 r2;
     (case take_char (CHR '':'') r3 of
        None \<Rightarrow> clock_value h m 0 0 r3
      | Some r4 \<Rightarrow> do {
          (s, r5) \<leftarrow> take_number 2 r4;
          (case take_char (CHR ''.'') r5 of
             None \<Rightarrow> clock_value h m s 0 r5
           | Some r6 \<Rightarrow> do { (f, r7) \<leftarrow> take_number 6 r6; clock_value h m s f r7 })}) }"

definition parse_zone :: "string \<Rightarrow> int option option" where
  "parse_zone r = (case r of [] \<Rightarrow> Some None
     | c # z \<Rightarrow>
         if c = CHR ''Z'' \<and> z = [] then Some (Some 0)
         else if c = CHR ''+'' \<or> c = CHR ''-''
         then do { (us, rest) \<leftarrow> parse_clock z;
                   if rest = [] then Some (Some (if c = CHR ''-'' then - us else us)) else None }
         else None)"

definition parse_iso :: "string \<Rightarrow> raw_datetime option" where
  "parse_iso text = do {
     (y, r1) \<leftarrow> take_number 4 text; r2 \<leftarrow> take_char (CHR ''-'') r1;
     (m, r3) \<leftarrow> take_number 2 r2; r4 \<leftarrow> take_char (CHR ''-'') r3;
     (d, r5) \<leftarrow> take_number 2 r4; r6 \<leftarrow> take_char (CHR ''T'') r5;
     (us, r7) \<leftarrow> parse_clock r6;
     zone \<leftarrow> parse_zone r7;
     if valid_ymd (int y) m (int d)
     then let wall = (ordinal_of_ymd (int y) m (int d) - EPOCH_ORDINAL) * DAY_US + us
          in Some (case zone of None \<Rightarrow> Naive wall | Some off \<Rightarrow> Aware \<lparr>dt_instant = wall - off, dt_offset = off\<rparr>)
     else None }"

definition representable :: "py_datetime \<Rightarrow> bool" where
  "representable t \<longleftrightarrow> 0 \<le> wall_us t div DAY_US + EPOCH_ORDINAL
     \<and> wall_us t div DAY_US + EPOCH_ORDINAL < days_before_year 9999 \<and> \<bar>dt_offset t\<bar> < DAY_US"

lemma take_number_digits [simp]: "take_number w (digits w n @ rest) = Some (n mod 10 ^ w, rest)"
  by (simp add: take_number_def)

lemma take_number_digits_end [simp]: "take_number w (digits w n) = Some (n mod 10 ^ w, [])"
  by (simp add: take_number_def)

lemma take_char_Cons [simp]: "take_char c (d # s) = (if d = c then Some s else None)" "take_char c [] = None"
  by (simp_all add: take_char_def)

lemma clock_parts:
  fixes us :: int
  assumes "0 \<le> us" and "us < DAY_US"
  shows "nat (us div HOUR_US) < 24" "nat (us div MINUTE_US mod 60) < 60" "nat (us div SECOND_US mod 60) < 60"
    "nat (us mod SECOND_US) < 1000000"
    "int (nat (us div HOUR_US)) * HOUR_US + int (nat (us div MINUTE_US mod 60)) * MINUTE_US
      + int (nat (us div SECOND_US mod 60)) * SECOND_US + int (nat (us mod SECOND_US)) = us"
proof -
  have a: "us div MINUTE_US = us div SECOND_US div 60" "us div HOUR_US = us div SECOND_US div 60 div 60"
    by (simp_all add: zdiv_zmult2_eq [symmetric])
  define s where "s = us div SECOND_US"
  have us: "us = s * SECOND_US + us mod SECOND_US" by (simp add: s_def)
  have s: "0 \<le> s" "s < 86400" using assms by (auto simp: s_def)
  define h m where "h = s div 60 div 60" and "m = s div 60 mod 60"
  have q: "s = (s div 60) * 60 + s mod 60" "s div 60 = h * 60 + m" by (simp_all add: h_def m_def)
  then have split: "s = h * 3600 + m * 60 + s mod 60" by linarith
  have m: "0 \<le> m" "m < 60" and s60: "0 \<le> s mod 60" "s mod 60 < 60" by (simp_all add: m_def)
  have h: "0 \<le> h" "h < 24" using split m s60 s by linarith+
  have r: "0 \<le> us mod SECOND_US" "us mod SECOND_US < SECOND_US" by simp_all
  show "nat (us div HOUR_US) < 24" "nat (us div MINUTE_US mod 60) < 60" "nat (us div SECOND_US mod 60) < 60"
    "nat (us mod SECOND_US) < 1000000"
    using h m r unfolding a s_def [symmetric] h_def [symmetric] m_def [symmetric] by simp_all
  show "int (nat (us div HOUR_US)) * HOUR_US + int (nat (us div MINUTE_US mod 60)) * MINUTE_US
      + int (nat (us div SECOND_US mod 60)) * SECOND_US + int (nat (us mod SECOND_US)) = us"
    unfolding a s_def [symmetric] h_def [symmetric] m_def [symmetric]
    using h m r us split by simp
qed

lemma parse_clock_digits:
  assumes "h < 24" and "m < 60" and "s < 60" and "f < 1000000" and "b \<or> s = 0 \<and> f = 0"
    and "take_char (CHR '':'') rest = None" and "take_char (CHR ''.'') rest = None"
  shows "parse_clock (digits 2 h @ CHR '':'' # digits 2 m @ (if b then CHR '':'' # digits 2 s else [])
      @ (if f \<noteq> 0 then CHR ''.'' # digits 6 f else []) @ rest)
    = Some (int h * HOUR_US + int m * MINUTE_US + int s * SECOND_US + int f, rest)"
  using assms by (cases b; cases "f = 0") (simp_all add: parse_clock_def clock_value_def del: digits.simps)

lemma parse_clock_text:
  assumes "0 \<le> us" and "us < DAY_US" and "rest = [] \<or> hd rest \<noteq> CHR '':'' \<and> hd rest \<noteq> CHR ''.''"
  shows "parse_clock (clock_text seconds us @ rest) = Some (us, rest)"
proof -
  have no: "take_char (CHR '':'') rest = None" "take_char (CHR ''.'') rest = None"
    using assms(3) by (cases rest; simp)+
  note parts = clock_parts [OF assms(1,2)]
  have "(seconds \<or> nat (us div SECOND_US mod 60) \<noteq> 0 \<or> nat (us mod SECOND_US) \<noteq> 0)
      \<or> nat (us div SECOND_US mod 60) = 0 \<and> nat (us mod SECOND_US) = 0" by argo
  from parse_clock_digits [OF parts(1-4) this no] show ?thesis
    unfolding parts(5) clock_text_def Let_def append_assoc append_Cons .
qed

text \<open>
  Writing a representable timestamp with \<open>isoformat\<close> and reading it back with \<open>fromisoformat\<close> gives the
  same instant and offset.
\<close>

theorem iso_roundtrip:
  assumes "representable t"
  shows "parse_iso (iso_format t) = Some (Aware t)"
proof -
  let ?n = "wall_us t div DAY_US + EPOCH_ORDINAL"
  obtain y m d where ymd: "ymd_of_ordinal ?n = (y, m, d)" by (cases "ymd_of_ordinal ?n")
  have v: "valid_ymd y m d" using valid_ymd_of_ordinal [of ?n] assms ymd by (simp add: representable_def)
  have o: "ordinal_of_ymd y m d = ?n" using ordinal_of_ymd_of_ordinal [of ?n] ymd by simp
  have range: "0 \<le> y" "nat y < 10000" "m < 100" "0 \<le> d" "nat d < 100"
    using v by (auto simp: valid_ymd_def days_before_month_def nth_Cons' split: if_splits)
  have c: "parse_clock (clock_text True (wall_us t mod DAY_US) @ z # zs) = Some (wall_us t mod DAY_US, z # zs)"
    if "z \<noteq> CHR '':''" "z \<noteq> CHR ''.''" for z zs
    by (rule parse_clock_text) (use that in simp_all)
  have z: "parse_clock (clock_text False \<bar>dt_offset t\<bar>) = Some (\<bar>dt_offset t\<bar>, [])"
    using parse_clock_text [of "\<bar>dt_offset t\<bar>" "[]" False] assms by (simp add: representable_def)
  have w: "wall_us t - dt_offset t = dt_instant t" by (simp add: wall_us_def)
  show ?thesis using v range
    by (simp add: iso_format_def ymd parse_iso_def c parse_zone_def z o w Let_def del: digits.simps)
qed

theorem iso_roundtrip_witness:
  "parse_iso (iso_format \<lparr>dt_instant = 1709210096000007, dt_offset = - 12600000000\<rparr>)
     = Some (Aware \<lparr>dt_instant = 1709210096000007, dt_offset = - 12600000000\<rparr>)"
  by (rule iso_roundtrip) (simp add: representable_def wall_us_def EPOCH_ORDINAL_def days_before_year_def)

lemma iso_example: "iso_format \<lparr>dt_instant = 1709210096000007, dt_offset = 0\<rparr> = ''2024-02-29T12:34:56.000007+00:00''"
  by code_simp

end
