(* ===== verification/Ingest_V2.thy ===== *)
theory Ingest_V2
  imports Py_Text Privacy Sources Revisions
begin

text \<open>
  The transactional v2 batch ingest (\<open>services/ingest_v2.py\<close>) with the logical-request service
  (\<open>services/logical_requests.py\<close>): privacy validation of the whole batch, source resolution, the trace
  check, the revision engine event by event, the recomputation of the touched logical requests, source
  health, and the batch record. A raised exception is a left value; the caller's transaction then leaves
  the tables as they were. The random batch id and the clock are parameters. The touched requests are a
  Python set; they are recomputed here in the order of the batch.
\<close>

section \<open>Logical requests\<close>

record logical_request =
  lr_provider :: string
  lr_logical_request_id :: string
  lr_requested_model :: "string option"
  lr_session_id :: "string option"
  lr_routing_policy :: "string option"
  lr_routing_reason :: "string option"
  lr_attempt_count :: nat
  lr_fallback_count :: nat
  lr_winning_attempt_id :: "string option"
  lr_ts_first :: "int option"
  lr_ts_last :: "int option"

text \<open>\<open>x or y\<close> on an optional string: an empty string is false too.\<close>

definition str_or :: "string option \<Rightarrow> string \<Rightarrow> string" where
  "str_or x y = (case x of None \<Rightarrow> y | Some s \<Rightarrow> if s = [] then y else s)"

definition attempt_id_of :: "ledger_row \<Rightarrow> string" where
  "attempt_id_of r = str_or (lg_attempt_id r) (lg_event_id r)"

definition completed_at :: "ledger_row \<Rightarrow> int" where
  "completed_at r = (case lg_ts_completed r of None \<Rightarrow> lg_ts_started r | Some t \<Rightarrow> t)"

definition is_fallback :: "ledger_row \<Rightarrow> bool" where
  "is_fallback r = (case lg_routing r of None \<Rightarrow> False
     | Some ro \<Rightarrow> ro_fallback_from ro \<noteq> None \<and> ro_fallback_from ro \<noteq> Some [])"

definition aggregate_request ::
  "string \<Rightarrow> string \<Rightarrow> ledger_row list \<Rightarrow> ledger_row option \<Rightarrow> logical_request" where
  "aggregate_request provider lrid attempts summary =
     (let winning = max_by completed_at (filter (\<lambda>a. lg_success a \<and> lg_finality a = ''final'') attempts);
          meta_source = (case summary of Some s \<Rightarrow> Some s | None \<Rightarrow> min_by lg_ts_started attempts);
          routing = Option.bind meta_source lg_routing
      in \<lparr>lr_provider = provider, lr_logical_request_id = lrid,
          lr_requested_model = Option.bind meta_source lg_requested_model,
          lr_session_id = Option.bind meta_source lg_session_id,
          lr_routing_policy = Option.bind routing ro_policy,
          lr_routing_reason = Option.bind routing ro_reason,
          lr_attempt_count = length attempts,
          lr_fallback_count = length (filter is_fallback attempts),
          lr_winning_attempt_id = map_option attempt_id_of winning,
          lr_ts_first = map_option lg_ts_started (min_by lg_ts_started attempts),
          lr_ts_last = map_option completed_at (max_by completed_at attempts)\<rparr>)"

definition request_key :: "logical_request \<Rightarrow> string \<times> string" where
  "request_key q = (lr_provider q, lr_logical_request_id q)"

definition put_request :: "logical_request \<Rightarrow> logical_request list \<Rightarrow> logical_request list" where
  "put_request q qs =
     (if request_key q \<in> request_key ` set qs then map (\<lambda>p. if request_key p = request_key q then q else p) qs
      else qs @ [q])"

definition request_rows :: "string \<Rightarrow> string \<Rightarrow> ledger_row list \<Rightarrow> ledger_row list" where
  "request_rows provider lrid rows =
     filter (\<lambda>r. lg_provider r = provider \<and> lg_logical_request_id r = Some lrid) rows"

definition derive_request :: "string \<Rightarrow> string \<Rightarrow> ledger_row list \<Rightarrow> logical_request option" where
  "derive_request provider lrid all_rows =
     (let rows = request_rows provider lrid all_rows;
          attempts = filter (\<lambda>r. lg_event_kind r = ''attempt'') rows;
          summary = find (\<lambda>r. lg_event_kind r = ''logical_request'') rows
      in if attempts = [] \<and> summary = None then None
         else Some (aggregate_request provider lrid attempts summary))"

definition recompute_request :: "ledger_row list \<Rightarrow> string \<times> string \<Rightarrow> logical_request list \<Rightarrow> logical_request list" where
  "recompute_request all_rows = (\<lambda>(provider, lrid) qs.
     case derive_request provider lrid all_rows of None \<Rightarrow> qs | Some q \<Rightarrow> put_request q qs)"

section \<open>The batch\<close>

record batch_issue =
  bi_index :: nat
  bi_field_path :: string
  bi_code :: string

record ingest_batch =
  ib_batch_id :: string
  ib_source_id :: "int option"
  ib_token_label :: "string option"
  ib_accepted :: nat
  ib_updated :: nat
  ib_duplicate :: nat
  ib_rejected :: nat
  ib_corrected :: nat
  ib_schema_version :: int
  ib_received_at :: int
  ib_request_id :: "string option"

record ingest_result =
  ir_batch_id :: string
  ir_accepted :: nat
  ir_updated :: nat
  ir_duplicate :: nat
  ir_rejected :: nat
  ir_corrected :: nat
  ir_accepted_ids :: "string list"
  ir_updated_ids :: "string list"
  ir_ids_truncated :: bool

record ingest_db =
  id_ledger :: ledger
  id_sources :: source_table
  id_requests :: "logical_request list"
  id_batches :: "ingest_batch list"

datatype ingest_error =
    BatchValidation "batch_issue list"
  | SourceFailure source_error
  | QualityFailure dq_error

record ingest_call =
  ic_token_label :: "string option"
  ic_request_id :: "string option"
  ic_mode :: conflict_mode
  ic_correction :: bool
  ic_actor :: "string option"
  ic_return_ids :: bool

record ingest_service =
  sv_policy :: privacy_policy
  sv_max_returned_ids :: nat
  sv_health :: health_config

definition default_service :: ingest_service where
  "default_service = \<lparr>sv_policy = default_policy, sv_max_returned_ids = 1000, sv_health = default_health_config\<rparr>"

definition validate_batch ::
  "(usage_event_v2 \<Rightarrow> nat) \<Rightarrow> privacy_policy \<Rightarrow> usage_event_v2 list \<Rightarrow> ingest_error + usage_event_v2 list" where
  "validate_batch byte_size pol events =
     (let results = map (sanitize byte_size pol) events;
          issues = concat (map (\<lambda>(i, r). map (\<lambda>v. \<lparr>bi_index = i, bi_field_path = vi_field_path v,
             bi_code = vi_code v\<rparr>) (pr_issues r)) (enumerate 0 results))
      in if issues \<noteq> [] then Inl (BatchValidation issues) else Inr (map pr_event results))"

definition default_request_id :: "usage_event_v2 \<Rightarrow> usage_event_v2" where
  "default_request_id e =
     (if e2_logical_request_id e \<noteq> None then e
      else e\<lparr>e2_logical_request_id := Some (str_or (e2_attempt_id e) (e2_event_id e))\<rparr>)"

type_synonym source_cache = "(string \<times> string \<times> string option, int) dict"

definition resolve_source ::
  "string option \<Rightarrow> usage_event_v2 \<Rightarrow> source_cache \<times> source_table \<Rightarrow> source_error + int \<times> source_cache \<times> source_table" where
  "resolve_source token_label e = (\<lambda>(cache, sources).
     case dget cache (ref_identity (e2_source e)) of
       Some i \<Rightarrow> Inr (i, cache, sources)
     | None \<Rightarrow>
         (case resolve_or_create (e2_source e) (e2_ts_started e) (e2_machine e) token_label sources of
            Inl err \<Rightarrow> Inl err
          | Inr (i, sources') \<Rightarrow> Inr (i, dset (ref_identity (e2_source e)) i cache, sources')))"

definition note_malformed_trace :: "int \<Rightarrow> usage_event_v2 \<Rightarrow> dq_table \<Rightarrow> dq_error + dq_table" where
  "note_malformed_trace now e dq =
     (let malformed = malformed_trace_fields (e2_trace_id e) (e2_span_id e) (e2_parent_span_id e)
      in if malformed = [] then Inr dq
         else dq_record ''trace_context_malformed'' (e2_event_id e) now
           (Some [(''fields'', JArr (map JStr malformed))]) None dq)"

definition engine_options :: "ingest_call \<Rightarrow> int \<Rightarrow> apply_options" where
  "engine_options call source_id = \<lparr>ao_mode = ic_mode call, ao_correction = ic_correction call,
     ao_actor = ic_actor call, ao_reason_text = None, ao_source_id = Some source_id, ao_cost = None\<rparr>"

text \<open>One event of the loop: its source id, its outcome, and the tables after it.\<close>

definition ingest_event ::
  "ingest_call \<Rightarrow> int \<Rightarrow> usage_event_v2 \<Rightarrow> source_cache \<times> ingest_db
   \<Rightarrow> ingest_error + (int \<times> outcome) \<times> source_cache \<times> ingest_db" where
  "ingest_event call now e = (\<lambda>(cache, db).
     case resolve_source (ic_token_label call) e (cache, id_sources db) of
       Inl err \<Rightarrow> Inl (SourceFailure err)
     | Inr (source_id, cache', sources') \<Rightarrow>
         (case note_malformed_trace now e (lb_dq (id_ledger db)) of
            Inl err \<Rightarrow> Inl (QualityFailure err)
          | Inr dq \<Rightarrow>
              let (oc, ledger') = apply_event True now (engine_options call source_id) e
                    ((id_ledger db)\<lparr>lb_dq := dq\<rparr>)
              in Inr ((source_id, oc), cache', db\<lparr>id_sources := sources', id_ledger := ledger'\<rparr>)))"

fun ingest_events ::
  "ingest_call \<Rightarrow> int \<Rightarrow> usage_event_v2 list \<Rightarrow> source_cache \<times> ingest_db
   \<Rightarrow> ingest_error + (int \<times> outcome) list \<times> source_cache \<times> ingest_db" where
  "ingest_events call now [] st = Inr ([], st)"
| "ingest_events call now (e # es) st =
     (case ingest_event call now e st of
        Inl err \<Rightarrow> Inl err
      | Inr (o1, st') \<Rightarrow>
          (case ingest_events call now es st' of
             Inl err \<Rightarrow> Inl err | Inr (os, st'') \<Rightarrow> Inr (o1 # os, st'')))"

definition touched_requests :: "usage_event_v2 list \<Rightarrow> (string \<times> string) list" where
  "touched_requests events =
     remdups (map (\<lambda>e. (e2_provider e, the (e2_logical_request_id e)))
       (filter (\<lambda>e. e2_logical_request_id e \<noteq> None) events))"

definition cap_ids :: "nat \<Rightarrow> string list \<Rightarrow> string list \<times> bool" where
  "cap_ids limit xs = (if length xs \<le> limit then (xs, False) else (take limit xs, True))"

definition outcome_count :: "outcome \<Rightarrow> (int \<times> outcome) list \<Rightarrow> nat" where
  "outcome_count oc os = length (filter (\<lambda>p. snd p = oc) os)"

definition returned_ids :: "ingest_call \<Rightarrow> outcome \<Rightarrow> usage_event_v2 list \<Rightarrow> (int \<times> outcome) list \<Rightarrow> string list" where
  "returned_ids call oc events os =
     (if ic_return_ids call then map (\<lambda>p. e2_event_id (fst p)) (filter (\<lambda>p. snd (snd p) = oc) (zip events os)) else [])"

definition ingest ::
  "(usage_event_v2 \<Rightarrow> nat) \<Rightarrow> ingest_service \<Rightarrow> string \<Rightarrow> ingest_call \<Rightarrow> int \<Rightarrow> usage_event_v2 list \<Rightarrow> ingest_db
   \<Rightarrow> ingest_error + ingest_result \<times> ingest_db" where
  "ingest byte_size sv batch_id call now events db =
     (case validate_batch byte_size (sv_policy sv) events of
        Inl err \<Rightarrow> Inl err
      | Inr cleaned0 \<Rightarrow>
          let cleaned = map default_request_id cleaned0
          in case ingest_events call now cleaned ([], db) of
               Inl err \<Rightarrow> Inl err
             | Inr (os, _, db1) \<Rightarrow>
                 let rows = lb_events (id_ledger db1);
                     db2 = db1\<lparr>id_requests := fold (recompute_request rows) (touched_requests cleaned) (id_requests db1)\<rparr>;
                     batch_source = (case os of [] \<Rightarrow> None | (i, _) # _ \<Rightarrow> Some i);
                     db3 = (case batch_source of None \<Rightarrow> db2
                       | Some i \<Rightarrow>
                           let (sources', dq') = record_ingest (sv_health sv) i (as_utc_dt now) 2
                                 (max_by dt_instant (map e2_ts_started cleaned))
                                 (int (outcome_count REJECTED os)) str_of_int (id_sources db2, lb_dq (id_ledger db2))
                           in db2\<lparr>id_sources := sources', id_ledger := (id_ledger db2)\<lparr>lb_dq := dq'\<rparr>\<rparr>);
                     (acc, trunc_a) = cap_ids (sv_max_returned_ids sv) (returned_ids call ACCEPTED cleaned os);
                     (upd, trunc_u) = cap_ids (sv_max_returned_ids sv) (returned_ids call UPDATED cleaned os);
                     batch = \<lparr>ib_batch_id = batch_id, ib_source_id = batch_source,
                       ib_token_label = ic_token_label call, ib_accepted = outcome_count ACCEPTED os,
                       ib_updated = outcome_count UPDATED os, ib_duplicate = outcome_count DUPLICATE os,
                       ib_rejected = outcome_count REJECTED os, ib_corrected = outcome_count CORRECTED os,
                       ib_schema_version = 2, ib_received_at = now, ib_request_id = ic_request_id call\<rparr>
                 in Inr (\<lparr>ir_batch_id = batch_id, ir_accepted = outcome_count ACCEPTED os,
                          ir_updated = outcome_count UPDATED os, ir_duplicate = outcome_count DUPLICATE os,
                          ir_rejected = outcome_count REJECTED os, ir_corrected = outcome_count CORRECTED os,
                          ir_accepted_ids = acc, ir_updated_ids = upd, ir_ids_truncated = trunc_a \<or> trunc_u\<rparr>,
                         db3\<lparr>id_batches := id_batches db3 @ [batch]\<rparr>))"

end
