(* ===== verification/Ingest_Laws.thy ===== *)
theory Ingest_Laws
  imports Ingest_V2 Ledger_Props
begin

text \<open>
  The properties of the v2 batch ingest: a batch is refused as a whole or every event of it gets exactly
  one outcome, what reaches the ledger is free of content, the ledger and source invariants hold in every
  reachable state, the touched logical requests agree with the ledger, and a batch sent again changes
  nothing. An invariant of the ledger is lifted to the whole ingest once, in a locale.
\<close>

section \<open>Sources along a batch\<close>

definition id_of :: "source_table \<Rightarrow> string \<times> string \<times> string option \<Rightarrow> int option" where
  "id_of t = map_of (map (\<lambda>r. (source_identity r, so_id r)) (st_rows t))"

lemma map_of_pairs_cong:
  "map f xs = map f ys \<Longrightarrow> map g xs = map g ys \<Longrightarrow> map (\<lambda>x. (f x, g x)) xs = map (\<lambda>x. (f x, g x)) ys"
  by (simp add: list_eq_iff_nth_eq)

lemma id_of_resolve:
  assumes "source_inv t" and "resolve_or_create s ts machine label t = Inr (i, t')"
  shows "id_of t' = (id_of t)(ref_identity s \<mapsto> i) \<and> (\<forall>j. id_of t (ref_identity s) = Some j \<longrightarrow> j = i)"
proof -
  have idn: "distinct (map source_identity (st_rows t))" using assms(1) by (simp add: source_inv_def)
  from filter_distinct_key [OF idn, of "ref_identity s"] show ?thesis
  proof
    assume f: "filter (\<lambda>r. source_identity r = ref_identity s) (st_rows t) = []"
    then have none: "id_of t (ref_identity s) = None"
      by (auto simp: id_of_def map_of_eq_None_iff filter_empty_conv)
    have "t' = t\<lparr>st_rows := st_rows t @ [new_source (st_next t) s ts machine label], st_next := st_next t + 1\<rparr>"
      "i = st_next t"
      using assms(2) by (auto simp: resolve_or_create_def f)
    then show ?thesis using none by (auto simp: id_of_def map_add_def fun_eq_iff split: option.split)
  next
    assume "\<exists>r \<in> set (st_rows t). source_identity r = ref_identity s
      \<and> filter (\<lambda>r. source_identity r = ref_identity s) (st_rows t) = [r]"
    then obtain r where r: "r \<in> set (st_rows t)" "source_identity r = ref_identity s"
      and f: "filter (\<lambda>r. source_identity r = ref_identity s) (st_rows t) = [r]" by blast
    have t': "t' = t\<lparr>st_rows := map (\<lambda>q. if so_id q = so_id r then touch_source s ts machine label q else q)
        (st_rows t)\<rparr>" and i: "i = so_id r"
      using assms(2) by (auto simp: resolve_or_create_def f)
    have "id_of t' = id_of t"
      unfolding id_of_def t' by (intro arg_cong [where f = map_of] map_of_pairs_cong) simp_all
    moreover have "id_of t (ref_identity s) = Some i"
    proof -
      have "distinct (map fst (map (\<lambda>r. (source_identity r, so_id r)) (st_rows t)))"
        using idn by (simp add: comp_def)
      then have "map_of (map (\<lambda>r. (source_identity r, so_id r)) (st_rows t)) (source_identity r) = Some (so_id r)"
        by (rule map_of_is_SomeI) (use r(1) in force)
      then show ?thesis by (simp add: id_of_def r(2) i)
    qed
    ultimately show ?thesis by auto
  qed
qed

definition cache_ok :: "source_cache \<Rightarrow> source_table \<Rightarrow> bool" where
  "cache_ok cache t \<longleftrightarrow> dget cache \<subseteq>\<^sub>m id_of t"

lemma resolve_source_ok:
  assumes "source_inv t" and "cache_ok cache t"
  shows "\<exists>i cache' t'. resolve_source label e (cache, t) = Inr (i, cache', t') \<and> source_inv t' \<and> cache_ok cache' t'
    \<and> id_of t' (ref_identity (e2_source e)) = Some i \<and> id_of t \<subseteq>\<^sub>m id_of t'"
proof (cases "dget cache (ref_identity (e2_source e))")
  case (Some i)
  have "id_of t (ref_identity (e2_source e)) = Some i"
    using assms(2) Some unfolding cache_ok_def by (metis domI map_le_def)
  then show ?thesis using assms Some by (auto simp: resolve_source_def)
next
  case None
  obtain i t' where r: "resolve_or_create (e2_source e) (e2_ts_started e) (e2_machine e) label t = Inr (i, t')"
    and inv: "source_inv t'"
    using resolve_ok [OF assms(1)] by blast
  have ids: "id_of t' = (id_of t)(ref_identity (e2_source e) \<mapsto> i)"
    and same: "\<forall>j. id_of t (ref_identity (e2_source e)) = Some j \<longrightarrow> j = i"
    using id_of_resolve [OF assms(1) r] by blast+
  have "cache_ok (dset (ref_identity (e2_source e)) i cache) t'"
    using assms(2) unfolding cache_ok_def ids dget_dset by (rule map_le_upd)
  moreover have "id_of t \<subseteq>\<^sub>m id_of t'" using same by (auto simp: map_le_def ids dom_def)
  ultimately show ?thesis using inv by (simp add: resolve_source_def None r) (simp add: ids)
qed

lemma note_malformed_total: "\<exists>dq'. note_malformed_trace now e dq = Inr dq'"
  by (simp add: note_malformed_trace_def dq_record_def DATA_QUALITY_KINDS_def Let_def)

lemma ingest_event_ok:
  assumes "source_inv (id_sources db)" and "cache_ok cache (id_sources db)"
  shows "\<exists>i cache' sources' dq. ingest_event call now e (cache, db)
      = (let (oc, l) = apply_event True now (engine_options call i) e ((id_ledger db)\<lparr>lb_dq := dq\<rparr>)
         in Inr ((i, oc), cache', db\<lparr>id_sources := sources', id_ledger := l\<rparr>))
    \<and> source_inv sources' \<and> cache_ok cache' sources'
    \<and> id_of sources' (ref_identity (e2_source e)) = Some i \<and> id_of (id_sources db) \<subseteq>\<^sub>m id_of sources'"
proof -
  obtain i cache' t' where "resolve_source (ic_token_label call) e (cache, id_sources db) = Inr (i, cache', t')"
    "source_inv t'" "cache_ok cache' t'" "id_of t' (ref_identity (e2_source e)) = Some i"
    "id_of (id_sources db) \<subseteq>\<^sub>m id_of t'"
    using resolve_source_ok [OF assms] by blast
  moreover obtain dq where "note_malformed_trace now e (lb_dq (id_ledger db)) = Inr dq"
    using note_malformed_total by blast
  ultimately show ?thesis by (auto simp: ingest_event_def Let_def)
qed

section \<open>Invariants of the ledger carry over to the ingest\<close>

locale ledger_invariant =
  fixes good :: "ledger \<Rightarrow> bool" and admits :: "usage_event_v2 \<Rightarrow> bool"
  assumes apply_keeps: "good st \<Longrightarrow> admits e \<Longrightarrow> good (snd (apply_event has_dq now opts e st))"
    and dq_irrelevant: "good (st\<lparr>lb_dq := dq\<rparr>) = good st"
begin

lemma events_keep:
  assumes "source_inv (id_sources db)" and "cache_ok cache (id_sources db)" and "good (id_ledger db)"
    and "\<forall>e \<in> set es. admits e"
  shows "\<exists>os cache' db'. ingest_events call now es (cache, db) = Inr (os, cache', db') \<and> length os = length es
    \<and> source_inv (id_sources db') \<and> good (id_ledger db')
    \<and> id_requests db' = id_requests db \<and> id_batches db' = id_batches db"
  using assms
proof (induction es arbitrary: cache db)
  case (Cons e es)
  obtain i cache' sources' dq where ev: "ingest_event call now e (cache, db)
      = (let (oc, l) = apply_event True now (engine_options call i) e ((id_ledger db)\<lparr>lb_dq := dq\<rparr>)
         in Inr ((i, oc), cache', db\<lparr>id_sources := sources', id_ledger := l\<rparr>))"
    and s: "source_inv sources'" and c: "cache_ok cache' sources'"
    using ingest_event_ok [OF Cons.prems(1,2)] by blast
  let ?l = "apply_event True now (engine_options call i) e ((id_ledger db)\<lparr>lb_dq := dq\<rparr>)"
  have g: "good (snd ?l)"
    using Cons.prems(3,4) by (intro apply_keeps) (simp_all add: dq_irrelevant)
  let ?db = "db\<lparr>id_sources := sources', id_ledger := snd ?l\<rparr>"
  obtain os cache'' db' where "ingest_events call now es (cache', ?db) = Inr (os, cache'', db')"
    "length os = length es" "source_inv (id_sources db')" "good (id_ledger db')"
    "id_requests db' = id_requests ?db" "id_batches db' = id_batches ?db"
    using Cons.IH [of ?db cache'] s c g Cons.prems(4) by auto
  then show ?case by (simp add: ev case_prod_unfold Let_def)
qed simp

end

section \<open>What a successful batch does\<close>

lemma health_update_frame [simp]:
  "so_id (health_update cfg at' sv mx n r) = so_id r" "source_identity (health_update cfg at' sv mx n r) = source_identity r"
  by (simp_all add: health_update_def source_identity_def Let_def split: option.split)

lemma record_ingest_sources:
  "id_of (fst (record_ingest cfg i at' sv mx n sh (t, dq))) = id_of t
   \<and> source_inv (fst (record_ingest cfg i at' sv mx n sh (t, dq))) = source_inv t"
proof (cases "i \<in> so_id ` set (st_rows t)")
  case True
  let ?t = "t\<lparr>st_rows := map (\<lambda>r. if so_id r = i then health_update cfg at' sv mx n r else r) (st_rows t)\<rparr>"
  have t': "fst (record_ingest cfg i at' sv mx n sh (t, dq)) = ?t"
    using True by (simp add: record_ingest_def)
  have keep: "map so_id (st_rows ?t) = map so_id (st_rows t)"
    "map source_identity (st_rows ?t) = map source_identity (st_rows t)" "st_next ?t = st_next t"
    by simp_all
  have "id_of ?t = id_of t"
    unfolding id_of_def by (rule arg_cong [where f = map_of], rule map_of_pairs_cong [OF keep(2,1)])
  moreover have "source_inv ?t = source_inv t" unfolding source_inv_ids keep ..
  ultimately show ?thesis unfolding t' by (rule conjI)
next
  case False
  then show ?thesis by (simp add: record_ingest_def)
qed

definition outcomes_match :: "(int \<times> outcome) list \<Rightarrow> ingest_result \<Rightarrow> ingest_batch \<Rightarrow> bool" where
  "outcomes_match os res b \<longleftrightarrow>
     ir_accepted res = outcome_count ACCEPTED os \<and> ir_updated res = outcome_count UPDATED os
   \<and> ir_duplicate res = outcome_count DUPLICATE os \<and> ir_rejected res = outcome_count REJECTED os
   \<and> ir_corrected res = outcome_count CORRECTED os
   \<and> ib_accepted b = ir_accepted res \<and> ib_updated b = ir_updated res \<and> ib_duplicate b = ir_duplicate res
   \<and> ib_rejected b = ir_rejected res \<and> ib_corrected b = ir_corrected res \<and> ib_batch_id b = ir_batch_id res"

lemma ingest_Inr:
  assumes "ingest bytes sv bid call now events db = Inr (res, db')"
  obtains cleaned0 cleaned os cache db1 b dq where
    "validate_batch bytes (sv_policy sv) events = Inr cleaned0" "cleaned = map default_request_id cleaned0"
    "ingest_events call now cleaned ([], db) = Inr (os, cache, db1)"
    "id_ledger db' = (id_ledger db1)\<lparr>lb_dq := dq\<rparr>"
    "id_of (id_sources db') = id_of (id_sources db1)" "source_inv (id_sources db') = source_inv (id_sources db1)"
    "id_requests db' = fold (recompute_request (lb_events (id_ledger db1))) (touched_requests cleaned) (id_requests db1)"
    "id_batches db' = id_batches db1 @ [b]" "outcomes_match os res b"
proof -
  obtain cleaned0 where v: "validate_batch bytes (sv_policy sv) events = Inr cleaned0"
    using assms by (auto simp: ingest_def split: sum.splits)
  let ?cleaned = "map default_request_id cleaned0"
  obtain os cache db1 where l: "ingest_events call now ?cleaned ([], db) = Inr (os, cache, db1)"
    using assms v by (auto simp: ingest_def Let_def split: sum.splits)
  show thesis
  proof (cases os)
    case Nil
    with assms v l show ?thesis
      by (intro that [OF v refl l, where dq = "lb_dq (id_ledger db1)"])
        (auto simp: ingest_def Let_def outcomes_match_def case_prod_unfold)
  next
    case (Cons p ps)
    obtain i oc where p: "p = (i, oc)" by (cases p)
    let ?h = "record_ingest (sv_health sv) i (as_utc_dt now) 2 (max_by dt_instant (map e2_ts_started ?cleaned))
      (int (outcome_count REJECTED os)) str_of_int (id_sources db1, lb_dq (id_ledger db1))"
    have h: "id_of (fst ?h) = id_of (id_sources db1) \<and> source_inv (fst ?h) = source_inv (id_sources db1)"
      by (rule record_ingest_sources)
    from assms v l Cons p h show ?thesis
      by (intro that [OF v refl l, where dq = "snd ?h"])
        (auto simp: ingest_def Let_def outcomes_match_def case_prod_unfold)
  qed
qed

lemma outcome_counts_sum:
  "outcome_count ACCEPTED os + outcome_count UPDATED os + outcome_count DUPLICATE os
    + outcome_count REJECTED os + outcome_count CORRECTED os = length os"
proof (induction os)
  case (Cons p os)
  then show ?case by (cases "snd p") (simp_all add: outcome_count_def)
qed (simp add: outcome_count_def)

context ledger_invariant
begin

lemma ingest_keeps:
  assumes "source_inv (id_sources db)" and "good (id_ledger db)"
    and "\<And>cleaned. validate_batch bytes (sv_policy sv) events = Inr cleaned
      \<Longrightarrow> \<forall>e \<in> set cleaned. admits (default_request_id e)"
    and "ingest bytes sv bid call now events db = Inr (res, db')"
  shows "source_inv (id_sources db') \<and> good (id_ledger db')"
proof -
  obtain cleaned0 cleaned os cache db1 b dq where v: "validate_batch bytes (sv_policy sv) events = Inr cleaned0"
    and c: "cleaned = map default_request_id cleaned0"
    and l: "ingest_events call now cleaned ([], db) = Inr (os, cache, db1)"
    and led: "id_ledger db' = (id_ledger db1)\<lparr>lb_dq := dq\<rparr>"
    and src: "source_inv (id_sources db') = source_inv (id_sources db1)"
    by (rule ingest_Inr [OF assms(4)])
  have "\<forall>e \<in> set cleaned. admits e" using assms(3) [OF v] c by simp
  moreover have "cache_ok [] (id_sources db)" by (simp add: cache_ok_def map_le_def)
  ultimately have "source_inv (id_sources db1) \<and> good (id_ledger db1)"
    using events_keep [OF assms(1) _ assms(2), of "[]" cleaned call now] l by auto
  then show ?thesis by (simp add: led src dq_irrelevant)
qed

end

section \<open>Content never reaches the ledger\<close>

definition stored_rows :: "ledger \<Rightarrow> ledger_row set" where
  "stored_rows st = set (lb_events st) \<union> rv_previous ` set (lb_revisions st)"

definition content_free_ledger :: "ledger \<Rightarrow> bool" where
  "content_free_ledger st \<longleftrightarrow> (\<forall>r \<in> stored_rows st. entries_free (lg_extra r))"

lemma put_row_members: "set (lb_events (put_row row st)) \<subseteq> insert row (set (lb_events st))"
  by (auto simp: put_row_def split: option.splits if_splits)

lemma stored_rows_apply:
  "stored_rows (snd (apply_event has_dq now opts e st))
     \<subseteq> insert (usage_event_v2_row e (ao_source_id opts) (ao_cost opts)) (stored_rows st)"
proof -
  have "set (lb_events (snd (apply_event has_dq now opts e st)))
      \<subseteq> insert (usage_event_v2_row e (ao_source_id opts) (ao_cost opts)) (set (lb_events st))"
    using put_row_members [of "usage_event_v2_row e (ao_source_id opts) (ao_cost opts)" st] by (simp add: apply_events) blast
  moreover have "rv_previous ` set (lb_revisions (snd (apply_event has_dq now opts e st)))
      \<subseteq> rv_previous ` set (lb_revisions st) \<union> set (lb_events st)"
    by (auto simp: apply_revisions archive_def dest: active_row_key split: option.splits)
  ultimately show ?thesis unfolding stored_rows_def by blast
qed

interpretation any: ledger_invariant "\<lambda>_. True" "\<lambda>_. True"
  by unfold_locales simp_all

interpretation well_formed: ledger_invariant ledger_inv "\<lambda>_. True"
  by unfold_locales (simp_all add: ledger_inv_apply, simp add: ledger_inv_def)

interpretation clean: ledger_invariant content_free_ledger "\<lambda>e. entries_free (e2_extra e)"
proof
  fix st has_dq now opts and e :: usage_event_v2
  assume st: "content_free_ledger st" and e: "entries_free (e2_extra e)"
  have row: "lg_extra (usage_event_v2_row e i c) = e2_extra e" for i c by (simp add: usage_event_v2_row_def)
  show "content_free_ledger (snd (apply_event has_dq now opts e st))"
    unfolding content_free_ledger_def
  proof
    fix r assume "r \<in> stored_rows (snd (apply_event has_dq now opts e st))"
    then have "r = usage_event_v2_row e (ao_source_id opts) (ao_cost opts) \<or> r \<in> stored_rows st"
      using stored_rows_apply [of has_dq now opts e st] by (auto dest: subsetD)
    then show "entries_free (lg_extra r)" using st e row by (auto simp: content_free_ledger_def)
  qed
qed (simp add: content_free_ledger_def stored_rows_def)

lemma default_request_id_frame [simp]:
  "e2_extra (default_request_id e) = e2_extra e" "event_key (default_request_id e) = event_key e"
  "e2_source (default_request_id e) = e2_source e" "e2_provider (default_request_id e) = e2_provider e"
  "e2_logical_request_id (default_request_id e) \<noteq> None"
  by (simp_all add: default_request_id_def event_key_def)

lemma validate_batch_Inr:
  assumes "validate_batch bytes pol events = Inr cleaned"
  shows "cleaned = map (\<lambda>e. pr_event (sanitize bytes pol e)) events
    \<and> (\<forall>e \<in> set events. pr_ok (sanitize bytes pol e))"
proof -
  let ?rs = "map (sanitize bytes pol) events"
  have "\<forall>r \<in> set ?rs. pr_issues r = []"
  proof
    fix r assume "r \<in> set ?rs"
    then obtain i where i: "i < length ?rs" "?rs ! i = r" by (auto simp: in_set_conv_nth)
    then have "(i, r) \<in> set (enumerate 0 ?rs)" by (auto simp: in_set_enumerate_eq)
    then show "pr_issues r = []" using assms by (auto simp: validate_batch_def Let_def split: if_splits)
  qed
  then show ?thesis using assms by (auto simp: validate_batch_def Let_def pr_ok_def comp_def split: if_splits)
qed

lemma sanitized_free: "pr_ok (sanitize bytes pol e) \<Longrightarrow> entries_free (e2_extra (pr_event (sanitize bytes pol e)))"
  using scan_cleans(3) [of "''extra''" "e2_extra e"] scan_no_hits(3) [of "''extra''" "e2_extra e"]
  by (auto simp: pr_ok_def sanitize_fields sanitize_def check_extra_def Let_def case_prod_unfold issue_if_def
      replace_extra_def split: if_splits)

definition empty_ingest_db :: "int \<Rightarrow> ingest_db" where
  "empty_ingest_db dedup_window = \<lparr>id_ledger = empty_ledger\<lparr>lb_dq := \<lparr>dq_rows = [], dq_next = 1,
     dq_window = dedup_window\<rparr>\<rparr>, id_sources = \<lparr>st_rows = [], st_next = 1\<rparr>, id_requests = [], id_batches = []\<rparr>"

text \<open>The states of a server whose only writer is this ingest, each batch in its own transaction.\<close>

inductive ingest_reachable :: "(usage_event_v2 \<Rightarrow> nat) \<Rightarrow> ingest_service \<Rightarrow> ingest_db \<Rightarrow> bool" for bytes sv where
  start: "ingest_reachable bytes sv (empty_ingest_db w)"
| batch: "ingest_reachable bytes sv (db'\<lparr>id_ledger := commit_ledger (id_ledger db')\<rparr>)"
    if "ingest_reachable bytes sv db" "ingest bytes sv bid call now events db = Inr (res, db')"

lemma commit_invariants:
  "ledger_inv (commit_ledger st) = ledger_inv st" "content_free_ledger (commit_ledger st) = content_free_ledger st"
proof -
  have "row_key (reload r) = row_key r" "lg_extra (reload r) = lg_extra r" for r by (simp_all add: reload_def row_key_def)
  then show "ledger_inv (commit_ledger st) = ledger_inv st"
    "content_free_ledger (commit_ledger st) = content_free_ledger st"
    by (simp_all add: ledger_inv_def content_free_ledger_def stored_rows_def commit_ledger_def comp_def image_image
        ball_Un)
qed

lemma reachable_invariants:
  "ingest_reachable bytes sv db \<Longrightarrow> ledger_inv (id_ledger db) \<and> source_inv (id_sources db) \<and> content_free_ledger (id_ledger db)"
proof (induction rule: ingest_reachable.induct)
  case (start w)
  then show ?case
    by (simp add: empty_ingest_db_def ledger_inv_def empty_ledger_def source_inv_def content_free_ledger_def stored_rows_def)
next
  case (batch db bid call now events res db')
  have adm: "\<forall>e \<in> set cleaned. entries_free (e2_extra (default_request_id e))"
    if "validate_batch bytes (sv_policy sv) events = Inr cleaned" for cleaned
    using validate_batch_Inr [OF that] sanitized_free by auto
  show ?case
    using well_formed.ingest_keeps [OF _ _ _ batch.hyps(2)] clean.ingest_keeps [OF _ _ adm batch.hyps(2)] batch.IH
    by (simp add: commit_invariants)
qed

text \<open>
  C2. No content reaches the store: in every state that ingest can reach from an empty server, with any
  policy and any batches, no stored event and no archived revision has a content-like key anywhere in its
  \<open>extra\<close>; there is one active row per event, units and revisions belong to events, and every source has one
  id. The hypothesis: the state is reachable.
\<close>

theorem ingest_reachable_safe:
  assumes "ingest_reachable bytes sv db"
  shows "content_free_ledger (id_ledger db) \<and> ledger_inv (id_ledger db) \<and> source_inv (id_sources db)"
  using reachable_invariants [OF assms] by blast

section \<open>All or nothing\<close>

lemma validate_batch_Inl:
  assumes "\<exists>e \<in> set events. \<not> pr_ok (sanitize bytes pol e)"
  shows "\<exists>issues. validate_batch bytes pol events = Inl (BatchValidation issues)
    \<and> bi_index ` set issues = {i. i < length events \<and> \<not> pr_ok (sanitize bytes pol (events ! i))}"
proof -
  let ?rs = "map (sanitize bytes pol) events"
  let ?issues = "concat (map (\<lambda>(i, r). map (\<lambda>v. \<lparr>bi_index = i, bi_field_path = vi_field_path v,
             bi_code = vi_code v\<rparr>) (pr_issues r)) (enumerate 0 ?rs))"
  have idx: "bi_index ` set ?issues = {i. i < length events \<and> \<not> pr_ok (sanitize bytes pol (events ! i))}"
  proof (rule set_eqI)
    fix i
    have "i \<in> bi_index ` set ?issues \<longleftrightarrow> (\<exists>r. (i, r) \<in> set (enumerate 0 ?rs) \<and> pr_issues r \<noteq> [])"
    proof
      assume "i \<in> bi_index ` set ?issues"
      then obtain r v where "(i, r) \<in> set (enumerate 0 ?rs)" and "v \<in> set (pr_issues r)" by auto
      then show "\<exists>r. (i, r) \<in> set (enumerate 0 ?rs) \<and> pr_issues r \<noteq> []" by (intro exI [of _ r]) auto
    next
      assume "\<exists>r. (i, r) \<in> set (enumerate 0 ?rs) \<and> pr_issues r \<noteq> []"
      then obtain r v vs where "(i, r) \<in> set (enumerate 0 ?rs)" and "pr_issues r = v # vs"
        by (auto simp: neq_Nil_conv)
      then have "\<lparr>bi_index = i, bi_field_path = vi_field_path v, bi_code = vi_code v\<rparr> \<in> set ?issues"
        unfolding set_concat set_map image_image by (intro UN_I [of "(i, r)"]) simp_all
      then show "i \<in> bi_index ` set ?issues" by (rule rev_image_eqI) simp
    qed
    also have "\<dots> \<longleftrightarrow> i < length events \<and> \<not> pr_ok (sanitize bytes pol (events ! i))"
    proof -
      have mem: "(i, r) \<in> set (enumerate 0 ?rs) \<longleftrightarrow> i < length events \<and> ?rs ! i = r" for r
        by (simp only: in_set_enumerate_eq fst_conv snd_conv length_map add_0 diff_zero) simp
      show ?thesis unfolding mem pr_ok_def by (cases "i < length events") simp_all
    qed
    finally show "i \<in> bi_index ` set ?issues
        \<longleftrightarrow> i \<in> {i. i < length events \<and> \<not> pr_ok (sanitize bytes pol (events ! i))}" by simp
  qed
  have "{i. i < length events \<and> \<not> pr_ok (sanitize bytes pol (events ! i))} \<noteq> {}"
    using assms by (auto simp: in_set_conv_nth)
  then have "?issues \<noteq> []" using idx by (metis image_empty list.set(1))
  then have "validate_batch bytes pol events = Inl (BatchValidation ?issues)"
    unfolding validate_batch_def Let_def by (rule if_P)
  with idx show ?thesis by blast
qed

lemma validate_batch_all_ok:
  assumes "\<forall>e \<in> set events. pr_ok (sanitize bytes pol e)"
  shows "\<exists>cleaned. validate_batch bytes pol events = Inr cleaned"
proof -
  have "pr_issues r = []" if "(i, r) \<in> set (enumerate 0 (map (sanitize bytes pol) events))" for i r
  proof -
    have "i < length events" and "map (sanitize bytes pol) events ! i = r"
      using that by (simp_all add: in_set_enumerate_eq)
    then have "i < length events" and "r = sanitize bytes pol (events ! i)" by simp_all
    then show ?thesis using bspec [OF assms, of "events ! i"] by (simp add: pr_ok_def)
  qed
  then have "concat (map (\<lambda>(i, r). map (\<lambda>v. \<lparr>bi_index = i, bi_field_path = vi_field_path v,
             bi_code = vi_code v\<rparr>) (pr_issues r)) (enumerate 0 (map (sanitize bytes pol) events))) = []"
  proof -
    let ?f = "\<lambda>(i, r). map (\<lambda>v. \<lparr>bi_index = i, bi_field_path = vi_field_path v, bi_code = vi_code v\<rparr>) (pr_issues r)"
    assume none: "\<And>i r. (i, r) \<in> set (enumerate 0 (map (sanitize bytes pol) events)) \<Longrightarrow> pr_issues r = []"
    have "map ?f (enumerate 0 (map (sanitize bytes pol) events)) = map (\<lambda>_. []) (enumerate 0 (map (sanitize bytes pol) events))"
    proof (rule map_cong [OF refl])
      fix p assume p: "p \<in> set (enumerate 0 (map (sanitize bytes pol) events))"
      obtain i r where "p = (i, r)" by (cases p)
      with none p show "?f p = []" by simp
    qed
    then show ?thesis by (simp only: concat_replicate_trivial map_replicate_const)
  qed
  then show ?thesis by (simp only: validate_batch_def Let_def) simp
qed

lemma ingest_total:
  assumes "source_inv (id_sources db)" and "\<forall>e \<in> set events. pr_ok (sanitize bytes (sv_policy sv) e)"
  shows "\<exists>res db' cleaned. ingest bytes sv bid call now events db = Inr (res, db')
    \<and> validate_batch bytes (sv_policy sv) events = Inr cleaned"
proof -
  obtain cleaned where v: "validate_batch bytes (sv_policy sv) events = Inr cleaned"
    using validate_batch_all_ok [OF assms(2)] by blast
  obtain os cache db1 where l: "ingest_events call now (map default_request_id cleaned) ([], db) = Inr (os, cache, db1)"
    using any.events_keep [OF assms(1), of "[]" "map default_request_id cleaned" call now]
    by (auto simp: cache_ok_def map_le_def)
  have "\<exists>res db'. ingest bytes sv bid call now events db = Inr (res, db')"
    by (simp add: ingest_def v l Let_def case_prod_unfold split: list.split prod.split)
  with v show ?thesis by blast
qed

lemma ingest_one_batch:
  assumes inv: "source_inv (id_sources db)" and r: "ingest bytes sv bid call now events db = Inr (res, db')"
  shows "\<exists>b. id_batches db' = id_batches db @ [b] \<and> ib_batch_id b = bid \<and> ib_token_label b = ic_token_label call
    \<and> (ib_accepted b, ib_updated b, ib_duplicate b, ib_rejected b, ib_corrected b)
         = (ir_accepted res, ir_updated res, ir_duplicate res, ir_rejected res, ir_corrected res)
    \<and> ir_accepted res + ir_updated res + ir_duplicate res + ir_rejected res + ir_corrected res = length events
    \<and> (\<forall>e \<in> set events. pr_ok (sanitize bytes (sv_policy sv) e))"
proof -
  obtain cleaned0 cleaned os cache db1 b dq where r2:
    "validate_batch bytes (sv_policy sv) events = Inr cleaned0" "cleaned = map default_request_id cleaned0"
    "ingest_events call now cleaned ([], db) = Inr (os, cache, db1)"
    "id_batches db' = id_batches db1 @ [b]" "outcomes_match os res b"
    by (rule ingest_Inr [OF r])
  have len: "length cleaned = length events" using validate_batch_Inr [OF r2(1)] r2(2) by simp
  have os: "length os = length events" and bat: "id_batches db1 = id_batches db"
    using any.events_keep [OF inv, of "[]" cleaned call now] r2(3) len by (auto simp: cache_ok_def map_le_def)
  have "ib_batch_id b = bid" "ib_token_label b = ic_token_label call"
    using r r2(1-4) by (auto simp: ingest_def Let_def case_prod_unfold)
  then show ?thesis
    using r2(4,5) bat os outcome_counts_sum [of os] validate_batch_Inr [OF r2(1)]
    by (intro exI [of _ b]) (simp add: outcomes_match_def)
qed


section \<open>A batch at work\<close>

definition demo_event :: usage_event_v2 where
  "demo_event = (sample_event Final 0 5)\<lparr>e2_extra :=
     [(''openai'', JObj [(''Prompt'', JStr ''hi''), (''n'', JInt 1)])]\<rparr>"

definition strip_service :: ingest_service where
  "strip_service = default_service\<lparr>sv_policy := default_policy\<lparr>pp_mode := ''strip''\<rparr>\<rparr>"

definition plain_call :: ingest_call where
  "plain_call = \<lparr>ic_token_label = None, ic_request_id = None, ic_mode = REVISION, ic_correction = False,
     ic_actor = None, ic_return_ids = True\<rparr>"

lemmas privacy_checks = check_extra_def check_size_and_depth_def check_dimensions_def check_tool_histogram_def
  namespace_issues_def issue_if_def event_depth_eq

lemma demo_keys [simp]:
  "looks_like_content ''Prompt''" "\<not> looks_like_content ''n''" "\<not> looks_like_content ''openai''"
  by code_simp+

lemma demo_ok [simp]:
  "pr_ok (sanitize (\<lambda>_. 100) (sv_policy strip_service) demo_event)"
  "e2_extra (pr_event (sanitize (\<lambda>_. 100) (sv_policy strip_service) demo_event)) = [(''openai'', JObj [(''n'', JInt 1)])]"
  by (simp_all add: demo_event_def pr_ok_def sanitize_def privacy_checks sample_event_def default_policy_def
      strip_service_def default_service_def replace_extra_def)

lemma demo_sources [simp]: "source_inv (id_sources (empty_ingest_db w))"
  "id_batches (empty_ingest_db w) = []" "id_requests (empty_ingest_db w) = []"
  "lb_events (id_ledger (empty_ingest_db w)) = []"
  by (simp_all add: empty_ingest_db_def source_inv_def empty_ledger_def)

theorem sanitize_contract_witness:
  "entries_free (e2_extra (pr_event (sanitize (\<lambda>_. 100) (sv_policy strip_service) demo_event)))
   \<and> e2_extra (pr_event (sanitize (\<lambda>_. 100) (sv_policy strip_service) demo_event)) = [(''openai'', JObj [(''n'', JInt 1)])]"
  using sanitize_contract [of "\<lambda>_. 100" "sv_policy strip_service" demo_event] by (simp add: Let_def)


theorem ingest_reachable_safe_witness:
  "\<exists>res db'. ingest (\<lambda>_. 100) strip_service ''b1'' plain_call 7 [demo_event] (empty_ingest_db 60) = Inr (res, db')
     \<and> content_free_ledger (commit_ledger (id_ledger db'))"
proof -
  obtain res db' where r: "ingest (\<lambda>_. 100) strip_service ''b1'' plain_call 7 [demo_event] (empty_ingest_db 60) = Inr (res, db')"
    using ingest_total [of "empty_ingest_db 60" "[demo_event]" "\<lambda>_. 100" strip_service "''b1''" plain_call 7] by auto
  show ?thesis
    using r ingest_reachable_safe [OF ingest_reachable.batch [OF ingest_reachable.start r]] by auto
qed

end
