(* ===== verification/Ingest_Replay.thy ===== *)
theory Ingest_Replay
  imports Ingest_Laws
begin

text \<open>
  A batch sent twice, and the logical requests after a batch: the rows of \<open>logical_requests\<close> are derived
  from the ledger for the requests a batch touches and left alone for all others.
\<close>

section \<open>The logical requests after a batch\<close>

definition request_of :: "ingest_db \<Rightarrow> string \<times> string \<Rightarrow> logical_request option" where
  "request_of db k = find (\<lambda>q. request_key q = k) (id_requests db)"

lemma request_key_derived: "derive_request p l rows = Some q \<Longrightarrow> request_key q = (p, l)"
  by (auto simp: derive_request_def Let_def aggregate_request_def request_key_def split: if_splits)

lemma find_put_request:
  "find (\<lambda>p. request_key p = k) (put_request q qs) =
     (if k = request_key q then Some q else find (\<lambda>p. request_key p = k) qs)"
proof (cases "request_key q \<in> request_key ` set qs")
  case True
  then have "find (\<lambda>p. request_key p = request_key q) qs \<noteq> None" by (auto simp: find_None_iff)
  with True show ?thesis by (auto simp: put_request_def find_replace)
next
  case False
  then have "find (\<lambda>p. request_key p = request_key q) qs = None" by (force simp: find_None_iff image_iff)
  with False show ?thesis by (auto simp: put_request_def find_snoc split: option.split)
qed

lemma find_recompute:
  "find (\<lambda>p. request_key p = k) (recompute_request rows k' qs) =
     (if k = k' \<and> derive_request (fst k) (snd k) rows \<noteq> None then derive_request (fst k) (snd k) rows
      else find (\<lambda>p. request_key p = k) qs)"
  by (cases k'; cases "derive_request (fst k') (snd k') rows")
    (auto simp: recompute_request_def find_put_request dest: request_key_derived)

lemma find_recompute_all:
  "find (\<lambda>p. request_key p = k) (fold (recompute_request rows) ks qs) =
     (if k \<in> set ks \<and> derive_request (fst k) (snd k) rows \<noteq> None then derive_request (fst k) (snd k) rows
      else find (\<lambda>p. request_key p = k) qs)"
  by (induction ks arbitrary: qs) (auto simp: find_recompute)

definition requests_current :: "ledger_row list \<Rightarrow> (string \<times> string) set \<Rightarrow> logical_request list \<Rightarrow> bool" where
  "requests_current rows ks qs \<longleftrightarrow> (\<forall>k \<in> ks. \<forall>q. derive_request (fst k) (snd k) rows = Some q
     \<longrightarrow> q \<in> set qs \<and> (\<forall>p \<in> set qs. request_key p = k \<longrightarrow> p = q))"

lemma requests_current_step:
  assumes "requests_current rows ks qs"
  shows "requests_current rows (insert k ks) (recompute_request rows k qs)"
proof (cases "derive_request (fst k) (snd k) rows")
  case None
  then show ?thesis using assms by (cases k) (simp add: requests_current_def recompute_request_def)
next
  case (Some q)
  obtain p l where k: "k = (p, l)" by (cases k)
  have key: "request_key q = k" using Some k request_key_derived by auto
  have new: "q \<in> set (put_request q qs) \<and> (\<forall>p \<in> set (put_request q qs). request_key p = k \<longrightarrow> p = q)"
    using key by (auto simp: put_request_def image_iff)
  have old: "q' \<in> set (put_request q qs) \<and> (\<forall>p \<in> set (put_request q qs). request_key p = k' \<longrightarrow> p = q')"
    if "k' \<in> ks" "derive_request (fst k') (snd k') rows = Some q'" "k' \<noteq> k" for k' q'
  proof -
    have "request_key q' = k'" using that(2) request_key_derived by (cases k') auto
    moreover have "q' \<in> set qs \<and> (\<forall>p \<in> set qs. request_key p = k' \<longrightarrow> p = q')"
      using assms that(1,2) unfolding requests_current_def by blast
    ultimately show ?thesis using that(3) key by (auto simp: put_request_def image_iff)
  qed
  have "recompute_request rows k qs = put_request q qs" using Some k by (simp add: recompute_request_def)
  then show ?thesis using new old Some unfolding requests_current_def by (metis insert_iff option.inject)
qed

lemma requests_current_fold:
  "requests_current rows A qs \<Longrightarrow> requests_current rows (A \<union> set ks) (fold (recompute_request rows) ks qs)"
proof (induction ks arbitrary: A qs)
  case (Cons k ks)
  from Cons.IH [OF requests_current_step [OF Cons.prems, of k]] show ?case by simp
qed simp

lemma requests_current_noop:
  assumes "requests_current rows (set ks) qs"
  shows "fold (recompute_request rows) ks qs = qs"
proof -
  have step: "recompute_request rows k qs = qs" if "k \<in> set ks" for k
  proof (cases "derive_request (fst k) (snd k) rows")
    case None
    then show ?thesis by (cases k) (simp add: recompute_request_def)
  next
    case (Some q)
    have key: "request_key q = k" using Some request_key_derived by (cases k) auto
    have q: "q \<in> set qs" "\<forall>p \<in> set qs. request_key p = k \<longrightarrow> p = q"
      using assms that Some unfolding requests_current_def by blast+
    have "map (\<lambda>p. if request_key p = request_key q then q else p) qs = qs"
    proof (rule map_idI)
      fix p assume "p \<in> set qs"
      then show "(if request_key p = request_key q then q else p) = p" using bspec [OF q(2), of p] key by simp
    qed
    then have "put_request q qs = qs" using q(1) by (simp add: put_request_def)
    then show ?thesis using Some by (cases k) (simp add: recompute_request_def)
  qed
  have "set js \<subseteq> set ks \<Longrightarrow> fold (recompute_request rows) js qs = qs" for js
    by (induction js) (simp_all add: step)
  then show ?thesis by simp
qed

lemma touched_sanitized:
  assumes "validate_batch bytes pol events = Inr cleaned"
  shows "touched_requests (map default_request_id cleaned) = touched_requests (map default_request_id events)"
proof -
  have same: "e2_provider (default_request_id (pr_event (sanitize bytes pol e))) = e2_provider (default_request_id e)
     \<and> e2_logical_request_id (default_request_id (pr_event (sanitize bytes pol e)))
       = e2_logical_request_id (default_request_id e)" for e
    by (simp add: sanitize_fields default_request_id_def replace_extra_def)
  have "cleaned = map (\<lambda>e. pr_event (sanitize bytes pol e)) events" using validate_batch_Inr [OF assms] by blast
  then have "map (\<lambda>e. (e2_provider e, the (e2_logical_request_id e))) (map default_request_id cleaned)
      = map (\<lambda>e. (e2_provider e, the (e2_logical_request_id e))) (map default_request_id events)"
    using same by simp
  moreover have "filter (\<lambda>e. e2_logical_request_id e \<noteq> None) (map default_request_id es) = map default_request_id es" for es
  proof (rule filter_True, rule ballI)
    fix e assume "e \<in> set (map default_request_id es)"
    then obtain e0 where "e = default_request_id e0" by auto
    then show "e2_logical_request_id e \<noteq> None" by (simp only: default_request_id_frame not_False_eq_True)
  qed
  ultimately show ?thesis by (simp only: touched_requests_def)
qed

lemma ingest_event_frame:
  "ingest_event call now e st = Inr (oc, st') \<Longrightarrow> id_requests (snd st') = id_requests (snd st)"
  by (cases st) (auto simp: ingest_event_def Let_def case_prod_unfold split: sum.splits prod.splits)

lemma ingest_events_frame:
  "ingest_events call now es st = Inr (os, st') \<Longrightarrow> id_requests (snd st') = id_requests (snd st)"
proof (induction es arbitrary: st os)
  case (Cons e es)
  then obtain o1 st1 os1 where "ingest_event call now e st = Inr (o1, st1)"
    and "ingest_events call now es st1 = Inr (os1, st')" by (auto split: sum.splits prod.splits)
  then show ?case using Cons.IH ingest_event_frame by metis
qed simp

lemma requests_after:
  assumes "ingest bytes sv bid call now events db = Inr (res, db')"
  shows "request_of db' k =
    (let derived = derive_request (fst k) (snd k) (lb_events (id_ledger db')) in
     if k \<in> set (touched_requests (map default_request_id events)) \<and> derived \<noteq> None then derived
     else request_of db k)"
proof -
  obtain cleaned0 cleaned os cache db1 b dq where v: "validate_batch bytes (sv_policy sv) events = Inr cleaned0"
    and c: "cleaned = map default_request_id cleaned0"
    and l: "ingest_events call now cleaned ([], db) = Inr (os, cache, db1)"
    and led: "id_ledger db' = (id_ledger db1)\<lparr>lb_dq := dq\<rparr>"
    and rq: "id_requests db' = fold (recompute_request (lb_events (id_ledger db1))) (touched_requests cleaned) (id_requests db1)"
    by (rule ingest_Inr [OF assms])
  have "id_requests db1 = id_requests db" using ingest_events_frame [OF l] by simp
  then show ?thesis
    by (auto simp: request_of_def rq find_recompute_all led touched_sanitized [OF v] c Let_def)
qed


text \<open>
  C5. What a batch does to the logical requests: for every request that an event of the batch names, by
  its own id or by the default one, and that has an attempt or a summary in the ledger, the row afterwards
  is the one derived from the ledger as it then stands, in whatever order the events came; every other row
  is as it was. The hypothesis: the batch succeeded.
\<close>

theorem ingest_requests_exact:
  assumes "ingest bytes sv bid call now events db = Inr (res, db')"
  shows "request_of db' k =
    (let derived = derive_request (fst k) (snd k) (lb_events (id_ledger db')) in
     if k \<in> set (touched_requests (map default_request_id events)) \<and> derived \<noteq> None then derived
     else request_of db k)"
  by (rule requests_after [OF assms])

section \<open>A batch sent again\<close>

definition written :: "outcome \<Rightarrow> bool" where
  "written oc \<longleftrightarrow> oc \<in> {ACCEPTED, UPDATED, CORRECTED}"

lemma written_decision: "written (rd_outcome (resolve i ex m c)) = rd_write (resolve i ex m c)"
  by (auto simp: written_def resolve_defs resolve_keep_max_def decision_def split: option.split)

definition sourced_row :: "ingest_db \<Rightarrow> usage_event_v2 \<Rightarrow> bool" where
  "sourced_row db e \<longleftrightarrow> (\<exists>i. id_of (id_sources db) (ref_identity (e2_source e)) = Some i
     \<and> active_row (id_ledger db) (event_key e) = Some (usage_event_v2_row e (Some i) None))"

lemma active_dq [simp]: "active_row (st\<lparr>lb_dq := dq\<rparr>) k = active_row st k"
  by (simp add: active_row_def)

lemma engine_options_simps [simp]:
  "ao_source_id (engine_options call i) = Some i" "ao_cost (engine_options call i) = None"
  by (simp_all add: engine_options_def)

lemma reload_kept:
  assumes "\<forall>r \<in> set (lb_events st). reload r = r" and "ao_cost opts = None"
    and "map_option numeric_column (e2_observed_cost e) = e2_observed_cost e"
  shows "\<forall>r \<in> set (lb_events (snd (apply_event has_dq now opts e st))). reload r = r"
  using assms put_row_members [of "usage_event_v2_row e (ao_source_id opts) (ao_cost opts)" st]
  by (auto simp: apply_events reload_plain dest: subsetD)

lemma ingest_events_written:
  assumes "source_inv (id_sources db)" and "cache_ok cache (id_sources db)"
    and "ingest_events call now es (cache, db) = Inr (os, cache', db')"
    and "distinct (map event_key es)" and "\<forall>p \<in> set os. written (snd p)"
    and "\<forall>e \<in> set es. map_option numeric_column (e2_observed_cost e) = e2_observed_cost e" and "\<forall>r \<in> set (lb_events (id_ledger db)). reload r = r"
  shows "source_inv (id_sources db') \<and> id_of (id_sources db) \<subseteq>\<^sub>m id_of (id_sources db')
    \<and> (\<forall>e \<in> set es. sourced_row db' e)
    \<and> (\<forall>k. k \<notin> event_key ` set es \<longrightarrow> active_row (id_ledger db') k = active_row (id_ledger db) k)
    \<and> (\<forall>r \<in> set (lb_events (id_ledger db')). reload r = r)"
  using assms
proof (induction es arbitrary: cache db os)
  case Nil
  then show ?case by simp
next
  case (Cons e es)
  obtain i cache1 sources1 dq where ev: "ingest_event call now e (cache, db)
      = (let (oc, l) = apply_event True now (engine_options call i) e ((id_ledger db)\<lparr>lb_dq := dq\<rparr>)
         in Inr ((i, oc), cache1, db\<lparr>id_sources := sources1, id_ledger := l\<rparr>))"
    and s: "source_inv sources1" and c: "cache_ok cache1 sources1"
    and i: "id_of sources1 (ref_identity (e2_source e)) = Some i" and le: "id_of (id_sources db) \<subseteq>\<^sub>m id_of sources1"
    using ingest_event_ok [OF Cons.prems(1,2)] by blast
  let ?st = "(id_ledger db)\<lparr>lb_dq := dq\<rparr>" and ?opts = "engine_options call i"
  let ?l = "snd (apply_event True now ?opts e ?st)"
  let ?db = "db\<lparr>id_sources := sources1, id_ledger := ?l\<rparr>"
  have ev': "ingest_event call now e (cache, db) = Inr ((i, rd_outcome (event_decision ?opts e ?st)), cache1, ?db)"
    by (simp add: ev case_prod_unfold)
  obtain os1 where rest: "ingest_events call now es (cache1, ?db) = Inr (os1, cache', db')"
    and os: "os = (i, rd_outcome (event_decision ?opts e ?st)) # os1"
    using Cons.prems(3) by (auto simp: ev' split: sum.splits)
  have w: "rd_write (event_decision ?opts e ?st)"
    using Cons.prems(5) by (simp add: os) (simp add: event_decision_def written_decision)
  have plain: "\<forall>r \<in> set (lb_events ?l). reload r = r"
    using Cons.prems(6,7) by (intro reload_kept) simp_all
  have IH: "source_inv (id_sources db') \<and> id_of sources1 \<subseteq>\<^sub>m id_of (id_sources db')
    \<and> (\<forall>e \<in> set es. sourced_row db' e)
    \<and> (\<forall>k. k \<notin> event_key ` set es \<longrightarrow> active_row (id_ledger db') k = active_row ?l k)
    \<and> (\<forall>r \<in> set (lb_events (id_ledger db')). reload r = r)"
    using Cons.IH [of ?db cache1 os1] s c rest os plain Cons.prems(4-6) by simp
  have act: "active_row ?l k = (if k = event_key e then Some (usage_event_v2_row e (Some i) None)
      else active_row (id_ledger db) k)" for k
    using w by (simp add: apply_active)
  have "id_of (id_sources db') (ref_identity (e2_source e)) = Some i"
    using IH i by (metis domI map_le_def)
  moreover have "active_row (id_ledger db') (event_key e) = Some (usage_event_v2_row e (Some i) None)"
  proof -
    have "event_key e \<notin> event_key ` set es" using Cons.prems(4) by simp
    then have "active_row (id_ledger db') (event_key e) = active_row ?l (event_key e)" using IH by blast
    then show ?thesis by (simp add: act)
  qed
  ultimately have "sourced_row db' e" by (auto simp: sourced_row_def)
  then show ?case using IH act le map_le_trans [OF le] by auto
qed

lemma ingest_event_known:
  assumes "source_inv (id_sources db)" and "id_of (id_sources db) (ref_identity (e2_source e)) = Some j"
    and "ingest_event call now e (cache, db) = Inr (p, cache', db')"
  shows "id_of (id_sources db') = id_of (id_sources db)"
proof -
  have same: "id_of t' = id_of (id_sources db)"
    if r: "resolve_source (ic_token_label call) e (cache, id_sources db) = Inr (i, cache'', t')" for i cache'' t'
  proof (cases "dget cache (ref_identity (e2_source e))")
    case (Some i)
    then show ?thesis using r by (simp add: resolve_source_def)
  next
    case None
    then obtain i where "resolve_or_create (e2_source e) (e2_ts_started e) (e2_machine e) (ic_token_label call) (id_sources db) = Inr (i, t')"
      using r by (auto simp: resolve_source_def split: sum.splits)
    from id_of_resolve [OF assms(1) this] show ?thesis using assms(2) by auto
  qed
  then show ?thesis using assms(3) by (auto simp: ingest_event_def Let_def case_prod_unfold split: sum.splits prod.splits)
qed

lemma ingest_events_replayed:
  assumes "source_inv (id_sources db)" and "cache_ok cache (id_sources db)" and "\<forall>e \<in> set es. sourced_row db e"
  shows "\<exists>os cache' db'. ingest_events call now es (cache, db) = Inr (os, cache', db') \<and> length os = length es
    \<and> (\<forall>p \<in> set os. snd p = DUPLICATE) \<and> (\<exists>dq. id_ledger db' = (id_ledger db)\<lparr>lb_dq := dq\<rparr>)
    \<and> id_of (id_sources db') = id_of (id_sources db) \<and> id_requests db' = id_requests db"
  using assms
proof (induction es arbitrary: cache db)
  case Nil
  then show ?case by (intro exI [of _ "[]"] exI [of _ cache] exI [of _ db]) (simp, rule exI [of _ "lb_dq (id_ledger db)"], simp)
next
  case (Cons e es)
  obtain i cache1 sources1 dq where ev: "ingest_event call now e (cache, db)
      = (let (oc, l) = apply_event True now (engine_options call i) e ((id_ledger db)\<lparr>lb_dq := dq\<rparr>)
         in Inr ((i, oc), cache1, db\<lparr>id_sources := sources1, id_ledger := l\<rparr>))"
    and s: "source_inv sources1" and c: "cache_ok cache1 sources1"
    and i: "id_of sources1 (ref_identity (e2_source e)) = Some i" and le: "id_of (id_sources db) \<subseteq>\<^sub>m id_of sources1"
    using ingest_event_ok [OF Cons.prems(1,2)] by blast
  let ?st = "(id_ledger db)\<lparr>lb_dq := dq\<rparr>" and ?opts = "engine_options call i"
  let ?db = "db\<lparr>id_sources := sources1, id_ledger := ?st\<rparr>"
  obtain j where j: "id_of (id_sources db) (ref_identity (e2_source e)) = Some j"
    and a: "active_row (id_ledger db) (event_key e) = Some (usage_event_v2_row e (Some j) None)"
    using Cons.prems(3) by (auto simp: sourced_row_def)
  have "j = i" using le i j by (metis domI map_le_def option.inject)
  then have "event_decision ?opts e ?st = decision DUPLICATE False"
    using a by (intro replay_decision [of _ _ "usage_event_v2_row e (Some j) None"]) simp_all
  from duplicate_no_effect [OF this, of True now]
  have ev': "ingest_event call now e (cache, db) = Inr ((i, DUPLICATE), cache1, ?db)" by (simp add: ev)
  have ids: "id_of sources1 = id_of (id_sources db)"
    using ingest_event_known [OF Cons.prems(1) j ev'] by simp
  have "sourced_row ?db e'" if "e' \<in> set es" for e'
  proof -
    have "sourced_row db e'" using Cons.prems(3) that by simp
    then show ?thesis by (simp add: sourced_row_def ids)
  qed
  then obtain os cache' db' dq' where rest: "ingest_events call now es (cache1, ?db) = Inr (os, cache', db')"
    and "length os = length es" "\<forall>p \<in> set os. snd p = DUPLICATE" "id_ledger db' = (id_ledger ?db)\<lparr>lb_dq := dq'\<rparr>"
    "id_of (id_sources db') = id_of sources1" "id_requests db' = id_requests db"
    using Cons.IH [of ?db cache1] s c by auto
  then show ?case by (simp add: ev' ids) blast
qed

lemma touched_current:
  assumes "id_requests db' = fold (recompute_request rows) ks qs"
  shows "requests_current rows (set ks) (id_requests db')"
  using requests_current_fold [of rows "{}" qs ks] assms by (simp add: requests_current_def)

lemma all_counted:
  assumes "\<forall>p \<in> set os. snd p = oc"
  shows "outcome_count oc os = length os"
  using assms by (simp add: outcome_count_def)

lemma none_counted:
  assumes "outcome_count DUPLICATE os = 0" and "outcome_count REJECTED os = 0"
  shows "\<forall>p \<in> set os. written (snd p)"
proof
  fix p assume p: "p \<in> set os"
  have "snd p \<noteq> DUPLICATE" "snd p \<noteq> REJECTED"
    using assms p by (auto simp: outcome_count_def filter_empty_conv)
  then show "written (snd p)" by (cases "snd p") (simp_all add: written_def)
qed

text \<open>
  C4. A batch whose events were all written the first time and that is sent again after its transaction
  committed: whatever the mode and the caller of the second call, every event is a duplicate, the ledger's
  events, revisions and units, all logical requests and the source ids are as they were, and exactly one
  batch record, which counts the duplicates, is appended. The hypotheses: the first call succeeded with
  nothing duplicate or rejected, the event keys of the batch are distinct, an observed cost, where an event
  has one, is already in the form in which the database column returns it (without this the second call can
  reject the event, see \<open>observed_cost_replay_rejected\<close>), the rows stored before are as the
  database returns them, and source ids are unique.
\<close>

theorem ingest_replay:
  assumes "source_inv (id_sources db)" and "\<forall>r \<in> set (lb_events (id_ledger db)). reload r = r"
    and "distinct (map event_key events)"
    and "\<forall>e \<in> set events. map_option numeric_column (e2_observed_cost e) = e2_observed_cost e"
    and "ingest bytes sv bid call now events db = Inr (res, db')"
    and "ir_duplicate res = 0" and "ir_rejected res = 0"
  shows "\<exists>res2 db2 b. ingest bytes sv bid2 call2 now2 events (db'\<lparr>id_ledger := commit_ledger (id_ledger db')\<rparr>) = Inr (res2, db2)
    \<and> ir_duplicate res2 = length events
    \<and> lb_events (id_ledger db2) = lb_events (id_ledger db') \<and> lb_revisions (id_ledger db2) = lb_revisions (id_ledger db')
    \<and> lb_units (id_ledger db2) = lb_units (id_ledger db') \<and> id_requests db2 = id_requests db'
    \<and> id_of (id_sources db2) = id_of (id_sources db')
    \<and> id_batches db2 = id_batches db' @ [b] \<and> ib_batch_id b = bid2 \<and> ib_duplicate b = length events"
proof -
  obtain cleaned0 cleaned os cache db1 b dq where v: "validate_batch bytes (sv_policy sv) events = Inr cleaned0"
    and c: "cleaned = map default_request_id cleaned0"
    and l: "ingest_events call now cleaned ([], db) = Inr (os, cache, db1)"
    and led: "id_ledger db' = (id_ledger db1)\<lparr>lb_dq := dq\<rparr>"
    and src: "id_of (id_sources db') = id_of (id_sources db1)" "source_inv (id_sources db') = source_inv (id_sources db1)"
    and rq: "id_requests db' = fold (recompute_request (lb_events (id_ledger db1))) (touched_requests cleaned) (id_requests db1)"
    and om: "outcomes_match os res b"
    by (rule ingest_Inr [OF assms(5)])
  note val = validate_batch_Inr [OF v]
  have keys: "map event_key cleaned = map event_key events"
    and obs: "\<forall>e \<in> set cleaned. map_option numeric_column (e2_observed_cost e) = e2_observed_cost e"
    using val assms(4) by (auto simp: c sanitize_fields event_key_def default_request_id_def comp_def)
  have w: "\<forall>p \<in> set os. written (snd p)"
    using om assms(6,7) by (intro none_counted) (simp_all add: outcomes_match_def)
  have st: "source_inv (id_sources db1)" "\<forall>e \<in> set cleaned. sourced_row db1 e"
    "\<forall>r \<in> set (lb_events (id_ledger db1)). reload r = r"
    using ingest_events_written [OF assms(1) _ l _ w obs assms(2)] assms(3) keys
    by (auto simp: cache_ok_def map_le_def)
  have commit: "commit_ledger (id_ledger db') = id_ledger db'"
    using st(3) by (simp add: commit_ledger_def led map_idI)
  have "\<forall>e \<in> set cleaned. sourced_row db' e" using st(2) by (simp add: sourced_row_def src led)
  then obtain os2 cache2 db2 dq2 where l2: "ingest_events call2 now2 cleaned ([], db') = Inr (os2, cache2, db2)"
    and len: "length os2 = length cleaned" and dup: "\<forall>p \<in> set os2. snd p = DUPLICATE"
    and led2: "id_ledger db2 = (id_ledger db')\<lparr>lb_dq := dq2\<rparr>" and ids2: "id_of (id_sources db2) = id_of (id_sources db')" and rq2: "id_requests db2 = id_requests db'"
    using ingest_events_replayed [of db' "[]" cleaned call2 now2] st(1) src by (auto simp: cache_ok_def map_le_def)
  obtain res2 db3 where r2: "ingest bytes sv bid2 call2 now2 events db' = Inr (res2, db3)"
    using ingest_total [of db' events bytes sv bid2 call2 now2] st(1) src val by auto
  obtain cleaned0' cleaned' os' cache' db1' b' dq' where *: "validate_batch bytes (sv_policy sv) events = Inr cleaned0'"
    "cleaned' = map default_request_id cleaned0'" "ingest_events call2 now2 cleaned' ([], db') = Inr (os', cache', db1')"
    "id_ledger db3 = (id_ledger db1')\<lparr>lb_dq := dq'\<rparr>"
    "id_requests db3 = fold (recompute_request (lb_events (id_ledger db1'))) (touched_requests cleaned') (id_requests db1')"
    "outcomes_match os' res2 b'" "id_of (id_sources db3) = id_of (id_sources db1')"
    by (rule ingest_Inr [OF r2])
  have same: "cleaned' = cleaned" "os' = os2" "db1' = db2" using * v l2 by (simp_all add: c)
  have "id_requests db3 = id_requests db'"
    using requests_current_noop [OF touched_current [OF rq]] by (simp add: *(5) same led2 rq2 led)
  moreover have "ir_duplicate res2 = length events"
    using *(6) all_counted [OF dup] len val by (simp add: same outcomes_match_def c)
  moreover obtain b2 where "id_batches db3 = id_batches db' @ [b2]" "ib_batch_id b2 = bid2" "ib_duplicate b2 = ir_duplicate res2"
    using ingest_one_batch [OF _ r2] st(1) src(2) by auto
  ultimately show ?thesis using r2 *(7) by (simp add: commit *(4) same led2 ids2)
qed

theorem ingest_replay_witness:
  "\<exists>res db' res2 db2. ingest (\<lambda>_. 100) strip_service ''b1'' plain_call 7 [demo_event] (empty_ingest_db 60) = Inr (res, db')
    \<and> ingest (\<lambda>_. 100) strip_service ''b2'' (plain_call\<lparr>ic_correction := True\<rparr>) 8 [demo_event]
        (db'\<lparr>id_ledger := commit_ledger (id_ledger db')\<rparr>) = Inr (res2, db2)
    \<and> ir_duplicate res2 = 1 \<and> lb_events (id_ledger db2) = lb_events (id_ledger db')"
proof -
  obtain res db' cleaned where r: "ingest (\<lambda>_. 100) strip_service ''b1'' plain_call 7 [demo_event] (empty_ingest_db 60) = Inr (res, db')"
    and v: "validate_batch (\<lambda>_. 100) (sv_policy strip_service) [demo_event] = Inr cleaned"
    using ingest_total [of "empty_ingest_db 60" "[demo_event]" "\<lambda>_. 100" strip_service "''b1''" plain_call 7] by auto
  obtain cleaned0 cl os cache db1 b where o: "cl = map default_request_id cleaned0"
    "validate_batch (\<lambda>_. 100) (sv_policy strip_service) [demo_event] = Inr cleaned0"
    "ingest_events plain_call 7 cl ([], empty_ingest_db 60) = Inr (os, cache, db1)" "outcomes_match os res b"
    by (rule ingest_Inr [OF r])
  obtain e where e: "cl = [e]" using o(1) validate_batch_Inr [OF o(2)] by simp
  have "\<exists>i. os = [(i, ACCEPTED)]"
  proof -
    obtain i cache' sources' dq where "ingest_event plain_call 7 e ([], empty_ingest_db 60)
      = (let (oc, l) = apply_event True 7 (engine_options plain_call i) e ((id_ledger (empty_ingest_db 60))\<lparr>lb_dq := dq\<rparr>)
         in Inr ((i, oc), cache', (empty_ingest_db 60)\<lparr>id_sources := sources', id_ledger := l\<rparr>))"
      using ingest_event_ok [of "empty_ingest_db 60" "[]" plain_call 7 e] by (auto simp: cache_ok_def map_le_def)
    then show ?thesis using o(3)
      by (auto simp: e case_prod_unfold event_decision_def active_row_def resolve_def decision_def)
  qed
  then have "ir_duplicate res = 0" "ir_rejected res = 0"
    using o(4) by (auto simp: outcomes_match_def outcome_count_def)
  then show ?thesis
    using ingest_replay [OF _ _ _ _ r, of "''b2''" "plain_call\<lparr>ic_correction := True\<rparr>" 8] r
    by (auto simp: demo_event_def)
qed

section \<open>An attempt that changes its request\<close>

lemma ingest_single:
  assumes "source_inv (id_sources db)" and "pr_ok (sanitize bytes (sv_policy sv) e)" and "e2_extra e = []"
    and "e2_logical_request_id e \<noteq> None"
  shows "\<exists>res db' i. ingest bytes sv bid call now [e] db = Inr (res, db') \<and> source_inv (id_sources db')
    \<and> lb_events (id_ledger db') = lb_events (snd (apply_event True now (engine_options call i) e (id_ledger db)))"
proof -
  obtain res db' where r: "ingest bytes sv bid call now [e] db = Inr (res, db')"
    using ingest_total [OF assms(1), of "[e]" bytes sv bid call now] assms(2) by auto
  obtain cleaned0 cl os cache db1 dq where o: "validate_batch bytes (sv_policy sv) [e] = Inr cleaned0"
    "cl = map default_request_id cleaned0" "ingest_events call now cl ([], db) = Inr (os, cache, db1)"
    "id_ledger db' = (id_ledger db1)\<lparr>lb_dq := dq\<rparr>" "source_inv (id_sources db') = source_inv (id_sources db1)"
    by (rule ingest_Inr [OF r])
  have "pr_event (sanitize bytes (sv_policy sv) e) = e" by (simp add: sanitize_fields assms(3))
  then have cl: "cl = [e]" using o(2) validate_batch_Inr [OF o(1)] assms(4) by (auto simp: default_request_id_def)
  obtain i cache' sources' dq' where ev: "ingest_event call now e ([], db)
      = (let (oc, l) = apply_event True now (engine_options call i) e ((id_ledger db)\<lparr>lb_dq := dq'\<rparr>)
         in Inr ((i, oc), cache', db\<lparr>id_sources := sources', id_ledger := l\<rparr>))" and s: "source_inv sources'"
    using ingest_event_ok [OF assms(1), of "[]" call now e] by (auto simp: cache_ok_def map_le_def)
  let ?l = "snd (apply_event True now (engine_options call i) e ((id_ledger db)\<lparr>lb_dq := dq'\<rparr>))"
  have db1: "db1 = db\<lparr>id_sources := sources', id_ledger := ?l\<rparr>"
    using o(3) by (simp add: cl ev case_prod_unfold)
  have "event_decision (engine_options call i) e ((id_ledger db)\<lparr>lb_dq := dq'\<rparr>)
      = event_decision (engine_options call i) e (id_ledger db)" by (simp add: event_decision_def)
  then have "lb_events ?l = lb_events (snd (apply_event True now (engine_options call i) e (id_ledger db)))"
    by (simp add: apply_events put_row_def split: option.split)
  then show ?thesis using r o(4,5) s by (intro exI [of _ res] exI [of _ db'] exI [of _ i]) (simp add: db1)
qed

definition named_event :: "string \<Rightarrow> usage_event_v2" where
  "named_event l = (sample_event Final 0 5)\<lparr>e2_logical_request_id := Some l\<rparr>"

lemma named_event_simps [simp]:
  "e2_extra (named_event l) = []" "e2_logical_request_id (named_event l) = Some l"
  "e2_provider (named_event l) = ''openai''"
  "event_key (named_event l) = (''openai'', ''e1'')" "pr_ok (sanitize (\<lambda>_. 100) default_policy (named_event l))"
  by (simp_all add: named_event_def sample_event_def event_key_def pr_ok_def sanitize_def privacy_checks default_policy_def)

lemma named_fingerprint:
  "row_fingerprint (usage_event_v2_row (named_event l) i c) = row_fingerprint (usage_event_v2_row (named_event l') i' c')
    \<Longrightarrow> l = l'"
  by (drule arg_cong [where f = lg_logical_request_id]) (simp add: row_fingerprint_def usage_event_v2_row_def)

lemma derive_named:
  "derive_request ''openai'' l [usage_event_v2_row (named_event l') i None] =
     (if l = l' then derive_request ''openai'' l [usage_event_v2_row (named_event l) i None] else None)"
  "\<exists>q. derive_request ''openai'' l [usage_event_v2_row (named_event l) i None] = Some q \<and> lr_attempt_count q = 1"
  by (simp_all add: derive_request_def request_rows_def usage_event_v2_row_def named_event_def sample_event_def
      aggregate_request_def Let_def)

lemma named_first:
  "\<exists>res db' i. ingest (\<lambda>_. 100) default_service bid plain_call 7 [named_event l] (empty_ingest_db 60) = Inr (res, db')
    \<and> source_inv (id_sources db') \<and> lb_events (id_ledger db') = [usage_event_v2_row (named_event l) (Some i) None]"
proof -
  have "sv_policy default_service = default_policy" by (simp add: default_service_def)
  then obtain res db' i where "ingest (\<lambda>_. 100) default_service bid plain_call 7 [named_event l] (empty_ingest_db 60) = Inr (res, db')"
    "source_inv (id_sources db')"
    "lb_events (id_ledger db') = lb_events (snd (apply_event True 7 (engine_options plain_call i) (named_event l) (id_ledger (empty_ingest_db 60))))"
    using ingest_single [of "empty_ingest_db 60" "\<lambda>_. 100" default_service "named_event l" bid plain_call 7] by auto
  then show ?thesis
    by (intro exI [of _ res] exI [of _ db'] exI [of _ i])
      (simp add: apply_events put_row_def active_row_def event_decision_def resolve_def decision_def)
qed

theorem ingest_requests_exact_witness:
  "\<exists>res db' q. ingest (\<lambda>_. 100) default_service ''b1'' plain_call 7 [named_event ''r1''] (empty_ingest_db 60) = Inr (res, db')
    \<and> request_of db' (''openai'', ''r1'') = Some q \<and> lr_attempt_count q = 1"
proof -
  obtain res db' i where r: "ingest (\<lambda>_. 100) default_service ''b1'' plain_call 7 [named_event ''r1''] (empty_ingest_db 60) = Inr (res, db')"
    and rows: "lb_events (id_ledger db') = [usage_event_v2_row (named_event ''r1'') (Some i) None]"
    using named_first [of "''b1''" "''r1''"] by blast
  obtain q where q: "derive_request ''openai'' ''r1'' [usage_event_v2_row (named_event ''r1'') (Some i) None] = Some q"
    "lr_attempt_count q = 1" using derive_named(2) by blast
  have "request_of db' (''openai'', ''r1'') = Some q"
    using ingest_requests_exact [OF r, of "(''openai'', ''r1'')"]
    by (simp add: Let_def rows q touched_requests_def default_request_id_def)
  with r q(2) show ?thesis by blast
qed

text \<open>
  A limit of the logical requests: they are recomputed only for the request an event names now. If an
  admin correction moves an attempt from one request to another, the ledger has no row left for the old
  request, yet the old row of \<open>logical_requests\<close> stays and still counts one attempt, although the service
  is documented to be correct under a correction that changes an attempt.
\<close>

theorem moved_attempt_leaves_request:
  "\<exists>res1 db1 res2 db2 q.
     ingest (\<lambda>_. 100) default_service ''b1'' plain_call 7 [named_event ''r1''] (empty_ingest_db 60) = Inr (res1, db1)
   \<and> ingest (\<lambda>_. 100) default_service ''b2'' (plain_call\<lparr>ic_correction := True\<rparr>) 8 [named_event ''r2''] db1 = Inr (res2, db2)
   \<and> derive_request ''openai'' ''r1'' (lb_events (id_ledger db2)) = None
   \<and> request_of db2 (''openai'', ''r1'') = Some q \<and> lr_attempt_count q = 1"
proof -
  have pol: "sv_policy default_service = default_policy" by (simp add: default_service_def)
  obtain res1 db1 i where r1: "ingest (\<lambda>_. 100) default_service ''b1'' plain_call 7 [named_event ''r1''] (empty_ingest_db 60) = Inr (res1, db1)"
    and s1: "source_inv (id_sources db1)"
    and rows1: "lb_events (id_ledger db1) = [usage_event_v2_row (named_event ''r1'') (Some i) None]"
    using named_first [of "''b1''" "''r1''"] by blast
  obtain res2 db2 j where r2: "ingest (\<lambda>_. 100) default_service ''b2'' (plain_call\<lparr>ic_correction := True\<rparr>) 8 [named_event ''r2''] db1 = Inr (res2, db2)"
    and e2: "lb_events (id_ledger db2) = lb_events (snd (apply_event True 8 (engine_options (plain_call\<lparr>ic_correction := True\<rparr>) j) (named_event ''r2'') (id_ledger db1)))"
    using ingest_single [OF s1, of "\<lambda>_. 100" default_service "named_event ''r2''" "''b2''" "plain_call\<lparr>ic_correction := True\<rparr>" 8] pol by auto
  have rows2: "lb_events (id_ledger db2) = [usage_event_v2_row (named_event ''r2'') (Some j) None]"
  proof -
    have fin: "lg_finality (usage_event_v2_row (named_event l) m None) = ''final''" for l m
      by (simp add: usage_event_v2_row_def named_event_def sample_event_def)
    have "row_fingerprint (usage_event_v2_row (named_event ''r2'') (Some j) None)
        \<noteq> row_fingerprint (usage_event_v2_row (named_event ''r1'') (Some i) None)"
      using named_fingerprint by fastforce
    then have "es_fingerprint (event_state_of (usage_event_v2_row (named_event ''r2'') (Some j) None))
        \<noteq> es_fingerprint (event_state_of (usage_event_v2_row (named_event ''r1'') (Some i) None))"
      by (simp add: event_state_of_def)
    then show ?thesis
      by (simp add: e2 apply_events put_row_def active_row_def rows1 event_decision_def resolve_defs decision_def fin
          engine_options_def plain_call_def)
  qed
  obtain q where q: "derive_request ''openai'' ''r1'' [usage_event_v2_row (named_event ''r1'') (Some i) None] = Some q"
    "lr_attempt_count q = 1" using derive_named(2) by blast
  have "request_of db1 (''openai'', ''r1'') = Some q"
    unfolding requests_after [OF r1] by (simp add: Let_def rows1 q touched_requests_def default_request_id_def)
  then have "request_of db2 (''openai'', ''r1'') = Some q"
    unfolding requests_after [OF r2] by (simp add: Let_def touched_requests_def default_request_id_def)
  moreover have "derive_request ''openai'' ''r1'' (lb_events (id_ledger db2)) = None"
    using derive_named(1) [of "''r1''" "''r2''" "Some j"] by (simp add: rows2)
  ultimately show ?thesis using r1 r2 q(2) by blast
qed

end
