(* ===== verification/Claude_Code.thy ===== *)
theory Claude_Code
  imports Py_Json
begin

text \<open>
  The Claude Code usage source (\<open>providers/claude_code.py\<close>): the incremental parse of a transcript from a
  byte offset, the normalization of one record, and the import of the aggregate cache. A file is the list
  of its bytes. The decoders of the standard library enter as parameters: \<open>json.loads\<close> on a line (\<open>None\<close>
  is a \<open>ValueError\<close>), and \<open>datetime.fromisoformat\<close> and \<open>strptime\<close> on the text of a JSON value. A JSON
  number is finite. An exception that \<open>parse\<close> does not catch is a left value.
\<close>

section \<open>JSON values as Python treats them\<close>

fun py_truthy :: "json \<Rightarrow> bool" where
  "py_truthy JNull = False"
| "py_truthy (JBool b) = b"
| "py_truthy (JInt n) = (n \<noteq> 0)"
| "py_truthy (JNum q) = (q \<noteq> 0)"
| "py_truthy (JStr s) = (s \<noteq> [])"
| "py_truthy (JArr vs) = (vs \<noteq> [])"
| "py_truthy (JObj es) = (es \<noteq> [])"

text \<open>\<open>int(text)\<close>: optional sign, digits with single underscores between them.\<close>

fun plain_digits :: "string \<Rightarrow> bool" where
  "plain_digits [] = False"
| "plain_digits [c] = is_digit c"
| "plain_digits (c # d # s) =
     (is_digit c \<and> (if d = CHR ''_'' then plain_digits s else plain_digits (d # s)))"

definition int_of_str :: "string \<Rightarrow> int option" where
  "int_of_str s =
     (let (neg, t) = split_sign (str_strip s)
      in if plain_digits t then Some ((if neg then - 1 else 1) * int (nat_of_digits (filter is_digit t))) else None)"

definition py_int :: "json \<Rightarrow> int option" where
  "py_int v = (case v of JInt n \<Rightarrow> Some n | JBool b \<Rightarrow> Some (if b then 1 else 0)
     | JNum q \<Rightarrow> Some (if 0 \<le> q then \<lfloor>q\<rfloor> else \<lceil>q\<rceil>) | JStr s \<Rightarrow> int_of_str s | _ \<Rightarrow> None)"

text \<open>\<open>isinstance(value, int)\<close>, which a \<open>bool\<close> passes too.\<close>

definition as_int :: "json option \<Rightarrow> int option" where
  "as_int v = (case v of Some (JInt n) \<Rightarrow> Some n | Some (JBool b) \<Rightarrow> Some (if b then 1 else 0) | _ \<Rightarrow> None)"

definition as_dict :: "json option \<Rightarrow> (string \<times> json) list option" where
  "as_dict v = (case v of Some (JObj es) \<Rightarrow> Some es | _ \<Rightarrow> None)"

definition optional_str :: "json option \<Rightarrow> string option" where
  "optional_str v = (case v of Some (JStr s) \<Rightarrow> if s = [] then None else Some s | _ \<Rightarrow> None)"

text \<open>\<open>int(d.get(k, 0) or 0)\<close>\<close>

definition token_field :: "(string \<times> json) list \<Rightarrow> string \<Rightarrow> int option" where
  "token_field d k = (case jget d k of None \<Rightarrow> Some 0 | Some v \<Rightarrow> if py_truthy v then py_int v else Some 0)"

section \<open>One record\<close>

datatype record_outcome =
    Not_Usage
  | Broken
  | Usage usage_event
  | Escapes

definition SYNTHETIC_MODELS :: "string list" where
  "SYNTHETIC_MODELS = [''<synthetic>'']"

definition cache_writes :: "(string \<times> json) list \<Rightarrow> int option \<times> int option" where
  "cache_writes usage =
     (case as_dict (jget usage ''cache_creation'') of
        Some cc \<Rightarrow> (token_field cc ''ephemeral_5m_input_tokens'', token_field cc ''ephemeral_1h_input_tokens'')
      | None \<Rightarrow> (token_field usage ''cache_creation_input_tokens'', Some 0))"

definition server_tool_extra :: "(string \<times> json) list \<Rightarrow> (string \<times> json) list" where
  "server_tool_extra usage =
     (case as_dict (jget usage ''server_tool_use'') of
        None \<Rightarrow> []
      | Some tools \<Rightarrow>
          concat (map (\<lambda>counter.
            (case as_int (jget tools counter) of
               Some n \<Rightarrow> if 0 < n then [(counter, the (jget tools counter))] else []
             | None \<Rightarrow> [])) [''web_search_requests'', ''web_fetch_requests'']))"

definition record_timestamp :: "(json \<Rightarrow> raw_datetime option) \<Rightarrow> (string \<times> json) list \<Rightarrow> py_datetime option" where
  "record_timestamp fromiso d =
     (case map_of d ''timestamp'' of None \<Rightarrow> None | Some v \<Rightarrow> map_option raw_as_utc (fromiso v))"

definition usage_of_record ::
  "(json \<Rightarrow> raw_datetime option) \<Rightarrow> string option \<Rightarrow> (string \<times> json) list \<Rightarrow> (string \<times> json) list
   \<Rightarrow> string \<Rightarrow> string \<Rightarrow> record_outcome" where
  "usage_of_record fromiso machine d usage model event_id =
     (case (record_timestamp fromiso d, fst (cache_writes usage), snd (cache_writes usage),
            token_field usage ''input_tokens'', token_field usage ''output_tokens'',
            token_field usage ''cache_read_input_tokens'') of
        (Some ts, Some short_write, Some long_write, Some inp, Some out, Some cache_read) \<Rightarrow>
          (case validate_usage_event
             \<lparr>ue_event_id = event_id, ue_provider = ''anthropic'', ue_native_model = model, ue_ts = ts,
              ue_machine = machine, ue_session_id = optional_str (jget d ''sessionId''),
              ue_project = optional_str (jget d ''cwd''), ue_git_branch = optional_str (jget d ''gitBranch''),
              ue_client_version = optional_str (jget d ''version''),
              ue_entrypoint = optional_str (jget d ''entrypoint''),
              ue_is_sidechain = (case jget d ''isSidechain'' of None \<Rightarrow> False | Some v \<Rightarrow> py_truthy v),
              ue_session_kind = optional_str (jget d ''sessionKind''), ue_input_tokens = inp,
              ue_output_tokens = out, ue_cache_read_tokens = cache_read,
              ue_cache_write_short_tokens = short_write, ue_cache_write_long_tokens = long_write,
              ue_service_tier = optional_str (jget usage ''service_tier''),
              ue_speed = optional_str (jget usage ''speed''), ue_provenance = LOCAL_ESTIMATE,
              ue_extra = server_tool_extra usage\<rparr> of
             Inl _ \<Rightarrow> Broken | Inr e \<Rightarrow> Usage e)
      | _ \<Rightarrow> Broken)"

text \<open>
  \<open>_event_from_record\<close> on any JSON value, with what \<open>parse\<close> does with its exceptions: \<open>KeyError\<close>,
  \<open>TypeError\<close> and \<open>ValueError\<close> make the record broken; a value that is no object has no \<open>get\<close>, and that
  \<open>AttributeError\<close> escapes.
\<close>

definition event_from_record :: "(json \<Rightarrow> raw_datetime option) \<Rightarrow> string option \<Rightarrow> json \<Rightarrow> record_outcome" where
  "event_from_record fromiso machine v =
     (case v of
        JObj d \<Rightarrow>
          if jget d ''type'' \<noteq> Some (JStr ''assistant'') then Not_Usage
          else (case as_dict (jget d ''message'') of
              None \<Rightarrow> Not_Usage
            | Some message \<Rightarrow>
                (case as_dict (jget message ''usage'') of
                   None \<Rightarrow> Not_Usage
                 | Some usage \<Rightarrow>
                     (case optional_str (jget message ''model'') of
                        None \<Rightarrow> Not_Usage
                      | Some model \<Rightarrow>
                          if model \<in> set SYNTHETIC_MODELS then Not_Usage
                          else
                            let raw_id = (case jget d ''requestId'' of
                                   Some r \<Rightarrow> if py_truthy r then Some r else jget message ''id''
                                 | None \<Rightarrow> jget message ''id'')
                            in (case optional_str raw_id of
                                  None \<Rightarrow> Not_Usage
                                | Some event_id \<Rightarrow> usage_of_record fromiso machine d usage model event_id))))
      | _ \<Rightarrow> Escapes)"

section \<open>The incremental parse\<close>

abbreviation LF :: char where "LF \<equiv> CHR 0x0A"

text \<open>The lines a binary file yields: each with its newline, the last one perhaps without.\<close>

function raw_lines :: "string \<Rightarrow> string list" where
  "raw_lines [] = []"
| "raw_lines (c # s) =
     (case dropWhile (\<lambda>b. b \<noteq> LF) (c # s) of
        [] \<Rightarrow> [c # s]
      | nl # rest \<Rightarrow> (takeWhile (\<lambda>b. b \<noteq> LF) (c # s) @ [nl]) # raw_lines rest)"
  by pat_completeness auto
termination
proof (relation "measure length", simp)
  fix c :: char and s nl rest
  assume "dropWhile (\<lambda>b. b \<noteq> LF) (c # s) = nl # rest"
  then show "(rest, c # s) \<in> measure length"
    using length_dropWhile_le [of "\<lambda>b. b \<noteq> LF" "c # s"] by simp
qed

definition is_byte_space :: "char \<Rightarrow> bool" where
  "is_byte_space c = (let n = (of_char c :: nat) in n = 32 \<or> 9 \<le> n \<and> n \<le> 13)"

definition bytes_strip :: "string \<Rightarrow> string" where
  "bytes_strip s = rev (dropWhile is_byte_space (rev (dropWhile is_byte_space s)))"

record parse_state =
  ps_best :: "(string, usage_event) dict"
  ps_order :: "string list"
  ps_malformed :: int

datatype parse_error = AttributeError

definition keep_best :: "usage_event \<Rightarrow> parse_state \<Rightarrow> parse_state" where
  "keep_best e st =
     (case dget (ps_best st) (ue_event_id e) of
        None \<Rightarrow> st\<lparr>ps_order := ps_order st @ [ue_event_id e], ps_best := dset (ue_event_id e) e (ps_best st)\<rparr>
      | Some current \<Rightarrow>
          if ue_output_tokens current \<le> ue_output_tokens e
          then st\<lparr>ps_best := dset (ue_event_id e) e (ps_best st)\<rparr> else st)"

definition line_outcome ::
  "(string \<Rightarrow> json option) \<Rightarrow> (json \<Rightarrow> raw_datetime option) \<Rightarrow> string option \<Rightarrow> string \<Rightarrow> record_outcome" where
  "line_outcome loads fromiso machine line =
     (if line = [] then Not_Usage
      else case loads line of None \<Rightarrow> Broken | Some v \<Rightarrow> event_from_record fromiso machine v)"

fun parse_lines ::
  "(string \<Rightarrow> json option) \<Rightarrow> (json \<Rightarrow> raw_datetime option) \<Rightarrow> string option \<Rightarrow> string list
   \<Rightarrow> int \<times> parse_state \<Rightarrow> parse_error + int \<times> parse_state" where
  "parse_lines loads fromiso machine [] acc = Inr acc"
| "parse_lines loads fromiso machine (raw_line # rest) (position, st) =
     (if last raw_line \<noteq> LF then Inr (position, st)
      else
        let position = position + int (length raw_line)
        in case line_outcome loads fromiso machine (bytes_strip raw_line) of
             Not_Usage \<Rightarrow> parse_lines loads fromiso machine rest (position, st)
           | Broken \<Rightarrow> parse_lines loads fromiso machine rest (position, st\<lparr>ps_malformed := ps_malformed st + 1\<rparr>)
           | Usage e \<Rightarrow> parse_lines loads fromiso machine rest (position, keep_best e st)
           | Escapes \<Rightarrow> Inl AttributeError)"

definition parse ::
  "(string \<Rightarrow> json option) \<Rightarrow> (json \<Rightarrow> raw_datetime option) \<Rightarrow> string option \<Rightarrow> string \<Rightarrow> int
   \<Rightarrow> parse_error + parse_result" where
  "parse loads fromiso machine content offset =
     (case parse_lines loads fromiso machine (raw_lines (drop (nat offset) content))
         (offset, \<lparr>ps_best = [], ps_order = [], ps_malformed = 0\<rparr>) of
        Inl err \<Rightarrow> Inl err
      | Inr (position, st) \<Rightarrow>
          Inr \<lparr>pr_events = map (\<lambda>i. the (dget (ps_best st) i)) (ps_order st), pr_new_offset = position,
               pr_malformed_lines = ps_malformed st\<rparr>)"

section \<open>The aggregate cache\<close>

datatype bootstrap_error = NoGet | NotIterable | InvalidAggregate model_error

text \<open>The aggregates of one day's models; a non-integer or negative total is skipped.\<close>

fun model_aggregates ::
  "string option \<Rightarrow> date \<Rightarrow> (string \<times> json) list \<Rightarrow> bootstrap_error + daily_aggregate list" where
  "model_aggregates machine day [] = Inr []"
| "model_aggregates machine day ((model, tokens) # rest) =
     (case as_int (Some tokens) of
        None \<Rightarrow> model_aggregates machine day rest
      | Some n \<Rightarrow>
          if n < 0 then model_aggregates machine day rest
          else (case validate_daily_aggregate
                 \<lparr>da_provider = ''anthropic'', da_day = day, da_native_model = model, da_machine = machine,
                  da_input_tokens = 0, da_output_tokens = 0, da_cache_read_tokens = 0,
                  da_cache_write_short_tokens = 0, da_cache_write_long_tokens = 0, da_total_tokens = n,
                  da_message_count = 0, da_provenance = STATS_CACHE\<rparr> of
                 Inl err \<Rightarrow> Inl (InvalidAggregate err)
               | Inr a \<Rightarrow>
                   (case model_aggregates machine day rest of Inl err \<Rightarrow> Inl err | Inr as \<Rightarrow> Inr (a # as))))"

definition entry_aggregates ::
  "(json \<Rightarrow> date option) \<Rightarrow> string option \<Rightarrow> json \<Rightarrow> bootstrap_error + daily_aggregate list" where
  "entry_aggregates strptime machine entry =
     (case entry of
        JObj d \<Rightarrow>
          (case Option.bind (map_of d ''date'') strptime of
             None \<Rightarrow> Inr []
           | Some day \<Rightarrow>
               (case as_dict (jget d ''tokensByModel'') of
                  None \<Rightarrow> Inr [] | Some models \<Rightarrow> model_aggregates machine day models))
      | _ \<Rightarrow> Inr [])"

fun entries_aggregates ::
  "(json \<Rightarrow> date option) \<Rightarrow> string option \<Rightarrow> json list \<Rightarrow> bootstrap_error + daily_aggregate list" where
  "entries_aggregates strptime machine [] = Inr []"
| "entries_aggregates strptime machine (e # es) =
     (case entry_aggregates strptime machine e of
        Inl err \<Rightarrow> Inl err
      | Inr as \<Rightarrow>
          (case entries_aggregates strptime machine es of Inl err \<Rightarrow> Inl err | Inr bs \<Rightarrow> Inr (as @ bs)))"

text \<open>
  \<open>bootstrap\<close> on the decoded cache; an unreadable or undecodable file is \<open>None\<close>. Iterating over an object
  or a string yields strings, none of which is an entry.
\<close>

definition bootstrap_aggregates ::
  "(json \<Rightarrow> date option) \<Rightarrow> string option \<Rightarrow> json option \<Rightarrow> bootstrap_error + daily_aggregate list" where
  "bootstrap_aggregates strptime machine cache =
     (case cache of
        None \<Rightarrow> Inr []
      | Some (JObj d) \<Rightarrow>
          (case map_of d ''dailyModelTokens'' of
             None \<Rightarrow> Inr []
           | Some (JArr es) \<Rightarrow> entries_aggregates strptime machine es
           | Some (JObj _) \<Rightarrow> Inr []
           | Some (JStr _) \<Rightarrow> Inr []
           | Some _ \<Rightarrow> Inl NotIterable)
      | Some _ \<Rightarrow> Inl NoGet)"

section \<open>Laws\<close>

text \<open>The complete lines of a text and the length they take.\<close>

definition complete_lines :: "string \<Rightarrow> string list" where
  "complete_lines s = filter (\<lambda>l. last l = LF) (raw_lines s)"

definition consumed :: "string \<Rightarrow> nat" where
  "consumed s = length (concat (complete_lines s))"

lemma raw_lines_no_LF: "LF \<notin> set s \<Longrightarrow> raw_lines s = (if s = [] then [] else [s])"
proof (cases s)
  case (Cons c t)
  assume "LF \<notin> set s"
  then have "dropWhile (\<lambda>b. b \<noteq> LF) (c # t) = []" unfolding Cons dropWhile_eq_Nil_conv by auto
  then show ?thesis by (simp only: Cons raw_lines.simps list.case) simp
qed simp

lemma raw_lines_line: "LF \<notin> set l \<Longrightarrow> raw_lines (l @ LF # rest) = (l @ [LF]) # raw_lines rest"
proof -
  assume l: "LF \<notin> set l"
  then have "\<forall>x \<in> set l. x \<noteq> LF" by auto
  then have d: "dropWhile (\<lambda>b. b \<noteq> LF) (l @ LF # rest) = LF # rest"
    and t: "takeWhile (\<lambda>b. b \<noteq> LF) (l @ LF # rest) = l"
    by (auto simp: dropWhile_append takeWhile_append dropWhile_eq_Nil_conv takeWhile_eq_all_conv)
  obtain c s where "l @ LF # rest = c # s" by (cases l) auto
  then show ?thesis using d t raw_lines.simps(2) [of c s] by simp
qed

lemma text_cases:
  obtains (partial) "LF \<notin> set s" | (line) l rest where "s = l @ LF # rest" "LF \<notin> set l"
  using split_list_first [of LF s] by blast

lemma last_no_LF: "LF \<notin> set s \<Longrightarrow> s \<noteq> [] \<Longrightarrow> last s \<noteq> LF"
  by (metis last_in_set)

lemma complete_lines_simps [simp]:
  "LF \<notin> set s \<Longrightarrow> complete_lines s = []"
  "LF \<notin> set l \<Longrightarrow> complete_lines (l @ LF # rest) = (l @ [LF]) # complete_lines rest"
proof -
  show "complete_lines s = []" if "LF \<notin> set s"
    using that last_no_LF [of s] by (auto simp: complete_lines_def raw_lines_no_LF)
  show "complete_lines (l @ LF # rest) = (l @ [LF]) # complete_lines rest" if "LF \<notin> set l"
    using that by (simp add: complete_lines_def raw_lines_line)
qed

lemma consumed_simps [simp]:
  "LF \<notin> set s \<Longrightarrow> consumed s = 0"
  "LF \<notin> set l \<Longrightarrow> consumed (l @ LF # rest) = length l + 1 + consumed rest"
  by (simp_all add: consumed_def)

lemma consumed_le: "consumed s \<le> length s"
proof (induction s rule: length_induct)
  case (1 s)
  show ?case
  proof (cases s rule: text_cases)
    case (line l rest)
    then show ?thesis using 1 [rule_format, of rest] by simp
  qed simp
qed

lemma complete_lines_append:
  "complete_lines (s @ new) = complete_lines s @ complete_lines (drop (consumed s) s @ new)"
proof (induction s rule: length_induct)
  case (1 s)
  show ?case
  proof (cases s rule: text_cases)
    case (line l rest)
    then show ?thesis using 1 [rule_format, of rest] by simp
  qed simp
qed

lemma consumed_append: "consumed (s @ new) = consumed s + consumed (drop (consumed s) s @ new)"
  by (simp add: consumed_def complete_lines_append [of s new])

lemma complete_take_consumed: "complete_lines (take (consumed s) s) = complete_lines s"
proof (induction s rule: length_induct)
  case (1 s)
  show ?case
  proof (cases s rule: text_cases)
    case (line l rest)
    then show ?thesis using 1 [rule_format, of rest] by simp
  next
    case partial
    then show ?thesis by simp
  qed
qed

text \<open>The parse of a text is the fold of its complete lines.\<close>

fun line_event :: "record_outcome \<Rightarrow> usage_event list" where
  "line_event (Usage e) = [e]" | "line_event _ = []"

definition line_events ::
  "(string \<Rightarrow> json option) \<Rightarrow> (json \<Rightarrow> raw_datetime option) \<Rightarrow> string option \<Rightarrow> string \<Rightarrow> usage_event list" where
  "line_events loads fromiso machine s =
     concat (map (\<lambda>l. line_event (line_outcome loads fromiso machine (bytes_strip l))) (complete_lines s))"


definition start_state :: parse_state where
  "start_state = \<lparr>ps_best = [], ps_order = [], ps_malformed = 0\<rparr>"

fun note_outcome :: "record_outcome \<Rightarrow> parse_state \<Rightarrow> parse_state" where
  "note_outcome (Usage e) st = keep_best e st"
| "note_outcome Broken st = st\<lparr>ps_malformed := ps_malformed st + 1\<rparr>"
| "note_outcome _ st = st"

definition outcomes ::
  "(string \<Rightarrow> json option) \<Rightarrow> (json \<Rightarrow> raw_datetime option) \<Rightarrow> string option \<Rightarrow> string \<Rightarrow> record_outcome list" where
  "outcomes loads fromiso machine s = map (\<lambda>l. line_outcome loads fromiso machine (bytes_strip l)) (complete_lines s)"

lemma parse_lines_fold:
  "parse_lines loads fromiso machine (raw_lines s) (position, st) =
     (if Escapes \<in> set (outcomes loads fromiso machine s) then Inl AttributeError
      else Inr (position + int (consumed s), fold note_outcome (outcomes loads fromiso machine s) st))"
proof (induction s arbitrary: position st rule: length_induct)
  case (1 s)
  show ?case
  proof (cases s rule: text_cases)
    case partial
    then show ?thesis using last_no_LF [of s] by (auto simp: raw_lines_no_LF outcomes_def)
  next
    case (line l rest)
    then have "parse_lines loads fromiso machine (raw_lines rest) (position, st) =
       (if Escapes \<in> set (outcomes loads fromiso machine rest) then Inl AttributeError
        else Inr (position + int (consumed rest), fold note_outcome (outcomes loads fromiso machine rest) st))"
      for position st using 1 by simp
    then show ?thesis using line
      by (cases "line_outcome loads fromiso machine (bytes_strip (l @ [LF]))")
        (simp_all add: raw_lines_line outcomes_def Let_def ac_simps)
  qed
qed

lemma fold_note_parts:
  "ps_best (fold note_outcome os st) = ps_best (fold keep_best (concat (map line_event os)) st)
   \<and> ps_order (fold note_outcome os st) = ps_order (fold keep_best (concat (map line_event os)) st)"
proof (induction os arbitrary: st)
  case (Cons oc os)
  have same: "ps_best (fold keep_best es (st\<lparr>ps_malformed := m\<rparr>)) = ps_best (fold keep_best es st)
      \<and> ps_order (fold keep_best es (st\<lparr>ps_malformed := m\<rparr>)) = ps_order (fold keep_best es st)" for es m and st :: parse_state
  proof (induction es arbitrary: st)
    case (Cons e es)
    have "keep_best e (st\<lparr>ps_malformed := m\<rparr>) = (keep_best e st)\<lparr>ps_malformed := m\<rparr>"
      by (auto simp: keep_best_def split: option.split)
    then show ?case using Cons.IH [of "keep_best e st"] by simp
  qed simp
  show ?case using Cons.IH same by (cases oc) simp_all
qed simp

definition best_events :: "usage_event list \<Rightarrow> usage_event list" where
  "best_events es = (let st = fold keep_best es start_state in map (\<lambda>i. the (dget (ps_best st) i)) (ps_order st))"

lemma parse_eq:
  "parse loads fromiso machine content offset =
     (let s = drop (nat offset) content in
      if Escapes \<in> set (outcomes loads fromiso machine s) then Inl AttributeError
      else Inr \<lparr>pr_events = best_events (line_events loads fromiso machine s),
        pr_new_offset = offset + int (consumed s),
        pr_malformed_lines = ps_malformed (fold note_outcome (outcomes loads fromiso machine s) start_state)\<rparr>)"
  by (simp add: parse_def parse_lines_fold fold_note_parts best_events_def Let_def start_state_def line_events_def
      outcomes_def comp_def)

text \<open>What the selection keeps of a list of events.\<close>

definition best_inv :: "usage_event list \<Rightarrow> parse_state \<Rightarrow> bool" where
  "best_inv es st \<longleftrightarrow> distinct (ps_order st) \<and> set (ps_order st) = ue_event_id ` set es
     \<and> (\<forall>i. i \<notin> ue_event_id ` set es \<longrightarrow> dget (ps_best st) i = None)
     \<and> (\<forall>i \<in> ue_event_id ` set es. \<exists>e. dget (ps_best st) i = Some e \<and> e \<in> set es \<and> ue_event_id e = i
          \<and> (\<forall>x \<in> set es. ue_event_id x = i \<longrightarrow> ue_output_tokens x \<le> ue_output_tokens e)
          \<and> e = last (filter (\<lambda>x. ue_event_id x = i \<and> ue_output_tokens x = ue_output_tokens e) es))"

lemma best_inv_step:
  assumes inv: "best_inv es st"
  shows "best_inv (es @ [e]) (keep_best e st)"
proof (cases "dget (ps_best st) (ue_event_id e)")
  case None
  let ?i = "ue_event_id e"
  have new: "?i \<notin> ue_event_id ` set es" using inv None unfolding best_inv_def by force
  have other: "\<exists>x. dget (ps_best (keep_best e st)) i = Some x \<and> x \<in> set (es @ [e]) \<and> ue_event_id x = i
          \<and> (\<forall>y \<in> set (es @ [e]). ue_event_id y = i \<longrightarrow> ue_output_tokens y \<le> ue_output_tokens x)
          \<and> x = last (filter (\<lambda>y. ue_event_id y = i \<and> ue_output_tokens y = ue_output_tokens x) (es @ [e]))"
    if i: "i \<in> ue_event_id ` set (es @ [e])" for i
  proof (cases "i = ?i")
    case True
    have diff: "ue_event_id x \<noteq> ?i" if "x \<in> set es" for x using new that by (metis imageI)
    have "filter (\<lambda>y. ue_event_id y = i \<and> ue_output_tokens y = ue_output_tokens e) es = []"
      by (rule filter_False) (simp add: True diff)
    then show ?thesis using True None diff by (intro exI [of _ e]) (auto simp: keep_best_def)
  next
    case False
    then have "i \<in> ue_event_id ` set es" using i by auto
    then obtain x where "dget (ps_best st) i = Some x" "x \<in> set es" "ue_event_id x = i"
      "\<forall>y \<in> set es. ue_event_id y = i \<longrightarrow> ue_output_tokens y \<le> ue_output_tokens x"
      "x = last (filter (\<lambda>y. ue_event_id y = i \<and> ue_output_tokens y = ue_output_tokens x) es)"
      using inv unfolding best_inv_def by blast
    then show ?thesis using False None by (intro exI [of _ x]) (auto simp: keep_best_def)
  qed
  have "distinct (ps_order (keep_best e st))" "set (ps_order (keep_best e st)) = ue_event_id ` set (es @ [e])"
    "\<forall>i. i \<notin> ue_event_id ` set (es @ [e]) \<longrightarrow> dget (ps_best (keep_best e st)) i = None"
    using inv None new by (auto simp: best_inv_def keep_best_def)
  with other show ?thesis unfolding best_inv_def by blast
next
  case (Some cur)
  let ?i = "ue_event_id e"
  have old: "?i \<in> ue_event_id ` set es" using inv Some unfolding best_inv_def by fastforce
  have c: "cur \<in> set es" "ue_event_id cur = ?i"
    "\<forall>y \<in> set es. ue_event_id y = ?i \<longrightarrow> ue_output_tokens y \<le> ue_output_tokens cur"
    "cur = last (filter (\<lambda>y. ue_event_id y = ?i \<and> ue_output_tokens y = ue_output_tokens cur) es)"
    using inv Some old unfolding best_inv_def by (metis option.inject)+
  have other: "\<exists>x. dget (ps_best (keep_best e st)) i = Some x \<and> x \<in> set (es @ [e]) \<and> ue_event_id x = i
          \<and> (\<forall>y \<in> set (es @ [e]). ue_event_id y = i \<longrightarrow> ue_output_tokens y \<le> ue_output_tokens x)
          \<and> x = last (filter (\<lambda>y. ue_event_id y = i \<and> ue_output_tokens y = ue_output_tokens x) (es @ [e]))"
    if i: "i \<in> ue_event_id ` set (es @ [e])" for i
  proof (cases "i = ?i")
    case True
    show ?thesis
    proof (cases "ue_output_tokens cur \<le> ue_output_tokens e")
      case le: True
      then show ?thesis using True Some c(3) by (intro exI [of _ e]) (fastforce simp: keep_best_def)
    next
      case False
      then show ?thesis using True Some c by (intro exI [of _ cur]) (auto simp: keep_best_def)
    qed
  next
    case False
    then have "i \<in> ue_event_id ` set es" using i by auto
    then obtain x where "dget (ps_best st) i = Some x" "x \<in> set es" "ue_event_id x = i"
      "\<forall>y \<in> set es. ue_event_id y = i \<longrightarrow> ue_output_tokens y \<le> ue_output_tokens x"
      "x = last (filter (\<lambda>y. ue_event_id y = i \<and> ue_output_tokens y = ue_output_tokens x) es)"
      using inv unfolding best_inv_def by blast
    then show ?thesis using False Some by (intro exI [of _ x]) (auto simp: keep_best_def)
  qed
  have ids: "ue_event_id ` set (es @ [e]) = ue_event_id ` set es" using old by auto
  have "ps_order (keep_best e st) = ps_order st" using Some by (simp add: keep_best_def)
  moreover have "\<forall>i. i \<notin> ue_event_id ` set es \<longrightarrow> dget (ps_best (keep_best e st)) i = None"
    using inv Some old unfolding best_inv_def by (auto simp: keep_best_def)
  ultimately have "distinct (ps_order (keep_best e st))" "set (ps_order (keep_best e st)) = ue_event_id ` set (es @ [e])"
    "\<forall>i. i \<notin> ue_event_id ` set (es @ [e]) \<longrightarrow> dget (ps_best (keep_best e st)) i = None"
    using inv unfolding ids by (simp_all add: best_inv_def)
  with other show ?thesis unfolding best_inv_def by blast
qed

lemma best_inv_fold: "best_inv es (fold keep_best es start_state)"
proof (induction es rule: rev_induct)
  case Nil
  then show ?case by (simp add: best_inv_def start_state_def)
next
  case (snoc e es)
  then show ?case using best_inv_step by simp
qed

lemma best_events_cover:
  "e \<in> set es \<Longrightarrow> \<exists>b \<in> set (best_events es). ue_event_id b = ue_event_id e \<and> ue_output_tokens e \<le> ue_output_tokens b"
proof -
  assume e: "e \<in> set es"
  note inv = best_inv_fold [of es, unfolded best_inv_def]
  have i: "ue_event_id e \<in> ue_event_id ` set es" using e by simp
  then obtain b where b: "dget (ps_best (fold keep_best es start_state)) (ue_event_id e) = Some b" "ue_event_id b = ue_event_id e"
    "\<forall>x \<in> set es. ue_event_id x = ue_event_id e \<longrightarrow> ue_output_tokens x \<le> ue_output_tokens b"
    using inv by blast
  have "b \<in> set (best_events es)"
    using inv i b(1) by (auto simp: best_events_def Let_def intro!: image_eqI [of _ _ "ue_event_id e"])
  then show ?thesis using b e by blast
qed

text \<open>
  A parse keeps one event per request id: the events it returns have distinct ids, exactly those of the
  usage records in the complete lines after the offset, and the one it keeps of each id is the last of those
  with the largest output token count. The hypothesis: the parse returned.
\<close>

theorem parse_keeps_best:
  assumes "parse loads fromiso machine content offset = Inr r"
  shows "let found = line_events loads fromiso machine (drop (nat offset) content) in
     distinct (map ue_event_id (pr_events r)) \<and> ue_event_id ` set (pr_events r) = ue_event_id ` set found
   \<and> (\<forall>e \<in> set (pr_events r).
        (\<forall>x \<in> set found. ue_event_id x = ue_event_id e \<longrightarrow> ue_output_tokens x \<le> ue_output_tokens e)
      \<and> e = last (filter (\<lambda>x. ue_event_id x = ue_event_id e \<and> ue_output_tokens x = ue_output_tokens e) found))"
proof -
  define found where "found = line_events loads fromiso machine (drop (nat offset) content)"
  let ?st = "fold keep_best found start_state"
  have ev: "pr_events r = map (\<lambda>i. the (dget (ps_best ?st) i)) (ps_order ?st)"
    using assms by (auto simp: parse_eq Let_def best_events_def found_def split: if_splits)
  note inv = best_inv_fold [of found, unfolded best_inv_def]
  have id: "ue_event_id (the (dget (ps_best ?st) i)) = i" if "i \<in> set (ps_order ?st)" for i
    using inv that by force
  then have ids: "map ue_event_id (pr_events r) = ps_order ?st"
    unfolding ev map_map comp_def by (intro map_idI) simp
  have "distinct (map ue_event_id (pr_events r))" using inv ids by simp
  moreover have "ue_event_id ` set (pr_events r) = ue_event_id ` set found"
    using inv ids by (metis set_map)
  moreover have "(\<forall>x \<in> set found. ue_event_id x = ue_event_id e \<longrightarrow> ue_output_tokens x \<le> ue_output_tokens e)
      \<and> e = last (filter (\<lambda>x. ue_event_id x = ue_event_id e \<and> ue_output_tokens x = ue_output_tokens e) found)"
    if e: "e \<in> set (pr_events r)" for e
  proof -
    obtain i where i: "i \<in> set (ps_order ?st)" "e = the (dget (ps_best ?st) i)" using e unfolding ev by auto
    then have "i \<in> ue_event_id ` set found" using inv by simp
    then obtain b where b: "dget (ps_best ?st) i = Some b" "ue_event_id b = i"
      "\<forall>x \<in> set found. ue_event_id x = i \<longrightarrow> ue_output_tokens x \<le> ue_output_tokens b"
      "b = last (filter (\<lambda>x. ue_event_id x = i \<and> ue_output_tokens x = ue_output_tokens b) found)"
      using inv by blast
    then have "e = b" using i(2) by simp
    with b show ?thesis by simp
  qed
  ultimately show ?thesis unfolding Let_def found_def [symmetric] by blast
qed

definition sample_record :: "int \<Rightarrow> json" where
  "sample_record out = JObj [(''type'', JStr ''assistant''), (''requestId'', JStr ''r1''), (''timestamp'', JStr ''t''),
     (''message'', JObj [(''model'', JStr ''m''), (''usage'', JObj [(''output_tokens'', JInt out)])])]"

definition sample_loads :: "string \<Rightarrow> json option" where
  "sample_loads line = (if line = ''a'' then Some (sample_record 5) else if line = ''b'' then Some (sample_record 7)
     else if line = ''c'' then Some (JArr []) else None)"

definition sample_iso :: "json \<Rightarrow> raw_datetime option" where
  "sample_iso v = Some (Naive 0)"

definition sample_usage :: "int \<Rightarrow> usage_event" where
  "sample_usage out = \<lparr>ue_event_id = ''r1'', ue_provider = ''anthropic'', ue_native_model = ''m'', ue_ts = as_utc_dt 0,
     ue_machine = None, ue_session_id = None, ue_project = None, ue_git_branch = None, ue_client_version = None,
     ue_entrypoint = None, ue_is_sidechain = False, ue_session_kind = None, ue_input_tokens = 0,
     ue_output_tokens = out, ue_cache_read_tokens = 0, ue_cache_write_short_tokens = 0,
     ue_cache_write_long_tokens = 0, ue_service_tier = None, ue_speed = None, ue_provenance = LOCAL_ESTIMATE,
     ue_extra = []\<rparr>"

lemma sample_outcome:
  "0 \<le> out \<Longrightarrow> event_from_record sample_iso None (sample_record out) = Usage (sample_usage out)"
  by (simp add: event_from_record_def sample_record_def jget_def as_dict_def optional_str_def SYNTHETIC_MODELS_def
      Let_def usage_of_record_def record_timestamp_def sample_iso_def raw_as_utc_def cache_writes_def token_field_def
      py_int_def validate_usage_event_def server_tool_extra_def sample_usage_def min_length1_def ge0_def)

lemma sample_line_outcomes [simp]:
  "line_outcome sample_loads sample_iso None (bytes_strip [CHR ''a'', LF]) = Usage (sample_usage 5)"
  "line_outcome sample_loads sample_iso None (bytes_strip [CHR ''b'', LF]) = Usage (sample_usage 7)"
  "line_outcome sample_loads sample_iso None (bytes_strip [CHR ''c'', LF]) = Escapes"
proof -
  have strip: "bytes_strip [CHR ''a'', LF] = ''a''" "bytes_strip [CHR ''b'', LF] = ''b''" "bytes_strip [CHR ''c'', LF] = ''c''"
    by (simp_all add: bytes_strip_def is_byte_space_def)
  show "line_outcome sample_loads sample_iso None (bytes_strip [CHR ''a'', LF]) = Usage (sample_usage 5)"
    "line_outcome sample_loads sample_iso None (bytes_strip [CHR ''b'', LF]) = Usage (sample_usage 7)"
    unfolding strip line_outcome_def by (simp_all add: sample_loads_def sample_outcome)
  show "line_outcome sample_loads sample_iso None (bytes_strip [CHR ''c'', LF]) = Escapes"
    unfolding strip line_outcome_def by (simp add: sample_loads_def event_from_record_def)
qed

lemma sample_lines [simp]:
  "complete_lines [CHR ''a'', LF, CHR ''b'', LF] = [[CHR ''a'', LF], [CHR ''b'', LF]]"
  "complete_lines [CHR ''c'', LF] = [[CHR ''c'', LF]]"
  using complete_lines_simps(2) [of "[CHR ''a'']" "[CHR ''b'', LF]"] complete_lines_simps(2) [of "[CHR ''b'']" "[]"]
    complete_lines_simps(2) [of "[CHR ''c'']" "[]"] by simp_all

theorem parse_keeps_best_witness:
  "\<exists>r. parse sample_loads sample_iso None [CHR ''a'', LF, CHR ''b'', LF] 0 = Inr r \<and> ue_event_id ` set (pr_events r) = {''r1''}
     \<and> (\<forall>e \<in> set (pr_events r). 7 \<le> ue_output_tokens e)"
proof -
  obtain r where r: "parse sample_loads sample_iso None [CHR ''a'', LF, CHR ''b'', LF] 0 = Inr r"
    by (auto simp: parse_eq outcomes_def Let_def)
  have found: "line_events sample_loads sample_iso None (drop (nat 0) [CHR ''a'', LF, CHR ''b'', LF]) = [sample_usage 5, sample_usage 7]"
    by (simp add: line_events_def)
  have ids: "ue_event_id ` set (pr_events r) = {''r1''}"
    and most: "\<forall>e \<in> set (pr_events r). \<forall>x \<in> {sample_usage 5, sample_usage 7}. ue_event_id x = ue_event_id e
      \<longrightarrow> ue_output_tokens x \<le> ue_output_tokens e"
    using parse_keeps_best [OF r] unfolding found Let_def by (simp add: sample_usage_def, simp)
  have "7 \<le> ue_output_tokens e" if "e \<in> set (pr_events r)" for e
  proof -
    have "ue_event_id e = ''r1''" using ids that by (metis imageI singletonD)
    then show ?thesis using bspec [OF most that] by (simp add: sample_usage_def)
  qed
  with ids r show ?thesis by blast
qed

text \<open>
  A limit of the parse: a complete line that is valid JSON but no object, such as a bare list, is not
  counted as malformed. Its \<open>AttributeError\<close> escapes, so no parse from an offset at or before that line
  ever returns. The hypotheses: the line is there, after the offset, and decodes to a value that is no
  object.
\<close>

theorem non_object_line_escapes:
  assumes "l \<in> set (complete_lines (drop (nat offset) content))" and "bytes_strip l \<noteq> []"
    and "loads (bytes_strip l) = Some v" and "\<forall>d. v \<noteq> JObj d"
  shows "parse loads fromiso machine content offset = Inl AttributeError"
proof -
  have "line_outcome loads fromiso machine (bytes_strip l) = Escapes"
    using assms(2-4) by (cases v) (simp_all add: line_outcome_def event_from_record_def)
  then have "Escapes \<in> set (outcomes loads fromiso machine (drop (nat offset) content))"
    using assms(1) by (force simp: outcomes_def)
  then show ?thesis by (simp add: parse_eq Let_def)
qed

theorem non_object_line_escapes_witness:
  "parse sample_loads sample_iso None [CHR ''c'', LF] 0 = Inl AttributeError"
  by (rule non_object_line_escapes [of "[CHR ''c'', LF]" _ _ sample_loads "JArr []"]) (simp_all add: sample_loads_def bytes_strip_def is_byte_space_def)

end
