(* ===== verification/Collector.thy ===== *)
theory Collector
  imports Claude_Code
begin

text \<open>
  The collector (\<open>tokemetry_collector\<close>): its SQLite state (\<open>state.py\<close>), the wire format (\<open>wire.py\<close>), the
  uploader (\<open>uploader.py\<close>), the sources its configuration enables (\<open>config.py\<close>, \<open>sources.py\<close>) and the
  collection cycle (\<open>runner.py\<close>). Every state operation commits on its own, so the state after an exception
  or a crash is the state after the operations done so far; an exception is an optional error beside it. The
  file system is a value \<open>'w\<close> that does not change within a cycle, the server a state \<open>'s\<close> with the reply to
  a POST; \<open>isoformat\<close> is a parameter. A payload comes back from the queue as the JSON it was stored as.
\<close>

section \<open>State\<close>

record file_offset =
  fo_offset :: int
  fo_size :: int

record queued_batch =
  qb_id :: int
  qb_kind :: string
  qb_payload :: json
  qb_attempts :: int

record collector_state =
  cs_offsets :: "(string \<times> string, file_offset) dict"
  cs_queue :: "queued_batch list"
  cs_next :: int
  cs_meta :: "(string, string) dict"

definition fresh_state :: collector_state where
  "fresh_state = \<lparr>cs_offsets = [], cs_queue = [], cs_next = 1, cs_meta = []\<rparr>"

definition get_offset :: "string \<Rightarrow> string \<Rightarrow> collector_state \<Rightarrow> file_offset option" where
  "get_offset source path st = dget (cs_offsets st) (source, path)"

definition set_offset :: "string \<Rightarrow> string \<Rightarrow> int \<Rightarrow> int \<Rightarrow> collector_state \<Rightarrow> collector_state" where
  "set_offset source path offset size' st =
     st\<lparr>cs_offsets := dset (source, path) \<lparr>fo_offset = offset, fo_size = size'\<rparr> (cs_offsets st)\<rparr>"

definition enqueue :: "string \<Rightarrow> json \<Rightarrow> collector_state \<Rightarrow> collector_state" where
  "enqueue kind payload st =
     st\<lparr>cs_queue := cs_queue st @ [\<lparr>qb_id = cs_next st, qb_kind = kind, qb_payload = payload, qb_attempts = 0\<rparr>],
        cs_next := cs_next st + 1\<rparr>"

definition pending :: "nat \<Rightarrow> collector_state \<Rightarrow> queued_batch list" where
  "pending limit st = take limit (sort_key qb_id (cs_queue st))"

definition mark_uploaded :: "int \<Rightarrow> collector_state \<Rightarrow> collector_state" where
  "mark_uploaded batch_id st = st\<lparr>cs_queue := filter (\<lambda>b. qb_id b \<noteq> batch_id) (cs_queue st)\<rparr>"

definition bump_attempts :: "int \<Rightarrow> collector_state \<Rightarrow> collector_state" where
  "bump_attempts batch_id st =
     st\<lparr>cs_queue := map (\<lambda>b. if qb_id b = batch_id then b\<lparr>qb_attempts := qb_attempts b + 1\<rparr> else b) (cs_queue st)\<rparr>"

definition queue_size :: "collector_state \<Rightarrow> nat" where
  "queue_size st = length (cs_queue st)"

definition get_meta :: "string \<Rightarrow> collector_state \<Rightarrow> string option" where
  "get_meta key st = dget (cs_meta st) key"

definition set_meta :: "string \<Rightarrow> string \<Rightarrow> collector_state \<Rightarrow> collector_state" where
  "set_meta key v st = st\<lparr>cs_meta := dset key v (cs_meta st)\<rparr>"

section \<open>Configuration and sources\<close>

record collector_config =
  cf_server_url :: string
  cf_machine_name :: string
  cf_machine_platform :: string
  cf_limits_poll_interval :: rat
  cf_upload_batch_size :: nat
  cf_sources :: "(string, bool) dict"
  cf_limits :: "(string, bool) dict"

definition enabled_sources :: "collector_config \<Rightarrow> string list" where
  "enabled_sources cfg = map fst (filter snd (cf_sources cfg))"

definition enabled_limits :: "collector_config \<Rightarrow> string list" where
  "enabled_limits cfg = map fst (filter snd (cf_limits cfg))"

definition build_usage_sources :: "(string, 'u) dict \<Rightarrow> collector_config \<Rightarrow> 'u list" where
  "build_usage_sources builders cfg = concat (map (\<lambda>n. case dget builders n of None \<Rightarrow> [] | Some s \<Rightarrow> [s]) (enabled_sources cfg))"

definition build_limit_sources :: "(string, 'l) dict \<Rightarrow> collector_config \<Rightarrow> 'l list" where
  "build_limit_sources builders cfg = concat (map (\<lambda>n. case dget builders n of None \<Rightarrow> [] | Some s \<Rightarrow> [s]) (enabled_limits cfg))"

datatype parse_failure = OS_Error | Parse_Raised

datatype poll_failure = Limits_Unavailable | Poll_Raised

record 'w usage_plugin =
  us_provider :: string
  us_class :: string
  us_discover :: "'w \<Rightarrow> source_file list"
  us_parse :: "'w \<Rightarrow> source_file \<Rightarrow> int \<Rightarrow> parse_failure + parse_result"
  us_bootstrap :: "'w \<Rightarrow> parse_failure + daily_aggregate list"

record 'w limits_plugin =
  lz_provider :: string
  lz_poll :: "'w \<Rightarrow> poll_failure + limit_snapshot list"

section \<open>Wire format\<close>

definition COLLECTOR_VERSION :: string where
  "COLLECTOR_VERSION = ''0.1.0''"

definition machine_info :: "collector_config \<Rightarrow> json" where
  "machine_info cfg = JObj [(''name'', JStr (cf_machine_name cfg)), (''platform'', JStr (cf_machine_platform cfg)),
     (''collector_version'', JStr COLLECTOR_VERSION)]"

definition collector_source :: "collector_config \<Rightarrow> json" where
  "collector_source cfg = JObj [(''type'', JStr ''collector''), (''name'', JStr (cf_machine_name cfg)),
     (''version'', JStr COLLECTOR_VERSION), (''instance_id'', JStr (cf_machine_name cfg))]"

definition limit_to_wire_v2 :: "(py_datetime \<Rightarrow> string) \<Rightarrow> limit_snapshot \<Rightarrow> string \<Rightarrow> json \<Rightarrow> json" where
  "limit_to_wire_v2 isof s machine source = JObj
     [(''schema_version'', JInt 2), (''provider'', JStr (ls_provider s)), (''window_kind'', JStr (ls_window_kind s)),
      (''ts'', JStr (isof (ls_ts s))), (''utilization_pct'', JNum (ls_utilization_pct s)),
      (''machine'', JStr (case ls_machine s of None \<Rightarrow> machine | Some m \<Rightarrow> if m = [] then machine else m)),
      (''source'', source), (''account'', jopt (ls_account s)), (''organization'', jopt (ls_organization s)),
      (''limit_amount'', jopt_num (ls_limit_amount s)), (''remaining'', jopt_num (ls_remaining s)),
      (''unit'', jopt (ls_unit s)), (''resets_at'', jopt (map_option isof (ls_resets_at s))),
      (''provenance'', JStr (provenance_str (ls_provenance s)))]"

definition event_to_wire :: "(py_datetime \<Rightarrow> string) \<Rightarrow> usage_event \<Rightarrow> json" where
  "event_to_wire isof e = JObj
     [(''event_id'', JStr (ue_event_id e)), (''provider'', JStr (ue_provider e)),
      (''native_model'', JStr (ue_native_model e)), (''ts'', JStr (isof (ue_ts e))),
      (''session_id'', jopt (ue_session_id e)), (''project'', jopt (ue_project e)),
      (''git_branch'', jopt (ue_git_branch e)), (''client_version'', jopt (ue_client_version e)),
      (''entrypoint'', jopt (ue_entrypoint e)), (''is_sidechain'', JBool (ue_is_sidechain e)),
      (''session_kind'', jopt (ue_session_kind e)), (''input_tokens'', JInt (ue_input_tokens e)),
      (''output_tokens'', JInt (ue_output_tokens e)), (''cache_read_tokens'', JInt (ue_cache_read_tokens e)),
      (''cache_write_short_tokens'', JInt (ue_cache_write_short_tokens e)),
      (''cache_write_long_tokens'', JInt (ue_cache_write_long_tokens e)),
      (''service_tier'', jopt (ue_service_tier e)), (''speed'', jopt (ue_speed e)),
      (''provenance'', JStr (provenance_str (ue_provenance e))), (''extra'', JObj (ue_extra e))]"

definition aggregate_to_wire :: "(date \<Rightarrow> string) \<Rightarrow> daily_aggregate \<Rightarrow> json" where
  "aggregate_to_wire iso_day a = JObj
     [(''provider'', JStr (da_provider a)), (''day'', JStr (iso_day (da_day a))),
      (''native_model'', JStr (da_native_model a)), (''input_tokens'', JInt (da_input_tokens a)),
      (''output_tokens'', JInt (da_output_tokens a)), (''cache_read_tokens'', JInt (da_cache_read_tokens a)),
      (''cache_write_short_tokens'', JInt (da_cache_write_short_tokens a)),
      (''cache_write_long_tokens'', JInt (da_cache_write_long_tokens a)),
      (''total_tokens'', JInt (da_total_tokens a)), (''message_count'', JInt (da_message_count a))]"

definition events_payload :: "(py_datetime \<Rightarrow> string) \<Rightarrow> json \<Rightarrow> usage_event list \<Rightarrow> json" where
  "events_payload isof machine es = JObj [(''machine'', machine), (''events'', JArr (map (event_to_wire isof) es))]"

section \<open>Upload\<close>

definition ENDPOINTS :: "(string, string) dict" where
  "ENDPOINTS = [(''events'', ''/api/v1/ingest/events''), (''limits'', ''/api/v2/ingest/limits''),
     (''bootstrap'', ''/api/v1/ingest/bootstrap'')]"

datatype http_reply = Network_Error | Http_Status int

definition is_success :: "http_reply \<Rightarrow> bool" where
  "is_success r = (case r of Network_Error \<Rightarrow> False | Http_Status s \<Rightarrow> 200 \<le> s \<and> s \<le> 299)"

definition rstrip_slash :: "string \<Rightarrow> string" where
  "rstrip_slash s = rev (dropWhile (\<lambda>c. c = CHR ''/'') (rev s))"

type_synonym 's http_post = "string \<Rightarrow> json \<Rightarrow> 's \<Rightarrow> http_reply \<times> 's"

definition send :: "'s http_post \<Rightarrow> string \<Rightarrow> string \<Rightarrow> json \<Rightarrow> 's \<Rightarrow> (bool \<times> 's) option" where
  "send post base kind payload srv =
     (case dget ENDPOINTS kind of
        None \<Rightarrow> None
      | Some path \<Rightarrow>
          (let (reply, srv') = post (rstrip_slash base @ path) payload srv in Some (is_success reply, srv')))"

section \<open>The cycle\<close>

record collect_stats =
  ct_files_scanned :: nat
  ct_events_found :: nat
  ct_limits_found :: nat
  ct_batches_enqueued :: nat
  ct_batches_uploaded :: nat
  ct_batches_failed :: nat
  ct_queue_size :: nat
  ct_unreadable_files :: "string list"

definition no_stats :: collect_stats where
  "no_stats = \<lparr>ct_files_scanned = 0, ct_events_found = 0, ct_limits_found = 0, ct_batches_enqueued = 0,
     ct_batches_uploaded = 0, ct_batches_failed = 0, ct_queue_size = 0, ct_unreadable_files = []\<rparr>"

datatype collector_error = Source_Raised | Unknown_Kind

text \<open>\<open>_chunks\<close>: lists of at most \<open>n\<close> elements; the batch size is positive.\<close>

function chunks :: "nat \<Rightarrow> 'a list \<Rightarrow> 'a list list" where
  "chunks n xs = (if xs = [] \<or> n = 0 then [] else take n xs # chunks n (drop n xs))"
  by pat_completeness auto
termination by (relation "measure (length \<circ> snd)") auto

declare chunks.simps [simp del]

text \<open>A loop over a list that an exception ends.\<close>

fun run_each :: "('a \<Rightarrow> 's \<Rightarrow> 'e option \<times> 's) \<Rightarrow> 'a list \<Rightarrow> 's \<Rightarrow> 'e option \<times> 's" where
  "run_each f [] s = (None, s)"
| "run_each f (x # xs) s = (case f x s of (Some e, s') \<Rightarrow> (Some e, s') | (None, s') \<Rightarrow> run_each f xs s')"

text \<open>The state operations that follow the parse of one file, each its own commit.\<close>

datatype store_op = Enqueue string json | Set_Offset string string int int

fun exec_op :: "store_op \<Rightarrow> collector_state \<Rightarrow> collector_state" where
  "exec_op (Enqueue kind payload) st = enqueue kind payload st"
| "exec_op (Set_Offset source path offset size') st = set_offset source path offset size' st"

definition exec_ops :: "store_op list \<Rightarrow> collector_state \<Rightarrow> collector_state" where
  "exec_ops ops st = fold exec_op ops st"

definition source_key :: "('w, 'z) usage_plugin_scheme \<Rightarrow> string" where
  "source_key src = us_provider src @ '':'' @ us_class src"

definition resume_offset :: "file_offset option \<Rightarrow> int \<Rightarrow> int" where
  "resume_offset stored size' =
     (case stored of None \<Rightarrow> 0 | Some fo \<Rightarrow> if size' < fo_offset fo then 0 else fo_offset fo)"

definition event_batches ::
  "(py_datetime \<Rightarrow> string) \<Rightarrow> collector_config \<Rightarrow> usage_event list \<Rightarrow> store_op list" where
  "event_batches isof cfg es =
     map (\<lambda>chunk. Enqueue ''events'' (events_payload isof (machine_info cfg) chunk)) (chunks (cf_upload_batch_size cfg) es)"

definition file_ops ::
  "(py_datetime \<Rightarrow> string) \<Rightarrow> collector_config \<Rightarrow> string \<Rightarrow> source_file \<Rightarrow> parse_result \<Rightarrow> store_op list" where
  "file_ops isof cfg key file r =
     event_batches isof cfg (pr_events r) @ [Set_Offset key (sf_path file) (pr_new_offset r) (sf_size file)]"

definition tail_file ::
  "(py_datetime \<Rightarrow> string) \<Rightarrow> collector_config \<Rightarrow> bool \<Rightarrow> 'w \<Rightarrow> 'w usage_plugin \<Rightarrow> source_file
   \<Rightarrow> collector_state \<times> collect_stats \<Rightarrow> collector_error option \<times> collector_state \<times> collect_stats" where
  "tail_file isof cfg dry w src file = (\<lambda>(st, stats).
     (let stats = stats\<lparr>ct_files_scanned := ct_files_scanned stats + 1\<rparr>;
          offset = resume_offset (get_offset (source_key src) (sf_path file) st) (sf_size file)
      in case us_parse src w file offset of
           Inl OS_Error \<Rightarrow> (None, st, stats\<lparr>ct_unreadable_files := ct_unreadable_files stats @ [sf_path file]\<rparr>)
         | Inl Parse_Raised \<Rightarrow> (Some Source_Raised, st, stats)
         | Inr r \<Rightarrow>
             let stats = stats\<lparr>ct_events_found := ct_events_found stats + length (pr_events r)\<rparr>
             in if dry then (None, st, stats)
                else (None, exec_ops (file_ops isof cfg (source_key src) file r) st,
                      stats\<lparr>ct_batches_enqueued := ct_batches_enqueued stats
                        + length (chunks (cf_upload_batch_size cfg) (pr_events r))\<rparr>)))"

definition tail_usage ::
  "(py_datetime \<Rightarrow> string) \<Rightarrow> collector_config \<Rightarrow> bool \<Rightarrow> 'w \<Rightarrow> 'w usage_plugin list
   \<Rightarrow> collector_state \<times> collect_stats \<Rightarrow> collector_error option \<times> collector_state \<times> collect_stats" where
  "tail_usage isof cfg dry w sources =
     run_each (\<lambda>src. run_each (tail_file isof cfg dry w src) (us_discover src w)) sources"

definition poll_limits ::
  "(py_datetime \<Rightarrow> string) \<Rightarrow> collector_config \<Rightarrow> bool \<Rightarrow> 'w \<Rightarrow> 'w limits_plugin list
   \<Rightarrow> collector_state \<times> collect_stats \<Rightarrow> collector_error option \<times> collector_state \<times> collect_stats" where
  "poll_limits isof cfg dry w sources = run_each (\<lambda>src (st, stats).
     (case lz_poll src w of
        Inl Limits_Unavailable \<Rightarrow> (None, st, stats)
      | Inl Poll_Raised \<Rightarrow> (Some Source_Raised, st, stats)
      | Inr snapshots \<Rightarrow>
          let stats = stats\<lparr>ct_limits_found := ct_limits_found stats + length snapshots\<rparr>
          in if snapshots = [] \<or> dry then (None, st, stats)
             else (None,
                   enqueue ''limits'' (JObj [(''schema_version'', JInt 2),
                     (''snapshots'', JArr (map (\<lambda>s. limit_to_wire_v2 isof s (cf_machine_name cfg) (collector_source cfg)) snapshots))]) st,
                   stats\<lparr>ct_batches_enqueued := ct_batches_enqueued stats + 1\<rparr>))) sources"

lemma length_mark_uploaded:
  "b \<in> set (cs_queue st) \<Longrightarrow> length (cs_queue (mark_uploaded (qb_id b) st)) < length (cs_queue st)"
  unfolding mark_uploaded_def by simp (rule length_filter_less, auto)

lemma pending_in: "pending n st = b # bs \<Longrightarrow> b \<in> set (cs_queue st)"
  by (metis in_set_takeD list.set_intros(1) pending_def set_sort)

function drain ::
  "'s http_post \<Rightarrow> string \<Rightarrow> collector_state \<times> collect_stats \<times> 's
   \<Rightarrow> collector_error option \<times> collector_state \<times> collect_stats \<times> 's" where
  "drain post base (st, stats, srv) =
     (case pending 1 st of
        [] \<Rightarrow> (None, st, stats, srv)
      | batch # _ \<Rightarrow>
          (case send post base (qb_kind batch) (qb_payload batch) srv of
             None \<Rightarrow> (Some Unknown_Kind, st, stats, srv)
           | Some (True, srv') \<Rightarrow>
               drain post base (mark_uploaded (qb_id batch) st,
                 stats\<lparr>ct_batches_uploaded := ct_batches_uploaded stats + 1\<rparr>, srv')
           | Some (False, srv') \<Rightarrow>
               (None, bump_attempts (qb_id batch) st,
                stats\<lparr>ct_batches_failed := ct_batches_failed stats + 1\<rparr>, srv')))"
  by pat_completeness auto
termination
  by (relation "measure (\<lambda>(post, base, st, stats, srv). length (cs_queue st))")
    (auto dest: pending_in intro: length_mark_uploaded)

declare drain.simps [simp del]

definition collect_once ::
  "(py_datetime \<Rightarrow> string) \<Rightarrow> collector_config \<Rightarrow> bool \<Rightarrow> 's http_post \<Rightarrow> 'w usage_plugin list \<Rightarrow> 'w limits_plugin list
   \<Rightarrow> bool \<Rightarrow> 'w \<Rightarrow> collector_state \<times> 's \<Rightarrow> collector_error option \<times> collect_stats \<times> collector_state \<times> 's" where
  "collect_once isof cfg dry post usage limits do_limits w = (\<lambda>(st, srv).
     (case tail_usage isof cfg dry w usage (st, no_stats) of
        (Some e, st1, stats) \<Rightarrow> (Some e, stats, st1, srv)
      | (None, st1, stats) \<Rightarrow>
          (case (if do_limits then poll_limits isof cfg dry w limits (st1, stats) else (None, st1, stats)) of
             (Some e, st2, stats2) \<Rightarrow> (Some e, stats2, st2, srv)
           | (None, st2, stats2) \<Rightarrow>
               (case (if dry then (None, st2, stats2, srv) else drain post (cf_server_url cfg) (st2, stats2, srv)) of
                  (Some e, st3, stats3, srv') \<Rightarrow> (Some e, stats3, st3, srv')
                | (None, st3, stats3, srv') \<Rightarrow> (None, stats3\<lparr>ct_queue_size := queue_size st3\<rparr>, st3, srv')))))"

definition BOOTSTRAP_DONE :: string where
  "BOOTSTRAP_DONE = ''bootstrap_done''"

definition run_bootstrap ::
  "(date \<Rightarrow> string) \<Rightarrow> collector_config \<Rightarrow> bool \<Rightarrow> 'w usage_plugin list \<Rightarrow> 'w \<Rightarrow> collector_state
   \<Rightarrow> collector_error option \<times> nat \<times> collector_state" where
  "run_bootstrap iso_day cfg dry sources w st =
     (if get_meta BOOTSTRAP_DONE st = Some ''1'' then (None, 0, st)
      else case run_each (\<lambda>src (n, st).
          (case us_bootstrap src w of
             Inl _ \<Rightarrow> (Some Source_Raised, n, st)
           | Inr aggregates \<Rightarrow>
               if aggregates = [] \<or> dry then (None, n, st)
               else (None, n + 1, enqueue ''bootstrap'' (JObj [(''machine'', machine_info cfg),
                      (''aggregates'', JArr (map (aggregate_to_wire iso_day) aggregates))]) st))) sources (0, st) of
         (Some e, n, st1) \<Rightarrow> (Some e, n, st1)
       | (None, n, st1) \<Rightarrow> (None, n, if dry then st1 else set_meta BOOTSTRAP_DONE ''1'' st1))"

text \<open>
  \<open>run\<close> on the wake-ups until the stop event: each with its clock reading and the file system then. The
  result lists which cycles polled the limit sources.
\<close>

fun run_loop ::
  "(py_datetime \<Rightarrow> string) \<Rightarrow> collector_config \<Rightarrow> bool \<Rightarrow> 's http_post \<Rightarrow> 'w usage_plugin list \<Rightarrow> 'w limits_plugin list
   \<Rightarrow> (rat \<times> 'w) list \<Rightarrow> rat \<times> bool \<Rightarrow> collector_state \<times> 's
   \<Rightarrow> collector_error option \<times> bool list \<times> collector_state \<times> 's" where
  "run_loop isof cfg dry post usage limits [] ctl s = (None, [], s)"
| "run_loop isof cfg dry post usage limits ((now, w) # wakes) (last_limits, first) s =
     (let do_limits = (first \<or> cf_limits_poll_interval cfg \<le> now - last_limits)
      in case collect_once isof cfg dry post usage limits do_limits w s of
           (Some e, stats, s') \<Rightarrow> (Some e, [do_limits], s')
         | (None, stats, s') \<Rightarrow>
             (case run_loop isof cfg dry post usage limits wakes (if do_limits then now else last_limits, False) s' of
                (e, polled, s'') \<Rightarrow> (e, do_limits # polled, s'')))"

section \<open>The Claude Code source\<close>

text \<open>
  A file system is what \<open>discover\<close> lists, in path order, with the bytes of each file; a path without bytes
  is unreadable.
\<close>

record filesystem =
  fs_files :: "source_file list"
  fs_bytes :: "string \<Rightarrow> string option"
  fs_cache :: "json option"

definition claude_code_source ::
  "(string \<Rightarrow> json option) \<Rightarrow> (json \<Rightarrow> raw_datetime option) \<Rightarrow> (json \<Rightarrow> date option) \<Rightarrow> string option
   \<Rightarrow> filesystem usage_plugin" where
  "claude_code_source loads fromiso strptime machine =
     \<lparr>us_provider = ''anthropic'', us_class = ''ClaudeCodeJsonlSource'', us_discover = fs_files,
      us_parse = (\<lambda>w file offset.
        (case fs_bytes w (sf_path file) of
           None \<Rightarrow> Inl OS_Error
         | Some content \<Rightarrow>
             (case parse loads fromiso machine content offset of Inl _ \<Rightarrow> Inl Parse_Raised | Inr r \<Rightarrow> Inr r))),
      us_bootstrap = (\<lambda>w.
        (case bootstrap_aggregates strptime machine (fs_cache w) of Inl _ \<Rightarrow> Inl Parse_Raised | Inr as \<Rightarrow> Inr as))\<rparr>"

end
