(* ===== verification/Collector_Laws.thy ===== *)
theory Collector_Laws
  imports Collector
begin

text \<open>
  The properties of the collector: no event is lost whatever crashes and outages happen, the queue is
  drained in order, a dry run changes nothing, the one-time import happens once, the limit sources are
  polled at their own pace. What the runner needs of a usage source is a locale, which the Claude Code
  source satisfies.
\<close>

section \<open>The queue\<close>

definition queue_inv :: "collector_state \<Rightarrow> bool" where
  "queue_inv st \<longleftrightarrow> sorted (map qb_id (cs_queue st)) \<and> distinct (map qb_id (cs_queue st))
     \<and> (\<forall>b \<in> set (cs_queue st). qb_id b < cs_next st)"

lemma queue_inv_fresh [simp]: "queue_inv fresh_state"
  by (simp add: queue_inv_def fresh_state_def)

lemma queue_inv_enqueue [simp]: "queue_inv st \<Longrightarrow> queue_inv (enqueue kind payload st)"
  by (auto simp: queue_inv_def enqueue_def sorted_append less_imp_le less_SucI)

lemma queue_inv_set_offset [simp]: "queue_inv (set_offset source path o' size' st) = queue_inv st"
  by (simp add: queue_inv_def set_offset_def)

lemma queue_inv_set_meta [simp]: "queue_inv (set_meta k v st) = queue_inv st"
  by (simp add: queue_inv_def set_meta_def)

lemma queue_inv_mark [simp]: "queue_inv st \<Longrightarrow> queue_inv (mark_uploaded i st)"
  by (auto simp: queue_inv_def mark_uploaded_def sorted_filter distinct_map_filter)

lemma bump_ids [simp]: "map qb_id (cs_queue (bump_attempts i st)) = map qb_id (cs_queue st)"
  by (simp add: bump_attempts_def comp_def if_distrib cong: if_cong)

lemma bump_next [simp]: "cs_next (bump_attempts i st) = cs_next st"
  by (simp add: bump_attempts_def)

lemma queue_inv_bump [simp]: "queue_inv (bump_attempts i st) = queue_inv st"
proof -
  have img: "qb_id ` set (cs_queue (bump_attempts i st)) = qb_id ` set (cs_queue st)"
    using arg_cong [OF bump_ids, of set i st] by (simp only: set_map)
  have each: "(\<forall>b \<in> set q. qb_id b < n) = (\<forall>j \<in> qb_id ` set q. j < n)" for q n by blast
  have "(\<forall>b \<in> set (cs_queue (bump_attempts i st)). qb_id b < cs_next st) = (\<forall>b \<in> set (cs_queue st). qb_id b < cs_next st)"
    unfolding each img ..
  then show ?thesis by (simp only: queue_inv_def bump_ids bump_next)
qed

lemma pending_queue: "queue_inv st \<Longrightarrow> pending n st = take n (cs_queue st)"
  by (simp add: pending_def queue_inv_def sort_key_id_if_sorted)

lemma head_id_unique:
  assumes "queue_inv st" and "cs_queue st = b # bs"
  shows "\<forall>x \<in> set bs. qb_id x \<noteq> qb_id b"
proof
  fix x assume "x \<in> set bs"
  moreover have "qb_id b \<notin> qb_id ` set bs" using assms by (simp add: queue_inv_def)
  ultimately show "qb_id x \<noteq> qb_id b" by (metis imageI)
qed

lemma mark_head:
  assumes "queue_inv st" and "cs_queue st = b # bs"
  shows "cs_queue (mark_uploaded (qb_id b) st) = bs"
proof -
  note other = head_id_unique [OF assms]
  show ?thesis using other by (simp add: mark_uploaded_def assms(2) filter_id_conv)
qed

lemma bump_head:
  assumes "queue_inv st" and "cs_queue st = b # bs"
  shows "cs_queue (bump_attempts (qb_id b) st) = b\<lparr>qb_attempts := qb_attempts b + 1\<rparr> # bs"
proof -
  note other = head_id_unique [OF assms]
  show ?thesis using other by (simp add: bump_attempts_def assms(2) map_idI)
qed

lemma state_frames [simp]:
  "cs_offsets (enqueue kind payload st) = cs_offsets st" "cs_offsets (mark_uploaded i st) = cs_offsets st"
  "cs_offsets (bump_attempts i st) = cs_offsets st" "cs_queue (set_offset source path o' size' st) = cs_queue st"
  "cs_meta (enqueue kind payload st) = cs_meta st" "cs_meta (mark_uploaded i st) = cs_meta st"
  "cs_meta (bump_attempts i st) = cs_meta st" "cs_meta (set_offset source path o' size' st) = cs_meta st"
  "cs_queue (set_meta k v st) = cs_queue st" "cs_offsets (set_meta k v st) = cs_offsets st"
  by (simp_all add: enqueue_def mark_uploaded_def bump_attempts_def set_offset_def set_meta_def)

lemma drain_unfold:
  assumes "queue_inv st"
  shows "drain post base (st, stats, srv) =
    (case cs_queue st of
       [] \<Rightarrow> (None, st, stats, srv)
     | batch # _ \<Rightarrow>
         (case send post base (qb_kind batch) (qb_payload batch) srv of
            None \<Rightarrow> (Some Unknown_Kind, st, stats, srv)
          | Some (True, srv') \<Rightarrow>
              drain post base (mark_uploaded (qb_id batch) st, stats\<lparr>ct_batches_uploaded := ct_batches_uploaded stats + 1\<rparr>, srv')
          | Some (False, srv') \<Rightarrow>
              (None, bump_attempts (qb_id batch) st, stats\<lparr>ct_batches_failed := ct_batches_failed stats + 1\<rparr>, srv')))"
  using assms by (simp add: drain.simps [of post base st] pending_queue split: list.split)

text \<open>The states of the server after each of a list of batches was sent and confirmed.\<close>

fun confirmed :: "'s http_post \<Rightarrow> string \<Rightarrow> queued_batch list \<Rightarrow> 's \<Rightarrow> 's \<Rightarrow> bool" where
  "confirmed post base [] srv srv' = (srv' = srv)"
| "confirmed post base (b # bs) srv srv' =
     (\<exists>srv1. send post base (qb_kind b) (qb_payload b) srv = Some (True, srv1) \<and> confirmed post base bs srv1 srv')"

lemma drain_prefix:
  assumes "queue_inv st" and "drain post base (st, stats, srv) = (err, st', stats', srv')"
  shows "\<exists>sent rest srv1. cs_queue st = sent @ rest \<and> confirmed post base sent srv srv1 \<and> queue_inv st'
    \<and> cs_offsets st' = cs_offsets st \<and> cs_meta st' = cs_meta st
    \<and> ct_batches_uploaded stats' = ct_batches_uploaded stats + length sent
    \<and> (case rest of
         [] \<Rightarrow> err = None \<and> cs_queue st' = [] \<and> srv' = srv1
       | b # bs \<Rightarrow>
           (case send post base (qb_kind b) (qb_payload b) srv1 of
              None \<Rightarrow> err = Some Unknown_Kind \<and> cs_queue st' = b # bs \<and> srv' = srv1
            | Some (ok, srv2) \<Rightarrow> \<not> ok \<and> err = None \<and> srv' = srv2
                \<and> cs_queue st' = b\<lparr>qb_attempts := qb_attempts b + 1\<rparr> # bs))"
  using assms
proof (induction "length (cs_queue st)" arbitrary: st stats srv rule: less_induct)
  case less
  note unf = drain_unfold [OF less.prems(1), of post base stats srv]
  show ?case
  proof (cases "cs_queue st")
    case Nil
    then show ?thesis using less.prems unf by (intro exI [of _ "[]"] exI [of _ srv]) auto
  next
    case (Cons b bs)
    show ?thesis
    proof (cases "send post base (qb_kind b) (qb_payload b) srv")
      case None
      then show ?thesis using less.prems unf Cons
        by (intro exI [of _ "[]"] exI [of _ "b # bs"] exI [of _ srv]) auto
    next
      case (Some r)
      obtain ok srv2 where r: "r = (ok, srv2)" by (cases r)
      show ?thesis
      proof (cases ok)
        case False
        then show ?thesis using less.prems unf Cons Some r bump_head [OF less.prems(1) Cons]
          by (intro exI [of _ "[]"] exI [of _ "b # bs"] exI [of _ srv]) auto
      next
        case True
        let ?st = "mark_uploaded (qb_id b) st"
        have q: "cs_queue ?st = bs" by (rule mark_head [OF less.prems(1) Cons])
        have "drain post base (?st, stats\<lparr>ct_batches_uploaded := ct_batches_uploaded stats + 1\<rparr>, srv2) = (err, st', stats', srv')"
          using less.prems(2) unf Cons Some r True by simp
        from less.hyps [OF _ queue_inv_mark [OF less.prems(1)] this]
        obtain sent rest srv1 where *: "bs = sent @ rest" "confirmed post base sent srv2 srv1" "queue_inv st'"
          "cs_offsets st' = cs_offsets st" "cs_meta st' = cs_meta st"
          "ct_batches_uploaded stats' = ct_batches_uploaded stats + 1 + length sent"
          "case rest of
             [] \<Rightarrow> err = None \<and> cs_queue st' = [] \<and> srv' = srv1
           | b # bs \<Rightarrow>
               (case send post base (qb_kind b) (qb_payload b) srv1 of
                  None \<Rightarrow> err = Some Unknown_Kind \<and> cs_queue st' = b # bs \<and> srv' = srv1
                | Some (ok, srv2) \<Rightarrow> \<not> ok \<and> err = None \<and> srv' = srv2
                    \<and> cs_queue st' = b\<lparr>qb_attempts := qb_attempts b + 1\<rparr> # bs)"
          by (auto simp: q Cons)
        then show ?thesis using Cons Some r True by (intro exI [of _ "b # sent"] exI [of _ rest] exI [of _ srv1]) simp
      qed
    qed
  qed
qed

text \<open>
  Draining uploads a prefix of the queue, oldest first, each batch exactly once and only as long as the
  server confirms: either all of it, and the queue is empty; or up to the first batch that is not
  confirmed, which stays at the head with one more attempt, everything behind it untouched. Parse progress
  is not touched. The hypotheses: the ids of the queue are in order, and the drain's result.
\<close>

theorem drain_in_order:
  assumes "queue_inv st" and "drain post base (st, stats, srv) = (err, st', stats', srv')"
    and "\<forall>b \<in> set (cs_queue st). qb_kind b \<in> set (dkeys ENDPOINTS)"
  shows "err = None \<and> cs_offsets st' = cs_offsets st \<and> queue_inv st'
    \<and> (\<exists>sent rest srv1. cs_queue st = sent @ rest \<and> confirmed post base sent srv srv1
        \<and> ct_batches_uploaded stats' = ct_batches_uploaded stats + length sent
        \<and> (case rest of [] \<Rightarrow> cs_queue st' = [] \<and> srv' = srv1
           | b # bs \<Rightarrow> send post base (qb_kind b) (qb_payload b) srv1 = Some (False, srv')
               \<and> cs_queue st' = b\<lparr>qb_attempts := qb_attempts b + 1\<rparr> # bs))"
proof -
  obtain sent rest srv1 where *: "cs_queue st = sent @ rest" "confirmed post base sent srv srv1" "queue_inv st'"
    "cs_offsets st' = cs_offsets st" "ct_batches_uploaded stats' = ct_batches_uploaded stats + length sent"
    "case rest of
       [] \<Rightarrow> err = None \<and> cs_queue st' = [] \<and> srv' = srv1
     | b # bs \<Rightarrow>
         (case send post base (qb_kind b) (qb_payload b) srv1 of
            None \<Rightarrow> err = Some Unknown_Kind \<and> cs_queue st' = b # bs \<and> srv' = srv1
          | Some (ok, srv2) \<Rightarrow> \<not> ok \<and> err = None \<and> srv' = srv2
              \<and> cs_queue st' = b\<lparr>qb_attempts := qb_attempts b + 1\<rparr> # bs)"
    using drain_prefix [OF assms(1,2)] by blast
  show ?thesis
  proof (cases rest)
    case Nil
    then have "err = None \<and> cs_queue st' = [] \<and> srv' = srv1" using *(6) by simp
    then show ?thesis using *(1-5) Nil by (intro conjI exI [of _ sent] exI [of _ rest] exI [of _ srv1]) simp_all
  next
    case (Cons b bs)
    then have "qb_kind b \<in> set (dkeys ENDPOINTS)" using assms(3) *(1) by simp
    then obtain path where "dget ENDPOINTS (qb_kind b) = Some path" by (metis dget_None_iff not_Some_eq)
    then obtain ok srv2 where s: "send post base (qb_kind b) (qb_payload b) srv1 = Some (ok, srv2)"
      by (auto simp: send_def case_prod_unfold Let_def)
    then have "err = None" "srv' = srv2" "\<not> ok" "cs_queue st' = b\<lparr>qb_attempts := qb_attempts b + 1\<rparr> # bs"
      using *(6) Cons by simp_all
    then show ?thesis using *(1-5) Cons s by (intro conjI exI [of _ sent] exI [of _ rest] exI [of _ srv1]) simp_all
  qed
qed


section \<open>No event is lost\<close>

text \<open>
  What the runner relies on: a source that parses the bytes of a file from an offset. \<open>upto\<close> are the events
  in a file's first bytes and \<open>boundary\<close> the offsets a parse may resume from.
\<close>

locale incremental_source =
  fixes parse_at :: "string \<Rightarrow> int \<Rightarrow> parse_failure + parse_result"
    and upto_events :: "string \<Rightarrow> int \<Rightarrow> usage_event list"
    and boundary :: "string \<Rightarrow> int \<Rightarrow> bool"
  assumes start: "boundary c 0" "upto_events c 0 = []"
    and stable: "boundary c n \<Longrightarrow> boundary (c @ d) n \<and> upto_events (c @ d) n = upto_events c n"
    and advance: "parse_at c n = Inr r \<Longrightarrow> boundary c n \<Longrightarrow> boundary c (pr_new_offset r)"
    and covers: "parse_at c n = Inr r \<Longrightarrow> boundary c n \<Longrightarrow> e \<in> set (upto_events c (pr_new_offset r))
      \<Longrightarrow> e \<in> set (upto_events c n)
        \<or> (\<exists>b \<in> set (pr_events r). ue_event_id b = ue_event_id e \<and> ue_output_tokens e \<le> ue_output_tokens b)"

text \<open>
  The states of one collector with one source. Files grow; the collector tails a file, but may crash after
  any number of its commits; it queues other batches; it uploads the oldest batch, and may crash between the
  server's confirmation and the removal from the queue; an upload may fail. The last component lists the
  payloads the server confirmed.
\<close>

definition grows :: "filesystem \<Rightarrow> filesystem \<Rightarrow> bool" where
  "grows w w' \<longleftrightarrow> (\<forall>p c. fs_bytes w p = Some c \<longrightarrow> (\<exists>d. fs_bytes w' p = Some (c @ d)))"

inductive collector_reachable ::
  "(py_datetime \<Rightarrow> string) \<Rightarrow> collector_config \<Rightarrow> filesystem usage_plugin
   \<Rightarrow> filesystem \<Rightarrow> collector_state \<Rightarrow> json list \<Rightarrow> bool"
  for isof cfg src where
  fresh: "collector_reachable isof cfg src w fresh_state []"
| grow: "collector_reachable isof cfg src w' st sent"
    if "collector_reachable isof cfg src w st sent" "grows w w'"
| tail: "collector_reachable isof cfg src w (exec_ops (take n (file_ops isof cfg (source_key src) file r)) st) sent"
    if "collector_reachable isof cfg src w st sent"
      "us_parse src w file (resume_offset (get_offset (source_key src) (sf_path file) st) (sf_size file)) = Inr r"
| queue: "collector_reachable isof cfg src w (enqueue kind payload st) sent"
    if "collector_reachable isof cfg src w st sent"
| upload: "collector_reachable isof cfg src w (mark_uploaded (qb_id b) st) (sent @ [qb_payload b])"
    if "collector_reachable isof cfg src w st sent" "pending 1 st = [b]"
| upload_crash: "collector_reachable isof cfg src w st (sent @ [qb_payload b])"
    if "collector_reachable isof cfg src w st sent" "pending 1 st = [b]"
| upload_failure: "collector_reachable isof cfg src w (bump_attempts i st) sent"
    if "collector_reachable isof cfg src w st sent"

definition carries :: "(py_datetime \<Rightarrow> string) \<Rightarrow> json \<Rightarrow> usage_event \<Rightarrow> bool" where
  "carries isof p b \<longleftrightarrow> (\<exists>m es. p = JObj [(''machine'', m), (''events'', JArr es)] \<and> event_to_wire isof b \<in> set es)"

definition payloads :: "collector_state \<Rightarrow> json list \<Rightarrow> json set" where
  "payloads st sent = qb_payload ` set (cs_queue st) \<union> set sent"

definition covered :: "(py_datetime \<Rightarrow> string) \<Rightarrow> collector_state \<Rightarrow> json list \<Rightarrow> usage_event \<Rightarrow> bool" where
  "covered isof st sent e \<longleftrightarrow> (\<exists>p \<in> payloads st sent. \<exists>b. carries isof p b
     \<and> ue_event_id b = ue_event_id e \<and> ue_output_tokens e \<le> ue_output_tokens b)"

lemma covered_mono: "payloads st sent \<subseteq> payloads st' sent' \<Longrightarrow> covered isof st sent e \<Longrightarrow> covered isof st' sent' e"
  by (auto simp: covered_def)

lemma payloads_step:
  "payloads st sent \<subseteq> payloads (enqueue kind payload st) sent" "payload \<in> payloads (enqueue kind payload st) sent"
  "payloads (set_offset k p off size' st) sent = payloads st sent"
  "payloads (bump_attempts i st) sent = payloads st sent" "payloads st sent \<subseteq> payloads st (sent @ ps)"
  "queue_inv st \<Longrightarrow> pending 1 st = [b] \<Longrightarrow> payloads st sent \<subseteq> payloads (mark_uploaded (qb_id b) st) (sent @ [qb_payload b])"
proof -
  show "payloads (bump_attempts i st) sent = payloads st sent"
  proof -
    have "map qb_payload (cs_queue (bump_attempts i st)) = map qb_payload (cs_queue st)"
      by (simp add: bump_attempts_def comp_def if_distrib cong: if_cong)
    from arg_cong [OF this, of set] show ?thesis by (simp add: payloads_def)
  qed
  show "payloads st sent \<subseteq> payloads (mark_uploaded (qb_id b) st) (sent @ [qb_payload b])"
    if q1: "queue_inv st" and q2: "pending 1 st = [b]"
  proof -
    obtain bs where q: "cs_queue st = b # bs"
      using q2 unfolding pending_queue [OF q1] by (cases "cs_queue st") auto
    from mark_head [OF q1 q] q show ?thesis by (auto simp: payloads_def)
  qed
qed (auto simp: payloads_def enqueue_def)

lemma chunks_concat: "0 < n \<Longrightarrow> concat (chunks n xs) = xs"
proof (induction n xs rule: chunks.induct)
  case (1 n xs)
  then show ?case by (subst chunks.simps) auto
qed

lemma exec_prefix:
  fixes es :: "usage_event list"
  shows "payloads st sent \<subseteq> payloads (exec_ops (take n (event_batches isof cfg es)) st) sent
    \<and> cs_offsets (exec_ops (take n (event_batches isof cfg es)) st) = cs_offsets st
    \<and> (queue_inv st \<longrightarrow> queue_inv (exec_ops (take n (event_batches isof cfg es)) st))
    \<and> (\<forall>ch \<in> set (take n (chunks (cf_upload_batch_size cfg) es)).
        events_payload isof (machine_info cfg) ch \<in> payloads (exec_ops (take n (event_batches isof cfg es)) st) sent)"
proof -
  have "payloads st sent \<subseteq> payloads (exec_ops (map (\<lambda>ch. Enqueue ''events'' (events_payload isof (machine_info cfg) ch)) chs) st) sent
    \<and> cs_offsets (exec_ops (map (\<lambda>ch. Enqueue ''events'' (events_payload isof (machine_info cfg) ch)) chs) st) = cs_offsets st
    \<and> (queue_inv st \<longrightarrow> queue_inv (exec_ops (map (\<lambda>ch. Enqueue ''events'' (events_payload isof (machine_info cfg) ch)) chs) st))
    \<and> (\<forall>ch \<in> set chs. events_payload isof (machine_info cfg) ch
        \<in> payloads (exec_ops (map (\<lambda>ch. Enqueue ''events'' (events_payload isof (machine_info cfg) ch)) chs) st) sent)" for chs
  proof (induction chs arbitrary: st)
    case (Cons ch chs)
    from Cons.IH [of "enqueue ''events'' (events_payload isof (machine_info cfg) ch) st"] show ?case
      using payloads_step(1) [of st sent "''events''" "events_payload isof (machine_info cfg) ch"]
        payloads_step(2) [of "events_payload isof (machine_info cfg) ch" "''events''" st sent]
      by (auto simp: exec_ops_def)
  qed (simp add: exec_ops_def)
  from this [of "take n (chunks (cf_upload_batch_size cfg) es)"] show ?thesis
    unfolding event_batches_def take_map .
qed

lemma exec_file_ops:
  assumes "queue_inv st" and "0 < cf_upload_batch_size cfg"
    and st'_def: "st' = exec_ops (take n (file_ops isof cfg key file r)) st"
  shows "queue_inv st' \<and> payloads st sent \<subseteq> payloads st' sent
    \<and> (cs_offsets st' = cs_offsets st
       \<or> (cs_offsets st' = cs_offsets (set_offset key (sf_path file) (pr_new_offset r) (sf_size file) st)
          \<and> (\<forall>b \<in> set (pr_events r). \<exists>p \<in> payloads st' sent. carries isof p b)))"
proof -
  let ?bs = "event_batches isof cfg (pr_events r)"
  note pre = exec_prefix [of st sent n isof cfg "pr_events r"]
  show ?thesis
  proof (cases "n \<le> length ?bs")
    case True
    then have "st' = exec_ops (take n ?bs) st" by (simp add: st'_def file_ops_def)
    then show ?thesis using pre assms(1) by simp
  next
    case False
    let ?st = "exec_ops ?bs st"
    have all: "take n ?bs = ?bs" "take n (file_ops isof cfg key file r) = file_ops isof cfg key file r"
      using False by (simp_all add: file_ops_def)
    have st': "st' = set_offset key (sf_path file) (pr_new_offset r) (sf_size file) ?st"
      unfolding st'_def all(2) by (simp add: file_ops_def exec_ops_def)
    have len: "length (chunks (cf_upload_batch_size cfg) (pr_events r)) \<le> n"
      using False by (simp add: event_batches_def)
    have "\<exists>p \<in> payloads st' sent. carries isof p b" if b: "b \<in> set (pr_events r)" for b
    proof -
      have "b \<in> set (concat (chunks (cf_upload_batch_size cfg) (pr_events r)))" using b unfolding chunks_concat [OF assms(2)] .
      then obtain ch where ch: "ch \<in> set (chunks (cf_upload_batch_size cfg) (pr_events r))" "b \<in> set ch" by auto
      have "events_payload isof (machine_info cfg) ch \<in> payloads ?st sent"
        using pre ch(1) len unfolding all(1) by simp
      moreover have "carries isof (events_payload isof (machine_info cfg) ch) b"
        using ch(2) by (auto simp: carries_def events_payload_def)
      ultimately show ?thesis unfolding st' payloads_step(3) by blast
    qed
    moreover have "queue_inv st'" and "payloads st sent \<subseteq> payloads st' sent"
      using pre assms(1) unfolding st' all(1) payloads_step(3) by simp_all
    moreover have "cs_offsets st' = cs_offsets (set_offset key (sf_path file) (pr_new_offset r) (sf_size file) st)"
      using pre unfolding st' all(1) by (simp add: set_offset_def)
    ultimately show ?thesis by blast
  qed
qed

context incremental_source
begin

definition progress_ok :: "(py_datetime \<Rightarrow> string) \<Rightarrow> string \<Rightarrow> filesystem \<Rightarrow> collector_state \<Rightarrow> json list \<Rightarrow> bool" where
  "progress_ok isof key w st sent \<longleftrightarrow> (\<forall>path fo. get_offset key path st = Some fo \<longrightarrow>
     (\<exists>c. fs_bytes w path = Some c \<and> boundary c (fo_offset fo)
        \<and> (\<forall>e \<in> set (upto_events c (fo_offset fo)). covered isof st sent e)))"

lemma progress_mono:
  assumes "progress_ok isof key w st sent" and "cs_offsets st' = cs_offsets st" and "payloads st sent \<subseteq> payloads st' sent'"
  shows "progress_ok isof key w st' sent'"
  using assms(1) covered_mono [OF assms(3)] unfolding progress_ok_def get_offset_def assms(2) by blast

lemma tail_progress:
  assumes inv: "queue_inv st" and prog: "progress_ok isof (source_key src) w st sent" and batch: "0 < cf_upload_batch_size cfg"
    and c: "fs_bytes w (sf_path file) = Some c"
    and r: "parse_at c (resume_offset (get_offset (source_key src) (sf_path file) st) (sf_size file)) = Inr r"
    and st': "st' = exec_ops (take n (file_ops isof cfg (source_key src) file r)) st"
  shows "queue_inv st' \<and> progress_ok isof (source_key src) w st' sent"
proof -
  note ops = exec_file_ops [OF inv batch st', of sent]
  let ?off = "resume_offset (get_offset (source_key src) (sf_path file) st) (sf_size file)"
  have at_off: "boundary c ?off \<and> (\<forall>e \<in> set (upto_events c ?off). covered isof st sent e)"
  proof (cases "get_offset (source_key src) (sf_path file) st")
    case (Some fo)
    then obtain c' where "fs_bytes w (sf_path file) = Some c'" "boundary c' (fo_offset fo)"
      "\<forall>e \<in> set (upto_events c' (fo_offset fo)). covered isof st sent e"
      using prog unfolding progress_ok_def by blast
    then show ?thesis using Some c start by (simp add: resume_offset_def)
  qed (simp add: resume_offset_def start)
  have mono: "covered isof st sent e \<Longrightarrow> covered isof st' sent e" for e
    using ops covered_mono by blast
  consider "cs_offsets st' = cs_offsets st"
    | "cs_offsets st' = cs_offsets (set_offset (source_key src) (sf_path file) (pr_new_offset r) (sf_size file) st)"
      "\<forall>b \<in> set (pr_events r). \<exists>p \<in> payloads st' sent. carries isof p b"
    using ops by blast
  then have "progress_ok isof (source_key src) w st' sent"
  proof cases
    case 1
    then show ?thesis using progress_mono [OF prog _ conjunct1 [OF conjunct2 [OF ops]]] by blast
  next
    case 2
    have here: "covered isof st' sent e" if e: "e \<in> set (upto_events c (pr_new_offset r))" for e
    proof -
      consider "e \<in> set (upto_events c ?off)"
        | b where "b \<in> set (pr_events r)" "ue_event_id b = ue_event_id e" "ue_output_tokens e \<le> ue_output_tokens b"
        using covers [OF r _ e] at_off by blast
      then show ?thesis
      proof cases
        case 1
        then show ?thesis using at_off mono by blast
      next
        case 2
        then show ?thesis using \<open>\<forall>b \<in> set (pr_events r). \<exists>p \<in> payloads st' sent. carries isof p b\<close>
          unfolding covered_def by blast
      qed
    qed
    have "boundary c (pr_new_offset r)" using advance [OF r] at_off by blast
    then show ?thesis
      unfolding progress_ok_def
    proof (intro allI impI)
      fix path fo assume "get_offset (source_key src) path st' = Some fo" and bd: "boundary c (pr_new_offset r)"
      then have g: "(if path = sf_path file then fo = \<lparr>fo_offset = pr_new_offset r, fo_size = sf_size file\<rparr>
          else get_offset (source_key src) path st = Some fo)"
        by (auto simp: get_offset_def 2(1) set_offset_def split: if_splits)
      show "\<exists>c. fs_bytes w path = Some c \<and> boundary c (fo_offset fo) \<and> (\<forall>e \<in> set (upto_events c (fo_offset fo)). covered isof st' sent e)"
      proof (cases "path = sf_path file")
        case True
        then show ?thesis using g c bd here by simp
      next
        case False
        then have "get_offset (source_key src) path st = Some fo" using g by simp
        then show ?thesis using prog mono unfolding progress_ok_def by blast
      qed
    qed
  qed
  then show ?thesis using ops by blast
qed

lemma reachable_progress:
  assumes "collector_reachable isof cfg src w st sent" and batch: "0 < cf_upload_batch_size cfg"
    and src: "\<And>w file n r. us_parse src w file n = Inr r
      \<Longrightarrow> \<exists>c. fs_bytes w (sf_path file) = Some c \<and> parse_at c n = Inr r"
  shows "queue_inv st \<and> progress_ok isof (source_key src) w st sent"
  using assms(1)
proof (induction rule: collector_reachable.induct)
  case (fresh w)
  then show ?case by (simp add: progress_ok_def get_offset_def fresh_state_def queue_inv_def)
next
  case (grow w st sent w')
  have "progress_ok isof (source_key src) w' st sent"
    unfolding progress_ok_def
  proof (intro allI impI)
    fix path fo assume "get_offset (source_key src) path st = Some fo"
    then obtain c where c: "fs_bytes w path = Some c" "boundary c (fo_offset fo)"
      "\<forall>e \<in> set (upto_events c (fo_offset fo)). covered isof st sent e"
      using grow.IH unfolding progress_ok_def by blast
    then obtain d where "fs_bytes w' path = Some (c @ d)" using grow.hyps(2) unfolding grows_def by blast
    then show "\<exists>c. fs_bytes w' path = Some c \<and> boundary c (fo_offset fo) \<and> (\<forall>e \<in> set (upto_events c (fo_offset fo)). covered isof st sent e)"
      using stable [OF c(2), of d] c(3) by auto
  qed
  then show ?case using grow.IH by blast
next
  case (tail w st sent f r n)
  from src [OF tail.hyps(2)] obtain c where "fs_bytes w (sf_path f) = Some c"
    "parse_at c (resume_offset (get_offset (source_key src) (sf_path f) st) (sf_size f)) = Inr r" by blast
  from tail_progress [OF _ _ batch this refl] tail.IH show ?case by blast
next
  case (queue w st sent kind payload)
  then show ?case using progress_mono [OF _ _ payloads_step(1)] by simp
next
  case (upload w st sent b)
  then show ?case using progress_mono [OF _ _ payloads_step(6)] by simp
next
  case (upload_crash w st sent b)
  then show ?case using progress_mono [OF _ refl payloads_step(5)] by simp
next
  case (upload_failure w st sent i)
  then show ?case using progress_mono [of isof "source_key src" w st sent "bump_attempts i st" sent] payloads_step(4) by simp
qed

end


lemma consumed_full: "consumed (take (consumed t) t) = consumed t"
  using complete_take_consumed [of t] by (simp add: consumed_def)

lemma take_boundary:
  assumes "n \<le> length c" and "consumed (take n c) = n"
  defines "k \<equiv> consumed (drop n c)"
  shows "consumed (take (n + k) c) = n + k"
    and "complete_lines (take (n + k) c) = complete_lines (take n c) @ complete_lines (drop n c)"
proof -
  have s: "take (n + k) c = take n c @ take k (drop n c)" by (simp add: take_add)
  show "consumed (take (n + k) c) = n + k"
    unfolding s consumed_append [of "take n c"] using assms by (simp add: k_def consumed_full)
  show "complete_lines (take (n + k) c) = complete_lines (take n c) @ complete_lines (drop n c)"
    unfolding s complete_lines_append [of "take n c"] using assms by (simp add: k_def complete_take_consumed)
qed

definition line_boundary :: "string \<Rightarrow> int \<Rightarrow> bool" where
  "line_boundary c n \<longleftrightarrow> 0 \<le> n \<and> nat n \<le> length c \<and> consumed (take (nat n) c) = nat n"

lemma parse_boundary:
  assumes "parse loads fromiso machine c n = Inr r" and "line_boundary c n"
  shows "line_boundary c (pr_new_offset r)
    \<and> line_events loads fromiso machine (take (nat (pr_new_offset r)) c)
      = line_events loads fromiso machine (take (nat n) c) @ line_events loads fromiso machine (drop (nat n) c)
    \<and> pr_events r = best_events (line_events loads fromiso machine (drop (nat n) c))"
proof -
  let ?k = "consumed (drop (nat n) c)"
  have r: "pr_new_offset r = n + int ?k" "pr_events r = best_events (line_events loads fromiso machine (drop (nat n) c))"
    using assms(1) by (auto simp: parse_eq Let_def split: if_splits)
  have n: "nat (n + int ?k) = nat n + ?k" using assms(2) by (simp add: line_boundary_def nat_add_distrib)
  have "?k \<le> length (drop (nat n) c)" by (rule consumed_le)
  then have "nat n + ?k \<le> length c" using assms(2) unfolding line_boundary_def length_drop by linarith
  then show ?thesis
    using assms(2) take_boundary [of "nat n" c]
    by (simp add: line_boundary_def r n line_events_def)
qed

interpretation claude_code: incremental_source
  "\<lambda>c n. case parse loads fromiso machine c n of Inl _ \<Rightarrow> Inl Parse_Raised | Inr r \<Rightarrow> Inr r"
  "\<lambda>c n. line_events loads fromiso machine (take (nat n) c)" line_boundary
  for loads fromiso machine
proof
  show "line_boundary c 0" "line_events loads fromiso machine (take (nat 0) c) = []" for c
    by (simp_all add: line_boundary_def line_events_def)
  show "line_boundary (c @ d) n
      \<and> line_events loads fromiso machine (take (nat n) (c @ d)) = line_events loads fromiso machine (take (nat n) c)"
    if "line_boundary c n" for c d n
    using that by (simp add: line_boundary_def)
next
  fix c n r
  assume "(case parse loads fromiso machine c n of Inl _ \<Rightarrow> Inl Parse_Raised | Inr r \<Rightarrow> Inr r) = Inr r"
  then have p: "parse loads fromiso machine c n = Inr r" by (simp split: sum.splits)
  show "line_boundary c (pr_new_offset r)" if "line_boundary c n"
    using parse_boundary [OF p that] by blast
  show "e \<in> set (line_events loads fromiso machine (take (nat n) c))
      \<or> (\<exists>b \<in> set (pr_events r). ue_event_id b = ue_event_id e \<and> ue_output_tokens e \<le> ue_output_tokens b)"
    if b: "line_boundary c n" and e: "e \<in> set (line_events loads fromiso machine (take (nat (pr_new_offset r)) c))" for e
    using parse_boundary [OF p b] e best_events_cover [of e "line_events loads fromiso machine (drop (nat n) c)"] by auto
qed

text \<open>
  C18. The collector loses nothing: in every state it can reach with the Claude Code source, whatever
  crashes between its commits, failed uploads and growth of the files there were, each usage record in the
  part of a file it has recorded as read is in a batch that is queued or that the server confirmed, as that
  event or as one of the same request with at least as many output tokens. The hypotheses: the state is
  reachable, the batch size is positive, and the file has a recorded offset.
\<close>

theorem collector_loses_nothing:
  assumes "collector_reachable isof cfg (claude_code_source loads fromiso strptime machine) w st sent"
    and "0 < cf_upload_batch_size cfg"
    and "get_offset ''anthropic:ClaudeCodeJsonlSource'' path st = Some fo"
  shows "\<exists>content. fs_bytes w path = Some content
    \<and> (\<forall>e \<in> set (line_events loads fromiso machine (take (nat (fo_offset fo)) content)).
        \<exists>p \<in> qb_payload ` set (cs_queue st) \<union> set sent. \<exists>b. carries isof p b
          \<and> ue_event_id b = ue_event_id e \<and> ue_output_tokens e \<le> ue_output_tokens b)"
proof -
  let ?src = "claude_code_source loads fromiso strptime machine"
  have key: "source_key ?src = ''anthropic:ClaudeCodeJsonlSource''"
    by (simp add: source_key_def claude_code_source_def)
  have "\<exists>c. fs_bytes w (sf_path f) = Some c
      \<and> (case parse loads fromiso machine c n of Inl _ \<Rightarrow> Inl Parse_Raised | Inr r \<Rightarrow> Inr r) = Inr r"
    if "us_parse ?src w f n = Inr r" for w f n r
    using that by (auto simp: claude_code_source_def split: option.splits)
  from claude_code.reachable_progress [OF assms(1,2) this] assms(3) show ?thesis
    unfolding claude_code.progress_ok_def key covered_def payloads_def by blast
qed

section \<open>The cycle runs in reachable states\<close>

lemma run_each_inv:
  assumes "\<And>x s. x \<in> set xs \<Longrightarrow> P s \<Longrightarrow> P (snd (f x s))" and "P s"
  shows "P (snd (run_each f xs s))"
  using assms
proof (induction xs arbitrary: s)
  case (Cons x xs)
  obtain e s1 where f: "f x s = (e, s1)" by (cases "f x s")
  have "P s1" using Cons.prems(1) [of x s] Cons.prems(2) f by simp
  then show ?case using Cons.IH [of s1] Cons.prems(1) f by (cases e) simp_all
qed simp

lemma exec_ops_queue_inv: "queue_inv st \<Longrightarrow> queue_inv (exec_ops ops st)"
proof (induction ops arbitrary: st)
  case (Cons op ops)
  then show ?case by (cases op) (simp_all add: exec_ops_def)
qed (simp add: exec_ops_def)

lemma reachable_queue_inv: "collector_reachable isof cfg src w st sent \<Longrightarrow> queue_inv st"
  by (induction rule: collector_reachable.induct) (simp_all add: exec_ops_queue_inv)

lemma tail_file_reachable:
  assumes "collector_reachable isof cfg src w st sent"
  shows "collector_reachable isof cfg src w (fst (snd (tail_file isof cfg False w src f (st, stats)))) sent"
proof (cases "us_parse src w f (resume_offset (get_offset (source_key src) (sf_path f) st) (sf_size f))")
  case (Inl e)
  then show ?thesis using assms by (cases e) (simp_all add: tail_file_def Let_def)
next
  case (Inr r)
  from collector_reachable.tail [OF assms Inr, of "length (file_ops isof cfg (source_key src) f r)"]
  show ?thesis by (simp add: tail_file_def Let_def Inr)
qed

text \<open>What a drain does to the server: the confirmed batches, then nothing more or one refused batch, which stays the head.\<close>

definition delivered ::
  "'s http_post \<Rightarrow> string \<Rightarrow> queued_batch list \<Rightarrow> 's \<Rightarrow> collector_error option \<Rightarrow> collector_state \<Rightarrow> 's \<Rightarrow> bool" where
  "delivered post base bs srv err st' srv' \<longleftrightarrow> (\<exists>srv1. confirmed post base bs srv srv1
     \<and> (srv' = srv1 \<and> (err = None \<longrightarrow> cs_queue st' = [])
       \<or> err = None \<and> (\<exists>b rest. send post base (qb_kind b) (qb_payload b) srv1 = Some (False, srv')
            \<and> cs_queue st' = b\<lparr>qb_attempts := qb_attempts b + 1\<rparr> # rest)))"

lemma delivered_none [simp]: "delivered post base [] srv (Some e) st' srv"
  by (simp add: delivered_def)

lemma delivered_Cons:
  assumes "send post base (qb_kind b) (qb_payload b) srv = Some (True, srv2)" and "delivered post base bs srv2 err st' srv'"
  shows "delivered post base (b # bs) srv err st' srv'"
proof -
  obtain srv1 where "confirmed post base bs srv2 srv1"
    "srv' = srv1 \<and> (err = None \<longrightarrow> cs_queue st' = []) \<or> err = None \<and> (\<exists>b rest.
       send post base (qb_kind b) (qb_payload b) srv1 = Some (False, srv') \<and> cs_queue st' = b\<lparr>qb_attempts := qb_attempts b + 1\<rparr> # rest)"
    using assms(2) unfolding delivered_def by blast
  with assms(1) show ?thesis unfolding delivered_def by (intro exI [of _ srv1] conjI) auto
qed

lemma drain_reachable:
  assumes "collector_reachable isof cfg src w st sent" and "drain post base (st, stats, srv) = (err, st', stats', srv')"
  shows "\<exists>bs. collector_reachable isof cfg src w st' (sent @ map qb_payload bs)
    \<and> ct_batches_uploaded stats' = ct_batches_uploaded stats + length bs \<and> delivered post base bs srv err st' srv'"
  using assms
proof (induction "length (cs_queue st)" arbitrary: st stats srv sent rule: less_induct)
  case less
  note qi = reachable_queue_inv [OF less.prems(1)]
  note unf = drain_unfold [OF qi, of post base stats srv]
  show ?case
  proof (cases "cs_queue st")
    case Nil
    then show ?thesis using less.prems unf by (intro exI [of _ "[]"]) (auto simp: delivered_def)
  next
    case (Cons b bs)
    have pend: "pending 1 st = [b]" by (simp add: pending_queue [OF qi] Cons)
    show ?thesis
    proof (cases "send post base (qb_kind b) (qb_payload b) srv")
      case None
      then show ?thesis using less.prems unf Cons by (intro exI [of _ "[]"]) auto
    next
      case (Some r)
      obtain ok srv2 where r: "r = (ok, srv2)" by (cases r)
      show ?thesis
      proof (cases ok)
        case False
        then have f: "st' = bump_attempts (qb_id b) st" "err = None" "srv' = srv2"
          "ct_batches_uploaded stats' = ct_batches_uploaded stats" using less.prems(2) unf Cons Some r by auto
        have "delivered post base [] srv err st' srv'"
          using Some r False bump_head [OF qi Cons] by (auto simp: delivered_def f)
        then show ?thesis using collector_reachable.upload_failure [OF less.prems(1)] f by (intro exI [of _ "[]"]) simp
      next
        case True
        let ?st = "mark_uploaded (qb_id b) st"
        have d: "drain post base (?st, stats\<lparr>ct_batches_uploaded := ct_batches_uploaded stats + 1\<rparr>, srv2) = (err, st', stats', srv')"
          using less.prems(2) unf Cons Some r True by simp
        have "length (cs_queue ?st) < length (cs_queue st)" using mark_head [OF qi Cons] Cons by simp
        from less.hyps [OF this collector_reachable.upload [OF less.prems(1) pend] d] obtain rest where "collector_reachable isof cfg src w st' ((sent @ [qb_payload b]) @ map qb_payload rest)"
          "ct_batches_uploaded stats' = ct_batches_uploaded stats + 1 + length rest" "delivered post base rest srv2 err st' srv'"
          by auto
        then show ?thesis using delivered_Cons Some r True by (intro exI [of _ "b # rest"]) simp
      qed
    qed
  qed
qed

lemma poll_reachable:
  assumes "collector_reachable isof cfg src w st sent"
  shows "collector_reachable isof cfg src w (fst (snd (poll_limits isof cfg dry w limits (st, stats)))) sent"
  unfolding poll_limits_def
proof (rule run_each_inv [where P = "\<lambda>(st, stats). collector_reachable isof cfg src w st sent", simplified case_prod_unfold])
  show "collector_reachable isof cfg src w (fst (st, stats)) sent" using assms by simp
qed (auto simp: Let_def case_prod_unfold split: sum.split poll_failure.split intro: collector_reachable.queue)

lemma tail_uploads_nothing:
  "ct_batches_uploaded (snd (snd (tail_usage isof cfg dry w sources (st, stats)))) = ct_batches_uploaded stats"
  unfolding tail_usage_def
proof (rule run_each_inv [where P = "\<lambda>s. ct_batches_uploaded (snd s) = ct_batches_uploaded stats"])
  fix src and s :: "collector_state \<times> collect_stats"
  assume "ct_batches_uploaded (snd s) = ct_batches_uploaded stats"
  then show "ct_batches_uploaded (snd (snd (run_each (tail_file isof cfg dry w src) (us_discover src w) s)))
      = ct_batches_uploaded stats"
  proof (intro run_each_inv [where P = "\<lambda>s. ct_batches_uploaded (snd s) = ct_batches_uploaded stats"])
    fix f and s :: "collector_state \<times> collect_stats"
    assume "ct_batches_uploaded (snd s) = ct_batches_uploaded stats"
    then show "ct_batches_uploaded (snd (snd (tail_file isof cfg dry w src f s))) = ct_batches_uploaded stats"
      by (cases s) (simp add: tail_file_def Let_def split: sum.split parse_failure.split)
  qed
qed simp

lemma poll_uploads_nothing:
  "ct_batches_uploaded (snd (snd (poll_limits isof cfg dry w limits (st, stats)))) = ct_batches_uploaded stats"
  unfolding poll_limits_def
  by (rule run_each_inv [where P = "\<lambda>s. ct_batches_uploaded (snd s) = ct_batches_uploaded stats"])
    (simp_all add: Let_def case_prod_unfold split: sum.split poll_failure.split)

text \<open>
  C19. A collection cycle over a source, from a reachable state, whatever the limit sources and the server do
  and whether or not an exception ends it, leaves a reachable state in which the confirmed payloads are the
  old ones and those of the batches the server confirmed, one after another, in this cycle: as many as the
  cycle counts as uploaded. Beyond these the server saw at most one batch, which it refused; that batch is
  still the head of the queue, with one more attempt. A cycle without an exception that met no refusal leaves
  the queue empty. The hypotheses: the state before is reachable, and the cycle's result.
\<close>

theorem collect_once_refines:
  assumes "collector_reachable isof cfg src w st sent"
    and "collect_once isof cfg False post [src] limits do_limits w (st, srv) = (err, stats, st', srv')"
  shows "\<exists>bs srv1. collector_reachable isof cfg src w st' (sent @ map qb_payload bs)
    \<and> ct_batches_uploaded stats = length bs \<and> confirmed post (cf_server_url cfg) bs srv srv1
    \<and> (srv' = srv1 \<and> (err = None \<longrightarrow> cs_queue st' = [])
      \<or> err = None \<and> (\<exists>b rest. send post (cf_server_url cfg) (qb_kind b) (qb_payload b) srv1 = Some (False, srv')
           \<and> cs_queue st' = b\<lparr>qb_attempts := qb_attempts b + 1\<rparr> # rest))"
proof -
  obtain e1 st1 stats1 where t: "tail_usage isof cfg False w [src] (st, no_stats) = (e1, st1, stats1)"
    by (cases "tail_usage isof cfg False w [src] (st, no_stats)")
  have "collector_reachable isof cfg src w (fst (snd (run_each (tail_file isof cfg False w src) (us_discover src w) (st, no_stats)))) sent"
    by (rule run_each_inv [where P = "\<lambda>s. collector_reachable isof cfg src w (fst s) sent"])
      (use assms(1) tail_file_reachable in \<open>auto simp del: split_paired_All\<close>)
  then have r1: "collector_reachable isof cfg src w st1 sent"
    using t by (auto simp: tail_usage_def split: prod.splits option.splits)
  obtain e2 st2 stats2 where p: "(if do_limits then poll_limits isof cfg False w limits (st1, stats1) else (None, st1, stats1)) = (e2, st2, stats2)"
    by (cases "if do_limits then poll_limits isof cfg False w limits (st1, stats1) else (None, st1, stats1)")
  have r2: "collector_reachable isof cfg src w st2 sent"
    using p r1 poll_reachable [OF r1, of False limits stats1] by (auto split: if_splits)
  have u1: "ct_batches_uploaded stats1 = 0"
    using tail_uploads_nothing [of isof cfg False w "[src]" st no_stats] by (simp add: t) (simp add: no_stats_def)
  have u2: "ct_batches_uploaded stats2 = 0"
    using p u1 poll_uploads_nothing [of isof cfg False w limits st1 stats1] by (auto split: if_splits)
  obtain e3 st3 stats3 srv3 where d: "drain post (cf_server_url cfg) (st2, stats2, srv) = (e3, st3, stats3, srv3)"
    by (cases "drain post (cf_server_url cfg) (st2, stats2, srv)")
  obtain bs where bs: "collector_reachable isof cfg src w st3 (sent @ map qb_payload bs)"
    "ct_batches_uploaded stats3 = length bs" "delivered post (cf_server_url cfg) bs srv e3 st3 srv3"
    using drain_reachable [OF r2 d] u2 by auto
  have res: "(err, ct_batches_uploaded stats, st', srv') =
      (if e1 \<noteq> None then (e1, 0, st1, srv) else if e2 \<noteq> None then (e2, 0, st2, srv)
       else (e3, ct_batches_uploaded stats3, st3, srv3))"
    using assms(2) u1 u2 by (auto simp: collect_once_def t p d split: option.splits)
  have "\<exists>bs. collector_reachable isof cfg src w st' (sent @ map qb_payload bs)
      \<and> ct_batches_uploaded stats = length bs \<and> delivered post (cf_server_url cfg) bs srv err st' srv'"
  proof (cases "e1 \<noteq> None \<or> e2 \<noteq> None")
    case True
    then have "collector_reachable isof cfg src w st' sent" "ct_batches_uploaded stats = 0"
      "delivered post (cf_server_url cfg) [] srv err st' srv'"
      using res r1 r2 by (auto split: if_splits)
    then show ?thesis by (intro exI [of _ "[]"]) simp
  next
    case False
    with res bs show ?thesis by (intro exI [of _ bs]) simp
  qed
  then show ?thesis unfolding delivered_def by blast
qed


section \<open>Dry runs, the one-time import, the pace of the limit sources\<close>

text \<open>
  A dry run changes nothing: a cycle with \<open>dry_run\<close> leaves the collector's offsets, queue and metadata
  and the server as they were, even when an exception ends it.
\<close>

theorem dry_run_inert:
  "snd (snd (collect_once isof cfg True post usage limits do_limits w (st, srv))) = (st, srv)"
proof -
  have t: "fst (snd (tail_usage isof cfg True w usage (st, stats))) = st" for stats
    unfolding tail_usage_def
  proof (rule run_each_inv [where P = "\<lambda>s. fst s = st"])
    fix src and s :: "collector_state \<times> collect_stats" assume "fst s = st"
    then show "fst (snd (run_each (tail_file isof cfg True w src) (us_discover src w) s)) = st"
    proof (intro run_each_inv [where P = "\<lambda>s. fst s = st"])
      fix f and s :: "collector_state \<times> collect_stats" assume "fst s = st"
      then show "fst (snd (tail_file isof cfg True w src f s)) = st"
        by (cases s) (simp add: tail_file_def Let_def split: sum.split parse_failure.split)
    qed
  qed simp
  have p: "fst (snd (poll_limits isof cfg True w limits (st, stats))) = st" for stats
    unfolding poll_limits_def
  proof (rule run_each_inv [where P = "\<lambda>s. fst s = st"])
    fix src and s :: "collector_state \<times> collect_stats" assume "fst s = st"
    then show "fst (snd ((\<lambda>(st, stats). case lz_poll src w of Inl Limits_Unavailable \<Rightarrow> (None, st, stats)
        | Inl Poll_Raised \<Rightarrow> (Some Source_Raised, st, stats)
        | Inr snapshots \<Rightarrow> let stats = stats\<lparr>ct_limits_found := ct_limits_found stats + length snapshots\<rparr>
          in if snapshots = [] \<or> True then (None, st, stats)
             else (None, enqueue ''limits'' (JObj [(''schema_version'', JInt 2), (''snapshots'', JArr (map (\<lambda>s. limit_to_wire_v2 isof s
                 (cf_machine_name cfg) (collector_source cfg)) snapshots))]) st,
               stats\<lparr>ct_batches_enqueued := ct_batches_enqueued stats + 1\<rparr>)) s)) = st"
      by (cases s) (simp add: Let_def split: sum.split poll_failure.split)
  qed simp
  show ?thesis
    using t [of no_stats] p [of "snd (snd (tail_usage isof cfg True w usage (st, no_stats)))"]
    by (auto simp: collect_once_def split: prod.splits option.splits if_splits)
qed

text \<open>
  The historical import happens once: after a bootstrap that completed, a second one, also after a
  restart and whatever the sources then report, enqueues nothing and changes nothing; and the first one left
  the parse progress alone and enqueued at most one batch per source. The hypothesis: the first completed.
\<close>

theorem bootstrap_once:
  assumes "run_bootstrap iso_day cfg False sources w st = (None, n, st1)"
  shows "run_bootstrap iso_day' cfg' dry sources' w' st1 = (None, 0, st1)
    \<and> cs_offsets st1 = cs_offsets st \<and> n \<le> length sources \<and> length (cs_queue st1) = length (cs_queue st) + n"
proof (cases "get_meta BOOTSTRAP_DONE st = Some ''1''")
  case True
  then show ?thesis using assms by (auto simp: run_bootstrap_def)
next
  case False
  define f :: "'a usage_plugin \<Rightarrow> nat \<times> collector_state \<Rightarrow> collector_error option \<times> nat \<times> collector_state" where
    "f = (\<lambda>src (n, st). (case us_bootstrap src w of
             Inl _ \<Rightarrow> (Some Source_Raised, n, st)
           | Inr aggregates \<Rightarrow>
               if aggregates = [] \<or> False then (None, n, st)
               else (None, n + 1, enqueue ''bootstrap'' (JObj [(''machine'', machine_info cfg),
                      (''aggregates'', JArr (map (aggregate_to_wire iso_day) aggregates))]) st)))"
  have step: "cs_offsets (snd (snd (f src (k, s)))) = cs_offsets s \<and> fst (snd (f src (k, s))) \<le> Suc k
      \<and> length (cs_queue (snd (snd (f src (k, s))))) + k = length (cs_queue s) + fst (snd (f src (k, s)))" for src k s
    by (simp add: f_def enqueue_def split: sum.split)
  have loop: "cs_offsets (snd (snd (run_each f srcs (k, s)))) = cs_offsets s
      \<and> fst (snd (run_each f srcs (k, s))) \<le> k + length srcs
      \<and> length (cs_queue (snd (snd (run_each f srcs (k, s))))) + k = length (cs_queue s) + fst (snd (run_each f srcs (k, s)))"
    for srcs k s
  proof (induction srcs arbitrary: k s)
    case (Cons src srcs)
    obtain e k1 s1 where fx: "f src (k, s) = (e, k1, s1)" by (cases "f src (k, s)")
    show ?case
    proof (cases e)
      case None
      then show ?thesis using step [of src k s] Cons.IH [of k1 s1] by (simp add: fx)
    next
      case (Some _)
      then show ?thesis using step [of src k s] by (simp add: fx)
    qed
  qed simp
  obtain s1 where r: "run_each f sources (0, st) = (None, n, s1)" and st1: "st1 = set_meta BOOTSTRAP_DONE ''1'' s1"
    using assms False unfolding run_bootstrap_def f_def [symmetric] by (auto split: prod.splits option.splits)
  have "get_meta BOOTSTRAP_DONE st1 = Some ''1''" by (simp add: st1 get_meta_def set_meta_def)
  then show ?thesis using loop [of sources 0 st] r by (simp add: run_bootstrap_def st1)
qed

lemma run_loop_paced:
  assumes "run_loop isof cfg dry post usage limits wakes (t0, first) s = (err, polled, s')" and "0 \<le> cf_limits_poll_interval cfg"
  shows "let times = map fst (filter snd (zip (map fst wakes) polled)) in
     sorted_wrt (\<lambda>a b. a + cf_limits_poll_interval cfg \<le> b) times
   \<and> (\<not> first \<longrightarrow> (\<forall>t \<in> set times. t0 + cf_limits_poll_interval cfg \<le> t))
   \<and> (first \<and> wakes \<noteq> [] \<longrightarrow> times \<noteq> [] \<and> hd times = fst (hd wakes))"
  using assms
proof (induction wakes arbitrary: t0 first s polled err s')
  case (Cons wake wakes)
  obtain now w where wake: "wake = (now, w)" by (cases wake)
  define go where "go \<longleftrightarrow> first \<or> cf_limits_poll_interval cfg \<le> now - t0"
  let ?i = "cf_limits_poll_interval cfg"
  obtain e stats s1 where c: "collect_once isof cfg dry post usage limits go w s = (e, stats, s1)"
    by (cases "collect_once isof cfg dry post usage limits go w s")
  show ?case
  proof (cases e)
    case (Some x)
    then have "polled = [go]" using Cons.prems(1) c by (simp add: wake go_def)
    then show ?thesis by (auto simp: wake go_def)
  next
    case None
    obtain e2 ps s2 where r: "run_loop isof cfg dry post usage limits wakes (if go then now else t0, False) s1 = (e2, ps, s2)"
      by (cases "run_loop isof cfg dry post usage limits wakes (if go then now else t0, False) s1")
    have polled: "polled = go # ps" using Cons.prems(1) c None r by (simp add: wake go_def Let_def split: if_splits)
    define times where "times = map fst (filter snd (zip (map fst wakes) ps))"
    have IH: "sorted_wrt (\<lambda>a b. a + ?i \<le> b) times" "\<forall>t \<in> set times. (if go then now else t0) + ?i \<le> t"
      using Cons.IH [OF r Cons.prems(2)] by (simp_all add: times_def Let_def)
    have all: "map fst (filter snd (zip (map fst (wake # wakes)) polled)) = (if go then now # times else times)"
      by (simp add: polled wake times_def)
    show ?thesis
    proof (cases go)
      case True
      have "\<forall>t \<in> set times. t0 + ?i \<le> t" if "\<not> first"
      proof -
        have "t0 + ?i \<le> now" using True that by (simp add: go_def)
        then show ?thesis using IH(2) True Cons.prems(2) by fastforce
      qed
      moreover have "\<not> first \<Longrightarrow> t0 + ?i \<le> now" using True by (simp add: go_def)
      ultimately show ?thesis using IH True unfolding all by (simp add: Let_def wake go_def)
    next
      case False
      then show ?thesis using IH unfolding all by (simp add: Let_def go_def)
    qed
  qed
qed simp

text \<open>
  The limit sources are polled at their own pace: the first cycle polls them, and between any two cycles
  that poll them at least the configured interval has passed on the monotonic clock, however often the
  collector wakes up. The hypotheses: the interval is not negative, and the result of the loop.
\<close>

theorem limit_polls_paced:
  assumes "run_loop isof cfg dry post usage limits wakes (0, True) s = (err, polled, s')"
    and "0 \<le> cf_limits_poll_interval cfg" and "wakes \<noteq> []"
  shows "let times = map fst (filter snd (zip (map fst wakes) polled)) in
     sorted_wrt (\<lambda>a b. a + cf_limits_poll_interval cfg \<le> b) times \<and> times \<noteq> [] \<and> hd times = fst (hd wakes)"
  using run_loop_paced [OF assms(1,2)] assms(3) by (simp add: Let_def)

section \<open>A batch the server refuses\<close>

lemma enqueue_only:
  assumes "run_each f xs (st, stats) = (e, st', stats')"
    and "\<And>x st stats. \<exists>new. cs_queue (fst (snd (f x (st, stats)))) = cs_queue st @ new \<and> (queue_inv st \<longrightarrow> queue_inv (fst (snd (f x (st, stats)))))"
  shows "\<exists>new. cs_queue st' = cs_queue st @ new \<and> (queue_inv st \<longrightarrow> queue_inv st')"
  using assms
proof (induction xs arbitrary: st stats)
  case (Cons x xs)
  obtain e1 st1 stats1 where f: "f x (st, stats) = (e1, st1, stats1)" by (cases "f x (st, stats)")
  obtain new where new: "cs_queue st1 = cs_queue st @ new \<and> (queue_inv st \<longrightarrow> queue_inv st1)"
    using Cons.prems(2) [of x st stats] f by auto
  show ?case
  proof (cases e1)
    case None
    then have "run_each f xs (st1, stats1) = (e, st', stats')" using Cons.prems(1) f by simp
    from Cons.IH [OF this Cons.prems(2)] obtain new2 where "cs_queue st' = cs_queue st1 @ new2 \<and> (queue_inv st1 \<longrightarrow> queue_inv st')" by blast
    then show ?thesis using new by (intro exI [of _ "new @ new2"]) simp
  next
    case (Some y)
    then show ?thesis using Cons.prems(1) f new by (intro exI [of _ new]) simp
  qed
qed simp

lemma exec_appends: "\<exists>new. cs_queue (exec_ops ops st) = cs_queue st @ new"
proof (induction ops arbitrary: st)
  case (Cons op ops)
  show ?case
  proof (cases op)
    case (Enqueue k p)
    obtain new where "cs_queue (exec_ops ops (enqueue k p st)) = cs_queue (enqueue k p st) @ new" using Cons.IH by blast
    then show ?thesis by (simp add: exec_ops_def Enqueue) (simp add: enqueue_def)
  next
    case (Set_Offset a b c d)
    then show ?thesis using Cons.IH [of "set_offset a b c d st"] by (simp add: exec_ops_def)
  qed
qed (simp add: exec_ops_def)


lemma tail_file_appends:
  "\<exists>new. cs_queue (fst (snd (tail_file isof cfg dry w src f (st, stats)))) = cs_queue st @ new
     \<and> (queue_inv st \<longrightarrow> queue_inv (fst (snd (tail_file isof cfg dry w src f (st, stats)))))"
proof (cases "us_parse src w f (resume_offset (get_offset (source_key src) (sf_path f) st) (sf_size f))")
  case (Inl e)
  then show ?thesis by (cases e) (simp_all add: tail_file_def Let_def)
next
  case (Inr r)
  then show ?thesis using exec_appends [of "file_ops isof cfg (source_key src) f r" st]
    by (simp add: tail_file_def Let_def exec_ops_queue_inv)
qed

lemma each_appends:
  assumes "\<And>x st stats. \<exists>new. cs_queue (fst (snd (f x (st, stats)))) = cs_queue st @ new
      \<and> (queue_inv st \<longrightarrow> queue_inv (fst (snd (f x (st, stats)))))"
  shows "\<exists>new. cs_queue (fst (snd (run_each f xs (st, stats)))) = cs_queue st @ new
      \<and> (queue_inv st \<longrightarrow> queue_inv (fst (snd (run_each f xs (st, stats)))))"
proof -
  obtain e st' stats' where r: "run_each f xs (st, stats) = (e, st', stats')" by (cases "run_each f xs (st, stats)")
  from enqueue_only [OF r assms] show ?thesis by (simp add: r)
qed

lemma tail_usage_appends:
  "\<exists>new. cs_queue (fst (snd (tail_usage isof cfg dry w usage (st, stats)))) = cs_queue st @ new
     \<and> (queue_inv st \<longrightarrow> queue_inv (fst (snd (tail_usage isof cfg dry w usage (st, stats)))))"
  unfolding tail_usage_def by (intro each_appends tail_file_appends)

lemma poll_limits_appends:
  "\<exists>new. cs_queue (fst (snd (poll_limits isof cfg dry w limits (st, stats)))) = cs_queue st @ new
     \<and> (queue_inv st \<longrightarrow> queue_inv (fst (snd (poll_limits isof cfg dry w limits (st, stats)))))"
  unfolding poll_limits_def
proof (rule each_appends)
  fix src and st :: collector_state and stats :: collect_stats
  show "\<exists>new. cs_queue (fst (snd ((\<lambda>(st, stats). case lz_poll src w of Inl Limits_Unavailable \<Rightarrow> (None, st, stats)
        | Inl Poll_Raised \<Rightarrow> (Some Source_Raised, st, stats)
        | Inr snapshots \<Rightarrow> let stats = stats\<lparr>ct_limits_found := ct_limits_found stats + length snapshots\<rparr>
          in if snapshots = [] \<or> dry then (None, st, stats)
             else (None, enqueue ''limits'' (JObj [(''schema_version'', JInt 2), (''snapshots'', JArr (map (\<lambda>s. limit_to_wire_v2 isof s
                 (cf_machine_name cfg) (collector_source cfg)) snapshots))]) st,
               stats\<lparr>ct_batches_enqueued := ct_batches_enqueued stats + 1\<rparr>)) (st, stats)))) = cs_queue st @ new
     \<and> (queue_inv st \<longrightarrow> queue_inv (fst (snd ((\<lambda>(st, stats). case lz_poll src w of Inl Limits_Unavailable \<Rightarrow> (None, st, stats)
        | Inl Poll_Raised \<Rightarrow> (Some Source_Raised, st, stats)
        | Inr snapshots \<Rightarrow> let stats = stats\<lparr>ct_limits_found := ct_limits_found stats + length snapshots\<rparr>
          in if snapshots = [] \<or> dry then (None, st, stats)
             else (None, enqueue ''limits'' (JObj [(''schema_version'', JInt 2), (''snapshots'', JArr (map (\<lambda>s. limit_to_wire_v2 isof s
                 (cf_machine_name cfg) (collector_source cfg)) snapshots))]) st,
               stats\<lparr>ct_batches_enqueued := ct_batches_enqueued stats + 1\<rparr>)) (st, stats)))))"
    by (auto simp: Let_def split: sum.split poll_failure.split) (simp add: enqueue_def)
qed

lemma refused_cycle:
  assumes qi: "queue_inv st" and q: "cs_queue st = b # bs"
    and refused: "\<forall>srv. \<exists>srv'. send post (cf_server_url cfg) (qb_kind b) (qb_payload b) srv = Some (False, srv')"
    and c: "collect_once isof cfg dry post usage limits do_limits w (st, srv) = (err, stats, st', srv')"
  shows "queue_inv st' \<and> (\<exists>k new. cs_queue st' = b\<lparr>qb_attempts := qb_attempts b + k\<rparr> # bs @ new)"
proof -
  obtain e1 st1 stats1 where t: "tail_usage isof cfg dry w usage (st, no_stats) = (e1, st1, stats1)"
    by (cases "tail_usage isof cfg dry w usage (st, no_stats)")
  have 1: "queue_inv st1" "\<exists>new. cs_queue st1 = b # bs @ new"
    using tail_usage_appends [of isof cfg dry w usage st no_stats] qi q by (auto simp: t)
  obtain e2 st2 stats2 where p: "(if do_limits then poll_limits isof cfg dry w limits (st1, stats1) else (None, st1, stats1)) = (e2, st2, stats2)"
    by (cases "if do_limits then poll_limits isof cfg dry w limits (st1, stats1) else (None, st1, stats1)")
  have 2: "queue_inv st2" "\<exists>new. cs_queue st2 = b # bs @ new"
    using poll_limits_appends [of isof cfg dry w limits st1 stats1] 1 p by (auto split: if_splits)
  obtain e3 st3 stats3 srv3 where d: "drain post (cf_server_url cfg) (st2, stats2, srv) = (e3, st3, stats3, srv3)"
    by (cases "drain post (cf_server_url cfg) (st2, stats2, srv)")
  obtain new where new: "cs_queue st2 = b # bs @ new" using 2 by blast
  obtain srv1 where "send post (cf_server_url cfg) (qb_kind b) (qb_payload b) srv = Some (False, srv1)" using refused by blast
  then have "st3 = bump_attempts (qb_id b) st2"
    using d drain_unfold [OF 2(1), of post "cf_server_url cfg" stats2 srv] new by simp
  then have 3: "queue_inv st3" "cs_queue st3 = b\<lparr>qb_attempts := qb_attempts b + 1\<rparr> # bs @ new"
    using 2(1) bump_head [OF 2(1) new] by simp_all
  have keep: "\<exists>k new. cs_queue s = b\<lparr>qb_attempts := qb_attempts b + k\<rparr> # bs @ new"
    if "\<exists>new. cs_queue s = b # bs @ new" for s
    using that by (auto intro: exI [of _ 0])
  have "st' = st1 \<or> st' = st2 \<or> st' = st3"
    using c by (auto simp: collect_once_def t p d split: option.splits if_splits)
  then show ?thesis using 1 2 3 keep by blast
qed

text \<open>
  A limit of the queue: a batch that the server answers with anything but success, for instance because
  it fails validation, is retried for ever and blocks the queue. As long as the server keeps refusing it,
  no number of cycles removes it or anything queued behind it; the attempt counter is kept but no decision
  reads it. The hypotheses: the ids of the queue are in order, the batch is at its head, the server always
  refuses it, and the result of the loop.
\<close>

theorem refused_head_blocks:
  assumes "queue_inv st" and "cs_queue st = b # bs"
    and "\<forall>srv. \<exists>srv'. send post (cf_server_url cfg) (qb_kind b) (qb_payload b) srv = Some (False, srv')"
    and "run_loop isof cfg dry post usage limits wakes ctl (st, srv) = (err, polled, st', srv')"
  shows "\<exists>k new. cs_queue st' = b\<lparr>qb_attempts := qb_attempts b + k\<rparr> # bs @ new"
  using assms
proof (induction wakes arbitrary: st b bs srv ctl err polled)
  case Nil
  then show ?case by (intro exI [of _ 0] exI [of _ "[]"]) simp
next
  case (Cons wake wakes)
  obtain now w t0 first where wc: "wake = (now, w)" "ctl = (t0, first)" by (cases wake; cases ctl)
  define go where "go \<longleftrightarrow> first \<or> cf_limits_poll_interval cfg \<le> now - t0"
  obtain e stats st1 srv1 where c: "collect_once isof cfg dry post usage limits go w (st, srv) = (e, stats, st1, srv1)"
    by (cases "collect_once isof cfg dry post usage limits go w (st, srv)")
  obtain k new where q1: "queue_inv st1" "cs_queue st1 = b\<lparr>qb_attempts := qb_attempts b + k\<rparr> # bs @ new"
    using refused_cycle [OF Cons.prems(1,2,3) c] by blast
  show ?case
  proof (cases e)
    case (Some x)
    then have "st' = st1" using Cons.prems(4) c by (simp add: wc go_def)
    then show ?thesis using q1 by blast
  next
    case None
    then obtain e2 ps where r: "run_loop isof cfg dry post usage limits wakes (if go then now else t0, False) (st1, srv1) = (e2, ps, st', srv')"
      using Cons.prems(4) c by (auto simp: wc go_def Let_def split: prod.splits if_splits)
    have "\<forall>srv. \<exists>srv'. send post (cf_server_url cfg) (qb_kind (b\<lparr>qb_attempts := qb_attempts b + k\<rparr>))
        (qb_payload (b\<lparr>qb_attempts := qb_attempts b + k\<rparr>)) srv = Some (False, srv')"
      using Cons.prems(3) by simp
    from Cons.IH [OF q1 this r] obtain k2 new2 where
      "cs_queue st' = b\<lparr>qb_attempts := qb_attempts b + k + k2\<rparr> # (bs @ new) @ new2" by auto
    then show ?thesis by (intro exI [of _ "k + k2"] exI [of _ "new @ new2"]) (simp add: add.assoc)
  qed
qed


section \<open>Concrete cycles\<close>

definition demo_config :: collector_config where
  "demo_config = \<lparr>cf_server_url = ''http://s/'', cf_machine_name = ''m'', cf_machine_platform = ''Linux'',
     cf_limits_poll_interval = 120, cf_upload_batch_size = 500, cf_sources = [(''claude_code'', True)], cf_limits = []\<rparr>"

definition demo_source :: "filesystem usage_plugin" where
  "demo_source = claude_code_source sample_loads sample_iso (\<lambda>_. None) None"

definition demo_files :: filesystem where
  "demo_files = \<lparr>fs_files = [\<lparr>sf_path = ''p'', sf_size = 4\<rparr>],
     fs_bytes = (\<lambda>p. if p = ''p'' then Some [CHR ''a'', LF, CHR ''b'', LF] else None), fs_cache = None\<rparr>"

definition refusing :: "nat http_post" where
  "refusing url payload srv = (Http_Status 422, srv + 1)"

lemma demo_parse:
  "us_parse demo_source demo_files \<lparr>sf_path = ''p'', sf_size = 4\<rparr> 0
     = Inr \<lparr>pr_events = [sample_usage 7], pr_new_offset = 4, pr_malformed_lines = 0\<rparr>"
proof -
  have "line_events sample_loads sample_iso None [CHR ''a'', LF, CHR ''b'', LF] = [sample_usage 5, sample_usage 7]"
    by (simp add: line_events_def)
  moreover have "best_events [sample_usage 5, sample_usage 7] = [sample_usage 7]"
    by (simp add: best_events_def Let_def keep_best_def start_state_def sample_usage_def)
  ultimately show ?thesis
    by (simp add: demo_source_def claude_code_source_def demo_files_def parse_eq Let_def outcomes_def consumed_def
        start_state_def keep_best_def sample_usage_def)
qed

lemma demo_tail_reachable:
  "collector_reachable isof demo_config demo_source demo_files
     (exec_ops (file_ops isof demo_config ''anthropic:ClaudeCodeJsonlSource'' \<lparr>sf_path = ''p'', sf_size = 4\<rparr>
        \<lparr>pr_events = [sample_usage 7], pr_new_offset = 4, pr_malformed_lines = 0\<rparr>) fresh_state) []"
proof -
  have key: "source_key demo_source = ''anthropic:ClaudeCodeJsonlSource''"
    by (simp add: source_key_def demo_source_def claude_code_source_def)
  have "us_parse demo_source demo_files \<lparr>sf_path = ''p'', sf_size = 4\<rparr>
      (resume_offset (get_offset (source_key demo_source) ''p'' fresh_state) 4)
    = Inr \<lparr>pr_events = [sample_usage 7], pr_new_offset = 4, pr_malformed_lines = 0\<rparr>"
    using demo_parse by (simp add: get_offset_def fresh_state_def resume_offset_def)
  then show ?thesis
    using collector_reachable.tail [OF collector_reachable.fresh [of isof demo_config demo_source demo_files],
        of "\<lparr>sf_path = ''p'', sf_size = 4\<rparr>" _ 9] unfolding key
    by (simp add: file_ops_def event_batches_def demo_config_def chunks.simps)
qed

theorem collector_loses_nothing_witness:
  "\<exists>p \<in> qb_payload ` set (cs_queue (exec_ops (file_ops (\<lambda>_. ''t'') demo_config ''anthropic:ClaudeCodeJsonlSource'' \<lparr>sf_path = ''p'', sf_size = 4\<rparr>
        \<lparr>pr_events = [sample_usage 7], pr_new_offset = 4, pr_malformed_lines = 0\<rparr>) fresh_state)).
     \<exists>b. carries (\<lambda>_. ''t'') p b \<and> ue_event_id b = ''r1'' \<and> 7 \<le> ue_output_tokens b"
proof -
  let ?st = "exec_ops (file_ops (\<lambda>_. ''t'') demo_config ''anthropic:ClaudeCodeJsonlSource'' \<lparr>sf_path = ''p'', sf_size = 4\<rparr>
        \<lparr>pr_events = [sample_usage 7], pr_new_offset = 4, pr_malformed_lines = 0\<rparr>) fresh_state"
  have off: "get_offset ''anthropic:ClaudeCodeJsonlSource'' ''p'' ?st = Some \<lparr>fo_offset = 4, fo_size = 4\<rparr>"
    by (simp add: file_ops_def event_batches_def demo_config_def chunks.simps exec_ops_def get_offset_def set_offset_def)
  have found: "sample_usage 7 \<in> set (line_events sample_loads sample_iso None (take (nat 4) [CHR ''a'', LF, CHR ''b'', LF]))"
    by (simp add: line_events_def)
  have batch: "0 < cf_upload_batch_size demo_config" by (simp add: demo_config_def)
  obtain content where c: "fs_bytes demo_files ''p'' = Some content"
    and cov: "\<forall>e \<in> set (line_events sample_loads sample_iso None (take (nat 4) content)).
        \<exists>p \<in> qb_payload ` set (cs_queue ?st) \<union> set []. \<exists>b. carries (\<lambda>_. ''t'') p b
          \<and> ue_event_id b = ue_event_id e \<and> ue_output_tokens e \<le> ue_output_tokens b"
    using collector_loses_nothing [OF demo_tail_reachable [unfolded demo_source_def] batch off] by auto
  have "content = [CHR ''a'', LF, CHR ''b'', LF]" using c by (simp add: demo_files_def)
  then have "\<exists>p \<in> qb_payload ` set (cs_queue ?st) \<union> set []. \<exists>b. carries (\<lambda>_. ''t'') p b
      \<and> ue_event_id b = ue_event_id (sample_usage 7) \<and> ue_output_tokens (sample_usage 7) \<le> ue_output_tokens b"
    using bspec [OF cov, of "sample_usage 7"] found by simp
  then show ?thesis by (simp add: sample_usage_def)
qed

theorem collect_once_refines_witness:
  "\<exists>bs :: queued_batch list. collector_reachable (\<lambda>_. ''t'') demo_config demo_source demo_files
     (fst (snd (snd (collect_once (\<lambda>_. ''t'') demo_config False refusing [demo_source] [] True demo_files (fresh_state, 0)))))
     (map qb_payload bs)"
proof -
  obtain err stats st' srv' where c: "collect_once (\<lambda>_. ''t'') demo_config False refusing [demo_source] [] True demo_files (fresh_state, 0) = (err, stats, st', srv')"
    by (cases "collect_once (\<lambda>_. ''t'') demo_config False refusing [demo_source] [] True demo_files (fresh_state, 0)")
  obtain bs :: "queued_batch list" where "collector_reachable (\<lambda>_. ''t'') demo_config demo_source demo_files st' ([] @ map qb_payload bs)"
    using collect_once_refines [OF collector_reachable.fresh c] by blast
  then show ?thesis by (intro exI [of _ bs]) (simp add: c)
qed

definition demo_queue :: collector_state where
  "demo_queue = enqueue ''limits'' JNull (enqueue ''events'' JNull fresh_state)"

lemma demo_queue_simps [simp]:
  "queue_inv demo_queue"
  "cs_queue demo_queue = [\<lparr>qb_id = 1, qb_kind = ''events'', qb_payload = JNull, qb_attempts = 0\<rparr>,
     \<lparr>qb_id = 2, qb_kind = ''limits'', qb_payload = JNull, qb_attempts = 0\<rparr>]"
  by (simp_all add: demo_queue_def) (simp add: enqueue_def fresh_state_def)

theorem drain_in_order_witness:
  "(case drain refusing ''u'' (demo_queue, no_stats, 0) of (err, st', stats', srv') \<Rightarrow> err = None \<and> queue_inv st')"
proof -
  obtain err st' stats' srv' where d: "drain refusing ''u'' (demo_queue, no_stats, 0) = (err, st', stats', srv')"
    by (cases "drain refusing ''u'' (demo_queue, no_stats, 0)")
  from drain_in_order [OF _ d] show ?thesis by (simp add: d ENDPOINTS_def)
qed

theorem bootstrap_once_witness:
  "(case run_bootstrap (\<lambda>_. []) demo_config False [demo_source] demo_files fresh_state of
      (err, n, st1) \<Rightarrow> run_bootstrap (\<lambda>_. []) demo_config False [demo_source] demo_files st1 = (None, 0, st1))"
proof -
  obtain n st1 where r: "run_bootstrap (\<lambda>_. []) demo_config False [demo_source] demo_files fresh_state = (None, n, st1)"
    by (simp add: run_bootstrap_def demo_source_def claude_code_source_def demo_files_def bootstrap_aggregates_def get_meta_def fresh_state_def)
  show ?thesis using bootstrap_once [OF r, of "\<lambda>_. []" demo_config False "[demo_source]" demo_files] by (simp add: r)
qed

theorem limit_polls_paced_witness:
  "(case run_loop (\<lambda>_. ''t'') demo_config True refusing [] [] [(5, demo_files), (60, demo_files), (130, demo_files)] (0, True) (fresh_state, 0) of
      (err, polled, s') \<Rightarrow> hd (map fst (filter snd (zip ([5, 60, 130] :: rat list) polled))) = 5)"
proof -
  let ?wakes = "[(5 :: rat, demo_files), (60, demo_files), (130, demo_files)]"
  obtain err polled s' where r: "run_loop (\<lambda>_. ''t'') demo_config True refusing [] [] ?wakes (0, True) (fresh_state, 0) = (err, polled, s')"
    by (cases "run_loop (\<lambda>_. ''t'') demo_config True refusing [] [] ?wakes (0, True) (fresh_state, 0)")
  have "hd (map fst (filter snd (zip (map fst ?wakes) polled))) = 5"
    using limit_polls_paced [OF r] by (simp add: Let_def demo_config_def)
  then show ?thesis unfolding r by simp
qed

theorem refused_head_blocks_witness:
  "\<exists>k new. cs_queue (fst (snd (snd (run_loop (\<lambda>_. ''t'') demo_config False refusing [] [] [(5, demo_files), (60, demo_files)] (0, True) (demo_queue, 0)))))
     = \<lparr>qb_id = 1, qb_kind = ''events'', qb_payload = JNull, qb_attempts = k\<rparr>
       # \<lparr>qb_id = 2, qb_kind = ''limits'', qb_payload = JNull, qb_attempts = 0\<rparr> # new"
proof -
  let ?wakes = "[(5, demo_files), (60, demo_files)]"
  obtain err polled st' srv' where r: "run_loop (\<lambda>_. ''t'') demo_config False refusing [] [] ?wakes (0, True) (demo_queue, 0) = (err, polled, st', srv')"
    by (cases "run_loop (\<lambda>_. ''t'') demo_config False refusing [] [] ?wakes (0, True) (demo_queue, 0)")
  have "\<forall>srv. \<exists>srv'. send refusing (cf_server_url demo_config) ''events'' JNull srv = Some (False, srv')"
    by (simp add: send_def ENDPOINTS_def refusing_def is_success_def)
  then show ?thesis using refused_head_blocks [OF demo_queue_simps(1,2) _ r] unfolding r by simp
qed

end
