(* ===== verification/Rate_Limiter.thy ===== *)
theory Rate_Limiter
  imports Prelude
begin

text \<open>
  \<open>services/rate_limit.py\<close>: the token bucket per caller key (\<open>RateLimiter\<close>). The clock reading is an
  argument of every call; floats are rationals.
\<close>

record rate_limiter =
  rl_capacity :: rat
  rl_refill :: rat
  rl_state :: "(string, rat \<times> rat) dict"

definition new_limiter :: "rat \<Rightarrow> rat \<Rightarrow> rate_limiter" where
  "new_limiter capacity refill = \<lparr>rl_capacity = capacity, rl_refill = refill, rl_state = []\<rparr>"

text \<open>The tokens a key holds at a time: what it held last, refilled since and capped.\<close>

definition bucket :: "rate_limiter \<Rightarrow> string \<Rightarrow> rat \<Rightarrow> rat" where
  "bucket l key now =
     (let (tokens, last_seen) = (case dget (rl_state l) key of None \<Rightarrow> (rl_capacity l, now) | Some p \<Rightarrow> p)
      in min (rl_capacity l) (tokens + (now - last_seen) * rl_refill l))"

definition rl_check :: "rat \<Rightarrow> string \<Rightarrow> rat \<Rightarrow> rate_limiter \<Rightarrow> rat option \<times> rate_limiter" where
  "rl_check now key cost l =
     (let tokens = bucket l key now
      in if tokens < cost
         then (Some (if 0 < rl_refill l then (cost - tokens) / rl_refill l else 1),
               l\<lparr>rl_state := dset key (tokens, now) (rl_state l)\<rparr>)
         else (None, l\<lparr>rl_state := dset key (tokens - cost, now) (rl_state l)\<rparr>))"

definition rl_allow :: "rat \<Rightarrow> string \<Rightarrow> rat \<Rightarrow> rate_limiter \<Rightarrow> bool \<times> rate_limiter" where
  "rl_allow now key cost l = (case rl_check now key cost l of (r, l') \<Rightarrow> (r = None, l'))"

section \<open>Sequences of requests\<close>

record rl_request =
  rq_time :: rat
  rq_key :: string
  rq_cost :: rat

definition serve :: "rl_request \<Rightarrow> rate_limiter \<Rightarrow> bool \<times> rate_limiter" where
  "serve q = rl_allow (rq_time q) (rq_key q) (rq_cost q)"

text \<open>The cost a key was granted over a sequence of requests, and the limiter after it.\<close>

fun granted :: "string \<Rightarrow> rl_request list \<Rightarrow> rate_limiter \<Rightarrow> rat" where
  "granted k [] l = 0"
| "granted k (q # qs) l =
     (case serve q l of (ok, l') \<Rightarrow> (if ok \<and> rq_key q = k then rq_cost q else 0) + granted k qs l')"

fun serve_all :: "rl_request list \<Rightarrow> rate_limiter \<Rightarrow> rate_limiter" where
  "serve_all [] l = l"
| "serve_all (q # qs) l = serve_all qs (snd (serve q l))"

definition clock_ordered :: "rl_request list \<Rightarrow> bool" where
  "clock_ordered qs \<longleftrightarrow> sorted (map rq_time qs)"

lemma serve_params [simp]:
  "rl_capacity (snd (serve q l)) = rl_capacity l" "rl_refill (snd (serve q l)) = rl_refill l"
  by (simp_all add: serve_def rl_allow_def rl_check_def Let_def)

lemma serve_all_params [simp]:
  "rl_capacity (serve_all qs l) = rl_capacity l" "rl_refill (serve_all qs l) = rl_refill l"
  by (induction qs arbitrary: l) simp_all

lemma serve_ok: "fst (serve q l) \<longleftrightarrow> rq_cost q \<le> bucket l (rq_key q) (rq_time q)"
  by (simp add: serve_def rl_allow_def rl_check_def Let_def)

lemma serve_state: "snd (serve q l) = l\<lparr>rl_state := dset (rq_key q)
    (bucket l (rq_key q) (rq_time q) - (if fst (serve q l) then rq_cost q else 0), rq_time q) (rl_state l)\<rparr>"
  by (simp add: serve_def rl_allow_def rl_check_def Let_def)

lemma bucket_dset: "bucket (l\<lparr>rl_state := dset j (x, u) d\<rparr>) k t =
    (if j = k then min (rl_capacity l) (x + (t - u) * rl_refill l) else bucket (l\<lparr>rl_state := d\<rparr>) k t)"
  by (simp add: bucket_def split: option.split)

lemma serve_other: "rq_key q \<noteq> k \<Longrightarrow> bucket (snd (serve q l)) k t = bucket l k t"
  by (simp add: serve_state bucket_dset)

lemma serve_all_other: "k \<notin> rq_key ` set qs \<Longrightarrow> bucket (serve_all qs l) k t = bucket l k t"
  by (induction qs arbitrary: l) (auto simp: serve_other)

lemma bucket_cap: "bucket l k t \<le> rl_capacity l"
  by (simp add: bucket_def Let_def split: prod.split)

lemma serve_same:
  assumes "rq_key q = k"
  shows "bucket (snd (serve q l)) k t =
    min (rl_capacity l) (bucket l k (rq_time q) - (if fst (serve q l) then rq_cost q else 0)
      + (t - rq_time q) * rl_refill l)"
  using assms by (simp add: serve_state bucket_dset)

lemma bucket_refill:
  assumes "s \<le> t" and "0 \<le> rl_refill l"
  shows "bucket l k t \<le> bucket l k s + (t - s) * rl_refill l"
proof (cases "dget (rl_state l) k")
  case None
  then show ?thesis using assms by (simp add: bucket_def)
next
  case (Some p)
  obtain tok u where p: "p = (tok, u)" by (cases p)
  have "(t - u) * rl_refill l = (s - u) * rl_refill l + (t - s) * rl_refill l"
    by (simp add: algebra_simps)
  moreover have "0 \<le> (t - s) * rl_refill l" using assms by simp
  ultimately show ?thesis by (simp add: bucket_def Some p min_def)
qed

section \<open>The bound\<close>

lemma granted_bound:
  assumes "clock_ordered qs" and "\<forall>q \<in> set qs. 0 \<le> rq_cost q \<and> t \<le> rq_time q" and "0 \<le> rl_refill l"
    and "\<forall>q \<in> set qs. rq_time q \<le> u" and "t \<le> u"
  shows "granted k qs l \<le> bucket l k t + (u - t) * rl_refill l \<or> granted k qs l = 0"
  using assms
proof (induction qs arbitrary: l t)
  case (Cons q qs)
  let ?l = "snd (serve q l)" and ?s = "rq_time q"
  have rest: "granted k qs ?l \<le> bucket ?l k ?s + (u - ?s) * rl_refill l \<or> granted k qs ?l = 0"
    using Cons.IH [of ?s ?l] Cons.prems by (auto simp: clock_ordered_def)
  have fill: "bucket l k ?s \<le> bucket l k t + (?s - t) * rl_refill l"
    using bucket_refill [of t ?s l k] Cons.prems by simp
  have span: "(u - t) * rl_refill l = (?s - t) * rl_refill l + (u - ?s) * rl_refill l"
    by (simp add: algebra_simps)
  have late: "0 \<le> (u - ?s) * rl_refill l" using Cons.prems by simp
  show ?case
  proof (cases "rq_key q = k \<and> fst (serve q l)")
    case True
    then have "bucket ?l k ?s \<le> bucket l k ?s - rq_cost q"
      by (simp add: serve_same min_def)
    moreover have "rq_cost q \<le> bucket l k ?s" using True serve_ok [of q l] by auto
    moreover have "granted k (q # qs) l = rq_cost q + granted k qs ?l"
      using True by (cases "serve q l") simp
    ultimately show ?thesis using rest fill span late by linarith
  next
    case False
    then have g: "granted k (q # qs) l = granted k qs ?l" by (auto split: prod.split)
    have "bucket ?l k ?s \<le> bucket l k ?s"
      using False bucket_cap [of l k ?s] by (cases "rq_key q = k") (simp_all add: serve_same serve_other)
    then show ?thesis using rest fill span g by linarith
  qed
qed simp

text \<open>
  C21. The rate limit holds over every window: whatever the limiter went through before, a sequence of requests
  that come in clock order is granted, per key, at most one burst capacity plus what refills between the
  first and the last of them. The hypotheses: the requests are ordered, their costs, the capacity and the
  refill rate are not negative.
\<close>

theorem rate_limit_bound:
  assumes "clock_ordered qs" and "qs \<noteq> []" and "\<forall>q \<in> set qs. 0 \<le> rq_cost q"
    and "0 \<le> rl_refill l" and "0 \<le> rl_capacity l"
  shows "granted k qs l \<le> rl_capacity l + (rq_time (last qs) - rq_time (hd qs)) * rl_refill l"
proof -
  let ?t = "rq_time (hd qs)" and ?u = "rq_time (last qs)"
  have s: "sorted (map rq_time qs)" using assms(1) by (simp add: clock_ordered_def)
  have lo: "\<forall>q \<in> set qs. ?t \<le> rq_time q" using s assms(2) by (cases qs) auto
  have hi: "\<forall>q \<in> set qs. rq_time q \<le> ?u"
    using s assms(2) by (cases qs rule: rev_cases) (auto simp: sorted_append)
  have "?t \<le> ?u" using lo assms(2) by simp
  then have "granted k qs l \<le> bucket l k ?t + (?u - ?t) * rl_refill l \<or> granted k qs l = 0"
    using granted_bound [OF assms(1) _ assms(4) hi] lo assms(3) by blast
  moreover have "0 \<le> (?u - ?t) * rl_refill l" using \<open>?t \<le> ?u\<close> assms(4) by simp
  ultimately show ?thesis using bucket_cap [of l k ?t] assms(5) by linarith
qed

text \<open>
  The delay of a refusal is exact: after a request was refused with a delay, and whatever other callers do
  meanwhile, the same request is refused at every earlier time and granted from the end of the delay on.
  The hypotheses: the refusal, a positive refill rate, a cost within the capacity, and requests of other keys
  between.
\<close>

theorem retry_after_exact:
  assumes "rl_check now key cost l = (Some delay, l')" and "0 < rl_refill l" and "cost \<le> rl_capacity l"
    and "key \<notin> rq_key ` set others"
  shows "0 < delay \<and> (fst (rl_allow t key cost (serve_all others l')) \<longleftrightarrow> now + delay \<le> t)"
proof -
  have d: "delay = (cost - bucket l key now) / rl_refill l" and low: "bucket l key now < cost"
    and l': "l' = l\<lparr>rl_state := dset key (bucket l key now, now) (rl_state l)\<rparr>"
    using assms(1,2) by (auto simp: rl_check_def Let_def split: if_splits)
  have b: "bucket (serve_all others l') key t = min (rl_capacity l) (bucket l key now + (t - now) * rl_refill l)"
    unfolding serve_all_other [OF assms(4)] by (simp add: l' bucket_dset)
  have "fst (rl_allow t key cost (serve_all others l')) \<longleftrightarrow> cost \<le> bucket (serve_all others l') key t"
    by (simp add: rl_allow_def rl_check_def Let_def)
  also have "\<dots> \<longleftrightarrow> cost - bucket l key now \<le> (t - now) * rl_refill l"
    unfolding b using assms(3) by (auto simp: min_def)
  also have "\<dots> \<longleftrightarrow> now + delay \<le> t"
    unfolding d using assms(2) by (simp add: field_simps)
  finally show ?thesis using low assms(2) by (simp add: d)
qed

definition demo_requests :: "rl_request list" where
  "demo_requests = [\<lparr>rq_time = 0, rq_key = ''a'', rq_cost = 1\<rparr>, \<lparr>rq_time = 0, rq_key = ''a'', rq_cost = 1\<rparr>,
     \<lparr>rq_time = 0, rq_key = ''a'', rq_cost = 1\<rparr>, \<lparr>rq_time = 4, rq_key = ''a'', rq_cost = 1\<rparr>]"

theorem rate_limit_bound_witness:
  "granted ''a'' demo_requests (new_limiter 2 (1 / 4)) \<le> 3 \<and> granted ''a'' demo_requests (new_limiter 2 (1 / 4)) = 3"
proof
  show "granted ''a'' demo_requests (new_limiter 2 (1 / 4)) \<le> 3"
    using rate_limit_bound [of demo_requests "new_limiter 2 (1 / 4)" "''a''"]
    by (simp add: demo_requests_def clock_ordered_def new_limiter_def)
  show "granted ''a'' demo_requests (new_limiter 2 (1 / 4)) = 3"
    by (simp add: demo_requests_def new_limiter_def serve_def rl_allow_def rl_check_def bucket_def Let_def)
qed

theorem retry_after_exact_witness:
  "fst (rl_allow 4 ''a'' 1 (serve_all [] ((new_limiter 1 (1 / 4))\<lparr>rl_state := [(''a'', (0, 0))]\<rparr>)))"
proof -
  have "rl_check 0 ''a'' 1 ((new_limiter 1 (1 / 4))\<lparr>rl_state := [(''a'', (0, 0))]\<rparr>)
      = (Some 4, (new_limiter 1 (1 / 4))\<lparr>rl_state := [(''a'', (0, 0))]\<rparr>)"
    by (simp add: rl_check_def bucket_def new_limiter_def Let_def)
  from retry_after_exact [OF this, of "[]" 4] show ?thesis by (simp add: new_limiter_def)
qed

end
