(* ===== verification/Limit_Ingest.thy ===== *)
theory Limit_Ingest
  imports Ingest_V2 Rollup_Laws
begin

text \<open>
  \<open>services/ingest_v2_meta.py\<close>: the ingest of limit snapshots, appended under per-stream flood control, and
  of historical aggregates, upserted into the daily rollups (\<open>MetaIngestV2Service\<close>; tables
  \<open>limit_snapshots\<close>, \<open>daily_rollups\<close>, \<open>ingest_batches\<close>). A stored timestamp is what the dialect gives back:
  SQLite loses the offset. \<open>max(ts)\<close> orders the stored values, wall clocks on SQLite and instants on
  Postgres. Subtracting a timestamp without a zone from one with a zone raises.
\<close>

datatype dialect = SQLite | Postgres

fun db_store :: "dialect \<Rightarrow> py_datetime \<Rightarrow> raw_datetime" where
  "db_store SQLite t = store_sqlite t"
| "db_store Postgres t = Aware t"

fun stored_order :: "raw_datetime \<Rightarrow> int" where
  "stored_order (Naive wall) = wall"
| "stored_order (Aware t) = dt_instant t"

fun subtract_stored :: "py_datetime \<Rightarrow> raw_datetime \<Rightarrow> rat option" where
  "subtract_stored t (Naive _) = None"
| "subtract_stored t (Aware u) = Some (seconds_between t u)"

record limit_row =
  li_provider :: string
  li_machine :: "string option"
  li_ts :: raw_datetime
  li_window_kind :: string
  li_utilization_pct :: rat
  li_resets_at :: "raw_datetime option"
  li_provenance :: string
  li_account :: "string option"
  li_organization :: "string option"
  li_source_id :: "int option"
  li_limit_amount :: "rat option"
  li_remaining :: "rat option"
  li_unit :: "string option"
  li_raw :: "(string \<times> json) list"

record meta_db =
  md_sources :: source_table
  md_limits :: "limit_row list"
  md_rollups :: "rollup_row list"
  md_batches :: "ingest_batch list"

datatype meta_error = Source_Failure source_error | Type_Error

record meta_call =
  mc_token_label :: "string option"
  mc_request_id :: "string option"
  mc_source_id :: "int option"
  mc_min_interval :: rat
  mc_batch_id :: string
  mc_received_at :: int

section \<open>Limit snapshots\<close>

type_synonym flood_key = "int option \<times> string \<times> string"

definition limit_source ::
  "string option \<Rightarrow> int option \<Rightarrow> limit_snapshot_v2 \<Rightarrow> source_cache \<times> source_table
   \<Rightarrow> source_error + int option \<times> source_cache \<times> source_table" where
  "limit_source token_label source_id s = (\<lambda>(cache, sources).
     case l2_source s of
       None \<Rightarrow> Inr (source_id, cache, sources)
     | Some ref \<Rightarrow>
         (case dget cache (ref_identity ref) of
            Some i \<Rightarrow> Inr (Some i, cache, sources)
          | None \<Rightarrow>
              (case resolve_or_create ref (l2_ts s) (l2_machine s) token_label sources of
                 Inl err \<Rightarrow> Inl err
               | Inr (i, sources') \<Rightarrow> Inr (Some i, dset (ref_identity ref) i cache, sources'))))"

definition flood_key_of :: "limit_row \<Rightarrow> flood_key" where
  "flood_key_of r = (li_source_id r, li_provider r, li_window_kind r)"

definition latest_snapshot_ts :: "limit_row list \<Rightarrow> flood_key \<Rightarrow> raw_datetime option" where
  "latest_snapshot_ts stored key =
     max_by stored_order (map li_ts (filter (\<lambda>r. flood_key_of r = key) stored))"

definition flood_limited ::
  "limit_row list \<Rightarrow> rat \<Rightarrow> int option \<Rightarrow> limit_snapshot_v2 \<Rightarrow> (flood_key, py_datetime) dict
   \<Rightarrow> meta_error + bool \<times> (flood_key, py_datetime) dict" where
  "flood_limited stored interval source_id s last_ts =
     (let key = (source_id, l2_provider s, l2_window_kind s);
          threshold = (case dget last_ts key of
              Some t \<Rightarrow> Some (Aware t)
            | None \<Rightarrow> latest_snapshot_ts stored key);
          accept = Inr (False, dset key (l2_ts s) last_ts)
      in case threshold of
           None \<Rightarrow> accept
         | Some t \<Rightarrow>
             (case subtract_stored (l2_ts s) t of
                None \<Rightarrow> Inl Type_Error
              | Some gap \<Rightarrow> if gap < interval then Inr (True, last_ts) else accept))"

definition source_ref_json :: "source_ref \<Rightarrow> json" where
  "source_ref_json r = JObj [(''type'', JStr (source_type_str (sr_type r))), (''name'', JStr (sr_name r)),
     (''version'', JStr (sr_version r)), (''instance_id'', jopt (sr_instance_id r))]"

definition limit_row_of :: "dialect \<Rightarrow> limit_snapshot_v2 \<Rightarrow> int option \<Rightarrow> limit_row" where
  "limit_row_of dia s source_id =
     \<lparr>li_provider = l2_provider s, li_machine = l2_machine s, li_ts = db_store dia (l2_ts s),
      li_window_kind = l2_window_kind s, li_utilization_pct = l2_utilization_pct s,
      li_resets_at = map_option (db_store dia) (l2_resets_at s), li_provenance = provenance_str (l2_provenance s),
      li_account = l2_account s, li_organization = l2_organization s, li_source_id = source_id,
      li_limit_amount = l2_limit_amount s, li_remaining = l2_remaining s, li_unit = l2_unit s,
      li_raw = (case l2_source s of None \<Rightarrow> [] | Some r \<Rightarrow> [(''source'', source_ref_json r)])\<rparr>"

text \<open>The loop over the snapshots of a batch: the source table, its cache, the flood thresholds, the new rows.\<close>

fun limit_rows ::
  "dialect \<Rightarrow> meta_call \<Rightarrow> limit_row list \<Rightarrow> limit_snapshot_v2 list
   \<Rightarrow> source_cache \<times> source_table \<Rightarrow> (flood_key, py_datetime) dict \<Rightarrow> limit_row list
   \<Rightarrow> meta_error + source_table \<times> limit_row list" where
  "limit_rows dia c stored [] cs last_ts rows = Inr (snd cs, rows)"
| "limit_rows dia c stored (s # ss) cs last_ts rows =
     (case limit_source (mc_token_label c) (mc_source_id c) s cs of
        Inl err \<Rightarrow> Inl (Source_Failure err)
      | Inr (resolved, cs') \<Rightarrow>
          if 0 < mc_min_interval c
          then (case flood_limited stored (mc_min_interval c) resolved s last_ts of
                  Inl err \<Rightarrow> Inl err
                | Inr (True, last_ts') \<Rightarrow> limit_rows dia c stored ss cs' last_ts' rows
                | Inr (False, last_ts') \<Rightarrow> limit_rows dia c stored ss cs' last_ts' (rows @ [limit_row_of dia s resolved]))
          else limit_rows dia c stored ss cs' last_ts (rows @ [limit_row_of dia s resolved]))"

definition record_batch :: "meta_call \<Rightarrow> nat \<Rightarrow> meta_db \<Rightarrow> meta_db" where
  "record_batch c accepted db = db\<lparr>md_batches := md_batches db @
     [\<lparr>ib_batch_id = mc_batch_id c, ib_source_id = mc_source_id c, ib_token_label = mc_token_label c,
       ib_accepted = accepted, ib_updated = 0, ib_duplicate = 0, ib_rejected = 0, ib_corrected = 0,
       ib_schema_version = 2, ib_received_at = mc_received_at c, ib_request_id = mc_request_id c\<rparr>]\<rparr>"

definition ingest_limits ::
  "dialect \<Rightarrow> meta_call \<Rightarrow> limit_snapshot_v2 list \<Rightarrow> meta_db \<Rightarrow> meta_error + (string \<times> nat) \<times> meta_db" where
  "ingest_limits dia c snapshots db =
     (case limit_rows dia c (md_limits db) snapshots ([], md_sources db) [] [] of
        Inl err \<Rightarrow> Inl err
      | Inr (sources, rows) \<Rightarrow>
          Inr ((mc_batch_id c, length rows),
               record_batch c (length rows)
                 (db\<lparr>md_sources := sources, md_limits := md_limits db @ rows\<rparr>)))"

section \<open>Aggregates\<close>

definition import_rollup_row :: "aggregate_import_v2 \<Rightarrow> rollup_row" where
  "import_rollup_row a =
     \<lparr>ro_day = a2_day a,
      ro_grain = \<lparr>rg_provider = a2_provider a, rg_model = a2_native_model a, rg_machine = str_or (a2_machine a) [],
        rg_project = [], rg_source = [], rg_environment = [], rg_billing_mode = ''api_billed''\<rparr>,
      ro_provenance = provenance_str (a2_provenance a),
      ro_tokens = [a2_input_tokens a, a2_output_tokens a, a2_cache_read_tokens a, a2_cache_write_short_tokens a,
        a2_cache_write_long_tokens a, 0, a2_total_tokens a],
      ro_cost_usd = None, ro_cost_priced_usd = None, ro_cost_partial_usd = None, ro_cost_estimated_usd = None,
      ro_unpriced_event_count = 0, ro_subscription_value_usd = None\<rparr>"

definition dedupe_key :: "rollup_row \<Rightarrow> date \<times> string \<times> string \<times> string \<times> string" where
  "dedupe_key q = (ro_day q, rg_provider (ro_grain q), rg_machine (ro_grain q), rg_model (ro_grain q),
     rg_project (ro_grain q))"

definition dedupe_rollup_rows :: "rollup_row list \<Rightarrow> rollup_row list" where
  "dedupe_rollup_rows rows = map snd (fold (\<lambda>q. dset (dedupe_key q) q) rows [])"

definition ingest_aggregates :: "meta_call \<Rightarrow> aggregate_import_v2 list \<Rightarrow> meta_db \<Rightarrow> (string \<times> nat) \<times> meta_db" where
  "ingest_aggregates c aggregates db =
     (let rows = dedupe_rollup_rows (map import_rollup_row aggregates);
          db' = (if rows = [] then db else db\<lparr>md_rollups := daily_rollups_upsert rows (md_rollups db)\<rparr>)
      in ((mc_batch_id c, length aggregates), record_batch c (length aggregates) db'))"

end
