(* ===== verification/Limit_Analytics.thy ===== *)
theory Limit_Analytics
  imports Limit_Ingest
begin

text \<open>
  What the server derives from limit snapshots and token flow: \<open>services/analytics.py\<close> (current limits, burn
  rate, prediction, 5-hour blocks), \<open>services/limit_grouping.py\<close>, \<open>services/limit_forecast.py\<close> and the limit
  rows of \<open>services/live_overview.py\<close>. Floats are rationals; a range query compares the stored order of
  timestamps with UTC bounds; rows of \<open>usage_events\<close> carry their timestamp as \<open>_as_utc\<close> reads it. Adding a
  \<open>timedelta\<close> raises when the result leaves the years 1 to 9999.
\<close>

section \<open>Adding minutes\<close>

definition MIN_WALL :: int where "MIN_WALL = - 62135596800000000"

definition MAX_WALL :: int where "MAX_WALL = 253402300799999999"

datatype overflow_error = Overflow_Error

definition add_minutes :: "py_datetime \<Rightarrow> rat \<Rightarrow> overflow_error + py_datetime" where
  "add_minutes t minutes =
     (let us = round_half_even (minutes * 60000000); wall = dt_instant t + dt_offset t + us
      in if MIN_WALL \<le> wall \<and> wall \<le> MAX_WALL then Inr (t\<lparr>dt_instant := dt_instant t + us\<rparr>)
         else Inl Overflow_Error)"

definition minutes_between :: "py_datetime \<Rightarrow> py_datetime \<Rightarrow> rat" where
  "minutes_between later earlier = seconds_between later earlier / 60"

section \<open>Streams\<close>

record limit_stream_key =
  lk_provider :: string
  lk_window_kind :: string
  lk_account :: "string option"
  lk_organization :: "string option"
  lk_source_id :: "int option"

definition stream_key :: "limit_row \<Rightarrow> limit_stream_key" where
  "stream_key r = \<lparr>lk_provider = li_provider r, lk_window_kind = li_window_kind r, lk_account = li_account r,
     lk_organization = li_organization r, lk_source_id = li_source_id r\<rparr>"

definition group_limit_snapshots :: "limit_row list \<Rightarrow> (limit_stream_key, limit_row list) dict" where
  "group_limit_snapshots rows =
     fold (\<lambda>r d. dset (stream_key r) (dget_or d (stream_key r) [] @ [r]) d) rows []"

datatype confidence = High | Medium | Low | Unavailable

record limit_forecast =
  lf_stream :: limit_stream_key
  lf_utilization_pct :: rat
  lf_slope_pct_per_min :: rat
  lf_predicted_exhaustion_at :: "py_datetime option"
  lf_resets_at :: "py_datetime option"
  lf_will_reset_first :: bool
  lf_sample_count :: nat
  lf_confidence :: confidence

definition confidence_of :: "nat \<Rightarrow> rat \<Rightarrow> confidence" where
  "confidence_of sample_count span_minutes =
     (if sample_count < 2 \<or> span_minutes \<le> 0 then Unavailable
      else if 8 \<le> sample_count \<and> 45 \<le> span_minutes then High
      else if 4 \<le> sample_count \<and> 15 \<le> span_minutes then Medium
      else Low)"

datatype forecast_error = No_Snapshots | Forecast_Overflow

definition predicted_at :: "py_datetime \<Rightarrow> rat \<Rightarrow> rat \<Rightarrow> overflow_error + py_datetime option" where
  "predicted_at last_ts utilization slope =
     (if 0 < slope \<and> utilization < 100
      then case add_minutes last_ts ((100 - utilization) / slope) of Inl e \<Rightarrow> Inl e | Inr t \<Rightarrow> Inr (Some t)
      else Inr None)"

definition forecast_stream :: "limit_row list \<Rightarrow> forecast_error + limit_forecast" where
  "forecast_stream snapshots =
     (if snapshots = [] then Inl No_Snapshots
      else
        let ordered = sort_key (\<lambda>r. dt_instant (raw_as_utc (li_ts r))) snapshots;
            first_row = hd ordered; last_row = last ordered;
            utilization = li_utilization_pct last_row;
            resets_at = map_option raw_as_utc (li_resets_at last_row);
            last_ts = raw_as_utc (li_ts last_row);
            span_minutes = minutes_between last_ts (raw_as_utc (li_ts first_row));
            conf = confidence_of (length ordered) span_minutes;
            base = \<lparr>lf_stream = stream_key first_row, lf_utilization_pct = utilization, lf_slope_pct_per_min = 0,
              lf_predicted_exhaustion_at = None, lf_resets_at = resets_at, lf_will_reset_first = False,
              lf_sample_count = length ordered, lf_confidence = Unavailable\<rparr>
        in if conf = Unavailable then Inr base
           else
             let slope = (utilization - li_utilization_pct first_row) / span_minutes
             in case predicted_at last_ts utilization slope of
                  Inl _ \<Rightarrow> Inl Forecast_Overflow
                | Inr predicted \<Rightarrow> Inr (base\<lparr>lf_slope_pct_per_min := slope, lf_predicted_exhaustion_at := predicted,
                    lf_will_reset_first := (case (predicted, resets_at) of
                       (Some p, Some r) \<Rightarrow> dt_instant r \<le> dt_instant p | _ \<Rightarrow> False),
                    lf_confidence := conf\<rparr>))"

fun collect_results :: "('e + 'a) list \<Rightarrow> 'e + 'a list" where
  "collect_results [] = Inr []"
| "collect_results (r # rs) =
     (case r of Inl e \<Rightarrow> Inl e
      | Inr x \<Rightarrow> (case collect_results rs of Inl e \<Rightarrow> Inl e | Inr xs \<Rightarrow> Inr (x # xs)))"

definition forecast_streams :: "limit_row list \<Rightarrow> forecast_error + limit_forecast list" where
  "forecast_streams rows = collect_results (map (forecast_stream \<circ> snd) (group_limit_snapshots rows))"

section \<open>Current limits and resets\<close>

definition FIVE_HOUR :: string where "FIVE_HOUR = ''five_hour''"

definition BLOCK_LENGTH :: int where "BLOCK_LENGTH = 5 * 3600 * 1000000"

definition WINDOW_PERIOD :: "(string, int) dict" where
  "WINDOW_PERIOD = [(FIVE_HOUR, BLOCK_LENGTH), (''seven_day'', 7 * DAY_US), (''seven_day_opus'', 7 * DAY_US),
     (''seven_day_sonnet'', 7 * DAY_US)]"

definition roll_reset_forward :: "string \<Rightarrow> raw_datetime option \<Rightarrow> py_datetime \<Rightarrow> py_datetime option \<times> bool" where
  "roll_reset_forward window_kind resets_at now =
     (case resets_at of None \<Rightarrow> (None, False)
      | Some r \<Rightarrow>
          let aware = raw_as_utc r
          in case dget WINDOW_PERIOD window_kind of
               None \<Rightarrow> (Some aware, False)
             | Some period \<Rightarrow>
                 if dt_instant now < dt_instant aware then (Some aware, False)
                 else let steps = (dt_instant now - dt_instant aware) div period + 1
                      in (Some (aware\<lparr>dt_instant := dt_instant aware + steps * period\<rparr>), True))"

definition limit_group :: "limit_row \<Rightarrow> string \<times> string" where
  "limit_group r = (li_provider r, li_window_kind r)"

definition current_limits :: "limit_row list \<Rightarrow> limit_row list" where
  "current_limits rows = filter (\<lambda>r. list_all (\<lambda>q. limit_group q = limit_group r \<longrightarrow>
     stored_order (li_ts q) \<le> stored_order (li_ts r)) rows) rows"

definition limits_history :: "limit_row list \<Rightarrow> string \<Rightarrow> int \<Rightarrow> int \<Rightarrow> limit_row list" where
  "limits_history rows window_kind start end' = sort_key (\<lambda>r. stored_order (li_ts r))
     (filter (\<lambda>r. li_window_kind r = window_kind \<and> start \<le> stored_order (li_ts r) \<and> stored_order (li_ts r) \<le> end') rows)"

record prediction =
  pd_window_kind :: string
  pd_utilization_pct :: rat
  pd_slope_pct_per_min :: rat
  pd_predicted_exhaustion_at :: "py_datetime option"
  pd_resets_at :: "py_datetime option"

definition predict_exhaustion ::
  "limit_row list \<Rightarrow> string \<Rightarrow> py_datetime \<Rightarrow> int \<Rightarrow> overflow_error + prediction option" where
  "predict_exhaustion rows window_kind now lookback_minutes =
     (let snapshots = limits_history rows window_kind (dt_instant now - lookback_minutes * 60000000) (dt_instant now)
      in if length snapshots < 2 then Inr None
         else
           let first_row = hd snapshots; last_row = last snapshots;
               last_ts = raw_as_utc (li_ts last_row);
               minutes = minutes_between last_ts (raw_as_utc (li_ts first_row))
           in if minutes \<le> 0 then Inr None
              else
                let slope = (li_utilization_pct last_row - li_utilization_pct first_row) / minutes
                in case predicted_at last_ts (li_utilization_pct last_row) slope of
                     Inl e \<Rightarrow> Inl e
                   | Inr predicted \<Rightarrow> Inr (Some \<lparr>pd_window_kind = window_kind,
                       pd_utilization_pct = li_utilization_pct last_row, pd_slope_pct_per_min = slope,
                       pd_predicted_exhaustion_at = predicted,
                       pd_resets_at = map_option raw_as_utc (li_resets_at last_row)\<rparr>))"

section \<open>Token flow and blocks\<close>

record usage_row = usage_event +
  ur_cost_usd :: "decimal option"
  ur_source :: "string option"

definition row_tokens :: "('a usage_event_scheme) \<Rightarrow> int" where
  "row_tokens e = ue_input_tokens e + ue_output_tokens e + ue_cache_read_tokens e
     + ue_cache_write_short_tokens e + ue_cache_write_long_tokens e"

definition token_burn_rate :: "usage_row list \<Rightarrow> py_datetime \<Rightarrow> int \<Rightarrow> rat" where
  "token_burn_rate events now window_minutes =
     of_int (sum_list (map row_tokens (filter (\<lambda>e. dt_instant now - window_minutes * 60000000 \<le> dt_instant (ue_ts e)) events)))
     / of_int window_minutes"

record usage_block =
  bl_start :: int
  bl_end :: int
  bl_total_tokens :: int
  bl_cost_usd :: "decimal option"
  bl_peak_tokens_per_min :: int
  bl_end_utilization_pct :: "rat option"

definition block_anchor :: "limit_row list \<Rightarrow> int \<Rightarrow> int" where
  "block_anchor limits fallback =
     (case max_by (\<lambda>r. stored_order (li_ts r)) (filter (\<lambda>r. li_window_kind r = FIVE_HOUR \<and> li_resets_at r \<noteq> None) limits) of
        None \<Rightarrow> fallback
      | Some r \<Rightarrow> (case li_resets_at r of None \<Rightarrow> fallback | Some t \<Rightarrow> dt_instant (raw_as_utc t)))"

type_synonym block_entry = "int \<times> int \<times> decimal option"

definition peak_per_minute :: "block_entry list \<Rightarrow> int" where
  "peak_per_minute entries =
     (let per_minute = fold (\<lambda>(t, n, _). dadd (t div 60000000) n) entries []
      in fold (\<lambda>(_, n). max n) per_minute (case per_minute of [] \<Rightarrow> 0 | (_, n) # _ \<Rightarrow> n))"

definition block_index :: "int \<Rightarrow> int \<Rightarrow> int" where
  "block_index anchor t = (t - anchor) div BLOCK_LENGTH"

definition block_buckets :: "int \<Rightarrow> usage_row list \<Rightarrow> (int, block_entry list) dict" where
  "block_buckets anchor rows =
     fold (\<lambda>e d. let i = block_index anchor (dt_instant (ue_ts e))
                 in dset i (dget_or d i [] @ [(dt_instant (ue_ts e), row_tokens e, ur_cost_usd e)]) d) rows []"

definition block_of :: "int \<Rightarrow> rat option \<Rightarrow> int \<Rightarrow> int \<times> block_entry list \<Rightarrow> usage_block" where
  "block_of anchor end_utilization last_index = (\<lambda>(i, entries).
     (let costs = concat (map (\<lambda>(_, _, c). case c of None \<Rightarrow> [] | Some x \<Rightarrow> [x]) entries)
      in \<lparr>bl_start = anchor + i * BLOCK_LENGTH, bl_end = anchor + i * BLOCK_LENGTH + BLOCK_LENGTH,
          bl_total_tokens = sum_list (map (\<lambda>(_, n, _). n) entries),
          bl_cost_usd = (if costs = [] then None else Some (sum_list costs)),
          bl_peak_tokens_per_min = peak_per_minute entries,
          bl_end_utilization_pct = (if i = last_index then end_utilization else None)\<rparr>))"

definition blocks :: "limit_row list \<Rightarrow> usage_row list \<Rightarrow> int \<Rightarrow> int \<Rightarrow> usage_block list" where
  "blocks limits events start end' =
     (let rows = sort_key (\<lambda>e. dt_instant (ue_ts e))
            (filter (\<lambda>e. start \<le> dt_instant (ue_ts e) \<and> dt_instant (ue_ts e) \<le> end') events)
      in case rows of [] \<Rightarrow> []
         | e # _ \<Rightarrow>
             let anchor = block_anchor limits (dt_instant (ue_ts e));
                 buckets = block_buckets anchor rows;
                 end_utilization = first_some (\<lambda>r. if li_window_kind r = FIVE_HOUR then Some (li_utilization_pct r) else None)
                   (current_limits limits);
                 indices = sort (dkeys buckets)
             in map (\<lambda>i. block_of anchor end_utilization (last indices) (i, dget_or buckets i [])) indices)"

section \<open>Live limits\<close>

record provider_limit_live =
  pl_provider :: string
  pl_window_kind :: string
  pl_utilization_pct :: rat
  pl_limit_amount :: "rat option"
  pl_remaining :: "rat option"
  pl_unit :: "string option"
  pl_resets_at :: "py_datetime option"
  pl_predicted_exhaustion_at :: "py_datetime option"

definition TOKEN_UNITS :: "string option list" where
  "TOKEN_UNITS = [None, Some ''tokens'', Some ''token'']"

definition limit_live :: "limit_row \<Rightarrow> rat \<Rightarrow> py_datetime \<Rightarrow> overflow_error + provider_limit_live" where
  "limit_live s burn_per_min now =
     (let resets_at = fst (roll_reset_forward (li_window_kind s) (li_resets_at s) now);
          result = (\<lambda>predicted. \<lparr>pl_provider = li_provider s, pl_window_kind = li_window_kind s,
            pl_utilization_pct = li_utilization_pct s, pl_limit_amount = li_limit_amount s,
            pl_remaining = li_remaining s, pl_unit = li_unit s, pl_resets_at = resets_at,
            pl_predicted_exhaustion_at = predicted\<rparr>)
      in case li_remaining s of
           None \<Rightarrow> Inr (result None)
         | Some remaining \<Rightarrow>
             if 0 < burn_per_min \<and> li_unit s \<in> set TOKEN_UNITS
             then case add_minutes now (remaining / burn_per_min) of
                    Inl e \<Rightarrow> Inl e
                  | Inr candidate \<Rightarrow>
                      Inr (result (if (case resets_at of None \<Rightarrow> True | Some r \<Rightarrow> dt_instant candidate \<le> dt_instant r)
                                   then Some candidate else None))
             else Inr (result None))"

end
