(* ===== verification/Registries.thy ===== *)
theory Registries
  imports Registry Data_Quality Limit_Analytics
begin

text \<open>
  The provider and model registries of the server: \<open>services/registries.py\<close> (\<open>seed_default_providers\<close>,
  \<open>ProviderRegistryService\<close>, \<open>ModelRegistryService\<close>; tables \<open>providers\<close>, \<open>models\<close>) and
  \<open>services/registry_backfill.py\<close>. A query without an order lists rows in insertion order. The clock is a
  parameter.
\<close>

section \<open>Providers\<close>

record provider_row =
  pv_id :: string
  pv_display_name :: string
  pv_aliases :: "string list"
  pv_pricing_strategy :: string
  pv_limit_semantics :: string
  pv_supported_dimensions :: "string list"
  pv_windows :: "window_descriptor list"
  pv_registered :: bool
  pv_created_at :: int
  pv_updated_at :: int

definition SEED_BY_ID :: "(string, provider_descriptor) dict" where
  "SEED_BY_ID = map (\<lambda>d. (pd_id d, d)) SEED_PROVIDER_DESCRIPTORS"

definition provider_row_of :: "provider_descriptor \<Rightarrow> bool \<Rightarrow> int \<Rightarrow> provider_row" where
  "provider_row_of d registered now =
     \<lparr>pv_id = pd_id d, pv_display_name = pd_display_name d, pv_aliases = pd_aliases d,
      pv_pricing_strategy = pd_pricing_strategy d, pv_limit_semantics = pd_limit_semantics d,
      pv_supported_dimensions = pd_supported_dimensions d, pv_windows = pd_windows d,
      pv_registered = registered, pv_created_at = now, pv_updated_at = now\<rparr>"

definition unknown_provider :: "string \<Rightarrow> int \<Rightarrow> provider_row" where
  "unknown_provider i now =
     \<lparr>pv_id = i, pv_display_name = i, pv_aliases = [], pv_pricing_strategy = [], pv_limit_semantics = ''none'',
      pv_supported_dimensions = [], pv_windows = [], pv_registered = False, pv_created_at = now, pv_updated_at = now\<rparr>"

definition provider_ids :: "provider_row list \<Rightarrow> string list" where
  "provider_ids rows = map pv_id rows"

definition ensure_row :: "provider_row \<Rightarrow> provider_row list \<Rightarrow> provider_row list" where
  "ensure_row r rows = (if pv_id r \<in> set (provider_ids rows) then rows else rows @ [r])"

definition seed_provider :: "int \<Rightarrow> provider_descriptor \<Rightarrow> nat \<times> provider_row list \<Rightarrow> nat \<times> provider_row list" where
  "seed_provider now d = (\<lambda>(inserted, rows).
     if pd_id d \<notin> set (provider_ids rows) then (inserted + 1, rows @ [provider_row_of d True now])
     else (inserted, map (\<lambda>r. if pv_id r = pd_id d \<and> pd_windows d \<noteq> [] \<and> pv_windows r = []
             then r\<lparr>pv_windows := pd_windows d, pv_updated_at := now\<rparr> else r) rows))"

definition seed_default_providers :: "int \<Rightarrow> provider_row list \<Rightarrow> nat \<times> provider_row list" where
  "seed_default_providers now rows = fold (seed_provider now) SEED_PROVIDER_DESCRIPTORS (0, rows)"

record provider_service =
  ps_loaded :: bool
  ps_alias_to_id :: "(string, string) dict"
  ps_registered :: "string set"

definition new_provider_service :: provider_service where
  "new_provider_service = \<lparr>ps_loaded = False, ps_alias_to_id = [], ps_registered = {}\<rparr>"

definition index_provider :: "string \<Rightarrow> string list \<Rightarrow> bool \<Rightarrow> provider_service \<Rightarrow> provider_service" where
  "index_provider i aliases registered s =
     s\<lparr>ps_alias_to_id := fold (\<lambda>a d. dset a i d) aliases (dset i i (ps_alias_to_id s)),
       ps_registered := (if registered then insert i (ps_registered s) else ps_registered s)\<rparr>"

definition ensure_loaded :: "provider_row list \<Rightarrow> provider_service \<Rightarrow> provider_service" where
  "ensure_loaded rows s =
     (if ps_loaded s then s
      else (fold (\<lambda>r. index_provider (pv_id r) (pv_aliases r) (pv_registered r)) rows s)\<lparr>ps_loaded := True\<rparr>)"

definition ps_normalize :: "string \<Rightarrow> provider_row list \<Rightarrow> provider_service \<Rightarrow> string \<times> provider_service" where
  "ps_normalize raw rows s =
     (let s = ensure_loaded rows s; cleaned = str_lower (str_strip raw)
      in (case dget (ps_alias_to_id s) cleaned of Some i \<Rightarrow> i | None \<Rightarrow> normalize_provider cleaned, s))"

record provider_resolution =
  rn_provider :: string
  rn_accepted :: bool
  rn_registered :: bool

definition resolve_provider_row ::
  "string \<Rightarrow> string \<Rightarrow> int \<Rightarrow> provider_service \<times> provider_row list
   \<Rightarrow> provider_resolution \<times> provider_service \<times> provider_row list" where
  "resolve_provider_row raw policy now = (\<lambda>(s, rows).
     (let (canonical, s) = ps_normalize raw rows s
      in if canonical \<in> ps_registered s
         then (\<lparr>rn_provider = canonical, rn_accepted = True, rn_registered = True\<rparr>, s, rows)
         else case dget SEED_BY_ID canonical of
           Some seed \<Rightarrow>
             (\<lparr>rn_provider = canonical, rn_accepted = True, rn_registered = True\<rparr>,
              index_provider (pd_id seed) (pd_aliases seed) True s, ensure_row (provider_row_of seed True now) rows)
         | None \<Rightarrow>
             if policy = ''reject''
             then (\<lparr>rn_provider = canonical, rn_accepted = False, rn_registered = False\<rparr>, s, rows)
             else (\<lparr>rn_provider = canonical, rn_accepted = True, rn_registered = False\<rparr>,
                   index_provider canonical [] False s, ensure_row (unknown_provider canonical now) rows)))"

section \<open>Models\<close>

record model_row =
  mo_provider :: string
  mo_native_model_id :: string
  mo_lifecycle :: string
  mo_capabilities :: "(string \<times> json) list"
  mo_first_seen :: "raw_datetime option"
  mo_last_seen :: "raw_datetime option"

definition model_key :: "model_row \<Rightarrow> string \<times> string" where
  "model_key r = (mo_provider r, mo_native_model_id r)"

definition get_model :: "string \<times> string \<Rightarrow> model_row list \<Rightarrow> model_row option" where
  "get_model k rows = find (\<lambda>r. model_key r = k) rows"

definition update_model :: "string \<times> string \<Rightarrow> (model_row \<Rightarrow> model_row) \<Rightarrow> model_row list \<Rightarrow> model_row list" where
  "update_model k f rows = map (\<lambda>r. if model_key r = k then f r else r) rows"

definition new_model :: "string \<Rightarrow> string \<Rightarrow> string \<Rightarrow> raw_datetime option \<Rightarrow> raw_datetime option \<Rightarrow> model_row" where
  "new_model provider native_model lifecycle first_seen last_seen =
     \<lparr>mo_provider = provider, mo_native_model_id = native_model, mo_lifecycle = lifecycle, mo_capabilities = [],
      mo_first_seen = first_seen, mo_last_seen = last_seen\<rparr>"

record model_observation =
  ob_newly_observed :: bool
  ob_lifecycle :: string

definition raw_instant :: "raw_datetime \<Rightarrow> int" where
  "raw_instant r = dt_instant (raw_as_utc r)"

definition advance_last_seen :: "raw_datetime option \<Rightarrow> model_row \<Rightarrow> model_row" where
  "advance_last_seen ts r =
     (case ts of None \<Rightarrow> r
      | Some t \<Rightarrow>
          if (case mo_last_seen r of None \<Rightarrow> True | Some l \<Rightarrow> raw_instant l < raw_instant t)
          then r\<lparr>mo_last_seen := ts\<rparr> else r)"

definition observe_model ::
  "string \<Rightarrow> string \<Rightarrow> raw_datetime option \<Rightarrow> model_row list \<Rightarrow> model_observation \<times> model_row list" where
  "observe_model provider native_model ts rows =
     (case get_model (provider, native_model) rows of
        None \<Rightarrow> (\<lparr>ob_newly_observed = True, ob_lifecycle = ''unknown''\<rparr>,
                 rows @ [new_model provider native_model ''unknown'' ts ts])
      | Some r \<Rightarrow> (\<lparr>ob_newly_observed = False, ob_lifecycle = mo_lifecycle r\<rparr>,
                   update_model (provider, native_model) (advance_last_seen ts) rows))"

section \<open>The historical backfill\<close>

definition BACKFILL_MARKER_KEY :: string where "BACKFILL_MARKER_KEY = ''registry_backfill_done''"

definition is_known_claude_model :: "string \<Rightarrow> string \<Rightarrow> bool" where
  "is_known_claude_model provider native_model \<longleftrightarrow>
     provider = ''anthropic'' \<and> take 6 (str_lower native_model) = ''claude''"

definition min_ts :: "raw_datetime option \<Rightarrow> raw_datetime option \<Rightarrow> raw_datetime option" where
  "min_ts a b = (case a of None \<Rightarrow> b | Some x \<Rightarrow>
     (case b of None \<Rightarrow> a | Some y \<Rightarrow> if raw_instant x \<le> raw_instant y then a else b))"

definition max_ts :: "raw_datetime option \<Rightarrow> raw_datetime option \<Rightarrow> raw_datetime option" where
  "max_ts a b = (case a of None \<Rightarrow> b | Some x \<Rightarrow>
     (case b of None \<Rightarrow> a | Some y \<Rightarrow> if raw_instant y \<le> raw_instant x then a else b))"

definition extend_model :: "string \<Rightarrow> raw_datetime option \<Rightarrow> raw_datetime option \<Rightarrow> model_row \<Rightarrow> model_row" where
  "extend_model lifecycle first_seen last_seen r =
     r\<lparr>mo_first_seen := min_ts (mo_first_seen r) first_seen, mo_last_seen := max_ts (mo_last_seen r) last_seen,
       mo_lifecycle := (if lifecycle = ''active'' \<and> mo_lifecycle r = ''unknown'' then ''active'' else mo_lifecycle r)\<rparr>"

definition upsert_model ::
  "string \<Rightarrow> string \<Rightarrow> string \<Rightarrow> raw_datetime option \<Rightarrow> raw_datetime option \<Rightarrow> model_row list \<Rightarrow> model_row list" where
  "upsert_model provider native_model lifecycle first_seen last_seen rows =
     (if get_model (provider, native_model) rows = None
      then rows @ [new_model provider native_model lifecycle first_seen last_seen]
      else update_model (provider, native_model) (extend_model lifecycle first_seen last_seen) rows)"

text \<open>\<open>GROUP BY provider, model\<close> with the least and greatest timestamp.\<close>

definition usage_model_key :: "usage_row \<Rightarrow> string \<times> string" where
  "usage_model_key e = (ue_provider e, ue_native_model e)"

definition usage_models :: "usage_row list \<Rightarrow> ((string \<times> string) \<times> int \<times> int) list" where
  "usage_models events =
     map (\<lambda>k. let ts = map (\<lambda>e. dt_instant (ue_ts e)) (filter (\<lambda>e. usage_model_key e = k) events)
              in (k, Min (set ts), Max (set ts)))
       (remdups (map usage_model_key events))"

record registry_db =
  rb_providers :: "provider_row list"
  rb_models :: "model_row list"
  rb_dq :: dq_table
  rb_settings :: "(string, string) dict"

record backfill_result =
  bf_skipped :: bool
  bf_providers :: nat
  bf_models_active :: nat
  bf_models_unknown :: nat

definition backfill_providers :: "string list \<Rightarrow> int \<Rightarrow> provider_row list \<Rightarrow> provider_row list" where
  "backfill_providers names now rows =
     snd (fold (\<lambda>p st. snd (resolve_provider_row p ''accept'' now st)) (sorted_list_of_set (set names))
            (new_provider_service, rows))"

definition backfill_model :: "(string \<times> string) \<times> int \<times> int \<Rightarrow> model_row list \<times> dq_table \<Rightarrow> model_row list \<times> dq_table" where
  "backfill_model = (\<lambda>((provider, native_model), first_seen, last_seen) (rows, dq).
     (let known = is_known_claude_model provider native_model
      in (upsert_model provider native_model (if known then ''active'' else ''unknown'')
            (Some (Aware (as_utc_dt first_seen))) (Some (Aware (as_utc_dt last_seen))) rows,
          if known then dq
          else dq_record_safe ''unknown_model'' (provider @ ''/'' @ native_model) last_seen
            (Some [(''provider'', JStr provider), (''native_model'', JStr native_model), (''source'', JStr ''backfill'')])
            None dq)))"

definition registry_backfill ::
  "(int \<Rightarrow> string) \<Rightarrow> bool \<Rightarrow> int \<Rightarrow> usage_row list \<Rightarrow> limit_row list \<Rightarrow> registry_db \<Rightarrow> backfill_result \<times> registry_db" where
  "registry_backfill isof force now events limits db =
     (if \<not> force \<and> dget (rb_settings db) BACKFILL_MARKER_KEY \<noteq> None
      then (\<lparr>bf_skipped = True, bf_providers = 0, bf_models_active = 0, bf_models_unknown = 0\<rparr>, db)
      else
        let names = map ue_provider events @ map li_provider limits;
            rows = usage_models events;
            known = filter (\<lambda>(k, _). is_known_claude_model (fst k) (snd k)) rows;
            (models, dq) = fold backfill_model rows (rb_models db, rb_dq db)
        in (\<lparr>bf_skipped = False, bf_providers = card (set names), bf_models_active = length known,
             bf_models_unknown = length rows - length known\<rparr>,
            db\<lparr>rb_providers := backfill_providers names now (rb_providers db), rb_models := models, rb_dq := dq,
               rb_settings := dset BACKFILL_MARKER_KEY (isof now) (rb_settings db)\<rparr>))"

section \<open>The provider registry only grows\<close>

definition provider_inv :: "provider_row list \<Rightarrow> bool" where
  "provider_inv rows \<longleftrightarrow> distinct (provider_ids rows)"

lemma ensure_row_props:
  "provider_inv rows \<Longrightarrow> provider_inv (ensure_row r rows)"
  "\<exists>new. ensure_row r rows = rows @ new" "pv_id r \<in> set (provider_ids (ensure_row r rows))"
  by (auto simp: ensure_row_def provider_inv_def provider_ids_def)

lemma seed_by_id: "dget SEED_BY_ID i = Some d \<Longrightarrow> pd_id d = i"
  by (auto simp: SEED_BY_ID_def dest!: map_of_SomeD)

text \<open>What the memory of the service may claim: every id it maps to or holds as registered has a row.\<close>

definition service_ok :: "provider_service \<Rightarrow> provider_row list \<Rightarrow> bool" where
  "service_ok s rows \<longleftrightarrow> (ps_loaded s \<longrightarrow>
     (\<forall>i \<in> ran (dget (ps_alias_to_id s)). i \<in> set (provider_ids rows)) \<and> ps_registered s \<subseteq> set (provider_ids rows))
   \<and> (\<not> ps_loaded s \<longrightarrow> ps_alias_to_id s = [] \<and> ps_registered s = {})"

lemma ran_index:
  "ran (dget (ps_alias_to_id (index_provider i aliases registered s))) \<subseteq> insert i (ran (dget (ps_alias_to_id s)))"
proof -
  have "ran (dget (fold (\<lambda>a d. dset a i d) aliases d)) \<subseteq> insert i (ran (dget d))" for d
  proof (induction aliases arbitrary: d)
    case (Cons a aliases)
    have "ran (dget (dset a i d)) \<subseteq> insert i (ran (dget d))" by (auto simp: ran_def split: if_splits)
    then show ?case using Cons.IH [of "dset a i d"] by auto
  qed auto
  from this [of "dset i i (ps_alias_to_id s)"]
  have "ran (dget (ps_alias_to_id (index_provider i aliases registered s))) \<subseteq> insert i (ran (dget (dset i i (ps_alias_to_id s))))"
    by (simp add: index_provider_def)
  also have "\<dots> \<subseteq> insert i (ran (dget (ps_alias_to_id s)))" by (auto simp: ran_def split: if_splits)
  finally show ?thesis .
qed

lemma index_registered [simp]:
  "ps_registered (index_provider i aliases registered s) = (if registered then insert i (ps_registered s) else ps_registered s)"
  "ps_loaded (index_provider i aliases registered s) = ps_loaded s"
  by (simp_all add: index_provider_def)

lemma load_rows:
  "ran (dget (ps_alias_to_id (fold (\<lambda>r. index_provider (pv_id r) (pv_aliases r) (pv_registered r)) rows s)))
     \<subseteq> set (provider_ids rows) \<union> ran (dget (ps_alias_to_id s))
   \<and> ps_registered (fold (\<lambda>r. index_provider (pv_id r) (pv_aliases r) (pv_registered r)) rows s)
     = ps_registered s \<union> pv_id ` {r \<in> set rows. pv_registered r}"
proof (induction rows arbitrary: s)
  case (Cons r rows)
  let ?s = "index_provider (pv_id r) (pv_aliases r) (pv_registered r) s"
  show ?case using Cons.IH [of ?s] ran_index [of "pv_id r" "pv_aliases r" "pv_registered r" s]
    by (auto simp: provider_ids_def)
qed (simp add: provider_ids_def)

lemma ensure_loaded_ok:
  assumes "service_ok s rows"
  shows "service_ok (ensure_loaded rows s) rows \<and> ps_loaded (ensure_loaded rows s)"
proof (cases "ps_loaded s")
  case False
  then have e: "ps_alias_to_id s = []" "ps_registered s = {}" using assms by (simp_all add: service_ok_def)
  show ?thesis using False load_rows [of rows s] e
    by (auto simp: ensure_loaded_def service_ok_def provider_ids_def)
qed (use assms in \<open>simp add: ensure_loaded_def\<close>)

lemma index_get:
  "dget (ps_alias_to_id (index_provider i aliases registered s)) x = dget (ps_alias_to_id s) x
   \<or> dget (ps_alias_to_id (index_provider i aliases registered s)) x = Some i"
proof -
  have "dget (fold (\<lambda>a d. dset a i d) aliases d) x = dget d x \<or> dget (fold (\<lambda>a d. dset a i d) aliases d) x = Some i" for d
  proof (induction aliases arbitrary: d)
    case (Cons a aliases)
    then show ?case using Cons.IH [of "dset a i d"] by auto
  qed simp
  from this [of "dset i i (ps_alias_to_id s)"] show ?thesis by (auto simp: index_provider_def)
qed

lemma dset_same: "dget d k = Some v \<Longrightarrow> dset k v d = d"
  by (induction d) (auto split: if_splits)

lemma index_ok:
  assumes "service_ok s rows" and "ps_loaded s" and "i \<in> set (provider_ids rows')"
    and "set (provider_ids rows) \<subseteq> set (provider_ids rows')"
  shows "service_ok (index_provider i aliases registered s) rows'"
proof -
  have "ran (dget (ps_alias_to_id (index_provider i aliases registered s))) \<subseteq> insert i (ran (dget (ps_alias_to_id s)))"
    by (rule ran_index)
  also have "\<dots> \<subseteq> set (provider_ids rows')" using assms by (auto simp: service_ok_def)
  finally show ?thesis using assms unfolding service_ok_def index_registered by auto
qed

lemma resolve_provider_ok:
  assumes "provider_inv rows" and "service_ok s rows"
    and "resolve_provider_row raw policy now (s, rows) = (res, s', rows')"
  shows "provider_inv rows' \<and> service_ok s' rows' \<and> ps_loaded s'
    \<and> (\<exists>new. rows' = rows @ new \<and> length new \<le> 1)
    \<and> (rn_accepted res \<longrightarrow> rn_provider res \<in> set (provider_ids rows'))
    \<and> (\<not> rn_accepted res \<longrightarrow> rows' = rows \<and> policy = ''reject'' \<and> \<not> rn_registered res)
    \<and> resolve_provider_row raw policy now' (s', rows') = (res, s', rows')"
proof -
  let ?cleaned = "str_lower (str_strip raw)"
  define s1 where "s1 = ensure_loaded rows s"
  define i where "i = (case dget (ps_alias_to_id s1) ?cleaned of Some j \<Rightarrow> j | None \<Rightarrow> normalize_provider ?cleaned)"
  have norm: "ps_normalize raw rows s = (i, s1)" by (simp add: ps_normalize_def Let_def s1_def i_def)
  have s1: "service_ok s1 rows" "ps_loaded s1" using ensure_loaded_ok [OF assms(2)] by (simp_all add: s1_def)
  have again: "ps_normalize raw q t = (i, t)"
    if "ps_loaded t" "\<And>x. dget (ps_alias_to_id t) x = dget (ps_alias_to_id s1) x \<or> dget (ps_alias_to_id t) x = Some i" for q t
    using that(1) that(2) [of ?cleaned] by (auto simp: ps_normalize_def ensure_loaded_def Let_def i_def split: option.splits)
  consider (reg) "i \<in> ps_registered s1" | (seed) d where "i \<notin> ps_registered s1" "dget SEED_BY_ID i = Some d"
    | (reject) "i \<notin> ps_registered s1" "dget SEED_BY_ID i = None" "policy = ''reject''"
    | (unknown) "i \<notin> ps_registered s1" "dget SEED_BY_ID i = None" "policy \<noteq> ''reject''" by (cases "dget SEED_BY_ID i") auto
  then show ?thesis
  proof cases
    case reg
    then have r: "res = \<lparr>rn_provider = i, rn_accepted = True, rn_registered = True\<rparr>" "s' = s1" "rows' = rows"
      using assms(3) by (simp_all add: resolve_provider_row_def norm)
    moreover have "i \<in> set (provider_ids rows)" using s1 reg by (auto simp: service_ok_def)
    ultimately show ?thesis using assms(1) s1 reg again [of s1] by (simp add: resolve_provider_row_def)
  next
    case reject
    then have r: "res = \<lparr>rn_provider = i, rn_accepted = False, rn_registered = False\<rparr>" "s' = s1" "rows' = rows"
      using assms(3) by (simp_all add: resolve_provider_row_def norm)
    then show ?thesis using assms(1) s1 reject again [of s1] by (simp add: resolve_provider_row_def)
  next
    case seed
    let ?row = "provider_row_of d True now"
    have i: "pd_id d = i" using seed(2) by (rule seed_by_id)
    have r: "res = \<lparr>rn_provider = i, rn_accepted = True, rn_registered = True\<rparr>"
        "s' = index_provider i (pd_aliases d) True s1" "rows' = ensure_row ?row rows"
      using assms(3) seed by (simp_all add: resolve_provider_row_def norm i)
    have id: "i \<in> set (provider_ids rows')" using ensure_row_props(3) [of ?row rows] r(3) i by (simp add: provider_row_of_def)
    have new: "\<exists>new. rows' = rows @ new \<and> length new \<le> 1" by (auto simp: r(3) ensure_row_def)
    have ok: "service_ok s' rows'"
      unfolding r(2) by (rule index_ok [OF s1 id]) (use new in \<open>auto simp: provider_ids_def\<close>)
    have ld: "ps_loaded s'" and reg: "i \<in> ps_registered s'" using s1 by (simp_all add: r(2))
    have "ps_normalize raw rows' s' = (i, s')"
      by (rule again [OF ld]) (use index_get [of i "pd_aliases d" True s1] in \<open>simp add: r(2)\<close>)
    then show ?thesis using assms(1) ok id new ld reg ensure_row_props(1) [of rows ?row]
      by (simp add: r(1) resolve_provider_row_def) (simp add: r(3))
  next
    case unknown
    let ?row = "unknown_provider i now"
    have r: "res = \<lparr>rn_provider = i, rn_accepted = True, rn_registered = False\<rparr>"
        "s' = index_provider i [] False s1" "rows' = ensure_row ?row rows"
      using assms(3) unknown by (simp_all add: resolve_provider_row_def norm)
    have id: "i \<in> set (provider_ids rows')" using ensure_row_props(3) [of ?row rows] r(3) by (simp add: unknown_provider_def)
    have new: "\<exists>new. rows' = rows @ new \<and> length new \<le> 1" by (auto simp: r(3) ensure_row_def)
    have ok: "service_ok s' rows'"
      unfolding r(2) by (rule index_ok [OF s1 id]) (use new in \<open>auto simp: provider_ids_def\<close>)
    have ld: "ps_loaded s'" and reg: "i \<notin> ps_registered s'" using s1 unknown by (simp_all add: r(2))
    have n: "ps_normalize raw rows' s' = (i, s')"
      by (rule again [OF ld]) (use index_get [of i "[]" False s1] in \<open>simp add: r(2)\<close>)
    have same: "index_provider i [] False s' = s'"
      by (simp add: r(2) index_provider_def dset_same)
    have "ensure_row (unknown_provider i now') rows' = rows'" using id by (simp add: ensure_row_def unknown_provider_def)
    then show ?thesis using assms(1) ok id new ld reg n same unknown ensure_row_props(1) [of rows ?row]
      by (simp add: r(1) resolve_provider_row_def) (simp add: r(3))
  qed
qed

text \<open>
  Provider resolution is stable and only adds: resolving a raw name keeps the ids of the table unique and
  every stored row as it was, adds at most one row, and leaves a row for the canonical id whenever it accepts;
  it refuses only under the reject policy and then stores nothing; and resolving the same name again at any
  later time gives the same answer and changes neither the table nor the memory. The hypotheses: unique ids,
  and the memory of the service agrees with the table, as it does when the service is new.
\<close>

theorem provider_resolution_stable:
  assumes "provider_inv rows" and "service_ok s rows"
    and "resolve_provider_row raw policy now (s, rows) = (res, s', rows')"
  shows "provider_inv rows' \<and> service_ok s' rows'
    \<and> (\<exists>new. rows' = rows @ new \<and> length new \<le> 1)
    \<and> (rn_accepted res \<longrightarrow> rn_provider res \<in> set (provider_ids rows'))
    \<and> (\<not> rn_accepted res \<longrightarrow> rows' = rows \<and> policy = ''reject'' \<and> \<not> rn_registered res)
    \<and> resolve_provider_row raw policy now' (s', rows') = (res, s', rows')"
  using resolve_provider_ok [OF assms] by blast

lemma backfill_providers_ok:
  assumes "provider_inv rows"
  shows "provider_inv (backfill_providers names now rows) \<and> (\<exists>new. backfill_providers names now rows = rows @ new)"
proof -
  have "provider_inv (snd (fold (\<lambda>p st. snd (resolve_provider_row p ''accept'' now st)) ps (s, rows)))
      \<and> (\<exists>new. snd (fold (\<lambda>p st. snd (resolve_provider_row p ''accept'' now st)) ps (s, rows)) = rows @ new)"
    if "provider_inv rows" "service_ok s rows" for ps s rows
    using that
  proof (induction ps arbitrary: s rows)
    case (Cons p ps)
    obtain res s' rows' where r: "resolve_provider_row p ''accept'' now (s, rows) = (res, s', rows')"
      by (cases "resolve_provider_row p ''accept'' now (s, rows)")
    note ok = resolve_provider_ok [OF Cons.prems r]
    then obtain new where new: "rows' = rows @ new" by blast
    from Cons.IH [of rows' s'] ok show ?case by (auto simp: r new)
  qed simp
  from this [OF assms, of new_provider_service] show ?thesis
    unfolding backfill_providers_def by (simp add: service_ok_def new_provider_service_def)
qed

section \<open>The backfill covers the usage\<close>

definition covers :: "model_row list \<Rightarrow> string \<times> string \<Rightarrow> int \<Rightarrow> int \<Rightarrow> bool" where
  "covers rows k lo hi \<longleftrightarrow> (\<exists>r \<in> set rows. model_key r = k \<and>
     (\<exists>f l. mo_first_seen r = Some f \<and> raw_instant f \<le> lo \<and> mo_last_seen r = Some l \<and> hi \<le> raw_instant l))"

definition keeps_model :: "model_row \<Rightarrow> model_row \<Rightarrow> bool" where
  "keeps_model r r' \<longleftrightarrow> model_key r' = model_key r \<and> mo_capabilities r' = mo_capabilities r
     \<and> (mo_lifecycle r' = mo_lifecycle r \<or> mo_lifecycle r = ''unknown'' \<and> mo_lifecycle r' = ''active''
          \<and> is_known_claude_model (mo_provider r) (mo_native_model_id r))"

lemma raw_instant_utc [simp]: "raw_instant (Aware (as_utc_dt t)) = t"
  by (simp add: raw_instant_def raw_as_utc_def as_utc_dt_def)

lemma extend_covers:
  "\<exists>f l. mo_first_seen (extend_model lc (Some (Aware (as_utc_dt lo))) (Some (Aware (as_utc_dt hi))) r) = Some f
     \<and> raw_instant f \<le> lo
     \<and> mo_last_seen (extend_model lc (Some (Aware (as_utc_dt lo))) (Some (Aware (as_utc_dt hi))) r) = Some l
     \<and> hi \<le> raw_instant l"
  by (auto simp: extend_model_def min_ts_def max_ts_def split: option.split)

lemma extend_key [simp]: "model_key (extend_model lc a b r) = model_key r"
  by (simp add: extend_model_def model_key_def)

lemma get_model_None: "get_model k rows = None \<longleftrightarrow> k \<notin> model_key ` set rows"
  by (auto simp: get_model_def find_None_iff)

lemma upsert_model_covers:
  "covers (upsert_model p m lc (Some (Aware (as_utc_dt lo))) (Some (Aware (as_utc_dt hi))) rows) (p, m) lo hi"
proof (cases "get_model (p, m) rows")
  case None
  then show ?thesis by (simp add: upsert_model_def covers_def new_model_def model_key_def)
next
  case (Some q)
  then obtain r where r: "r \<in> set rows" "model_key r = (p, m)"
    using get_model_None [of "(p, m)" rows] by auto
  let ?f = "extend_model lc (Some (Aware (as_utc_dt lo))) (Some (Aware (as_utc_dt hi)))"
  have "?f r \<in> set (update_model (p, m) ?f rows)"
    unfolding update_model_def set_map by (rule image_eqI [OF _ r(1)]) (simp add: r(2))
  moreover have "model_key (?f r) = (p, m)" by (simp add: r(2))
  ultimately show ?thesis using Some extend_covers [of lc lo hi r]
    unfolding upsert_model_def covers_def by (simp only: option.distinct if_False) blast
qed

lemma new_model_key [simp]: "model_key (new_model p m lc a b) = (p, m)"
  by (simp add: new_model_def model_key_def)

lemma upsert_model_rows:
  "k \<noteq> (p, m) \<Longrightarrow> r \<in> set (upsert_model p m lc a b rows) \<and> model_key r = k \<longleftrightarrow> r \<in> set rows \<and> model_key r = k"
  by (auto simp: upsert_model_def update_model_def)

lemma upsert_model_other: "k \<noteq> (p, m) \<Longrightarrow> covers (upsert_model p m lc a b rows) k lo hi \<longleftrightarrow> covers rows k lo hi"
  unfolding covers_def using upsert_model_rows [of k p m _ lc a b rows] by blast

lemma upsert_model_keeps:
  assumes "lc = ''active'' \<longrightarrow> is_known_claude_model p m"
  shows "\<exists>f added. upsert_model p m lc a b rows = map f rows @ added \<and> (\<forall>r. keeps_model r (f r))"
proof (cases "get_model (p, m) rows")
  case None
  then show ?thesis by (intro exI [of _ id]) (simp add: upsert_model_def keeps_model_def)
next
  case (Some q)
  let ?f = "\<lambda>r. if model_key r = (p, m) then extend_model lc a b r else r"
  have "keeps_model r (?f r)" for r
    using assms by (simp add: keeps_model_def extend_model_def model_key_def)
  then show ?thesis using Some by (intro exI [of _ ?f] exI [of _ "[]"]) (simp add: upsert_model_def update_model_def)
qed

lemma keeps_model_trans: "keeps_model a b \<Longrightarrow> keeps_model b c \<Longrightarrow> keeps_model a c"
  by (auto simp: keeps_model_def model_key_def)

lemma backfill_models_ok:
  assumes "distinct (map fst ks)"
  shows "(\<forall>(k, lo, hi) \<in> set ks. covers (fst (fold backfill_model ks (rows, dq))) k lo hi)
    \<and> (\<exists>f added. fst (fold backfill_model ks (rows, dq)) = map f rows @ added \<and> (\<forall>r. keeps_model r (f r)))
    \<and> (\<forall>k lo hi. k \<notin> fst ` set ks \<longrightarrow> covers rows k lo hi \<longrightarrow> covers (fst (fold backfill_model ks (rows, dq))) k lo hi)"
  using assms
proof (induction ks arbitrary: rows dq)
  case Nil
  show ?case by (auto intro!: exI [of _ id] simp: keeps_model_def)
next
  case (Cons e ks)
  obtain p m lo hi where e: "e = ((p, m), lo, hi)" by (cases e) auto
  let ?lc = "if is_known_claude_model p m then ''active'' else ''unknown''"
  let ?rows = "upsert_model p m ?lc (Some (Aware (as_utc_dt lo))) (Some (Aware (as_utc_dt hi))) rows"
  obtain dq' where step: "backfill_model e (rows, dq) = (?rows, dq')"
    by (auto simp: e backfill_model_def Let_def)
  note IH = Cons.IH [of ?rows dq']
  have new: "(p, m) \<notin> fst ` set ks" and d: "distinct (map fst ks)" using Cons.prems by (auto simp: e)
  have here: "covers (fst (fold backfill_model (e # ks) (rows, dq))) (p, m) lo hi"
    using IH d new upsert_model_covers [of p m ?lc lo hi rows] by (simp add: step)
  obtain f added where f: "?rows = map f rows @ added" "\<forall>r. keeps_model r (f r)"
  proof -
    have "?lc = ''active'' \<longrightarrow> is_known_claude_model p m" by simp
    from upsert_model_keeps [OF this, of "Some (Aware (as_utc_dt lo))" "Some (Aware (as_utc_dt hi))" rows] that
    show thesis by blast
  qed
  obtain g added' where g: "fst (fold backfill_model ks (?rows, dq')) = map g ?rows @ added'" "\<forall>r. keeps_model r (g r)"
    using IH d by blast
  have keeps: "\<exists>h added. fst (fold backfill_model (e # ks) (rows, dq)) = map h rows @ added \<and> (\<forall>r. keeps_model r (h r))"
    using f g by (intro exI [of _ "g \<circ> f"] exI [of _ "map g added @ added'"])
      (auto simp: step intro: keeps_model_trans)
  have other: "covers (fst (fold backfill_model (e # ks) (rows, dq))) k lo' hi'"
    if "k \<notin> fst ` set (e # ks)" "covers rows k lo' hi'" for k lo' hi'
  proof -
    have k: "k \<noteq> (p, m)" "k \<notin> fst ` set ks" using that(1) by (auto simp: e)
    have "covers ?rows k lo' hi'" using that(2) upsert_model_other [OF k(1)] by blast
    then have "covers (fst (fold backfill_model ks (?rows, dq'))) k lo' hi'"
      using conjunct2 [OF conjunct2 [OF IH [OF d]]] k(2) by blast
    then show ?thesis by (simp add: step)
  qed
  have "\<forall>(k, lo, hi) \<in> set ks. covers (fst (fold backfill_model (e # ks) (rows, dq))) k lo hi"
    using conjunct1 [OF IH [OF d]] by (simp add: step)
  then have "\<forall>(k, lo, hi) \<in> set (e # ks). covers (fst (fold backfill_model (e # ks) (rows, dq))) k lo hi"
    using here by (simp add: e)
  then show ?case using keeps other by blast
qed

lemma usage_models_bounds:
  assumes "e \<in> set events"
  shows "\<exists>lo hi. (usage_model_key e, lo, hi) \<in> set (usage_models events) \<and> lo \<le> dt_instant (ue_ts e) \<and> dt_instant (ue_ts e) \<le> hi"
proof -
  let ?ts = "(\<lambda>e. dt_instant (ue_ts e)) ` {x \<in> set events. usage_model_key x = usage_model_key e}"
  have "(usage_model_key e, Min ?ts, Max ?ts) \<in> set (usage_models events)"
    using assms by (auto simp: usage_models_def Let_def)
  moreover have "Min ?ts \<le> dt_instant (ue_ts e)" "dt_instant (ue_ts e) \<le> Max ?ts"
    using assms by (auto intro!: Min_le Max_ge)
  ultimately show ?thesis by blast
qed

lemma covers_mono: "covers rows k lo hi \<Longrightarrow> lo \<le> t \<Longrightarrow> t \<le> hi \<Longrightarrow> covers rows k t t"
  unfolding covers_def by fastforce

text \<open>
  The registry backfill reconciles: a run that is not skipped leaves, for every usage event, a model row
  whose observed window contains the event; it changes the existing rows only by widening their window and by
  turning an unknown Claude model active, never the key, the capabilities or another lifecycle, and it keeps
  every provider row; afterwards a run without force is skipped and changes nothing. The hypotheses: unique
  provider ids, and the run is not skipped.
\<close>

theorem registry_backfill_reconciles:
  assumes "provider_inv (rb_providers db)" and "registry_backfill isof force now events limits db = (res, db')"
    and "\<not> bf_skipped res"
  shows "(\<forall>e \<in> set events. covers (rb_models db') (usage_model_key e) (dt_instant (ue_ts e)) (dt_instant (ue_ts e)))
    \<and> (\<exists>f added. rb_models db' = map f (rb_models db) @ added \<and> (\<forall>r. keeps_model r (f r)))
    \<and> provider_inv (rb_providers db') \<and> (\<exists>new. rb_providers db' = rb_providers db @ new)
    \<and> snd (registry_backfill isof False now' events' limits' db') = db'"
proof -
  let ?ks = "usage_models events"
  have d: "distinct (map fst ?ks)" by (simp add: usage_models_def Let_def comp_def)
  note ok = backfill_models_ok [OF d, of "rb_models db" "rb_dq db"]
  have m: "rb_models db' = fst (fold backfill_model ?ks (rb_models db, rb_dq db))"
    and p: "rb_providers db' = backfill_providers (map ue_provider events @ map li_provider limits) now (rb_providers db)"
    and s: "rb_settings db' = dset BACKFILL_MARKER_KEY (isof now) (rb_settings db)"
    using assms(2,3) by (auto simp: registry_backfill_def Let_def split: if_splits prod.splits)
  have "covers (rb_models db') (usage_model_key e) (dt_instant (ue_ts e)) (dt_instant (ue_ts e))" if mem: "e \<in> set events" for e
  proof -
    obtain lo hi where b: "(usage_model_key e, lo, hi) \<in> set ?ks" "lo \<le> dt_instant (ue_ts e)" "dt_instant (ue_ts e) \<le> hi"
      using usage_models_bounds [OF mem] by blast
    have "covers (rb_models db') (usage_model_key e) lo hi"
      using bspec [OF conjunct1 [OF ok] b(1)] unfolding m by simp
    then show ?thesis using b(2,3) by (rule covers_mono)
  qed
  moreover have "snd (registry_backfill isof False now' events' limits' db') = db'"
    by (simp add: registry_backfill_def s)
  ultimately show ?thesis using ok backfill_providers_ok [OF assms(1)] unfolding m p by blast
qed

section \<open>Witnesses\<close>

theorem provider_resolution_stable_witness:
  "case resolve_provider_row '' Claude '' ''reject'' 0 (new_provider_service, []) of (res, s', rows') \<Rightarrow>
     rn_accepted res \<and> length rows' \<le> 1 \<and> rn_provider res \<in> set (provider_ids rows')"
proof -
  obtain res s' rows' where r: "resolve_provider_row '' Claude '' ''reject'' 0 (new_provider_service, []) = (res, s', rows')"
    by (cases "resolve_provider_row '' Claude '' ''reject'' 0 (new_provider_service, [])")
  have "rn_accepted (fst (resolve_provider_row '' Claude '' ''reject'' 0 (new_provider_service, [])))"
    by code_simp
  then have acc: "rn_accepted res" unfolding r by simp
  have "provider_inv []" "service_ok new_provider_service []"
    by (simp_all add: provider_inv_def provider_ids_def service_ok_def new_provider_service_def)
  from provider_resolution_stable [OF this r, of 1] acc
  have "rn_accepted res \<and> length rows' \<le> 1 \<and> rn_provider res \<in> set (provider_ids rows')" by auto
  then show ?thesis unfolding r by simp
qed

definition demo_registry :: registry_db where
  "demo_registry = \<lparr>rb_providers = [], rb_models = [], rb_dq = \<lparr>dq_rows = [], dq_next = 1, dq_window = 0\<rparr>, rb_settings = []\<rparr>"

theorem registry_backfill_reconciles_witness:
  "snd (registry_backfill (\<lambda>_. ''t'') False 5 [] [] (snd (registry_backfill (\<lambda>_. ''t'') False 0 [] [] demo_registry)))
     = snd (registry_backfill (\<lambda>_. ''t'') False 0 [] [] demo_registry)"
proof -
  obtain res db' where r: "registry_backfill (\<lambda>_. ''t'') False 0 [] [] demo_registry = (res, db')"
    by (cases "registry_backfill (\<lambda>_. ''t'') False 0 [] [] demo_registry")
  have "\<not> bf_skipped (fst (registry_backfill (\<lambda>_. ''t'') False 0 [] [] demo_registry))"
    by (simp add: registry_backfill_def demo_registry_def Let_def split: prod.split)
  then have run: "\<not> bf_skipped res" unfolding r by simp
  have inv: "provider_inv (rb_providers demo_registry)"
    by (simp add: provider_inv_def provider_ids_def demo_registry_def)
  have "snd (registry_backfill (\<lambda>_. ''t'') False 5 [] [] db') = db'"
    using registry_backfill_reconciles [OF inv r run] by blast
  then show ?thesis unfolding r by simp
qed

end
