(* ===== verification/Limit_Ingest_Laws.thy ===== *)
theory Limit_Ingest_Laws
  imports Limit_Ingest
begin

text \<open>
  What the limit and aggregate ingest guarantees: under flood control the snapshots of a stream are spaced,
  across batches; an import of aggregates replaces the rows of its grains and converges. Two theorems show
  where the code does less: flood control on SQLite, and the grain that the batch dedupe uses.
\<close>

section \<open>Streams are spaced\<close>

definition stream :: "flood_key \<Rightarrow> limit_row list \<Rightarrow> limit_row list" where
  "stream key rows = filter (\<lambda>r. flood_key_of r = key) rows"

definition gap :: "limit_row \<Rightarrow> limit_row \<Rightarrow> rat" where
  "gap a b = seconds_between (raw_as_utc (li_ts b)) (raw_as_utc (li_ts a))"

definition spaced :: "rat \<Rightarrow> limit_row list \<Rightarrow> bool" where
  "spaced interval rows \<longleftrightarrow> (\<forall>key. sorted_wrt (\<lambda>a b. interval \<le> gap a b) (stream key rows))"

definition zoned :: "limit_row list \<Rightarrow> bool" where
  "zoned rows \<longleftrightarrow> (\<forall>r \<in> set rows. \<exists>t. li_ts r = Aware t)"

lemma stream_simps [simp]:
  "stream key [] = []" "stream key (rows @ rows') = stream key rows @ stream key rows'"
  "stream key [r] = (if flood_key_of r = key then [r] else [])"
  by (simp_all add: stream_def)

lemma zoned_simps [simp]:
  "zoned []" "zoned (rows @ rows') \<longleftrightarrow> zoned rows \<and> zoned rows'" "zoned [r] \<longleftrightarrow> (\<exists>t. li_ts r = Aware t)"
  by (auto simp: zoned_def)

lemma gap_trans: "gap a c = gap a b + gap b c"
  by (simp add: gap_def seconds_between_def diff_divide_distrib [symmetric] add_divide_distrib [symmetric])

lemma flood_key_of_row [simp]: "flood_key_of (limit_row_of dia s i) = (i, l2_provider s, l2_window_kind s)"
  by (simp add: flood_key_of_def limit_row_of_def)

lemma li_ts_row [simp]: "li_ts (limit_row_of dia s i) = db_store dia (l2_ts s)"
  by (simp add: limit_row_of_def)

lemma spacedD: "spaced interval rows \<Longrightarrow> sorted_wrt (\<lambda>a b. interval \<le> gap a b) (stream key rows)"
  unfolding spaced_def by blast

lemma spaced_snoc:
  assumes "spaced interval rows" and "0 \<le> interval"
    and "stream (flood_key_of r) rows \<noteq> [] \<Longrightarrow> interval \<le> gap (last (stream (flood_key_of r) rows)) r"
  shows "spaced interval (rows @ [r])"
  unfolding spaced_def
proof
  fix key
  have s: "sorted_wrt (\<lambda>a b. interval \<le> gap a b) (stream key rows)"
    using assms(1) by (rule spacedD)
  show "sorted_wrt (\<lambda>a b. interval \<le> gap a b) (stream key (rows @ [r]))"
  proof (cases "flood_key_of r = key")
    case True
    have "interval \<le> gap a r" if a: "a \<in> set (stream key rows)" for a
    proof -
      let ?l = "last (stream key rows)"
      have l: "interval \<le> gap ?l r" using assms(3) True a by (cases "stream key rows") auto
      obtain xs where xs: "stream key rows = xs @ [?l]" using a by (cases "stream key rows" rule: rev_cases) auto
      have "a \<in> set xs \<or> a = ?l" using a unfolding xs [THEN arg_cong [of _ _ set]] by auto
      then show ?thesis
      proof
        assume "a \<in> set xs"
        then have "interval \<le> gap a ?l" using s by (subst (asm) xs) (simp add: sorted_wrt_append)
        then show ?thesis using l assms(2) gap_trans [of a r ?l] by linarith
      qed (use l in simp)
    qed
    then show ?thesis using s True by (simp add: sorted_wrt_append)
  qed (use s in simp)
qed

lemma latest_is_last:
  assumes "spaced interval rows" and "0 \<le> interval" and "zoned rows"
    and "latest_snapshot_ts rows key = Some t"
  shows "stream key rows \<noteq> [] \<and> stored_order t = stored_order (li_ts (last (stream key rows))) \<and> (\<exists>u. t = Aware u)"
proof -
  let ?ts = "map li_ts (stream key rows)"
  have m: "max_by stored_order ?ts = Some t" using assms(4) by (simp add: latest_snapshot_ts_def stream_def)
  have t: "t \<in> set ?ts" using max_by_in [OF m] .
  then obtain xs l where xs: "stream key rows = xs @ [l]" by (cases "stream key rows" rule: rev_cases) auto
  have z: "\<exists>u. li_ts r = Aware u" if "r \<in> set (stream key rows)" for r
    using assms(3) that by (auto simp: zoned_def stream_def)
  have "stored_order (li_ts r) \<le> stored_order (li_ts l)" if r: "r \<in> set (stream key rows)" for r
  proof (cases "r = l")
    case False
    then have "r \<in> set xs" using r by (simp add: xs)
    then have "0 \<le> gap r l"
      using spacedD [OF assms(1), of key] assms(2) by (auto simp: xs sorted_wrt_append)
    moreover obtain u v where "li_ts r = Aware u" "li_ts l = Aware v" using z [OF r] z [of l] xs by auto
    ultimately show ?thesis
      by (simp add: gap_def raw_as_utc_def seconds_between_def zero_le_divide_iff)
  qed simp
  then have "stored_order t \<le> stored_order (li_ts l)" using t by auto
  moreover have "stored_order (li_ts l) \<le> stored_order t" using max_by_ge [OF m, of "li_ts l"] by (simp add: xs)
  ultimately show ?thesis using t z by (auto simp: xs)
qed

text \<open>The thresholds of the loop are the last timestamps of the streams that the batch has written to.\<close>

definition thresholds_ok :: "limit_row list \<Rightarrow> limit_row list \<Rightarrow> (flood_key, py_datetime) dict \<Rightarrow> bool" where
  "thresholds_ok stored rows last_ts \<longleftrightarrow> (\<forall>key.
     (case dget last_ts key of
        None \<Rightarrow> stream key rows = []
      | Some t \<Rightarrow> stream key rows \<noteq> [] \<and> li_ts (last (stream key rows)) = Aware t))"

lemma limit_rows_spaced:
  assumes "limit_rows Postgres c stored ss cs last_ts rows = Inr (sources, out)" and "0 < mc_min_interval c"
    and "spaced (mc_min_interval c) (stored @ rows)" and "zoned (stored @ rows)"
    and "thresholds_ok stored rows last_ts"
  shows "spaced (mc_min_interval c) (stored @ out) \<and> zoned (stored @ out)"
  using assms
proof (induction ss arbitrary: cs last_ts rows)
  case (Cons s ss)
  obtain resolved cs' where src: "limit_source (mc_token_label c) (mc_source_id c) s cs = Inr (resolved, cs')"
    using Cons.prems(1) by (auto split: sum.splits)
  let ?i = "mc_min_interval c" and ?key = "(resolved, l2_provider s, l2_window_kind s)"
  let ?r = "limit_row_of Postgres s resolved"
  obtain limited last' where fl: "flood_limited stored ?i resolved s last_ts = Inr (limited, last')"
    using Cons.prems(1,2) src by (auto split: sum.splits)
  show ?case
  proof (cases limited)
    case True
    then have "last' = last_ts" using fl by (auto simp: flood_limited_def Let_def split: option.splits if_splits)
    then show ?thesis using Cons.IH [of cs' last_ts rows] Cons.prems src fl True by simp
  next
    case False
    then have last': "last' = dset ?key (l2_ts s) last_ts"
      using fl by (auto simp: flood_limited_def Let_def split: option.splits if_splits)
    have tk: "case dget last_ts ?key of None \<Rightarrow> stream ?key rows = []
        | Some t \<Rightarrow> stream ?key rows \<noteq> [] \<and> li_ts (last (stream ?key rows)) = Aware t"
      using Cons.prems(5) by (simp add: thresholds_ok_def)
    have sp: "spaced ?i (stored @ rows @ [?r])"
    proof -
      have "?i \<le> gap (last (stream ?key (stored @ rows))) ?r" if ne: "stream ?key (stored @ rows) \<noteq> []"
      proof (cases "dget last_ts ?key")
        case (Some t)
        then have "?i \<le> seconds_between (l2_ts s) t" "li_ts (last (stream ?key (stored @ rows))) = Aware t"
          using fl False tk by (auto simp: flood_limited_def Let_def split: if_splits)
        then show ?thesis by (simp add: gap_def raw_as_utc_def)
      next
        case None
        then have rows: "stream ?key rows = []" using tk by simp
        then have st: "stream ?key stored \<noteq> []" using ne by simp
        then obtain t where t: "latest_snapshot_ts stored ?key = Some t"
          by (cases "latest_snapshot_ts stored ?key") (auto simp: latest_snapshot_ts_def stream_def)
        have "spaced ?i stored" using Cons.prems(3) by (simp add: spaced_def sorted_wrt_append)
        from latest_is_last [OF this _ _ t] Cons.prems(2,4)
        obtain u where u: "t = Aware u" "stored_order t = stored_order (li_ts (last (stream ?key stored)))" by auto
        moreover obtain v where v: "li_ts (last (stream ?key stored)) = Aware v"
          using Cons.prems(4) last_in_set [OF st] by (auto simp: zoned_def stream_def)
        moreover have "?i \<le> seconds_between (l2_ts s) u"
          using fl False None t u(1) by (auto simp: flood_limited_def Let_def split: if_splits)
        ultimately show ?thesis
          using rows by (simp add: gap_def raw_as_utc_def seconds_between_def)
      qed
      then show ?thesis using spaced_snoc [OF Cons.prems(3), of ?r] Cons.prems(2) by simp
    qed
    have z: "zoned (stored @ rows @ [?r])" using Cons.prems(4) by simp
    have "case dget last' key of None \<Rightarrow> stream key (rows @ [?r]) = []
        | Some t \<Rightarrow> stream key (rows @ [?r]) \<noteq> [] \<and> li_ts (last (stream key (rows @ [?r]))) = Aware t" for key
    proof (cases "key = ?key")
      case False
      then show ?thesis
        using spec [OF Cons.prems(5) [unfolded thresholds_ok_def], of key] unfolding last'
        by (auto split: option.splits)
    qed (simp add: last')
    then have "thresholds_ok stored (rows @ [?r]) last'" unfolding thresholds_ok_def by blast
    then show ?thesis using Cons.IH [of cs' last' "rows @ [?r]"] Cons.prems(1,2) sp z src fl False by simp
  qed
qed simp

text \<open>Batches one after the other; a batch that raises is rolled back.\<close>

fun ingest_limit_batches :: "dialect \<Rightarrow> (meta_call \<times> limit_snapshot_v2 list) list \<Rightarrow> meta_db \<Rightarrow> meta_db" where
  "ingest_limit_batches dia [] db = db"
| "ingest_limit_batches dia ((c, ss) # batches) db =
     ingest_limit_batches dia batches (case ingest_limits dia c ss db of Inl _ \<Rightarrow> db | Inr (_, db') \<Rightarrow> db')"

lemma ingest_limits_spaced:
  assumes "ingest_limits Postgres c ss db = Inr (res, db')" and "0 < mc_min_interval c"
    and "spaced (mc_min_interval c) (md_limits db)" and "zoned (md_limits db)"
  shows "spaced (mc_min_interval c) (md_limits db') \<and> zoned (md_limits db')"
proof -
  obtain sources out where l: "limit_rows Postgres c (md_limits db) ss ([], md_sources db) [] [] = Inr (sources, out)"
    using assms(1) by (auto simp: ingest_limits_def split: sum.splits)
  then have "md_limits db' = md_limits db @ out"
    using assms(1) by (auto simp: ingest_limits_def record_batch_def)
  then show ?thesis using limit_rows_spaced [OF l assms(2)] assms(3,4) by (simp add: thresholds_ok_def)
qed

text \<open>
  Flood control holds across batches on Postgres: whatever sequence of limit batches arrives at a server
  with a positive minimum interval, in the table any two snapshots of one source, provider and window are at
  least the interval apart and stand in time order. The hypotheses: the interval is positive and the same for
  all batches, and the table starts empty.
\<close>

theorem limit_streams_spaced:
  assumes "\<forall>(c, ss) \<in> set batches. mc_min_interval c = interval" and "0 < interval" and "md_limits db = []"
  shows "spaced interval (md_limits (ingest_limit_batches Postgres batches db))"
proof -
  have "spaced interval (md_limits (ingest_limit_batches Postgres batches db))"
    if "spaced interval (md_limits db)" "zoned (md_limits db)" for db
    using assms(1) that
  proof (induction batches arbitrary: db)
    case (Cons b batches)
    obtain c ss where b: "b = (c, ss)" by (cases b)
    then have i: "mc_min_interval c = interval" using Cons.prems(1) by simp
    show ?case
    proof (cases "ingest_limits Postgres c ss db")
      case (Inl err)
      then show ?thesis using Cons by (simp add: b)
    next
      case (Inr p)
      obtain res db' where p: "p = (res, db')" by (cases p)
      have "spaced interval (md_limits db') \<and> zoned (md_limits db')"
        using ingest_limits_spaced [OF Inr [unfolded p]] Cons.prems assms(2) i by simp
      then show ?thesis using Cons by (simp add: b Inr p)
    qed
  qed simp
  from this [of db] show ?thesis using assms(3) by (simp add: spaced_def)
qed

text \<open>
  A limit of flood control: on SQLite, once a stream has a stored snapshot, every later batch whose first
  snapshot belongs to the stream fails with a type error, since the stored timestamp comes back without a zone
  and is subtracted from one with a zone; the batch is rolled back as a whole. The hypotheses: a positive
  interval, the first snapshot, with no source of its own, belongs to a stream of the table, whose timestamps
  have no zone.
\<close>

theorem flood_control_fails_on_sqlite:
  assumes "0 < mc_min_interval c" and "l2_source s = None"
    and "r \<in> set (md_limits db)" and "flood_key_of r = (mc_source_id c, l2_provider s, l2_window_kind s)"
    and "\<forall>q \<in> set (md_limits db). \<exists>wall. li_ts q = Naive wall"
  shows "ingest_limits SQLite c (s # ss) db = Inl Type_Error"
proof -
  let ?key = "(mc_source_id c, l2_provider s, l2_window_kind s)"
  obtain t where t: "latest_snapshot_ts (md_limits db) ?key = Some t"
    using assms(3,4) by (cases "latest_snapshot_ts (md_limits db) ?key")
      (auto simp: latest_snapshot_ts_def filter_empty_conv)
  then have "t \<in> li_ts ` set (md_limits db)"
    unfolding latest_snapshot_ts_def by (auto dest!: max_by_in)
  then obtain wall where "t = Naive wall" using assms(5) by auto
  then show ?thesis
    using assms(1,2) t by (simp add: ingest_limits_def limit_source_def flood_limited_def Let_def)
qed

section \<open>Imports replace\<close>

lemma upsert_rollup_keeps: "ro_key p \<noteq> ro_key q \<Longrightarrow> p \<in> set (upsert_rollup q rows) \<longleftrightarrow> p \<in> set rows"
  by (auto simp: upsert_rollup_def)

lemma upsert_rollup_own: "q \<in> set (upsert_rollup q rows) \<and> (\<forall>p \<in> set (upsert_rollup q rows). ro_key p = ro_key q \<longrightarrow> p = q)"
  by (auto simp: upsert_rollup_def image_iff)

lemma daily_rollups_upsert_set:
  assumes "distinct (map ro_key new)"
  shows "(\<forall>q \<in> set new. q \<in> set (daily_rollups_upsert new rows)
      \<and> (\<forall>p \<in> set (daily_rollups_upsert new rows). ro_key p = ro_key q \<longrightarrow> p = q))
    \<and> (\<forall>p. ro_key p \<notin> ro_key ` set new \<longrightarrow> p \<in> set (daily_rollups_upsert new rows) \<longleftrightarrow> p \<in> set rows)"
  using assms
proof (induction new rule: rev_induct)
  case (snoc q new)
  have up: "daily_rollups_upsert (new @ [q]) rows = upsert_rollup q (daily_rollups_upsert new rows)"
    by (simp add: daily_rollups_upsert_def)
  have ne: "ro_key p \<noteq> ro_key q" if "p \<in> set new" for p
    using snoc.prems imageI [OF that, of ro_key] by auto
  from snoc show ?case unfolding up using upsert_rollup_own [of q "daily_rollups_upsert new rows"]
    by (auto simp: upsert_rollup_keeps ne)
qed (simp add: daily_rollups_upsert_def)

lemma upsert_again:
  assumes "\<forall>q \<in> set new. q \<in> set rows \<and> (\<forall>p \<in> set rows. ro_key p = ro_key q \<longrightarrow> p = q)"
  shows "daily_rollups_upsert new rows = rows"
  using assms
proof (induction new)
  case (Cons q new)
  have "upsert_rollup q rows = rows"
    using Cons.prems by (auto simp: upsert_rollup_def intro!: map_idI)
  then show ?case using Cons by (simp add: daily_rollups_upsert_def)
qed (simp add: daily_rollups_upsert_def)

lemma fold_dset_keyed:
  assumes "\<forall>(k, q) \<in> set d. k = dedupe_key q" and "distinct (dkeys d)"
  shows "\<forall>(k, q) \<in> set (fold (\<lambda>q. dset (dedupe_key q) q) rows d). k = dedupe_key q"
    and "distinct (dkeys (fold (\<lambda>q. dset (dedupe_key q) q) rows d))"
proof -
  have "(\<forall>(k, q) \<in> set (fold (\<lambda>q. dset (dedupe_key q) q) rows d). k = dedupe_key q)
    \<and> distinct (dkeys (fold (\<lambda>q. dset (dedupe_key q) q) rows d))"
    using assms
  proof (induction rows arbitrary: d)
    case (Cons r rows)
    have "\<forall>(k, q) \<in> set (dset (dedupe_key r) r d). k = dedupe_key q"
      using Cons.prems(1) by (induction d) auto
    then show ?case using Cons by (simp add: distinct_update)
  qed simp
  then show "\<forall>(k, q) \<in> set (fold (\<lambda>q. dset (dedupe_key q) q) rows d). k = dedupe_key q"
    "distinct (dkeys (fold (\<lambda>q. dset (dedupe_key q) q) rows d))" by auto
qed

lemma distinct_dedupe: "distinct (map dedupe_key (dedupe_rollup_rows rows))"
proof -
  let ?d = "fold (\<lambda>q. dset (dedupe_key q) q) rows []"
  have "map dedupe_key (map snd ?d) = dkeys ?d"
    using fold_dset_keyed(1) [of "[]" rows] by auto
  then have "distinct (map dedupe_key (map snd ?d)) \<longleftrightarrow> distinct (dkeys ?d)" by (rule arg_cong)
  then show ?thesis using fold_dset_keyed(2) [of "[]" rows] by (simp add: dedupe_rollup_rows_def)
qed

lemma distinct_dedupe_grain: "distinct (map ro_key (dedupe_rollup_rows rows))"
  using distinct_dedupe [of rows] by (auto simp: distinct_map inj_on_def ro_key_def dedupe_key_def)

lemma dget_fold_dset:
  "dget (fold (\<lambda>q. dset (dedupe_key q) q) rows d) k =
     (if filter (\<lambda>q. dedupe_key q = k) rows = [] then dget d k else Some (last (filter (\<lambda>q. dedupe_key q = k) rows)))"
  by (induction rows arbitrary: d) (auto simp: filter_empty_conv)

lemma set_dedupe: "q \<in> set (dedupe_rollup_rows rows) \<longleftrightarrow> (\<exists>qs. filter (\<lambda>p. dedupe_key p = dedupe_key q) rows = qs @ [q])"
proof -
  let ?d = "fold (\<lambda>q. dset (dedupe_key q) q) rows []"
  let ?f = "filter (\<lambda>p. dedupe_key p = dedupe_key q) rows"
  have "q \<in> set (dedupe_rollup_rows rows) \<longleftrightarrow> (dedupe_key q, q) \<in> set ?d"
    using fold_dset_keyed(1) [of "[]" rows] by (force simp: dedupe_rollup_rows_def image_iff)
  also have "\<dots> \<longleftrightarrow> dget ?d (dedupe_key q) = Some q"
    using fold_dset_keyed(2) [of "[]" rows] by (simp add: map_of_eq_Some_iff)
  also have "\<dots> \<longleftrightarrow> (\<exists>qs. ?f = qs @ [q])"
    unfolding dget_fold_dset by (cases ?f rule: rev_cases) simp_all
  finally show ?thesis .
qed

text \<open>
  An import of aggregates replaces: of each day, provider, machine and model the last row of the batch is in
  the table, as the only row of its grain; the rows of all other grains are untouched; and importing the same
  batch again, later and under another batch id, changes no rollup.
\<close>

theorem import_replaces:
  "let rows = map import_rollup_row as; db1 = snd (ingest_aggregates c as db) in
     (\<forall>q qs. filter (\<lambda>p. dedupe_key p = dedupe_key q) rows = qs @ [q] \<longrightarrow>
        q \<in> set (md_rollups db1) \<and> (\<forall>p \<in> set (md_rollups db1). ro_key p = ro_key q \<longrightarrow> p = q))
   \<and> (\<forall>p. ro_key p \<notin> ro_key ` set rows \<longrightarrow> p \<in> set (md_rollups db1) \<longleftrightarrow> p \<in> set (md_rollups db))
   \<and> md_rollups (snd (ingest_aggregates c' as db1)) = md_rollups db1"
proof -
  let ?rows = "map import_rollup_row as" and ?db1 = "snd (ingest_aggregates c as db)"
  let ?new = "dedupe_rollup_rows ?rows"
  have r1: "md_rollups (snd (ingest_aggregates c as db)) = daily_rollups_upsert ?new (md_rollups db)" for c db
    by (simp add: ingest_aggregates_def record_batch_def Let_def daily_rollups_upsert_def)
  note up = daily_rollups_upsert_set [OF distinct_dedupe_grain, of ?rows "md_rollups db"]
  have own: "q \<in> set ?new" if "filter (\<lambda>p. dedupe_key p = dedupe_key q) ?rows = qs @ [q]" for q qs
    unfolding set_dedupe using that by blast
  have sub: "set ?new \<subseteq> set ?rows"
    by (metis set_dedupe filter_is_subset in_set_conv_decomp subsetI subset_iff)
  have again: "daily_rollups_upsert ?new (daily_rollups_upsert ?new (md_rollups db)) = daily_rollups_upsert ?new (md_rollups db)"
    by (rule upsert_again) (use up in blast)
  show ?thesis unfolding Let_def r1 again using up own sub by (intro conjI allI impI) (blast+)
qed

text \<open>
  A limit of the import: the dedupe of a batch leaves the provenance out of the grain, which the table has.
  Two rows of one day, provider, machine and model with different provenances are both stored when they come
  in two batches; in one batch the first is dropped, although the batch counts both as accepted. The
  hypotheses: the two rows agree on the grain and differ in provenance, and the table is empty.
\<close>

theorem dedupe_drops_provenance:
  assumes "dedupe_key (import_rollup_row a) = dedupe_key (import_rollup_row b)"
    and "ro_provenance (import_rollup_row a) \<noteq> ro_provenance (import_rollup_row b)" and "md_rollups db = []"
  shows "fst (ingest_aggregates c [a, b] db) = (mc_batch_id c, 2)
    \<and> md_rollups (snd (ingest_aggregates c [a, b] db)) = [import_rollup_row b]
    \<and> md_rollups (snd (ingest_aggregates c' [b] (snd (ingest_aggregates c [a] db)))) = [import_rollup_row a, import_rollup_row b]"
proof -
  have "ro_key (import_rollup_row a) \<noteq> ro_key (import_rollup_row b)" using assms(2) by (simp add: ro_key_def)
  then show ?thesis using assms(1,3)
    by (simp add: ingest_aggregates_def dedupe_rollup_rows_def daily_rollups_upsert_def upsert_rollup_def record_batch_def Let_def)
qed

section \<open>Witnesses\<close>

definition demo_limit :: "int \<Rightarrow> limit_snapshot_v2" where
  "demo_limit t = \<lparr>l2_schema_version = 2, l2_provider = ''p'', l2_window_kind = ''w'', l2_ts = as_utc_dt t,
     l2_utilization_pct = 10, l2_account = None, l2_organization = None, l2_machine = None, l2_source = None,
     l2_remaining = None, l2_limit_amount = None, l2_unit = None, l2_resets_at = None, l2_provenance = OFFICIAL\<rparr>"

definition demo_call :: meta_call where
  "demo_call = \<lparr>mc_token_label = None, mc_request_id = None, mc_source_id = None, mc_min_interval = 60,
     mc_batch_id = ''b'', mc_received_at = 0\<rparr>"

definition demo_meta :: meta_db where
  "demo_meta = \<lparr>md_sources = \<lparr>st_rows = [], st_next = 1\<rparr>, md_limits = [], md_rollups = [], md_batches = []\<rparr>"

definition demo_aggregate :: "provenance \<Rightarrow> aggregate_import_v2" where
  "demo_aggregate pv = \<lparr>a2_schema_version = 2, a2_provider = ''p'', a2_day = 0, a2_native_model = ''m'', a2_machine = None,
     a2_input_tokens = 1, a2_output_tokens = 1, a2_cache_read_tokens = 0, a2_cache_write_short_tokens = 0,
     a2_cache_write_long_tokens = 0, a2_reasoning_tokens = 0, a2_total_tokens = 2, a2_message_count = 1,
     a2_provenance = pv\<rparr>"

lemmas demo_defs = demo_limit_def demo_call_def demo_meta_def demo_aggregate_def as_utc_dt_def

theorem limit_streams_spaced_witness:
  "let db = ingest_limit_batches Postgres [(demo_call, [demo_limit 0, demo_limit 1]), (demo_call, [demo_limit 90000000])] demo_meta
   in spaced 60 (md_limits db) \<and> map li_ts (md_limits db) = [Aware (as_utc_dt 0), Aware (as_utc_dt 90000000)]"
proof -
  have "spaced 60 (md_limits (ingest_limit_batches Postgres
      [(demo_call, [demo_limit 0, demo_limit 1]), (demo_call, [demo_limit 90000000])] demo_meta))"
    by (rule limit_streams_spaced) (simp_all add: demo_defs)
  moreover have "map li_ts (md_limits (ingest_limit_batches Postgres
      [(demo_call, [demo_limit 0, demo_limit 1]), (demo_call, [demo_limit 90000000])] demo_meta))
      = [Aware (as_utc_dt 0), Aware (as_utc_dt 90000000)]"
    by (simp add: demo_defs ingest_limits_def limit_source_def flood_limited_def latest_snapshot_ts_def Let_def
        seconds_between_def limit_row_of_def record_batch_def flood_key_of_def max_by_def)
  ultimately show ?thesis by simp
qed

theorem flood_control_fails_on_sqlite_witness:
  "ingest_limits SQLite demo_call [demo_limit 90000000]
     (demo_meta\<lparr>md_limits := [limit_row_of SQLite (demo_limit 0) None]\<rparr>) = Inl Type_Error"
  by (rule flood_control_fails_on_sqlite [of _ _ "limit_row_of SQLite (demo_limit 0) None"])
    (simp_all add: demo_defs store_sqlite_def)

theorem import_replaces_witness:
  "md_rollups (snd (ingest_aggregates demo_call [demo_aggregate IMPORTED] (snd (ingest_aggregates demo_call
     [demo_aggregate IMPORTED] demo_meta)))) = md_rollups (snd (ingest_aggregates demo_call [demo_aggregate IMPORTED] demo_meta))"
  using import_replaces [of "[demo_aggregate IMPORTED]" demo_call demo_meta demo_call] by (simp add: Let_def)

theorem dedupe_drops_provenance_witness:
  "md_rollups (snd (ingest_aggregates demo_call [demo_aggregate STATS_CACHE, demo_aggregate IMPORTED] demo_meta))
     = [import_rollup_row (demo_aggregate IMPORTED)]"
  using dedupe_drops_provenance [of "demo_aggregate STATS_CACHE" "demo_aggregate IMPORTED" demo_meta demo_call demo_call]
  by (simp add: demo_defs import_rollup_row_def dedupe_key_def)

end
