(* ===== verification/Limit_Analytics_Laws.thy ===== *)
theory Limit_Analytics_Laws
  imports Limit_Analytics
begin

text \<open>
  What the limit analytics guarantee: resets are rolled to the current period, blocks partition the token flow,
  every stream is forecast from its own snapshots by the line through its first and last one, and the older
  prediction is that forecast. One theorem shows where the live overview fails.
\<close>

section \<open>Grouping into a dict of lists\<close>

text \<open>\<open>d.setdefault(key, []).append(value)\<close> over a list.\<close>

lemma group_get:
  "dget_or (fold (\<lambda>x d. dset (k x) (dget_or d (k x) [] @ [f x]) d) xs d) j [] =
     dget_or d j [] @ map f (filter (\<lambda>x. k x = j) xs)"
  by (induction xs arbitrary: d) (auto simp: dget_or_dset)

lemma fst_dset: "fst ` set (dset k v d) = insert k (fst ` set d)"
  using set_dkeys_dset [of k v d] by simp

lemma group_keys:
  "set (dkeys (fold (\<lambda>x d. dset (k x) (dget_or d (k x) [] @ [f x]) d) xs d)) = set (dkeys d) \<union> k ` set xs"
  by (induction xs arbitrary: d) (auto simp: fst_dset)

lemma group_distinct:
  "distinct (dkeys d) \<Longrightarrow> distinct (dkeys (fold (\<lambda>x d. dset (k x) (dget_or d (k x) [] @ [f x]) d) xs d))"
  by (induction xs arbitrary: d) (auto simp: distinct_update)

lemma group_entry:
  assumes "(j, vs) \<in> set (fold (\<lambda>x d. dset (k x) (dget_or d (k x) [] @ [f x]) d) xs [])"
  shows "vs = map f (filter (\<lambda>x. k x = j) xs)"
proof -
  let ?d = "fold (\<lambda>x d. dset (k x) (dget_or d (k x) [] @ [f x]) d) xs []"
  have "dget ?d j = Some vs" using assms group_distinct [of "[]" k f xs] by (intro map_of_is_SomeI) simp_all
  then show ?thesis using group_get [of k f xs "[]" j] by (simp add: dget_or_def)
qed

section \<open>Resets\<close>

text \<open>
  A reset that lies in the past is rolled to the current period: for a window with a known period, a reset
  that is not after now is moved by whole periods to the first such time after now, at most one period ahead,
  and flagged as derived; a reset in the future, or of an unknown window, passes unchanged and unflagged.
\<close>

theorem roll_reset_current:
  "case roll_reset_forward window_kind (Some r) now of (res, derived) \<Rightarrow>
     (\<exists>t. res = Some t \<and> (case dget WINDOW_PERIOD window_kind of
        Some period \<Rightarrow>
          if dt_instant now < dt_instant (raw_as_utc r) then t = raw_as_utc r \<and> \<not> derived
          else derived \<and> dt_instant now < dt_instant t \<and> dt_instant t \<le> dt_instant now + period
            \<and> period dvd dt_instant t - dt_instant (raw_as_utc r)
      | None \<Rightarrow> t = raw_as_utc r \<and> \<not> derived))"
proof (cases "dget WINDOW_PERIOD window_kind")
  case (Some period)
  then have p: "0 < period" by (auto simp: WINDOW_PERIOD_def BLOCK_LENGTH_def split: if_splits)
  let ?a = "dt_instant (raw_as_utc r)" and ?n = "dt_instant now"
  let ?s = "((?n - ?a) div period + 1) * period"
  have "?n - ?a = (?n - ?a) div period * period + (?n - ?a) mod period" by simp
  moreover have "0 \<le> (?n - ?a) mod period" "(?n - ?a) mod period < period" using p by simp_all
  ultimately have "?n < ?a + ?s \<and> ?a + ?s \<le> ?n + period" by (simp only: distrib_right mult_1) linarith
  then show ?thesis using Some by (simp add: roll_reset_forward_def Let_def)
qed (simp add: roll_reset_forward_def)

section \<open>Blocks\<close>

lemma block_index_bounds: "anchor + block_index anchor t * BLOCK_LENGTH \<le> t"
  "t < anchor + block_index anchor t * BLOCK_LENGTH + BLOCK_LENGTH"
proof -
  have "t - anchor = (t - anchor) div BLOCK_LENGTH * BLOCK_LENGTH + (t - anchor) mod BLOCK_LENGTH" by simp
  moreover have "0 \<le> (t - anchor) mod BLOCK_LENGTH" "(t - anchor) mod BLOCK_LENGTH < BLOCK_LENGTH"
    by (simp_all add: BLOCK_LENGTH_def)
  ultimately show "anchor + block_index anchor t * BLOCK_LENGTH \<le> t"
    "t < anchor + block_index anchor t * BLOCK_LENGTH + BLOCK_LENGTH"
    unfolding block_index_def by linarith+
qed

definition in_range :: "int \<Rightarrow> int \<Rightarrow> usage_row list \<Rightarrow> usage_row list" where
  "in_range start end' events = filter (\<lambda>e. start \<le> dt_instant (ue_ts e) \<and> dt_instant (ue_ts e) \<le> end') events"

lemma blocks_eq:
  assumes "in_range start end' events \<noteq> []"
  obtains anchor ind u where
    "blocks limits events start end' = map (\<lambda>i. block_of anchor u (last ind) (i, map (\<lambda>e. (dt_instant (ue_ts e), row_tokens e, ur_cost_usd e))
        (filter (\<lambda>e. block_index anchor (dt_instant (ue_ts e)) = i) (sort_key (\<lambda>e. dt_instant (ue_ts e)) (in_range start end' events))))) ind"
    and "sorted_wrt (<) ind"
    and "set ind = (\<lambda>e. block_index anchor (dt_instant (ue_ts e))) ` set (in_range start end' events)"
proof -
  let ?rows = "sort_key (\<lambda>e. dt_instant (ue_ts e)) (in_range start end' events)"
  obtain e es where r: "?rows = e # es" using assms by (cases ?rows) (auto dest: arg_cong [of _ _ length])
  let ?anchor = "block_anchor limits (dt_instant (ue_ts e))"
  let ?b = "block_buckets ?anchor ?rows"
  let ?u = "first_some (\<lambda>r. if li_window_kind r = FIVE_HOUR then Some (li_utilization_pct r) else None) (current_limits limits)"
  let ?k = "\<lambda>e. block_index ?anchor (dt_instant (ue_ts e))"
  let ?f = "\<lambda>e :: usage_row. (dt_instant (ue_ts e), row_tokens e, ur_cost_usd e)"
  have bb: "?b = fold (\<lambda>x d. dset (?k x) (dget_or d (?k x) [] @ [?f x]) d) ?rows []"
    by (simp add: block_buckets_def Let_def)
  have get: "dget_or ?b i [] = map ?f (filter (\<lambda>e. ?k e = i) ?rows)" for i
    unfolding bb group_get by (simp add: dget_or_def)
  have keys: "set (dkeys ?b) = ?k ` set (in_range start end' events)" and dis: "distinct (dkeys ?b)"
    unfolding bb using group_keys [of ?k ?f ?rows "[]"] group_distinct [of "[]" ?k ?f ?rows] by simp_all
  have eq: "blocks limits events start end' =
      map (\<lambda>i. block_of ?anchor ?u (last (sort (dkeys ?b))) (i, dget_or ?b i [])) (sort (dkeys ?b))"
    using r unfolding blocks_def in_range_def [symmetric] by (simp add: Let_def)
  show ?thesis
  proof (rule that)
    show "blocks limits events start end' = map (\<lambda>i. block_of ?anchor ?u (last (sort (dkeys ?b))) (i, map ?f (filter (\<lambda>e. ?k e = i) ?rows))) (sort (dkeys ?b))"
      unfolding eq get ..
    show "sorted_wrt (<) (sort (dkeys ?b))" using dis by (simp add: strict_sorted_iff)
    show "set (sort (dkeys ?b)) = ?k ` set (in_range start end' events)" using keys by simp
  qed
qed

text \<open>
  C22. The blocks partition the usage: over any range the blocks are five hours long, in order and disjoint, every
  event of the range lies in one of them, and their token totals add up to the tokens of the range.
\<close>

theorem blocks_partition:
  "let bs = blocks limits events start end' in
     sorted_wrt (\<lambda>a b. bl_end a \<le> bl_start b) bs
   \<and> (\<forall>b \<in> set bs. bl_end b = bl_start b + BLOCK_LENGTH)
   \<and> (\<forall>e \<in> set (in_range start end' events). \<exists>b \<in> set bs. bl_start b \<le> dt_instant (ue_ts e) \<and> dt_instant (ue_ts e) < bl_end b)
   \<and> sum_list (map bl_total_tokens bs) = sum_list (map row_tokens (in_range start end' events))"
proof (cases "in_range start end' events = []")
  case True
  then show ?thesis by (simp add: blocks_def in_range_def)
next
  case False
  let ?rows = "sort_key (\<lambda>e. dt_instant (ue_ts e)) (in_range start end' events)"
  obtain anchor ind u where
    bs: "blocks limits events start end' = map (\<lambda>i. block_of anchor u (last ind) (i, map (\<lambda>e. (dt_instant (ue_ts e), row_tokens e, ur_cost_usd e))
        (filter (\<lambda>e. block_index anchor (dt_instant (ue_ts e)) = i) ?rows))) ind"
    and ind: "sorted_wrt (<) ind" "set ind = (\<lambda>e. block_index anchor (dt_instant (ue_ts e))) ` set (in_range start end' events)"
    by (rule blocks_eq [OF False])
  let ?k = "\<lambda>e :: usage_row. block_index anchor (dt_instant (ue_ts e))"
  have dis: "distinct ind" using ind(1) by (simp add: strict_sorted_iff)
  have order: "sorted_wrt (\<lambda>a b. bl_end a \<le> bl_start b) (blocks limits events start end')"
    unfolding bs sorted_wrt_map
  proof (rule sorted_wrt_mono_rel [OF _ ind(1)])
    fix i j :: int assume "i < j"
    then have "(i + 1) * BLOCK_LENGTH \<le> j * BLOCK_LENGTH" by (intro mult_right_mono) (auto simp: BLOCK_LENGTH_def)
    then show "bl_end (block_of anchor u (last ind) (i, map (\<lambda>e. (dt_instant (ue_ts e), row_tokens e, ur_cost_usd e)) (filter (\<lambda>e. ?k e = i) ?rows)))
      \<le> bl_start (block_of anchor u (last ind) (j, map (\<lambda>e. (dt_instant (ue_ts e), row_tokens e, ur_cost_usd e)) (filter (\<lambda>e. ?k e = j) ?rows)))"
      by (simp add: block_of_def Let_def algebra_simps)
  qed
  have width: "\<forall>b \<in> set (blocks limits events start end'). bl_end b = bl_start b + BLOCK_LENGTH"
    unfolding bs by (simp add: block_of_def Let_def)
  have cover: "\<exists>b \<in> set (blocks limits events start end'). bl_start b \<le> dt_instant (ue_ts e) \<and> dt_instant (ue_ts e) < bl_end b"
    if e: "e \<in> set (in_range start end' events)" for e
  proof -
    have "?k e \<in> set ind" using e ind(2) by simp
    then show ?thesis unfolding bs
      using block_index_bounds(1) [of anchor "dt_instant (ue_ts e)"] block_index_bounds(2) [of "dt_instant (ue_ts e)" anchor]
      by (auto simp: block_of_def Let_def)
  qed
  have total: "sum_list (map bl_total_tokens (blocks limits events start end')) = sum_list (map row_tokens (in_range start end' events))"
  proof -
    have "map bl_total_tokens (blocks limits events start end')
        = map (\<lambda>i. sum_list (map row_tokens (filter (\<lambda>e. ?k e = i) ?rows))) ind"
      unfolding bs by (simp add: block_of_def Let_def comp_def)
    also have "sum_list \<dots> = sum_list (map row_tokens ?rows)"
      by (rule sum_list_groups) (use dis ind(2) in auto)
    also have "\<dots> = sum_list (map row_tokens (in_range start end' events))"
      by (simp only: sum_mset_sum_list [symmetric] mset_map mset_sort)
    finally show ?thesis .
  qed
  show ?thesis unfolding Let_def by (intro conjI order width total ballI cover)
qed

section \<open>Forecasts\<close>

lemma collect_results_map: "collect_results (map Inr xs) = Inr xs"
  by (induction xs) simp_all

lemma collect_results_Inr: "collect_results rs = Inr xs \<longleftrightarrow> rs = map Inr xs"
proof
  show "collect_results rs = Inr xs \<Longrightarrow> rs = map Inr xs"
    by (induction rs arbitrary: xs) (auto split: sum.splits)
qed (simp add: collect_results_map)

lemma forecast_stream_shape:
  "forecast_stream rows = Inr f \<Longrightarrow> lf_sample_count f = length rows
     \<and> lf_stream f = stream_key (hd (sort_key (\<lambda>r. dt_instant (raw_as_utc (li_ts r))) rows))"
  by (auto simp: forecast_stream_def Let_def split: if_splits sum.splits)

lemma hd_sort_key_in: "xs \<noteq> [] \<Longrightarrow> hd (sort_key k xs) \<in> set xs"
  by (metis hd_in_set length_0_conv length_sort set_sort)

text \<open>
  Streams are forecast independently: the forecasts are one per stream, a stream being a provider, window,
  account, organization and source; each is what its own snapshots alone give, whatever the snapshots of the
  other streams, and every snapshot counts in exactly one. The hypothesis: no forecast raised.
\<close>

theorem forecast_streams_independent:
  assumes "forecast_streams rows = Inr fs"
  shows "distinct (map lf_stream fs) \<and> lf_stream ` set fs = stream_key ` set rows
    \<and> (\<forall>f \<in> set fs. forecast_stream (filter (\<lambda>r. stream_key r = lf_stream f) rows) = Inr f)
    \<and> sum_list (map lf_sample_count fs) = length rows"
proof -
  let ?g = "group_limit_snapshots rows"
  have g: "?g = fold (\<lambda>x d. dset (stream_key x) (dget_or d (stream_key x) [] @ [id x]) d) rows []"
    by (simp add: group_limit_snapshots_def)
  have keys: "set (dkeys ?g) = stream_key ` set rows" and dis: "distinct (dkeys ?g)"
    unfolding g using group_keys [of stream_key id rows "[]"] group_distinct [of "[]" stream_key id rows] by simp_all
  have entry: "vs = filter (\<lambda>r. stream_key r = j) rows" if "(j, vs) \<in> set ?g" for j vs
    using group_entry [of j vs stream_key id rows] that unfolding g by simp
  have fs: "map (forecast_stream \<circ> snd) ?g = map Inr fs"
    using assms by (simp add: forecast_streams_def collect_results_Inr)
  have len: "length fs = length ?g" using arg_cong [OF fs, of length] by simp
  have at_i: "lf_stream (fs ! i) = fst (?g ! i) \<and> forecast_stream (filter (\<lambda>r. stream_key r = fst (?g ! i)) rows) = Inr (fs ! i)"
    if i: "i < length ?g" for i
  proof -
    let ?e = "?g ! i"
    have mem: "(fst ?e, snd ?e) \<in> set ?g" using i by simp
    have own: "snd ?e = filter (\<lambda>r. stream_key r = fst ?e) rows" using entry [OF mem] .
    have f: "forecast_stream (snd ?e) = Inr (fs ! i)" using arg_cong [OF fs, of "\<lambda>l. l ! i"] i len by simp
    have "fst ?e \<in> stream_key ` set rows" using mem keys by force
    then have "snd ?e \<noteq> []" unfolding own by (auto simp: filter_empty_conv)
    then have "hd (sort_key (\<lambda>r. dt_instant (raw_as_utc (li_ts r))) (snd ?e)) \<in> set (snd ?e)" by (rule hd_sort_key_in)
    then have "lf_stream (fs ! i) = fst ?e" using forecast_stream_shape [OF f] own by auto
    then show ?thesis using f own by simp
  qed
  have streams: "map lf_stream fs = dkeys ?g" by (rule nth_equalityI) (use at_i len in auto)
  have each: "forecast_stream (filter (\<lambda>r. stream_key r = lf_stream f) rows) = Inr f" if "f \<in> set fs" for f
    using that at_i len by (auto simp: in_set_conv_nth)
  have "map lf_sample_count fs = map (\<lambda>j. length (filter (\<lambda>r. stream_key r = j) rows)) (map lf_stream fs)"
    using each forecast_stream_shape by (auto simp: comp_def)
  also have "sum_list \<dots> = length rows"
    using sum_list_groups [of "map lf_stream fs" stream_key rows "\<lambda>_. 1 :: nat"] dis keys streams
    by (simp add: sum_list_triv)
  finally show ?thesis using streams dis keys each by (metis set_map)
qed

lemma predicted_at_line:
  assumes "predicted_at t u slope = Inr (Some p)"
  shows "0 < slope \<and> u < 100 \<and> dt_instant t \<le> dt_instant p
    \<and> \<bar>u + slope * minutes_between p t - 100\<bar> \<le> slope / 120000000"
proof -
  let ?m = "(100 - u) / slope"
  have pos: "0 < slope" "u < 100" and add: "add_minutes t ?m = Inr p"
    using assms by (auto simp: predicted_at_def split: if_splits sum.splits)
  let ?us = "round_half_even (?m * 60000000)"
  have p: "dt_instant p = dt_instant t + ?us" using add by (auto simp: add_minutes_def Let_def split: if_splits)
  have err: "\<bar>of_int ?us - ?m * 60000000\<bar> \<le> 1 / 2" by (rule round_half_even_error)
  have "0 < ?m" using pos by simp
  then have "- (1 / 2 :: rat) < of_int ?us" using err unfolding abs_le_iff by linarith
  then have "of_int (- 1) < (of_int ?us :: rat)" by simp
  then have nonneg: "0 \<le> ?us" unfolding of_int_less_iff by simp
  have mb: "minutes_between p t = of_int ?us / 60000000" by (simp add: minutes_between_def seconds_between_def p)
  define z where "z = of_int ?us - ?m * 60000000"
  have z: "of_int ?us = z + ?m * 60000000" "\<bar>z\<bar> \<le> 1 / 2" using err by (simp_all add: z_def)
  have "slope * minutes_between p t = slope * (z / 60000000) + slope * ?m"
    unfolding mb z(1) by (simp add: field_simps)
  then have line: "u + slope * minutes_between p t - 100 = slope * (z / 60000000)" using pos by simp
  have "\<bar>u + slope * minutes_between p t - 100\<bar> = slope * (\<bar>z\<bar> / 60000000)"
    unfolding line abs_mult using pos by simp
  also have "\<dots> \<le> slope * ((1 / 2) / 60000000)"
    by (intro mult_left_mono divide_right_mono z(2)) (use pos in auto)
  finally show ?thesis using pos p nonneg by simp
qed

text \<open>
  A forecast is the line through the first and the last snapshot in time: it predicts an exhaustion only for
  a rising utilization below 100, at a time not before the last snapshot, where the line meets 100 percent up
  to the rounding of half a microsecond; it says that the window resets first exactly when the known reset is
  not after that time. The hypotheses: the forecast's result and its prediction.
\<close>

theorem forecast_is_line:
  assumes "forecast_stream rows = Inr f" and "lf_predicted_exhaustion_at f = Some p"
  shows "let ordered = sort_key (\<lambda>r. dt_instant (raw_as_utc (li_ts r))) rows;
             first_row = hd ordered; last_row = last ordered;
             t0 = raw_as_utc (li_ts first_row); t1 = raw_as_utc (li_ts last_row)
    in lf_slope_pct_per_min f * minutes_between t1 t0 = li_utilization_pct last_row - li_utilization_pct first_row
     \<and> 0 < lf_slope_pct_per_min f \<and> li_utilization_pct last_row < 100 \<and> dt_instant t1 \<le> dt_instant p
     \<and> \<bar>li_utilization_pct last_row + lf_slope_pct_per_min f * minutes_between p t1 - 100\<bar>
         \<le> lf_slope_pct_per_min f / 120000000
     \<and> (lf_will_reset_first f \<longleftrightarrow> (\<exists>r. lf_resets_at f = Some r \<and> dt_instant r \<le> dt_instant p))"
proof -
  let ?o = "sort_key (\<lambda>r. dt_instant (raw_as_utc (li_ts r))) rows"
  let ?t0 = "raw_as_utc (li_ts (hd ?o))" and ?t1 = "raw_as_utc (li_ts (last ?o))"
  let ?span = "minutes_between ?t1 ?t0"
  have conf: "confidence_of (length ?o) ?span \<noteq> Unavailable"
    using assms by (auto simp: forecast_stream_def Let_def split: if_splits)
  then have span: "0 < ?span" by (auto simp: confidence_of_def split: if_splits)
  have slope: "lf_slope_pct_per_min f = (li_utilization_pct (last ?o) - li_utilization_pct (hd ?o)) / ?span"
    and pred: "predicted_at ?t1 (li_utilization_pct (last ?o)) (lf_slope_pct_per_min f) = Inr (Some p)"
    and reset: "lf_will_reset_first f = (case lf_resets_at f of Some r \<Rightarrow> dt_instant r \<le> dt_instant p | None \<Rightarrow> False)"
    using assms conf by (auto simp: forecast_stream_def Let_def split: if_splits sum.splits option.splits)
  show ?thesis unfolding Let_def
    using predicted_at_line [OF pred] slope span reset by (auto split: option.splits)
qed

lemma stored_order_instant: "stored_order r = dt_instant (raw_as_utc r)"
  by (cases r) (simp_all add: raw_as_utc_def as_utc_dt_def)

text \<open>
  The older prediction of a window is the stream forecast: on the snapshots of the lookback it predicts, and
  fails, exactly as the forecast of those snapshots taken as one stream, and it answers nothing where the
  forecast is unavailable.
\<close>

theorem predict_exhaustion_is_forecast:
  "predict_exhaustion rows window_kind now lookback =
     (let snapshots = limits_history rows window_kind (dt_instant now - lookback * 60000000) (dt_instant now)
      in case forecast_stream snapshots of
           Inl No_Snapshots \<Rightarrow> Inr None
         | Inl Forecast_Overflow \<Rightarrow> Inl Overflow_Error
         | Inr f \<Rightarrow> Inr (if lf_confidence f = Unavailable then None
             else Some \<lparr>pd_window_kind = window_kind, pd_utilization_pct = lf_utilization_pct f,
               pd_slope_pct_per_min = lf_slope_pct_per_min f,
               pd_predicted_exhaustion_at = lf_predicted_exhaustion_at f, pd_resets_at = lf_resets_at f\<rparr>))"
proof -
  let ?s = "limits_history rows window_kind (dt_instant now - lookback * 60000000) (dt_instant now)"
  have ordered: "sort_key (\<lambda>r. dt_instant (raw_as_utc (li_ts r))) ?s = ?s"
    unfolding limits_history_def stored_order_instant by (simp add: sort_key_id_if_sorted)
  have conf: "confidence_of n m = Unavailable \<longleftrightarrow> n < 2 \<or> m \<le> 0" for n m
    by (simp add: confidence_of_def)
  have err: "e = Overflow_Error" for e by (cases e)
  show ?thesis
    unfolding predict_exhaustion_def forecast_stream_def Let_def ordered conf
    by (auto split: sum.split simp: conf err)
qed

section \<open>The live overview\<close>

text \<open>
  A limit of the live overview: a token limit whose remaining amount at the current burn rate would last
  beyond the year 9999 makes the estimate raise, and the whole overview with it, although such a limit is
  simply far from exhausted. The hypotheses: an amount remains, in tokens, the burn rate is positive, and
  the time that is left passes the last representable day.
\<close>

theorem live_estimate_overflows:
  assumes "li_remaining s = Some remaining" and "li_unit s \<in> set TOKEN_UNITS" and "0 < burn"
    and "of_int (MAX_WALL - dt_instant now - dt_offset now) + 1 / 2 < remaining / burn * 60000000"
  shows "limit_live s burn now = Inl Overflow_Error"
proof -
  let ?x = "remaining / burn * 60000000"
  have "?x - 1 / 2 \<le> of_int (round_half_even ?x)"
    using round_half_even_error [of ?x] unfolding abs_le_iff by linarith
  then have "of_int (MAX_WALL - dt_instant now - dt_offset now) < (of_int (round_half_even ?x) :: rat)"
    using assms(4) by linarith
  then have "MAX_WALL < dt_instant now + dt_offset now + round_half_even ?x" unfolding of_int_less_iff by simp
  then show ?thesis using assms(1-3) by (simp add: limit_live_def add_minutes_def Let_def)
qed

section \<open>Witnesses\<close>

definition demo_reading :: "int \<Rightarrow> rat \<Rightarrow> limit_row" where
  "demo_reading minute pct = \<lparr>li_provider = ''p'', li_machine = None, li_ts = Aware (as_utc_dt (minute * 60000000)),
     li_window_kind = ''w'', li_utilization_pct = pct, li_resets_at = None, li_provenance = ''official'',
     li_account = None, li_organization = None, li_source_id = None, li_limit_amount = None,
     li_remaining = Some 300000000, li_unit = Some ''tokens'', li_raw = []\<rparr>"

definition demo_forecast :: limit_forecast where
  "demo_forecast = \<lparr>lf_stream = stream_key (demo_reading 0 10), lf_utilization_pct = 20, lf_slope_pct_per_min = 1,
     lf_predicted_exhaustion_at = Some (as_utc_dt 5400000000), lf_resets_at = None, lf_will_reset_first = False,
     lf_sample_count = 2, lf_confidence = Low\<rparr>"

lemma demo_forecast: "forecast_stream [demo_reading 0 10, demo_reading 10 20] = Inr demo_forecast"
  using round_half_even_of_int [of 4800000000]
  by (simp add: forecast_stream_def demo_reading_def demo_forecast_def raw_as_utc_def as_utc_dt_def confidence_of_def
      minutes_between_def seconds_between_def predicted_at_def add_minutes_def MIN_WALL_def MAX_WALL_def stream_key_def Let_def)

theorem forecast_is_line_witness:
  "\<bar>20 + 1 * minutes_between (as_utc_dt 5400000000) (as_utc_dt 600000000) - 100\<bar> \<le> 1 / 120000000"
  using forecast_is_line [OF demo_forecast, of "as_utc_dt 5400000000"]
  by (simp add: demo_forecast_def demo_reading_def Let_def raw_as_utc_def as_utc_dt_def)

theorem forecast_streams_independent_witness:
  "forecast_streams [demo_reading 0 10, demo_reading 10 20] = Inr [demo_forecast]
    \<and> forecast_stream (filter (\<lambda>r. stream_key r = lf_stream demo_forecast) [demo_reading 0 10, demo_reading 10 20]) = Inr demo_forecast"
proof -
  have same: "stream_key (demo_reading 10 20) = stream_key (demo_reading 0 10)"
    by (simp add: stream_key_def demo_reading_def)
  have ok: "forecast_streams [demo_reading 0 10, demo_reading 10 20] = Inr [demo_forecast]"
    by (simp add: forecast_streams_def group_limit_snapshots_def dget_or_def same demo_forecast)
  show ?thesis using ok forecast_streams_independent [OF ok] by (meson list.set_intros(1))
qed

theorem live_estimate_overflows_witness:
  "limit_live (demo_reading 0 10) (1 / 15) (as_utc_dt 1700000000000000) = Inl Overflow_Error"
  by (rule live_estimate_overflows [of _ 300000000])
    (simp_all add: demo_reading_def TOKEN_UNITS_def MAX_WALL_def as_utc_dt_def)

theorem blocks_partition_witness:
  "sum_list (map bl_total_tokens (blocks [] [] 0 1)) = sum_list (map row_tokens (in_range 0 1 []))"
  using blocks_partition [of "[]" "[]" 0 1] by (simp add: Let_def)

end
