(* ===== verification/Ingest_V1.thy ===== *)
theory Ingest_V1
  imports Registries Rollup_Laws Revision_Laws
begin

text \<open>
  The v1 ingest: \<open>services/validation.py\<close> and \<open>services/ingest.py\<close> (\<open>IngestService\<close>), which checks a batch,
  collapses duplicates, applies the registry policy, writes the events through the revision engine in keep-max
  mode, and refreshes the rollups of the touched days. The cost function, the clock and the optional
  collaborators are parameters; an exception rolls the transaction back.
\<close>

section \<open>Sanity checks\<close>

datatype v1_error =
    Token_Overflow string int
  | Future_Timestamp
  | Utilization_Too_High rat
  | Unregistered_Provider string
  | Source_Trouble source_error

definition MAX_TOKENS :: int where "MAX_TOKENS = 10000000000"

definition MAX_CLOCK_SKEW :: int where "MAX_CLOCK_SKEW = 2 * 3600 * 1000000"

definition MAX_UTILIZATION :: rat where "MAX_UTILIZATION = 1000"

definition validate_event :: "int \<Rightarrow> usage_event \<Rightarrow> v1_error option" where
  "validate_event now e =
     (case filter (\<lambda>(_, v). MAX_TOKENS < v)
        [(''input_tokens'', ue_input_tokens e), (''output_tokens'', ue_output_tokens e),
         (''cache_read_tokens'', ue_cache_read_tokens e),
         (''cache_write_short_tokens'', ue_cache_write_short_tokens e),
         (''cache_write_long_tokens'', ue_cache_write_long_tokens e)] of
        (name, v) # _ \<Rightarrow> Some (Token_Overflow name v)
      | [] \<Rightarrow> if now + MAX_CLOCK_SKEW < dt_instant (ue_ts e) then Some Future_Timestamp else None)"

definition validate_limit :: "int \<Rightarrow> limit_snapshot \<Rightarrow> v1_error option" where
  "validate_limit now s =
     (if MAX_UTILIZATION < ls_utilization_pct s then Some (Utilization_Too_High (ls_utilization_pct s))
      else if now + MAX_CLOCK_SKEW < dt_instant (ls_ts s) then Some Future_Timestamp else None)"

section \<open>From v1 to v2\<close>

record machine_info_in =
  mi_name :: string
  mi_platform :: "string option"
  mi_collector_version :: "string option"

definition v1_key :: "usage_event \<Rightarrow> string \<times> string" where
  "v1_key e = (ue_provider e, ue_event_id e)"

definition keep_larger :: "usage_event \<Rightarrow> (string \<times> string, usage_event) dict \<Rightarrow> (string \<times> string, usage_event) dict" where
  "keep_larger e best =
     (case dget best (v1_key e) of
        None \<Rightarrow> dset (v1_key e) e best
      | Some current \<Rightarrow> if ue_output_tokens current \<le> ue_output_tokens e then dset (v1_key e) e best else best)"

definition dedupe_keep_max :: "usage_event list \<Rightarrow> usage_event list" where
  "dedupe_keep_max events = map snd (fold keep_larger events [])"

definition COLLECTOR_SOURCE_NAME :: string where "COLLECTOR_SOURCE_NAME = ''claude-code-collector''"

definition v1_source :: "string \<Rightarrow> string option \<Rightarrow> source_ref" where
  "v1_source machine collector_version =
     \<lparr>sr_type = Collector_Source, sr_name = COLLECTOR_SOURCE_NAME, sr_version = str_or collector_version ''unknown'',
      sr_instance_id = Some machine\<rparr>"

definition v1_extra :: "usage_event \<Rightarrow> (string \<times> json) list" where
  "v1_extra e = dset ''_v1'' (JObj [(''git_branch'', jopt (ue_git_branch e)), (''client_version'', jopt (ue_client_version e)),
     (''entrypoint'', jopt (ue_entrypoint e)), (''is_sidechain'', JBool (ue_is_sidechain e)),
     (''session_kind'', jopt (ue_session_kind e)), (''speed'', jopt (ue_speed e)), (''source'', JStr ''collector'')])
     (ue_extra e)"

definition v1_to_v2 :: "usage_event \<Rightarrow> string \<Rightarrow> string option \<Rightarrow> usage_event_v2" where
  "v1_to_v2 e machine collector_version =
     (let m = str_or (ue_machine e) machine in
      \<lparr>e2_schema_version = 2, e2_event_id = ue_event_id e, e2_event_kind = Attempt, e2_finality = Final,
       e2_sequence = 0, e2_logical_request_id = None, e2_attempt_id = None, e2_provider_request_id = None,
       e2_provider_response_id = None, e2_provider = ue_provider e, e2_native_model = ue_native_model e,
       e2_requested_model = None, e2_routed_model = None, e2_ts_started = ue_ts e, e2_ts_first_token = None,
       e2_ts_completed = Some (ue_ts e), e2_machine = Some m, e2_project = ue_project e,
       e2_session_id = ue_session_id e, e2_agent_id = None, e2_environment = None,
       e2_input_tokens = ue_input_tokens e, e2_output_tokens = ue_output_tokens e,
       e2_cache_read_tokens = ue_cache_read_tokens e, e2_cache_write_short_tokens = ue_cache_write_short_tokens e,
       e2_cache_write_long_tokens = ue_cache_write_long_tokens e, e2_reasoning_tokens = 0, e2_success = True,
       e2_outcome = None, e2_http_status = None, e2_stop_reason = None, e2_service_tier = ue_service_tier e,
       e2_streaming = None, e2_latency_ms = None, e2_time_to_first_token_ms = None, e2_tool_call_count = 0,
       e2_tool_histogram = None, e2_provenance = ue_provenance e, e2_source = v1_source m collector_version,
       e2_routing = None, e2_dimensions = [], e2_billable_units = None, e2_observed_cost = None,
       e2_extra = v1_extra e, e2_trace_id = None, e2_span_id = None, e2_parent_span_id = None\<rparr>)"

section \<open>The service\<close>

record machine_row =
  mr_id :: string
  mr_platform :: "string option"
  mr_first_seen :: int
  mr_last_seen :: int
  mr_collector_version :: "string option"

record v1_db = rollup_db +
  vd_providers :: "provider_row list"
  vd_models :: "model_row list"
  vd_machines :: "machine_row list"
  vd_limits :: "limit_row list"

record v1_service =
  vs_cost_fn :: "usage_event \<Rightarrow> pydecimal option"
  vs_roots :: "string list"
  vs_has_providers :: bool
  vs_has_models :: bool
  vs_has_dq :: bool
  vs_policy :: string
  vs_health :: health_config
  vs_show_id :: "int \<Rightarrow> string"
  vs_dialect :: dialect

record ingest_counts =
  in_accepted :: nat
  in_duplicates_merged :: nat

definition set_dq :: "dq_table \<Rightarrow> v1_db \<Rightarrow> v1_db" where
  "set_dq dq db = db\<lparr>cd_ledger := (cd_ledger db)\<lparr>lb_dq := dq\<rparr>\<rparr>"

definition upsert_machine :: "machine_info_in \<Rightarrow> int \<Rightarrow> machine_row list \<Rightarrow> machine_row list" where
  "upsert_machine m now rows =
     (if mi_name m \<in> set (map mr_id rows)
      then map (\<lambda>r. if mr_id r = mi_name m
             then r\<lparr>mr_platform := mi_platform m, mr_last_seen := now, mr_collector_version := mi_collector_version m\<rparr>
             else r) rows
      else rows @ [\<lparr>mr_id = mi_name m, mr_platform = mi_platform m, mr_first_seen = now, mr_last_seen = now,
                    mr_collector_version = mi_collector_version m\<rparr>])"

definition touch_machine :: "machine_info_in \<Rightarrow> int \<Rightarrow> v1_db \<Rightarrow> v1_db" where
  "touch_machine m now db = db\<lparr>vd_machines := upsert_machine m now (vd_machines db)\<rparr>"

text \<open>The newest timestamp per key, in order of first occurrence.\<close>

definition note_latest :: "'k \<Rightarrow> py_datetime \<Rightarrow> ('k, py_datetime) dict \<Rightarrow> ('k, py_datetime) dict" where
  "note_latest k t d =
     (case dget d k of None \<Rightarrow> dset k t d
      | Some u \<Rightarrow> if dt_instant u < dt_instant t then dset k t d else d)"

fun resolve_providers ::
  "v1_service \<Rightarrow> int \<Rightarrow> (string \<times> py_datetime) list \<Rightarrow> provider_service \<times> v1_db \<Rightarrow> v1_error + provider_service \<times> v1_db" where
  "resolve_providers sv now [] st = Inr st"
| "resolve_providers sv now ((provider, ts) # rest) (ps, db) =
     (case resolve_provider_row provider (vs_policy sv) now (ps, vd_providers db) of (res, ps', rows') \<Rightarrow>
        if \<not> rn_accepted res then Inl (Unregistered_Provider provider)
        else
          let db' = db\<lparr>vd_providers := rows'\<rparr>;
              db'' = (if \<not> rn_registered res \<and> vs_has_dq sv
                then set_dq (dq_record_safe ''unknown_provider'' (rn_provider res) (dt_instant ts)
                       (Some [(''raw'', JStr provider)]) None (lb_dq (cd_ledger db'))) db'
                else db')
          in resolve_providers sv now rest (ps', db''))"

definition observe_one :: "v1_service \<Rightarrow> (string \<times> string) \<times> py_datetime \<Rightarrow> v1_db \<Rightarrow> v1_db" where
  "observe_one sv = (\<lambda>((provider, native_model), ts) db.
     (let (ob, rows) = observe_model provider native_model (Some (Aware ts)) (vd_models db);
          db' = db\<lparr>vd_models := rows\<rparr>
      in if ob_newly_observed ob \<and> vs_has_dq sv
         then set_dq (dq_record_safe ''unknown_model'' (provider @ ''/'' @ native_model) (dt_instant ts)
                (Some [(''provider'', JStr provider), (''native_model'', JStr native_model)]) None
                (lb_dq (cd_ledger db'))) db'
         else db'))"

definition apply_registry_policy :: "v1_service \<Rightarrow> int \<Rightarrow> usage_event list \<Rightarrow> v1_db \<Rightarrow> v1_error + v1_db" where
  "apply_registry_policy sv now events db =
     (let latest = fold (\<lambda>e. note_latest (ue_provider e, ue_native_model e) (ue_ts e)) events [];
          provider_ts = fold (\<lambda>e. note_latest (ue_provider e) (ue_ts e)) events []
      in case (if vs_has_providers sv then resolve_providers sv now provider_ts (new_provider_service, db)
               else Inr (new_provider_service, db)) of
           Inl err \<Rightarrow> Inl err
         | Inr (_, db1) \<Rightarrow> Inr (if vs_has_models sv then fold (observe_one sv) latest db1 else db1))"

definition v1_options :: "v1_service \<Rightarrow> int \<Rightarrow> usage_event \<Rightarrow> apply_options" where
  "v1_options sv source_id e =
     \<lparr>ao_mode = KEEP_MAX, ao_correction = False, ao_actor = None, ao_reason_text = None, ao_source_id = Some source_id,
      ao_cost = vs_cost_fn sv e\<rparr>"

definition mirror_event :: "v1_service \<Rightarrow> int \<Rightarrow> machine_info_in \<Rightarrow> int \<Rightarrow> usage_event \<Rightarrow> ledger \<Rightarrow> ledger" where
  "mirror_event sv now m source_id e st =
     snd (apply_event (vs_has_dq sv) now (v1_options sv source_id e) (v1_to_v2 e (mi_name m) (mi_collector_version m)) st)"

definition mirror_to_v2 :: "v1_service \<Rightarrow> int \<Rightarrow> machine_info_in \<Rightarrow> usage_event list \<Rightarrow> v1_db \<Rightarrow> v1_error + v1_db" where
  "mirror_to_v2 sv now m events db =
     (let latest = max_by dt_instant (map ue_ts events);
          ts = (case latest of None \<Rightarrow> as_utc_dt now | Some t \<Rightarrow> t)
      in case resolve_or_create (v1_source (mi_name m) (mi_collector_version m)) ts (Some (mi_name m)) None (cd_sources db) of
           Inl err \<Rightarrow> Inl (Source_Trouble err)
         | Inr (source_id, sources) \<Rightarrow>
             let db1 = db\<lparr>cd_sources := sources,
                   cd_ledger := fold (mirror_event sv now m source_id) events (cd_ledger db)\<rparr>
             in Inr (case latest of None \<Rightarrow> db1
                  | Some t \<Rightarrow>
                      let (sources', dq') = record_ingest (vs_health sv) source_id (as_utc_dt now) 1 (Some t) 0
                            (vs_show_id sv) (cd_sources db1, lb_dq (cd_ledger db1))
                      in set_dq (if vs_has_dq sv then dq' else lb_dq (cd_ledger db1)) (db1\<lparr>cd_sources := sources'\<rparr>)))"

definition affected_days :: "usage_event list \<Rightarrow> date list" where
  "affected_days events = sorted_list_of_set (set (map (\<lambda>e. dt_date (ue_ts e)) events))"

definition first_failure :: "('a \<Rightarrow> 'e option) \<Rightarrow> 'a list \<Rightarrow> 'e option" where
  "first_failure check xs = first_some check xs"

definition ingest_events_v1 ::
  "v1_service \<Rightarrow> int \<Rightarrow> machine_info_in \<Rightarrow> usage_event list \<Rightarrow> v1_db \<Rightarrow> v1_error + ingest_counts \<times> v1_db" where
  "ingest_events_v1 sv now m events db =
     (case first_failure (validate_event now) events of
        Some err \<Rightarrow> Inl err
      | None \<Rightarrow>
          let deduped = dedupe_keep_max events
          in case apply_registry_policy sv now deduped db of
               Inl err \<Rightarrow> Inl err
             | Inr db1 \<Rightarrow>
                 (case mirror_to_v2 sv now m deduped (touch_machine m now db1) of
                    Inl err \<Rightarrow> Inl err
                  | Inr db2 \<Rightarrow>
                      Inr (\<lparr>in_accepted = length deduped, in_duplicates_merged = length events - length deduped\<rparr>,
                           snd (refresh_rollups_for_days (affected_days deduped) (vs_roots sv) db2))))"

definition v1_limit_row :: "dialect \<Rightarrow> machine_info_in \<Rightarrow> limit_snapshot \<Rightarrow> limit_row" where
  "v1_limit_row dia m s =
     \<lparr>li_provider = ls_provider s, li_machine = Some (mi_name m), li_ts = db_store dia (ls_ts s),
      li_window_kind = ls_window_kind s, li_utilization_pct = ls_utilization_pct s,
      li_resets_at = map_option (db_store dia) (ls_resets_at s), li_provenance = provenance_str (ls_provenance s),
      li_account = None, li_organization = None, li_source_id = None, li_limit_amount = None, li_remaining = None,
      li_unit = None, li_raw = ls_raw s\<rparr>"

definition ingest_limits_v1 ::
  "v1_service \<Rightarrow> int \<Rightarrow> machine_info_in \<Rightarrow> limit_snapshot list \<Rightarrow> v1_db \<Rightarrow> v1_error + ingest_counts \<times> v1_db" where
  "ingest_limits_v1 sv now m snapshots db =
     (case first_failure (validate_limit now) snapshots of
        Some err \<Rightarrow> Inl err
      | None \<Rightarrow>
          Inr (\<lparr>in_accepted = length snapshots, in_duplicates_merged = 0\<rparr>,
               (touch_machine m now db)\<lparr>vd_limits := vd_limits db @ map (v1_limit_row (vs_dialect sv) m) snapshots\<rparr>))"

definition bootstrap_rollup_row :: "string \<Rightarrow> daily_aggregate \<Rightarrow> rollup_row" where
  "bootstrap_rollup_row machine a =
     \<lparr>ro_day = da_day a,
      ro_grain = \<lparr>rg_provider = da_provider a, rg_model = da_native_model a, rg_machine = str_or (da_machine a) machine,
        rg_project = [], rg_source = [], rg_environment = [], rg_billing_mode = ''api_billed''\<rparr>,
      ro_provenance = provenance_str (da_provenance a),
      ro_tokens = [da_input_tokens a, da_output_tokens a, da_cache_read_tokens a, da_cache_write_short_tokens a,
        da_cache_write_long_tokens a, 0, da_total_tokens a],
      ro_cost_usd = None, ro_cost_priced_usd = None, ro_cost_partial_usd = None, ro_cost_estimated_usd = None,
      ro_unpriced_event_count = 0, ro_subscription_value_usd = None\<rparr>"

definition ingest_bootstrap ::
  "int \<Rightarrow> machine_info_in \<Rightarrow> daily_aggregate list \<Rightarrow> v1_db \<Rightarrow> ingest_counts \<times> v1_db" where
  "ingest_bootstrap now m aggregates db =
     (let db1 = touch_machine m now db
      in (\<lparr>in_accepted = length aggregates, in_duplicates_merged = 0\<rparr>,
          db1\<lparr>rd_rollups := daily_rollups_upsert (map (bootstrap_rollup_row (mi_name m)) aggregates) (rd_rollups db1)\<rparr>))"

end
