(* ===== verification/Ingest_V1_Laws.thy ===== *)
theory Ingest_V1_Laws
  imports Ingest_V1 Ledger_Props
begin

text \<open>
  What the v1 ingest guarantees: a batch is collapsed to the largest event per id, and the output counter of an
  event never falls. Two theorems show where the code does less: days are refreshed by the local date of an
  event, and a keep-max write leaves no revision.
\<close>

section \<open>Collapsing a batch\<close>

lemma keep_larger_get: "dget (keep_larger e best) k =
    (if v1_key e = k
     then (case dget best k of None \<Rightarrow> Some e
           | Some c \<Rightarrow> if ue_output_tokens c \<le> ue_output_tokens e then Some e else Some c)
     else dget best k)"
  by (auto simp: keep_larger_def split: option.split)

lemma keep_larger_fold:
  "case dget (fold keep_larger events []) k of
     None \<Rightarrow> \<forall>x \<in> set events. v1_key x \<noteq> k
   | Some e \<Rightarrow> e \<in> set events \<and> v1_key e = k \<and> (\<forall>x \<in> set events. v1_key x = k \<longrightarrow> ue_output_tokens x \<le> ue_output_tokens e)"
  by (induction events rule: rev_induct) (auto simp: keep_larger_get split: option.splits)

lemma keep_larger_keys: "set (dkeys (fold keep_larger events [])) = v1_key ` set events"
proof -
  have "k \<in> set (dkeys (fold keep_larger events [])) \<longleftrightarrow> k \<in> v1_key ` set events" for k
    using keep_larger_fold [where k = k and events = events] dget_None_iff [of "fold keep_larger events []" k]
    by (cases "dget (fold keep_larger events []) k") (auto intro: rev_image_eqI)
  then show ?thesis by blast
qed

lemma keep_larger_distinct: "distinct (dkeys (fold keep_larger events []))"
proof -
  have "distinct (dkeys best) \<Longrightarrow> distinct (dkeys (fold keep_larger events best))" for best
  proof (induction events arbitrary: best)
    case (Cons e events)
    have "distinct (dkeys (keep_larger e best))"
      using Cons.prems by (auto simp: keep_larger_def distinct_update split: option.split)
    then show ?case using Cons.IH by simp
  qed simp
  then show ?thesis by simp
qed

lemma dedupe_event:
  assumes "e \<in> set events"
  shows "\<exists>d \<in> set (dedupe_keep_max events). v1_key d = v1_key e \<and> ue_output_tokens e \<le> ue_output_tokens d"
proof -
  obtain d where d: "dget (fold keep_larger events []) (v1_key e) = Some d"
    using keep_larger_fold [where k = "v1_key e" and events = events] assms by (cases "dget (fold keep_larger events []) (v1_key e)") auto
  then have "d \<in> set (dedupe_keep_max events)" unfolding dedupe_keep_max_def by (force dest: map_of_SomeD)
  moreover have "v1_key d = v1_key e \<and> ue_output_tokens e \<le> ue_output_tokens d"
    using keep_larger_fold [where k = "v1_key e" and events = events] d assms by auto
  ultimately show ?thesis by blast
qed

lemma dedupe_subset: "set (dedupe_keep_max events) \<subseteq> set events"
proof
  fix d assume "d \<in> set (dedupe_keep_max events)"
  then obtain k where "(k, d) \<in> set (fold keep_larger events [])" by (auto simp: dedupe_keep_max_def)
  then have "dget (fold keep_larger events []) k = Some d" using keep_larger_distinct by (simp add: map_of_is_SomeI)
  then show "d \<in> set events" using keep_larger_fold [where k = k and events = events] by simp
qed

lemma length_dedupe: "length (dedupe_keep_max events) = card (v1_key ` set events)"
  using distinct_card [OF keep_larger_distinct, of events] unfolding keep_larger_keys
  by (simp add: dedupe_keep_max_def)

section \<open>The ledger under v1 traffic\<close>

lemma event_key_v1 [simp]: "event_key (v1_to_v2 e machine version) = v1_key e"
  by (simp add: v1_to_v2_def event_key_def v1_key_def Let_def)

lemma output_v1 [simp]: "lg_output_tokens (usage_event_v2_row (v1_to_v2 e machine version) i c) = ue_output_tokens e"
  by (simp add: usage_event_v2_row_def v1_to_v2_def Let_def)

lemma v1_options_mode [simp]: "ao_mode (v1_options sv i e) = KEEP_MAX"
  by (simp add: v1_options_def)

lemma fingerprint_output: "row_fingerprint r = row_fingerprint q \<Longrightarrow> lg_output_tokens r = lg_output_tokens q"
  by (drule arg_cong [where f = lg_output_tokens]) (simp add: row_fingerprint_def)

lemma mirror_own: "\<exists>r. active_row (mirror_event sv now m i e st) (v1_key e) = Some r \<and> ue_output_tokens e \<le> lg_output_tokens r"
proof (cases "rd_write (event_decision (v1_options sv i e) (v1_to_v2 e (mi_name m) (mi_collector_version m)) st)")
  case True
  then show ?thesis by (simp add: mirror_event_def apply_active)
next
  case False
  then obtain r where r: "active_row st (v1_key e) = Some r"
    by (cases "active_row st (v1_key e)") (auto simp: event_decision_def resolve_def decision_def)
  have "ue_output_tokens e \<le> lg_output_tokens r"
    using False r by (auto simp: event_decision_def resolve_def resolve_keep_max_def decision_def
        split: if_splits dest!: fingerprint_output)
  then show ?thesis using False r by (simp add: mirror_event_def apply_active)
qed

lemma mirror_keeps:
  assumes "active_row st k = Some r"
  shows "\<exists>r'. active_row (mirror_event sv now m i e st) k = Some r' \<and> lg_output_tokens r \<le> lg_output_tokens r'"
proof (cases "k = v1_key e \<and> rd_write (event_decision (v1_options sv i e) (v1_to_v2 e (mi_name m) (mi_collector_version m)) st)")
  case True
  then show ?thesis
    using keep_max_write [of "v1_options sv i e" st "v1_to_v2 e (mi_name m) (mi_collector_version m)" r] assms
    by (simp add: mirror_event_def apply_active)
next
  case False
  then show ?thesis using assms by (auto simp: mirror_event_def apply_active)
qed

lemma mirror_all_keeps:
  "active_row st k = Some r \<Longrightarrow>
   \<exists>r'. active_row (fold (mirror_event sv now m i) es st) k = Some r' \<and> lg_output_tokens r \<le> lg_output_tokens r'"
proof (induction es arbitrary: st r)
  case (Cons e es)
  obtain r1 where "active_row (mirror_event sv now m i e st) k = Some r1" "lg_output_tokens r \<le> lg_output_tokens r1"
    using mirror_keeps [OF Cons.prems] by blast
  with Cons.IH [of "mirror_event sv now m i e st" r1] show ?case by force
qed simp

lemma mirror_all_own:
  "e \<in> set es \<Longrightarrow>
   \<exists>r. active_row (fold (mirror_event sv now m i) es st) (v1_key e) = Some r \<and> ue_output_tokens e \<le> lg_output_tokens r"
proof (induction es arbitrary: st)
  case (Cons x es)
  show ?case
  proof (cases "e \<in> set es")
    case False
    then have "e = x" using Cons.prems by simp
    then show ?thesis using mirror_own [of sv now m i x st] mirror_all_keeps [of "mirror_event sv now m i x st" "v1_key x"]
      by force
  qed (use Cons.IH in simp)
qed simp

section \<open>What the other steps leave alone\<close>

lemma active_row_events: "lb_events st = lb_events st' \<Longrightarrow> active_row st k = active_row st' k"
  by (simp add: active_row_def)

lemma set_dq_frame [simp]:
  "lb_events (cd_ledger (set_dq dq db)) = lb_events (cd_ledger db)" "lb_revisions (cd_ledger (set_dq dq db)) = lb_revisions (cd_ledger db)"
  "rd_rollups (set_dq dq db) = rd_rollups db"
  by (simp_all add: set_dq_def)

definition same_usage :: "v1_db \<Rightarrow> v1_db \<Rightarrow> bool" where
  "same_usage db db' \<longleftrightarrow> lb_events (cd_ledger db') = lb_events (cd_ledger db) \<and> rd_rollups db' = rd_rollups db"

lemma resolve_providers_frame:
  "resolve_providers sv now ps (s, db) = Inr (s', db') \<Longrightarrow> same_usage db db'"
proof (induction ps arbitrary: s db)
  case (Cons p ps)
  obtain provider ts where p: "p = (provider, ts)" by (cases p)
  obtain res s1 rows where r: "resolve_provider_row provider (vs_policy sv) now (s, vd_providers db) = (res, s1, rows)"
    by (cases "resolve_provider_row provider (vs_policy sv) now (s, vd_providers db)")
  let ?db1 = "db\<lparr>vd_providers := rows\<rparr>"
  let ?db2 = "if \<not> rn_registered res \<and> vs_has_dq sv
      then set_dq (dq_record_safe ''unknown_provider'' (rn_provider res) (dt_instant ts)
             (Some [(''raw'', JStr provider)]) None (lb_dq (cd_ledger ?db1))) ?db1 else ?db1"
  have go: "resolve_providers sv now ps (s1, ?db2) = Inr (s', db')"
    using Cons.prems unfolding p resolve_providers.simps r by (cases "rn_accepted res") (simp_all add: Let_def)
  have "same_usage db ?db2" by (simp add: same_usage_def)
  with Cons.IH [OF go] show ?case by (simp add: same_usage_def)
qed (simp add: same_usage_def)

lemma observe_frame: "same_usage db (fold (observe_one sv) ks db)"
proof (induction ks arbitrary: db)
  case (Cons k ks)
  have "same_usage db (observe_one sv k db)"
    by (cases k) (auto simp: observe_one_def same_usage_def Let_def split: prod.split)
  with Cons.IH [of "observe_one sv k db"] show ?case by (simp add: same_usage_def)
qed (simp add: same_usage_def)

lemma registry_frame:
  assumes "apply_registry_policy sv now es db = Inr db'"
  shows "same_usage db db'"
proof -
  obtain s db1 where 1: "(if vs_has_providers sv then resolve_providers sv now (fold (\<lambda>e. note_latest (ue_provider e) (ue_ts e)) es []) (new_provider_service, db)
      else Inr (new_provider_service, db)) = Inr (s, db1)"
    and db': "db' = (if vs_has_models sv then fold (observe_one sv) (fold (\<lambda>e. note_latest (ue_provider e, ue_native_model e) (ue_ts e)) es []) db1 else db1)"
    using assms by (auto simp: apply_registry_policy_def Let_def split: sum.splits)
  have "same_usage db db1" using 1 resolve_providers_frame by (auto simp: same_usage_def split: if_splits)
  then show ?thesis using observe_frame [of db1 sv] unfolding db' same_usage_def by simp
qed

lemma refresh_step: "snd (refresh_rollups_for_days (d # days) roots db) =
    snd (refresh_rollups_for_days days roots
      (let rows = aggregate_day db d roots in if rows = [] then db else db\<lparr>rd_rollups := daily_rollups_upsert rows (rd_rollups db)\<rparr>))"
  by (simp add: Let_def split: prod.split)

lemma refresh_frame: "cd_ledger (snd (refresh_rollups_for_days days roots db)) = cd_ledger db"
proof (induction days arbitrary: db)
  case (Cons d days)
  show ?case unfolding refresh_step Cons.IH by (simp add: Let_def)
qed simp

lemma upsert_other_day:
  "\<forall>q \<in> set new. ro_day q \<noteq> day \<Longrightarrow>
   filter (\<lambda>q. ro_day q = day) (daily_rollups_upsert new rows) = filter (\<lambda>q. ro_day q = day) rows"
proof (induction new arbitrary: rows)
  case (Cons q new)
  have "filter (\<lambda>q. ro_day q = day) (map (\<lambda>p. if ro_key p = ro_key q then q else p) rows) = filter (\<lambda>q. ro_day q = day) rows" for rows
    using Cons.prems by (induction rows) (auto simp: ro_key_def)
  then have "filter (\<lambda>q. ro_day q = day) (upsert_rollup q rows) = filter (\<lambda>q. ro_day q = day) rows"
    using Cons.prems by (simp add: upsert_rollup_def)
  then show ?case using Cons.IH [of "upsert_rollup q rows"] Cons.prems by (simp add: daily_rollups_upsert_def)
qed (simp add: daily_rollups_upsert_def)

lemma refresh_other_day:
  "day \<notin> set days \<Longrightarrow> filter (\<lambda>q. ro_day q = day) (rd_rollups (snd (refresh_rollups_for_days days roots db)))
     = filter (\<lambda>q. ro_day q = day) (rd_rollups db)"
proof (induction days arbitrary: db)
  case (Cons d days)
  have "\<forall>q \<in> set (aggregate_day db d roots). ro_day q \<noteq> day"
    using Cons.prems aggregate_day_rows by fastforce
  then show ?case using Cons upsert_other_day unfolding refresh_step by (simp add: Let_def)
qed simp

section \<open>The batch\<close>

lemma v1_batch:
  assumes "ingest_events_v1 sv now m events db = Inr (counts, db')"
  obtains db1 db2 i where "same_usage db db1"
    and "lb_events (cd_ledger db2) = lb_events (fold (mirror_event sv now m i) (dedupe_keep_max events) (cd_ledger db1))"
    and "rd_rollups db2 = rd_rollups db1"
    and "db' = snd (refresh_rollups_for_days (affected_days (dedupe_keep_max events)) (vs_roots sv) db2)"
    and "counts = \<lparr>in_accepted = length (dedupe_keep_max events),
           in_duplicates_merged = length events - length (dedupe_keep_max events)\<rparr>"
proof -
  let ?es = "dedupe_keep_max events"
  obtain db0 where p: "apply_registry_policy sv now ?es db = Inr db0"
    using assms by (auto simp: ingest_events_v1_def Let_def split: option.splits sum.splits)
  let ?db1 = "touch_machine m now db0"
  obtain db2 where w: "mirror_to_v2 sv now m ?es ?db1 = Inr db2"
    using assms p by (auto simp: ingest_events_v1_def Let_def split: option.splits sum.splits)
  have same: "same_usage db ?db1" using registry_frame [OF p] by (simp add: same_usage_def touch_machine_def)
  obtain i sources where src: "resolve_or_create (v1_source (mi_name m) (mi_collector_version m))
      (case max_by dt_instant (map ue_ts ?es) of None \<Rightarrow> as_utc_dt now | Some t \<Rightarrow> t) (Some (mi_name m)) None (cd_sources ?db1) = Inr (i, sources)"
    using w by (auto simp: mirror_to_v2_def Let_def split: sum.splits)
  have "lb_events (cd_ledger db2) = lb_events (fold (mirror_event sv now m i) ?es (cd_ledger ?db1)) \<and> rd_rollups db2 = rd_rollups ?db1"
    using w src by (auto simp: mirror_to_v2_def Let_def split: option.splits prod.splits)
  moreover have "db' = snd (refresh_rollups_for_days (affected_days ?es) (vs_roots sv) db2)
      \<and> counts = \<lparr>in_accepted = length ?es, in_duplicates_merged = length events - length ?es\<rparr>"
    using assms p w by (auto simp: ingest_events_v1_def Let_def split: option.splits)
  ultimately show thesis using that same by blast
qed

text \<open>
  C23. The v1 ingest keeps the maximum: after an accepted batch every event of it has an active row with at
  least its output tokens, whatever duplicates the batch held; no active row loses output tokens; and the
  counts account for the batch, the accepted being the distinct events. The hypothesis: the batch succeeded.
\<close>

theorem v1_ingest_keeps_max:
  assumes "ingest_events_v1 sv now m events db = Inr (counts, db')"
  shows "(\<forall>e \<in> set events. \<exists>r. active_row (cd_ledger db') (v1_key e) = Some r \<and> ue_output_tokens e \<le> lg_output_tokens r)
    \<and> (\<forall>k r. active_row (cd_ledger db) k = Some r \<longrightarrow>
         (\<exists>r'. active_row (cd_ledger db') k = Some r' \<and> lg_output_tokens r \<le> lg_output_tokens r'))
    \<and> in_accepted counts = card (v1_key ` set events)
    \<and> in_accepted counts + in_duplicates_merged counts = length events"
proof -
  obtain db1 db2 i where same: "same_usage db db1"
    and led: "lb_events (cd_ledger db2) = lb_events (fold (mirror_event sv now m i) (dedupe_keep_max events) (cd_ledger db1))"
    and db': "db' = snd (refresh_rollups_for_days (affected_days (dedupe_keep_max events)) (vs_roots sv) db2)"
    and counts: "counts = \<lparr>in_accepted = length (dedupe_keep_max events),
           in_duplicates_merged = length events - length (dedupe_keep_max events)\<rparr>"
    using v1_batch [OF assms] by metis
  let ?fin = "fold (mirror_event sv now m i) (dedupe_keep_max events) (cd_ledger db1)"
  have act: "active_row (cd_ledger db') k = active_row ?fin k" for k
    unfolding db' refresh_frame by (rule active_row_events) (rule led)
  have old: "active_row (cd_ledger db) k = active_row (cd_ledger db1) k" for k
    by (rule active_row_events) (use same in \<open>simp add: same_usage_def\<close>)
  have "\<exists>r. active_row ?fin (v1_key e) = Some r \<and> ue_output_tokens e \<le> lg_output_tokens r" if mem: "e \<in> set events" for e
  proof -
    obtain d where d: "d \<in> set (dedupe_keep_max events)" "v1_key d = v1_key e" "ue_output_tokens e \<le> ue_output_tokens d"
      using dedupe_event [OF mem] by blast
    from mirror_all_own [OF d(1), of sv now m i "cd_ledger db1"] d(2,3) show ?thesis by force
  qed
  moreover have "card (v1_key ` set events) \<le> length events" by (meson card_image_le card_length finite_set order_trans)
  ultimately show ?thesis unfolding act old using mirror_all_keeps by (auto simp: counts length_dedupe)
qed

text \<open>
  A limit of the v1 ingest: it refreshes the rollups of the local dates of its events, while a day of the
  rollups is a day in UTC. After an accepted batch the rows of every day that is not a local date of one of its
  events are as they were, even of a day that the batch has written events for. The hypotheses: the batch
  succeeded, an event of it lies on the day in UTC, and the day is the local date of none.
\<close>

theorem v1_local_day_stale:
  assumes "ingest_events_v1 sv now m events db = Inr (counts, db')"
    and "e \<in> set events" and "utc_date (dt_instant (ue_ts e)) = day" and "day \<notin> (dt_date \<circ> ue_ts) ` set events"
  shows "filter (\<lambda>q. ro_day q = day) (rd_rollups db') = filter (\<lambda>q. ro_day q = day) (rd_rollups db)
    \<and> (\<exists>r. active_row (cd_ledger db') (v1_key e) = Some r)"
proof -
  obtain db1 db2 i where same: "same_usage db db1"
    and led: "lb_events (cd_ledger db2) = lb_events (fold (mirror_event sv now m i) (dedupe_keep_max events) (cd_ledger db1))"
    and roll: "rd_rollups db2 = rd_rollups db1"
    and db': "db' = snd (refresh_rollups_for_days (affected_days (dedupe_keep_max events)) (vs_roots sv) db2)"
    using v1_batch [OF assms(1)] by metis
  have "day \<notin> set (affected_days (dedupe_keep_max events))"
    using assms(4) dedupe_subset [of events] by (auto simp: affected_days_def)
  from refresh_other_day [OF this, of "vs_roots sv" db2]
  have "filter (\<lambda>q. ro_day q = day) (rd_rollups db') = filter (\<lambda>q. ro_day q = day) (rd_rollups db)"
    using same by (simp add: db' roll same_usage_def)
  moreover have "\<exists>r. active_row (cd_ledger db') (v1_key e) = Some r"
  proof -
    obtain d where d: "d \<in> set (dedupe_keep_max events)" "v1_key d = v1_key e" using dedupe_event [OF assms(2)] by blast
    have "active_row (cd_ledger db') (v1_key e)
        = active_row (fold (mirror_event sv now m i) (dedupe_keep_max events) (cd_ledger db1)) (v1_key e)"
      unfolding db' refresh_frame by (rule active_row_events) (rule led)
    then show ?thesis using mirror_all_own [OF d(1), of sv now m i "cd_ledger db1"] d(2) by auto
  qed
  ultimately show ?thesis by blast
qed

text \<open>
  A limit of the keep-max mode: a v1 event replaces the active row of its id, a final v2 row included,
  whenever its output tokens are not fewer and anything else differs, and nothing of the replaced row is
  archived. The hypotheses say just that.
\<close>

theorem keep_max_leaves_no_history:
  assumes "active_row st (v1_key e) = Some r" and "lg_output_tokens r \<le> ue_output_tokens e"
    and "row_fingerprint (usage_event_v2_row (v1_to_v2 e (mi_name m) (mi_collector_version m)) (Some i) (vs_cost_fn sv e)) \<noteq> row_fingerprint r"
  shows "active_row (mirror_event sv now m i e st) (v1_key e)
      = Some (usage_event_v2_row (v1_to_v2 e (mi_name m) (mi_collector_version m)) (Some i) (vs_cost_fn sv e))
    \<and> lb_revisions (mirror_event sv now m i e st) = lb_revisions st"
proof -
  have "rd_write (event_decision (v1_options sv i e) (v1_to_v2 e (mi_name m) (mi_collector_version m)) st)"
    using assms by (simp add: event_decision_def resolve_def resolve_keep_max_def decision_def v1_options_def)
  then show ?thesis
    using keep_max_no_archive [of "v1_options sv i e" "v1_to_v2 e (mi_name m) (mi_collector_version m)" st]
    by (simp add: mirror_event_def apply_active apply_revisions) (simp add: v1_options_def)
qed

section \<open>Witnesses\<close>

definition demo_v1_service :: v1_service where
  "demo_v1_service = \<lparr>vs_cost_fn = \<lambda>_. None, vs_roots = [], vs_has_providers = False, vs_has_models = False,
     vs_has_dq = True, vs_policy = ''observe'', vs_health = default_health_config, vs_show_id = \<lambda>_. ''1'',
     vs_dialect = Postgres\<rparr>"

definition demo_v1_db :: v1_db where
  "demo_v1_db = \<lparr>db_cards = [], db_next_card = 1, db_settings = [], db_audit = [], cd_ledger = empty_ledger,
     cd_costs = [], cd_sources = \<lparr>st_rows = [], st_next = 1\<rparr>, rd_rollups = [], vd_providers = [], vd_models = [],
     vd_machines = [], vd_limits = []\<rparr>"

definition demo_machine :: machine_info_in where
  "demo_machine = \<lparr>mi_name = ''laptop'', mi_platform = None, mi_collector_version = None\<rparr>"

definition demo_usage :: "int \<Rightarrow> int \<Rightarrow> usage_event" where
  "demo_usage out offset = \<lparr>ue_event_id = ''r1'', ue_provider = ''anthropic'', ue_native_model = ''m'',
     ue_ts = \<lparr>dt_instant = 3600000000, dt_offset = offset\<rparr>, ue_machine = None, ue_session_id = None, ue_project = None,
     ue_git_branch = None, ue_client_version = None, ue_entrypoint = None, ue_is_sidechain = False,
     ue_session_kind = None, ue_input_tokens = 0, ue_output_tokens = out, ue_cache_read_tokens = 0,
     ue_cache_write_short_tokens = 0, ue_cache_write_long_tokens = 0, ue_service_tier = None, ue_speed = None,
     ue_provenance = LOCAL_ESTIMATE, ue_extra = []\<rparr>"

lemma demo_ingest_succeeds:
  assumes "first_failure (validate_event 0) events = None"
  obtains counts db' where "ingest_events_v1 demo_v1_service 0 demo_machine events demo_v1_db = Inr (counts, db')"
  using assms by (auto simp: ingest_events_v1_def apply_registry_policy_def mirror_to_v2_def resolve_or_create_def Let_def
      touch_machine_def demo_v1_service_def demo_v1_db_def split: sum.split prod.split)

lemmas demo_v1_simps = first_failure_def validate_event_def demo_usage_def MAX_TOKENS_def MAX_CLOCK_SKEW_def

theorem v1_ingest_keeps_max_witness:
  "\<exists>counts db' r. ingest_events_v1 demo_v1_service 0 demo_machine [demo_usage 3 0, demo_usage 9 0] demo_v1_db = Inr (counts, db')
    \<and> active_row (cd_ledger db') (''anthropic'', ''r1'') = Some r \<and> 9 \<le> lg_output_tokens r \<and> in_accepted counts = 1"
proof -
  obtain counts db' where run: "ingest_events_v1 demo_v1_service 0 demo_machine [demo_usage 3 0, demo_usage 9 0] demo_v1_db = Inr (counts, db')"
    by (rule demo_ingest_succeeds [of "[demo_usage 3 0, demo_usage 9 0]"]) (simp add: demo_v1_simps)
  from v1_ingest_keeps_max [OF run] run show ?thesis by (auto simp: demo_usage_def v1_key_def)
qed

theorem v1_local_day_stale_witness:
  "\<exists>counts db' r. ingest_events_v1 demo_v1_service 0 demo_machine [demo_usage 3 (- 18000000000)] demo_v1_db = Inr (counts, db')
    \<and> filter (\<lambda>q. ro_day q = 0) (rd_rollups db') = [] \<and> active_row (cd_ledger db') (''anthropic'', ''r1'') = Some r"
proof -
  obtain counts db' where run: "ingest_events_v1 demo_v1_service 0 demo_machine [demo_usage 3 (- 18000000000)] demo_v1_db = Inr (counts, db')"
    by (rule demo_ingest_succeeds [of "[demo_usage 3 (- 18000000000)]"]) (simp add: demo_v1_simps)
  from v1_local_day_stale [OF run, of "demo_usage 3 (- 18000000000)" 0] run show ?thesis
    by (auto simp: demo_usage_def v1_key_def utc_date_def dt_date_def demo_v1_db_def)
qed

theorem keep_max_leaves_no_history_witness:
  "lb_revisions (mirror_event demo_v1_service 0 demo_machine 1 (demo_usage 9 0) (empty_ledger\<lparr>lb_events :=
      [usage_event_v2_row (v1_to_v2 (demo_usage 3 0) ''laptop'' None) (Some 1) None]\<rparr>)) = []"
proof -
  let ?row = "\<lambda>out. usage_event_v2_row (v1_to_v2 (demo_usage out 0) ''laptop'' None) (Some 1) None"
  have key: "v1_key (demo_usage 3 0) = v1_key (demo_usage 9 0)" by (simp add: v1_key_def demo_usage_def)
  have a: "active_row (empty_ledger\<lparr>lb_events := [?row 3]\<rparr>) (v1_key (demo_usage 9 0)) = Some (?row 3)"
    using key by (simp add: active_row_def)
  have f: "row_fingerprint (usage_event_v2_row (v1_to_v2 (demo_usage 9 0) (mi_name demo_machine) (mi_collector_version demo_machine))
      (Some 1) (vs_cost_fn demo_v1_service (demo_usage 9 0))) \<noteq> row_fingerprint (?row 3)"
  proof
    assume "row_fingerprint (usage_event_v2_row (v1_to_v2 (demo_usage 9 0) (mi_name demo_machine) (mi_collector_version demo_machine))
      (Some 1) (vs_cost_fn demo_v1_service (demo_usage 9 0))) = row_fingerprint (?row 3)"
    from fingerprint_output [OF this] show False by (simp add: demo_usage_def)
  qed
  have o: "lg_output_tokens (?row 3) \<le> ue_output_tokens (demo_usage 9 0)" by (simp add: demo_usage_def)
  from keep_max_leaves_no_history [OF a o f, of 0] show ?thesis by (simp add: empty_ledger_def)
qed

end
