(* ===== verification/Alert_Rules.thy ===== *)
theory Alert_Rules
  imports Py_Text Ingest_V1 Limit_Analytics Ingest_V2
begin

text \<open>
  The alert conditions: \<open>services/alerting/filters.py\<close> and \<open>services/alerting/rules.py\<close>. A rule of a single kind
  is evaluated to one finding or none, a rule of a grouped kind to a finding per source. Floats are rationals;
  \<open>now\<close> is a UTC instant; \<open>show\<close> is \<open>str\<close> on the values that a filter or channel list does not hold when it
  comes through the API (floats, lists, objects). Queries without an order return rows in table order.
\<close>

section \<open>Rules and findings\<close>

record alert_rule =
  al_id :: int
  al_name :: string
  al_kind :: string
  al_threshold :: "rat option"
  al_warn_threshold :: "rat option"
  al_crit_threshold :: "rat option"
  al_window_kind :: "string option"
  al_channels :: json
  al_cooldown_seconds :: int
  al_quiet_hours :: json
  al_enabled :: bool
  al_config :: "(string \<times> json) list"
  al_state :: string
  al_last_fired_at :: "int option"
  al_entity_state :: "(string \<times> json) list option"

record alert_event =
  ae_rule_id :: int
  ae_ts :: int
  ae_severity :: string
  ae_title :: string
  ae_body :: string
  ae_delivered :: bool
  ae_context :: "(string \<times> json) list"

record alert_db = v1_db +
  ad_requests :: "logical_request list"
  ad_rules :: "alert_rule list"
  ad_events :: "alert_event list"

record alert_finding =
  fi_severity :: string
  fi_title :: string
  fi_body :: string
  fi_context :: "(string \<times> json) list"

record entity_finding =
  ef_key :: string
  ef_finding :: alert_finding

datatype alert_error = Unknown_Rule_Kind string | Config_Attribute_Error | Config_Type_Error | Alert_Overflow

definition bind_err :: "'e + 'a \<Rightarrow> ('a \<Rightarrow> 'e + 'b) \<Rightarrow> 'e + 'b" where
  "bind_err r f = (case r of Inl e \<Rightarrow> Inl e | Inr x \<Rightarrow> f x)"

lemma bind_err_simps [simp]: "bind_err (Inl e) f = Inl e" "bind_err (Inr x) f = f x"
  by (simp_all add: bind_err_def)

lemma bind_err_Inr: "bind_err r f = Inr y \<longleftrightarrow> (\<exists>x. r = Inr x \<and> f x = Inr y)"
  by (cases r) simp_all

fun str_join :: "string \<Rightarrow> string list \<Rightarrow> string" where
  "str_join sep [] = []"
| "str_join sep [x] = x"
| "str_join sep (x # y # xs) = x @ sep @ str_join sep (y # xs)"

section \<open>Filters\<close>

record alert_filters =
  af_provider :: "string list"
  af_model :: "string list"
  af_source :: "string list"
  af_project :: "string list"
  af_environment :: "string list"

definition filters_empty :: "alert_filters \<Rightarrow> bool" where
  "filters_empty f \<longleftrightarrow> af_provider f = [] \<and> af_model f = [] \<and> af_source f = [] \<and> af_project f = []
     \<and> af_environment f = []"

definition scoped_dimensions :: "alert_filters \<Rightarrow> string list" where
  "scoped_dimensions f = map fst (filter (\<lambda>(_, values). values \<noteq> [])
     [(''provider'', af_provider f), (''model'', af_model f), (''source'', af_source f), (''project'', af_project f),
      (''environment'', af_environment f)])"

text \<open>Truth of a JSON value, and \<open>str(item)\<close>.\<close>

fun json_truthy :: "json \<Rightarrow> bool" where
  "json_truthy JNull = False"
| "json_truthy (JBool b) = b"
| "json_truthy (JInt n) = (n \<noteq> 0)"
| "json_truthy (JNum q) = (q \<noteq> 0)"
| "json_truthy (JStr s) = (s \<noteq> [])"
| "json_truthy (JArr vs) = (vs \<noteq> [])"
| "json_truthy (JObj es) = (es \<noteq> [])"

fun item_str :: "(json \<Rightarrow> string) \<Rightarrow> json \<Rightarrow> string" where
  "item_str show (JStr s) = s"
| "item_str show JNull = ''None''"
| "item_str show (JBool b) = (if b then ''True'' else ''False'')"
| "item_str show (JInt n) = str_of_int n"
| "item_str show v = show v"

definition filter_values :: "(json \<Rightarrow> string) \<Rightarrow> (string \<times> json) list \<Rightarrow> string \<Rightarrow> alert_error + string list" where
  "filter_values show raw key =
     (case jget raw key of
        None \<Rightarrow> Inr []
      | Some v \<Rightarrow>
          if \<not> json_truthy v then Inr []
          else case v of
              JArr vs \<Rightarrow> Inr (map (item_str show) vs)
            | JObj es \<Rightarrow> Inr (map fst es)
            | JStr s \<Rightarrow> Inr (map (\<lambda>c. [c]) s)
            | _ \<Rightarrow> Inl Config_Type_Error)"

definition filters_from_config :: "(json \<Rightarrow> string) \<Rightarrow> (string \<times> json) list \<Rightarrow> alert_error + alert_filters" where
  "filters_from_config show config =
     bind_err (case jget config ''filters'' of
         None \<Rightarrow> Inr []
       | Some v \<Rightarrow> if \<not> json_truthy v then Inr []
           else (case v of JObj es \<Rightarrow> Inr es | _ \<Rightarrow> Inl Config_Attribute_Error)) (\<lambda>raw.
     bind_err (filter_values show raw ''provider'') (\<lambda>p.
     bind_err (filter_values show raw ''model'') (\<lambda>m.
     bind_err (filter_values show raw ''source'') (\<lambda>s.
     bind_err (filter_values show raw ''project'') (\<lambda>j.
     bind_err (filter_values show raw ''environment'') (\<lambda>e.
       Inr \<lparr>af_provider = p, af_model = m, af_source = s, af_project = j, af_environment = e\<rparr>))))))"

definition in_scope :: "string list \<Rightarrow> string option \<Rightarrow> bool" where
  "in_scope values v \<longleftrightarrow> values = [] \<or> (case v of None \<Rightarrow> False | Some s \<Rightarrow> s \<in> set values)"

definition ledger_filter :: "alert_filters \<Rightarrow> source_row list \<Rightarrow> ledger_row \<Rightarrow> bool" where
  "ledger_filter f sources r \<longleftrightarrow>
     in_scope (af_provider f) (Some (lg_provider r)) \<and> in_scope (af_model f) (Some (lg_native_model r))
     \<and> in_scope (af_project f) (lg_project r) \<and> in_scope (af_environment f) (lg_environment r)
     \<and> (af_source f = [] \<or>
        (case lg_source_id r of None \<Rightarrow> False
         | Some i \<Rightarrow> i \<in> set (map so_id (filter (\<lambda>s. so_name s \<in> set (af_source f)) sources))))"

section \<open>Thresholds\<close>

definition threshold :: "alert_rule \<Rightarrow> rat \<Rightarrow> rat" where
  "threshold rule dflt =
     (case al_warn_threshold rule of Some w \<Rightarrow> w
      | None \<Rightarrow> (case al_threshold rule of Some t \<Rightarrow> t | None \<Rightarrow> dflt))"

definition warn_crit :: "alert_rule \<Rightarrow> rat \<Rightarrow> rat \<Rightarrow> rat \<times> rat" where
  "warn_crit rule warn_default crit_default =
     (let warn = threshold rule warn_default;
          crit = (case al_crit_threshold rule of Some c \<Rightarrow> c | None \<Rightarrow> crit_default)
      in (warn, max warn crit))"

definition severity_for :: "rat \<Rightarrow> rat \<Rightarrow> rat \<Rightarrow> string option" where
  "severity_for v warn crit =
     (if crit \<le> v then Some ''critical'' else if warn \<le> v then Some ''warning'' else None)"

definition crossed :: "string \<Rightarrow> rat \<Rightarrow> rat \<Rightarrow> rat" where
  "crossed severity warn crit = (if severity = ''critical'' then crit else warn)"

definition minutes_before :: "int \<Rightarrow> rat \<Rightarrow> alert_error + int" where
  "minutes_before now minutes =
     (case add_minutes (as_utc_dt now) (- minutes) of Inl _ \<Rightarrow> Inl Alert_Overflow | Inr t \<Rightarrow> Inr (dt_instant t))"

definition json_strs :: "string list \<Rightarrow> json" where
  "json_strs xs = JArr (map JStr xs)"

text \<open>The finding of a measured value, or none below the warning threshold.\<close>

definition measured ::
  "rat \<Rightarrow> rat \<times> rat \<Rightarrow> (string \<Rightarrow> rat \<Rightarrow> alert_finding) \<Rightarrow> alert_finding option" where
  "measured v = (\<lambda>(warn, crit) found.
     map_option (\<lambda>severity. found severity (crossed severity warn crit)) (severity_for v warn crit))"

section \<open>The compatibility view of the ledger\<close>

definition v1_field :: "(string \<times> json) list \<Rightarrow> string \<Rightarrow> json option" where
  "v1_field extra key = (case jget extra ''_v1'' of Some (JObj d) \<Rightarrow> jget d key | _ \<Rightarrow> None)"

definition v1_text :: "(string \<times> json) list \<Rightarrow> string \<Rightarrow> string option" where
  "v1_text extra key = (case v1_field extra key of Some (JStr s) \<Rightarrow> Some s | _ \<Rightarrow> None)"

definition provenance_of :: "string \<Rightarrow> provenance" where
  "provenance_of s =
     (if s = ''official'' then OFFICIAL else if s = ''stats_cache'' then STATS_CACHE
      else if s = ''imported'' then IMPORTED else if s = ''adjusted'' then ADJUSTED else LOCAL_ESTIMATE)"

text \<open>A row of the view; a missing \<open>is_sidechain\<close>, which is \<open>NULL\<close> there, is read as false.\<close>

definition usage_view_row :: "ledger_row \<Rightarrow> usage_row" where
  "usage_view_row r =
     \<lparr>ue_event_id = lg_event_id r, ue_provider = lg_provider r, ue_native_model = lg_native_model r,
      ue_ts = as_utc_dt (lg_ts_started r), ue_machine = lg_machine r, ue_session_id = lg_session_id r,
      ue_project = lg_project r, ue_git_branch = v1_text (lg_extra r) ''git_branch'',
      ue_client_version = v1_text (lg_extra r) ''client_version'', ue_entrypoint = v1_text (lg_extra r) ''entrypoint'',
      ue_is_sidechain = (v1_field (lg_extra r) ''is_sidechain'' = Some (JBool True)),
      ue_session_kind = v1_text (lg_extra r) ''session_kind'', ue_input_tokens = lg_input_tokens r,
      ue_output_tokens = lg_output_tokens r, ue_cache_read_tokens = lg_cache_read_tokens r,
      ue_cache_write_short_tokens = lg_cache_write_short_tokens r,
      ue_cache_write_long_tokens = lg_cache_write_long_tokens r, ue_service_tier = lg_service_tier r,
      ue_speed = v1_text (lg_extra r) ''speed'', ue_provenance = provenance_of (lg_provenance r),
      ue_extra = filter (\<lambda>(k, _). k \<noteq> ''_v1'' \<and> k \<noteq> ''_backfill'') (lg_extra r),
      ur_cost_usd = map_option dec_value (lg_cost_usd r), ur_source = v1_text (lg_extra r) ''source''\<rparr>"

definition usage_view :: "ledger \<Rightarrow> usage_row list" where
  "usage_view st = map usage_view_row (filter (\<lambda>r. lg_event_kind r = ''attempt'') (lb_events st))"

section \<open>Limits and token flow\<close>

definition limit_pct_alert ::
  "(json \<Rightarrow> string) \<Rightarrow> alert_db \<Rightarrow> alert_rule \<Rightarrow> int \<Rightarrow> alert_error + alert_finding option" where
  "limit_pct_alert show db rule now =
     (let thresholds = warn_crit rule 80 95; window = str_or (al_window_kind rule) ''five_hour''
      in bind_err (filters_from_config show (al_config rule)) (\<lambda>f.
        let scoped = (if af_provider f = [] then [] else [''provider''])
        in Inr (first_some (\<lambda>s.
             if li_window_kind s \<noteq> window \<or> \<not> in_scope (af_provider f) (Some (li_provider s)) then None
             else measured (li_utilization_pct s) thresholds (\<lambda>severity limit.
               \<lparr>fi_severity = severity, fi_title = window @ '' at '' @ fmt_fixed 0 (li_utilization_pct s) @ ''%'',
                fi_body = ''Utilization '' @ fmt_fixed 1 (li_utilization_pct s) @ ''% has crossed the ''
                  @ fmt_fixed 0 limit @ ''% threshold.'',
                fi_context = [(''window_kind'', JStr window), (''utilization_pct'', JNum (li_utilization_pct s)),
                  (''scoped_dimensions'', json_strs scoped)]\<rparr>))
           (current_limits (vd_limits db)))))"

definition predicted_exhaustion_alert ::
  "(json \<Rightarrow> string) \<Rightarrow> alert_db \<Rightarrow> alert_rule \<Rightarrow> int \<Rightarrow> alert_error + alert_finding option" where
  "predicted_exhaustion_alert show db rule now =
     (case predict_exhaustion (vd_limits db) FIVE_HOUR (as_utc_dt now) 90 of
        Inl _ \<Rightarrow> Inl Alert_Overflow
      | Inr None \<Rightarrow> Inr None
      | Inr (Some p) \<Rightarrow>
          Inr (case (pd_predicted_exhaustion_at p, pd_resets_at p) of
             (Some at_time, Some resets) \<Rightarrow>
               if dt_instant at_time < dt_instant resets
               then Some \<lparr>fi_severity = ''warning'', fi_title = ''Predicted to hit the limit before reset'',
                 fi_body = ''At the current pace the 5-hour block reaches 100% at '' @ hour_minute at_time
                   @ '', before it resets at '' @ hour_minute resets @ ''.'',
                 fi_context = [(''predicted_exhaustion_at'', JStr (iso_format at_time)), (''resets_at'', JStr (iso_format resets))]\<rparr>
               else None
           | _ \<Rightarrow> None))"

definition ledger_tokens :: "ledger_row \<Rightarrow> int" where
  "ledger_tokens r = lg_input_tokens r + lg_output_tokens r + lg_cache_read_tokens r
     + lg_cache_write_short_tokens r + lg_cache_write_long_tokens r"

definition final_attempts_since :: "alert_db \<Rightarrow> int \<Rightarrow> alert_filters \<Rightarrow> ledger_row list" where
  "final_attempts_since db since f =
     filter (\<lambda>r. is_final_attempt r \<and> since \<le> lg_ts_started r \<and> ledger_filter f (st_rows (cd_sources db)) r)
       (lb_events (cd_ledger db))"

definition ledger_burn_rate :: "alert_db \<Rightarrow> int \<Rightarrow> alert_filters \<Rightarrow> rat" where
  "ledger_burn_rate db now f = of_int (sum_list (map ledger_tokens (final_attempts_since db (now - 60 * MINUTE_US) f))) / 60"

definition burn_rate_alert ::
  "(json \<Rightarrow> string) \<Rightarrow> alert_db \<Rightarrow> alert_rule \<Rightarrow> int \<Rightarrow> alert_error + alert_finding option" where
  "burn_rate_alert show db rule now =
     bind_err (filters_from_config show (al_config rule)) (\<lambda>f.
       let rate = (if filters_empty f then token_burn_rate (usage_view (cd_ledger db)) (as_utc_dt now) 60
                   else ledger_burn_rate db now f)
       in Inr (measured rate (warn_crit rule 5000 10000) (\<lambda>severity limit.
            \<lparr>fi_severity = severity, fi_title = ''High burn rate'',
             fi_body = ''Burning '' @ fmt_fixed 0 rate @ '' tokens/min (threshold '' @ fmt_fixed 0 limit @ '').'',
             fi_context = [(''burn_rate_per_min'', JNum rate), (''scoped_dimensions'', json_strs (scoped_dimensions f))]\<rparr>)))"

definition collector_stale_alert ::
  "(json \<Rightarrow> string) \<Rightarrow> alert_db \<Rightarrow> alert_rule \<Rightarrow> int \<Rightarrow> alert_error + alert_finding option" where
  "collector_stale_alert show db rule now =
     (let (warn, crit) = warn_crit rule 30 120
      in bind_err (minutes_before now warn) (\<lambda>cutoff.
        let rows = filter (\<lambda>m. mr_last_seen m < cutoff) (vd_machines db)
        in Inr (if rows = [] then None
          else
            let stale = map mr_id rows;
                worst = Max (set (map (\<lambda>m. minutes_between (as_utc_dt now) (as_utc_dt (mr_last_seen m))) rows));
                severity = (case severity_for worst warn crit of None \<Rightarrow> ''warning'' | Some s \<Rightarrow> s)
            in Some \<lparr>fi_severity = severity, fi_title = ''Collector stale'',
                 fi_body = ''No data from '' @ str_join '', '' stale @ '' for over '' @ fmt_fixed 0 warn @ '' minutes.'',
                 fi_context = [(''machines'', json_strs stale), (''worst_stale_minutes'', JNum (round_to 1 worst))]\<rparr>)))"

section \<open>Accounting gaps\<close>

definition ACCOUNTING_WINDOW :: int where "ACCOUNTING_WINDOW = DAY_US"

definition TOP_OFFENDERS :: nat where "TOP_OFFENDERS = 5"

definition ALERT_UNPRICED_STATUSES :: "string list" where "ALERT_UNPRICED_STATUSES = [''unpriced'', ''partial'']"

definition KNOWN_LIFECYCLES :: "string list" where "KNOWN_LIFECYCLES = [''active'', ''deprecated'', ''retired'']"

definition top_offenders :: "(string \<times> string, int) dict \<Rightarrow> json" where
  "top_offenders counts = JArr (map (\<lambda>((provider, model), n).
       JObj [(''provider'', JStr provider), (''model'', JStr model), (''count'', JInt n)])
     (take TOP_OFFENDERS (sort_key (\<lambda>(k, n). (- n, k)) counts)))"

definition open_dq_count :: "alert_db \<Rightarrow> string \<Rightarrow> int" where
  "open_dq_count db kind =
     int (length (filter (\<lambda>d. dq_kind d = kind \<and> \<not> dq_resolved d) (dq_rows (lb_dq (cd_ledger db)))))"

definition count_models :: "ledger_row list \<Rightarrow> (string \<times> string, int) dict" where
  "count_models rows = fold (\<lambda>r. dadd (lg_provider r, lg_native_model r) 1) rows []"

definition unpriced_rows :: "alert_db \<Rightarrow> int \<Rightarrow> alert_filters \<Rightarrow> ledger_row list" where
  "unpriced_rows db since f =
     concat (map (\<lambda>c. filter (\<lambda>r. row_key r = cost_key c \<and> since \<le> lg_ts_started r
                       \<and> ledger_filter f (st_rows (cd_sources db)) r) (lb_events (cd_ledger db)))
       (filter (\<lambda>c. cc_active c \<and> cc_cost_status c \<in> set ALERT_UNPRICED_STATUSES) (cd_costs db)))"

definition unpriced_events_alert ::
  "(json \<Rightarrow> string) \<Rightarrow> alert_db \<Rightarrow> alert_rule \<Rightarrow> int \<Rightarrow> alert_error + alert_finding option" where
  "unpriced_events_alert show db rule now =
     bind_err (filters_from_config show (al_config rule)) (\<lambda>f.
       let counts = count_models (unpriced_rows db (now - ACCOUNTING_WINDOW) f); n = dsum counts
       in Inr (measured (of_int n) (warn_crit rule 1 100) (\<lambda>severity limit.
            \<lparr>fi_severity = severity, fi_title = ''Unpriced usage'',
             fi_body = str_of_int n @ '' events in the last 1d are unpriced or partially priced (threshold ''
               @ fmt_fixed 0 limit @ '').'',
             fi_context = [(''unpriced_events'', JInt n), (''top_offenders'', top_offenders counts),
               (''open_data_quality_events'', JInt (open_dq_count db ''unpriced_usage'')),
               (''scoped_dimensions'', json_strs (scoped_dimensions f))]\<rparr>)))"

text \<open>The outer join with the registry: a row counts once per unknown match, or once when nothing matches.\<close>

definition unknown_rows :: "alert_db \<Rightarrow> int \<Rightarrow> alert_filters \<Rightarrow> ledger_row list" where
  "unknown_rows db since f =
     concat (map (\<lambda>r. case filter (\<lambda>m. model_key m = (lg_provider r, lg_native_model r)) (vd_models db) of
         [] \<Rightarrow> [r]
       | ms \<Rightarrow> map (\<lambda>_. r) (filter (\<lambda>m. mo_lifecycle m \<notin> set KNOWN_LIFECYCLES) ms))
     (final_attempts_since db since f))"

definition unknown_model_alert ::
  "(json \<Rightarrow> string) \<Rightarrow> alert_db \<Rightarrow> alert_rule \<Rightarrow> int \<Rightarrow> alert_error + alert_finding option" where
  "unknown_model_alert show db rule now =
     bind_err (filters_from_config show (al_config rule)) (\<lambda>f.
       let counts = count_models (unknown_rows db (now - ACCOUNTING_WINDOW) f); n = dsum counts
       in Inr (measured (of_int n) (warn_crit rule 1 25) (\<lambda>severity limit.
            \<lparr>fi_severity = severity, fi_title = ''Unknown model'',
             fi_body = str_of_int n @ '' events in the last 1d used a model the registry does not know (threshold ''
               @ fmt_fixed 0 limit @ '').'',
             fi_context = [(''unknown_model_events'', JInt n), (''top_offenders'', top_offenders counts),
               (''open_data_quality_events'', JInt (open_dq_count db ''unknown_model'')),
               (''scoped_dimensions'', json_strs (scoped_dimensions f))]\<rparr>)))"

section \<open>Reliability\<close>

definition config_int :: "alert_rule \<Rightarrow> string \<Rightarrow> int \<Rightarrow> int" where
  "config_int rule key dflt =
     (case jget (al_config rule) key of Some (JInt n) \<Rightarrow> if n < 1 then dflt else n | _ \<Rightarrow> dflt)"

definition percentile :: "int list \<Rightarrow> rat \<Rightarrow> rat" where
  "percentile values pct =
     (let ordered = sort values; rank = max 1 (nat \<lceil>pct / 100 * of_nat (length ordered)\<rceil>)
      in of_int (ordered ! (min rank (length ordered) - 1)))"

definition window_setup ::
  "(json \<Rightarrow> string) \<Rightarrow> alert_rule \<Rightarrow> int \<Rightarrow> alert_error + alert_filters \<times> int \<times> int \<times> int" where
  "window_setup show rule now =
     bind_err (filters_from_config show (al_config rule)) (\<lambda>f.
       let window = config_int rule ''window_minutes'' 60; min_samples = config_int rule ''min_samples'' 20
       in bind_err (minutes_before now (of_int window)) (\<lambda>since. Inr (f, window, min_samples, since)))"

definition failure_rate_alert ::
  "(json \<Rightarrow> string) \<Rightarrow> alert_db \<Rightarrow> alert_rule \<Rightarrow> int \<Rightarrow> alert_error + alert_finding option" where
  "failure_rate_alert show db rule now =
     bind_err (window_setup show rule now) (\<lambda>(f, window, min_samples, since).
       let rows = final_attempts_since db since f; n = int (length rows);
           failed = int (length (filter (\<lambda>r. \<not> lg_success r) rows)); pct = 100 * of_int failed / of_int n
       in Inr (if n < min_samples then None
          else measured pct (warn_crit rule 10 25) (\<lambda>severity limit.
            \<lparr>fi_severity = severity, fi_title = ''High failure rate'',
             fi_body = fmt_fixed 1 pct @ ''% of '' @ str_of_int n @ '' attempts in the last '' @ str_of_int window
               @ ''m failed (threshold '' @ fmt_fixed 0 limit @ ''%).'',
             fi_context = [(''failure_rate_pct'', JNum (round_to 2 pct)), (''failed'', JInt failed), (''sample_size'', JInt n),
               (''window_minutes'', JInt window), (''scoped_dimensions'', json_strs (scoped_dimensions f))]\<rparr>)))"

definition latency_p95_alert ::
  "(json \<Rightarrow> string) \<Rightarrow> alert_db \<Rightarrow> alert_rule \<Rightarrow> int \<Rightarrow> alert_error + alert_finding option" where
  "latency_p95_alert show db rule now =
     bind_err (window_setup show rule now) (\<lambda>(f, window, min_samples, since).
       let values = List.map_filter lg_latency_ms (final_attempts_since db since f); n = int (length values);
           p95 = percentile values 95
       in Inr (if n < min_samples then None
          else measured p95 (warn_crit rule 10000 30000) (\<lambda>severity limit.
            \<lparr>fi_severity = severity, fi_title = ''High latency (p95)'',
             fi_body = ''p95 latency '' @ fmt_fixed 0 p95 @ ''ms over '' @ str_of_int n @ '' attempts in the last ''
               @ str_of_int window @ ''m (threshold '' @ fmt_fixed 0 limit @ ''ms).'',
             fi_context = [(''latency_p95_ms'', JNum p95), (''sample_size'', JInt n), (''window_minutes'', JInt window),
               (''scoped_dimensions'', json_strs (scoped_dimensions f))]\<rparr>)))"

definition fallback_rate_alert ::
  "(json \<Rightarrow> string) \<Rightarrow> alert_db \<Rightarrow> alert_rule \<Rightarrow> int \<Rightarrow> alert_error + alert_finding option" where
  "fallback_rate_alert show db rule now =
     bind_err (window_setup show rule now) (\<lambda>(f, window, min_samples, since).
       let rows = filter (\<lambda>q. (case lr_ts_last q of None \<Rightarrow> False | Some t \<Rightarrow> since \<le> t)
                   \<and> in_scope (af_provider f) (Some (lr_provider q)) \<and> in_scope (af_model f) (lr_requested_model q))
             (ad_requests db);
           applied = (if af_provider f = [] then [] else [''provider'']) @ (if af_model f = [] then [] else [''model'']);
           n = int (length rows); fell_back = int (length (filter (\<lambda>q. 0 < lr_fallback_count q) rows));
           pct = 100 * of_int fell_back / of_int n
       in Inr (if n < min_samples then None
          else measured pct (warn_crit rule 10 25) (\<lambda>severity limit.
            \<lparr>fi_severity = severity, fi_title = ''High fallback rate'',
             fi_body = fmt_fixed 1 pct @ ''% of '' @ str_of_int n @ '' logical requests in the last '' @ str_of_int window
               @ ''m fell back (threshold '' @ fmt_fixed 0 limit @ ''%).'',
             fi_context = [(''fallback_rate_pct'', JNum (round_to 2 pct)), (''fell_back'', JInt fell_back),
               (''sample_size'', JInt n), (''window_minutes'', JInt window), (''scoped_dimensions'', json_strs applied)]\<rparr>)))"

section \<open>Findings per source\<close>

definition STALE_CRIT_MULTIPLE :: rat where "STALE_CRIT_MULTIPLE = 4"

definition stale_thresholds_minutes :: "alert_rule \<Rightarrow> rat \<Rightarrow> rat \<times> rat" where
  "stale_thresholds_minutes rule threshold_seconds =
     (let warn = threshold rule (threshold_seconds / 60);
          crit = (case al_crit_threshold rule of Some c \<Rightarrow> c | None \<Rightarrow> warn * STALE_CRIT_MULTIPLE)
      in (warn, max warn crit))"

definition stale_config :: "(string, rat) dict option \<Rightarrow> rat \<Rightarrow> health_config" where
  "stale_config thresholds default_stale =
     default_health_config\<lparr>hc_stale_thresholds := (case thresholds of
          None \<Rightarrow> hc_stale_thresholds default_health_config
        | Some d \<Rightarrow> if d = [] then hc_stale_thresholds default_health_config else d),
        hc_default_stale := default_stale\<rparr>"

definition scoped_sources :: "alert_db \<Rightarrow> alert_filters \<Rightarrow> source_row list" where
  "scoped_sources db f = filter (\<lambda>s. \<not> so_revoked s \<and> in_scope (af_source f) (Some (so_name s))) (st_rows (cd_sources db))"

definition source_context :: "source_row \<Rightarrow> (string \<times> json) list" where
  "source_context s = [(''source_id'', JInt (so_id s)), (''source_type'', JStr (so_type s)), (''source_name'', JStr (so_name s))]"

definition quoted :: "string \<Rightarrow> string" where
  "quoted s = CHR 0x27 # s @ [CHR 0x27]"

definition source_title :: "source_row \<Rightarrow> string" where
  "source_title s = ''Source '' @ quoted (so_name s) @ '' ('' @ so_type s @ '')''"

definition stale_finding :: "health_config \<Rightarrow> alert_rule \<Rightarrow> string list \<Rightarrow> int \<Rightarrow> source_row \<Rightarrow> entity_finding option" where
  "stale_finding cfg rule scoped now s =
     map_option (\<lambda>found. \<lparr>ef_key = str_of_int (so_id s), ef_finding = found\<rparr>)
     (let reference = as_utc_dt now;
          baseline = (case so_last_successful_ingest s of Some l \<Rightarrow> l | None \<Rightarrow> so_first_seen s);
          stale_minutes = minutes_between reference (as_naive baseline reference)
      in measured stale_minutes (stale_thresholds_minutes rule (staleness_threshold cfg (so_type s))) (\<lambda>severity limit.
           \<lparr>fi_severity = severity, fi_title = ''Source stale: '' @ so_name s,
            fi_body = source_title s @ '' has not ingested for '' @ fmt_fixed 0 stale_minutes
              @ '' min (threshold '' @ fmt_fixed 0 limit @ '').'',
            fi_context = source_context s
              @ [(''last_successful_ingest'', case so_last_successful_ingest s of None \<Rightarrow> JNull
                    | Some l \<Rightarrow> JStr (iso_format (as_naive l reference))),
                 (''stale_minutes'', JNum (round_to 1 stale_minutes)), (''scoped_dimensions'', json_strs scoped)]\<rparr>))"

definition evaluate_stale_sources ::
  "(json \<Rightarrow> string) \<Rightarrow> health_config \<Rightarrow> alert_db \<Rightarrow> alert_rule \<Rightarrow> int \<Rightarrow> alert_error + entity_finding list" where
  "evaluate_stale_sources show cfg db rule now =
     bind_err (filters_from_config show (al_config rule)) (\<lambda>f.
       Inr (List.map_filter (stale_finding cfg rule (scoped_dimensions f) now) (scoped_sources db f)))"

definition SUPPORTED_SCHEMA_VERSIONS :: "int list" where "SUPPORTED_SCHEMA_VERSIONS = [2]"

definition drift_finding :: "alert_rule \<Rightarrow> string list \<Rightarrow> int \<Rightarrow> source_row \<Rightarrow> entity_finding option" where
  "drift_finding rule scoped open_drift s =
     (let (warn, crit) = warn_crit rule 5 20;
          rejections = so_recent_error_count s;
          drifted = (case so_reported_schema_version s of None \<Rightarrow> False | Some v \<Rightarrow> v \<notin> set SUPPORTED_SCHEMA_VERSIONS);
          rejected = severity_for (of_int rejections) warn crit;
          supported = ''['' @ str_join '', '' (map str_of_int (sort SUPPORTED_SCHEMA_VERSIONS)) @ '']'';
          reasons = (case so_reported_schema_version s of
              Some v \<Rightarrow> if drifted then [''reports schema_version '' @ str_of_int v @ '' (supported: '' @ supported @ '')''] else []
            | None \<Rightarrow> [])
            @ (if rejected \<noteq> None then [str_of_int rejections @ '' recent validation rejections''] else [])
      in map_option (\<lambda>severity. \<lparr>ef_key = str_of_int (so_id s),
           ef_finding = \<lparr>fi_severity = severity, fi_title = ''Schema drift: '' @ so_name s,
             fi_body = source_title s @ '' '' @ str_join ''; '' reasons @ ''.'',
             fi_context = source_context s
               @ [(''reported_schema_version'', case so_reported_schema_version s of None \<Rightarrow> JNull | Some v \<Rightarrow> JInt v),
                  (''supported_schema_versions'', JArr (map JInt (sort SUPPORTED_SCHEMA_VERSIONS))),
                  (''version_drift'', JBool drifted), (''recent_error_count'', JInt rejections),
                  (''open_data_quality_events'', JInt open_drift), (''scoped_dimensions'', json_strs scoped)]\<rparr>\<rparr>)
         (if drifted then Some ''critical'' else rejected))"

definition evaluate_schema_drift ::
  "(json \<Rightarrow> string) \<Rightarrow> alert_db \<Rightarrow> alert_rule \<Rightarrow> alert_error + entity_finding list" where
  "evaluate_schema_drift show db rule =
     bind_err (filters_from_config show (al_config rule)) (\<lambda>f.
       Inr (List.map_filter (drift_finding rule (scoped_dimensions f) (open_dq_count db ''schema_drift'')) (scoped_sources db f)))"

section \<open>Dispatch on the kind\<close>

type_synonym evaluator = "alert_db \<Rightarrow> alert_rule \<Rightarrow> int \<Rightarrow> alert_error + alert_finding option"

definition EVALUATORS :: "(json \<Rightarrow> string) \<Rightarrow> (string, evaluator) dict" where
  "EVALUATORS show =
     [(''limit_pct'', limit_pct_alert show), (''predicted_exhaustion'', predicted_exhaustion_alert show),
      (''burn_rate'', burn_rate_alert show), (''collector_stale'', collector_stale_alert show),
      (''unpriced_events'', unpriced_events_alert show), (''unknown_model'', unknown_model_alert show),
      (''failure_rate'', failure_rate_alert show), (''latency_p95'', latency_p95_alert show),
      (''fallback_rate'', fallback_rate_alert show)]"

definition GROUPED_EVALUATOR_KINDS :: "string list" where
  "GROUPED_EVALUATOR_KINDS = [''stale_source'', ''schema_drift'']"

definition is_grouped_kind :: "string \<Rightarrow> bool" where
  "is_grouped_kind kind \<longleftrightarrow> kind \<in> set GROUPED_EVALUATOR_KINDS"

definition evaluate_rule ::
  "(json \<Rightarrow> string) \<Rightarrow> alert_db \<Rightarrow> alert_rule \<Rightarrow> int \<Rightarrow> alert_error + alert_finding option" where
  "evaluate_rule show db rule now =
     (case dget (EVALUATORS show) (al_kind rule) of
        None \<Rightarrow> Inl (Unknown_Rule_Kind (al_kind rule))
      | Some evaluator \<Rightarrow> evaluator db rule now)"

end
