(* ===== verification/Alert_Engine.thy ===== *)
theory Alert_Engine
  imports Alert_Rules Claude_Code
begin

text \<open>
  The alert engine: \<open>services/alerting/engine.py\<close>, the notifiers it calls (\<open>notifiers.py\<close>), the seed rules
  (\<open>seed.py\<close>) and the pass of the alert loop in \<open>app.py\<close>. The outside world is a state \<open>'w\<close> that sending changes;
  the vendor clients are functions on it. A failing evaluation raises: the caller rolls the tables back, while
  what was sent stays sent. The clock gives UTC instants; the time zone of the quiet hours is a function from
  an instant to its offset.
\<close>

section \<open>Notifiers\<close>

record 'w notifier =
  no_configured :: bool
  no_send :: "string \<Rightarrow> string \<Rightarrow> string \<Rightarrow> 'w \<Rightarrow> bool \<times> 'w"

record channel_settings =
  cs_ntfy_url :: string
  cs_ntfy_topic :: "string option"
  cs_dashboard_url :: "string option"
  cs_telegram_bot_token :: "string option"
  cs_telegram_chat_id :: "string option"
  cs_smtp_host :: "string option"
  cs_smtp_from :: "string option"
  cs_smtp_to :: "string option"

definition str_set :: "string option \<Rightarrow> bool" where
  "str_set x \<longleftrightarrow> (case x of None \<Rightarrow> False | Some s \<Rightarrow> s \<noteq> [])"

definition text_of :: "string option \<Rightarrow> string" where
  "text_of x = (case x of None \<Rightarrow> [] | Some s \<Rightarrow> s)"

definition NTFY_PRIORITY :: "(string, string) dict" where
  "NTFY_PRIORITY = [(''critical'', ''5''), (''warning'', ''4''), (''info'', ''3'')]"

definition strip_slashes :: "string \<Rightarrow> string" where
  "strip_slashes s = rev (dropWhile (\<lambda>c. c = CHR ''/'') (rev s))"

text \<open>The answer of the HTTP client: whether the response is a success, or nothing for an \<open>HTTPError\<close>.\<close>

type_synonym 'w http_post = "string \<Rightarrow> (string, string) dict \<Rightarrow> json \<Rightarrow> 'w \<Rightarrow> bool option \<times> 'w"

definition answered :: "bool option \<times> 'w \<Rightarrow> bool \<times> 'w" where
  "answered = (\<lambda>(r, w). (case r of None \<Rightarrow> False | Some ok \<Rightarrow> ok, w))"

definition ntfy_notifier :: "channel_settings \<Rightarrow> 'w http_post \<Rightarrow> 'w notifier" where
  "ntfy_notifier s post =
     \<lparr>no_configured = str_set (cs_ntfy_topic s),
      no_send = (\<lambda>title body severity w.
        if \<not> str_set (cs_ntfy_topic s) then (False, w)
        else answered (post (strip_slashes (cs_ntfy_url s) @ ''/'' @ text_of (cs_ntfy_topic s))
          ([(''Title'', title), (''Priority'', dget_or NTFY_PRIORITY severity ''3'')]
           @ (if str_set (cs_dashboard_url s) then [(''Click'', text_of (cs_dashboard_url s))] else []))
          (JStr body) w))\<rparr>"

definition telegram_notifier :: "channel_settings \<Rightarrow> 'w http_post \<Rightarrow> 'w notifier" where
  "telegram_notifier s post =
     (let ok = str_set (cs_telegram_bot_token s) \<and> str_set (cs_telegram_chat_id s)
      in \<lparr>no_configured = ok,
          no_send = (\<lambda>title body severity w.
            if \<not> ok then (False, w)
            else answered (post (''https://api.telegram.org/bot'' @ text_of (cs_telegram_bot_token s) @ ''/sendMessage'') []
              (JObj [(''chat_id'', jopt (cs_telegram_chat_id s)),
                 (''text'', JStr (''*'' @ title @ ''*'' @ CHR 0x0A # body)), (''parse_mode'', JStr ''Markdown'')]) w))\<rparr>)"

text \<open>SMTP: the subject, the sender, the receiver and the body; an error of the server is \<open>False\<close>.\<close>

definition smtp_notifier ::
  "channel_settings \<Rightarrow> (string \<Rightarrow> string \<Rightarrow> string \<Rightarrow> string \<Rightarrow> 'w \<Rightarrow> bool \<times> 'w) \<Rightarrow> 'w notifier" where
  "smtp_notifier s deliver =
     (let ok = str_set (cs_smtp_host s) \<and> str_set (cs_smtp_from s) \<and> str_set (cs_smtp_to s)
      in \<lparr>no_configured = ok,
          no_send = (\<lambda>title body severity w.
            if \<not> ok then (False, w) else deliver title (text_of (cs_smtp_from s)) (text_of (cs_smtp_to s)) body w)\<rparr>)"

definition build_notifiers ::
  "channel_settings \<Rightarrow> 'w http_post \<Rightarrow> (string \<Rightarrow> string \<Rightarrow> string \<Rightarrow> string \<Rightarrow> 'w \<Rightarrow> bool \<times> 'w)
   \<Rightarrow> (string, 'w notifier) dict" where
  "build_notifiers s post deliver =
     [(''ntfy'', ntfy_notifier s post), (''telegram'', telegram_notifier s post), (''smtp'', smtp_notifier s deliver)]"

section \<open>The engine\<close>

record 'w alert_engine =
  en_notifiers :: "(string, 'w notifier) dict"
  en_zone :: "int \<Rightarrow> int"
  en_stale_thresholds :: "(string, rat) dict option"
  en_default_stale :: rat
  en_show :: "json \<Rightarrow> string"

record fired_alert =
  fa_rule_name :: string
  fa_finding :: alert_finding
  fa_delivered :: bool

definition FIRING :: string where "FIRING = ''firing''"

definition NORMAL :: string where "NORMAL = ''normal''"

definition resolve_zone :: "(string \<Rightarrow> (int \<Rightarrow> int) option) \<Rightarrow> string \<Rightarrow> int \<Rightarrow> int" where
  "resolve_zone zones name = (case zones name of None \<Rightarrow> (\<lambda>_. 0) | Some z \<Rightarrow> z)"

definition reconfigure :: "(string, 'w notifier) dict \<Rightarrow> 'w alert_engine \<Rightarrow> 'w alert_engine" where
  "reconfigure notifiers en = en\<lparr>en_notifiers := notifiers\<rparr>"

definition in_quiet_hours :: "(int \<Rightarrow> int) \<Rightarrow> alert_rule \<Rightarrow> int \<Rightarrow> bool" where
  "in_quiet_hours zone rule now =
     (case al_quiet_hours rule of
        JObj quiet \<Rightarrow>
          (case (as_int (jget quiet ''start_hour''), as_int (jget quiet ''end_hour'')) of
             (Some start, Some end') \<Rightarrow>
               let hour = (now + zone now) mod DAY_US div HOUR_US
               in if start = end' then False
                  else if start < end' then start \<le> hour \<and> hour < end'
                  else start \<le> hour \<or> hour < end'
           | _ \<Rightarrow> False)
      | _ \<Rightarrow> False)"

definition channels :: "(json \<Rightarrow> string) \<Rightarrow> alert_rule \<Rightarrow> string list" where
  "channels show rule = (case al_channels rule of JArr vs \<Rightarrow> map (item_str show) vs | _ \<Rightarrow> [])"

definition dispatch_one :: "(string, 'w notifier) dict \<Rightarrow> alert_finding \<Rightarrow> string \<Rightarrow> bool \<times> 'w \<Rightarrow> bool \<times> 'w" where
  "dispatch_one notifiers f channel = (\<lambda>(delivered, w).
     (case dget notifiers channel of
        None \<Rightarrow> (delivered, w)
      | Some n \<Rightarrow>
          if \<not> no_configured n then (delivered, w)
          else (let (ok, w') = no_send n (fi_title f) (fi_body f) (fi_severity f) w in (delivered \<or> ok, w'))))"

definition dispatch :: "'w alert_engine \<Rightarrow> alert_rule \<Rightarrow> alert_finding \<Rightarrow> 'w \<Rightarrow> bool \<times> 'w" where
  "dispatch en rule f w = fold (dispatch_one (en_notifiers en) f) (channels (en_show en) rule) (False, w)"

definition test_channel :: "'w alert_engine \<Rightarrow> string \<Rightarrow> 'w \<Rightarrow> bool \<times> 'w" where
  "test_channel en channel w =
     (case dget (en_notifiers en) channel of
        None \<Rightarrow> (False, w)
      | Some n \<Rightarrow> if \<not> no_configured n then (False, w)
          else no_send n ''tokemetry test'' ''Test notification from tokemetry.'' ''info'' w)"

definition resolved_finding :: "alert_rule \<Rightarrow> alert_finding" where
  "resolved_finding rule =
     \<lparr>fi_severity = ''info'', fi_title = ''Resolved: '' @ al_name rule,
      fi_body = ''The condition for '' @ quoted (al_name rule) @ '' has cleared.'',
      fi_context = [(''resolved'', JBool True)]\<rparr>"

definition alert_event_of :: "alert_rule \<Rightarrow> int \<Rightarrow> alert_finding \<Rightarrow> bool \<Rightarrow> alert_event" where
  "alert_event_of rule now f delivered =
     \<lparr>ae_rule_id = al_id rule, ae_ts = now, ae_severity = fi_severity f, ae_title = fi_title f, ae_body = fi_body f,
      ae_delivered = delivered, ae_context = fi_context f\<rparr>"

definition record_event :: "alert_rule \<Rightarrow> int \<Rightarrow> alert_finding \<Rightarrow> bool \<Rightarrow> alert_db \<Rightarrow> alert_db" where
  "record_event rule now f delivered db = db\<lparr>ad_events := ad_events db @ [alert_event_of rule now f delivered]\<rparr>"

definition update_rule :: "int \<Rightarrow> (alert_rule \<Rightarrow> alert_rule) \<Rightarrow> alert_db \<Rightarrow> alert_db" where
  "update_rule i u db = db\<lparr>ad_rules := map (\<lambda>r. if al_id r = i then u r else r) (ad_rules db)\<rparr>"

definition rule_events :: "int \<Rightarrow> alert_db \<Rightarrow> alert_event list" where
  "rule_events i db = filter (\<lambda>e. ae_rule_id e = i) (ad_events db)"

definition in_cooldown :: "alert_rule \<Rightarrow> int \<Rightarrow> alert_db \<Rightarrow> bool" where
  "in_cooldown rule now db =
     (case max_by ae_ts (rule_events (al_id rule) db) of
        None \<Rightarrow> False
      | Some e \<Rightarrow> now - ae_ts e < al_cooldown_seconds rule * SECOND_US)"

section \<open>A rule with one finding\<close>

type_synonym 'w run_state = "alert_db \<times> 'w \<times> fired_alert list"

definition notify :: "'w alert_engine \<Rightarrow> alert_rule \<Rightarrow> int \<Rightarrow> alert_finding \<Rightarrow> 'w run_state \<Rightarrow> 'w run_state" where
  "notify en rule now f = (\<lambda>(db, w, fired).
     (let (delivered, w') = dispatch en rule f w
      in (record_event rule now f delivered db, w',
          fired @ [\<lparr>fa_rule_name = al_name rule, fa_finding = f, fa_delivered = delivered\<rparr>])))"

definition on_db :: "(alert_db \<Rightarrow> alert_db) \<Rightarrow> 'w run_state \<Rightarrow> 'w run_state" where
  "on_db f = (\<lambda>(db, w, fired). (f db, w, fired))"

definition run_single ::
  "'w alert_engine \<Rightarrow> alert_rule \<Rightarrow> int \<Rightarrow> alert_finding option \<Rightarrow> 'w run_state \<Rightarrow> 'w run_state" where
  "run_single en rule now found st =
     (case found of
        Some f \<Rightarrow>
          on_db (update_rule (al_id rule) (\<lambda>r. r\<lparr>al_state := FIRING\<rparr>))
            (if al_state rule \<noteq> FIRING \<or> \<not> in_cooldown rule now (fst st)
             then on_db (update_rule (al_id rule) (\<lambda>r. r\<lparr>al_last_fired_at := Some now\<rparr>)) (notify en rule now f st)
             else st)
      | None \<Rightarrow>
          if al_state rule = FIRING
          then on_db (update_rule (al_id rule) (\<lambda>r. r\<lparr>al_state := NORMAL\<rparr>)) (notify en rule now (resolved_finding rule) st)
          else st)"

section \<open>A rule with a finding per source\<close>

definition entity_firing :: "json option \<Rightarrow> bool" where
  "entity_firing prev = (case prev of Some (JObj d) \<Rightarrow> jget d ''state'' = Some (JStr FIRING) | _ \<Rightarrow> False)"

definition entity_last_fired :: "json option \<Rightarrow> json" where
  "entity_last_fired prev =
     (case prev of Some (JObj d) \<Rightarrow> (case jget d ''last_fired_at'' of None \<Rightarrow> JNull | Some v \<Rightarrow> v) | _ \<Rightarrow> JNull)"

definition entity_in_cooldown :: "json option \<Rightarrow> int \<Rightarrow> int \<Rightarrow> bool" where
  "entity_in_cooldown prev cooldown now =
     (case entity_last_fired prev of
        JStr raw \<Rightarrow>
          (case parse_iso raw of None \<Rightarrow> False
           | Some t \<Rightarrow> now - dt_instant (raw_as_utc t) < cooldown * SECOND_US)
      | _ \<Rightarrow> False)"

definition entity_entry :: "string \<Rightarrow> json \<Rightarrow> json" where
  "entity_entry state last_fired = JObj [(''state'', JStr state), (''last_fired_at'', last_fired)]"

definition resolved_entity :: "alert_db \<Rightarrow> alert_rule \<Rightarrow> string \<Rightarrow> alert_finding option" where
  "resolved_entity db rule key =
     (case int_of_str key of
        None \<Rightarrow> None
      | Some i \<Rightarrow>
          (case find (\<lambda>s. so_id s = i) (st_rows (cd_sources db)) of
             None \<Rightarrow> None
           | Some s \<Rightarrow>
               if so_revoked s then None
               else Some \<lparr>fi_severity = ''info'', fi_title = ''Resolved: source '' @ so_name s,
                 fi_body = source_title s @ (if al_kind rule = ''schema_drift''
                   then '' is back on a supported schema with no recent rejections.'' else '' is ingesting again.''),
                 fi_context = (''resolved'', JBool True) # source_context s\<rparr>))"

definition fire_entity ::
  "'w alert_engine \<Rightarrow> alert_rule \<Rightarrow> int \<Rightarrow> entity_finding \<Rightarrow> (string, json) dict \<times> nat \<times> 'w run_state
   \<Rightarrow> (string, json) dict \<times> nat \<times> 'w run_state" where
  "fire_entity en rule now entity = (\<lambda>(state, fires, st).
     (let prev = dget state (ef_key entity)
      in if entity_firing prev \<and> entity_in_cooldown prev (al_cooldown_seconds rule) now then (state, fires, st)
         else (dset (ef_key entity) (entity_entry FIRING (JStr (iso_format (as_utc_dt now)))) state, fires + 1,
               notify en rule now (ef_finding entity) st)))"

definition clear_entity ::
  "'w alert_engine \<Rightarrow> alert_rule \<Rightarrow> int \<Rightarrow> string list \<Rightarrow> string \<times> json \<Rightarrow> (string, json) dict \<times> 'w run_state
   \<Rightarrow> (string, json) dict \<times> 'w run_state" where
  "clear_entity en rule now active = (\<lambda>(key, prev) (state, st).
     (if \<not> entity_firing (Some prev) \<or> key \<in> set active then (state, st)
      else case resolved_entity (fst st) rule key of
          None \<Rightarrow> (AList.delete key state, st)
        | Some f \<Rightarrow> (dset key (entity_entry NORMAL (entity_last_fired (Some prev))) state, notify en rule now f st)))"

definition run_grouped ::
  "'w alert_engine \<Rightarrow> alert_rule \<Rightarrow> int \<Rightarrow> entity_finding list \<Rightarrow> 'w run_state \<Rightarrow> 'w run_state" where
  "run_grouped en rule now findings st =
     (let start = (case al_entity_state rule of None \<Rightarrow> [] | Some d \<Rightarrow> d);
          active = map ef_key findings;
          (state, fires, st1) = fold (fire_entity en rule now) findings (start, 0, st);
          (state', st2) = fold (clear_entity en rule now active) state (state, st1)
      in on_db (update_rule (al_id rule) (\<lambda>r. r\<lparr>al_entity_state := Some state',
            al_state := (if active \<noteq> [] then FIRING else NORMAL),
            al_last_fired_at := (if fires \<noteq> 0 then Some now else al_last_fired_at r)\<rparr>)) st2)"

definition evaluate_grouped :: "'w alert_engine \<Rightarrow> alert_db \<Rightarrow> alert_rule \<Rightarrow> int \<Rightarrow> alert_error + entity_finding list" where
  "evaluate_grouped en db rule now =
     (if al_kind rule = ''schema_drift'' then evaluate_schema_drift (en_show en) db rule
      else evaluate_stale_sources (en_show en) (stale_config (en_stale_thresholds en) (en_default_stale en)) db rule now)"

section \<open>A pass over the rules\<close>

definition run_rule :: "'w alert_engine \<Rightarrow> int \<Rightarrow> alert_rule \<Rightarrow> 'w run_state \<Rightarrow> alert_error + 'w run_state" where
  "run_rule en now rule st =
     (if in_quiet_hours (en_zone en) rule now then Inr st
      else if is_grouped_kind (al_kind rule)
      then bind_err (evaluate_grouped en (fst st) rule now) (\<lambda>findings. Inr (run_grouped en rule now findings st))
      else bind_err (evaluate_rule (en_show en) (fst st) rule now) (\<lambda>found. Inr (run_single en rule now found st)))"

text \<open>The result of a pass, with the outside world as it was when the pass ended or raised.\<close>

fun run_rules :: "'w alert_engine \<Rightarrow> int \<Rightarrow> alert_rule list \<Rightarrow> 'w run_state \<Rightarrow> (alert_error + alert_db \<times> fired_alert list) \<times> 'w" where
  "run_rules en now [] (db, w, fired) = (Inr (db, fired), w)"
| "run_rules en now (rule # rules) (db, w, fired) =
     (case run_rule en now rule (db, w, fired) of
        Inl e \<Rightarrow> (Inl e, w)
      | Inr st \<Rightarrow> run_rules en now rules st)"

definition run_engine :: "'w alert_engine \<Rightarrow> int \<Rightarrow> alert_db \<Rightarrow> 'w \<Rightarrow> (alert_error + alert_db \<times> fired_alert list) \<times> 'w" where
  "run_engine en now db w = run_rules en now (filter al_enabled (ad_rules db)) (db, w, [])"

text \<open>One iteration of the alert loop: commit, or roll back and log.\<close>

definition alert_pass :: "'w alert_engine \<Rightarrow> int \<Rightarrow> alert_db \<times> 'w \<Rightarrow> alert_db \<times> 'w" where
  "alert_pass en now = (\<lambda>(db, w).
     (case run_engine en now db w of (Inl _, w') \<Rightarrow> (db, w') | (Inr (db', _), w') \<Rightarrow> (db', w')))"

section \<open>The default rules\<close>

definition new_rule :: "string \<Rightarrow> string \<Rightarrow> string option \<Rightarrow> (rat \<times> rat) option \<Rightarrow> alert_rule" where
  "new_rule name kind wk thresholds =
     \<lparr>al_id = 0, al_name = name, al_kind = kind, al_threshold = None, al_warn_threshold = map_option fst thresholds,
      al_crit_threshold = map_option snd thresholds, al_window_kind = wk, al_channels = JArr [JStr ''ntfy''],
      al_cooldown_seconds = 3600, al_quiet_hours = JNull, al_enabled = True, al_config = [], al_state = NORMAL,
      al_last_fired_at = None, al_entity_state = None\<rparr>"

definition default_rules :: "alert_rule list" where
  "default_rules =
     [new_rule ''5-hour block'' ''limit_pct'' (Some ''five_hour'') (Some (80, 95)),
      new_rule ''Weekly limit'' ''limit_pct'' (Some ''seven_day'') (Some (80, 95)),
      new_rule ''Predicted exhaustion'' ''predicted_exhaustion'' None None,
      new_rule ''Collector offline'' ''collector_stale'' None (Some (30, 120))]"

definition number_rules :: "alert_rule list \<Rightarrow> alert_rule list" where
  "number_rules rules = map (\<lambda>(i, r). r\<lparr>al_id := int i\<rparr>) (enumerate 1 rules)"

definition seed_default_alert_rules :: "alert_db \<Rightarrow> nat \<times> alert_db" where
  "seed_default_alert_rules db =
     (if ad_rules db \<noteq> [] then (0, db)
      else (length default_rules, db\<lparr>ad_rules := number_rules default_rules\<rparr>))"

end
