(* ===== verification/Alert_Laws.thy ===== *)
theory Alert_Laws
  imports Alert_Engine
begin

text \<open>
  What the alerts guarantee. A pass does to a rule with one finding exactly what its own state, its own log and
  its finding on the tables before the pass say: a fire, a recovery or nothing. As long as nothing but the passes
  changes the rules and the log, the log of such a rule is a sequence of fires and recoveries, with the repeated
  fires a cooldown apart, and agrees with the state of the rule. The entities of a grouped rule are handled one by one. A percentile is a nearest rank. Two
  theorems show limits: the two burn rates differ by the snapshots, and a rule that cannot be evaluated makes
  every pass repeat the notifications of the rules before it.
\<close>

section \<open>Fires and recoveries\<close>

definition recovery_context :: "(string \<times> json) list \<Rightarrow> bool" where
  "recovery_context c \<longleftrightarrow> map_of c ''resolved'' = Some (JBool True)"

definition is_recovery :: "alert_event \<Rightarrow> bool" where
  "is_recovery e \<longleftrightarrow> recovery_context (ae_context e)"

definition follows :: "int \<Rightarrow> alert_event \<Rightarrow> alert_event \<Rightarrow> bool" where
  "follows cooldown a b \<longleftrightarrow>
     (if is_recovery b then \<not> is_recovery a else is_recovery a \<or> cooldown * SECOND_US \<le> ae_ts b - ae_ts a)"

definition log_ok :: "int \<Rightarrow> alert_event list \<Rightarrow> bool" where
  "log_ok cooldown events \<longleftrightarrow> (events = [] \<or> \<not> is_recovery (hd events)) \<and> successively (follows cooldown) events"

definition log_firing :: "alert_event list \<Rightarrow> bool" where
  "log_firing events \<longleftrightarrow> events \<noteq> [] \<and> \<not> is_recovery (last events)"

lemma log_ok_snoc: "log_ok cooldown (es @ [e]) \<longleftrightarrow>
    log_ok cooldown es \<and> (if es = [] then \<not> is_recovery e else follows cooldown (last es) e)"
  using successively_append_iff [of "follows cooldown" es "[e]"] by (cases "es = []") (auto simp: log_ok_def)

lemma log_firing_snoc [simp]: "log_firing (es @ [e]) \<longleftrightarrow> \<not> is_recovery e"
  by (simp add: log_firing_def)

lemma measured_found:
  assumes "measured v thresholds found = Some f"
  obtains severity limit where "f = found severity limit"
  using assms by (auto simp: measured_def split: prod.split_asm)

lemma plain_context [simp]: "recovery_context [] = False"
  "recovery_context ((k, v) # c) = (if k = ''resolved'' then v = JBool True else recovery_context c)"
  by (simp_all add: recovery_context_def)

lemma first_some_Some: "first_some g xs = Some y \<Longrightarrow> \<exists>x \<in> set xs. g x = Some y"
  by (induction xs) (auto split: option.splits)

lemma evaluators_fire:
  assumes "evaluate_rule show db rule now = Inr (Some f)"
  shows "\<not> recovery_context (fi_context f)"
proof -
  obtain ev where ev: "dget (EVALUATORS show) (al_kind rule) = Some ev" "ev db rule now = Inr (Some f)"
    using assms by (auto simp: evaluate_rule_def split: option.splits)
  have "ev \<in> {limit_pct_alert show, predicted_exhaustion_alert show, burn_rate_alert show, collector_stale_alert show,
      unpriced_events_alert show, unknown_model_alert show, failure_rate_alert show, latency_p95_alert show,
      fallback_rate_alert show}"
    using ev(1) by (auto simp: EVALUATORS_def split: if_splits)
  then consider "ev = limit_pct_alert show" | "ev = predicted_exhaustion_alert show" | "ev = burn_rate_alert show"
    | "ev = collector_stale_alert show" | "ev = unpriced_events_alert show" | "ev = unknown_model_alert show"
    | "ev = failure_rate_alert show" | "ev = latency_p95_alert show" | "ev = fallback_rate_alert show" by blast
  then show ?thesis
  proof cases
    case 1
    then show ?thesis using ev(2)
      by (auto simp: limit_pct_alert_def Let_def bind_err_Inr dest!: first_some_Some elim!: measured_found split: if_split_asm)
  next
    case 2
    then show ?thesis using ev(2)
      by (auto simp: predicted_exhaustion_alert_def split: if_split_asm option.split_asm sum.split_asm)
  next
    case 3
    then show ?thesis using ev(2) by (auto simp: burn_rate_alert_def Let_def bind_err_Inr elim!: measured_found)
  next
    case 4
    then show ?thesis using ev(2)
      by (auto simp: collector_stale_alert_def Let_def bind_err_Inr split: prod.split_asm if_split_asm)
  next
    case 5
    then show ?thesis using ev(2) by (auto simp: unpriced_events_alert_def Let_def bind_err_Inr elim!: measured_found)
  next
    case 6
    then show ?thesis using ev(2) by (auto simp: unknown_model_alert_def Let_def bind_err_Inr elim!: measured_found)
  next
    case 7
    then show ?thesis using ev(2)
      by (auto simp: failure_rate_alert_def Let_def bind_err_Inr elim!: measured_found split: if_split_asm)
  next
    case 8
    then show ?thesis using ev(2)
      by (auto simp: latency_p95_alert_def Let_def bind_err_Inr elim!: measured_found split: if_split_asm)
  next
    case 9
    then show ?thesis using ev(2)
      by (auto simp: fallback_rate_alert_def Let_def bind_err_Inr elim!: measured_found split: if_split_asm)
  qed
qed

section \<open>What handling one rule can touch\<close>

definition rule_core :: "alert_rule \<Rightarrow> int \<times> string \<times> int" where
  "rule_core r = (al_id r, al_kind r, al_cooldown_seconds r)"

definition touches :: "alert_rule \<Rightarrow> int \<Rightarrow> alert_db \<Rightarrow> alert_db \<Rightarrow> bool" where
  "touches rule now db db' \<longleftrightarrow>
     (\<exists>u. ad_rules db' = map (\<lambda>r. if al_id r = al_id rule then u r else r) (ad_rules db) \<and> (\<forall>r. rule_core (u r) = rule_core r))
     \<and> (\<exists>es. ad_events db' = ad_events db @ es \<and> (\<forall>e \<in> set es. ae_rule_id e = al_id rule \<and> ae_ts e = now))"

lemma touches_refl [simp]: "touches rule now db db"
  unfolding touches_def by (intro conjI exI [of _ "\<lambda>r. r"] exI [of _ "[]"]) simp_all

lemma touches_trans:
  assumes "touches rule now a b" and "touches rule now b c"
  shows "touches rule now a c"
proof -
  obtain u v where u: "ad_rules b = map (\<lambda>r. if al_id r = al_id rule then u r else r) (ad_rules a)" "\<forall>r. rule_core (u r) = rule_core r"
    and v: "ad_rules c = map (\<lambda>r. if al_id r = al_id rule then v r else r) (ad_rules b)" "\<forall>r. rule_core (v r) = rule_core r"
    using assms unfolding touches_def by blast
  have id: "al_id (u r) = al_id r" for r using u(2) by (auto simp: rule_core_def dest: spec [of _ r])
  have "ad_rules c = map (\<lambda>r. if al_id r = al_id rule then v (u r) else r) (ad_rules a)" using u(1) v(1) id by auto
  moreover have "\<forall>r. rule_core (v (u r)) = rule_core r" using u(2) v(2) by simp
  moreover obtain es fs where "ad_events b = ad_events a @ es" "ad_events c = ad_events b @ fs"
    "\<forall>e \<in> set es. ae_rule_id e = al_id rule \<and> ae_ts e = now" "\<forall>e \<in> set fs. ae_rule_id e = al_id rule \<and> ae_ts e = now"
    using assms unfolding touches_def by blast
  ultimately show ?thesis unfolding touches_def
    by (intro conjI exI [of _ "\<lambda>r. v (u r)"] exI [of _ "es @ fs"]) auto
qed

lemma touches_update:
  "(\<And>r. rule_core (u r) = rule_core r) \<Longrightarrow> touches rule now db (update_rule (al_id rule) u db)"
  unfolding touches_def update_rule_def by (intro conjI exI [of _ u] exI [of _ "[]"]) simp_all

lemma notify_db: "fst (notify en rule now f st) = record_event rule now f (fst (dispatch en rule f (fst (snd st)))) (fst st)"
  by (cases st) (simp add: notify_def split: prod.split)

lemma fst_on_db [simp]: "fst (on_db g st) = g (fst st)"
  by (cases st) (simp add: on_db_def)

lemma touches_notify: "touches rule now (fst st) (fst (notify en rule now f st))"
  unfolding touches_def notify_db record_event_def
  by (intro conjI exI [of _ "\<lambda>r. r"] exI [of _ "[alert_event_of rule now f (fst (dispatch en rule f (fst (snd st))))]"])
    (simp_all add: alert_event_of_def)

lemma touches_notify_db [simp]: "touches rule now db (fst (notify en rule now f (db, w, fired)))"
  using touches_notify [of rule now "(db, w, fired)" en f] by simp

lemma touches_single: "touches rule now (fst st) (fst (run_single en rule now found st))"
  unfolding run_single_def
  by (auto simp: rule_core_def split: option.split intro!: touches_trans [OF _ touches_update] touches_notify)

lemma touches_fires:
  "touches rule now (fst (snd (snd acc))) (fst (snd (snd (fold (fire_entity en rule now) fs acc))))"
proof (induction fs arbitrary: acc)
  case (Cons f fs)
  have "touches rule now (fst (snd (snd acc))) (fst (snd (snd (fire_entity en rule now f acc))))"
    by (cases acc) (auto simp: fire_entity_def Let_def)
  with Cons.IH [of "fire_entity en rule now f acc"] show ?case by (auto intro: touches_trans)
qed simp

lemma touches_clears:
  "touches rule now (fst (snd acc)) (fst (snd (fold (clear_entity en rule now active) ps acc)))"
proof (induction ps arbitrary: acc)
  case (Cons p ps)
  have "touches rule now (fst (snd acc)) (fst (snd (clear_entity en rule now active p acc)))"
    by (cases acc; cases p) (auto simp: clear_entity_def split: option.split)
  with Cons.IH [of "clear_entity en rule now active p acc"] show ?case by (auto intro: touches_trans)
qed simp

lemma touches_grouped: "touches rule now (fst st) (fst (run_grouped en rule now findings st))"
proof -
  let ?start = "case al_entity_state rule of None \<Rightarrow> [] | Some d \<Rightarrow> d"
  obtain state fires st1 where 1: "fold (fire_entity en rule now) findings (?start, 0, st) = (state, fires, st1)"
    by (cases "fold (fire_entity en rule now) findings (?start, 0, st)")
  obtain state' st2 where 2: "fold (clear_entity en rule now (map ef_key findings)) state (state, st1) = (state', st2)"
    by (cases "fold (clear_entity en rule now (map ef_key findings)) state (state, st1)")
  have "touches rule now (fst st) (fst st1)" using touches_fires [of rule now "(?start, 0, st)" en findings] 1 by simp
  moreover have "touches rule now (fst st1) (fst st2)"
    using touches_clears [of rule now "(state, st1)" en "map ef_key findings" state] 2 by simp
  ultimately show ?thesis unfolding run_grouped_def Let_def 1 2 prod.case fst_on_db
    by (intro touches_trans [OF touches_trans touches_update]) (auto simp: rule_core_def)
qed

lemma touches_rule: "run_rule en now rule st = Inr st' \<Longrightarrow> touches rule now (fst st) (fst st')"
  by (auto simp: run_rule_def bind_err_Inr touches_single touches_grouped split: if_split_asm)

section \<open>The log of a rule\<close>

definition rule_inv :: "alert_db \<Rightarrow> alert_rule \<Rightarrow> bool" where
  "rule_inv db r \<longleftrightarrow> is_grouped_kind (al_kind r)
     \<or> log_ok (al_cooldown_seconds r) (rule_events (al_id r) db)
       \<and> (log_firing (rule_events (al_id r) db) \<longleftrightarrow> al_state r = FIRING)"

definition alert_inv :: "alert_db \<Rightarrow> bool" where
  "alert_inv db \<longleftrightarrow> distinct (map al_id (ad_rules db)) \<and> (\<forall>r \<in> set (ad_rules db). rule_inv db r)"

lemma rule_core_eq: "rule_core r = rule_core q \<longleftrightarrow> al_id r = al_id q \<and> al_kind r = al_kind q
    \<and> al_cooldown_seconds r = al_cooldown_seconds q"
  by (simp add: rule_core_def)

lemma rule_events_record [simp]: "rule_events i (record_event rule now f delivered db) =
    rule_events i db @ (if al_id rule = i then [alert_event_of rule now f delivered] else [])"
  by (simp add: rule_events_def record_event_def alert_event_of_def)

lemma rule_events_update [simp]: "rule_events i (update_rule j u db) = rule_events i db"
  by (simp add: rule_events_def update_rule_def)

lemma rules_record [simp]: "ad_rules (record_event rule now f delivered db) = ad_rules db"
  by (simp add: record_event_def)

lemma event_recovery [simp]: "is_recovery (alert_event_of rule now f delivered) = recovery_context (fi_context f)"
  "ae_ts (alert_event_of rule now f delivered) = now"
  by (simp_all add: is_recovery_def alert_event_of_def)

lemma resolved_recovery [simp]: "recovery_context (fi_context (resolved_finding rule))"
  by (simp add: resolved_finding_def)

lemma touches_others:
  assumes "touches rule now db db'" and "i \<noteq> al_id rule"
  shows "rule_events i db' = rule_events i db"
  using assms unfolding touches_def rule_events_def by (auto simp: filter_empty_conv)

lemma not_in_cooldown:
  assumes "\<not> in_cooldown rule now db" and "e \<in> set (rule_events (al_id rule) db)"
  shows "al_cooldown_seconds rule * SECOND_US \<le> now - ae_ts e"
proof -
  obtain m where m: "max_by ae_ts (rule_events (al_id rule) db) = Some m"
    using assms(2) by (cases "rule_events (al_id rule) db") (auto simp: max_by_def)
  have "ae_ts e \<le> ae_ts m" by (rule max_by_ge [OF m assms(2)])
  moreover have "al_cooldown_seconds rule * SECOND_US \<le> now - ae_ts m" using assms(1) m by (simp add: in_cooldown_def)
  ultimately show ?thesis by simp
qed

lemma single_log:
  assumes "rule_inv db rule" and "\<not> is_grouped_kind (al_kind rule)"
    and "\<And>f. found = Some f \<Longrightarrow> \<not> recovery_context (fi_context f)"
  shows "let es = rule_events (al_id rule) (fst (run_single en rule now found (db, w, fired)))
    in log_ok (al_cooldown_seconds rule) es
      \<and> (log_firing es \<longleftrightarrow> (case found of Some _ \<Rightarrow> True | None \<Rightarrow> False))"
proof -
  let ?old = "rule_events (al_id rule) db"
  have ok: "log_ok (al_cooldown_seconds rule) ?old" and st: "log_firing ?old \<longleftrightarrow> al_state rule = FIRING"
    using assms(1,2) by (simp_all add: rule_inv_def)
  show ?thesis
  proof (cases found)
    case None
    then show ?thesis using ok st
      by (auto simp: run_single_def notify_db log_ok_snoc follows_def log_firing_def)
  next
    case (Some f)
    have fire: "log_ok (al_cooldown_seconds rule) (?old @ [alert_event_of rule now f d])"
      if "al_state rule \<noteq> FIRING \<or> \<not> in_cooldown rule now db" for d
      using ok st that assms(3) [OF Some] not_in_cooldown [of rule now db "last ?old"]
      by (auto simp: log_ok_snoc follows_def log_firing_def)
    then show ?thesis using ok st assms(3) [OF Some]
      by (auto simp: Some run_single_def notify_db Let_def)
  qed
qed

lemma single_state:
  assumes "r \<in> set (ad_rules (fst (run_single en rule now found (db, w, fired))))" and "al_id r = al_id rule"
    and "rule \<in> set (ad_rules db)" and "distinct (map al_id (ad_rules db))"
  shows "al_state r = FIRING \<longleftrightarrow> (case found of Some _ \<Rightarrow> True | None \<Rightarrow> False)"
proof -
  have one: "q = rule" if "q \<in> set (ad_rules db)" "al_id q = al_id rule" for q
    using that assms(3,4) by (auto simp: distinct_map dest: inj_onD)
  show ?thesis using assms(1,2) one
    by (auto simp: run_single_def update_rule_def notify_db NORMAL_def FIRING_def split: option.split_asm if_split_asm)
qed

lemma run_rule_inv:
  assumes "alert_inv (fst st)" and "rule \<in> set (ad_rules (fst st))" and "run_rule en now rule st = Inr st'"
  shows "alert_inv (fst st')"
proof -
  obtain db w fired where st: "st = (db, w, fired)" by (cases st)
  have dist: "distinct (map al_id (ad_rules db))" and inv: "\<forall>r \<in> set (ad_rules db). rule_inv db r"
    using assms(1) by (simp_all add: st alert_inv_def)
  have t: "touches rule now db (fst st')" using touches_rule [OF assms(3)] by (simp add: st)
  obtain u where u: "ad_rules (fst st') = map (\<lambda>r. if al_id r = al_id rule then u r else r) (ad_rules db)"
    "\<forall>r. rule_core (u r) = rule_core r" using t unfolding touches_def by blast
  have id: "al_id (u r) = al_id r" for r using u(2) by (simp add: rule_core_eq)
  have "map al_id (ad_rules (fst st')) = map al_id (ad_rules db)" by (simp add: u(1) id)
  moreover have "rule_inv (fst st') r'" if mem: "r' \<in> set (ad_rules (fst st'))" for r'
  proof (cases "al_id r' = al_id rule")
    case False
    then have "r' \<in> set (ad_rules db)" using mem by (auto simp: u(1) id)
    then show ?thesis using inv touches_others [OF t False] by (simp add: rule_inv_def)
  next
    case True
    then obtain q where q: "q \<in> set (ad_rules db)" "al_id q = al_id rule" "r' = u q" using mem by (auto simp: u(1))
    have "q = rule" using q(1,2) assms(2) dist by (auto simp: st distinct_map dest: inj_onD)
    then have core: "rule_core r' = rule_core rule" using q(3) u(2) by simp
    show ?thesis
    proof (cases "is_grouped_kind (al_kind rule)")
      case True
      then show ?thesis using core by (simp add: rule_inv_def rule_core_eq)
    next
      case False
      show ?thesis
      proof (cases "in_quiet_hours (en_zone en) rule now")
        case True
        then have "fst st' = db" using assms(3) by (auto simp: run_rule_def st)
        then show ?thesis using mem inv by simp
      next
        case False
        with \<open>\<not> is_grouped_kind (al_kind rule)\<close> obtain found where
          found: "evaluate_rule (en_show en) db rule now = Inr found" and st': "st' = run_single en rule now found st"
          using assms(3) by (auto simp: run_rule_def st bind_err_Inr)
        have rec: "\<And>f. found = Some f \<Longrightarrow> \<not> recovery_context (fi_context f)" using evaluators_fire found by blast
        have ri: "rule_inv db rule" using inv assms(2) by (simp add: st)
        from single_log [OF ri \<open>\<not> is_grouped_kind (al_kind rule)\<close> rec, of found en now w fired]
        have "log_ok (al_cooldown_seconds rule) (rule_events (al_id rule) (fst st'))"
          "log_firing (rule_events (al_id rule) (fst st')) \<longleftrightarrow> (case found of Some _ \<Rightarrow> True | None \<Rightarrow> False)"
          by (simp_all add: st st' Let_def)
        moreover have "al_state r' = FIRING \<longleftrightarrow> (case found of Some _ \<Rightarrow> True | None \<Rightarrow> False)"
          using single_state [of r' en rule now found db w fired] mem \<open>al_id r' = al_id rule\<close> assms(2) dist by (simp add: st st')
        ultimately show ?thesis using core by (simp add: rule_inv_def rule_core_eq)
      qed
    qed
  qed
  ultimately show ?thesis using dist by (simp add: alert_inv_def)
qed

lemma run_rules_inv:
  "\<lbrakk>alert_inv db; set rules \<subseteq> set (ad_rules db); distinct (map al_id rules); run_rules en now rules (db, w, fired) = (Inr (db', fired'), w')\<rbrakk>
   \<Longrightarrow> alert_inv db'"
proof (induction rules arbitrary: db w fired)
  case (Cons rule rules)
  obtain db1 w1 fired1 where step: "run_rule en now rule (db, w, fired) = Inr (db1, w1, fired1)"
    and rest: "run_rules en now rules (db1, w1, fired1) = (Inr (db', fired'), w')"
    using Cons.prems(4) by (auto split: sum.split_asm)
  have inv: "alert_inv db1" using run_rule_inv [of "(db, w, fired)", OF _ _ step] Cons.prems(1,2) by simp
  have "touches rule now db db1" using touches_rule [OF step] by simp
  moreover have "al_id r \<noteq> al_id rule" if mem: "r \<in> set rules" for r using Cons.prems(3) imageI [OF mem, of al_id] by auto
  ultimately have "set rules \<subseteq> set (ad_rules db1)" using Cons.prems(2) unfolding touches_def by force
  from Cons.IH [OF inv this _ rest] Cons.prems(3) show ?case by simp
qed simp

lemma alert_pass_inv: "alert_inv (fst s) \<Longrightarrow> alert_inv (fst (alert_pass en now s))"
proof -
  assume inv: "alert_inv (fst s)"
  obtain db w where s: "s = (db, w)" by (cases s)
  have "distinct (map al_id (filter al_enabled (ad_rules db)))" using inv by (auto simp: s alert_inv_def distinct_map inj_on_def)
  moreover have "set (filter al_enabled (ad_rules db)) \<subseteq> set (ad_rules db)" by simp
  ultimately show ?thesis using run_rules_inv [of db "filter al_enabled (ad_rules db)" en now w "[]"] inv
    by (auto simp: s alert_pass_def run_engine_def split: prod.split sum.split)
qed

text \<open>
  The states that passes of engines reach, with other writers between them that change everything but the ids,
  kinds, cooldowns and states of the rules and the log.
\<close>

definition rule_keys :: "alert_db \<Rightarrow> ((int \<times> string \<times> int) \<times> string) list" where
  "rule_keys db = map (\<lambda>r. (rule_core r, al_state r)) (ad_rules db)"

inductive alert_reachable :: "alert_db \<times> 'w \<Rightarrow> bool" where
  start: "\<lbrakk>ad_events db = []; distinct (map al_id (ad_rules db)); \<forall>r \<in> set (ad_rules db). al_state r \<noteq> FIRING\<rbrakk>
    \<Longrightarrow> alert_reachable (db, w)"
| pass: "alert_reachable s \<Longrightarrow> alert_reachable (alert_pass en now s)"
| others: "\<lbrakk>alert_reachable (db, w); rule_keys db' = rule_keys db; ad_events db' = ad_events db\<rbrakk> \<Longrightarrow> alert_reachable (db', w')"

lemma inv_rule_keys:
  assumes "alert_inv db" and "rule_keys db' = rule_keys db" and "ad_events db' = ad_events db"
  shows "alert_inv db'"
proof -
  have ids: "map al_id (ad_rules d) = map (fst \<circ> fst) (rule_keys d)" for d by (simp add: rule_keys_def rule_core_def)
  have ev: "rule_events i db' = rule_events i db" for i using assms(3) by (simp add: rule_events_def)
  have "\<exists>q \<in> set (ad_rules db). rule_core r = rule_core q \<and> al_state r = al_state q" if "r \<in> set (ad_rules db')" for r
  proof -
    have "(rule_core r, al_state r) \<in> set (rule_keys db)" using that assms(2) by (metis (no_types, lifting) image_eqI list.set_map rule_keys_def)
    then show ?thesis by (auto simp: rule_keys_def)
  qed
  then show ?thesis using assms(1,2) unfolding alert_inv_def ids rule_inv_def ev rule_core_eq by metis
qed

lemma reachable_inv: "alert_reachable s \<Longrightarrow> alert_inv (fst s)"
proof (induction rule: alert_reachable.induct)
  case (start db w)
  then show ?case by (auto simp: alert_inv_def rule_inv_def rule_events_def log_ok_def log_firing_def)
next
  case (pass s en now)
  from pass.IH show ?case by (rule alert_pass_inv)
next
  case (others db w db' w')
  then show ?case using inv_rule_keys by simp
qed

text \<open>
  As long as only passes change the log and nobody creates, deletes or edits a rule's kind, cooldown or state, the
  log of a rule of a single kind begins with a fire, a recovery follows a fire, two fires in a row are at least the
  cooldown apart, and the rule is firing just when its last event is a fire. The hypotheses: such a history, and
  the rule is in the state. (A retention sweep of the log or an edit of a rule ends such a history.)
\<close>

theorem alert_log_well_formed:
  assumes "alert_reachable (db, w)" and "r \<in> set (ad_rules db)" and "\<not> is_grouped_kind (al_kind r)"
  shows "log_ok (al_cooldown_seconds r) (rule_events (al_id r) db)
    \<and> (log_firing (rule_events (al_id r) db) \<longleftrightarrow> al_state r = FIRING)"
  using reachable_inv [OF assms(1)] assms(2,3) by (auto simp: alert_inv_def rule_inv_def)

section \<open>What a pass does to a rule\<close>

text \<open>Everything the evaluators read: the tables without the rules and the log.\<close>

definition alert_data :: "alert_db \<Rightarrow> alert_db" where
  "alert_data db = db\<lparr>ad_rules := [], ad_events := []\<rparr>"

lemma data_update [simp]: "alert_data (update_rule i u db) = alert_data db"
  by (simp add: alert_data_def update_rule_def)

lemma data_notify [simp]: "alert_data (fst (notify en rule now f st)) = alert_data (fst st)"
  by (simp add: notify_db alert_data_def record_event_def)

lemma data_notify_db [simp]: "alert_data (fst (notify en rule now f (db, w, fired))) = alert_data db"
  using data_notify [of en rule now f "(db, w, fired)"] by simp

lemma data_single [simp]: "alert_data (fst (run_single en rule now found st)) = alert_data (fst st)"
  by (auto simp: run_single_def split: option.split)

lemma data_fires: "alert_data (fst (snd (snd (fold (fire_entity en rule now) fs acc)))) = alert_data (fst (snd (snd acc)))"
proof (induction fs arbitrary: acc)
  case (Cons f fs)
  have "alert_data (fst (snd (snd (fire_entity en rule now f acc)))) = alert_data (fst (snd (snd acc)))"
    by (cases acc) (auto simp: fire_entity_def Let_def)
  with Cons.IH [of "fire_entity en rule now f acc"] show ?case by simp
qed simp

lemma data_clears: "alert_data (fst (snd (fold (clear_entity en rule now active) ps acc))) = alert_data (fst (snd acc))"
proof (induction ps arbitrary: acc)
  case (Cons p ps)
  have "alert_data (fst (snd (clear_entity en rule now active p acc))) = alert_data (fst (snd acc))"
    by (cases acc; cases p) (auto simp: clear_entity_def split: option.split)
  with Cons.IH [of "clear_entity en rule now active p acc"] show ?case by simp
qed simp

lemma data_grouped [simp]: "alert_data (fst (run_grouped en rule now findings st)) = alert_data (fst st)"
proof -
  let ?start = "case al_entity_state rule of None \<Rightarrow> [] | Some d \<Rightarrow> d"
  obtain state fires st1 where 1: "fold (fire_entity en rule now) findings (?start, 0, st) = (state, fires, st1)"
    by (cases "fold (fire_entity en rule now) findings (?start, 0, st)")
  obtain state' st2 where 2: "fold (clear_entity en rule now (map ef_key findings)) state (state, st1) = (state', st2)"
    by (cases "fold (clear_entity en rule now (map ef_key findings)) state (state, st1)")
  have "alert_data (fst st1) = alert_data (fst st)" "alert_data (fst st2) = alert_data (fst st1)"
    using data_fires [of en rule now findings "(?start, 0, st)"] data_clears [of en rule now "map ef_key findings" state "(state, st1)"]
    by (simp_all add: 1 2)
  then show ?thesis by (simp add: run_grouped_def Let_def 1 2)
qed

lemma data_rule: "run_rule en now rule st = Inr st' \<Longrightarrow> alert_data (fst st') = alert_data (fst st)"
  by (auto simp: run_rule_def bind_err_Inr split: if_split_asm)

lemma data_simps [simp]: "cd_ledger (alert_data db) = cd_ledger db" "cd_costs (alert_data db) = cd_costs db"
  "cd_sources (alert_data db) = cd_sources db" "vd_providers (alert_data db) = vd_providers db"
  "vd_models (alert_data db) = vd_models db" "vd_machines (alert_data db) = vd_machines db"
  "vd_limits (alert_data db) = vd_limits db" "ad_requests (alert_data db) = ad_requests db"
  "rd_rollups (alert_data db) = rd_rollups db"
  by (simp_all add: alert_data_def)

lemmas evaluator_parts = final_attempts_since_def ledger_burn_rate_def open_dq_count_def unpriced_rows_def unknown_rows_def

lemma evaluator_data:
  "limit_pct_alert show (alert_data db) = limit_pct_alert show db"
  "predicted_exhaustion_alert show (alert_data db) = predicted_exhaustion_alert show db"
  "burn_rate_alert show (alert_data db) = burn_rate_alert show db"
  "collector_stale_alert show (alert_data db) = collector_stale_alert show db"
  "unpriced_events_alert show (alert_data db) = unpriced_events_alert show db"
  "unknown_model_alert show (alert_data db) = unknown_model_alert show db"
  "failure_rate_alert show (alert_data db) = failure_rate_alert show db"
  "latency_p95_alert show (alert_data db) = latency_p95_alert show db"
  "fallback_rate_alert show (alert_data db) = fallback_rate_alert show db"
  by (simp_all add: fun_eq_iff limit_pct_alert_def predicted_exhaustion_alert_def burn_rate_alert_def collector_stale_alert_def
      unpriced_events_alert_def unknown_model_alert_def failure_rate_alert_def latency_p95_alert_def fallback_rate_alert_def
      evaluator_parts cong: if_cong)

lemma evaluate_data: "evaluate_rule show (alert_data db) rule now = evaluate_rule show db rule now"
  by (simp add: evaluate_rule_def EVALUATORS_def evaluator_data)

text \<open>The rows and the log of rule \<open>i\<close> are in \<open>db'\<close> as in \<open>db\<close>.\<close>

definition rule_settled :: "int \<Rightarrow> alert_db \<Rightarrow> alert_db \<Rightarrow> bool" where
  "rule_settled i db db' \<longleftrightarrow> rule_events i db' = rule_events i db
     \<and> (\<forall>r \<in> set (ad_rules db). al_id r = i \<longrightarrow> r \<in> set (ad_rules db'))"

lemma rule_settled_refl [simp]: "rule_settled i db db"
  by (simp add: rule_settled_def)

lemma rule_settled_trans: "rule_settled i a b \<Longrightarrow> rule_settled i b c \<Longrightarrow> rule_settled i a c"
  by (simp add: rule_settled_def)

lemma touches_settled: "touches rule now db db' \<Longrightarrow> i \<noteq> al_id rule \<Longrightarrow> rule_settled i db db'"
  using touches_others [of rule now db db' i] by (auto simp: rule_settled_def touches_def image_iff)

lemma touches_ids: "touches rule now db db' \<Longrightarrow> map al_id (ad_rules db') = map al_id (ad_rules db)"
  by (auto simp: touches_def rule_core_eq)

lemma run_rules_settled:
  "run_rules en now rules (db, w, fired) = (Inr (db', fired'), w') \<Longrightarrow> i \<notin> al_id ` set rules \<Longrightarrow> rule_settled i db db'"
proof (induction rules arbitrary: db w fired)
  case (Cons rule rules)
  obtain db1 w1 fired1 where step: "run_rule en now rule (db, w, fired) = Inr (db1, w1, fired1)"
    and rest: "run_rules en now rules (db1, w1, fired1) = (Inr (db', fired'), w')"
    using Cons.prems(1) by (auto split: sum.split_asm)
  have "rule_settled i db db1" using touches_settled [OF touches_rule [OF step], of i] Cons.prems(2) by auto
  with Cons.IH [OF rest] Cons.prems(2) show ?case using rule_settled_trans by auto
qed simp

lemma run_rules_step:
  assumes "run_rules en now rules (db, w, fired) = (Inr (db', fired'), w')" and "rule \<in> set rules" and "distinct (map al_id rules)"
  shows "\<exists>db1 w1 fired1 st. run_rule en now rule (db1, w1, fired1) = Inr st \<and> rule_settled (al_id rule) db db1
    \<and> alert_data db1 = alert_data db \<and> map al_id (ad_rules db1) = map al_id (ad_rules db) \<and> rule_settled (al_id rule) (fst st) db'"
  using assms
proof (induction rules arbitrary: db w fired)
  case (Cons r rules)
  obtain db1 w1 fired1 where step: "run_rule en now r (db, w, fired) = Inr (db1, w1, fired1)"
    and rest: "run_rules en now rules (db1, w1, fired1) = (Inr (db', fired'), w')"
    using Cons.prems(1) by (auto split: sum.split_asm)
  show ?case
  proof (cases "r = rule")
    case True
    then have "al_id rule \<notin> al_id ` set rules" using Cons.prems(3) by auto
    from run_rules_settled [OF rest this] show ?thesis using step True
      by (intro exI [of _ db] exI [of _ w] exI [of _ fired] exI [of _ "(db1, w1, fired1)"]) simp
  next
    case False
    then have mem: "rule \<in> set rules" using Cons.prems(2) by simp
    have ne: "al_id rule \<noteq> al_id r" using Cons.prems(3) imageI [OF mem, of al_id] by auto
    have t: "touches r now db db1" using touches_rule [OF step] by simp
    obtain db2 w2 fired2 st where "run_rule en now rule (db2, w2, fired2) = Inr st" "rule_settled (al_id rule) db1 db2"
      "alert_data db2 = alert_data db1" "map al_id (ad_rules db2) = map al_id (ad_rules db1)" "rule_settled (al_id rule) (fst st) db'"
      using Cons.IH [OF rest mem] Cons.prems(3) by auto
    moreover have "alert_data db1 = alert_data db" using data_rule [OF step] by simp
    ultimately show ?thesis using rule_settled_trans [OF touches_settled [OF t ne]] touches_ids [OF t]
      by (intro exI [of _ db2] exI [of _ w2] exI [of _ fired2] exI [of _ st]) simp
  qed
qed simp

text \<open>
  What a pass at \<open>now\<close> owes a rule of a single kind: a fire when there is a finding and the rule was not
  firing or its log has nothing younger than the cooldown, a recovery when a firing rule has no finding,
  otherwise nothing.
\<close>

definition single_effect :: "int \<Rightarrow> alert_rule \<Rightarrow> alert_finding option \<Rightarrow> alert_db \<Rightarrow> alert_db \<Rightarrow> bool" where
  "single_effect now rule found db db' \<longleftrightarrow>
     (let log = filter (\<lambda>e. ae_rule_id e = al_id rule) (ad_events db);
          log' = filter (\<lambda>e. ae_rule_id e = al_id rule) (ad_events db')
      in case found of
           Some f \<Rightarrow>
             if al_state rule \<noteq> ''firing'' \<or> (\<forall>e \<in> set log. al_cooldown_seconds rule * 1000000 \<le> now - ae_ts e)
             then rule\<lparr>al_last_fired_at := Some now, al_state := ''firing''\<rparr> \<in> set (ad_rules db')
               \<and> (\<exists>delivered. log' = log @ [\<lparr>ae_rule_id = al_id rule, ae_ts = now, ae_severity = fi_severity f,
                     ae_title = fi_title f, ae_body = fi_body f, ae_delivered = delivered, ae_context = fi_context f\<rparr>])
             else rule \<in> set (ad_rules db') \<and> log' = log
         | None \<Rightarrow>
             if al_state rule = ''firing''
             then rule\<lparr>al_state := ''normal''\<rparr> \<in> set (ad_rules db')
               \<and> (\<exists>e. log' = log @ [e] \<and> is_recovery e \<and> ae_ts e = now)
             else rule \<in> set (ad_rules db') \<and> log' = log)"

lemma cooldown_iff:
  "\<not> in_cooldown rule now db \<longleftrightarrow> (\<forall>e \<in> set (rule_events (al_id rule) db). al_cooldown_seconds rule * SECOND_US \<le> now - ae_ts e)"
proof
  assume "\<not> in_cooldown rule now db"
  then show "\<forall>e \<in> set (rule_events (al_id rule) db). al_cooldown_seconds rule * SECOND_US \<le> now - ae_ts e"
    using not_in_cooldown by blast
next
  assume all: "\<forall>e \<in> set (rule_events (al_id rule) db). al_cooldown_seconds rule * SECOND_US \<le> now - ae_ts e"
  show "\<not> in_cooldown rule now db"
  proof (cases "max_by ae_ts (rule_events (al_id rule) db)")
    case (Some e)
    then have "e \<in> set (rule_events (al_id rule) db)" by (rule max_by_in)
    with all Some show ?thesis by (simp add: in_cooldown_def not_less)
  next
    case None
    show ?thesis unfolding in_cooldown_def None by simp
  qed
qed

lemma single_effect_run:
  assumes "rule \<in> set (ad_rules db)"
  shows "single_effect now rule found db (fst (run_single en rule now found (db, w, fired)))"
proof -
  have mem: "u rule \<in> set (ad_rules (update_rule (al_id rule) u d))" if "rule \<in> set (ad_rules d)" for u d
    using that by (auto simp: update_rule_def)
  have same: "rule\<lparr>al_state := FIRING\<rparr> = rule" if "al_state rule = FIRING" using that by simp
  let ?db = "\<lambda>f. fst (notify en rule now f (db, w, fired))"
  have note': "rule_events (al_id rule) (?db f) = rule_events (al_id rule) db @ [alert_event_of rule now f (fst (dispatch en rule f w))]"
    "ad_rules (?db f) = ad_rules db" for f by (simp_all add: notify_db)
  show ?thesis
  proof (cases found)
    case None
    have "rule\<lparr>al_state := NORMAL\<rparr> \<in> set (ad_rules (update_rule (al_id rule) (\<lambda>r. r\<lparr>al_state := NORMAL\<rparr>) (?db (resolved_finding rule))))"
      using mem [of "?db (resolved_finding rule)" "\<lambda>r. r\<lparr>al_state := NORMAL\<rparr>"] assms note' by simp
    then show ?thesis using assms note' [of "resolved_finding rule"]
      by (simp add: None single_effect_def Let_def run_single_def rule_events_def [symmetric] FIRING_def NORMAL_def)
  next
    case (Some f)
    let ?fire = "\<lambda>r. r\<lparr>al_state := FIRING\<rparr>" and ?last = "\<lambda>r. r\<lparr>al_last_fired_at := Some now\<rparr>"
    have two: "update_rule (al_id rule) ?fire (update_rule (al_id rule) ?last d) = update_rule (al_id rule) (\<lambda>r. ?fire (?last r)) d" for d
      by (simp add: update_rule_def comp_def)
    have fired: "?fire (?last rule) \<in> set (ad_rules (update_rule (al_id rule) ?fire (update_rule (al_id rule) ?last (?db f))))"
      unfolding two using mem [of "?db f" "\<lambda>r. ?fire (?last r)"] assms note' by simp
    have quiet: "rule \<in> set (ad_rules (update_rule (al_id rule) ?fire db))" if "al_state rule = FIRING"
      using mem [OF assms, of ?fire] same [OF that] by simp
    show ?thesis
    proof (cases "al_state rule \<noteq> FIRING \<or> \<not> in_cooldown rule now db")
      case True
      then have "fst (run_single en rule now found (db, w, fired))
          = update_rule (al_id rule) ?fire (update_rule (al_id rule) ?last (?db f))"
        by (simp add: Some run_single_def)
      moreover have "al_state rule \<noteq> ''firing'' \<or> (\<forall>e \<in> set (rule_events (al_id rule) db). al_cooldown_seconds rule * 1000000 \<le> now - ae_ts e)"
        using True by (simp add: cooldown_iff FIRING_def)
      ultimately show ?thesis using fired note' [of f]
        by (auto simp: Some single_effect_def Let_def rule_events_def [symmetric] FIRING_def alert_event_of_def)
    next
      case False
      then have "fst (run_single en rule now found (db, w, fired)) = update_rule (al_id rule) ?fire db"
        by (simp add: Some run_single_def)
      moreover have "\<not> (al_state rule \<noteq> ''firing'' \<or> (\<forall>e \<in> set (rule_events (al_id rule) db). al_cooldown_seconds rule * 1000000 \<le> now - ae_ts e))"
        using False cooldown_iff [of rule now db] by (simp add: FIRING_def)
      ultimately show ?thesis using quiet False
        by (simp add: Some single_effect_def Let_def rule_events_def [symmetric])
    qed
  qed
qed

lemma single_effect_frame:
  assumes "single_effect now rule found db1 db2" and "rule_settled (al_id rule) db db1" and "rule_settled (al_id rule) db2 db'"
  shows "single_effect now rule found db db'"
  using assms by (auto simp: single_effect_def rule_settled_def rule_events_def Let_def split: option.splits if_splits)

text \<open>
  C30. What one pass of the engine does to the rules, from any state of the tables, whatever happened to the log
  and the rules before. If a rule cannot be evaluated, the tables stay as they were. Otherwise a rule that is
  disabled or in its quiet hours keeps its row and its log; and every other rule of a single kind is treated by
  its own state, its own log and its finding on the tables before the pass alone: it fires, recovers, or keeps
  its row and its log. (The entities of a rule of a grouped kind are treated one by one, below.) The
  hypotheses: the ids of the rules, the primary key, are distinct, and the rule is stored.
\<close>

theorem single_rules_refine:
  assumes "distinct (map al_id (ad_rules db))" and "rule \<in> set (ad_rules db)"
  shows "case run_engine en now db w of
      (Inl _, w') \<Rightarrow> alert_pass en now (db, w) = (db, w')
    | (Inr (db', _), w') \<Rightarrow> alert_pass en now (db, w) = (db', w')
        \<and> (if \<not> al_enabled rule \<or> in_quiet_hours (en_zone en) rule now
           then rule \<in> set (ad_rules db')
             \<and> filter (\<lambda>e. ae_rule_id e = al_id rule) (ad_events db') = filter (\<lambda>e. ae_rule_id e = al_id rule) (ad_events db)
           else is_grouped_kind (al_kind rule)
             \<or> (\<exists>found. evaluate_rule (en_show en) db rule now = Inr found \<and> single_effect now rule found db db'))"
proof -
  have eq: "alert_pass en now (db, w) = (case run_engine en now db w of (Inl _, w') \<Rightarrow> (db, w') | (Inr (db', _), w') \<Rightarrow> (db', w'))"
    by (simp add: alert_pass_def)
  have goal: "if \<not> al_enabled rule \<or> in_quiet_hours (en_zone en) rule now
      then rule_settled (al_id rule) db db' else is_grouped_kind (al_kind rule)
        \<or> (\<exists>found. evaluate_rule (en_show en) db rule now = Inr found \<and> single_effect now rule found db db')"
    if "run_engine en now db w = (Inr (db', fired), w')" for db' fired w'
  proof -
    let ?rules = "filter al_enabled (ad_rules db)"
    have run: "run_rules en now ?rules (db, w, []) = (Inr (db', fired), w')" using that by (simp add: run_engine_def)
    have dist: "distinct (map al_id ?rules)" using assms(1) by (auto simp: distinct_map inj_on_def)
    show ?thesis
    proof (cases "al_enabled rule")
      case False
      then have "al_id rule \<notin> al_id ` set ?rules" using assms by (auto simp: distinct_map dest: inj_onD)
      with run_rules_settled [OF run] False show ?thesis by simp
    next
      case True
      then have "rule \<in> set ?rules" using assms(2) by simp
      from run_rules_step [OF run this dist] obtain db1 w1 fired1 st where
        step: "run_rule en now rule (db1, w1, fired1) = Inr st" and s1: "rule_settled (al_id rule) db db1"
        and d: "alert_data db1 = alert_data db" and s2: "rule_settled (al_id rule) (fst st) db'" by blast
      have mem: "rule \<in> set (ad_rules db1)" using s1 assms(2) by (simp add: rule_settled_def)
      have eval: "evaluate_rule (en_show en) db1 rule now = evaluate_rule (en_show en) db rule now"
        by (metis d evaluate_data)
      consider "in_quiet_hours (en_zone en) rule now"
        | "\<not> in_quiet_hours (en_zone en) rule now" "is_grouped_kind (al_kind rule)"
        | found where "\<not> in_quiet_hours (en_zone en) rule now" "evaluate_rule (en_show en) db rule now = Inr found"
          "st = run_single en rule now found (db1, w1, fired1)"
        using step by (auto simp: run_rule_def bind_err_Inr eval split: if_split_asm)
      then show ?thesis
      proof cases
        case 1
        then have "fst st = db1" using step by (auto simp: run_rule_def)
        with 1 show ?thesis using rule_settled_trans [OF s1] s2 by simp
      next
        case 2
        then show ?thesis using True by simp
      next
        case 3
        have "single_effect now rule found db1 (fst st)" unfolding 3(3) by (rule single_effect_run [OF mem])
        from single_effect_frame [OF this s1 s2] show ?thesis using 3(1,2) True by auto
      qed
    qed
  qed
  show ?thesis
  proof (cases "run_engine en now db w")
    case (Pair r w')
    then show ?thesis using goal assms(2)
      by (cases r) (auto simp: eq rule_settled_def rule_events_def split: if_splits)
  qed
qed

section \<open>Entities of a grouped rule\<close>

text \<open>What a pass does to one entity, from its own entry alone.\<close>

definition entity_next :: "int \<Rightarrow> int \<Rightarrow> bool \<Rightarrow> bool \<Rightarrow> json option \<Rightarrow> json option" where
  "entity_next cooldown now active recoverable prev =
     (if active then if entity_firing prev \<and> entity_in_cooldown prev cooldown now then prev
        else Some (entity_entry FIRING (JStr (iso_format (as_utc_dt now))))
      else if entity_firing prev
      then if recoverable then Some (entity_entry NORMAL (entity_last_fired prev)) else None
      else prev)"

lemma entry_firing [simp]: "entity_firing (Some (entity_entry state t)) \<longleftrightarrow> state = FIRING"
  by (simp add: entity_firing_def entity_entry_def jget_def)

lemma not_firing_None [simp]: "\<not> entity_firing None"
  by (simp add: entity_firing_def)

lemma resolved_entity_frame:
  assumes "cd_sources db' = cd_sources db"
  shows "resolved_entity db' rule k = resolved_entity db rule k"
  unfolding resolved_entity_def assms ..

lemma notify_sources [simp]: "cd_sources (fst (notify en rule now f st)) = cd_sources (fst st)"
  by (simp add: notify_db record_event_def)

lemma fires_step: "fst (fire_entity en rule now f (state, n, st)) =
    (if entity_firing (dget state (ef_key f)) \<and> entity_in_cooldown (dget state (ef_key f)) (al_cooldown_seconds rule) now
     then state else dset (ef_key f) (entity_entry FIRING (JStr (iso_format (as_utc_dt now)))) state)"
  "cd_sources (fst (snd (snd (fire_entity en rule now f (state, n, st))))) = cd_sources (fst st)"
  by (auto simp: fire_entity_def Let_def)

lemma fires_fold:
  assumes "distinct (map ef_key fs)"
  shows "dget (fst (fold (fire_entity en rule now) fs (state, n, st))) k =
      (if k \<in> ef_key ` set fs then entity_next (al_cooldown_seconds rule) now True b (dget state k) else dget state k)
    \<and> (distinct (dkeys state) \<longrightarrow> distinct (dkeys (fst (fold (fire_entity en rule now) fs (state, n, st)))))
    \<and> cd_sources (fst (snd (snd (fold (fire_entity en rule now) fs (state, n, st))))) = cd_sources (fst st)"
  using assms
proof (induction fs arbitrary: state n st)
  case (Cons f fs)
  obtain state1 n1 st1 where step: "fire_entity en rule now f (state, n, st) = (state1, n1, st1)"
    by (cases "fire_entity en rule now f (state, n, st)")
  have s1: "state1 = (if entity_firing (dget state (ef_key f)) \<and> entity_in_cooldown (dget state (ef_key f)) (al_cooldown_seconds rule) now
     then state else dset (ef_key f) (entity_entry FIRING (JStr (iso_format (as_utc_dt now)))) state)"
    "cd_sources (fst st1) = cd_sources (fst st)"
    using fires_step [of en rule now f state n st] unfolding step by simp_all
  have "dget state1 j = (if j = ef_key f then entity_next (al_cooldown_seconds rule) now True b (dget state j) else dget state j)" for j
    by (simp add: s1(1) entity_next_def)
  moreover have "distinct (dkeys state) \<longrightarrow> distinct (dkeys state1)" by (simp add: s1(1) distinct_update)
  ultimately show ?case using Cons.IH [of state1 n1 st1] Cons.prems s1(2) by (auto simp: step)
qed simp

lemma clear_step:
  assumes "cd_sources (fst st) = cd_sources db"
  shows "dget (fst (clear_entity en rule now active (key, prev) (state, st))) k =
      (if k = key \<and> entity_firing (Some prev) \<and> key \<notin> set active
       then if resolved_entity db rule key \<noteq> None then Some (entity_entry NORMAL (entity_last_fired (Some prev))) else None
       else dget state k)
    \<and> cd_sources (fst (snd (clear_entity en rule now active (key, prev) (state, st)))) = cd_sources db"
  using assms resolved_entity_frame [OF assms, of rule key]
  by (auto simp: clear_entity_def delete_conv' split: option.split)

lemma clears_fold:
  assumes "cd_sources (fst st) = cd_sources db" and "distinct (dkeys ps)"
  shows "dget (fst (fold (clear_entity en rule now active) ps (state, st))) k =
      (case dget ps k of
         Some prev \<Rightarrow> if entity_firing (Some prev) \<and> k \<notin> set active
           then if resolved_entity db rule k \<noteq> None then Some (entity_entry NORMAL (entity_last_fired (Some prev))) else None
           else dget state k
       | None \<Rightarrow> dget state k)"
  using assms
proof (induction ps arbitrary: state st)
  case (Cons p ps)
  obtain key prev where p: "p = (key, prev)" by (cases p)
  obtain state1 st1 where step: "clear_entity en rule now active (key, prev) (state, st) = (state1, st1)"
    by (cases "clear_entity en rule now active (key, prev) (state, st)")
  have s1: "dget state1 j = (if j = key \<and> entity_firing (Some prev) \<and> key \<notin> set active
       then if resolved_entity db rule key \<noteq> None then Some (entity_entry NORMAL (entity_last_fired (Some prev))) else None
       else dget state j)" "cd_sources (fst st1) = cd_sources db" for j
    using clear_step [OF Cons.prems(1), of en rule now active key prev state j] unfolding step by simp_all
  have "dget ps key = None" using Cons.prems(2) by (simp add: p dget_None_iff)
  then show ?case using Cons.IH [OF s1(2), of state1] Cons.prems(2) s1(1) [of k] by (auto simp: p step split: option.split)
qed simp

text \<open>
  C31. The entities of a grouped rule are independent: after a pass the entry of every entity is the one a state
  machine gives that sees only the entity's old entry, whether it has a finding, and whether it can recover; and
  an entity is firing just when it has a finding. The hypotheses: the findings have distinct keys, as the stored
  entries do.
\<close>

theorem grouped_entities_independent:
  assumes "distinct (map ef_key findings)" and "al_entity_state rule = Some old" and "distinct (dkeys old)"
    and "r \<in> set (ad_rules (fst (run_grouped en rule now findings st)))" and "al_id r = al_id rule"
  shows "\<exists>state. al_entity_state r = Some state
    \<and> (\<forall>k. dget state k = entity_next (al_cooldown_seconds rule) now (k \<in> ef_key ` set findings)
             (resolved_entity (fst st) rule k \<noteq> None) (dget old k)
        \<and> (entity_firing (dget state k) \<longleftrightarrow> k \<in> ef_key ` set findings))
    \<and> al_state r = (if findings = [] then NORMAL else FIRING)"
proof -
  obtain state1 n1 st1 where 1: "fold (fire_entity en rule now) findings (old, 0, st) = (state1, n1, st1)"
    by (cases "fold (fire_entity en rule now) findings (old, 0, st)")
  obtain state2 st2 where 2: "fold (clear_entity en rule now (map ef_key findings)) state1 (state1, st1) = (state2, st2)"
    by (cases "fold (clear_entity en rule now (map ef_key findings)) state1 (state1, st1)")
  have f: "dget state1 k = (if k \<in> ef_key ` set findings
      then entity_next (al_cooldown_seconds rule) now True b (dget old k) else dget old k)"
    "distinct (dkeys state1)" "cd_sources (fst st1) = cd_sources (fst st)" for k b
    using fires_fold [OF assms(1), of en rule now old 0 st k b] assms(3) unfolding 1 by simp_all
  have c: "dget state2 k = (case dget state1 k of
         Some prev \<Rightarrow> if entity_firing (Some prev) \<and> k \<notin> set (map ef_key findings)
           then if resolved_entity (fst st) rule k \<noteq> None then Some (entity_entry NORMAL (entity_last_fired (Some prev))) else None
           else dget state1 k
       | None \<Rightarrow> dget state1 k)" for k
    using clears_fold [OF f(3,2), of en rule now "map ef_key findings" state1 k] unfolding 2 by simp
  have next': "dget state2 k = entity_next (al_cooldown_seconds rule) now (k \<in> ef_key ` set findings)
             (resolved_entity (fst st) rule k \<noteq> None) (dget old k)" for k
  proof (cases "k \<in> ef_key ` set findings")
    case True
    then show ?thesis using c [of k] f(1) [of k "resolved_entity (fst st) rule k \<noteq> None"]
      by (auto simp: entity_next_def split: option.split_asm if_split_asm)
  next
    case False
    then show ?thesis using c [of k] f(1) [of k] by (cases "dget old k") (auto simp: entity_next_def)
  qed
  have "entity_firing (dget state2 k) \<longleftrightarrow> k \<in> ef_key ` set findings" for k
    unfolding next' by (auto simp: entity_next_def FIRING_def NORMAL_def)
  moreover have "al_entity_state r = Some state2 \<and> al_state r = (if findings = [] then NORMAL else FIRING)"
    using assms(4,5) by (auto simp: run_grouped_def assms(2) 1 2 Let_def update_rule_def split: if_split_asm)
  ultimately show ?thesis using next' by blast
qed

section \<open>Measures\<close>

lemma length_filter_sort: "length (filter P (sort xs)) = length (filter P xs)"
  by (metis mset_filter mset_sort size_mset)

text \<open>
  The percentile of the latency rule is a nearest rank: it is one of the values, at least the given share of
  the values does not exceed it, and less than that share lies below it. The hypotheses: there are values, and
  the share is positive and at most 100 percent.
\<close>

theorem percentile_rank:
  assumes "values \<noteq> []" and "0 < pct" and "pct \<le> 100"
  shows "\<exists>v \<in> set values. percentile values pct = of_int v
    \<and> pct / 100 * of_nat (length values) \<le> of_nat (length (filter (\<lambda>x. x \<le> v) values))
    \<and> of_nat (length (filter (\<lambda>x. x < v) values)) < pct / 100 * of_nat (length values)"
proof -
  define n q where "n = length values" and "q = pct / 100 * of_nat n"
  define r where "r = max 1 (nat \<lceil>q\<rceil>)"
  have n: "0 < n" using assms(1) by (simp add: n_def)
  then have q0: "0 < q" using assms(2) by (simp add: q_def)
  have qn: "q \<le> of_nat n" using assms(3) n by (simp add: q_def field_simps mult_left_mono)
  have ceil: "1 \<le> \<lceil>q\<rceil>" "\<lceil>q\<rceil> \<le> int n" "q \<le> of_int \<lceil>q\<rceil>" "of_int \<lceil>q\<rceil> < q + 1"
    using q0 qn by (simp_all add: ceiling_le_iff) linarith+
  then have "1 \<le> nat \<lceil>q\<rceil>" "nat \<lceil>q\<rceil> \<le> n" by linarith+
  then have r: "r = nat \<lceil>q\<rceil>" "1 \<le> r" "r \<le> n" by (auto simp only: r_def max_absorb2)
  have rq: "q \<le> of_nat r" "of_nat r < q + 1" using ceil by (simp_all add: r(1))
  let ?s = "sort values" let ?v = "?s ! (r - 1)"
  have len: "length ?s = n" by (simp add: n_def)
  have le: "?s ! i \<le> ?s ! j" if "i \<le> j" "j < n" for i j using that sorted_nth_mono [of ?s i j] len by simp
  have p: "percentile values pct = of_int ?v"
    unfolding percentile_def Let_def length_sort n_def [symmetric] q_def [symmetric] r_def [symmetric]
    using r(3) by (simp add: min_absorb1)
  have "r \<le> length (filter (\<lambda>x. x \<le> ?v) (take r ?s))"
  proof -
    have "filter (\<lambda>x. x \<le> ?v) (take r ?s) = take r ?s"
      by (rule filter_True) (use le r len in \<open>auto simp: in_set_conv_nth\<close>)
    then show ?thesis using r(3) len by simp
  qed
  also have "\<dots> \<le> length (filter (\<lambda>x. x \<le> ?v) ?s)"
    by (metis append_take_drop_id filter_append le_add1 length_append)
  finally have lo: "r \<le> length (filter (\<lambda>x. x \<le> ?v) values)" by (simp add: length_filter_sort)
  have "filter (\<lambda>x. x < ?v) (drop (r - 1) ?s) = []"
    by (rule filter_False) (use le r len in \<open>auto simp: in_set_conv_nth not_less\<close>)
  then have "length (filter (\<lambda>x. x < ?v) ?s) = length (filter (\<lambda>x. x < ?v) (take (r - 1) ?s))"
    by (metis append_Nil2 append_take_drop_id filter_append)
  also have "\<dots> \<le> r - 1" using length_filter_le [of "\<lambda>x. x < ?v" "take (r - 1) ?s"] by simp
  finally have hi: "length (filter (\<lambda>x. x < ?v) values) + 1 \<le> r" using r(2) by (simp add: length_filter_sort)
  have "?v \<in> set values" using r len nth_mem [of "r - 1" ?s] by simp
  moreover have "(of_nat (length (filter (\<lambda>x. x < ?v) values)) :: rat) + 1 \<le> of_nat r"
    using hi by (metis of_nat_1 of_nat_add of_nat_le_iff)
  ultimately show ?thesis using p rq lo unfolding q_def [symmetric] n_def [symmetric]
    by (intro bexI [of _ ?v]) (auto intro: order_trans)
qed

text \<open>
  The two burn rates: the rate of an unscoped rule, read from the compatibility view, is the rate of the
  ledger query plus the tokens of the attempts in the window that are not final, per minute. They agree just
  when no snapshot in the window has tokens.
\<close>

theorem burn_rate_counts_snapshots:
  "token_burn_rate (usage_view (cd_ledger db)) (as_utc_dt now) 60
   = ledger_burn_rate db now \<lparr>af_provider = [], af_model = [], af_source = [], af_project = [], af_environment = []\<rparr>
     + of_int (sum_list (map ledger_tokens (filter (\<lambda>r. lg_event_kind r = ''attempt'' \<and> lg_finality r \<noteq> ''final''
         \<and> now - 60 * MINUTE_US \<le> lg_ts_started r) (lb_events (cd_ledger db))))) / 60"
proof -
  have row: "row_tokens (usage_view_row r) = ledger_tokens r" "ue_ts (usage_view_row r) = as_utc_dt (lg_ts_started r)" for r
    by (simp_all add: row_tokens_def usage_view_row_def ledger_tokens_def)
  have utc_parts: "dt_instant (as_utc_dt now) = now" by (simp add: as_utc_dt_def)
  have all: "ledger_filter \<lparr>af_provider = [], af_model = [], af_source = [], af_project = [], af_environment = []\<rparr> ss r" for ss r
    by (simp add: ledger_filter_def in_scope_def)
  have "sum_list (map row_tokens (filter (\<lambda>e. now - 60 * MINUTE_US \<le> dt_instant (ue_ts e))
        (map usage_view_row (filter (\<lambda>r. lg_event_kind r = ''attempt'') rows))))
      = sum_list (map ledger_tokens (filter (\<lambda>r. is_final_attempt r \<and> now - 60 * MINUTE_US \<le> lg_ts_started r \<and> True) rows))
        + sum_list (map ledger_tokens (filter (\<lambda>r. lg_event_kind r = ''attempt'' \<and> lg_finality r \<noteq> ''final''
         \<and> now - 60 * MINUTE_US \<le> lg_ts_started r) rows))" for rows
    by (induction rows) (auto simp: row is_final_attempt_def as_utc_dt_def)
  note sums = this [of "lb_events (cd_ledger db)"]
  show ?thesis
    unfolding token_burn_rate_def ledger_burn_rate_def final_attempts_since_def usage_view_def utc_parts sums
    by (simp add: all add_divide_distrib)
qed

section \<open>A rule that cannot be evaluated\<close>

text \<open>
  A limit of the engine: when a rule raises, the pass is rolled back, but what the rules before it sent is
  sent. The fire of the first rule is not recorded, neither in the log nor in its state, so neither the state
  nor the cooldown keeps the next pass from sending it again. The hypotheses: of the enabled rules the first
  fires and the second cannot be evaluated, both outside their quiet hours.
\<close>

theorem failing_rule_repeats_alerts:
  assumes "filter al_enabled (ad_rules db) = first # failing # rest"
    and "\<not> is_grouped_kind (al_kind first)" and "\<not> is_grouped_kind (al_kind failing)"
    and "\<not> in_quiet_hours (en_zone en) first now" and "\<not> in_quiet_hours (en_zone en) failing now"
    and "evaluate_rule (en_show en) db first now = Inr (Some f)" and "al_state first \<noteq> FIRING"
    and "\<And>db. evaluate_rule (en_show en) db failing now = Inl e"
  shows "alert_pass en now (db, w) = (db, snd (dispatch en first f w))"
proof -
  have "run_rule en now first (db, w, []) = Inr (run_single en first now (Some f) (db, w, []))"
    using assms(2,4,6) by (simp add: run_rule_def)
  moreover have "fst (snd (run_single en first now (Some f) (db, w, []))) = snd (dispatch en first f w)"
    using assms(7) by (simp add: run_single_def notify_def on_db_def split: prod.split)
  moreover have "run_rule en now failing st = Inl e" for st
    using assms(3,5,8) by (simp add: run_rule_def)
  ultimately show ?thesis
    by (cases "run_single en first now (Some f) (db, w, [])") (simp add: alert_pass_def run_engine_def assms(1))
qed

section \<open>Witnesses\<close>

text \<open>A channel that always delivers and counts what it sent, and a machine last seen at the epoch.\<close>

definition demo_engine :: "nat alert_engine" where
  "demo_engine = \<lparr>en_notifiers = [(''ntfy'', \<lparr>no_configured = True, no_send = \<lambda>_ _ _ n. (True, n + 1)\<rparr>)], en_zone = \<lambda>_. 0,
     en_stale_thresholds = None, en_default_stale = 1800, en_show = \<lambda>_. []\<rparr>"

definition demo_alert_db :: "alert_rule list \<Rightarrow> alert_db" where
  "demo_alert_db rules = \<lparr>db_cards = [], db_next_card = 1, db_settings = [], db_audit = [], cd_ledger = empty_ledger,
     cd_costs = [], cd_sources = \<lparr>st_rows = [], st_next = 1\<rparr>, rd_rollups = [], vd_providers = [], vd_models = [],
     vd_machines = [\<lparr>mr_id = ''laptop'', mr_platform = None, mr_first_seen = 0, mr_last_seen = 0, mr_collector_version = None\<rparr>],
     vd_limits = [], ad_requests = [], ad_rules = rules, ad_events = []\<rparr>"

definition offline_rule :: alert_rule where
  "offline_rule = (new_rule ''Collector offline'' ''collector_stale'' None (Some (30, 120)))\<lparr>al_id := 1\<rparr>"

text \<open>A rule whose window is longer than the calendar, which the interface accepts.\<close>

definition endless_rule :: alert_rule where
  "endless_rule = (new_rule ''Failures'' ''failure_rate'' None None)\<lparr>al_id := 2, al_config := [(''window_minutes'', JInt (10 ^ 10))]\<rparr>"

lemmas demo_alert_defs = demo_engine_def demo_alert_db_def offline_rule_def endless_rule_def new_rule_def

definition offline_finding :: alert_finding where
  "offline_finding = \<lparr>fi_severity = ''warning'', fi_title = ''Collector stale'',
     fi_body = ''No data from laptop for over 30 minutes.'',
     fi_context = [(''machines'', JArr [JStr ''laptop'']), (''worst_stale_minutes'', JNum 60)]\<rparr>"

lemma offline_fires: "evaluate_rule (en_show demo_engine) (demo_alert_db rules) offline_rule HOUR_US = Inr (Some offline_finding)"
proof -
  have "fmt_fixed 0 30 = ''30''" by code_simp
  moreover have "minutes_before HOUR_US 30 = Inr (30 * MINUTE_US)" by code_simp
  moreover have "round_to 1 60 = 60" by code_simp
  ultimately show ?thesis
    by (simp add: evaluate_rule_def EVALUATORS_def collector_stale_alert_def demo_alert_defs warn_crit_def threshold_def
        minutes_between_def seconds_between_def as_utc_dt_def severity_for_def offline_finding_def json_strs_def Let_def)
qed

lemma endless_raises: "evaluate_rule (en_show demo_engine) db endless_rule HOUR_US = Inl Alert_Overflow"
proof -
  have "minutes_before HOUR_US 10000000000 = Inl Alert_Overflow" by code_simp
  then show ?thesis
    by (simp add: evaluate_rule_def EVALUATORS_def failure_rate_alert_def window_setup_def demo_alert_defs filters_from_config_def
        filter_values_def jget_def config_int_def Let_def)
qed

lemma offline_simps [simp]: "al_id offline_rule = 1" "al_kind offline_rule = ''collector_stale''" "al_state offline_rule = NORMAL"
  "al_cooldown_seconds offline_rule = 3600" "al_enabled offline_rule" "al_quiet_hours offline_rule = JNull"
  "al_enabled endless_rule" "al_kind endless_rule = ''failure_rate''" "al_quiet_hours endless_rule = JNull" "al_id endless_rule = 2"
  "al_state endless_rule = NORMAL"
  by (simp_all add: offline_rule_def endless_rule_def new_rule_def)

lemma demo_kinds [simp]: "\<not> is_grouped_kind ''collector_stale''" "\<not> is_grouped_kind ''failure_rate''" "FIRING \<noteq> NORMAL" "NORMAL \<noteq> FIRING"
  by (simp_all add: is_grouped_kind_def GROUPED_EVALUATOR_KINDS_def FIRING_def NORMAL_def)

lemma demo_not_quiet [simp]: "\<not> in_quiet_hours z offline_rule now" "\<not> in_quiet_hours z endless_rule now"
  by (simp_all add: in_quiet_hours_def)

lemma demo_dispatch: "dispatch demo_engine offline_rule offline_finding n = (True, n + 1)"
  by (simp add: dispatch_def dispatch_one_def demo_engine_def channels_def offline_rule_def new_rule_def)

lemma demo_db_simps [simp]: "ad_rules (demo_alert_db rules) = rules" "ad_events (demo_alert_db rules) = []"
  by (simp_all add: demo_alert_db_def)

theorem alert_log_well_formed_witness:
  "let s = alert_pass demo_engine HOUR_US (demo_alert_db [offline_rule], 0)
   in log_ok 3600 (rule_events 1 (fst s)) \<and> log_firing (rule_events 1 (fst s)) \<and> snd s = 1"
proof -
  let ?s = "alert_pass demo_engine HOUR_US (demo_alert_db [offline_rule], 0)"
  have "alert_reachable ?s" by (intro alert_reachable.pass alert_reachable.start) simp_all
  moreover have "?s = (update_rule 1 (\<lambda>r. r\<lparr>al_state := FIRING\<rparr>) (update_rule 1 (\<lambda>r. r\<lparr>al_last_fired_at := Some HOUR_US\<rparr>)
      (record_event offline_rule HOUR_US offline_finding True (demo_alert_db [offline_rule]))), 1)"
    by (simp add: alert_pass_def run_engine_def run_rule_def offline_fires run_single_def notify_def on_db_def demo_dispatch)
  ultimately show ?thesis
    using alert_log_well_formed [of _ "1::nat" "offline_rule\<lparr>al_state := FIRING, al_last_fired_at := Some HOUR_US\<rparr>"]
    by (simp add: Let_def update_rule_def)
qed

theorem single_rules_refine_witness:
  "offline_rule\<lparr>al_last_fired_at := Some HOUR_US, al_state := FIRING\<rparr>
     \<in> set (ad_rules (fst (alert_pass demo_engine HOUR_US (demo_alert_db [offline_rule], 0 :: nat))))"
proof -
  let ?db = "demo_alert_db [offline_rule]"
  obtain db' where r: "run_engine demo_engine HOUR_US ?db (0 :: nat) = (Inr (db', [\<lparr>fa_rule_name = al_name offline_rule,
      fa_finding = offline_finding, fa_delivered = True\<rparr>]), 1)"
    by (simp add: run_engine_def run_rule_def offline_fires run_single_def notify_def on_db_def demo_dispatch)
  have d: "distinct (map al_id (ad_rules ?db))" "offline_rule \<in> set (ad_rules ?db)" by simp_all
  have "single_effect HOUR_US offline_rule (Some offline_finding) ?db db'" "alert_pass demo_engine HOUR_US (?db, 0 :: nat) = (db', 1)"
    using single_rules_refine [OF d, of demo_engine HOUR_US "0 :: nat"] by (simp_all add: r offline_fires)
  then show ?thesis by (simp add: single_effect_def FIRING_def NORMAL_def)
qed

theorem failing_rule_repeats_alerts_witness:
  "alert_pass demo_engine HOUR_US (demo_alert_db [offline_rule, endless_rule], 0) = (demo_alert_db [offline_rule, endless_rule], 1)"
  using failing_rule_repeats_alerts [of "demo_alert_db [offline_rule, endless_rule]" offline_rule endless_rule "[]" demo_engine HOUR_US
      offline_finding Alert_Overflow 0]
  by (simp add: offline_fires endless_raises demo_dispatch)

theorem percentile_rank_witness: "percentile [40, 10, 30, 20] 50 = 20"
proof -
  obtain v where v: "v \<in> set [40, 10, 30, 20]" "percentile [40, 10, 30, 20] 50 = of_int v"
    "50 / 100 * of_nat (length [40, 10, 30, 20::int]) \<le> (of_nat (length (filter (\<lambda>x. x \<le> v) [40, 10, 30, 20])) :: rat)"
    "(of_nat (length (filter (\<lambda>x. x < v) [40, 10, 30, 20])) :: rat) < 50 / 100 * of_nat (length [40, 10, 30, 20::int])"
    using percentile_rank [of "[40, 10, 30, 20]" 50] by auto
  then show ?thesis by auto
qed

text \<open>Two sources: the first goes on being stale inside its cooldown, the second is back.\<close>

definition stale_rule :: alert_rule where
  "stale_rule = (new_rule ''Stale'' ''stale_source'' None None)\<lparr>al_id := 3, al_entity_state :=
     Some [(''1'', entity_entry FIRING (JStr (iso_format (as_utc_dt 0)))), (''2'', entity_entry FIRING (JStr (iso_format (as_utc_dt 0))))]\<rparr>"

theorem grouped_entities_independent_witness:
  "\<exists>r \<in> set (ad_rules (fst (run_grouped demo_engine stale_rule HOUR_US [\<lparr>ef_key = ''1'', ef_finding = offline_finding\<rparr>]
      (demo_alert_db [stale_rule], 0, [])))). \<exists>state. al_entity_state r = Some state
    \<and> entity_firing (dget state ''1'') \<and> \<not> entity_firing (dget state ''2'')"
proof -
  let ?out = "run_grouped demo_engine stale_rule HOUR_US [\<lparr>ef_key = ''1'', ef_finding = offline_finding\<rparr>] (demo_alert_db [stale_rule], 0, [])"
  obtain r where r: "r \<in> set (ad_rules (fst ?out))" "al_id r = al_id stale_rule"
    using touches_grouped [of stale_rule HOUR_US "(demo_alert_db [stale_rule], 0, [])" demo_engine "[\<lparr>ef_key = ''1'', ef_finding = offline_finding\<rparr>]"]
    by (auto simp: touches_def rule_core_eq)
  have e: "al_entity_state stale_rule = Some [(''1'', entity_entry FIRING (JStr (iso_format (as_utc_dt 0)))),
      (''2'', entity_entry FIRING (JStr (iso_format (as_utc_dt 0))))]" by (simp add: stale_rule_def)
  have d: "distinct (map ef_key [\<lparr>ef_key = ''1'', ef_finding = offline_finding\<rparr>])"
    "distinct (dkeys [(''1'', entity_entry FIRING (JStr (iso_format (as_utc_dt 0)))), (''2'', entity_entry FIRING (JStr (iso_format (as_utc_dt 0))))])"
    by simp_all
  obtain state where s: "al_entity_state r = Some state"
    "\<And>k. entity_firing (dget state k) \<longleftrightarrow> k \<in> ef_key ` set [\<lparr>ef_key = ''1'', ef_finding = offline_finding\<rparr>]"
    using grouped_entities_independent [OF d(1) e d(2) r] by blast
  show ?thesis by (intro bexI [OF _ r(1)] exI [of _ state] conjI s(1)) (simp_all add: s(2))
qed

end
