(* ===== verification/Channel_Config.thy ===== *)
theory Channel_Config
  imports Alert_Engine
begin

text \<open>
  The editable settings of the alert channels, \<open>services/channel_config.py\<close>: overrides in the table
  \<open>app_settings\<close> are merged over the settings of the environment, shown with their secrets masked, and saved
  per channel. The settings are a dictionary from the attribute name to its value; a missing attribute and
  \<open>JNull\<close> are \<open>None\<close>.
\<close>

type_synonym settings = "(string, json) dict"

definition KEY_PREFIX :: string where "KEY_PREFIX = ''channel.''"

definition CHANNEL_FIELDS :: "(string, string list) dict" where
  "CHANNEL_FIELDS =
     [(''ntfy'', [''ntfy_url'', ''ntfy_topic'', ''dashboard_url'']),
      (''telegram'', [''telegram_bot_token'', ''telegram_chat_id'']),
      (''smtp'', [''smtp_host'', ''smtp_port'', ''smtp_user'', ''smtp_password'', ''smtp_from'', ''smtp_to'', ''smtp_use_tls''])]"

definition SECRET_FIELDS :: "string list" where "SECRET_FIELDS = [''telegram_bot_token'', ''smtp_password'']"

definition INT_FIELDS :: "string list" where "INT_FIELDS = [''smtp_port'']"

definition BOOL_FIELDS :: "string list" where "BOOL_FIELDS = [''smtp_use_tls'']"

definition coerce :: "string \<Rightarrow> string \<Rightarrow> json" where
  "coerce field v =
     (if field \<in> set INT_FIELDS then (case int_of_str v of None \<Rightarrow> JStr v | Some n \<Rightarrow> JInt n)
      else if field \<in> set BOOL_FIELDS
      then JBool (str_lower (str_strip v) \<in> {''1'', ''true'', ''yes'', ''on''})
      else JStr v)"

definition mask :: "string \<Rightarrow> string" where
  "mask v = (if 4 < length v then ''...'' @ drop (length v - 4) v else ''****'')"

definition all_fields :: "string list" where
  "all_fields = concat (map snd CHANNEL_FIELDS)"

definition field_of_key :: "string \<Rightarrow> string option" where
  "field_of_key key =
     (if take (length KEY_PREFIX) key = KEY_PREFIX then Some (drop (length KEY_PREFIX) key) else None)"

definition override :: "string \<times> string \<times> int \<Rightarrow> settings \<Rightarrow> settings" where
  "override = (\<lambda>(key, v, _) s.
     (case field_of_key key of
        None \<Rightarrow> s
      | Some field \<Rightarrow> if v \<noteq> [] \<and> field \<in> set all_fields then dset field (coerce field v) s else s))"

definition resolve_channel_settings :: "(string, string \<times> int) dict \<Rightarrow> settings \<Rightarrow> settings" where
  "resolve_channel_settings rows base = fold override rows base"

definition setting_text :: "settings \<Rightarrow> string \<Rightarrow> string" where
  "setting_text s field = (case jget s field of None \<Rightarrow> [] | Some v \<Rightarrow> item_str (\<lambda>_. []) v)"

definition setting_truthy :: "settings \<Rightarrow> string \<Rightarrow> bool" where
  "setting_truthy s field = (case jget s field of None \<Rightarrow> False | Some v \<Rightarrow> json_truthy v)"

definition channel_configured :: "string \<Rightarrow> settings \<Rightarrow> bool" where
  "channel_configured name s =
     (if name = ''ntfy'' then setting_truthy s ''ntfy_topic''
      else if name = ''telegram'' then setting_truthy s ''telegram_bot_token'' \<and> setting_truthy s ''telegram_chat_id''
      else if name = ''smtp''
      then setting_truthy s ''smtp_host'' \<and> setting_truthy s ''smtp_from'' \<and> setting_truthy s ''smtp_to''
      else False)"

record channel_field_view =
  cv_name :: string
  cv_value :: string
  cv_is_secret :: bool
  cv_is_set :: bool

record channel_view =
  ch_name :: string
  ch_configured :: bool
  ch_fields :: "channel_field_view list"

definition field_view :: "settings \<Rightarrow> string \<Rightarrow> channel_field_view" where
  "field_view s field =
     (let v = setting_text s field; secret = field \<in> set SECRET_FIELDS
      in \<lparr>cv_name = field, cv_value = (if secret \<and> v \<noteq> [] then mask v else v), cv_is_secret = secret, cv_is_set = v \<noteq> []\<rparr>)"

definition channel_views :: "(string, string \<times> int) dict \<Rightarrow> settings \<Rightarrow> channel_view list" where
  "channel_views rows base =
     (let effective = resolve_channel_settings rows base
      in map (\<lambda>(name, names). \<lparr>ch_name = name, ch_configured = channel_configured name effective,
           ch_fields = map (field_view effective) names\<rparr>) CHANNEL_FIELDS)"

datatype channel_error = Unknown_Channel string

definition save_field ::
  "string list \<Rightarrow> int \<Rightarrow> string \<times> string option \<Rightarrow> (string, string \<times> int) dict \<Rightarrow> (string, string \<times> int) dict" where
  "save_field valid now = (\<lambda>(field, v) rows.
     (case v of
        None \<Rightarrow> rows
      | Some s \<Rightarrow>
          if field \<notin> set valid then rows
          else if s = [] then AList.delete (KEY_PREFIX @ field) rows
          else dset (KEY_PREFIX @ field) (s, now) rows))"

definition save_channel_config ::
  "string \<Rightarrow> (string, string option) dict \<Rightarrow> int \<Rightarrow> (string, string \<times> int) dict \<Rightarrow> channel_error + (string, string \<times> int) dict" where
  "save_channel_config name entries now rows =
     (case dget CHANNEL_FIELDS name of
        None \<Rightarrow> Inl (Unknown_Channel name)
      | Some valid \<Rightarrow> Inr (fold (save_field valid now) entries rows))"

text \<open>The settings as the notifiers read them.\<close>

definition text_setting :: "settings \<Rightarrow> string \<Rightarrow> string option" where
  "text_setting s field = (case jget s field of Some (JStr v) \<Rightarrow> Some v | _ \<Rightarrow> None)"

definition notifier_settings :: "settings \<Rightarrow> channel_settings" where
  "notifier_settings s =
     \<lparr>cs_ntfy_url = text_of (text_setting s ''ntfy_url''), cs_ntfy_topic = text_setting s ''ntfy_topic'',
      cs_dashboard_url = text_setting s ''dashboard_url'', cs_telegram_bot_token = text_setting s ''telegram_bot_token'',
      cs_telegram_chat_id = text_setting s ''telegram_chat_id'', cs_smtp_host = text_setting s ''smtp_host'',
      cs_smtp_from = text_setting s ''smtp_from'', cs_smtp_to = text_setting s ''smtp_to''\<rparr>"

section \<open>Saving and resolving\<close>

lemma field_of_key_prefix [simp]: "field_of_key (KEY_PREFIX @ field) = Some field"
  by (simp add: field_of_key_def)

lemma field_of_key_Some: "field_of_key key = Some field \<longleftrightarrow> key = KEY_PREFIX @ field"
  by (auto simp: field_of_key_def) (metis append_take_drop_id)

definition override_of :: "(string, string \<times> int) dict \<Rightarrow> string \<Rightarrow> json option" where
  "override_of rows field =
     (case dget rows (KEY_PREFIX @ field) of
        None \<Rightarrow> None
      | Some (v, _) \<Rightarrow> if v \<noteq> [] \<and> field \<in> set all_fields then Some (coerce field v) else None)"

lemma resolve_get:
  assumes "distinct (dkeys rows)"
  shows "dget (resolve_channel_settings rows base) field =
    (case override_of rows field of None \<Rightarrow> dget base field | Some v \<Rightarrow> Some v)"
  using assms unfolding resolve_channel_settings_def
proof (induction rows arbitrary: base)
  case (Cons p rows)
  obtain key v t where p: "p = (key, v, t)" by (cases p)
  have new: "override_of rows f = None" if "key = KEY_PREFIX @ f" for f
    using Cons.prems that by (auto simp: p override_of_def dget_None_iff [THEN iffD2])
  have "override_of (p # rows) field = (if key = KEY_PREFIX @ field
      then if v \<noteq> [] \<and> field \<in> set all_fields then Some (coerce field v) else None else override_of rows field)"
    by (auto simp: p override_of_def)
  moreover have "dget (override p base) field = (if key = KEY_PREFIX @ field \<and> v \<noteq> [] \<and> field \<in> set all_fields
      then Some (coerce field v) else dget base field)"
    by (cases "field_of_key key") (auto simp: p override_def field_of_key_Some)
  ultimately show ?case using Cons.IH [of "override p base"] Cons.prems new [of field] by (auto split: option.split)
qed (simp add: override_of_def)

lemma save_field_get: "dget (save_field valid now (field, v) rows) (KEY_PREFIX @ g) =
    (if g = field \<and> field \<in> set valid
     then (case v of None \<Rightarrow> dget rows (KEY_PREFIX @ g) | Some s \<Rightarrow> if s = [] then None else Some (s, now))
     else dget rows (KEY_PREFIX @ g))"
  by (auto simp: save_field_def delete_conv' split: option.split)

lemma save_field_distinct: "distinct (dkeys rows) \<Longrightarrow> distinct (dkeys (save_field valid now p rows))"
  by (cases p) (auto simp: save_field_def distinct_update distinct_delete split: option.split)

lemma save_get:
  assumes "distinct (dkeys entries)"
  shows "dget (fold (save_field valid now) entries rows) (KEY_PREFIX @ g) =
    (case dget entries g of
       Some (Some s) \<Rightarrow> if g \<in> set valid then if s = [] then None else Some (s, now) else dget rows (KEY_PREFIX @ g)
     | _ \<Rightarrow> dget rows (KEY_PREFIX @ g))"
  using assms
proof (induction entries arbitrary: rows)
  case (Cons p entries)
  obtain field v where p: "p = (field, v)" by (cases p)
  have "dget entries field = None" using Cons.prems by (simp add: p dget_None_iff)
  then show ?case using Cons.IH [of "save_field valid now (field, v) rows"] Cons.prems
    by (auto simp: p save_field_get split: option.split)
qed simp

lemma save_distinct: "distinct (dkeys rows) \<Longrightarrow> distinct (dkeys (fold (save_field valid now) entries rows))"
  by (induction entries arbitrary: rows) (simp_all add: save_field_distinct)

text \<open>
  Saving a channel and resolving the settings again: a field saved with a text takes that text, coerced to
  its type; a field saved empty falls back to the environment; a field saved as \<open>None\<close>, or not at all, and every
  field of another channel keeps its effective value. The hypotheses: the save succeeded, and keys are unique.
\<close>

theorem saved_channel_settings:
  assumes "save_channel_config name entries now rows = Inr rows'" and "dget CHANNEL_FIELDS name = Some valid"
    and "distinct (dkeys rows)" and "distinct (dkeys entries)"
  shows "dget (resolve_channel_settings rows' base) field =
    (case (if field \<in> set valid then dget entries field else None) of
       Some (Some s) \<Rightarrow> if s = [] then dget base field else Some (coerce field s)
     | _ \<Rightarrow> dget (resolve_channel_settings rows base) field)"
proof -
  have rows': "rows' = fold (save_field valid now) entries rows"
    using assms(1,2) by (simp add: save_channel_config_def)
  have known: "field \<in> set all_fields" if "field \<in> set valid"
    using map_of_SomeD [OF assms(2)] that by (force simp: all_fields_def)
  have "override_of rows' field = (case (if field \<in> set valid then dget entries field else None) of
       Some (Some s) \<Rightarrow> if s = [] then None else Some (coerce field s) | _ \<Rightarrow> override_of rows field)"
    using known by (auto simp: override_of_def rows' save_get [OF assms(4)] split: option.split)
  then show ?thesis
    unfolding resolve_get [OF assms(3)] resolve_get [OF save_distinct [OF assms(3)], of valid now entries, folded rows']
    by (auto split: option.split)
qed

section \<open>What the views show\<close>

text \<open>Settings that differ only in the masked part of a secret.\<close>

definition same_masked :: "settings \<Rightarrow> settings \<Rightarrow> bool" where
  "same_masked s s' \<longleftrightarrow> (\<forall>field.
     if field \<in> set SECRET_FIELDS
     then setting_truthy s field = setting_truthy s' field \<and> (setting_text s field = [] \<longleftrightarrow> setting_text s' field = [])
       \<and> mask (setting_text s field) = mask (setting_text s' field)
     else jget s field = jget s' field)"

lemma views_masked:
  assumes "same_masked (resolve_channel_settings rows base) (resolve_channel_settings rows' base')"
  shows "channel_views rows base = channel_views rows' base'"
proof -
  let ?s = "resolve_channel_settings rows base" and ?s' = "resolve_channel_settings rows' base'"
  have view: "field_view ?s f = field_view ?s' f" for f
    using assms unfolding same_masked_def by (auto simp: field_view_def Let_def setting_text_def dest!: spec [of _ f])
  have truthy: "setting_truthy ?s f = setting_truthy ?s' f" for f
    using assms unfolding same_masked_def by (auto simp: setting_truthy_def dest!: spec [of _ f] split: if_split_asm)
  have "channel_configured n ?s = channel_configured n ?s'" for n by (simp add: channel_configured_def truthy)
  moreover have "field_view ?s = field_view ?s'" using view by (rule ext)
  ultimately show ?thesis by (simp add: channel_views_def Let_def)
qed

text \<open>
  The channel views do not reveal a secret: whatever the two longer secrets of two settings are, when their
  last four characters agree and the settings agree otherwise, the views are equal. The hypotheses say just that.
\<close>

theorem views_hide_secrets:
  assumes "distinct (dkeys rows)" and "secret \<in> set SECRET_FIELDS" and "KEY_PREFIX @ secret \<notin> set (dkeys rows)"
    and "4 < length a" and "4 < length b" and "drop (length a - 4) a = drop (length b - 4) b"
  shows "channel_views rows (dset secret (JStr a) base) = channel_views rows (dset secret (JStr b) base)"
proof -
  let ?s = "\<lambda>v. resolve_channel_settings rows (dset secret (JStr v) base)"
  have none: "override_of rows secret = None" using assms(3) by (simp add: override_of_def dget_None_iff [THEN iffD2])
  have get: "dget (?s v) f = (if f = secret then Some (JStr v) else dget (?s a) f)" for v f
    by (auto simp: resolve_get [OF assms(1)] none split: option.split)
  have texts: "setting_text (?s v) secret = v" "setting_truthy (?s v) secret = (v \<noteq> [])" for v
    by (simp_all add: setting_text_def setting_truthy_def jget_def get)
  have others: "jget (?s a) f = jget (?s b) f" if "f \<noteq> secret" for f using that by (simp add: jget_def get [of b f])
  have "same_masked (?s a) (?s b)" unfolding same_masked_def
  proof
    fix f
    show "if f \<in> set SECRET_FIELDS
      then setting_truthy (?s a) f = setting_truthy (?s b) f \<and> (setting_text (?s a) f = [] \<longleftrightarrow> setting_text (?s b) f = [])
        \<and> mask (setting_text (?s a) f) = mask (setting_text (?s b) f)
      else jget (?s a) f = jget (?s b) f"
    proof (cases "f = secret")
      case True
      then show ?thesis using assms(2,4-6) by (auto simp: texts mask_def)
    next
      case False
      then show ?thesis by (simp add: others setting_truthy_def setting_text_def)
    qed
  qed
  then show ?thesis by (rule views_masked)
qed

text \<open>
  The configured flags of the views are the checks of the notifiers: for settings whose channel values are
  texts, a channel is shown as configured just when its notifier says so. The hypothesis says they are texts.
\<close>

theorem configured_mirrors_notifiers:
  assumes "\<And>field v. jget s field = Some v \<Longrightarrow> field \<in> set all_fields - set INT_FIELDS - set BOOL_FIELDS \<Longrightarrow> \<exists>t. v = JStr t"
  shows "channel_configured name s \<longleftrightarrow>
    (case dget (build_notifiers (notifier_settings s) post deliver) name of None \<Rightarrow> False | Some n \<Rightarrow> no_configured n)"
proof -
  have set: "str_set (text_setting s f) = setting_truthy s f" if "f \<in> set all_fields - set INT_FIELDS - set BOOL_FIELDS" for f
    using assms [OF _ that] by (cases "jget s f") (auto simp: text_setting_def setting_truthy_def str_set_def)
  show ?thesis
    by (simp add: channel_configured_def build_notifiers_def ntfy_notifier_def telegram_notifier_def smtp_notifier_def
        notifier_settings_def Let_def set all_fields_def CHANNEL_FIELDS_def INT_FIELDS_def BOOL_FIELDS_def)
qed

section \<open>Witnesses\<close>

theorem saved_channel_settings_witness:
  "dget (resolve_channel_settings [(''channel.ntfy_url'', ''u'', 0), (''channel.smtp_port'', ''25'', 1)] [(''ntfy_topic'', JStr ''t'')]) ''smtp_port''
     = Some (JInt 25)"
proof -
  have save: "save_channel_config ''smtp'' [(''smtp_port'', Some ''25'')] 1 [(''channel.ntfy_url'', ''u'', 0)]
      = Inr [(''channel.ntfy_url'', ''u'', 0), (''channel.smtp_port'', ''25'', 1)]" by code_simp
  have valid: "dget CHANNEL_FIELDS ''smtp'' = Some [''smtp_host'', ''smtp_port'', ''smtp_user'', ''smtp_password'', ''smtp_from'',
      ''smtp_to'', ''smtp_use_tls'']" by code_simp
  have "coerce ''smtp_port'' ''25'' = JInt 25" by code_simp
  then show ?thesis using saved_channel_settings [OF save valid, of "[(''ntfy_topic'', JStr ''t'')]" "''smtp_port''"] by simp
qed

theorem views_hide_secrets_witness:
  "channel_views [] [(''telegram_bot_token'', JStr ''abc1234'')] = channel_views [] [(''telegram_bot_token'', JStr ''wxyz1234'')]"
  using views_hide_secrets [of "[]" "''telegram_bot_token''" "''abc1234''" "''wxyz1234''" "[]"] by (simp add: SECRET_FIELDS_def)

theorem configured_mirrors_notifiers_witness:
  "channel_configured ''ntfy'' [(''ntfy_topic'', JStr ''t'')] \<longleftrightarrow>
    (case dget (build_notifiers (notifier_settings [(''ntfy_topic'', JStr ''t'')]) (\<lambda>_ _ _ w. (None, w)) (\<lambda>_ _ _ _ w. (False, w :: unit)))
       ''ntfy'' of None \<Rightarrow> False | Some n \<Rightarrow> no_configured n)"
  by (rule configured_mirrors_notifiers) (auto simp: jget_def split: if_split_asm)

end
