(* ===== verification/Retention.thy ===== *)
theory Retention
  imports Audit_Log Rate_Cards Claude_Code Py_Text
begin

text \<open>
  The retention policy, \<open>services/retention.py\<close>: a rule per record category and a legal hold, validated, saved
  under \<open>retention.*\<close> keys of the table \<open>app_settings\<close> with an audit entry, and resolved over the defaults.
\<close>

definition RETENTION_PREFIX :: string where "RETENTION_PREFIX = ''retention.''"

definition INDEFINITE :: string where "INDEFINITE = ''none''"

definition RAW_EVENTS :: string where "RAW_EVENTS = ''raw_events''"
definition SUPERSEDED_SNAPSHOTS :: string where "SUPERSEDED_SNAPSHOTS = ''superseded_snapshots''"
definition DAILY_ROLLUPS :: string where "DAILY_ROLLUPS = ''daily_rollups''"
definition LIMIT_SNAPSHOTS :: string where "LIMIT_SNAPSHOTS = ''limit_snapshots''"
definition INGEST_BATCHES :: string where "INGEST_BATCHES = ''ingest_batches''"
definition AUDIT_RECORDS :: string where "AUDIT_RECORDS = ''audit_records''"
definition CORRECTIONS :: string where "CORRECTIONS = ''corrections''"
definition ALERT_EVENTS :: string where "ALERT_EVENTS = ''alert_events''"
definition V1_ARCHIVE :: string where "V1_ARCHIVE = ''v1_archive''"

definition RETENTION_CATEGORIES :: "string list" where
  "RETENTION_CATEGORIES = [RAW_EVENTS, SUPERSEDED_SNAPSHOTS, DAILY_ROLLUPS, LIMIT_SNAPSHOTS, INGEST_BATCHES, AUDIT_RECORDS,
     CORRECTIONS, ALERT_EVENTS, V1_ARCHIVE]"

lemmas category_defs = RAW_EVENTS_def SUPERSEDED_SNAPSHOTS_def DAILY_ROLLUPS_def LIMIT_SNAPSHOTS_def INGEST_BATCHES_def
  AUDIT_RECORDS_def CORRECTIONS_def ALERT_EVENTS_def V1_ARCHIVE_def

definition ROLLUP_VERIFICATION_LAG_DAYS :: int where "ROLLUP_VERIFICATION_LAG_DAYS = 2"

datatype retention_error =
    Missing_Categories "string list" | Unknown_Categories "string list" | Days_Too_Small string | Raw_Below_Lag
  | Bad_Days string

record category_rule =
  cr_days :: "int option"
  cr_enabled :: bool

record retention_policy =
  rp_rules :: "(string, category_rule) dict"
  rp_legal_hold :: bool

definition deletes :: "category_rule \<Rightarrow> bool" where
  "deletes r \<longleftrightarrow> cr_enabled r \<and> cr_days r \<noteq> None"

definition is_deletion_active :: "retention_policy \<Rightarrow> string \<Rightarrow> bool" where
  "is_deletion_active p category \<longleftrightarrow>
     (if rp_legal_hold p then False
      else case dget (rp_rules p) category of None \<Rightarrow> False | Some r \<Rightarrow> deletes r)"

abbreviation category_rule_of :: "int option \<Rightarrow> bool \<Rightarrow> category_rule" where
  "category_rule_of days enabled \<equiv> \<lparr>cr_days = days, cr_enabled = enabled\<rparr>"

definition DEFAULT_RULES :: "(string, category_rule) dict" where
  "DEFAULT_RULES =
     [(RAW_EVENTS, category_rule_of (Some 180) True), (SUPERSEDED_SNAPSHOTS, category_rule_of (Some 7) True),
      (DAILY_ROLLUPS, category_rule_of None True), (LIMIT_SNAPSHOTS, category_rule_of (Some 400) True),
      (INGEST_BATCHES, category_rule_of (Some 30) True), (AUDIT_RECORDS, category_rule_of (Some 400) True),
      (CORRECTIONS, category_rule_of None True), (ALERT_EVENTS, category_rule_of (Some 400) True),
      (V1_ARCHIVE, category_rule_of None False)]"

definition default_retention_policy :: retention_policy where
  "default_retention_policy = \<lparr>rp_rules = DEFAULT_RULES, rp_legal_hold = False\<rparr>"

definition validate_retention_policy :: "retention_policy \<Rightarrow> retention_error option" where
  "validate_retention_policy p =
     (let missing = filter (\<lambda>c. c \<notin> set (dkeys (rp_rules p))) RETENTION_CATEGORIES;
          unknown = filter (\<lambda>c. c \<notin> set RETENTION_CATEGORIES) (dkeys (rp_rules p))
      in if missing \<noteq> [] then Some (Missing_Categories (sort missing))
         else if unknown \<noteq> [] then Some (Unknown_Categories (sort unknown))
         else case first_some (\<lambda>(c, r). case cr_days r of None \<Rightarrow> None
                 | Some d \<Rightarrow> if d < 1 then Some (Days_Too_Small c) else None) (rp_rules p) of
             Some e \<Rightarrow> Some e
           | None \<Rightarrow>
               (case dget (rp_rules p) RAW_EVENTS of None \<Rightarrow> None
                | Some r \<Rightarrow> (case cr_days r of None \<Rightarrow> None
                    | Some d \<Rightarrow> if d < ROLLUP_VERIFICATION_LAG_DAYS then Some Raw_Below_Lag else None)))"

definition parse_days :: "string \<Rightarrow> retention_error + int option" where
  "parse_days v =
     (if str_lower (str_strip v) = INDEFINITE then Inr None
      else case int_of_str v of None \<Rightarrow> Inl (Bad_Days v) | Some n \<Rightarrow> Inr (Some n))"

definition parse_bool :: "string \<Rightarrow> bool" where
  "parse_bool v \<longleftrightarrow> str_lower (str_strip v) \<in> {''1'', ''true'', ''yes'', ''on''}"

definition days_str :: "int option \<Rightarrow> string" where
  "days_str d = (case d of None \<Rightarrow> INDEFINITE | Some n \<Rightarrow> str_of_int n)"

definition days_key :: "string \<Rightarrow> string" where
  "days_key category = RETENTION_PREFIX @ category @ ''.days''"

definition enabled_key :: "string \<Rightarrow> string" where
  "enabled_key category = RETENTION_PREFIX @ category @ ''.enabled''"

definition hold_key :: string where "hold_key = RETENTION_PREFIX @ ''legal_hold''"

text \<open>The stored override under a key; a blank value counts as none.\<close>

definition stored_override :: "(string, string \<times> int) dict \<Rightarrow> string \<Rightarrow> string option" where
  "stored_override rows key = (case dget rows key of None \<Rightarrow> None | Some (v, _) \<Rightarrow> if v = [] then None else Some v)"

definition resolve_rule :: "(string, string \<times> int) dict \<Rightarrow> string \<times> category_rule \<Rightarrow> retention_error + string \<times> category_rule" where
  "resolve_rule rows = (\<lambda>(category, base).
     (let enabled = (case stored_override rows (enabled_key category) of None \<Rightarrow> cr_enabled base | Some v \<Rightarrow> parse_bool v)
      in case stored_override rows (days_key category) of
           None \<Rightarrow> Inr (category, category_rule_of (cr_days base) enabled)
         | Some v \<Rightarrow> (case parse_days v of Inl e \<Rightarrow> Inl e | Inr d \<Rightarrow> Inr (category, category_rule_of d enabled))))"

fun resolve_rules :: "(string, string \<times> int) dict \<Rightarrow> (string, category_rule) dict \<Rightarrow> retention_error + (string, category_rule) dict" where
  "resolve_rules rows [] = Inr []"
| "resolve_rules rows (p # ps) =
     (case resolve_rule rows p of Inl e \<Rightarrow> Inl e
      | Inr q \<Rightarrow> (case resolve_rules rows ps of Inl e \<Rightarrow> Inl e | Inr qs \<Rightarrow> Inr (q # qs)))"

definition resolve_retention_policy :: "(string, string \<times> int) dict \<Rightarrow> retention_error + retention_policy" where
  "resolve_retention_policy rows =
     (case resolve_rules rows (rp_rules default_retention_policy) of
        Inl e \<Rightarrow> Inl e
      | Inr rules \<Rightarrow> Inr \<lparr>rp_rules = rules,
          rp_legal_hold = (case stored_override rows hold_key of None \<Rightarrow> rp_legal_hold default_retention_policy | Some v \<Rightarrow> parse_bool v)\<rparr>)"

definition bool_str :: "bool \<Rightarrow> string" where
  "bool_str b = (if b then ''true'' else ''false'')"

definition save_rule ::
  "retention_policy \<Rightarrow> int \<Rightarrow> string \<Rightarrow> (string, string \<times> int) dict \<Rightarrow> (string, string \<times> int) dict" where
  "save_rule p now category rows =
     (case dget (rp_rules p) category of
        None \<Rightarrow> rows
      | Some r \<Rightarrow> dset (enabled_key category) (bool_str (cr_enabled r), now)
          (dset (days_key category) (days_str (cr_days r), now) rows))"

definition policy_detail :: "retention_policy \<Rightarrow> (string \<times> audit_value) list" where
  "policy_detail p =
     [(''legal_hold'', AuBool (rp_legal_hold p)),
      (''categories'', AuObj (map (\<lambda>c. (c, AuObj (case dget (rp_rules p) c of None \<Rightarrow> []
         | Some r \<Rightarrow> [(''retention_days'', case cr_days r of None \<Rightarrow> AuNull | Some d \<Rightarrow> AuInt d), (''enabled'', AuBool (cr_enabled r))])))
       RETENTION_CATEGORIES))]"

definition save_retention_policy ::
  "retention_policy \<Rightarrow> string option \<Rightarrow> int \<Rightarrow> 'a pricing_db_scheme \<Rightarrow> retention_error + 'a pricing_db_scheme" where
  "save_retention_policy p actor now db =
     (case validate_retention_policy p of
        Some e \<Rightarrow> Inl e
      | None \<Rightarrow> Inr (db\<lparr>db_settings := dset hold_key (bool_str (rp_legal_hold p), now)
            (fold (save_rule p now) RETENTION_CATEGORIES (db_settings db)),
          db_audit := audit_record actor ''retention_policy_update'' (Some ''retention'') (policy_detail p) now None (db_audit db)\<rparr>))"

section \<open>Saving and resolving\<close>

lemma digit_not_space: "is_digit c \<Longrightarrow> \<not> is_space c"
  by (simp add: is_digit_def is_space_def Let_def)

lemma digit_lower: "is_digit c \<Longrightarrow> lower_char c = c"
  by (simp add: is_digit_def lower_char_def Let_def)

lemma strip_digits: "list_all is_digit s \<Longrightarrow> str_strip s = s"
proof -
  assume s: "list_all is_digit s"
  have d: "dropWhile is_space t = t" if "list_all is_digit t" for t
    using that by (cases t) (auto simp: digit_not_space)
  have "dropWhile is_space (rev s) = rev s" by (rule d) (use s in \<open>simp add: list_all_iff\<close>)
  then show ?thesis using d [OF s] by (simp add: str_strip_def)
qed

lemma plain_digits_all: "s \<noteq> [] \<Longrightarrow> list_all is_digit s \<Longrightarrow> plain_digits s"
proof (induction s rule: plain_digits.induct)
  case (3 c d s)
  then have "d \<noteq> CHR ''_''" by (auto simp: is_digit_def)
  with 3 show ?case by simp
qed simp_all

lemma int_of_str_of_nat: "int_of_str (str_of_nat n) = Some (int n)"
proof -
  have all: "list_all is_digit (str_of_nat n)" by simp
  obtain c t where ct: "str_of_nat n = c # t" by (cases "str_of_nat n") simp_all
  have "is_digit c" using all by (simp add: ct)
  then have "split_sign (str_of_nat n) = (False, str_of_nat n)" by (auto simp: split_sign_def ct is_digit_def)
  moreover have "filter is_digit (str_of_nat n) = str_of_nat n" using all by (simp add: list_all_iff filter_id_conv)
  ultimately show ?thesis using plain_digits_all [OF str_of_nat_ne all]
    by (simp add: int_of_str_def strip_digits [OF all])
qed

lemma parse_days_str: "(\<forall>n. d = Some n \<longrightarrow> 1 \<le> n) \<Longrightarrow> parse_days (days_str d) = Inr d"
proof (cases d)
  case None
  have "str_lower (str_strip INDEFINITE) = INDEFINITE" by code_simp
  then show ?thesis by (simp add: None days_str_def parse_days_def)
next
  case (Some n)
  assume "\<forall>n. d = Some n \<longrightarrow> 1 \<le> n"
  then have n: "str_of_int n = str_of_nat (nat n)" "0 \<le> n" using Some by (auto simp: str_of_int_def)
  have all: "list_all is_digit (str_of_nat (nat n))" by simp
  have "str_lower (str_strip (str_of_nat (nat n))) = str_of_nat (nat n)"
    using all by (simp add: strip_digits str_lower_def map_idI list_all_iff digit_lower)
  moreover have "str_of_nat (nat n) \<noteq> INDEFINITE"
  proof
    assume "str_of_nat (nat n) = INDEFINITE"
    then have "list_all is_digit INDEFINITE" using all by simp
    then show False by (simp add: INDEFINITE_def is_digit_def)
  qed
  ultimately show ?thesis by (simp add: Some days_str_def parse_days_def n int_of_str_of_nat)
qed

lemma parse_bool_str [simp]: "parse_bool (bool_str b) = b"
proof -
  have "parse_bool ''true''" "\<not> parse_bool ''false''" by code_simp+
  then show ?thesis by (simp add: bool_str_def)
qed

lemma days_str_ne [simp]: "days_str d \<noteq> []" "bool_str b \<noteq> []"
  by (auto simp: days_str_def INDEFINITE_def str_of_int_def bool_str_def split: option.split)

lemma key_inj [simp]: "days_key c = days_key c' \<longleftrightarrow> c = c'" "enabled_key c = enabled_key c' \<longleftrightarrow> c = c'"
  by (simp_all add: days_key_def enabled_key_def)

lemma key_kinds [simp]: "days_key c \<noteq> enabled_key c'" "enabled_key c \<noteq> days_key c'" "days_key c \<noteq> hold_key" "enabled_key c \<noteq> hold_key"
  "hold_key \<noteq> days_key c" "hold_key \<noteq> enabled_key c"
  by (auto simp: days_key_def enabled_key_def hold_key_def RETENTION_PREFIX_def dest!: arg_cong [where f = rev])

lemma save_rules_get:
  "dget (fold (save_rule p now) cs rows) (days_key c) =
     (case dget (rp_rules p) c of
        Some r \<Rightarrow> if c \<in> set cs then Some (days_str (cr_days r), now) else dget rows (days_key c)
      | None \<Rightarrow> dget rows (days_key c))
   \<and> dget (fold (save_rule p now) cs rows) (enabled_key c) =
     (case dget (rp_rules p) c of
        Some r \<Rightarrow> if c \<in> set cs then Some (bool_str (cr_enabled r), now) else dget rows (enabled_key c)
      | None \<Rightarrow> dget rows (enabled_key c))"
proof (induction cs arbitrary: rows)
  case (Cons a cs)
  show ?case using Cons.IH [of "save_rule p now a rows"] by (auto simp: save_rule_def split: option.split)
qed (simp split: option.split)

definition valid_policy :: "retention_policy \<Rightarrow> bool" where
  "valid_policy p \<longleftrightarrow> validate_retention_policy p = None"

lemma valid_rules:
  assumes "valid_policy p"
  shows "c \<in> set RETENTION_CATEGORIES \<Longrightarrow> \<exists>r. dget (rp_rules p) c = Some r"
    and "dget (rp_rules p) c = Some r \<Longrightarrow> cr_days r = Some d \<Longrightarrow> 1 \<le> d"
proof -
  have m: "filter (\<lambda>c. c \<notin> set (dkeys (rp_rules p))) RETENTION_CATEGORIES = []"
    and b: "first_some (\<lambda>(c, r). case cr_days r of None \<Rightarrow> None
                 | Some d \<Rightarrow> if d < 1 then Some (Days_Too_Small c) else None) (rp_rules p) = None"
    using assms by (auto simp: valid_policy_def validate_retention_policy_def Let_def split: if_split_asm option.split_asm)
  show "c \<in> set RETENTION_CATEGORIES \<Longrightarrow> \<exists>r. dget (rp_rules p) c = Some r"
    using m dget_None_iff [of "rp_rules p" c] by (cases "dget (rp_rules p) c") (auto simp: filter_empty_conv)
  show "1 \<le> d" if "dget (rp_rules p) c = Some r" "cr_days r = Some d"
  proof (rule ccontr)
    assume "\<not> 1 \<le> d"
    moreover have "(c, r) \<in> set (rp_rules p)" using that(1) by (rule map_of_SomeD)
    moreover have none: "first_some g xs = None \<Longrightarrow> x \<in> set xs \<Longrightarrow> g x = None" for g :: "'a \<Rightarrow> 'b option" and xs x
      by (induction xs) (auto split: option.split_asm)
    ultimately show False using none [OF b \<open>(c, r) \<in> set (rp_rules p)\<close>] that(2) by simp
  qed
qed

lemma resolve_rules_saved:
  assumes "\<And>c. c \<in> set (dkeys base) \<Longrightarrow> \<exists>r. dget rules c = Some r \<and> stored_override rows (days_key c) = Some (days_str (cr_days r))
      \<and> stored_override rows (enabled_key c) = Some (bool_str (cr_enabled r)) \<and> (\<forall>d. cr_days r = Some d \<longrightarrow> 1 \<le> d)"
  shows "resolve_rules rows base = Inr (map (\<lambda>(c, _). (c, the (dget rules c))) base)"
  using assms
proof (induction base)
  case (Cons p base)
  obtain c b where p: "p = (c, b)" by (cases p)
  obtain r where r: "dget rules c = Some r" "stored_override rows (days_key c) = Some (days_str (cr_days r))"
    "stored_override rows (enabled_key c) = Some (bool_str (cr_enabled r))" "\<forall>d. cr_days r = Some d \<longrightarrow> 1 \<le> d"
    using Cons.prems [of c] by (auto simp: p)
  have "resolve_rule rows p = Inr (c, r)" by (simp add: resolve_rule_def p r Let_def parse_days_str)
  then show ?case using Cons by (simp add: p r)
qed simp

text \<open>
  A policy that was saved is the policy that is resolved: every category has the rule that was saved and the
  legal hold is the one saved, whatever overrides there were before; an invalid policy is not saved at all. The
  hypothesis: the save succeeded.
\<close>

theorem retention_policy_roundtrip:
  assumes "save_retention_policy p actor now db = Inr db'"
  shows "\<exists>q. resolve_retention_policy (db_settings db') = Inr q
    \<and> (\<forall>c \<in> set RETENTION_CATEGORIES. dget (rp_rules q) c = dget (rp_rules p) c)
    \<and> dkeys (rp_rules q) = RETENTION_CATEGORIES \<and> rp_legal_hold q = rp_legal_hold p
    \<and> (\<forall>c. is_deletion_active q c \<longleftrightarrow> c \<in> set RETENTION_CATEGORIES \<and> is_deletion_active p c)"
proof -
  have valid: "valid_policy p"
    and rows: "db_settings db' = dset hold_key (bool_str (rp_legal_hold p), now) (fold (save_rule p now) RETENTION_CATEGORIES (db_settings db))"
    using assms by (auto simp: save_retention_policy_def valid_policy_def split: option.split_asm)
  have keys: "dkeys DEFAULT_RULES = RETENTION_CATEGORIES" by (simp add: DEFAULT_RULES_def RETENTION_CATEGORIES_def)
  have rules: "resolve_rules (db_settings db') DEFAULT_RULES = Inr (map (\<lambda>(c, _). (c, the (dget (rp_rules p) c))) DEFAULT_RULES)"
  proof (rule resolve_rules_saved)
    fix c assume c: "c \<in> set (dkeys DEFAULT_RULES)"
    then obtain r where r: "dget (rp_rules p) c = Some r" using valid_rules(1) [OF valid] keys by metis
    then show "\<exists>r. dget (rp_rules p) c = Some r \<and> stored_override (db_settings db') (days_key c) = Some (days_str (cr_days r))
      \<and> stored_override (db_settings db') (enabled_key c) = Some (bool_str (cr_enabled r)) \<and> (\<forall>d. cr_days r = Some d \<longrightarrow> 1 \<le> d)"
      using c keys valid_rules(2) [OF valid r] save_rules_get [of p now RETENTION_CATEGORIES "db_settings db" c]
      by (auto simp: stored_override_def rows)
  qed
  define q where "q = \<lparr>rp_rules = map (\<lambda>(c, _). (c, the (dget (rp_rules p) c))) DEFAULT_RULES, rp_legal_hold = rp_legal_hold p\<rparr>"
  have q: "resolve_retention_policy (db_settings db') = Inr q"
    by (simp add: resolve_retention_policy_def default_retention_policy_def rules q_def) (simp add: stored_override_def rows)
  have get: "dget (rp_rules q) c = (if c \<in> set RETENTION_CATEGORIES then dget (rp_rules p) c else None)" for c
  proof -
    have "dget (map (\<lambda>(c, _). (c, f c)) xs) c = (if c \<in> set (dkeys xs) then Some (f c) else None)" for f :: "string \<Rightarrow> category_rule" and xs :: "(string, category_rule) dict"
      by (induction xs) auto
    note this [of "\<lambda>c. the (dget (rp_rules p) c)" DEFAULT_RULES, unfolded keys]
    then show ?thesis using valid_rules(1) [OF valid, of c] by (auto simp: q_def)
  qed
  have "dkeys (rp_rules q) = RETENTION_CATEGORIES" by (simp add: q_def keys [symmetric] case_prod_unfold comp_def)
  then show ?thesis using q get by (auto simp: is_deletion_active_def q_def [THEN arg_cong [where f = rp_legal_hold]])
qed

definition sample_policy :: retention_policy where
  "sample_policy = \<lparr>rp_rules = dset RAW_EVENTS (category_rule_of (Some 30) True) DEFAULT_RULES, rp_legal_hold = True\<rparr>"

theorem retention_policy_roundtrip_witness:
  "\<exists>db' q. save_retention_policy sample_policy None 5 \<lparr>db_cards = [], db_next_card = 1, db_settings = [], db_audit = []\<rparr> = Inr db'
     \<and> resolve_retention_policy (db_settings db') = Inr q
     \<and> dget (rp_rules q) RAW_EVENTS = Some (category_rule_of (Some 30) True) \<and> rp_legal_hold q"
proof -
  have "validate_retention_policy sample_policy = None" by code_simp
  then obtain db' where s: "save_retention_policy sample_policy None 5
      \<lparr>db_cards = [], db_next_card = 1, db_settings = [], db_audit = []\<rparr> = Inr db'"
    by (simp add: save_retention_policy_def)
  have "RAW_EVENTS \<in> set RETENTION_CATEGORIES" by (simp add: RETENTION_CATEGORIES_def)
  then show ?thesis using s retention_policy_roundtrip [OF s] by (auto simp: sample_policy_def)
qed

end
