(* ===== verification/Retention_Worker.thy ===== *)
theory Retention_Worker
  imports Retention Alert_Rules
begin

text \<open>
  The retention worker, \<open>services/retention_worker.py\<close>, and the pass of the retention loop of \<open>app.py\<close>: every
  active category loses its rows older than the cutoff in a bounded batch, oldest first; raw events go by whole
  days, and only when the rollups of the day sum to its events. The position of a row stands for its primary
  key; timestamps are compared as they are stored.
\<close>

section \<open>State\<close>

record retention_status =
  rs_last_run_at :: int
  rs_last_deleted :: nat
  rs_total_deleted :: nat
  rs_pending_backlog :: nat
  rs_oldest_retained :: "int option"
  rs_updated_at :: int

record retention_db = alert_db +
  rt_batches :: "ingest_batch list"
  rt_archive :: "int list option"
  rt_status :: "(string, retention_status) dict"

record category_result =
  ct_category :: string
  ct_ran :: bool
  ct_deleted :: nat
  ct_pending_backlog :: nat
  ct_oldest_retained :: "int option"
  ct_aborted_days :: nat

definition total_deleted :: "category_result list \<Rightarrow> nat" where
  "total_deleted rs = sum_list (map ct_deleted rs)"

definition aborted_days :: "category_result list \<Rightarrow> nat" where
  "aborted_days rs = sum_list (map ct_aborted_days rs)"

definition deleted_of :: "category_result list \<Rightarrow> string \<Rightarrow> nat" where
  "deleted_of rs category = (case find (\<lambda>c. ct_category c = category) rs of None \<Rightarrow> 0 | Some c \<Rightarrow> ct_deleted c)"

definition not_run :: "string \<Rightarrow> category_result" where
  "not_run category = \<lparr>ct_category = category, ct_ran = False, ct_deleted = 0, ct_pending_backlog = 0,
     ct_oldest_retained = None, ct_aborted_days = 0\<rparr>"

section \<open>Bounded deletion\<close>

definition min_time :: "int list \<Rightarrow> int option" where
  "min_time ts = (if ts = [] then None else Some (Min (set ts)))"

definition oldest_keys :: "('a \<Rightarrow> int) \<Rightarrow> ('a \<Rightarrow> bool) \<Rightarrow> nat \<Rightarrow> 'a list \<Rightarrow> nat list" where
  "oldest_keys time eligible batch_size rows =
     map fst (take batch_size (sort_key (time \<circ> snd) (filter (eligible \<circ> snd) (enumerate 0 rows))))"

definition delete_keys :: "nat list \<Rightarrow> 'a list \<Rightarrow> 'a list" where
  "delete_keys keys rows = map snd (filter (\<lambda>(i, _). i \<notin> set keys) (enumerate 0 rows))"

text \<open>The rows that are left, with the number deleted, the backlog and the oldest time of the category.\<close>

definition delete_simple ::
  "('a \<Rightarrow> int) \<Rightarrow> ('a \<Rightarrow> bool) \<Rightarrow> int \<Rightarrow> nat \<Rightarrow> 'a list \<Rightarrow> (nat \<times> nat \<times> int option) \<times> 'a list" where
  "delete_simple time extra cutoff batch_size rows =
     (let eligible = (\<lambda>r. time r < cutoff \<and> extra r);
          keys = oldest_keys time eligible batch_size rows;
          rows' = delete_keys keys rows
      in ((length keys, length (filter eligible rows'), min_time (map time (filter extra rows'))), rows'))"

definition delete_daily_rollups :: "int \<Rightarrow> nat \<Rightarrow> rollup_row list \<Rightarrow> (nat \<times> nat \<times> int option) \<times> rollup_row list" where
  "delete_daily_rollups cutoff batch_size rows =
     (let eligible = (\<lambda>r. ro_day r < utc_date cutoff);
          keys = oldest_keys ro_day eligible batch_size rows;
          rows' = delete_keys keys rows
      in ((length keys, length (filter eligible rows'), map_option (\<lambda>d. d * DAY_US) (min_time (map ro_day rows'))), rows'))"

definition delete_v1_archive :: "int \<Rightarrow> int list option \<Rightarrow> (nat \<times> nat \<times> int option) \<times> int list option" where
  "delete_v1_archive cutoff table =
     (case table of
        None \<Rightarrow> ((0, 0, None), None)
      | Some ts \<Rightarrow>
          let kept = filter (\<lambda>t. \<not> t < cutoff) ts
          in ((length (filter (\<lambda>t. t < cutoff) ts), 0, min_time kept), Some kept))"

section \<open>Raw events\<close>

definition event_token_total :: "ledger_row \<Rightarrow> int" where
  "event_token_total r = ledger_tokens r + lg_reasoning_tokens r"

definition on_day :: "int \<Rightarrow> ledger_row \<Rightarrow> bool" where
  "on_day day r \<longleftrightarrow> day * DAY_US \<le> lg_ts_started r \<and> lg_ts_started r < day * DAY_US + DAY_US"

definition rollups_cover_day :: "int \<Rightarrow> 'a rollup_db_scheme \<Rightarrow> bool" where
  "rollups_cover_day day db =
     (let rows = filter (\<lambda>q. ro_day q = day) (rd_rollups db)
      in if rows = [] then False
         else sum_list (map event_token_total (filter (\<lambda>r. is_final_attempt r \<and> on_day day r) (lb_events (cd_ledger db))))
            = sum_list (map (\<lambda>q. ro_tokens q ! 6) rows))"

definition event_unit_key :: "billable_unit \<Rightarrow> string \<times> string" where
  "event_unit_key u = (bu_provider u, bu_event_id u)"

definition delete_day_events :: "int \<Rightarrow> 'a rollup_db_scheme \<Rightarrow> nat \<times> 'a rollup_db_scheme" where
  "delete_day_events day db =
     (let led = cd_ledger db; in_day = filter (on_day day) (lb_events led); keys = map row_key in_day
      in if in_day = [] then (0, db)
         else (length in_day,
           db\<lparr>cd_costs := filter (\<lambda>c. cost_key c \<notin> set keys) (cd_costs db),
              cd_ledger := led\<lparr>lb_units := filter (\<lambda>u. event_unit_key u \<notin> set keys) (lb_units led),
                lb_events := filter (\<lambda>r. \<not> on_day day r) (lb_events led)\<rparr>\<rparr>))"

definition ROLLUP_MISMATCH_KIND :: string where "ROLLUP_MISMATCH_KIND = ''retention_rollup_mismatch''"

definition iso_date :: "int \<Rightarrow> string" where
  "iso_date day =
     (case ymd_of_ordinal (day + EPOCH_ORDINAL) of (y, m, d) \<Rightarrow>
        digits 4 (nat y) @ ''-'' @ digits 2 m @ ''-'' @ digits 2 (nat d))"

definition note_mismatch :: "int \<Rightarrow> int \<Rightarrow> 'a rollup_db_scheme \<Rightarrow> dq_error + 'a rollup_db_scheme" where
  "note_mismatch now day db =
     (case dq_record ROLLUP_MISMATCH_KIND (RAW_EVENTS @ '':'' @ iso_date day) now
             (Some [(''day'', JStr (iso_date day))]) None (lb_dq (cd_ledger db)) of
        Inl e \<Rightarrow> Inl e
      | Inr dq \<Rightarrow> Inr (db\<lparr>cd_ledger := (cd_ledger db)\<lparr>lb_dq := dq\<rparr>\<rparr>))"

text \<open>One iteration of the loop over the days: the counts of deleted events and aborted days, and the tables.\<close>

definition sweep_day :: "int \<Rightarrow> int \<Rightarrow> nat \<times> nat \<times> 'a rollup_db_scheme \<Rightarrow> dq_error + nat \<times> nat \<times> 'a rollup_db_scheme" where
  "sweep_day now day = (\<lambda>(deleted, aborted, db).
     (if rollups_cover_day day db
      then (let (n, db') = delete_day_events day db in Inr (deleted + n, aborted, db'))
      else if filter (on_day day) (lb_events (cd_ledger db)) \<noteq> []
      then (case note_mismatch now day db of Inl e \<Rightarrow> Inl e | Inr db' \<Rightarrow> Inr (deleted, aborted + 1, db'))
      else Inr (deleted, aborted, db)))"

function sweep_days ::
  "int \<Rightarrow> int \<Rightarrow> nat \<Rightarrow> int \<Rightarrow> nat \<times> nat \<times> 'a rollup_db_scheme \<Rightarrow> dq_error + nat \<times> nat \<times> 'a rollup_db_scheme" where
  "sweep_days now cutoff_day batch_size day st =
     (if day < cutoff_day \<and> fst st < batch_size
      then (case sweep_day now day st of Inl e \<Rightarrow> Inl e
            | Inr st' \<Rightarrow> sweep_days now cutoff_day batch_size (day + 1) st')
      else Inr st)"
  by pat_completeness auto
termination
  by (relation "measure (\<lambda>(now, cutoff_day, batch_size, day, st). nat (cutoff_day - day))") auto

declare sweep_days.simps [simp del]

definition sweep_raw_events ::
  "int \<Rightarrow> int \<Rightarrow> nat \<Rightarrow> 'a rollup_db_scheme \<Rightarrow> dq_error + (nat \<times> nat \<times> int option \<times> nat) \<times> 'a rollup_db_scheme" where
  "sweep_raw_events cutoff now batch_size db =
     (case min_time (map lg_ts_started (lb_events (cd_ledger db))) of
        None \<Rightarrow> Inr ((0, 0, None, 0), db)
      | Some oldest \<Rightarrow>
          (case sweep_days now (utc_date cutoff) batch_size (utc_date oldest) (0, 0, db) of
             Inl e \<Rightarrow> Inl e
           | Inr (deleted, aborted, db') \<Rightarrow>
               let events = lb_events (cd_ledger db')
               in Inr ((deleted, length (filter (\<lambda>r. lg_ts_started r < utc_date cutoff * DAY_US) events),
                        min_time (map lg_ts_started events), aborted), db')))"

section \<open>The sweep\<close>

definition record_status ::
  "string \<Rightarrow> int \<Rightarrow> nat \<Rightarrow> nat \<Rightarrow> int option \<Rightarrow> (string, retention_status) dict \<Rightarrow> (string, retention_status) dict" where
  "record_status category now deleted backlog oldest rows =
     dset category \<lparr>rs_last_run_at = now, rs_last_deleted = deleted,
       rs_total_deleted = (case dget rows category of None \<Rightarrow> 0 | Some r \<Rightarrow> rs_total_deleted r) + deleted,
       rs_pending_backlog = backlog, rs_oldest_retained = oldest, rs_updated_at = now\<rparr> rows"

definition is_correction :: "event_revision \<Rightarrow> bool" where
  "is_correction r \<longleftrightarrow> rv_reason r = CORRECTION"

definition set_ledger_revisions :: "event_revision list \<Rightarrow> retention_db \<Rightarrow> retention_db" where
  "set_ledger_revisions rs db = db\<lparr>cd_ledger := (cd_ledger db)\<lparr>lb_revisions := rs\<rparr>\<rparr>"

definition sweep_one ::
  "string \<Rightarrow> int \<Rightarrow> int \<Rightarrow> nat \<Rightarrow> retention_db \<Rightarrow> dq_error + (nat \<times> nat \<times> int option \<times> nat) \<times> retention_db" where
  "sweep_one category cutoff now batch_size db =
     (let plain = (\<lambda>((deleted, backlog, oldest), db'). Inr ((deleted, backlog, oldest, 0), db'))
      in if category = RAW_EVENTS then sweep_raw_events cutoff now batch_size db
         else if category = DAILY_ROLLUPS
         then plain (apsnd (\<lambda>rs. db\<lparr>rd_rollups := rs\<rparr>) (delete_daily_rollups cutoff batch_size (rd_rollups db)))
         else if category = V1_ARCHIVE
         then plain (apsnd (\<lambda>ts. db\<lparr>rt_archive := ts\<rparr>) (delete_v1_archive cutoff (rt_archive db)))
         else if category = SUPERSEDED_SNAPSHOTS
         then plain (apsnd (\<lambda>rs. set_ledger_revisions rs db)
                (delete_simple rv_ts (\<lambda>r. \<not> is_correction r) cutoff batch_size (lb_revisions (cd_ledger db))))
         else if category = CORRECTIONS
         then plain (apsnd (\<lambda>rs. set_ledger_revisions rs db)
                (delete_simple rv_ts is_correction cutoff batch_size (lb_revisions (cd_ledger db))))
         else if category = LIMIT_SNAPSHOTS
         then plain (apsnd (\<lambda>rs. db\<lparr>vd_limits := rs\<rparr>)
                (delete_simple (stored_order \<circ> li_ts) (\<lambda>_. True) cutoff batch_size (vd_limits db)))
         else if category = INGEST_BATCHES
         then plain (apsnd (\<lambda>rs. db\<lparr>rt_batches := rs\<rparr>) (delete_simple ib_received_at (\<lambda>_. True) cutoff batch_size (rt_batches db)))
         else if category = AUDIT_RECORDS
         then plain (apsnd (\<lambda>rs. db\<lparr>db_audit := rs\<rparr>) (delete_simple au_ts (\<lambda>_. True) cutoff batch_size (db_audit db)))
         else plain (apsnd (\<lambda>rs. db\<lparr>ad_events := rs\<rparr>) (delete_simple ae_ts (\<lambda>_. True) cutoff batch_size (ad_events db))))"

datatype sweep_error = Cutoff_Overflow | Sweep_Dq dq_error

definition sweep_cutoff :: "retention_policy \<Rightarrow> string \<Rightarrow> int \<Rightarrow> int option" where
  "sweep_cutoff p category now =
     (if is_deletion_active p category
      then (case dget (rp_rules p) category of None \<Rightarrow> None
            | Some r \<Rightarrow> map_option (\<lambda>d. now - d * DAY_US) (cr_days r))
      else None)"

definition sweep_category ::
  "retention_policy \<Rightarrow> int \<Rightarrow> nat \<Rightarrow> string \<Rightarrow> retention_db \<Rightarrow> sweep_error + category_result \<times> retention_db" where
  "sweep_category p now batch_size category db =
     (case sweep_cutoff p category now of
        None \<Rightarrow> Inr (not_run category, db)
      | Some cutoff \<Rightarrow>
          if cutoff < MIN_WALL then Inl Cutoff_Overflow
          else (case sweep_one category cutoff now batch_size db of
             Inl e \<Rightarrow> Inl (Sweep_Dq e)
           | Inr ((deleted, backlog, oldest, aborted), db') \<Rightarrow>
               Inr (\<lparr>ct_category = category, ct_ran = True, ct_deleted = deleted, ct_pending_backlog = backlog,
                      ct_oldest_retained = oldest, ct_aborted_days = aborted\<rparr>,
                    db'\<lparr>rt_status := record_status category now deleted backlog oldest (rt_status db')\<rparr>)))"

fun sweep_categories ::
  "retention_policy \<Rightarrow> int \<Rightarrow> nat \<Rightarrow> string list \<Rightarrow> retention_db \<Rightarrow> sweep_error + category_result list \<times> retention_db" where
  "sweep_categories p now batch_size [] db = Inr ([], db)"
| "sweep_categories p now batch_size (c # cs) db =
     (case sweep_category p now batch_size c db of
        Inl e \<Rightarrow> Inl e
      | Inr (r, db') \<Rightarrow>
          (case sweep_categories p now batch_size cs db' of Inl e \<Rightarrow> Inl e | Inr (rs, db'') \<Rightarrow> Inr (r # rs, db'')))"

definition run_retention_sweep ::
  "retention_policy \<Rightarrow> int \<Rightarrow> nat \<Rightarrow> retention_db \<Rightarrow> sweep_error + category_result list \<times> retention_db" where
  "run_retention_sweep p now batch_size db = sweep_categories p now batch_size RETENTION_CATEGORIES db"

text \<open>One iteration of the retention loop; a policy that cannot be read, or a failing sweep, changes nothing.\<close>

definition retention_pass :: "int \<Rightarrow> nat \<Rightarrow> retention_db \<Rightarrow> retention_db" where
  "retention_pass now batch_size db =
     (case resolve_retention_policy (db_settings db) of
        Inl _ \<Rightarrow> db
      | Inr p \<Rightarrow> (case run_retention_sweep p now batch_size db of Inl _ \<Rightarrow> db | Inr (_, db') \<Rightarrow> db'))"

end
