(* ===== verification/Retention_Laws.thy ===== *)
theory Retention_Laws
  imports Retention_Worker Rollup_Laws
begin

text \<open>
  The laws of the retention worker: a bounded batch removes the oldest expired rows and nothing else, repeated
  sweeps drain a category, a whole sweep leaves every row that no active rule has expired, raw events go by whole
  days that the rollups account for, and what a sweep and a rollup rebuild do to one another.
\<close>

section \<open>The bounded batch\<close>

lemma enumerate_fst: "p \<in> set (enumerate 0 rows) \<Longrightarrow> q \<in> set (enumerate 0 rows) \<Longrightarrow> fst p = fst q \<longleftrightarrow> p = q"
  by (cases p, cases q) (auto simp: in_set_enumerate_eq)

lemma distinct_enumerate_pairs [simp]: "distinct (enumerate n rows)"
  using distinct_enumerate [of n rows] distinct_map by blast

lemma filter_map_enumerate: "filter P rows = map snd (filter (P \<circ> snd) (enumerate 0 rows))"
  by (metis filter_map map_snd_enumerate)

lemma filter_notin_mset:
  assumes "distinct F" and "mset F = mset T + mset D"
  shows "mset (filter (\<lambda>x. x \<notin> set T) F) = mset D"
proof -
  have "distinct (T @ D)" using assms by (metis distinct_count_atmost_1 mset_append mset_eq_setD set_mset_mset)
  then have "filter (\<lambda>x. x \<notin> set T) T = []" "filter (\<lambda>x. x \<notin> set T) D = D"
    by (auto simp: filter_empty_conv filter_id_conv)
  then show ?thesis using assms(2) by (metis mset_append mset_filter self_append_conv2 filter_append)
qed

text \<open>The batch as lists: the rows taken, those left.\<close>

lemma delete_oldest:
  fixes time :: "'a \<Rightarrow> int"
  defines "gone \<equiv> \<lambda>e n rows. map snd (take n (sort_key (time \<circ> snd) (filter (e \<circ> snd) (enumerate 0 rows))))"
  shows "length (oldest_keys time e n rows) = min n (length (filter e rows))" (is ?len)
    and "filter (\<lambda>r. \<not> e r) (delete_keys (oldest_keys time e n rows) rows) = filter (\<lambda>r. \<not> e r) rows" (is ?kept)
    and "mset rows = mset (gone e n rows) + mset (delete_keys (oldest_keys time e n rows) rows)" (is ?mset)
    and "g \<in> set (gone e n rows) \<Longrightarrow> e g"
    and "g \<in> set (gone e n rows) \<Longrightarrow> r \<in> set (delete_keys (oldest_keys time e n rows) rows) \<Longrightarrow> e r \<Longrightarrow> time g \<le> time r"
proof -
  define E where "E = enumerate 0 rows"
  define S where "S = sort_key (time \<circ> snd) (filter (e \<circ> snd) E)"
  define T where "T = take n S"
  have E: "map snd E = rows" by (simp add: E_def)
  have dE: "distinct E" unfolding E_def by (rule distinct_enumerate_pairs)
  have sS: "set S = set (filter (e \<circ> snd) E)" by (simp add: S_def)
  have TE: "x \<in> set T \<Longrightarrow> x \<in> set E \<and> e (snd x)" for x
    using set_take_subset [of n S] by (auto simp: T_def sS)
  have keys: "oldest_keys time e n rows = map fst T" by (simp add: oldest_keys_def T_def S_def E_def)
  have in_keys: "fst x \<in> set (map fst T) \<longleftrightarrow> x \<in> set T" if "x \<in> set E" for x
    using that TE enumerate_fst [of _ rows] by (auto simp: E_def image_iff)
  have del: "delete_keys (oldest_keys time e n rows) rows = map snd (filter (\<lambda>x. x \<notin> set T) E)"
  proof -
    have "filter (\<lambda>x. fst x \<notin> set (map fst T)) E = filter (\<lambda>x. x \<notin> set T) E"
      by (rule filter_cong [OF refl]) (simp only: in_keys)
    then show ?thesis by (simp add: delete_keys_def keys case_prod_unfold E_def)
  qed
  have gone: "gone e n rows = map snd T" by (simp add: gone_def T_def S_def E_def)
  show ?len using filter_map_enumerate [of e rows] by (simp add: keys T_def S_def E_def min.commute)
  show ?kept
  proof -
    have "filter (\<lambda>x. (\<not> e (snd x)) \<and> x \<notin> set T) E = filter (\<lambda>x. \<not> e (snd x)) E"
      by (rule filter_cong) (auto dest: TE)
    then have "filter (\<lambda>r. \<not> e r) (map snd (filter (\<lambda>x. x \<notin> set T) E)) = map snd (filter (\<lambda>x. \<not> e (snd x)) E)"
      by (simp add: filter_map comp_def conj_commute)
    then show ?thesis using filter_map_enumerate [of "\<lambda>r. \<not> e r" rows] by (simp add: del comp_def E_def)
  qed
  have split: "mset S = mset T + mset (drop n S)"
    unfolding T_def by (simp flip: mset_append)
  have "mset E = mset (filter (\<lambda>x. x \<in> set T) E) + mset (filter (\<lambda>x. x \<notin> set T) E)"
    by (simp add: mset_filter flip: multiset_partition)
  moreover have "distinct T" using dE by (simp add: T_def S_def)
  then have "mset (filter (\<lambda>x. x \<in> set T) E) = mset T"
    using dE TE by (intro set_eq_iff_mset_eq_distinct [THEN iffD1]) auto
  ultimately have "mset E = mset T + mset (filter (\<lambda>x. x \<notin> set T) E)" by argo
  then have "image_mset snd (mset E) = image_mset snd (mset T) + image_mset snd (mset (filter (\<lambda>x. x \<notin> set T) E))"
    by (metis image_mset_union)
  then have "mset (map snd E) = mset (map snd T) + mset (map snd (filter (\<lambda>x. x \<notin> set T) E))" by (simp only: mset_map)
  then show ?mset by (simp only: gone del E)
  show "e g" if "g \<in> set (gone e n rows)" for g using that TE by (auto simp: gone)
  show "time g \<le> time r"
    if g: "g \<in> set (gone e n rows)" and r: "r \<in> set (delete_keys (oldest_keys time e n rows) rows)" and "e r" for g r
  proof -
    from g obtain x where x: "x \<in> set T" "snd x = g" by (auto simp: gone)
    from r obtain y where y: "y \<in> set E" "y \<notin> set T" "snd y = r" by (auto simp: del)
    with \<open>e r\<close> have "y \<in> set S" by (simp add: sS)
    then have "y \<in> set (drop n S)" using y(2) by (metis T_def append_take_drop_id Un_iff set_append)
    moreover have "sorted (map (time \<circ> snd) (take n S @ drop n S))" unfolding append_take_drop_id by (simp add: S_def)
    ultimately have "(time \<circ> snd) x \<le> (time \<circ> snd) y" using x(1)
      by (auto simp del: append_take_drop_id simp: sorted_append T_def)
    then show ?thesis using x y by simp
  qed
qed

definition expired_in :: "('a \<Rightarrow> int) \<Rightarrow> ('a \<Rightarrow> bool) \<Rightarrow> int \<Rightarrow> 'a \<Rightarrow> bool" where
  "expired_in time extra cutoff r \<longleftrightarrow> time r < cutoff \<and> extra r"

lemma delete_simple_result:
  "snd (delete_simple time extra cutoff n rows)
     = delete_keys (oldest_keys time (expired_in time extra cutoff) n rows) rows"
  "fst (delete_simple time extra cutoff n rows) =
     (length (oldest_keys time (expired_in time extra cutoff) n rows),
      length (filter (expired_in time extra cutoff) (snd (delete_simple time extra cutoff n rows))),
      min_time (map time (filter extra (snd (delete_simple time extra cutoff n rows)))))"
  by (simp_all add: delete_simple_def Let_def expired_in_def [abs_def])

lemma left_expired:
  "length (filter e (delete_keys (oldest_keys time e n rows) rows)) = length (filter e rows) - n" (is "length (filter e ?left) = _")
proof -
  have parts: "length (filter e xs) + length (filter (\<lambda>r. \<not> e r) xs) = length xs" for xs :: "'a list"
    by (induction xs) auto
  have "length rows = min n (length (filter e rows)) + length ?left"
    using arg_cong [OF delete_oldest(3) [where rows = rows and time = time and n = n and e = e], of size]
      filter_map_enumerate [of e rows] by (simp add: min.commute)
  then show ?thesis using parts [of rows] parts [of ?left] arg_cong [OF delete_oldest(2) [where rows = rows and time = time and n = n and e = e], of length] by linarith
qed

text \<open>
  One batch of a category takes as many expired rows as the bound allows, the oldest ones, and reports their
  number and the expired rows that are left; every row that has not expired keeps its place.
\<close>

theorem retention_batch_exact:
  assumes "delete_simple time extra cutoff n rows = ((deleted, backlog, oldest), left)"
  shows "deleted = min n (length (filter (expired_in time extra cutoff) rows))
    \<and> backlog = length (filter (expired_in time extra cutoff) rows) - n
    \<and> filter (\<lambda>r. \<not> expired_in time extra cutoff r) left = filter (\<lambda>r. \<not> expired_in time extra cutoff r) rows
    \<and> (\<exists>gone. mset rows = mset gone + mset left \<and> length gone = deleted
        \<and> (\<forall>g \<in> set gone. expired_in time extra cutoff g
            \<and> (\<forall>r \<in> set left. expired_in time extra cutoff r \<longrightarrow> time g \<le> time r)))"
proof -
  let ?e = "expired_in time extra cutoff"
  have left: "left = delete_keys (oldest_keys time ?e n rows) rows"
    using delete_simple_result(1) [of time extra cutoff n rows] assms by simp
  have nums: "deleted = length (oldest_keys time ?e n rows)" "backlog = length (filter ?e left)"
    using delete_simple_result(2) [of time extra cutoff n rows] assms by simp_all
  note parts = delete_oldest(3-5) [where rows = rows and time = time and n = n and e = ?e]
  have "deleted = min n (length (filter ?e rows))" by (simp add: nums(1) delete_oldest(1))
  moreover have "backlog = length (filter ?e rows) - n" by (simp add: nums(2) left left_expired)
  moreover have "filter (\<lambda>r. \<not> ?e r) left = filter (\<lambda>r. \<not> ?e r) rows" by (simp add: left delete_oldest(2))
  moreover have "length (take n (sort_key (time \<circ> snd) (filter (?e \<circ> snd) (enumerate 0 rows)))) = deleted"
    by (simp add: nums(1) oldest_keys_def)
  ultimately show ?thesis using parts left by (metis length_map)
qed

theorem retention_batch_exact_witness:
  "delete_simple id (\<lambda>_. True) 10 2 [7, 20, 3, 9, 30] = ((2, 1, Some 9), [20, 9, 30])
    \<and> filter (\<lambda>r. \<not> expired_in id (\<lambda>_. True) (10::int) r) [20, 9, 30] = [20, 30]"
proof -
  have run: "delete_simple id (\<lambda>_. True) 10 2 [7, 20, 3, 9, 30] = ((2, 1, Some 9), [20, 9, 30])"
    by code_simp
  show ?thesis using retention_batch_exact [OF run] run by (simp add: expired_in_def)
qed

section \<open>Draining a category\<close>

text \<open>
  Repeated sweeps of a category with a positive batch size drain it: as soon as the number of sweeps times
  the batch size reaches the number of expired rows, exactly the rows that have not expired are left, in order,
  and further sweeps delete nothing.
\<close>

theorem retention_drains:
  fixes n :: nat
  defines "sweep \<equiv> \<lambda>time extra cutoff rows. snd (delete_simple time extra cutoff n rows)"
  assumes "length (filter (expired_in time extra cutoff) rows) \<le> k * n"
  shows "(sweep time extra cutoff ^^ k) rows = filter (\<lambda>r. \<not> expired_in time extra cutoff r) rows"
proof -
  let ?e = "expired_in time extra cutoff"
  have step: "filter (\<lambda>r. \<not> ?e r) (sweep time extra cutoff xs) = filter (\<lambda>r. \<not> ?e r) xs"
    "length (filter ?e (sweep time extra cutoff xs)) = length (filter ?e xs) - n" for xs
    by (simp_all add: sweep_def delete_simple_result(1) delete_oldest(2) left_expired)
  have "filter (\<lambda>r. \<not> ?e r) ((sweep time extra cutoff ^^ k) rows) = filter (\<lambda>r. \<not> ?e r) rows
      \<and> length (filter ?e ((sweep time extra cutoff ^^ k) rows)) = length (filter ?e rows) - k * n"
    by (induction k) (simp_all add: step)
  moreover from this have "filter ?e ((sweep time extra cutoff ^^ k) rows) = []" using assms(2) by simp
  ultimately show ?thesis by (metis (mono_tags, lifting) filter_True filter_empty_conv)
qed

theorem retention_drains_witness:
  "((\<lambda>rows. snd (delete_simple id (\<lambda>_. True) 10 2 rows)) ^^ 2) [7, 20, 3, 9, 30] = [20, 30 :: int]"
  using retention_drains [of id "\<lambda>_. True" 10 "[7, 20, 3, 9, 30]" 2 2] by (simp add: expired_in_def)

section \<open>Raw events by days\<close>

lemma on_day_iff: "on_day d r \<longleftrightarrow> utc_date (lg_ts_started r) = d"
  by (simp add: on_day_def utc_date_window)

abbreviation events_of :: "'a cost_db_scheme \<Rightarrow> ledger_row list" where
  "events_of db \<equiv> lb_events (cd_ledger db)"

abbreviation day_of :: "ledger_row \<Rightarrow> int" where
  "day_of r \<equiv> utc_date (lg_ts_started r)"

text \<open>The tables without the events of some days and what hangs on them.\<close>

definition without_days :: "int set \<Rightarrow> 'a rollup_db_scheme \<Rightarrow> 'a rollup_db_scheme" where
  "without_days D db =
     (let led = cd_ledger db; keys = row_key ` {r \<in> set (lb_events led). day_of r \<in> D}
      in db\<lparr>cd_costs := filter (\<lambda>c. cost_key c \<notin> keys) (cd_costs db),
            cd_ledger := led\<lparr>lb_units := filter (\<lambda>u. event_unit_key u \<notin> keys) (lb_units led),
              lb_events := filter (\<lambda>r. day_of r \<notin> D) (lb_events led)\<rparr>\<rparr>)"

text \<open>Two states that differ in the data-quality table at most.\<close>

definition same_but_dq :: "'a rollup_db_scheme \<Rightarrow> 'a rollup_db_scheme \<Rightarrow> bool" where
  "same_but_dq db db' \<longleftrightarrow> (\<exists>t. db' = db\<lparr>cd_ledger := (cd_ledger db)\<lparr>lb_dq := t\<rparr>\<rparr>)"

lemma same_but_dq_refl [simp]: "same_but_dq db db"
  unfolding same_but_dq_def by (intro exI [of _ "lb_dq (cd_ledger db)"]) simp

lemma same_but_dq_trans: "same_but_dq a b \<Longrightarrow> same_but_dq b c \<Longrightarrow> same_but_dq a c"
  by (auto simp: same_but_dq_def)

lemma same_but_dq_events:
  "same_but_dq a b \<Longrightarrow> events_of b = events_of a \<and> rd_rollups b = rd_rollups a \<and> cd_costs b = cd_costs a
    \<and> lb_units (cd_ledger b) = lb_units (cd_ledger a)"
  by (auto simp: same_but_dq_def)

lemma same_but_dq_without: "same_but_dq a b \<Longrightarrow> same_but_dq (without_days D a) (without_days D b)"
proof -
  assume "same_but_dq a b"
  then obtain t where "b = a\<lparr>cd_ledger := (cd_ledger a)\<lparr>lb_dq := t\<rparr>\<rparr>" by (auto simp: same_but_dq_def)
  then show ?thesis unfolding same_but_dq_def by (intro exI [of _ t]) (simp add: without_days_def Let_def)
qed

lemma without_events [simp]: "events_of (without_days D db) = filter (\<lambda>r. day_of r \<notin> D) (events_of db)"
  "rd_rollups (without_days D db) = rd_rollups db"
  by (simp_all add: without_days_def Let_def)

lemma without_none: "\<forall>r \<in> set (events_of db). day_of r \<notin> D \<Longrightarrow> without_days D db = db"
proof -
  assume none: "\<forall>r \<in> set (events_of db). day_of r \<notin> D"
  then have "{r \<in> set (events_of db). day_of r \<in> D} = {}" by blast
  moreover have "filter (\<lambda>r. day_of r \<notin> D) (events_of db) = events_of db" using none by (simp add: filter_id_conv)
  ultimately show ?thesis unfolding without_days_def Let_def by (simp only: image_empty empty_iff not_False_eq_True filter_True) simp
qed

lemma without_without: "without_days A (without_days B db) = without_days (A \<union> B) db"
proof -
  let ?k = "\<lambda>D. row_key ` {r \<in> set (events_of db). day_of r \<in> D}"
  have "row_key ` {r \<in> set (filter (\<lambda>r. day_of r \<notin> B) (events_of db)). day_of r \<in> A} \<union> ?k B = ?k (A \<union> B)" by auto
  then have "(x \<notin> ?k B \<and> x \<notin> row_key ` {r \<in> set (filter (\<lambda>r. day_of r \<notin> B) (events_of db)). day_of r \<in> A}) \<longleftrightarrow> x \<notin> ?k (A \<union> B)"
    for x by blast
  then show ?thesis by (simp add: without_days_def Let_def conj_commute)
qed

lemma delete_day_without: "snd (delete_day_events d db) = without_days {d} db"
proof (cases "filter (on_day d) (events_of db) = []")
  case True
  then have "without_days {d} db = db" by (intro without_none) (auto simp: filter_empty_conv on_day_iff)
  then show ?thesis using True by (simp add: delete_day_events_def Let_def)
next
  case False
  have "set (map row_key (filter (on_day d) (events_of db))) = row_key ` {r \<in> set (events_of db). day_of r \<in> {d}}"
    by (auto simp: on_day_iff)
  moreover have "filter (\<lambda>r. \<not> on_day d r) xs = filter (\<lambda>r. day_of r \<notin> {d}) xs" for xs
    by (simp add: on_day_iff)
  ultimately show ?thesis using False by (simp add: delete_day_events_def without_days_def Let_def del: set_map)
qed

lemma covers_cong:
  assumes "filter (on_day d) (events_of b) = filter (on_day d) (events_of a)" and "rd_rollups b = rd_rollups a"
  shows "rollups_cover_day d b = rollups_cover_day d a"
proof -
  have "filter (\<lambda>r. is_final_attempt r \<and> on_day d r) xs = filter is_final_attempt (filter (on_day d) xs)" for xs
    by (simp add: conj_commute)
  then show ?thesis unfolding rollups_cover_day_def Let_def by (simp only: assms)
qed

lemma mismatch_known: "ROLLUP_MISMATCH_KIND \<in> set DATA_QUALITY_KINDS"
  by (simp add: ROLLUP_MISMATCH_KIND_def DATA_QUALITY_KINDS_def)

lemma note_mismatch_same: "\<exists>db'. note_mismatch now d db = Inr db' \<and> same_but_dq db db'"
  using mismatch_known by (auto simp: note_mismatch_def dq_record_def Let_def same_but_dq_def)

text \<open>One day: gone with all that hangs on it when its rollups cover it, kept otherwise.\<close>

lemma sweep_day_cases:
  obtains db' where "sweep_day now d (n, a, db) = Inr
      (if rollups_cover_day d db then n + length (filter (on_day d) (events_of db)) else n,
       if \<not> rollups_cover_day d db \<and> filter (on_day d) (events_of db) \<noteq> [] then a + 1 else a, db')"
    and "same_but_dq (without_days (if rollups_cover_day d db then {d} else {}) db) db'"
proof -
  have e: "without_days {} db = db" by (rule without_none) simp
  have n: "fst (delete_day_events d db) = length (filter (on_day d) (events_of db))"
    by (simp add: delete_day_events_def Let_def)
  obtain db' where "note_mismatch now d db = Inr db'" "same_but_dq db db'" using note_mismatch_same by blast
  then show thesis using that [of "if rollups_cover_day d db then without_days {d} db
      else if filter (on_day d) (events_of db) \<noteq> [] then db' else db"] n e delete_day_without [of d db]
    by (auto simp: sweep_day_def case_prod_unfold)
qed

text \<open>What a pass over the days from \<open>day\<close> to \<open>c\<close> has done when it stops.\<close>

definition uncovered :: "'a rollup_db_scheme \<Rightarrow> int \<Rightarrow> bool" where
  "uncovered db d \<longleftrightarrow> \<not> rollups_cover_day d db \<and> filter (on_day d) (events_of db) \<noteq> []"

definition swept ::
  "int \<Rightarrow> int \<Rightarrow> nat \<Rightarrow> nat \<times> nat \<times> 'a rollup_db_scheme \<Rightarrow> nat \<times> nat \<times> 'a rollup_db_scheme \<Rightarrow> int set \<Rightarrow> bool" where
  "swept day c bs st st' D \<longleftrightarrow>
     (case st of (n, a, db) \<Rightarrow> case st' of (n', a', db') \<Rightarrow>
        same_but_dq (without_days D db) db' \<and> D \<subseteq> {day..<c} \<and> (\<forall>d \<in> D. rollups_cover_day d db)
        \<and> n' = n + length (filter (\<lambda>r. day_of r \<in> D) (events_of db))
        \<and> (n' < bs \<longrightarrow> D = {d \<in> {day..<c}. rollups_cover_day d db}
              \<and> a' = a + length (filter (uncovered db) [day..c - 1])))"

lemma swept_none: "\<not> (day < c \<and> n < bs) \<Longrightarrow> swept day c bs (n, a, db) (n, a, db) {}"
  by (auto simp: swept_def without_none)

lemma swept_step:
  assumes lt: "day < c" "n < bs"
    and one: "same_but_dq (without_days A db) db1" "A = (if rollups_cover_day day db then {day} else {})"
    and n1: "n1 = (if rollups_cover_day day db then n + length (filter (on_day day) (events_of db)) else n)"
    and a1: "a1 = (if uncovered db day then a + 1 else a)"
    and rest: "swept (day + 1) c bs (n1, a1, db1) (n', a', db') D"
  shows "swept day c bs (n, a, db) (n', a', db') (A \<union> D)"
proof -
  note e1 = same_but_dq_events [OF one(1)]
  have later: "filter (on_day d) (events_of db1) = filter (on_day d) (events_of db)" if "d \<noteq> day" for d
    using e1 that one(2) by (auto simp: on_day_iff intro: filter_cong)
  have covers: "rollups_cover_day d db1 = rollups_cover_day d db" if "d \<noteq> day" for d
    by (rule covers_cong [OF later [OF that]]) (simp add: e1)
  have unc: "filter (uncovered db1) [day + 1..c - 1] = filter (uncovered db) [day + 1..c - 1]"
    by (rule filter_cong) (auto simp: uncovered_def covers later)
  from rest have D: "same_but_dq (without_days D db1) db'" "D \<subseteq> {day + 1..<c}" "\<forall>d \<in> D. rollups_cover_day d db1"
    and n': "n' = n1 + length (filter (\<lambda>r. day_of r \<in> D) (events_of db1))"
    and full: "n' < bs \<Longrightarrow> D = {d \<in> {day + 1..<c}. rollups_cover_day d db1}
        \<and> a' = a1 + length (filter (uncovered db1) [day + 1..c - 1])"
    unfolding swept_def prod.case by blast+
  have "same_but_dq (without_days (A \<union> D) db) db'"
    using same_but_dq_trans [OF same_but_dq_without [OF one(1), of D] D(1)] by (simp add: without_without Un_commute)
  moreover have "A \<union> D \<subseteq> {day..<c}" using D(2) lt one(2) by (auto split: if_splits)
  moreover have "rollups_cover_day d db" if "d \<in> A \<union> D" for d
    using that D(2,3) covers one(2) by (cases "d = day") (auto split: if_splits)
  moreover have "n' = n + length (filter (\<lambda>r. day_of r \<in> A \<union> D) (events_of db))"
  proof -
    have "length (filter (\<lambda>r. day_of r \<in> A \<union> D) xs)
        = length (filter (\<lambda>r. day_of r \<in> A) xs) + length (filter (\<lambda>r. day_of r \<in> D) (filter (\<lambda>r. day_of r \<notin> A) xs))" for xs
      by (induction xs) auto
    moreover have "n1 = n + length (filter (\<lambda>r. day_of r \<in> A) (events_of db))"
      by (simp add: n1 one(2) on_day_iff [abs_def])
    ultimately show ?thesis by (simp add: n' e1)
  qed
  moreover have "A \<union> D = {d \<in> {day..<c}. rollups_cover_day d db} \<and> a' = a + length (filter (uncovered db) [day..c - 1])" if "n' < bs"
  proof
    have "{d \<in> {day + 1..<c}. rollups_cover_day d db1} = {d \<in> {day + 1..<c}. rollups_cover_day d db}"
      using covers by force
    moreover have "{day..<c} = insert day {day + 1..<c}" using lt by auto
    then have "{d \<in> {day..<c}. rollups_cover_day d db} = A \<union> {d \<in> {day + 1..<c}. rollups_cover_day d db}"
      unfolding one(2) by (simp only: insert_iff) auto
    ultimately show "A \<union> D = {d \<in> {day..<c}. rollups_cover_day d db}" using full [OF that] by simp
    have "[day..c - 1] = day # [day + 1..c - 1]" using lt by (simp add: upto_rec1)
    then show "a' = a + length (filter (uncovered db) [day..c - 1])" using full [OF that] by (simp add: a1 unc)
  qed
  ultimately show ?thesis by (simp add: swept_def)
qed

lemma sweep_days_result:
  "\<exists>st' D. sweep_days now c bs day st = Inr st' \<and> swept day c bs st st' D"
proof (induction "nat (c - day)" arbitrary: day st)
  case 0
  obtain n a db where st: "st = (n, a, db)" by (cases st)
  from 0 have "sweep_days now c bs day st = Inr st" by (subst sweep_days.simps) simp
  moreover have "swept day c bs st st {}" unfolding st using 0 by (intro swept_none) simp
  ultimately show ?case by blast
next
  case (Suc k)
  obtain n a db where st: "st = (n, a, db)" by (cases st)
  show ?case
  proof (cases "day < c \<and> n < bs")
    case False
    then have "sweep_days now c bs day st = Inr st" by (subst sweep_days.simps) (auto simp: st)
    then show ?thesis using swept_none [OF False] st by blast
  next
    case True
    let ?A = "if rollups_cover_day day db then {day} else {}"
    let ?n = "if rollups_cover_day day db then n + length (filter (on_day day) (events_of db)) else n"
    let ?a = "if uncovered db day then a + 1 else a"
    obtain db1 where one: "sweep_day now day st = Inr (?n, ?a, db1)" and s1: "same_but_dq (without_days ?A db) db1"
      unfolding st uncovered_def by (rule sweep_day_cases) blast
    have "k = nat (c - (day + 1))" using Suc.hyps(2) by simp
    then obtain n' a' db' D where rest: "sweep_days now c bs (day + 1) (?n, ?a, db1) = Inr (n', a', db')"
      "swept (day + 1) c bs (?n, ?a, db1) (n', a', db') D" using Suc.hyps(1) by (metis prod_cases3)
    have "sweep_days now c bs day st = Inr (n', a', db')"
      using True one rest(1) by (subst sweep_days.simps) (simp add: st)
    moreover have "swept day c bs st (n', a', db') (?A \<union> D)"
      unfolding st by (rule swept_step [OF _ _ s1 refl refl refl rest(2)]) (use True in auto)
    ultimately show ?thesis by blast
  qed
qed

lemma sweep_raw_result:
  obtains deleted backlog oldest aborted db' D where
    "sweep_raw_events cutoff now bs db = Inr ((deleted, backlog, oldest, aborted), db')"
    "same_but_dq (without_days D db) db'" "\<forall>d \<in> D. d < utc_date cutoff \<and> rollups_cover_day d db"
    "deleted = length (filter (\<lambda>r. day_of r \<in> D) (events_of db))"
    "backlog = length (filter (\<lambda>r. day_of r < utc_date cutoff) (events_of db')) "
    "deleted < bs \<Longrightarrow> (\<forall>r \<in> set (events_of db). day_of r < utc_date cutoff \<longrightarrow> (day_of r \<in> D \<longleftrightarrow> rollups_cover_day (day_of r) db))"
    "deleted < bs \<Longrightarrow> aborted = card {day_of r | r. r \<in> set (events_of db) \<and> day_of r < utc_date cutoff \<and> day_of r \<notin> D}"
proof (cases "events_of db = []")
  case True
  then show thesis using that [of 0 0 None 0 db "{}"] without_none [of db "{}"]
    by (simp add: sweep_raw_events_def min_time_def)
next
  case False
  let ?old = "Min (set (map lg_ts_started (events_of db)))"
  let ?c = "utc_date cutoff"
  have old: "min_time (map lg_ts_started (events_of db)) = Some ?old" using False by (simp add: min_time_def)
  have first: "utc_date ?old \<le> day_of r" if "r \<in> set (events_of db)" for r
  proof -
    have "?old \<le> lg_ts_started r" using that by (intro Min_le) auto
    then show ?thesis unfolding utc_date_def by (simp add: zdiv_mono1)
  qed
  obtain n a db' D where run: "sweep_days now ?c bs (utc_date ?old) (0, 0, db) = Inr (n, a, db')"
    and "swept (utc_date ?old) ?c bs (0, 0, db) (n, a, db') D"
    using sweep_days_result [of now ?c bs "utc_date ?old" "(0, 0, db)"] by (metis prod_cases3)
  then have D: "same_but_dq (without_days D db) db'" "D \<subseteq> {utc_date ?old..<?c}" "\<forall>d \<in> D. rollups_cover_day d db"
    "n = length (filter (\<lambda>r. day_of r \<in> D) (events_of db))"
    and full: "n < bs \<Longrightarrow> D = {d \<in> {utc_date ?old..<?c}. rollups_cover_day d db}
      \<and> a = length (filter (uncovered db) [utc_date ?old..?c - 1])"
    unfolding swept_def prod.case add_0 by blast+
  have before: "lg_ts_started r < ?c * DAY_US \<longleftrightarrow> day_of r < ?c" for r
    using utc_date_window [of "lg_ts_started r" "day_of r"] by auto
  have days: "n < bs \<Longrightarrow> a = card {day_of r | r. r \<in> set (events_of db) \<and> day_of r < ?c \<and> day_of r \<notin> D}"
  proof -
    assume "n < bs"
    have "length (filter P [x..y]) = card {d \<in> {x..y}. P d}" for P and x y :: int
      by (metis distinct_card distinct_filter distinct_upto set_filter set_upto)
    moreover have "{d \<in> {utc_date ?old..?c - 1}. uncovered db d}
        = {day_of r | r. r \<in> set (events_of db) \<and> day_of r < ?c \<and> day_of r \<notin> D}"
      using full [OF \<open>n < bs\<close>] first by (auto simp: uncovered_def filter_empty_conv on_day_iff)
    ultimately show ?thesis using full [OF \<open>n < bs\<close>] by simp
  qed
  show thesis
  proof (rule that)
    show "sweep_raw_events cutoff now bs db = Inr ((n, length (filter (\<lambda>r. day_of r < ?c) (events_of db')),
        min_time (map lg_ts_started (events_of db')), a), db')"
      unfolding sweep_raw_events_def old option.case run sum.case prod.case Let_def before ..
    show "n < bs \<Longrightarrow> \<forall>r \<in> set (events_of db). day_of r < ?c \<longrightarrow> (day_of r \<in> D \<longleftrightarrow> rollups_cover_day (day_of r) db)"
      using full first by auto
  qed (use D days in auto)
qed

text \<open>
  C25. A sweep of the raw events never fails, and it removes whole days only: a day whose events go lies before
  the cutoff's day, has rollup rows, and those rows hold exactly the tokens of the day's final attempts. The events
  of every other day stay, with all their costs and units; the costs and units of the events that go go with them,
  and no rollup row is touched. When the pass was not stopped by the batch size, every day before the cutoff whose
  rollups account for it is gone, and the number of aborted days is the number of days left behind.
\<close>

theorem raw_sweep_verified:
  fixes db :: "'a rollup_db_scheme"
  shows "\<exists>deleted backlog oldest aborted db' D.
     sweep_raw_events cutoff now bs db = Inr ((deleted, backlog, oldest, aborted), db')
   \<and> (\<forall>d \<in> D. d < utc_date cutoff \<and> (\<exists>q \<in> set (rd_rollups db). ro_day q = d)
        \<and> sum_list (map event_token_total (day_events db d))
            = sum_list (map (\<lambda>q. ro_tokens q ! 6) (filter (\<lambda>q. ro_day q = d) (rd_rollups db))))
   \<and> deleted = length (filter (\<lambda>r. day_of r \<in> D) (events_of db))
   \<and> events_of db' = filter (\<lambda>r. day_of r \<notin> D) (events_of db)
   \<and> cd_costs db' = filter (\<lambda>c. cost_key c \<notin> row_key ` {r \<in> set (events_of db). day_of r \<in> D}) (cd_costs db)
   \<and> lb_units (cd_ledger db') = filter (\<lambda>u. event_unit_key u \<notin> row_key ` {r \<in> set (events_of db). day_of r \<in> D}) (lb_units (cd_ledger db))
   \<and> rd_rollups db' = rd_rollups db
   \<and> (deleted < bs \<longrightarrow> aborted = card {day_of r | r. r \<in> set (events_of db') \<and> day_of r < utc_date cutoff}
        \<and> (\<forall>r \<in> set (events_of db'). day_of r < utc_date cutoff \<longrightarrow> \<not> rollups_cover_day (day_of r) db))"
proof -
  obtain deleted backlog oldest aborted db' D where
    run: "sweep_raw_events cutoff now bs db = Inr ((deleted, backlog, oldest, aborted), db')"
    and same: "same_but_dq (without_days D db) db'" and D: "\<forall>d \<in> D. d < utc_date cutoff \<and> rollups_cover_day d db"
    and n: "deleted = length (filter (\<lambda>r. day_of r \<in> D) (events_of db))"
    and full: "deleted < bs \<Longrightarrow> (\<forall>r \<in> set (events_of db). day_of r < utc_date cutoff \<longrightarrow> (day_of r \<in> D \<longleftrightarrow> rollups_cover_day (day_of r) db))"
      "deleted < bs \<Longrightarrow> aborted = card {day_of r | r. r \<in> set (events_of db) \<and> day_of r < utc_date cutoff \<and> day_of r \<notin> D}"
    by (rule sweep_raw_result [of cutoff now bs db]) (rule that)
  note tables = same_but_dq_events [OF same]
  have ev: "events_of db' = filter (\<lambda>r. day_of r \<notin> D) (events_of db)" using tables by simp
  have cover: "(\<exists>q \<in> set (rd_rollups db). ro_day q = d) \<and> sum_list (map event_token_total (day_events db d))
      = sum_list (map (\<lambda>q. ro_tokens q ! 6) (filter (\<lambda>q. ro_day q = d) (rd_rollups db)))" if "rollups_cover_day d db" for d
    using that by (auto simp: rollups_cover_day_def Let_def day_events_def on_day_iff filter_empty_conv split: if_splits)
  have left: "{day_of r | r. r \<in> set (events_of db) \<and> day_of r < utc_date cutoff \<and> day_of r \<notin> D}
      = {day_of r | r. r \<in> set (events_of db') \<and> day_of r < utc_date cutoff}" by (auto simp: ev)
  have costs: "cd_costs db' = filter (\<lambda>c. cost_key c \<notin> row_key ` {r \<in> set (events_of db). day_of r \<in> D}) (cd_costs db)"
    "lb_units (cd_ledger db') = filter (\<lambda>u. event_unit_key u \<notin> row_key ` {r \<in> set (events_of db). day_of r \<in> D}) (lb_units (cd_ledger db))"
    using tables by (simp_all add: without_days_def Let_def)
  have days: "\<forall>d \<in> D. d < utc_date cutoff \<and> (\<exists>q \<in> set (rd_rollups db). ro_day q = d)
        \<and> sum_list (map event_token_total (day_events db d))
            = sum_list (map (\<lambda>q. ro_tokens q ! 6) (filter (\<lambda>q. ro_day q = d) (rd_rollups db)))"
    using D cover by blast
  have rest: "aborted = card {day_of r | r. r \<in> set (events_of db') \<and> day_of r < utc_date cutoff}"
    "\<forall>r \<in> set (events_of db'). day_of r < utc_date cutoff \<longrightarrow> \<not> rollups_cover_day (day_of r) db"
    if "deleted < bs"
    using full(2) [OF that] left apply simp
    using full(1) [OF that] ev by auto
  have rollups: "rd_rollups db' = rd_rollups db" using tables by simp
  show ?thesis
    by (rule exI [of _ deleted], rule exI [of _ backlog], rule exI [of _ oldest], rule exI [of _ aborted],
      rule exI [of _ db'], rule exI [of _ D]) (intro conjI impI run days n ev costs rollups rest)
qed

section \<open>Sweeping after a rebuild\<close>

lemma dset_not_empty [simp]: "dset k v d \<noteq> []"
  by (cases d) auto

lemma aggregate_day_empty: "cost_inv (cd_costs db) \<Longrightarrow> aggregate_day db day roots = [] \<longleftrightarrow> day_events db day = []"
proof -
  assume inv: "cost_inv (cd_costs db)"
  have ne: "fold (merge_record roots) gs d \<noteq> []" if "d \<noteq> [] \<or> gs \<noteq> []" for gs d
    using that
  proof (induction gs arbitrary: d)
    case (Cons g gs)
    have "merge_record roots g d \<noteq> []" by (cases g) (simp add: merge_record_def Let_def)
    then show ?case using Cons.IH by simp
  qed simp
  show ?thesis
  proof
    assume e: "aggregate_day db day roots = []"
    have "map (\<lambda>(k, rows). (k, sql_record rows)) (sql_groups (raw_grain db) (day_rows db day)) = []" (is "?gs = []")
    proof (rule ccontr)
      assume "?gs \<noteq> []"
      then have "merged_groups db day roots \<noteq> []" unfolding merged_groups_def by (intro ne disjI2)
      then show False using e by (simp add: aggregate_day_def)
    qed
    then show "day_events db day = []" by (simp add: sql_groups_def group_keys_def day_rows_events [OF inv])
  next
    assume "day_events db day = []"
    then show "aggregate_day db day roots = []" by (intro no_rows_no_rollups) (simp add: day_rows_events [OF inv])
  qed
qed

lemma refresh_ledger [simp]: "cd_ledger (snd (refresh_rollups_for_days days roots db)) = cd_ledger db"
  by (induction days arbitrary: db) (simp_all add: Let_def case_prod_unfold)

lemma rebuild_frame [simp]: "cd_ledger (snd (rebuild_all_rollups roots db)) = cd_ledger db"
  by (simp add: rebuild_all_rollups_def Let_def)

definition foreign_rows :: "'a rollup_db_scheme \<Rightarrow> int \<Rightarrow> rollup_row list" where
  "foreign_rows db d = filter (\<lambda>q. ro_day q = d \<and> ro_provenance q \<noteq> DERIVED) (rd_rollups db)"

lemma sum_list_split: "sum_list (map f (filter P xs)) = sum_list (map f (filter (\<lambda>x. P x \<and> Q x) xs))
    + sum_list (map f (filter (\<lambda>x. P x \<and> \<not> Q x) xs))" for f :: "'b \<Rightarrow> int"
  by (induction xs) auto

lemma token_total_columns: "event_token_total r = token_columns r ! 6"
  by (simp add: event_token_total_def token_columns_def ledger_tokens_def)

text \<open>After a rebuild, a day is covered unless rows from elsewhere add tokens, or it has no final attempt.\<close>

lemma rebuilt_covers:
  assumes inv: "cost_inv (cd_costs db)" and keys: "distinct (map ro_key (rd_rollups db))"
  shows "rollups_cover_day d (snd (rebuild_all_rollups roots db)) \<longleftrightarrow>
      (day_events db d \<noteq> [] \<or> foreign_rows db d \<noteq> []) \<and> sum_list (map (\<lambda>q. ro_tokens q ! 6) (foreign_rows db d)) = 0"
proof -
  let ?t = "rd_rollups (snd (rebuild_all_rollups roots db))"
  note rows = rebuild_rows [OF keys, of d roots]
  have derived: "filter (\<lambda>q. ro_day q = d \<and> ro_provenance q = DERIVED) ?t = aggregate_day db d roots"
    using rows by (simp add: conj_commute)
  have "filter (\<lambda>q. ro_day q = d \<and> ro_provenance q \<noteq> DERIVED) xs
      = filter (\<lambda>q. ro_day q = d) (filter (\<lambda>q. ro_provenance q \<noteq> DERIVED) xs)" for xs
    by (simp add: conj_commute)
  note eq = this
  have foreign: "filter (\<lambda>q. ro_day q = d \<and> ro_provenance q \<noteq> DERIVED) ?t = foreign_rows db d"
    unfolding eq foreign_rows_def rows [THEN conjunct2] ..
  have "filter (\<lambda>q. ro_day q = d) ?t = [] \<longleftrightarrow> aggregate_day db d roots = [] \<and> foreign_rows db d = []"
    unfolding derived [symmetric] foreign [symmetric] by (auto simp: filter_empty_conv)
  moreover have "sum_list (map (\<lambda>q. ro_tokens q ! 6) (filter (\<lambda>q. ro_day q = d) ?t))
      = sum_list (map event_token_total (day_events db d)) + sum_list (map (\<lambda>q. ro_tokens q ! 6) (foreign_rows db d))"
    using sum_list_split [of "\<lambda>q. ro_tokens q ! 6" "\<lambda>q. ro_day q = d" ?t "\<lambda>q. ro_provenance q = DERIVED"]
      day_tokens [OF inv, of 6 d roots]
    by (simp add: derived foreign token_total_columns [abs_def])
  moreover have "filter (\<lambda>r. is_final_attempt r \<and> on_day d r) (events_of db) = day_events db d"
    by (simp add: day_events_def on_day_iff)
  ultimately show ?thesis
    by (simp add: rollups_cover_day_def Let_def aggregate_day_empty [OF inv])
qed

text \<open>
  What a sweep does to a ledger whose rollups have just been rebuilt, when the batch is large enough: of the
  events before the cutoff's day it removes exactly those whose day has a final attempt (or a row from elsewhere)
  and on which the rows from elsewhere add no tokens. So a day with imported usage, and a day with snapshots and
  request events only, are never swept.
\<close>

theorem rebuilt_days_swept:
  fixes db :: "'a rollup_db_scheme"
  assumes "cost_inv (cd_costs db)" and "distinct (map ro_key (rd_rollups db))"
    and "length (events_of db) < bs"
  shows "\<exists>n backlog oldest aborted db'.
      sweep_raw_events cutoff now bs (snd (rebuild_all_rollups roots db)) = Inr ((n, backlog, oldest, aborted), db')
    \<and> events_of db' = filter (\<lambda>r. \<not> (day_of r < utc_date cutoff
        \<and> (day_events db (day_of r) \<noteq> [] \<or> foreign_rows db (day_of r) \<noteq> [])
        \<and> sum_list (map (\<lambda>q. ro_tokens q ! 6) (foreign_rows db (day_of r))) = 0)) (events_of db)"
proof -
  let ?db = "snd (rebuild_all_rollups roots db)"
  obtain n backlog oldest aborted db' D where
    run: "sweep_raw_events cutoff now bs ?db = Inr ((n, backlog, oldest, aborted), db')"
    and same: "same_but_dq (without_days D ?db) db'" and D: "\<forall>d \<in> D. d < utc_date cutoff \<and> rollups_cover_day d ?db"
    and n: "n = length (filter (\<lambda>r. day_of r \<in> D) (events_of ?db))"
    and full: "n < bs \<Longrightarrow> (\<forall>r \<in> set (events_of ?db). day_of r < utc_date cutoff \<longrightarrow> (day_of r \<in> D \<longleftrightarrow> rollups_cover_day (day_of r) ?db))"
    by (rule sweep_raw_result [of cutoff now bs ?db]) (rule that)
  have "n < bs" using n assms(3) length_filter_le [of "\<lambda>r. day_of r \<in> D" "events_of db"] by (simp only: rebuild_frame)
  then have in_D: "day_of r \<in> D \<longleftrightarrow> day_of r < utc_date cutoff \<and> rollups_cover_day (day_of r) ?db" if "r \<in> set (events_of db)" for r
    using full D that by auto
  have "events_of db' = filter (\<lambda>r. day_of r \<notin> D) (events_of db)" using same_but_dq_events [OF same] by simp
  also have "\<dots> = filter (\<lambda>r. \<not> (day_of r < utc_date cutoff \<and> rollups_cover_day (day_of r) ?db)) (events_of db)"
    by (rule filter_cong [OF refl]) (simp add: in_D)
  finally show ?thesis using run unfolding rebuilt_covers [OF assms(1,2)] by blast
qed

text \<open>
  The rollups that outlive a day's events do not survive a rebuild: when a sweep has removed the events of a
  day, the table still has rows for that day, as the sweep requires; a rebuild of the rollups afterwards leaves no
  derived row for it.
\<close>

theorem rebuild_forgets_swept_day:
  fixes db :: "'a rollup_db_scheme"
  assumes "sweep_raw_events cutoff now bs db = Inr (result, db')"
    and "filter (on_day d) (events_of db) \<noteq> []" and "filter (on_day d) (events_of db') = []"
    and "distinct (map ro_key (rd_rollups db))"
  shows "filter (\<lambda>q. ro_day q = d) (rd_rollups db') \<noteq> []
    \<and> filter (\<lambda>q. ro_provenance q = DERIVED \<and> ro_day q = d) (rd_rollups (snd (rebuild_all_rollups roots db'))) = []"
proof -
  obtain result' db'' D where run: "sweep_raw_events cutoff now bs db = Inr (result', db'')"
    and s: "same_but_dq (without_days D db) db''" and D: "\<forall>d \<in> D. d < utc_date cutoff \<and> rollups_cover_day d db"
    by (rule sweep_raw_result [of cutoff now bs db]) (rule that)
  have same: "same_but_dq (without_days D db) db'" using s run assms(1) by simp
  note tables = same_but_dq_events [OF same]
  have "d \<in> D" using assms(2,3) tables by (auto simp: filter_empty_conv on_day_iff)
  then have "filter (\<lambda>q. ro_day q = d) (rd_rollups db') \<noteq> []"
    using D tables by (auto simp: rollups_cover_day_def Let_def split: if_splits)
  moreover have "aggregate_day db' d roots = []"
    using assms(3) no_rows_no_rollups [of db' d roots]
    by (auto simp: day_rows_def filter_empty_conv in_day_def on_day_def)
  moreover have "distinct (map ro_key (rd_rollups db'))" using tables assms(4) by simp
  from rebuild_rows [OF this, of d roots] have "filter (\<lambda>q. ro_provenance q = DERIVED \<and> ro_day q = d)
      (rd_rollups (snd (rebuild_all_rollups roots db'))) = aggregate_day db' d roots" by simp
  ultimately show ?thesis by simp
qed

section \<open>The whole sweep\<close>

definition expires :: "retention_policy \<Rightarrow> string \<Rightarrow> int \<Rightarrow> int \<Rightarrow> bool" where
  "expires p category now t = (case sweep_cutoff p category now of None \<Rightarrow> False | Some k \<Rightarrow> t < k)"

definition expires_day :: "retention_policy \<Rightarrow> string \<Rightarrow> int \<Rightarrow> int \<Rightarrow> bool" where
  "expires_day p category now d = (case sweep_cutoff p category now of None \<Rightarrow> False | Some k \<Rightarrow> d < utc_date k)"

definition revision_category :: "event_revision \<Rightarrow> string" where
  "revision_category r = (if is_correction r then CORRECTIONS else SUPERSEDED_SNAPSHOTS)"

text \<open>Two states in which no table has lost, gained or moved a row that the policy keeps.\<close>

definition spares :: "retention_policy \<Rightarrow> int \<Rightarrow> retention_db \<Rightarrow> retention_db \<Rightarrow> bool" where
  "spares p now db db' \<longleftrightarrow>
     (filter (\<lambda>r. \<not> expires_day p RAW_EVENTS now (day_of r)) (events_of db')
            = filter (\<lambda>r. \<not> expires_day p RAW_EVENTS now (day_of r)) (events_of db)
       \<and> filter (\<lambda>q. \<not> expires_day p DAILY_ROLLUPS now (ro_day q)) (rd_rollups db')
            = filter (\<lambda>q. \<not> expires_day p DAILY_ROLLUPS now (ro_day q)) (rd_rollups db)
       \<and> filter (\<lambda>r. \<not> expires p (revision_category r) now (rv_ts r)) (lb_revisions (cd_ledger db'))
            = filter (\<lambda>r. \<not> expires p (revision_category r) now (rv_ts r)) (lb_revisions (cd_ledger db))
       \<and> filter (\<lambda>r. \<not> expires p LIMIT_SNAPSHOTS now (stored_order (li_ts r))) (vd_limits db')
            = filter (\<lambda>r. \<not> expires p LIMIT_SNAPSHOTS now (stored_order (li_ts r))) (vd_limits db)
       \<and> filter (\<lambda>r. \<not> expires p INGEST_BATCHES now (ib_received_at r)) (rt_batches db')
            = filter (\<lambda>r. \<not> expires p INGEST_BATCHES now (ib_received_at r)) (rt_batches db)
       \<and> filter (\<lambda>r. \<not> expires p AUDIT_RECORDS now (au_ts r)) (db_audit db')
            = filter (\<lambda>r. \<not> expires p AUDIT_RECORDS now (au_ts r)) (db_audit db)
       \<and> filter (\<lambda>r. \<not> expires p ALERT_EVENTS now (ae_ts r)) (ad_events db')
            = filter (\<lambda>r. \<not> expires p ALERT_EVENTS now (ae_ts r)) (ad_events db)
       \<and> map_option (filter (\<lambda>t. \<not> expires p V1_ARCHIVE now t)) (rt_archive db')
            = map_option (filter (\<lambda>t. \<not> expires p V1_ARCHIVE now t)) (rt_archive db)
       \<and> db_cards db' = db_cards db \<and> db_settings db' = db_settings db \<and> cd_sources db' = cd_sources db
       \<and> ad_requests db' = ad_requests db \<and> ad_rules db' = ad_rules db)"

lemma spares_refl [simp]: "spares p now db db"
  by (simp add: spares_def)

lemma spares_trans: "spares p now a b \<Longrightarrow> spares p now b c \<Longrightarrow> spares p now a c"
  unfolding spares_def by (elim conjE) (intro conjI; (erule trans [rotated], assumption))

lemma spares_status [simp]: "spares p now a (b\<lparr>rt_status := s\<rparr>) \<longleftrightarrow> spares p now a b"
  by (simp add: spares_def)

lemma filter_weaken:
  assumes "filter (\<lambda>r. \<not> e r) a = filter (\<lambda>r. \<not> e r) b" and "\<And>r. e r \<Longrightarrow> \<not> Q r"
  shows "filter Q a = filter Q b"
proof -
  have "filter Q xs = filter Q (filter (\<lambda>r. \<not> e r) xs)" for xs
    using assms(2) by (auto intro: filter_cong)
  then show ?thesis using assms(1) by metis
qed

lemma delete_simple_spares:
  assumes "delete_simple time extra cutoff n rows = (counts, left)" and "\<And>r. time r < cutoff \<Longrightarrow> extra r \<Longrightarrow> \<not> Q r"
  shows "filter Q left = filter Q rows"
proof (rule filter_weaken)
  have "left = delete_keys (oldest_keys time (expired_in time extra cutoff) n rows) rows"
    using delete_simple_result(1) [of time extra cutoff n rows] assms(1) by simp
  then show "filter (\<lambda>r. \<not> expired_in time extra cutoff r) left = filter (\<lambda>r. \<not> expired_in time extra cutoff r) rows"
    by (simp add: delete_oldest(2))
qed (use assms(2) in \<open>simp add: expired_in_def\<close>)

lemma daily_spares:
  assumes "delete_daily_rollups cutoff n rows = (counts, left)" and "\<And>q. ro_day q < utc_date cutoff \<Longrightarrow> \<not> Q q"
  shows "filter Q left = filter Q rows"
proof (rule filter_weaken)
  have "left = delete_keys (oldest_keys ro_day (\<lambda>r. ro_day r < utc_date cutoff) n rows) rows"
    using assms(1) by (simp add: delete_daily_rollups_def Let_def)
  then show "filter (\<lambda>q. \<not> ro_day q < utc_date cutoff) left = filter (\<lambda>q. \<not> ro_day q < utc_date cutoff) rows"
    by (simp only: delete_oldest(2))
qed (use assms(2) in simp)

lemma raw_spares:
  fixes db :: "retention_db"
  assumes "sweep_raw_events cutoff now n db = Inr (counts, db')" and "\<And>d. d < utc_date cutoff \<Longrightarrow> \<not> Q d"
  shows "filter (\<lambda>r. Q (day_of r)) (events_of db') = filter (\<lambda>r. Q (day_of r)) (events_of db)"
    and "\<exists>D t. db' = (without_days D db)\<lparr>cd_ledger := (cd_ledger (without_days D db))\<lparr>lb_dq := t\<rparr>\<rparr>"
proof -
  obtain counts' db'' D where run: "sweep_raw_events cutoff now n db = Inr (counts', db'')"
    and s: "same_but_dq (without_days D db) db''" and D: "\<forall>d \<in> D. d < utc_date cutoff \<and> rollups_cover_day d db"
    by (rule sweep_raw_result [of cutoff now n db]) (rule that)
  have same: "same_but_dq (without_days D db) db'" using s run assms(1) by simp
  then show "\<exists>D t. db' = (without_days D db)\<lparr>cd_ledger := (cd_ledger (without_days D db))\<lparr>lb_dq := t\<rparr>\<rparr>"
    by (auto simp: same_but_dq_def)
  have "filter (\<lambda>r. Q (day_of r)) (filter (\<lambda>r. day_of r \<notin> D) xs) = filter (\<lambda>r. Q (day_of r)) xs" for xs
    using D assms(2) by (auto intro: filter_cong)
  then show "filter (\<lambda>r. Q (day_of r)) (events_of db') = filter (\<lambda>r. Q (day_of r)) (events_of db)"
    using same_but_dq_events [OF same] by simp
qed

lemma category_cases:
  assumes "category \<in> set RETENTION_CATEGORIES"
  obtains (Raw) "category = RAW_EVENTS" | (Superseded) "category = SUPERSEDED_SNAPSHOTS" | (Daily) "category = DAILY_ROLLUPS"
    | (Limits) "category = LIMIT_SNAPSHOTS" | (Batches) "category = INGEST_BATCHES" | (Audit) "category = AUDIT_RECORDS"
    | (Corrections) "category = CORRECTIONS" | (Alerts) "category = ALERT_EVENTS" | (Archive) "category = V1_ARCHIVE"
  using assms by (auto simp: RETENTION_CATEGORIES_def)

lemma spares_tables:
  fixes db db' :: retention_db
  assumes "filter (\<lambda>r. \<not> expires_day p RAW_EVENTS now (day_of r)) (events_of db')
            = filter (\<lambda>r. \<not> expires_day p RAW_EVENTS now (day_of r)) (events_of db)"
    and "\<exists>D t. db' = (without_days D db)\<lparr>cd_ledger := (cd_ledger (without_days D db))\<lparr>lb_dq := t\<rparr>\<rparr>"
  shows "spares p now db db'"
  using assms by (auto simp: spares_def without_days_def Let_def)

lemma counts_cases:
  fixes r :: "(nat \<times> nat \<times> 'o) \<times> 'rows"
  obtains x y z left where "r = ((x, y, z), left)"
  by (metis prod.collapse)

lemma sweep_one_spares:
  assumes "sweep_one category k now n db = Inr (counts, db')" and "category \<in> set RETENTION_CATEGORIES"
    and "sweep_cutoff p category now = Some k"
  shows "spares p now db db'"
  using assms(2)
proof (cases rule: category_cases)
  case Raw
  have run: "sweep_raw_events k now n db = Inr (counts, db')" using assms(1) by (simp add: sweep_one_def Raw)
  show ?thesis
    by (rule spares_tables [OF raw_spares(1) [OF run, of "\<lambda>d. \<not> expires_day p RAW_EVENTS now d"] raw_spares(2) [OF run, of "\<lambda>_. False"]])
      (use assms(3) Raw in \<open>simp_all add: expires_day_def\<close>)
next
  case Daily
  obtain x y z left where run: "delete_daily_rollups k n (rd_rollups db) = ((x, y, z), left)" by (rule counts_cases)
  have "filter (\<lambda>q. \<not> expires_day p DAILY_ROLLUPS now (ro_day q)) left
      = filter (\<lambda>q. \<not> expires_day p DAILY_ROLLUPS now (ro_day q)) (rd_rollups db)"
    by (rule daily_spares [OF run]) (use assms(3) Daily in \<open>simp add: expires_day_def\<close>)
  then show ?thesis using assms(1) run by (auto simp: sweep_one_def Daily category_defs spares_def)
next
  case Archive
  have "filter (\<lambda>t. \<not> expires p V1_ARCHIVE now t) (filter (\<lambda>t. \<not> t < k) ts)
      = filter (\<lambda>t. \<not> expires p V1_ARCHIVE now t) ts" for ts
    using assms(3) by (simp add: expires_def Archive)
  then show ?thesis using assms(1)
    by (cases "rt_archive db") (auto simp: sweep_one_def Archive category_defs spares_def delete_v1_archive_def Let_def)
next
  case Superseded
  obtain x y z left where run: "delete_simple rv_ts (\<lambda>r. \<not> is_correction r) k n (lb_revisions (cd_ledger db)) = ((x, y, z), left)" by (rule counts_cases)
  have "filter (\<lambda>r. \<not> expires p (revision_category r) now (rv_ts r)) left
      = filter (\<lambda>r. \<not> expires p (revision_category r) now (rv_ts r)) (lb_revisions (cd_ledger db))"
    by (rule delete_simple_spares [OF run]) (use assms(3) Superseded in \<open>simp add: expires_def revision_category_def\<close>)
  then show ?thesis using assms(1) run
    by (auto simp: sweep_one_def Superseded category_defs spares_def set_ledger_revisions_def)
next
  case Corrections
  obtain x y z left where run: "delete_simple rv_ts is_correction k n (lb_revisions (cd_ledger db)) = ((x, y, z), left)" by (rule counts_cases)
  have "filter (\<lambda>r. \<not> expires p (revision_category r) now (rv_ts r)) left
      = filter (\<lambda>r. \<not> expires p (revision_category r) now (rv_ts r)) (lb_revisions (cd_ledger db))"
    by (rule delete_simple_spares [OF run]) (use assms(3) Corrections in \<open>simp add: expires_def revision_category_def\<close>)
  then show ?thesis using assms(1) run
    by (auto simp: sweep_one_def Corrections category_defs spares_def set_ledger_revisions_def)
next
  case Limits
  obtain x y z left where run: "delete_simple (stored_order \<circ> li_ts) (\<lambda>_. True) k n (vd_limits db) = ((x, y, z), left)" by (rule counts_cases)
  have "filter (\<lambda>r. \<not> expires p LIMIT_SNAPSHOTS now (stored_order (li_ts r))) left
      = filter (\<lambda>r. \<not> expires p LIMIT_SNAPSHOTS now (stored_order (li_ts r))) (vd_limits db)"
    by (rule delete_simple_spares [OF run]) (use assms(3) Limits in \<open>simp add: expires_def\<close>)
  then show ?thesis using assms(1) run by (auto simp: sweep_one_def Limits category_defs spares_def)
next
  case Batches
  obtain x y z left where run: "delete_simple ib_received_at (\<lambda>_. True) k n (rt_batches db) = ((x, y, z), left)" by (rule counts_cases)
  have "filter (\<lambda>r. \<not> expires p INGEST_BATCHES now (ib_received_at r)) left
      = filter (\<lambda>r. \<not> expires p INGEST_BATCHES now (ib_received_at r)) (rt_batches db)"
    by (rule delete_simple_spares [OF run]) (use assms(3) Batches in \<open>simp add: expires_def\<close>)
  then show ?thesis using assms(1) run by (auto simp: sweep_one_def Batches category_defs spares_def)
next
  case Audit
  obtain x y z left where run: "delete_simple au_ts (\<lambda>_. True) k n (db_audit db) = ((x, y, z), left)" by (rule counts_cases)
  have "filter (\<lambda>r. \<not> expires p AUDIT_RECORDS now (au_ts r)) left
      = filter (\<lambda>r. \<not> expires p AUDIT_RECORDS now (au_ts r)) (db_audit db)"
    by (rule delete_simple_spares [OF run]) (use assms(3) Audit in \<open>simp add: expires_def\<close>)
  then show ?thesis using assms(1) run by (auto simp: sweep_one_def Audit category_defs spares_def)
next
  case Alerts
  obtain x y z left where run: "delete_simple ae_ts (\<lambda>_. True) k n (ad_events db) = ((x, y, z), left)" by (rule counts_cases)
  have "filter (\<lambda>r. \<not> expires p ALERT_EVENTS now (ae_ts r)) left
      = filter (\<lambda>r. \<not> expires p ALERT_EVENTS now (ae_ts r)) (ad_events db)"
    by (rule delete_simple_spares [OF run]) (use assms(3) Alerts in \<open>simp add: expires_def\<close>)
  then show ?thesis using assms(1) run by (auto simp: sweep_one_def Alerts category_defs spares_def)
qed

lemma sweep_category_spares:
  assumes "sweep_category p now n category db = Inr (r, db')" and "category \<in> set RETENTION_CATEGORIES"
  shows "spares p now db db'" and "\<not> is_deletion_active p category \<Longrightarrow> db' = db \<and> r = not_run category"
proof -
  show "spares p now db db'"
  proof (cases "sweep_cutoff p category now")
    case (Some k)
    then show ?thesis using assms(1) sweep_one_spares [OF _ assms(2) Some]
      by (auto simp: sweep_category_def split: if_splits sum.splits)
  qed (use assms in \<open>simp add: sweep_category_def\<close>)
  show "\<not> is_deletion_active p category \<Longrightarrow> db' = db \<and> r = not_run category"
    using assms(1) by (simp add: sweep_category_def sweep_cutoff_def)
qed

lemma sweep_categories_spares:
  "sweep_categories p now n cs db = Inr (rs, db') \<Longrightarrow> set cs \<subseteq> set RETENTION_CATEGORIES \<Longrightarrow>
    spares p now db db' \<and> ((\<forall>c \<in> set cs. \<not> is_deletion_active p c) \<longrightarrow> db' = db \<and> rs = map not_run cs)
    \<and> map ct_category rs = cs"
proof (induction cs arbitrary: db rs)
  case (Cons c cs)
  from Cons.prems(1) obtain r db1 rs1 where one: "sweep_category p now n c db = Inr (r, db1)"
    and rest: "sweep_categories p now n cs db1 = Inr (rs1, db')" and rs: "rs = r # rs1"
    by (auto split: sum.splits)
  have name: "ct_category r = c" using one
    by (auto simp: sweep_category_def not_run_def split: option.splits if_splits sum.splits)
  show ?case
    using Cons.IH [OF rest] Cons.prems(2) sweep_category_spares [OF one] spares_trans [of p now db db1 db'] rs name by auto
qed simp

text \<open>
  C24. A retention sweep deletes nothing that its policy keeps: in every table the rows that no active rule has
  expired keep their content, number and order (raw events and rollups by whole days, revisions by their reason), and
  the settings, cards, sources, requests and alert rules are not touched. When nothing is active, as under a
  legal hold, the state is the same to the last row.
\<close>

theorem retention_sweep_safe:
  assumes "run_retention_sweep p now bs db = Inr (results, db')"
  shows "spares p now db db' \<and> map ct_category results = RETENTION_CATEGORIES
    \<and> (rp_legal_hold p \<longrightarrow> db' = db \<and> total_deleted results = 0)"
proof -
  have none: "\<forall>c \<in> set cs. \<not> is_deletion_active p c" if "rp_legal_hold p" for cs
    using that by (simp add: is_deletion_active_def)
  have "total_deleted (map not_run cs) = 0" for cs by (simp add: total_deleted_def not_run_def comp_def)
  then show ?thesis
    using sweep_categories_spares [of p now bs RETENTION_CATEGORIES db results db'] assms none by (auto simp: run_retention_sweep_def)
qed

text \<open>
  A retention period that reaches back before the first representable date stops every deletion: the sweep
  raises at that category, its transaction is given up, and the pass leaves the whole state as it was, however much
  the other categories had to delete.
\<close>

theorem overlong_period_stops_retention:
  assumes "resolve_retention_policy (db_settings db) = Inr p" and "category \<in> set RETENTION_CATEGORIES"
    and "is_deletion_active p category" and "dget (rp_rules p) category = Some \<lparr>cr_days = Some days, cr_enabled = True\<rparr>"
    and "now - days * DAY_US < MIN_WALL"
  shows "retention_pass now bs db = db"
proof -
  have cut: "sweep_cutoff p category now = Some (now - days * DAY_US)" using assms(3,4) by (simp add: sweep_cutoff_def)
  have "\<exists>e. sweep_categories p now bs cs db = Inl e" if "category \<in> set cs" for cs db
    using that
  proof (induction cs arbitrary: db)
    case (Cons c cs)
    show ?case
    proof (cases "c = category")
      case True
      then show ?thesis using cut assms(5) by (simp add: sweep_category_def)
    next
      case False
      then show ?thesis using Cons by (cases "sweep_category p now bs c db") (auto split: sum.split, metis sum.distinct(1))
    qed
  qed simp
  from this [OF assms(2), of db] obtain e where "run_retention_sweep p now bs db = Inl e"
    by (auto simp: run_retention_sweep_def)
  then show ?thesis using assms(1) by (simp add: retention_pass_def)
qed

section \<open>Witnesses\<close>

definition rolled_up_db :: rollup_db where
  "rolled_up_db = sample_rollup_db [] (aggregate_day (sample_rollup_db [] []) 0 DEFAULT_ROOTS)"

definition sample_retention_db :: "(string, string \<times> int) dict \<Rightarrow> audit_entry list \<Rightarrow> retention_db" where
  "sample_retention_db settings entries = \<lparr>db_cards = [], db_next_card = 1, db_settings = settings, db_audit = entries,
     cd_ledger = empty_ledger, cd_costs = [], cd_sources = \<lparr>st_rows = [], st_next = 1\<rparr>, rd_rollups = [], vd_providers = [],
     vd_models = [], vd_machines = [], vd_limits = [], ad_requests = [], ad_rules = [], ad_events = [], rt_batches = [],
     rt_archive = None, rt_status = []\<rparr>"

definition audit_at :: "int \<Rightarrow> audit_entry" where
  "audit_at ts = \<lparr>au_actor = None, au_action = ''login'', au_subject = None, au_detail = [], au_ts = ts, au_request_id = None\<rparr>"

lemma delete_simple_empty [simp]: "delete_simple time extra c n [] = ((0, 0, None), [])"
  by (simp add: delete_simple_def oldest_keys_def delete_keys_def min_time_def)

lemma delete_audit: "delete_simple au_ts (\<lambda>_. True) (100 * DAY_US) 10 [audit_at 0, audit_at (450 * DAY_US)]
    = ((1, 0, Some (450 * DAY_US)), [audit_at (450 * DAY_US)])"
  by (simp add: delete_simple_def oldest_keys_def delete_keys_def min_time_def audit_at_def)

lemma audit_sweep:
  "\<exists>r db'. run_retention_sweep default_retention_policy (500 * DAY_US) 10 (sample_retention_db [] [audit_at 0, audit_at (450 * DAY_US)])
     = Inr (r, db') \<and> db_audit db' = [audit_at (450 * DAY_US)]"
  using delete_audit
  by (simp add: run_retention_sweep_def RETENTION_CATEGORIES_def sweep_category_def sweep_cutoff_def is_deletion_active_def
    default_retention_policy_def DEFAULT_RULES_def deletes_def category_defs sweep_one_def sample_retention_db_def empty_ledger_def
    sweep_raw_events_def min_time_def set_ledger_revisions_def MIN_WALL_def)

lemma long_policy:
  "resolve_retention_policy [(days_key AUDIT_RECORDS, (days_str (Some 99999999), 0))]
     = Inr \<lparr>rp_rules = dset AUDIT_RECORDS \<lparr>cr_days = Some 99999999, cr_enabled = True\<rparr> DEFAULT_RULES, rp_legal_hold = False\<rparr>"
  using parse_days_str [of "Some 99999999"]
  by (simp add: resolve_retention_policy_def default_retention_policy_def DEFAULT_RULES_def resolve_rule_def stored_override_def category_defs)

theorem retention_sweep_safe_witness:
  "\<exists>r db'. run_retention_sweep default_retention_policy (500 * DAY_US) 10 (sample_retention_db [] [audit_at 0, audit_at (450 * DAY_US)])
      = Inr (r, db') \<and> db_audit db' = [audit_at (450 * DAY_US)]
    \<and> spares default_retention_policy (500 * DAY_US) (sample_retention_db [] [audit_at 0, audit_at (450 * DAY_US)]) db'"
  using audit_sweep retention_sweep_safe by blast

theorem overlong_period_stops_retention_witness:
  "retention_pass (20000 * DAY_US) 10 (sample_retention_db [(days_key AUDIT_RECORDS, (days_str (Some 99999999), 0))] [audit_at 0])
     = sample_retention_db [(days_key AUDIT_RECORDS, (days_str (Some 99999999), 0))] [audit_at 0]"
proof (rule overlong_period_stops_retention)
  let ?p = "\<lparr>rp_rules = dset AUDIT_RECORDS \<lparr>cr_days = Some 99999999, cr_enabled = True\<rparr> DEFAULT_RULES, rp_legal_hold = False\<rparr>"
  show "resolve_retention_policy (db_settings (sample_retention_db [(days_key AUDIT_RECORDS, (days_str (Some 99999999), 0))] [audit_at 0]))
      = Inr ?p" using long_policy by (simp add: sample_retention_db_def)
  show "AUDIT_RECORDS \<in> set RETENTION_CATEGORIES" by (simp add: RETENTION_CATEGORIES_def)
  show "is_deletion_active ?p AUDIT_RECORDS" by (simp add: is_deletion_active_def deletes_def)
  show "dget (rp_rules ?p) AUDIT_RECORDS = Some \<lparr>cr_days = Some 99999999, cr_enabled = True\<rparr>" by simp
qed (simp add: MIN_WALL_def)

theorem raw_sweep_verified_witness:
  "\<exists>r db'. sweep_raw_events (10 * DAY_US) 0 5 (sample_rollup_db [] []) = Inr (r, db')
    \<and> events_of db' = events_of (sample_rollup_db [] [])"
proof -
  have "rd_rollups (sample_rollup_db [] []) = []" by (simp add: sample_rollup_db_def)
  then show ?thesis using raw_sweep_verified [of "10 * DAY_US" 0 5 "sample_rollup_db [] []"] by fastforce
qed

lemma sample_inv: "cost_inv (cd_costs (sample_rollup_db [] rows))"
  by (simp add: sample_rollup_db_def cost_inv_def)

lemma sample_day:
  assumes "r \<in> set (events_of (sample_rollup_db [] rows))"
  shows "day_of r = 0 \<and> r \<in> set (day_events (sample_rollup_db [] rows) 0)"
proof -
  have "r \<in> set (day_events (sample_rollup_db [] rows) 0)"
    using assms unfolding sample_day_events by (simp add: sample_rollup_db_def)
  then show ?thesis by (simp add: day_events_def)
qed

theorem rebuilt_days_swept_witness:
  "\<exists>r db'. sweep_raw_events (10 * DAY_US) 0 5 (snd (rebuild_all_rollups DEFAULT_ROOTS (sample_rollup_db [] []))) = Inr (r, db')
    \<and> events_of db' = []"
proof -
  let ?db = "sample_rollup_db [] []"
  have "distinct (map ro_key (rd_rollups ?db))" "length (events_of ?db) < 5" "foreign_rows ?db d = []" for d
    by (simp_all add: sample_rollup_db_def foreign_rows_def)
  then show ?thesis using rebuilt_days_swept [OF sample_inv, of "[]" 5 "10 * DAY_US" 0 DEFAULT_ROOTS] sample_day [of _ "[]"]
    by (fastforce simp: filter_empty_conv utc_date_def)
qed

theorem rebuild_forgets_swept_day_witness:
  "\<exists>r db'. sweep_raw_events (10 * DAY_US) 0 5 rolled_up_db = Inr (r, db')
    \<and> filter (\<lambda>q. ro_day q = 0) (rd_rollups db') \<noteq> []
    \<and> filter (\<lambda>q. ro_provenance q = DERIVED \<and> ro_day q = 0) (rd_rollups (snd (rebuild_all_rollups DEFAULT_ROOTS db'))) = []"
proof -
  let ?rows = "aggregate_day (sample_rollup_db [] []) 0 DEFAULT_ROOTS"
  have db: "rolled_up_db = sample_rollup_db [] ?rows" by (simp add: rolled_up_db_def)
  have rows: "rd_rollups rolled_up_db = ?rows" by (simp add: db sample_rollup_db_def)
  have ev: "events_of rolled_up_db = events_of (sample_rollup_db [] [])" by (simp add: db sample_rollup_db_def)
  have one: "events_of rolled_up_db \<noteq> []" "length (events_of rolled_up_db) < 5" by (simp_all add: db sample_rollup_db_def)
  have day: "filter (on_day 0) (events_of rolled_up_db) = events_of rolled_up_db"
    using sample_day [of _ "[]"] by (simp add: ev filter_id_conv on_day_iff)
  have fin: "filter (\<lambda>r. is_final_attempt r \<and> on_day 0 r) (events_of rolled_up_db) = day_events (sample_rollup_db [] []) 0"
    by (simp add: ev day_events_def on_day_iff)
  have "filter (\<lambda>q. ro_day q = 0) ?rows = ?rows" by (auto simp: filter_id_conv dest: aggregate_day_rows)
  moreover have "?rows \<noteq> []" by (simp add: aggregate_day_empty [OF sample_inv] sample_day_events)
  ultimately have cover: "rollups_cover_day 0 rolled_up_db"
    using day_tokens [OF sample_inv [of "[]"], of 6 0 DEFAULT_ROOTS]
    by (simp add: rollups_cover_day_def Let_def rows fin token_total_columns [abs_def])
  obtain r n db' D where run: "sweep_raw_events (10 * DAY_US) 0 5 rolled_up_db = Inr ((n, r), db')"
    and same: "same_but_dq (without_days D rolled_up_db) db'"
    and n: "n = length (filter (\<lambda>r. day_of r \<in> D) (events_of rolled_up_db))"
    and full: "n < 5 \<Longrightarrow> \<forall>r \<in> set (events_of rolled_up_db). day_of r < utc_date (10 * DAY_US) \<longrightarrow>
      (day_of r \<in> D \<longleftrightarrow> rollups_cover_day (day_of r) rolled_up_db)"
    by (rule sweep_raw_result [of "10 * DAY_US" 0 5 rolled_up_db]) (rule that)
  have "n < 5" using n one(2) length_filter_le [of "\<lambda>r. day_of r \<in> D" "events_of rolled_up_db"] by linarith
  from full [OF this] have "\<forall>r \<in> set (events_of rolled_up_db). day_of r \<in> D"
    using sample_day [of _ "[]"] cover by (simp add: ev utc_date_def)
  then have gone: "filter (on_day 0) (events_of db') = []" using same_but_dq_events [OF same] by (simp add: filter_empty_conv)
  have keys: "distinct (map ro_key (rd_rollups rolled_up_db))" by (simp add: rows distinct_aggregate)
  have "filter (on_day 0) (events_of rolled_up_db) \<noteq> []" using one(1) day by simp
  from rebuild_forgets_swept_day [OF run this gone keys, of DEFAULT_ROOTS] show ?thesis using run by blast
qed

end
