(* ===== verification/Deletion.thy ===== *)
theory Deletion
  imports Retention_Worker
begin

text \<open>
  Administrative deletion, \<open>services/admin_deletion.py\<close> and its route \<open>api/v2/admin_data.py\<close>: a dry run that
  counts what the criteria match, and a confirmed run that needs the dry run's digest, deletes the matching events
  with all that hangs on them and recomputes the rollups of the affected days. The hash of the canonical JSON text
  is a parameter over the data it is taken of; the times of the criteria are the instants of the route's UTC times.
\<close>

record deletion_criteria =
  dc_source :: "string option"
  dc_machine :: "string option"
  dc_project :: "string option"
  dc_start :: "py_datetime option"
  dc_end :: "py_datetime option"

definition falsy :: "string option \<Rightarrow> bool" where
  "falsy s \<longleftrightarrow> s = None \<or> s = Some []"

definition criteria_empty :: "deletion_criteria \<Rightarrow> bool" where
  "criteria_empty c \<longleftrightarrow> falsy (dc_source c) \<and> falsy (dc_machine c) \<and> falsy (dc_project c) \<and> dc_start c = None \<and> dc_end c = None"

definition criteria_dict :: "deletion_criteria \<Rightarrow> (string \<times> string option) list" where
  "criteria_dict c = [(''source'', dc_source c), (''machine'', dc_machine c), (''project'', dc_project c),
     (''start'', map_option iso_format (dc_start c)), (''end'', map_option iso_format (dc_end c))]"

text \<open>What a time of the criteria is compared as: SQLite drops its offset.\<close>

definition bound_time :: "dialect \<Rightarrow> py_datetime \<Rightarrow> int" where
  "bound_time d t = stored_order (db_store d t)"

definition deletion_matches :: "dialect \<Rightarrow> source_row list \<Rightarrow> deletion_criteria \<Rightarrow> ledger_row \<Rightarrow> bool" where
  "deletion_matches d sources c r \<longleftrightarrow>
     (case dc_machine c of None \<Rightarrow> True | Some m \<Rightarrow> lg_machine r = Some m)
   \<and> (case dc_project c of None \<Rightarrow> True | Some p \<Rightarrow> lg_project r = Some p)
   \<and> (case dc_source c of None \<Rightarrow> True
      | Some s \<Rightarrow> lg_source_id r \<in> set (map (\<lambda>q. Some (so_id q)) (filter (\<lambda>q. so_name q = s) sources)))
   \<and> (case dc_start c of None \<Rightarrow> True | Some t \<Rightarrow> bound_time d t \<le> lg_ts_started r)
   \<and> (case dc_end c of None \<Rightarrow> True | Some t \<Rightarrow> lg_ts_started r < bound_time d t)"

definition matched_events :: "dialect \<Rightarrow> deletion_criteria \<Rightarrow> 'a cost_db_scheme \<Rightarrow> ledger_row list" where
  "matched_events d c db = filter (deletion_matches d (st_rows (cd_sources db)) c) (lb_events (cd_ledger db))"

definition revision_key :: "event_revision \<Rightarrow> string \<times> string" where
  "revision_key r = (rv_provider r, rv_event_id r)"

definition deletion_counts :: "dialect \<Rightarrow> deletion_criteria \<Rightarrow> 'a cost_db_scheme \<Rightarrow> (string \<times> nat) list" where
  "deletion_counts d c db =
     (let keys = map row_key (matched_events d c db); led = cd_ledger db
      in [(''usage_events_v2'', length (matched_events d c db)),
          (''computed_costs'', length (filter (\<lambda>q. cost_key q \<in> set keys) (cd_costs db))),
          (''billable_units'', length (filter (\<lambda>u. event_unit_key u \<in> set keys) (lb_units led))),
          (''usage_event_revisions'', length (filter (\<lambda>r. revision_key r \<in> set keys) (lb_revisions led)))])"

definition matched_days :: "ledger_row list \<Rightarrow> date list" where
  "matched_days matched =
     (let ts = map lg_ts_started matched
      in if ts = [] then [] else [utc_date (Min (set ts))..utc_date (Max (set ts))])"

text \<open>The data the canonical text of the digest is printed from, with sorted keys.\<close>

type_synonym canonical = "(string \<times> string option) list \<times> (string \<times> nat) list"

definition deletion_digest :: "(canonical \<Rightarrow> string) \<Rightarrow> deletion_criteria \<Rightarrow> (string \<times> nat) list \<Rightarrow> string" where
  "deletion_digest sha c counts = sha (sort_key fst (criteria_dict c), sort_key fst counts)"

record deletion_preview =
  dp_counts :: "(string \<times> nat) list"
  dp_days :: "date list"
  dp_digest :: string

record deletion_result = deletion_preview +
  dr_recomputed :: nat

datatype deletion_error = Empty_Criteria | Digest_Mismatch | Legal_Hold | Digest_Required | Policy_Error retention_error

definition preview_deletion ::
  "(canonical \<Rightarrow> string) \<Rightarrow> dialect \<Rightarrow> deletion_criteria \<Rightarrow> 'a cost_db_scheme \<Rightarrow> deletion_error + deletion_preview" where
  "preview_deletion sha d c db =
     (if criteria_empty c then Inl Empty_Criteria
      else let counts = deletion_counts d c db
           in Inr \<lparr>dp_counts = counts, dp_days = matched_days (matched_events d c db), dp_digest = deletion_digest sha c counts\<rparr>)"

definition erase_events :: "dialect \<Rightarrow> deletion_criteria \<Rightarrow> 'a cost_db_scheme \<Rightarrow> 'a cost_db_scheme" where
  "erase_events d c db =
     (let led = cd_ledger db; keys = map row_key (matched_events d c db);
          matches = deletion_matches d (st_rows (cd_sources db)) c
      in db\<lparr>cd_costs := filter (\<lambda>q. cost_key q \<notin> set keys) (cd_costs db),
            cd_ledger := led\<lparr>lb_units := filter (\<lambda>u. event_unit_key u \<notin> set keys) (lb_units led),
              lb_revisions := filter (\<lambda>r. revision_key r \<notin> set keys) (lb_revisions led),
              lb_events := filter (\<lambda>r. \<not> matches r) (lb_events led)\<rparr>\<rparr>)"

definition recompute_days :: "date list \<Rightarrow> 'a rollup_db_scheme \<Rightarrow> nat \<times> 'a rollup_db_scheme" where
  "recompute_days days db =
     refresh_rollups_for_days days DEFAULT_ROOTS (db\<lparr>rd_rollups := filter (\<lambda>q. ro_day q \<notin> set days) (rd_rollups db)\<rparr>)"

definition deletion_subject :: "deletion_criteria \<Rightarrow> string" where
  "deletion_subject c =
     (let parts = List.map_filter (\<lambda>(k, v). map_option (\<lambda>s. k @ ''='' @ s) v) (criteria_dict c)
      in if parts = [] then ''all'' else str_join '', '' parts)"

definition deletion_detail ::
  "deletion_criteria \<Rightarrow> deletion_preview \<Rightarrow> nat \<Rightarrow> (string \<times> audit_value) list" where
  "deletion_detail c p recomputed =
     [(''criteria'', AuObj (map (\<lambda>(k, v). (k, case v of None \<Rightarrow> AuNull | Some s \<Rightarrow> AuStr s)) (criteria_dict c))),
      (''digest'', AuStr (dp_digest p)),
      (''counts'', AuObj (map (\<lambda>(k, n). (k, AuInt (int n))) (dp_counts p))),
      (''affected_days'', AuArr (map AuDate (dp_days p))),
      (''rollups_recomputed'', AuInt (int recomputed))]"

definition execute_deletion ::
  "(canonical \<Rightarrow> string) \<Rightarrow> dialect \<Rightarrow> deletion_criteria \<Rightarrow> string \<Rightarrow> string option \<Rightarrow> int \<Rightarrow> bool
   \<Rightarrow> 'a rollup_db_scheme \<Rightarrow> deletion_error + deletion_result \<times> 'a rollup_db_scheme" where
  "execute_deletion sha d c expected actor now recompute db =
     (case preview_deletion sha d c db of
        Inl e \<Rightarrow> Inl e
      | Inr p \<Rightarrow>
          if dp_digest p \<noteq> expected then Inl Digest_Mismatch
          else let db1 = erase_events d c db;
                   (n, db2) = (if recompute \<and> dp_days p \<noteq> [] then recompute_days (dp_days p) db1 else (0, db1))
               in Inr (\<lparr>dp_counts = dp_counts p, dp_days = dp_days p, dp_digest = dp_digest p, dr_recomputed = n\<rparr>,
                    db2\<lparr>db_audit := audit_record actor ''admin_data_delete'' (Some (deletion_subject c))
                                  (deletion_detail c p n) now None (db_audit db2)\<rparr>))"

section \<open>The route\<close>

record deletion_request =
  dq_criteria :: deletion_criteria
  dq_digest :: "string option"
  dq_recompute :: bool

record deletion_response =
  ds_executed :: bool
  ds_counts :: "(string \<times> nat) list"
  ds_days :: "string list"
  ds_digest :: string
  ds_recomputed :: nat

definition delete_data ::
  "(canonical \<Rightarrow> string) \<Rightarrow> dialect \<Rightarrow> deletion_request \<Rightarrow> bool \<Rightarrow> string \<Rightarrow> int
   \<Rightarrow> 'a rollup_db_scheme \<Rightarrow> deletion_error + deletion_response \<times> 'a rollup_db_scheme" where
  "delete_data sha d q dry_run label now db =
     (if dry_run
      then (case preview_deletion sha d (dq_criteria q) db of
              Inl e \<Rightarrow> Inl e
            | Inr p \<Rightarrow> Inr (\<lparr>ds_executed = False, ds_counts = dp_counts p, ds_days = map iso_date (dp_days p),
                             ds_digest = dp_digest p, ds_recomputed = 0\<rparr>, db))
      else case resolve_retention_policy (db_settings db) of
             Inl e \<Rightarrow> Inl (Policy_Error e)
           | Inr policy \<Rightarrow>
               if rp_legal_hold policy then Inl Legal_Hold
               else (case dq_digest q of
                       None \<Rightarrow> Inl Digest_Required
                     | Some expected \<Rightarrow>
                         (case execute_deletion sha d (dq_criteria q) expected (Some label) now (dq_recompute q) db of
                            Inl e \<Rightarrow> Inl e
                          | Inr (r, db') \<Rightarrow> Inr (\<lparr>ds_executed = True, ds_counts = dp_counts r, ds_days = map iso_date (dp_days r),
                              ds_digest = dp_digest r, ds_recomputed = dr_recomputed r\<rparr>, db'))))"

text \<open>The state after a request: a refused one is rolled back.\<close>

definition after_deletion ::
  "(canonical \<Rightarrow> string) \<Rightarrow> dialect \<Rightarrow> deletion_request \<Rightarrow> bool \<Rightarrow> string \<Rightarrow> int \<Rightarrow> 'a rollup_db_scheme \<Rightarrow> 'a rollup_db_scheme" where
  "after_deletion sha d q dry_run label now db =
     (case delete_data sha d q dry_run label now db of Inl _ \<Rightarrow> db | Inr (_, db') \<Rightarrow> db')"

end
