(* ===== verification/Deletion_Laws.thy ===== *)
theory Deletion_Laws
  imports Deletion Rollup_Laws
begin

text \<open>
  The laws of administrative deletion: what a confirmed run removes and recomputes, when it may run, and what its
  digest does not see.
\<close>

lemma aggregate_day_audit [simp]:
  "aggregate_day (db\<lparr>db_audit := es\<rparr>) day roots = aggregate_day (db :: 'a rollup_db_scheme) day roots"
proof -
  have "join_cost (db\<lparr>db_audit := es\<rparr>) = join_cost db" by (simp add: join_cost_def fun_eq_iff)
  moreover have "raw_grain (db\<lparr>db_audit := es\<rparr>) = raw_grain db"
    by (simp add: raw_grain_def source_name_def fun_eq_iff split: option.split)
  ultimately show ?thesis by (simp add: aggregate_day_def merged_groups_def day_rows_def)
qed

lemma recompute_days_rows:
  fixes db :: "'a rollup_db_scheme"
  assumes "distinct days" and "distinct (map ro_key (rd_rollups db))"
  shows "snd (recompute_days days db) = db\<lparr>rd_rollups := filter (\<lambda>q. ro_day q \<notin> set days) (rd_rollups db)
      @ concat (map (\<lambda>d. aggregate_day db d DEFAULT_ROOTS) days)\<rparr>"
proof -
  let ?kept = "filter (\<lambda>q. ro_day q \<notin> set days) (rd_rollups db)"
  have "distinct (map ro_key ?kept)" using assms(2) by (rule distinct_map_filter)
  then show ?thesis unfolding recompute_days_def by (subst refresh_days [OF assms(1)]) auto
qed

lemma distinct_span [simp]: "distinct (matched_days es)"
  by (simp add: matched_days_def Let_def)

lemma event_in_matched_days: "r \<in> set es \<Longrightarrow> utc_date (lg_ts_started r) \<in> set (matched_days es)"
proof -
  assume r: "r \<in> set es"
  then have "lg_ts_started r \<in> lg_ts_started ` set es" by blast
  then have "Min (lg_ts_started ` set es) \<le> lg_ts_started r" "lg_ts_started r \<le> Max (lg_ts_started ` set es)" by auto
  then have "utc_date (Min (lg_ts_started ` set es)) \<le> utc_date (lg_ts_started r)"
    "utc_date (lg_ts_started r) \<le> utc_date (Max (lg_ts_started ` set es))"
    unfolding utc_date_def by (simp_all add: zdiv_mono1)
  then show ?thesis using r by (auto simp: matched_days_def Let_def)
qed

lemma execute_deletion_cases:
  assumes "execute_deletion sha d c expected actor now recompute db = Inr (res, db')"
  obtains n db2 where "\<not> criteria_empty c" "expected = deletion_digest sha c (deletion_counts d c db)"
    and "(n, db2) = (if recompute \<and> matched_days (matched_events d c db) \<noteq> []
          then recompute_days (matched_days (matched_events d c db)) (erase_events d c db) else (0, erase_events d c db))"
    and "res = \<lparr>dp_counts = deletion_counts d c db, dp_days = matched_days (matched_events d c db), dp_digest = expected,
          dr_recomputed = n\<rparr>"
    and "db' = db2\<lparr>db_audit := db_audit db2 @ [\<lparr>au_actor = actor, au_action = ''admin_data_delete'',
          au_subject = Some (deletion_subject c), au_detail = deletion_detail c \<lparr>dp_counts = deletion_counts d c db,
            dp_days = matched_days (matched_events d c db), dp_digest = expected\<rparr> n, au_ts = now, au_request_id = None\<rparr>]\<rparr>"
  using assms that
  by (auto simp: execute_deletion_def preview_deletion_def audit_record_def Let_def split: if_splits prod.splits)

section \<open>What a confirmed run does\<close>

lemma deletion_state:
  fixes db :: "'a rollup_db_scheme"
  assumes run: "execute_deletion sha d c expected actor now recompute db = Inr (res, db')"
    and keys: "distinct (map ro_key (rd_rollups db))"
  defines "days \<equiv> matched_days (matched_events d c db)" and "db1 \<equiv> erase_events d c db"
  obtains entry where "dp_counts res = deletion_counts d c db" "dp_days res = days"
    and "au_actor entry = actor" "au_ts entry = now"
    and "db' = db1\<lparr>rd_rollups := if recompute \<and> days \<noteq> [] then filter (\<lambda>q. ro_day q \<notin> set days) (rd_rollups db)
          @ concat (map (\<lambda>day. aggregate_day db1 day DEFAULT_ROOTS) days) else rd_rollups db\<rparr>
        \<lparr>db_audit := db_audit db @ [entry]\<rparr>"
proof (rule execute_deletion_cases [OF run], goal_cases)
  case (1 n db2)
  have k1: "distinct (map ro_key (rd_rollups db1))" using keys by (simp add: db1_def erase_events_def Let_def)
  have rolled: "snd (recompute_days days db1) = db1\<lparr>rd_rollups := filter (\<lambda>q. ro_day q \<notin> set days) (rd_rollups db)
      @ concat (map (\<lambda>day. aggregate_day db1 day DEFAULT_ROOTS) days)\<rparr>"
    unfolding days_def recompute_days_rows [OF distinct_span k1] by (simp add: db1_def erase_events_def Let_def)
  have same: "db1\<lparr>rd_rollups := rd_rollups db\<rparr> = db1" by (simp add: db1_def erase_events_def Let_def)
  have "(n, db2) = (if recompute \<and> days \<noteq> [] then recompute_days days db1 else (0, db1))"
    using 1(4) unfolding days_def db1_def .
  from arg_cong [OF this, of snd]
  have "db2 = db1\<lparr>rd_rollups := if recompute \<and> days \<noteq> [] then filter (\<lambda>q. ro_day q \<notin> set days) (rd_rollups db)
          @ concat (map (\<lambda>day. aggregate_day db1 day DEFAULT_ROOTS) days) else rd_rollups db\<rparr>"
    using rolled same by (cases "recompute \<and> days \<noteq> []") simp_all
  moreover have "db_audit db1 = db_audit db" by (simp add: db1_def erase_events_def Let_def)
  ultimately show thesis using 1(5,6) by (intro that) (simp_all add: days_def)
qed

lemma concat_on_day:
  "distinct days \<Longrightarrow> filter (\<lambda>q. ro_day q = day) (concat (map (\<lambda>day. aggregate_day db day roots) days))
      = (if day \<in> set days then aggregate_day db day roots else [])"
proof (induction days)
  case (Cons x days)
  have "filter (\<lambda>q. ro_day q = day) (aggregate_day db x roots) = (if x = day then aggregate_day db x roots else [])"
    using aggregate_day_rows [of _ db x roots] by (auto simp: filter_id_conv filter_empty_conv)
  with Cons show ?case by auto
qed simp

text \<open>
  C28. A confirmed deletion removes exactly the events that match, with their costs, units and revisions, and leaves
  every other row of these tables in place; the counts it reports are the numbers of rows removed. When it
  recomputes, every affected day has exactly the rollup rows aggregated from the ledger that is left, the rows of
  all other days stay, and the day of every removed event is affected. One audit entry is added, and cards, settings
  and sources are untouched.
\<close>

theorem deletion_exact:
  fixes db :: "'a rollup_db_scheme"
  assumes run: "execute_deletion sha d c expected actor now recompute db = Inr (res, db')"
    and keys: "distinct (map ro_key (rd_rollups db))"
  shows "let gone = matched_events d c db in
    lb_events (cd_ledger db') = filter (\<lambda>r. \<not> deletion_matches d (st_rows (cd_sources db)) c r) (lb_events (cd_ledger db))
    \<and> cd_costs db' = filter (\<lambda>q. cost_key q \<notin> row_key ` set gone) (cd_costs db)
    \<and> lb_units (cd_ledger db') = filter (\<lambda>u. event_unit_key u \<notin> row_key ` set gone) (lb_units (cd_ledger db))
    \<and> lb_revisions (cd_ledger db') = filter (\<lambda>r. revision_key r \<notin> row_key ` set gone) (lb_revisions (cd_ledger db))
    \<and> map snd (dp_counts res) =
        [length (lb_events (cd_ledger db)) - length (lb_events (cd_ledger db')), length (cd_costs db) - length (cd_costs db'),
         length (lb_units (cd_ledger db)) - length (lb_units (cd_ledger db')),
         length (lb_revisions (cd_ledger db)) - length (lb_revisions (cd_ledger db'))]
    \<and> (\<forall>r \<in> set gone. utc_date (lg_ts_started r) \<in> set (dp_days res))
    \<and> filter (\<lambda>q. ro_day q \<notin> set (dp_days res)) (rd_rollups db') = filter (\<lambda>q. ro_day q \<notin> set (dp_days res)) (rd_rollups db)
    \<and> (recompute \<longrightarrow> (\<forall>day \<in> set (dp_days res). filter (\<lambda>q. ro_day q = day) (rd_rollups db') = aggregate_day db' day DEFAULT_ROOTS))
    \<and> (\<not> recompute \<longrightarrow> rd_rollups db' = rd_rollups db)
    \<and> (\<exists>entry. db_audit db' = db_audit db @ [entry] \<and> au_actor entry = actor \<and> au_ts entry = now)
    \<and> db_cards db' = db_cards db \<and> db_settings db' = db_settings db \<and> cd_sources db' = cd_sources db"
proof -
  let ?gone = "matched_events d c db" and ?db1 = "erase_events d c db"
  let ?days = "matched_days ?gone"
  let ?rows = "if recompute \<and> ?days \<noteq> [] then filter (\<lambda>q. ro_day q \<notin> set ?days) (rd_rollups db)
      @ concat (map (\<lambda>day. aggregate_day ?db1 day DEFAULT_ROOTS) ?days) else rd_rollups db"
  obtain entry where res: "dp_counts res = deletion_counts d c db" "dp_days res = ?days"
    and entry: "au_actor entry = actor" "au_ts entry = now"
    and e: "db' = ?db1\<lparr>rd_rollups := ?rows\<rparr>\<lparr>db_audit := db_audit db @ [entry]\<rparr>"
    by (rule deletion_state [OF run keys])
  have frame: "lb_events (cd_ledger db') = filter (\<lambda>r. \<not> deletion_matches d (st_rows (cd_sources db)) c r) (lb_events (cd_ledger db))"
    "cd_costs db' = filter (\<lambda>q. cost_key q \<notin> row_key ` set ?gone) (cd_costs db)"
    "lb_units (cd_ledger db') = filter (\<lambda>u. event_unit_key u \<notin> row_key ` set ?gone) (lb_units (cd_ledger db))"
    "lb_revisions (cd_ledger db') = filter (\<lambda>r. revision_key r \<notin> row_key ` set ?gone) (lb_revisions (cd_ledger db))"
    "rd_rollups db' = ?rows" "db_audit db' = db_audit db @ [entry]"
    "db_cards db' = db_cards db" "db_settings db' = db_settings db" "cd_sources db' = cd_sources db"
    unfolding e by (simp_all add: erase_events_def Let_def)
  have len: "length (filter P xs) = length xs - length (filter (\<lambda>x. \<not> P x) xs)" for P :: "'b \<Rightarrow> bool" and xs
    by (induction xs) (auto simp: Suc_diff_le)
  have agg: "aggregate_day db' day DEFAULT_ROOTS = aggregate_day ?db1 day DEFAULT_ROOTS" for day unfolding e by simp
  have counts: "map snd (dp_counts res) =
        [length (lb_events (cd_ledger db)) - length (lb_events (cd_ledger db')), length (cd_costs db) - length (cd_costs db'),
         length (lb_units (cd_ledger db)) - length (lb_units (cd_ledger db')),
         length (lb_revisions (cd_ledger db)) - length (lb_revisions (cd_ledger db'))]"
    unfolding res(1) frame(1-4) deletion_counts_def Let_def
    by (simp add: matched_events_def len [of "deletion_matches d (st_rows (cd_sources db)) c"] len [of "\<lambda>q. cost_key q \<in> _"]
      len [of "\<lambda>u. event_unit_key u \<in> _"] len [of "\<lambda>r. revision_key r \<in> _"])
  have outside: "filter (\<lambda>q. ro_day q \<notin> set (dp_days res)) (rd_rollups db') = filter (\<lambda>q. ro_day q \<notin> set (dp_days res)) (rd_rollups db)"
    using aggregate_day_rows unfolding frame(5) res(2) by (auto simp: filter_empty_conv)
  have inside: "filter (\<lambda>q. ro_day q = day) (rd_rollups db') = aggregate_day db' day DEFAULT_ROOTS"
    if "recompute" "day \<in> set (dp_days res)" for day
  proof -
    have "filter (\<lambda>q. ro_day q = day) (filter (\<lambda>q. ro_day q \<notin> set ?days) (rd_rollups db)) = []"
      using that res(2) by (auto simp: filter_empty_conv)
    then show ?thesis using that concat_on_day [OF distinct_span, of day ?db1 DEFAULT_ROOTS ?gone] unfolding frame(5) agg res(2) by (auto simp del: filter_filter)
  qed
  have none: "rd_rollups db' = rd_rollups db" if "\<not> recompute" using that by (simp add: frame(5))
  have days: "\<forall>r \<in> set ?gone. utc_date (lg_ts_started r) \<in> set (dp_days res)" using event_in_matched_days by (simp add: res(2))
  show ?thesis unfolding Let_def using frame counts outside inside none days entry by blast
qed

section \<open>When it may run\<close>

text \<open>
  C29. The route changes the state only for a confirmed request, with some criterion, while no legal hold is set, and with the
  digest a dry run over the present state answers; then the dry run's counts and days are the ones the
  confirmed run reports. And a confirmation with that digest is never refused.
\<close>

theorem deletion_guarded:
  "(after_deletion sha d q dry_run label now db \<noteq> db \<longrightarrow>
      \<not> dry_run \<and> (\<exists>policy. resolve_retention_policy (db_settings db) = Inr policy \<and> \<not> rp_legal_hold policy)
    \<and> (\<exists>p. preview_deletion sha d (dq_criteria q) db = Inr p \<and> dq_digest q = Some (dp_digest p)
        \<and> (\<exists>r db'. delete_data sha d q dry_run label now db = Inr (r, db') \<and> ds_executed r
            \<and> ds_counts r = dp_counts p \<and> ds_days r = map iso_date (dp_days p))))
   \<and> (\<forall>p policy. preview_deletion sha d (dq_criteria q) db = Inr p \<and> dq_digest q = Some (dp_digest p)
        \<and> resolve_retention_policy (db_settings db) = Inr policy \<and> \<not> rp_legal_hold policy
      \<longrightarrow> (\<exists>r db'. delete_data sha d q False label now db = Inr (r, db')))"
proof (intro conjI allI impI, goal_cases)
  case 1
  then show ?case
    by (cases "dry_run") (simp add: after_deletion_def delete_data_def split: sum.splits,
      auto simp: after_deletion_def delete_data_def split: sum.splits)
next
  case 2
  then show ?case
    by (auto simp: after_deletion_def delete_data_def execute_deletion_def Let_def
      split: sum.splits if_splits option.splits prod.splits)
next
  case 3
  then show ?case
    by (auto simp: after_deletion_def delete_data_def execute_deletion_def Let_def
      split: sum.splits if_splits option.splits prod.splits)
next
  case (4 p policy)
  then show ?case
    by (auto simp: delete_data_def execute_deletion_def Let_def split: sum.splits prod.splits)
qed

section \<open>What the digest does not see\<close>

text \<open>
  The digest covers the criteria and the four counts only: when the ledger has changed since the dry run but the
  counts are the same, the confirmation is accepted, and the events that go are the ones that match now, whatever
  the dry run had matched.
\<close>

theorem digest_sees_counts_only:
  fixes db :: "'a rollup_db_scheme"
  assumes "preview_deletion sha d c old = Inr p" and "deletion_counts d c db = deletion_counts d c old"
  shows "\<exists>res db'. execute_deletion sha d c (dp_digest p) actor now recompute db = Inr (res, db')
    \<and> lb_events (cd_ledger db') = filter (\<lambda>r. \<not> deletion_matches d (st_rows (cd_sources db)) c r) (lb_events (cd_ledger db))"
proof -
  have "\<exists>res db'. execute_deletion sha d c (dp_digest p) actor now recompute db = Inr (res, db')"
    using assms by (auto simp: execute_deletion_def preview_deletion_def Let_def split: if_splits prod.splits)
  then obtain res db' where run: "execute_deletion sha d c (dp_digest p) actor now recompute db = Inr (res, db')" by blast
  have frame: "cd_ledger (snd (refresh_rollups_for_days days roots x)) = cd_ledger x" for days roots and x :: "'a rollup_db_scheme"
    by (induction days arbitrary: x) (simp_all add: Let_def case_prod_unfold)
  from run obtain n db2 where two: "(n, db2) = (if recompute \<and> matched_days (matched_events d c db) \<noteq> []
      then recompute_days (matched_days (matched_events d c db)) (erase_events d c db) else (0, erase_events d c db))"
    and db': "cd_ledger db' = cd_ledger db2"
    by (rule execute_deletion_cases) auto
  have "cd_ledger db2 = cd_ledger (erase_events d c db)"
    using arg_cong [OF two, of snd] by (cases "recompute \<and> matched_days (matched_events d c db) \<noteq> []")
      (simp_all add: recompute_days_def frame)
  then show ?thesis using run db' by (auto simp: erase_events_def Let_def)
qed

text \<open>
  Recomputing an affected day is not confined to the deleted usage: a day between the first and the last match that has
  no final attempt left in the ledger has no rollup row at all afterwards, even when its rows had been imported, or
  had outlived events that retention removed, and none of its usage matched.
\<close>

theorem deletion_empties_days:
  fixes db :: "'a rollup_db_scheme"
  assumes "execute_deletion sha d c expected actor now True db = Inr (res, db')"
    and "distinct (map ro_key (rd_rollups db))"
    and "day \<in> set (matched_days (matched_events d c db))" and "day_events db day = []"
  shows "filter (\<lambda>q. ro_day q = day) (rd_rollups db') = []"
proof -
  let ?days = "matched_days (matched_events d c db)" and ?db1 = "erase_events d c db"
  obtain n db2 where two: "(n, db2) = recompute_days ?days ?db1" and db': "rd_rollups db' = rd_rollups db2"
  proof (rule execute_deletion_cases [OF assms(1)], goal_cases)
    case (1 n db2)
    have "matched_days (matched_events d c db) \<noteq> []" using assms(3) by auto
    then show thesis using 1(4,6) by (intro that [of n db2]) simp_all
  qed
  have k1: "distinct (map ro_key (rd_rollups ?db1))" using assms(2) by (simp add: erase_events_def Let_def)
  have rows: "rd_rollups db' = filter (\<lambda>q. ro_day q \<notin> set ?days) (rd_rollups db) @ concat (map (\<lambda>x. aggregate_day ?db1 x DEFAULT_ROOTS) ?days)"
    using arg_cong [OF two, of snd] db' unfolding recompute_days_rows [OF distinct_span k1] by (simp add: erase_events_def Let_def)
  have "day_events ?db1 day = []" using assms(4) by (auto simp: day_events_def erase_events_def Let_def filter_empty_conv)
  then have "day_rows ?db1 day = []" by (auto simp: day_rows_def day_events_def in_day_def utc_date_window filter_empty_conv)
  then have "aggregate_day ?db1 day DEFAULT_ROOTS = []" by (rule no_rows_no_rollups)
  then show ?thesis unfolding rows using assms(3) aggregate_day_rows [of _ ?db1 _ DEFAULT_ROOTS]
    by (fastforce simp: filter_empty_conv)
qed

text \<open>
  On SQLite the offset of a time criterion is dropped: with only a start time, an event matches when it is not
  earlier than the start's wall-clock time read as UTC. So a start with a positive offset misses the events of that
  many microseconds after it, and one with a negative offset also takes events from before it.
\<close>

theorem sqlite_criteria_lose_offset:
  "(deletion_matches SQLite sources \<lparr>dc_source = None, dc_machine = None, dc_project = None, dc_start = Some t, dc_end = None\<rparr> r
     \<longleftrightarrow> dt_instant t + dt_offset t \<le> lg_ts_started r)
   \<and> (deletion_matches Postgres sources \<lparr>dc_source = None, dc_machine = None, dc_project = None, dc_start = Some t, dc_end = None\<rparr> r
     \<longleftrightarrow> dt_instant t \<le> lg_ts_started r)"
  by (simp_all add: deletion_matches_def bound_time_def store_sqlite_def)

section \<open>Witnesses\<close>

definition from_epoch :: deletion_criteria where
  "from_epoch = \<lparr>dc_source = None, dc_machine = None, dc_project = None, dc_start = Some (as_utc_dt (- 1)), dc_end = None\<rparr>"

lemma sample_matches:
  assumes "r \<in> set (lb_events (cd_ledger (sample_rollup_db [] rows)))"
  shows "deletion_matches d sources from_epoch r"
proof -
  have "r \<in> set (day_events (sample_rollup_db [] rows) 0)"
    using assms unfolding sample_day_events by (simp add: sample_rollup_db_def)
  then have "0 \<le> lg_ts_started r" by (simp add: day_events_def utc_date_window)
  then show ?thesis by (cases d) (simp_all add: deletion_matches_def from_epoch_def bound_time_def store_sqlite_def as_utc_dt_def)
qed

lemma sample_run:
  "\<exists>res db'. execute_deletion (\<lambda>_. []) d from_epoch [] actor now recompute db = Inr (res, db')"
  by (simp add: execute_deletion_def preview_deletion_def criteria_empty_def from_epoch_def deletion_digest_def Let_def split: prod.split)

theorem deletion_exact_witness:
  "\<exists>res db'. execute_deletion (\<lambda>_. []) SQLite from_epoch [] None 0 True (sample_rollup_db [] []) = Inr (res, db')
    \<and> lb_events (cd_ledger db') = []"
proof -
  obtain res db' where run: "execute_deletion (\<lambda>_. []) SQLite from_epoch [] None 0 True (sample_rollup_db [] []) = Inr (res, db')"
    using sample_run by blast
  have "distinct (map ro_key (rd_rollups (sample_rollup_db [] [])))" by (simp add: sample_rollup_db_def)
  from deletion_exact [OF run this] show ?thesis
    using run sample_matches [of _ "[]"] unfolding Let_def by (auto simp: filter_empty_conv)
qed

theorem deletion_guarded_witness:
  "after_deletion (\<lambda>_. []) SQLite \<lparr>dq_criteria = from_epoch, dq_digest = None, dq_recompute = True\<rparr> False [] 0 (sample_rollup_db [] [])
     = sample_rollup_db [] []"
  using deletion_guarded [of "\<lambda>_. []" SQLite "\<lparr>dq_criteria = from_epoch, dq_digest = None, dq_recompute = True\<rparr>" False "[]" 0
      "sample_rollup_db [] []"] by auto

definition renamed_db :: rollup_db where
  "renamed_db = (sample_rollup_db [] [])\<lparr>cd_ledger := empty_ledger\<lparr>lb_events :=
     [(usage_event_v2_row (sample_event Final 0 5) None None)\<lparr>lg_event_id := ''e2''\<rparr>]\<rparr>\<rparr>"

theorem digest_sees_counts_only_witness:
  "\<exists>p res db'. preview_deletion (concat \<circ> map fst \<circ> snd) SQLite from_epoch (sample_rollup_db [] []) = Inr p
    \<and> execute_deletion (concat \<circ> map fst \<circ> snd) SQLite from_epoch (dp_digest p) None 0 False renamed_db = Inr (res, db')
    \<and> lb_events (cd_ledger db') = []"
proof -
  obtain p where p: "preview_deletion (concat \<circ> map fst \<circ> snd) SQLite from_epoch (sample_rollup_db [] []) = Inr p"
    by (simp add: preview_deletion_def criteria_empty_def from_epoch_def Let_def)
  have e: "deletion_matches SQLite sources from_epoch (usage_event_v2_row (sample_event Final 0 5) None None)" for sources
    by (rule sample_matches [of _ "[]"]) (simp add: sample_rollup_db_def)
  then have e2: "deletion_matches SQLite sources from_epoch ((usage_event_v2_row (sample_event Final 0 5) None None)\<lparr>lg_event_id := ''e2''\<rparr>)" for sources
    by (simp add: deletion_matches_def from_epoch_def)
  have "deletion_counts SQLite from_epoch renamed_db = deletion_counts SQLite from_epoch (sample_rollup_db [] [])"
    using e e2 by (simp add: deletion_counts_def matched_events_def renamed_db_def sample_rollup_db_def empty_ledger_def Let_def)
  from digest_sees_counts_only [OF p this, of None 0 False] show ?thesis using p e2
    by (auto simp: renamed_db_def)
qed

definition imported_only_db :: rollup_db where
  "imported_only_db = (sample_rollup_db [] [(hd (aggregate_day (sample_rollup_db [] []) 0 DEFAULT_ROOTS))\<lparr>ro_provenance := ''imported'', ro_day := 0\<rparr>])
     \<lparr>cd_ledger := empty_ledger\<lparr>lb_events := [(usage_event_v2_row (sample_event Final 0 5) None None)\<lparr>lg_finality := ''snapshot''\<rparr>]\<rparr>\<rparr>"

theorem deletion_empties_days_witness:
  "\<exists>res db'. execute_deletion (\<lambda>_. []) SQLite from_epoch [] None 0 True imported_only_db = Inr (res, db')
    \<and> rd_rollups imported_only_db \<noteq> [] \<and> filter (\<lambda>q. ro_day q = 0) (rd_rollups db') = []"
proof -
  let ?e = "(usage_event_v2_row (sample_event Final 0 5) None None)\<lparr>lg_finality := ''snapshot''\<rparr>"
  obtain res db' where run: "execute_deletion (\<lambda>_. []) SQLite from_epoch [] None 0 True imported_only_db = Inr (res, db')"
    using sample_run by blast
  have m: "matched_events SQLite from_epoch imported_only_db = [?e]"
    using sample_matches [of "usage_event_v2_row (sample_event Final 0 5) None None" "[]" SQLite]
    by (simp add: matched_events_def imported_only_db_def sample_rollup_db_def deletion_matches_def from_epoch_def)
  have "utc_date (lg_ts_started ?e) = 0" using sample_day_events [of "[]" "[]"]
    by (simp add: usage_event_v2_row_def sample_event_def utc_date_def as_utc_dt_def)
  then have "0 \<in> set (matched_days (matched_events SQLite from_epoch imported_only_db))" by (simp add: m matched_days_def Let_def)
  moreover have "day_events imported_only_db 0 = []"
    by (simp add: day_events_def imported_only_db_def is_final_attempt_def)
  moreover have "distinct (map ro_key (rd_rollups imported_only_db))" "rd_rollups imported_only_db \<noteq> []"
    by (simp_all add: imported_only_db_def sample_rollup_db_def)
  ultimately show ?thesis using deletion_empties_days [OF run] run by blast
qed

end
