(* ===== verification/Query_Framework.thy ===== *)
theory Query_Framework
  imports Repricing Retention_Worker Limit_Analytics
begin

text \<open>
  \<open>services/query_framework.py\<close>: sort and grain parameters, the bound on time ranges, keyset pagination with opaque
  cursors and the warnings of a range; the parameters of the listings of \<open>services/resource_queries.py\<close>. The
  base64 text of a cursor and the ISO rendering of its time are parameters (a codec).
\<close>

datatype query_error =
    Bad_Sort string | Bad_Grain string | Range_Reversed | Range_Too_Wide int | Bad_Cursor | Bad_Session_Id
  | Cursor_Value_Error

section \<open>Sorting and grain\<close>

record sort_spec =
  ss_field :: string
  ss_descending :: bool

definition parse_sort :: "string option \<Rightarrow> string set \<Rightarrow> string \<Rightarrow> query_error + sort_spec" where
  "parse_sort raw allowed dflt =
     (let v = (case raw of None \<Rightarrow> dflt | Some s \<Rightarrow> if s = [] then dflt else s);
          descending = (take 1 v = ''-'');
          field = (if descending then drop 1 v else v)
      in if field \<notin> allowed then Inl (Bad_Sort field) else Inr \<lparr>ss_field = field, ss_descending = descending\<rparr>)"

datatype grain = Day_Grain | Week_Grain | Month_Grain

fun grain_value :: "grain \<Rightarrow> string" where
  "grain_value Day_Grain = ''day''"
| "grain_value Week_Grain = ''week''"
| "grain_value Month_Grain = ''month''"

definition parse_grain :: "string option \<Rightarrow> grain \<Rightarrow> query_error + grain" where
  "parse_grain raw dflt =
     (case raw of None \<Rightarrow> Inr dflt
      | Some s \<Rightarrow> if s = [] then Inr dflt
          else (case find (\<lambda>g. grain_value g = s) [Day_Grain, Week_Grain, Month_Grain] of
                  None \<Rightarrow> Inl (Bad_Grain s) | Some g \<Rightarrow> Inr g))"

text \<open>Monday is 0; the epoch was a Thursday.\<close>

definition weekday :: "date \<Rightarrow> int" where
  "weekday d = (d + 3) mod 7"

definition day_of_month :: "date \<Rightarrow> int" where
  "day_of_month d = (case ymd_of_ordinal (d + EPOCH_ORDINAL) of (_, _, k) \<Rightarrow> k)"

fun truncate_to_grain :: "date \<Rightarrow> grain \<Rightarrow> date" where
  "truncate_to_grain d Day_Grain = d"
| "truncate_to_grain d Week_Grain = d - weekday d"
| "truncate_to_grain d Month_Grain = d - (day_of_month d - 1)"

definition enforce_range_bound :: "int \<Rightarrow> int \<Rightarrow> int \<Rightarrow> query_error option" where
  "enforce_range_bound start finish max_days =
     (if finish < start then Some Range_Reversed
      else if finish - start > max_days * DAY_US then Some (Range_Too_Wide max_days) else None)"

section \<open>Keyset pagination\<close>

record cursor_codec =
  cu_dump :: "json \<times> json \<Rightarrow> string"
  cu_load :: "string \<Rightarrow> (json \<times> json) option"

definition encode_cursor :: "cursor_codec \<Rightarrow> json \<Rightarrow> json \<Rightarrow> string" where
  "encode_cursor cu sort_value row_id = cu_dump cu (sort_value, row_id)"

fun int_or_str :: "json \<Rightarrow> bool" where
  "int_or_str (JInt _) = True"
| "int_or_str (JBool _) = True"
| "int_or_str (JStr _) = True"
| "int_or_str _ = False"

definition decode_cursor :: "cursor_codec \<Rightarrow> string \<Rightarrow> query_error + json \<times> json" where
  "decode_cursor cu cursor =
     (case cu_load cu cursor of
        None \<Rightarrow> Inl Bad_Cursor
      | Some (v, row_id) \<Rightarrow> if int_or_str row_id then Inr (v, row_id) else Inl Bad_Cursor)"

definition keyset_condition :: "bool \<Rightarrow> int \<times> 'i::linorder \<Rightarrow> int \<times> 'i \<Rightarrow> bool" where
  "keyset_condition descending c k =
     (if descending then fst k < fst c \<or> fst k = fst c \<and> snd k < snd c
      else fst c < fst k \<or> fst k = fst c \<and> snd c < snd k)"

record 'r page =
  pg_items :: "'r list"
  pg_next :: "string option"

definition build_page :: "'r list \<Rightarrow> nat \<Rightarrow> ('r \<Rightarrow> string) \<Rightarrow> 'r page" where
  "build_page rows limit cursor_of =
     (let items = take limit rows
      in \<lparr>pg_items = items, pg_next = (if limit < length rows \<and> items \<noteq> [] then Some (cursor_of (last items)) else None)\<rparr>)"

text \<open>
  What a keyset listing fixes: its sort column and tiebreaker, the direction, and how both are written to and read
  from a cursor; a value that cannot be read fails the query.
\<close>

record ('r, 'i) listing =
  ls_time :: "'r \<Rightarrow> int"
  ls_id :: "'r \<Rightarrow> 'i"
  ls_descending :: bool
  ls_time_json :: "int \<Rightarrow> json"
  ls_time_of :: "json \<Rightarrow> int option"
  ls_id_json :: "'i \<Rightarrow> json"
  ls_id_of :: "json \<Rightarrow> 'i option"

definition ls_key :: "('r, 'i) listing \<Rightarrow> 'r \<Rightarrow> int \<times> 'i" where
  "ls_key L r = (ls_time L r, ls_id L r)"

definition ordered_rows :: "('r, 'i::linorder) listing \<Rightarrow> 'r list \<Rightarrow> 'r list" where
  "ordered_rows L rows =
     (let asc = sort_key (ls_time L) (sort_key (ls_id L) rows) in if ls_descending L then rev asc else asc)"

definition read_cursor :: "cursor_codec \<Rightarrow> ('r, 'i) listing \<Rightarrow> string option \<Rightarrow> query_error + (int \<times> 'i) option" where
  "read_cursor cu L cursor =
     (case cursor of
        None \<Rightarrow> Inr None
      | Some s \<Rightarrow>
          (case decode_cursor cu s of
             Inl e \<Rightarrow> Inl e
           | Inr (v, row_id) \<Rightarrow>
               (case (ls_time_of L v, ls_id_of L row_id) of
                  (Some t, Some i) \<Rightarrow> Inr (Some (t, i)) | _ \<Rightarrow> Inl Cursor_Value_Error)))"

definition list_page ::
  "cursor_codec \<Rightarrow> ('r, 'i::linorder) listing \<Rightarrow> string option \<Rightarrow> nat \<Rightarrow> 'r list \<Rightarrow> query_error + 'r page" where
  "list_page cu L cursor limit rows =
     (case read_cursor cu L cursor of
        Inl e \<Rightarrow> Inl e
      | Inr c \<Rightarrow>
          let below = (\<lambda>r. case c of None \<Rightarrow> True | Some c \<Rightarrow> keyset_condition (ls_descending L) c (ls_key L r));
              fetched = take (limit + 1) (ordered_rows L (filter below rows))
          in Inr (build_page fetched limit (\<lambda>r. encode_cursor cu (ls_time_json L (ls_time L r)) (ls_id_json L (ls_id L r)))))"

section \<open>The listings\<close>

text \<open>Newest first by time and integer id; the rendering of times is a parameter.\<close>

definition int_id_of :: "json \<Rightarrow> int option" where
  "int_id_of j = (case j of JInt i \<Rightarrow> Some i | _ \<Rightarrow> None)"

definition str_id_of :: "json \<Rightarrow> string option" where
  "str_id_of j = (case j of JStr s \<Rightarrow> Some s | _ \<Rightarrow> None)"

definition opt_eq :: "'a option \<Rightarrow> 'a \<Rightarrow> bool" where
  "opt_eq wanted v \<longleftrightarrow> (case wanted of None \<Rightarrow> True | Some w \<Rightarrow> v = w)"

definition dq_listing :: "(int \<Rightarrow> json) \<Rightarrow> (json \<Rightarrow> int option) \<Rightarrow> (dq_event, int) listing" where
  "dq_listing enc dec = \<lparr>ls_time = dq_ts, ls_id = dq_id, ls_descending = True, ls_time_json = enc, ls_time_of = dec,
     ls_id_json = JInt, ls_id_of = int_id_of\<rparr>"

definition list_data_quality ::
  "cursor_codec \<Rightarrow> (int \<Rightarrow> json) \<Rightarrow> (json \<Rightarrow> int option) \<Rightarrow> string option \<Rightarrow> string option \<Rightarrow> string option \<Rightarrow> bool option
   \<Rightarrow> string option \<Rightarrow> nat \<Rightarrow> dq_event list \<Rightarrow> query_error + dq_event page" where
  "list_data_quality cu enc dec kind subject source resolved cursor limit rows =
     list_page cu (dq_listing enc dec) cursor limit
       (filter (\<lambda>r. opt_eq kind (dq_kind r) \<and> opt_eq subject (dq_subject r) \<and> opt_eq (map_option Some source) (dq_source_id r)
          \<and> opt_eq resolved (dq_resolved r)) rows)"

text \<open>Limit snapshots and rollup rows are listed with their position, which stands for their primary key.\<close>

definition limit_listing :: "(int \<Rightarrow> json) \<Rightarrow> (json \<Rightarrow> int option) \<Rightarrow> (nat \<times> limit_row, int) listing" where
  "limit_listing enc dec = \<lparr>ls_time = stored_order \<circ> li_ts \<circ> snd, ls_id = int \<circ> fst, ls_descending = True, ls_time_json = enc,
     ls_time_of = dec, ls_id_json = JInt, ls_id_of = int_id_of\<rparr>"

definition list_limits ::
  "cursor_codec \<Rightarrow> (int \<Rightarrow> json) \<Rightarrow> (json \<Rightarrow> int option) \<Rightarrow> int \<Rightarrow> int \<Rightarrow> string option \<Rightarrow> string option \<Rightarrow> string option
   \<Rightarrow> string option \<Rightarrow> string option \<Rightarrow> nat \<Rightarrow> limit_row list \<Rightarrow> query_error + (nat \<times> limit_row) page" where
  "list_limits cu enc dec start finish provider machine window_kind provenance cursor limit rows =
     list_page cu (limit_listing enc dec) cursor limit
       (filter (\<lambda>(i, r). start \<le> stored_order (li_ts r) \<and> stored_order (li_ts r) \<le> finish \<and> opt_eq provider (li_provider r)
          \<and> opt_eq (map_option Some machine) (li_machine r) \<and> opt_eq window_kind (li_window_kind r)
          \<and> opt_eq provenance (li_provenance r)) (enumerate 0 rows))"

definition forecast_limits ::
  "int \<Rightarrow> int \<Rightarrow> string option \<Rightarrow> string option \<Rightarrow> limit_row list \<Rightarrow> forecast_error + limit_forecast list" where
  "forecast_limits start finish provider window_kind rows =
     forecast_streams (sort_key (stored_order \<circ> li_ts) (filter (\<lambda>r. start \<le> stored_order (li_ts r) \<and> stored_order (li_ts r) \<le> finish
        \<and> opt_eq provider (li_provider r) \<and> opt_eq window_kind (li_window_kind r)) rows))"

definition rollup_listing :: "(int \<Rightarrow> json) \<Rightarrow> (json \<Rightarrow> int option) \<Rightarrow> (nat \<times> rollup_row, int) listing" where
  "rollup_listing enc dec = \<lparr>ls_time = ro_day \<circ> snd, ls_id = int \<circ> fst, ls_descending = False, ls_time_json = enc,
     ls_time_of = dec, ls_id_json = JInt, ls_id_of = int_id_of\<rparr>"

definition list_rollups ::
  "cursor_codec \<Rightarrow> (int \<Rightarrow> json) \<Rightarrow> (json \<Rightarrow> int option) \<Rightarrow> date \<Rightarrow> date \<Rightarrow> string option \<Rightarrow> string option \<Rightarrow> string option
   \<Rightarrow> string option \<Rightarrow> string option \<Rightarrow> string option \<Rightarrow> string option \<Rightarrow> nat \<Rightarrow> rollup_row list
   \<Rightarrow> query_error + (nat \<times> rollup_row) page" where
  "list_rollups cu enc dec day_from day_to provider model machine source environment billing_mode cursor limit rows =
     list_page cu (rollup_listing enc dec) cursor limit
       (filter (\<lambda>(i, q). day_from \<le> ro_day q \<and> ro_day q \<le> day_to \<and> opt_eq provider (rg_provider (ro_grain q))
          \<and> opt_eq model (rg_model (ro_grain q)) \<and> opt_eq machine (rg_machine (ro_grain q))
          \<and> opt_eq source (rg_source (ro_grain q)) \<and> opt_eq environment (rg_environment (ro_grain q))
          \<and> opt_eq billing_mode (rg_billing_mode (ro_grain q))) (enumerate 0 rows))"

section \<open>Warnings\<close>

record query_warning =
  qw_kind :: string
  qw_detail :: string
  qw_count :: nat

definition count_unpriced :: "'a cost_db_scheme \<Rightarrow> int \<Rightarrow> int \<Rightarrow> nat" where
  "count_unpriced db start finish =
     length (concat (map (\<lambda>c. filter (\<lambda>r. cost_key c = row_key r \<and> start \<le> lg_ts_started r \<and> lg_ts_started r \<le> finish)
                (lb_events (cd_ledger db)))
       (filter (\<lambda>c. cc_active c \<and> cc_cost_status c \<in> {''unpriced'', ''partial''}) (cd_costs db))))"

definition count_unknown_models :: "'a cost_db_scheme \<Rightarrow> int \<Rightarrow> int \<Rightarrow> nat" where
  "count_unknown_models db start finish =
     length (filter (\<lambda>q. dq_kind q = ''unknown_model'' \<and> start \<le> dq_ts q \<and> dq_ts q \<le> finish) (dq_rows (lb_dq (cd_ledger db))))"

definition count_stale_sources :: "'a cost_db_scheme \<Rightarrow> int \<Rightarrow> nat" where
  "count_stale_sources db stale_before =
     length (filter (\<lambda>s. \<not> so_revoked s \<and> (case so_last_successful_ingest s of None \<Rightarrow> True | Some t \<Rightarrow> stored_order t < stale_before))
       (st_rows (cd_sources db)))"

definition some_count :: "string \<Rightarrow> string \<Rightarrow> nat \<Rightarrow> query_warning list" where
  "some_count kind detail n = (if n = 0 then [] else [\<lparr>qw_kind = kind, qw_detail = detail, qw_count = n\<rparr>])"

definition collect_warnings :: "'a cost_db_scheme \<Rightarrow> int \<Rightarrow> int \<Rightarrow> int option \<Rightarrow> query_warning list" where
  "collect_warnings db start finish stale_before =
     some_count ''unpriced_events'' ''range contains unpriced or partial events'' (count_unpriced db start finish)
   @ some_count ''unknown_models'' ''range contains unknown-model observations'' (count_unknown_models db start finish)
   @ (case stale_before of None \<Rightarrow> []
      | Some t \<Rightarrow> some_count ''stale_sources'' ''some sources have not ingested recently'' (count_stale_sources db t))"

definition default_stale_before :: "int \<Rightarrow> rat \<Rightarrow> rat" where
  "default_stale_before now stale_seconds = of_int now - stale_seconds * of_int SECOND_US"

end
