(* ===== verification/Query_Laws.thy ===== *)
theory Query_Laws
  imports Query_Framework
begin

text \<open>
  The laws of the query framework: what following the cursors of a keyset listing delivers, also while rows are
  inserted, and the grain buckets.
\<close>

section \<open>The interface of a keyset order\<close>

text \<open>
  What paging asks of the order behind a cursor: \<open>after c k\<close>, the key \<open>k\<close> comes strictly after the key \<open>c\<close>, is a
  strict total order.
\<close>

locale keyset_order =
  fixes after :: "'k \<Rightarrow> 'k \<Rightarrow> bool"
  assumes irrefl: "\<not> after c c"
    and trans: "after a b \<Longrightarrow> after b c \<Longrightarrow> after a c"
    and total: "a \<noteq> b \<Longrightarrow> after a b \<or> after b a"
begin

definition increasing :: "('r \<Rightarrow> 'k) \<Rightarrow> 'r list \<Rightarrow> bool" where
  "increasing key rows = sorted_wrt (\<lambda>a b. after (key a) (key b)) rows"

lemma increasing_filter: "increasing key rows \<Longrightarrow> increasing key (filter P rows)"
  by (simp add: increasing_def sorted_wrt_filter)

lemma increasing_distinct: "increasing key rows \<Longrightarrow> distinct (map key rows)"
  by (induction rows) (auto simp: increasing_def irrefl)

lemma increasing_unique:
  "increasing key xs \<Longrightarrow> increasing key ys \<Longrightarrow> set xs = set ys \<Longrightarrow> xs = ys"
proof (induction xs arbitrary: ys)
  case (Cons x xs)
  obtain y ys' where ys: "ys = y # ys'" using Cons.prems(3) by (cases ys) auto
  have x: "\<forall>z \<in> set xs. after (key x) (key z)" and y: "\<forall>z \<in> set ys'. after (key y) (key z)"
    using Cons.prems(1,2) ys by (auto simp: increasing_def)
  have "x = y"
  proof (rule ccontr)
    assume "x \<noteq> y"
    then have "y \<in> set xs" "x \<in> set ys'" using Cons.prems(3) ys by auto
    then have "after (key x) (key x)" using x y trans by blast
    then show False using irrefl by blast
  qed
  moreover have "x \<notin> set xs" "y \<notin> set ys'" using x y irrefl by auto
  then have "set xs = set ys'" using Cons.prems(3) ys \<open>x = y\<close> by (auto simp: set_eq_iff)
  then have "xs = ys'" using Cons.IH Cons.prems(1,2) ys by (auto simp: increasing_def)
  ultimately show ?case using ys by simp
qed simp

text \<open>A page is a prefix of what lies after the cursor; the rest lies after its last item.\<close>

lemma page_split:
  assumes "increasing key S" and "0 < n" and "n < length S"
  shows "take n S \<noteq> []" and "\<forall>r \<in> set S. r \<in> set (take n S) \<or> after (key (last (take n S))) (key r)"
    and "\<forall>r \<in> set (take n S). r = last (take n S) \<or> after (key r) (key (last (take n S)))"
proof -
  show ne: "take n S \<noteq> []" using assms(2,3) by (cases S) auto
  have "increasing key (take n S @ drop n S)" using assms(1) by simp
  then have "\<forall>a \<in> set (take n S). \<forall>b \<in> set (drop n S). after (key a) (key b)"
    unfolding increasing_def sorted_wrt_append by blast
  moreover have "last (take n S) \<in> set (take n S)" using ne by simp
  moreover have "set S = set (take n S) \<union> set (drop n S)" by (metis append_take_drop_id set_append)
  ultimately show "\<forall>r \<in> set S. r \<in> set (take n S) \<or> after (key (last (take n S))) (key r)" by blast
  have "increasing key (butlast (take n S) @ [last (take n S)])"
    using assms(1) ne by (simp add: increasing_def sorted_wrt_take)
  then have "\<forall>a \<in> set (butlast (take n S)). after (key a) (key (last (take n S)))"
    unfolding increasing_def sorted_wrt_append by simp
  then show "\<forall>r \<in> set (take n S). r = last (take n S) \<or> after (key r) (key (last (take n S)))"
    using ne by (metis UnE append_butlast_last_id set_append list.set(1) list.set(2) insertE empty_iff)
qed

end

interpretation newest_first: keyset_order "keyset_condition True :: int \<times> 'i::linorder \<Rightarrow> int \<times> 'i \<Rightarrow> bool"
  by unfold_locales (auto simp: keyset_condition_def)

interpretation oldest_first: keyset_order "keyset_condition False :: int \<times> 'i::linorder \<Rightarrow> int \<times> 'i \<Rightarrow> bool"
  by unfold_locales (auto simp: keyset_condition_def)

lemma keyset_any: "keyset_order (keyset_condition d :: int \<times> 'i::linorder \<Rightarrow> int \<times> 'i \<Rightarrow> bool)"
  by (cases d) (auto intro: newest_first.keyset_order_axioms oldest_first.keyset_order_axioms)

section \<open>The order of a listing\<close>

lemma sorted_lex:
  fixes f :: "'r \<Rightarrow> int" and g :: "'r \<Rightarrow> 'i::linorder"
  shows "sorted_wrt (\<lambda>a b. f a < f b \<or> f a = f b \<and> g a \<le> g b) (sort_key f (sort_key g rows))"
proof -
  let ?s = "sort_key f (sort_key g rows)"
  have stable: "filter (\<lambda>x. f x = k) ?s = filter (\<lambda>x. f x = k) (sort_key g rows)" for k by (rule sort_key_stable)
  have "?s ! i = a \<Longrightarrow> ?s ! j = b \<Longrightarrow> i < j \<Longrightarrow> j < length ?s \<Longrightarrow> f a = f b \<Longrightarrow> g a \<le> g b" for i j a b
  proof -
    assume h: "?s ! i = a" "?s ! j = b" "i < j" "j < length ?s" "f a = f b"
    have eq: "?s = take j ?s @ b # drop (Suc j) ?s" using h id_take_nth_drop [of j ?s] by simp
    have "sorted (map g (filter (\<lambda>x. f x = f a) ?s))" unfolding stable by (rule sorted_filter) simp
    moreover have "filter (\<lambda>x. f x = f a) ?s
        = filter (\<lambda>x. f x = f a) (take j ?s) @ b # filter (\<lambda>x. f x = f a) (drop (Suc j) ?s)"
      using arg_cong [OF eq, of "filter (\<lambda>x. f x = f a)"] h(5) by simp
    moreover have "a \<in> set (take j ?s)" using h by (auto simp: in_set_conv_nth)
    then have "a \<in> set (filter (\<lambda>x. f x = f a) (take j ?s))" by simp
    ultimately show "g a \<le> g b" by (simp only: map_append list.simps(9) sorted_append) auto
  qed
  moreover have "sorted (map f ?s)" by simp
  then have "i < j \<Longrightarrow> j < length ?s \<Longrightarrow> f (?s ! i) \<le> f (?s ! j)" for i j
    using sorted_nth_mono [of "map f ?s" i j] by simp
  ultimately show ?thesis unfolding sorted_wrt_iff_nth_less by (metis order.order_iff_strict)
qed

lemma sorted_wrt_strict:
  "sorted_wrt R xs \<Longrightarrow> distinct (map k xs) \<Longrightarrow> (\<And>a b. R a b \<Longrightarrow> k a \<noteq> k b \<Longrightarrow> Q a b) \<Longrightarrow> sorted_wrt Q xs"
  by (induction xs) auto

lemma ordered_increasing:
  assumes "distinct (map (ls_key L) rows)"
  shows "sorted_wrt (\<lambda>a b. keyset_condition (ls_descending L) (ls_key L a) (ls_key L b)) (ordered_rows L rows)"
    and "set (ordered_rows L rows) = set rows"
proof -
  let ?s = "sort_key (ls_time L) (sort_key (ls_id L) rows)"
  have d: "distinct (map (ls_key L) ?s)"
    using assms by (metis mset_map mset_sort mset_eq_imp_distinct_iff)
  have "sorted_wrt (\<lambda>a b. ls_time L a < ls_time L b \<or> ls_time L a = ls_time L b \<and> ls_id L a \<le> ls_id L b) ?s"
    by (rule sorted_lex)
  then have asc: "sorted_wrt (\<lambda>a b. keyset_condition False (ls_key L a) (ls_key L b)) ?s"
    using d by (rule sorted_wrt_strict) (auto simp: keyset_condition_def ls_key_def)
  have "keyset_condition True a b \<longleftrightarrow> keyset_condition False b a" for a b :: "int \<times> 'a" by (auto simp: keyset_condition_def)
  with asc show "sorted_wrt (\<lambda>a b. keyset_condition (ls_descending L) (ls_key L a) (ls_key L b)) (ordered_rows L rows)"
    by (simp add: ordered_rows_def Let_def sorted_wrt_rev)
  show "set (ordered_rows L rows) = set rows" by (simp add: ordered_rows_def Let_def)
qed

section \<open>Following the cursors\<close>

text \<open>
  A client that follows the cursors: each page is fetched from the table as it then is; the flag says whether the last
  page said that it was the last.
\<close>

fun follow ::
  "cursor_codec \<Rightarrow> ('r, 'i::linorder) listing \<Rightarrow> nat \<Rightarrow> string option \<Rightarrow> 'r list list \<Rightarrow> query_error + 'r list list \<times> bool" where
  "follow cu L limit cursor [] = Inr ([], False)"
| "follow cu L limit cursor (table # tables) =
     (case list_page cu L cursor limit table of
        Inl e \<Rightarrow> Inl e
      | Inr p \<Rightarrow>
          (case pg_next p of
             None \<Rightarrow> Inr ([pg_items p], True)
           | Some c \<Rightarrow>
               (case follow cu L limit (Some c) tables of
                  Inl e \<Rightarrow> Inl e | Inr (pages, finished) \<Rightarrow> Inr (pg_items p # pages, finished))))"

text \<open>What the codec promises of the values that a listing writes into its cursors.\<close>

definition codec_ok :: "cursor_codec \<Rightarrow> ('r, 'i) listing \<Rightarrow> bool" where
  "codec_ok cu L \<longleftrightarrow> (\<forall>v i. cu_load cu (cu_dump cu (ls_time_json L v, ls_id_json L i)) = Some (ls_time_json L v, ls_id_json L i)
     \<and> ls_time_of L (ls_time_json L v) = Some v \<and> ls_id_of L (ls_id_json L i) = Some i \<and> int_or_str (ls_id_json L i))"

definition cursor_at :: "cursor_codec \<Rightarrow> ('r, 'i) listing \<Rightarrow> (int \<times> 'i) option \<Rightarrow> string option" where
  "cursor_at cu L c = map_option (\<lambda>(v, i). encode_cursor cu (ls_time_json L v) (ls_id_json L i)) c"

definition past :: "('r, 'i::linorder) listing \<Rightarrow> (int \<times> 'i) option \<Rightarrow> 'r \<Rightarrow> bool" where
  "past L c r = (case c of None \<Rightarrow> True | Some c \<Rightarrow> keyset_condition (ls_descending L) c (ls_key L r))"

lemma read_cursor_at: "codec_ok cu L \<Longrightarrow> read_cursor cu L (cursor_at cu L c) = Inr c"
  by (auto simp: read_cursor_def cursor_at_def codec_ok_def decode_cursor_def encode_cursor_def split: option.split)

lemma list_page_at:
  assumes "codec_ok cu L"
  shows "list_page cu L (cursor_at cu L c) limit rows =
    (let S = ordered_rows L (filter (past L c) rows)
     in Inr \<lparr>pg_items = take limit S,
          pg_next = (if limit < length S \<and> take limit S \<noteq> [] then cursor_at cu L (Some (ls_key L (last (take limit S)))) else None)\<rparr>)"
proof -
  have "(\<lambda>r. case c of None \<Rightarrow> True | Some c \<Rightarrow> keyset_condition (ls_descending L) c (ls_key L r)) = past L c"
    by (simp add: past_def fun_eq_iff)
  moreover have "limit < length (take (limit + 1) S) \<longleftrightarrow> limit < length S" for S :: "'a list" by auto
  moreover have "take limit (take (limit + 1) S) = take limit S" for S :: "'a list" by (simp add: min_def)
  ultimately show ?thesis unfolding list_page_def read_cursor_at [OF assms] build_page_def Let_def sum.case
    by (simp add: cursor_at_def ls_key_def)
qed

definition listed :: "('r, 'i::linorder) listing \<Rightarrow> 'r list \<Rightarrow> bool" where
  "listed L rows \<longleftrightarrow> sorted_wrt (\<lambda>a b. keyset_condition (ls_descending L) (ls_key L a) (ls_key L b)) rows"

lemma listed_increasing: "listed L rows \<longleftrightarrow> keyset_order.increasing (keyset_condition (ls_descending L)) (ls_key L) rows"
  by (simp add: listed_def keyset_order.increasing_def [OF keyset_any])

lemma past_trans: "past L c r \<Longrightarrow> keyset_condition (ls_descending L) (ls_key L r) (ls_key L q) \<Longrightarrow> past L c q"
  by (cases c) (auto simp: past_def intro: keyset_order.trans [OF keyset_any])

lemma page_rows:
  assumes "distinct (map (ls_key L) rows)"
  shows "listed L (ordered_rows L (filter (past L c) rows))"
    and "set (ordered_rows L (filter (past L c) rows)) = {r \<in> set rows. past L c r}"
  using ordered_increasing [of L "filter (past L c) rows"] distinct_map_filter [OF assms] by (simp_all add: listed_def)

text \<open>One step of a client: the page is a listed prefix, and nothing is left between it and the next cursor.\<close>

lemma page_step:
  fixes c :: "(int \<times> 'i::linorder) option" and L :: "('r, 'i) listing"
  assumes "0 < limit" and "distinct (map (ls_key L) rows)"
  defines "S \<equiv> ordered_rows L (filter (past L c) rows)"
  shows "listed L (take limit S)" and "\<forall>r \<in> set (take limit S). r \<in> set rows \<and> past L c r"
    and "\<not> limit < length S \<Longrightarrow> set (take limit S) = {r \<in> set rows. past L c r}"
    and "limit < length S \<Longrightarrow> take limit S \<noteq> []
      \<and> (\<forall>r \<in> set rows. past L c r \<longrightarrow> r \<in> set (take limit S) \<or> past L (Some (ls_key L (last (take limit S)))) r)
      \<and> (\<forall>q. past L (Some (ls_key L (last (take limit S)))) q \<longrightarrow> past L c q
          \<and> (\<forall>r \<in> set (take limit S). keyset_condition (ls_descending L) (ls_key L r) (ls_key L q)))"
proof -
  note S = page_rows [OF assms(2), of c, folded S_def]
  show "listed L (take limit S)" using S(1) by (simp add: listed_def sorted_wrt_take)
  show 2: "\<forall>r \<in> set (take limit S). r \<in> set rows \<and> past L c r" using S(2) set_take_subset [of limit S] by auto
  show "\<not> limit < length S \<Longrightarrow> set (take limit S) = {r \<in> set rows. past L c r}" using S(2) by simp
  assume lt: "limit < length S"
  note split = keyset_order.page_split [OF keyset_any S(1) [unfolded listed_increasing] assms(1) lt]
  let ?l = "last (take limit S)"
  have l: "past L c ?l" using split(1) 2 by simp
  have here: "past L (Some (ls_key L ?l)) q \<longleftrightarrow> keyset_condition (ls_descending L) (ls_key L ?l) (ls_key L q)" for q
    by (simp add: past_def)
  have "\<forall>r \<in> set rows. past L c r \<longrightarrow> r \<in> set (take limit S) \<or> past L (Some (ls_key L ?l)) r"
    using split(2) S(2) unfolding here by blast
  moreover have "past L c q" if "past L (Some (ls_key L ?l)) q" for q
    using that past_trans [OF l] unfolding here by blast
  moreover have "keyset_condition (ls_descending L) (ls_key L r) (ls_key L q)"
    if "past L (Some (ls_key L ?l)) q" "r \<in> set (take limit S)" for q r
    using that split(3) keyset_order.trans [OF keyset_any] unfolding here by metis
  ultimately show "take limit S \<noteq> []
      \<and> (\<forall>r \<in> set rows. past L c r \<longrightarrow> r \<in> set (take limit S) \<or> past L (Some (ls_key L (last (take limit S)))) r)
      \<and> (\<forall>q. past L (Some (ls_key L (last (take limit S)))) q \<longrightarrow> past L c q
          \<and> (\<forall>r \<in> set (take limit S). keyset_condition (ls_descending L) (ls_key L r) (ls_key L q)))"
    using split(1) by blast
qed

lemma follow_covers:
  assumes "codec_ok cu L" and "0 < limit" and "\<forall>t \<in> set tables. distinct (map (ls_key L) t) \<and> set rows \<subseteq> set t"
  shows "\<exists>pages finished. follow cu L limit (cursor_at cu L c) tables = Inr (pages, finished)
    \<and> listed L (concat pages) \<and> (\<forall>r \<in> set (concat pages). past L c r \<and> (\<exists>t \<in> set tables. r \<in> set t))
    \<and> (finished \<longrightarrow> (\<forall>r \<in> set rows. past L c r \<longrightarrow> r \<in> set (concat pages)))"
  using assms(3)
proof (induction tables arbitrary: c)
  case (Cons t tables)
  let ?S = "ordered_rows L (filter (past L c) t)"
  let ?c' = "Some (ls_key L (last (take limit ?S)))"
  have d: "distinct (map (ls_key L) t)" "set rows \<subseteq> set t" using Cons.prems by auto
  note step = page_step [OF assms(2) d(1), of c]
  show ?case
  proof (cases "limit < length ?S")
    case False
    have "follow cu L limit (cursor_at cu L c) (t # tables) = Inr ([take limit ?S], True)"
      using False by (simp add: list_page_at [OF assms(1)] Let_def)
    moreover have "listed L (concat [take limit ?S])" using step(1) by (simp only: concat.simps append_Nil2)
    moreover have "\<forall>r \<in> set (concat [take limit ?S]). past L c r \<and> (\<exists>u \<in> set (t # tables). r \<in> set u)"
      using step(2) by (simp only: concat.simps append_Nil2) (meson list.set_intros(1))
    moreover have "\<forall>r \<in> set rows. past L c r \<longrightarrow> r \<in> set (concat [take limit ?S])"
      using step(3) [OF False] d(2) by (simp only: concat.simps append_Nil2) blast
    ultimately show ?thesis by blast
  next
    case True
    note next_page = step(4) [OF True]
    have prems: "\<forall>t \<in> set tables. distinct (map (ls_key L) t) \<and> set rows \<subseteq> set t" using Cons.prems by simp
    obtain pages finished where IH: "follow cu L limit (cursor_at cu L ?c') tables = Inr (pages, finished)"
      "listed L (concat pages)" "\<forall>r \<in> set (concat pages). past L ?c' r \<and> (\<exists>t \<in> set tables. r \<in> set t)"
      "finished \<longrightarrow> (\<forall>r \<in> set rows. past L ?c' r \<longrightarrow> r \<in> set (concat pages))"
      using Cons.IH [OF prems, of ?c'] by (elim exE conjE) (rule that)
    obtain s where s: "cursor_at cu L ?c' = Some s" by (cases "cursor_at cu L ?c'") (auto simp: cursor_at_def split: prod.splits)
    have run: "follow cu L limit (cursor_at cu L c) (t # tables) = Inr (take limit ?S # pages, finished)"
    proof -
      have "list_page cu L (cursor_at cu L c) limit t = Inr \<lparr>pg_items = take limit ?S, pg_next = Some s\<rparr>"
        unfolding list_page_at [OF assms(1)] Let_def s using True next_page [THEN conjunct1] by (simp only: if_True simp_thms)
      then show ?thesis using IH(1) unfolding s by simp
    qed
    have "listed L (take limit ?S @ concat pages)"
      using step(1) IH(2,3) next_page unfolding listed_def sorted_wrt_append by blast
    moreover have "\<forall>r \<in> set (take limit ?S @ concat pages). past L c r \<and> (\<exists>u \<in> set (t # tables). r \<in> set u)"
      using step(2) IH(3) next_page unfolding set_append by (meson UnE list.set_intros)
    moreover have "finished \<longrightarrow> (\<forall>r \<in> set rows. past L c r \<longrightarrow> r \<in> set (take limit ?S @ concat pages))"
      using next_page IH(4) d(2) unfolding set_append by blast
    ultimately show ?thesis using run unfolding concat.simps(2) [symmetric] by blast
  qed
qed (force simp: listed_def)

lemma rest_length:
  fixes c :: "(int \<times> 'i::linorder) option" and L :: "('r, 'i) listing"
  assumes "0 < limit" and "distinct (map (ls_key L) rows)"
  defines "S \<equiv> ordered_rows L (filter (past L c) rows)"
  assumes lt: "limit < length S"
  shows "length (filter (past L (Some (ls_key L (last (take limit S))))) rows) = length S - limit"
proof -
  let ?l = "last (take limit S)"
  let ?p = "past L (Some (ls_key L ?l))"
  note S = page_rows [OF assms(2), of c, folded S_def]
  note step = page_step(4) [OF assms(1,2), of c, folded S_def, OF lt]
  have l: "?l \<in> set (take limit S)" using step by (intro last_in_set) blast
  have m: "mset S = mset (filter (past L c) rows)" by (simp add: S_def ordered_rows_def Let_def)
  have "filter ?p rows = filter ?p (filter (past L c) rows)" using step by (auto intro: filter_cong)
  then have "length (filter ?p rows) = length (filter ?p S)" using m by (metis mset_filter size_mset)
  moreover have "filter ?p (take limit S) = []"
    using step keyset_order.irrefl [OF keyset_any] unfolding filter_empty_conv by metis
  moreover have "sorted_wrt (\<lambda>a b. keyset_condition (ls_descending L) (ls_key L a) (ls_key L b)) (take limit S @ drop limit S)"
    using S(1) by (simp add: listed_def)
  then have "\<forall>q \<in> set (drop limit S). ?p q" using l unfolding sorted_wrt_append past_def by simp
  then have "filter ?p (drop limit S) = drop limit S" by (simp add: filter_id_conv)
  moreover have "filter ?p S = filter ?p (take limit S) @ filter ?p (drop limit S)" by (metis append_take_drop_id filter_append)
  ultimately show ?thesis by simp
qed

lemma follow_finishes:
  assumes "codec_ok cu L" and "0 < limit" and "distinct (map (ls_key L) rows)"
    and "length (filter (past L c) rows) \<le> k * limit" and "0 < k"
  shows "\<exists>pages. follow cu L limit (cursor_at cu L c) (replicate k rows) = Inr (pages, True)"
  using assms(4,5)
proof (induction k arbitrary: c)
  case (Suc k)
  let ?S = "ordered_rows L (filter (past L c) rows)"
  let ?c' = "Some (ls_key L (last (take limit ?S)))"
  have len: "length ?S = length (filter (past L c) rows)" by (simp add: ordered_rows_def Let_def)
  show ?case
  proof (cases "limit < length ?S")
    case False
    then show ?thesis by (simp add: list_page_at [OF assms(1)] Let_def)
  next
    case True
    note rest = rest_length [OF assms(2,3) True]
    have ne: "take limit ?S \<noteq> []" using page_step(4) [OF assms(2,3) True] by blast
    have "limit < Suc k * limit" using True len Suc.prems(1) by linarith
    then have "0 < k" by (cases k) simp_all
    moreover have "length (filter (past L ?c') rows) \<le> k * limit" using rest len Suc.prems(1) by simp
    ultimately obtain pages where IH: "follow cu L limit (cursor_at cu L ?c') (replicate k rows) = Inr (pages, True)"
      using Suc.IH [of ?c'] by blast
    obtain s where s: "cursor_at cu L ?c' = Some s" by (cases "cursor_at cu L ?c'") (auto simp: cursor_at_def split: prod.splits)
    have "list_page cu L (cursor_at cu L c) limit rows = Inr \<lparr>pg_items = take limit ?S, pg_next = Some s\<rparr>"
      unfolding list_page_at [OF assms(1)] Let_def s using True ne by (simp only: if_True simp_thms)
    then show ?thesis using IH unfolding s by simp
  qed
qed simp

text \<open>
  C33. Following the cursors of a listing while its table grows: no page repeats a row of an earlier one, the pages
  together are in the order of the listing, and when the last page has been reached every row that was there all
  along has been delivered. The hypotheses: cursors can be read back, the page size is positive, and in every
  table the sort value together with the tiebreaker is unique.
\<close>

theorem pages_survive_inserts:
  assumes "codec_ok cu L" and "0 < limit" and "\<forall>t \<in> set tables. distinct (map (ls_key L) t) \<and> set rows \<subseteq> set t"
  shows "\<exists>pages finished. follow cu L limit None tables = Inr (pages, finished)
    \<and> distinct (map (ls_key L) (concat pages))
    \<and> sorted_wrt (\<lambda>a b. keyset_condition (ls_descending L) (ls_key L a) (ls_key L b)) (concat pages)
    \<and> (\<forall>r \<in> set (concat pages). \<exists>t \<in> set tables. r \<in> set t)
    \<and> (finished \<longrightarrow> set rows \<subseteq> set (concat pages))"
proof -
  have n: "cursor_at cu L None = None" "past L None r" for r by (simp_all add: cursor_at_def past_def)
  obtain pages finished where p: "follow cu L limit None tables = Inr (pages, finished)" "listed L (concat pages)"
    "\<forall>r \<in> set (concat pages). past L None r \<and> (\<exists>t \<in> set tables. r \<in> set t)"
    "finished \<longrightarrow> (\<forall>r \<in> set rows. past L None r \<longrightarrow> r \<in> set (concat pages))"
    using follow_covers [OF assms, of None] unfolding n(1) by (elim exE conjE) (rule that)
  have "distinct (map (ls_key L) (concat pages))"
    using p(2) keyset_order.increasing_distinct [OF keyset_any] unfolding listed_increasing by blast
  then show ?thesis using p n(2) unfolding listed_def by blast
qed

text \<open>
  C34. Following the cursors of a listing ends, and delivers the whole of it: as soon as the number of pages allowed times
  the page size reaches the number of rows, the last page says that it is the last, and the pages one after the
  other are exactly the ordered rows. The hypotheses are those of the paging under inserts.
\<close>

theorem paging_terminates:
  assumes "codec_ok cu L" and "0 < limit" and "distinct (map (ls_key L) rows)"
    and "length rows \<le> k * limit" and "0 < k"
  shows "\<exists>pages. follow cu L limit None (replicate k rows) = Inr (pages, True) \<and> concat pages = ordered_rows L rows"
proof -
  have n: "cursor_at cu L None = None" "past L None r" for r by (simp_all add: cursor_at_def past_def)
  then have "filter (past L None) rows = rows" by (simp add: filter_id_conv)
  then obtain pages where p: "follow cu L limit None (replicate k rows) = Inr (pages, True)"
    using follow_finishes [OF assms(1-3), of None k] assms(4,5) n(1) by auto
  have "\<forall>t \<in> set (replicate k rows). distinct (map (ls_key L) t) \<and> set rows \<subseteq> set t" using assms(3) by simp
  from follow_covers [OF assms(1,2) this, of None] obtain
    l: "listed L (concat pages)" and sub: "\<forall>r \<in> set (concat pages). \<exists>t \<in> set (replicate k rows). r \<in> set t"
    and all: "\<forall>r \<in> set rows. r \<in> set (concat pages)"
    using p n by auto
  have "set (concat pages) = set rows" using sub all by auto
  then have "set (concat pages) = set (ordered_rows L rows)" using ordered_increasing(2) [OF assms(3)] by simp
  moreover have "listed L (ordered_rows L rows)" using ordered_increasing(1) [OF assms(3)] by (simp add: listed_def)
  ultimately have "concat pages = ordered_rows L rows"
    using l keyset_order.increasing_unique [OF keyset_any] unfolding listed_increasing by blast
  then show ?thesis using p by blast
qed

section \<open>Witnesses\<close>

text \<open>A cursor codec that writes a number as a sign and strokes, and the second component after a comma.\<close>

definition strokes :: "int \<Rightarrow> string" where
  "strokes v = (if v < 0 then ''-'' else []) @ replicate (nat \<bar>v\<bar>) CHR ''x''"

definition of_strokes :: "string \<Rightarrow> int" where
  "of_strokes s = (if take 1 s = ''-'' then - int (length s - 1) else int (length s))"

definition stroke_codec :: cursor_codec where
  "stroke_codec = \<lparr>cu_dump = (\<lambda>(v, i). (case v of JInt n \<Rightarrow> strokes n | _ \<Rightarrow> []) @ CHR '','' #
        (case i of JInt n \<Rightarrow> CHR ''i'' # strokes n | JStr s \<Rightarrow> CHR ''s'' # s | _ \<Rightarrow> [])),
     cu_load = (\<lambda>t. let rest = tl (dropWhile (\<lambda>c. c \<noteq> CHR '','') t)
        in Some (JInt (of_strokes (takeWhile (\<lambda>c. c \<noteq> CHR '','') t)),
             if take 1 rest = ''i'' then JInt (of_strokes (tl rest)) else JStr (tl rest)))\<rparr>"

lemma of_strokes_strokes [simp]: "of_strokes (strokes v) = v"
  by (cases "nat \<bar>v\<bar>") (auto simp: of_strokes_def strokes_def)

lemma strokes_comma: "c \<in> set (strokes v) \<Longrightarrow> c \<noteq> CHR '',''"
  by (auto simp: strokes_def split: if_splits)

lemma strokes_split [simp]:
  "takeWhile (\<lambda>c. c \<noteq> CHR '','') (strokes v @ CHR '','' # t) = strokes v"
  "dropWhile (\<lambda>c. c \<noteq> CHR '','') (strokes v @ CHR '','' # t) = CHR '','' # t"
  using strokes_comma [of _ v] by (simp_all add: takeWhile_append2 dropWhile_append2)

lemma stroke_codec_int: "cu_load stroke_codec (cu_dump stroke_codec (JInt v, JInt i)) = Some (JInt v, JInt i)"
  by (simp add: stroke_codec_def)

lemma stroke_codec_str: "cu_load stroke_codec (cu_dump stroke_codec (JInt v, JStr s)) = Some (JInt v, JStr s)"
  by (simp add: stroke_codec_def)

lemma dq_codec_ok: "codec_ok stroke_codec (dq_listing JInt int_id_of)"
  by (simp add: codec_ok_def dq_listing_def int_id_of_def stroke_codec_int)

definition dq_at :: "int \<Rightarrow> dq_event" where
  "dq_at i = \<lparr>dq_id = i, dq_kind = ''clock_skew'', dq_subject = ''m'', dq_detail = [], dq_source_id = None, dq_ts = i div 2,
     dq_resolved = False\<rparr>"

lemma dq_at_key [simp]: "ls_key (dq_listing enc dec) (dq_at i) = (i div 2, i)"
  by (simp add: ls_key_def dq_listing_def dq_at_def)

theorem pages_survive_inserts_witness:
  "\<exists>pages finished. follow stroke_codec (dq_listing JInt int_id_of) 1 None
       [map dq_at [1, 2], map dq_at [1, 2, 3], map dq_at [0, 1, 2, 3]] = Inr (pages, finished)
    \<and> (finished \<longrightarrow> set (map dq_at [1, 2]) \<subseteq> set (concat pages))"
proof -
  let ?tables = "[map dq_at [1, 2], map dq_at [1, 2, 3], map dq_at [0, 1, 2, 3]]"
  have "\<forall>t \<in> set ?tables. distinct (map (ls_key (dq_listing JInt int_id_of)) t) \<and> set (map dq_at [1, 2]) \<subseteq> set t" by simp
  from pages_survive_inserts [OF dq_codec_ok _ this, of 1] show ?thesis by (metis zero_less_one)
qed

theorem paging_terminates_witness:
  "\<exists>pages. follow stroke_codec (dq_listing JInt int_id_of) 2 None (replicate 2 (map dq_at [1, 2, 3])) = Inr (pages, True)
    \<and> concat pages = ordered_rows (dq_listing JInt int_id_of) (map dq_at [1, 2, 3])"
  by (rule paging_terminates [OF dq_codec_ok]) simp_all

end
