(* ===== verification/Trace_Queries.thy ===== *)
theory Trace_Queries
  imports Query_Framework
begin

text \<open>
  \<open>services/trace_queries.py\<close> and \<open>services/agent_hierarchy.py\<close>: the listings of attempts, logical requests and
  sessions, their details, and the agents of a session. The order in which a grouped query answers its groups is
  the order of their first rows; the opaque session id is a parameter (the base64 text of three strings).
\<close>

section \<open>Attempts\<close>

record attempt_row =
  at_event_id :: string
  at_provider :: string
  at_native_model :: string
  at_requested_model :: "string option"
  at_routed_model :: "string option"
  at_ts_started :: int
  at_ts_completed :: "int option"
  at_latency_ms :: "int option"
  at_success :: bool
  at_logical_request_id :: "string option"
  at_session_id :: "string option"
  at_source :: string
  at_input_tokens :: int
  at_output_tokens :: int
  at_cache_read_tokens :: int
  at_cache_write_short_tokens :: int
  at_cache_write_long_tokens :: int
  at_reasoning_tokens :: int
  at_cost_usd :: "decimal option"
  at_trace_id :: "string option"
  at_span_id :: "string option"
  at_parent_span_id :: "string option"
  at_agent_id :: "string option"

definition attempt_row_of :: "'a cost_db_scheme \<Rightarrow> ledger_row \<Rightarrow> attempt_row" where
  "attempt_row_of db r = \<lparr>at_event_id = lg_event_id r, at_provider = lg_provider r, at_native_model = lg_native_model r,
     at_requested_model = lg_requested_model r, at_routed_model = lg_routed_model r, at_ts_started = lg_ts_started r,
     at_ts_completed = lg_ts_completed r, at_latency_ms = lg_latency_ms r, at_success = lg_success r,
     at_logical_request_id = lg_logical_request_id r, at_session_id = lg_session_id r,
     at_source = coalesce (source_name db (lg_source_id r)) [], at_input_tokens = lg_input_tokens r,
     at_output_tokens = lg_output_tokens r, at_cache_read_tokens = lg_cache_read_tokens r,
     at_cache_write_short_tokens = lg_cache_write_short_tokens r, at_cache_write_long_tokens = lg_cache_write_long_tokens r,
     at_reasoning_tokens = lg_reasoning_tokens r, at_cost_usd = map_option dec_value (lg_cost_usd r),
     at_trace_id = lg_trace_id r, at_span_id = lg_span_id r, at_parent_span_id = lg_parent_span_id r,
     at_agent_id = lg_agent_id r\<rparr>"

definition attempt_filter :: "'a cost_db_scheme \<Rightarrow> query_filters \<Rightarrow> ledger_row \<Rightarrow> bool" where
  "attempt_filter db f r \<longleftrightarrow> opt_eq (qf_provider f) (lg_provider r) \<and> opt_eq (qf_native_model f) (lg_native_model r)
     \<and> opt_eq (map_option Some (qf_machine f)) (lg_machine r) \<and> opt_eq (map_option Some (qf_project f)) (lg_project r)
     \<and> opt_eq (map_option Some (qf_session_id f)) (lg_session_id r) \<and> opt_eq (map_option Some (qf_trace_id f)) (lg_trace_id r)
     \<and> opt_eq (map_option Some (qf_source f)) (source_name db (lg_source_id r))
     \<and> (case qf_outcome f of None \<Rightarrow> True | Some out \<Rightarrow> lg_success r = (out = ''success''))"

definition in_range :: "int \<Rightarrow> int \<Rightarrow> ledger_row \<Rightarrow> bool" where
  "in_range start finish r \<longleftrightarrow> is_final_attempt r \<and> start \<le> lg_ts_started r \<and> lg_ts_started r \<le> finish"

definition attempt_listing :: "(int \<Rightarrow> json) \<Rightarrow> (json \<Rightarrow> int option) \<Rightarrow> (ledger_row, string) listing" where
  "attempt_listing enc dec = \<lparr>ls_time = lg_ts_started, ls_id = lg_event_id, ls_descending = True, ls_time_json = enc,
     ls_time_of = dec, ls_id_json = JStr, ls_id_of = str_id_of\<rparr>"

definition map_page :: "('a \<Rightarrow> 'b) \<Rightarrow> query_error + 'a page \<Rightarrow> query_error + 'b page" where
  "map_page f r = (case r of Inl e \<Rightarrow> Inl e | Inr p \<Rightarrow> Inr \<lparr>pg_items = map f (pg_items p), pg_next = pg_next p\<rparr>)"

definition list_attempts ::
  "cursor_codec \<Rightarrow> (int \<Rightarrow> json) \<Rightarrow> (json \<Rightarrow> int option) \<Rightarrow> int \<Rightarrow> int \<Rightarrow> query_filters \<Rightarrow> string option \<Rightarrow> string option
   \<Rightarrow> nat \<Rightarrow> 'a cost_db_scheme \<Rightarrow> query_error + attempt_row page" where
  "list_attempts cu enc dec start finish f request cursor limit db =
     map_page (attempt_row_of db) (list_page cu (attempt_listing enc dec) cursor limit
       (filter (\<lambda>r. in_range start finish r \<and> attempt_filter db f r \<and> opt_eq (map_option Some request) (lg_logical_request_id r))
          (lb_events (cd_ledger db))))"

section \<open>Logical requests\<close>

record request_row =
  rq_request :: logical_request
  rq_total_tokens :: int
  rq_cost_usd :: "decimal option"

definition attempts_of :: "'a cost_db_scheme \<Rightarrow> string \<Rightarrow> string \<Rightarrow> ledger_row list" where
  "attempts_of db provider request =
     filter (\<lambda>r. is_final_attempt r \<and> lg_provider r = provider \<and> lg_logical_request_id r = Some request) (lb_events (cd_ledger db))"

definition request_row_of :: "'a cost_db_scheme \<Rightarrow> logical_request \<Rightarrow> request_row" where
  "request_row_of db q =
     (let rows = attempts_of db (lr_provider q) (lr_logical_request_id q)
      in \<lparr>rq_request = q, rq_total_tokens = sum_list (map event_token_total rows),
          rq_cost_usd = sql_sum (map (\<lambda>r. map_option dec_value (lg_cost_usd r)) rows)\<rparr>)"

definition request_listing :: "(int \<Rightarrow> json) \<Rightarrow> (json \<Rightarrow> int option) \<Rightarrow> (logical_request, string) listing" where
  "request_listing enc dec = \<lparr>ls_time = the \<circ> lr_ts_last, ls_id = lr_logical_request_id, ls_descending = True,
     ls_time_json = enc, ls_time_of = dec, ls_id_json = JStr, ls_id_of = str_id_of\<rparr>"

definition list_requests ::
  "cursor_codec \<Rightarrow> (int \<Rightarrow> json) \<Rightarrow> (json \<Rightarrow> int option) \<Rightarrow> int \<Rightarrow> int \<Rightarrow> string option \<Rightarrow> bool \<Rightarrow> string option \<Rightarrow> nat
   \<Rightarrow> 'a cost_db_scheme \<Rightarrow> logical_request list \<Rightarrow> query_error + request_row page" where
  "list_requests cu enc dec start finish policy fallback_only cursor limit db requests =
     map_page (request_row_of db) (list_page cu (request_listing enc dec) cursor limit
       (filter (\<lambda>q. (case lr_ts_last q of None \<Rightarrow> False | Some t \<Rightarrow> start \<le> t \<and> t \<le> finish)
          \<and> opt_eq (map_option Some policy) (lr_routing_policy q) \<and> (fallback_only \<longrightarrow> 0 < lr_fallback_count q)) requests))"

record request_detail =
  rd_request :: request_row
  rd_attempts :: "attempt_row list"

definition request_detail_of ::
  "'a cost_db_scheme \<Rightarrow> logical_request list \<Rightarrow> string \<Rightarrow> string \<Rightarrow> request_detail option" where
  "request_detail_of db requests provider request =
     map_option (\<lambda>q. \<lparr>rd_request = request_row_of db q,
         rd_attempts = map (attempt_row_of db) (sort_key lg_sequence (sort_key lg_ts_started (attempts_of db provider request)))\<rparr>)
       (find (\<lambda>q. lr_provider q = provider \<and> lr_logical_request_id q = request) requests)"

section \<open>Sessions\<close>

type_synonym session_key = "string \<times> string \<times> string"

record session_row =
  sn_scoped_id :: string
  sn_key :: session_key
  sn_attempt_count :: nat
  sn_total_tokens :: int
  sn_cost_usd :: "decimal option"
  sn_ts_first :: int
  sn_ts_last :: int
  sn_primary_project :: "string option"

definition session_key_of :: "'a cost_db_scheme \<Rightarrow> ledger_row \<Rightarrow> session_key" where
  "session_key_of db r = (lg_provider r, coalesce (source_name db (lg_source_id r)) [], coalesce (lg_session_id r) [])"

text \<open>The project with the most tokens, the first of several; an empty project counts as none.\<close>

definition best_project :: "ledger_row list \<Rightarrow> string option" where
  "best_project rows =
     (case max_by (\<lambda>(p, rs). sum_list (map event_token_total rs)) (sql_groups lg_project rows) of
        None \<Rightarrow> None | Some (p, _) \<Rightarrow> (case p of Some s \<Rightarrow> if s = [] then None else Some s | None \<Rightarrow> None))"

definition session_row_of :: "(session_key \<Rightarrow> string) \<Rightarrow> session_key \<times> ledger_row list \<Rightarrow> session_row" where
  "session_row_of scoped = (\<lambda>(k, rows).
     \<lparr>sn_scoped_id = scoped k, sn_key = k, sn_attempt_count = length rows,
      sn_total_tokens = sum_list (map event_token_total rows),
      sn_cost_usd = sql_sum (map (\<lambda>r. map_option dec_value (lg_cost_usd r)) rows),
      sn_ts_first = Min (set (map lg_ts_started rows)), sn_ts_last = Max (set (map lg_ts_started rows)),
      sn_primary_project = (if snd (snd k) = [] then None else best_project rows)\<rparr>)"

definition cursor_offset :: "cursor_codec \<Rightarrow> string option \<Rightarrow> query_error + nat" where
  "cursor_offset cu cursor =
     (case cursor of
        None \<Rightarrow> Inr 0
      | Some s \<Rightarrow> (case decode_cursor cu s of
            Inl e \<Rightarrow> Inl e
          | Inr (_, j) \<Rightarrow> Inr (case j of JInt n \<Rightarrow> nat n | JBool b \<Rightarrow> (if b then 1 else 0) | _ \<Rightarrow> 0)))"

definition session_groups ::
  "int \<Rightarrow> int \<Rightarrow> query_filters \<Rightarrow> 'a cost_db_scheme \<Rightarrow> (session_key \<times> ledger_row list) list" where
  "session_groups start finish f db =
     sql_groups (session_key_of db) (filter (\<lambda>r. in_range start finish r \<and> attempt_filter db f r) (lb_events (cd_ledger db)))"

definition list_sessions ::
  "cursor_codec \<Rightarrow> (session_key \<Rightarrow> string) \<Rightarrow> int \<Rightarrow> int \<Rightarrow> query_filters \<Rightarrow> string option \<Rightarrow> nat
   \<Rightarrow> 'a cost_db_scheme \<Rightarrow> query_error + session_row page" where
  "list_sessions cu scoped start finish f cursor limit db =
     (case cursor_offset cu cursor of
        Inl e \<Rightarrow> Inl e
      | Inr offset \<Rightarrow>
          let groups = sort_key (fst \<circ> fst) (sort_key (fst \<circ> snd \<circ> fst) (sort_key (snd \<circ> snd \<circ> fst) (session_groups start finish f db)));
              rows = map (session_row_of scoped) (take (limit + 1) (drop offset groups))
          in Inr (build_page rows limit (\<lambda>r. encode_cursor cu (JStr []) (JInt (int (offset + limit))))))"

definition session_detail ::
  "(session_key \<Rightarrow> string) \<Rightarrow> 'a cost_db_scheme \<Rightarrow> session_key \<Rightarrow> session_row option" where
  "session_detail scoped db k =
     (let rows = filter (\<lambda>r. is_final_attempt r \<and> session_key_of db r = k) (lb_events (cd_ledger db))
      in if rows = [] then None
         else Some ((session_row_of scoped (k, rows))\<lparr>sn_primary_project := best_project rows\<rparr>))"

section \<open>The agents of a session\<close>

record agent_node =
  an_agent_id :: string
  an_parent :: "string option"
  an_depth :: nat
  an_count :: nat

type_synonym parent_map = "(string, string option) dict"

definition parent_of :: "parent_map \<Rightarrow> string \<Rightarrow> string option" where
  "parent_of parents a = (case dget parents a of Some (Some p) \<Rightarrow> Some p | _ \<Rightarrow> None)"

definition named_parents :: "parent_map \<Rightarrow> string set" where
  "named_parents parents = {p. Some p \<in> snd ` set parents}"

lemma parent_named: "parent_of parents a = Some p \<Longrightarrow> p \<in> named_parents parents"
  by (force simp: parent_of_def named_parents_def split: option.splits dest: map_of_SomeD)

lemma finite_named [simp]: "finite (named_parents parents)"
proof -
  have "named_parents parents \<subseteq> (the \<circ> snd) ` set parents" by (force simp: named_parents_def)
  then show ?thesis by (rule finite_subset) simp
qed

text \<open>The loop, with the agents seen so far; its measure is what is left to be seen.\<close>

function depth_loop :: "parent_map \<Rightarrow> nat \<Rightarrow> string set \<Rightarrow> string \<Rightarrow> string option \<Rightarrow> nat" where
  "depth_loop parents depth seen agent current =
     (case current of
        None \<Rightarrow> depth
      | Some c \<Rightarrow> if c \<in> seen then depth
          else depth_loop parents (depth + 1) (insert (if depth = 0 then agent else c) seen) c (parent_of parents c))"
  by pat_completeness auto
termination
proof (relation "measures [\<lambda>(parents, depth, seen, agent, current). if depth = 0 then 1 else 0,
    \<lambda>(parents, depth, seen, agent, current). card (named_parents parents \<union> set_option current - seen)]", goal_cases)
  case (2 parents depth seen agent current c)
  have "set_option (parent_of parents c) \<subseteq> named_parents parents" using parent_named by (cases "parent_of parents c") auto
  then have sub: "named_parents parents \<union> set_option (parent_of parents c) - insert c seen \<subset> named_parents parents \<union> {c} - seen"
    using 2(2) by auto
  have "card (named_parents parents \<union> set_option (parent_of parents c) - insert c seen) < card (named_parents parents \<union> {c} - seen)"
    by (rule psubset_card_mono [OF _ sub]) simp
  then show ?case using 2(1) by simp
qed simp

declare depth_loop.simps [simp del]

definition agent_depth :: "parent_map \<Rightarrow> string \<Rightarrow> nat" where
  "agent_depth parents a = depth_loop parents 0 {} a (parent_of parents a)"

definition truthy :: "string option \<Rightarrow> bool" where
  "truthy s \<longleftrightarrow> s \<noteq> None \<and> s \<noteq> Some []"

definition session_calls :: "'a cost_db_scheme \<Rightarrow> session_key \<Rightarrow> (string \<times> string option \<times> string option) list" where
  "session_calls db k = List.map_filter (\<lambda>r. map_option (\<lambda>a. (a, lg_span_id r, lg_parent_span_id r)) (lg_agent_id r))
     (filter (\<lambda>r. is_final_attempt r \<and> session_key_of db r = k) (lb_events (cd_ledger db)))"

definition span_to_agent :: "(string \<times> string option \<times> string option) list \<Rightarrow> (string, string) dict" where
  "span_to_agent calls = fold (\<lambda>(a, s, _) d. if truthy s then dset (the s) a d else d) calls []"

definition set_default :: "'k \<Rightarrow> 'v \<Rightarrow> ('k, 'v) dict \<Rightarrow> ('k, 'v) dict" where
  "set_default k v d = (if dget d k = None then dset k v d else d)"

definition agent_counts :: "(string \<times> string option \<times> string option) list \<Rightarrow> (string, nat) dict" where
  "agent_counts calls = fold (\<lambda>(a, _, _) d. dset a (dget_or d a 0 + 1) d) calls []"

definition linked_parents :: "(string \<times> string option \<times> string option) list \<Rightarrow> parent_map" where
  "linked_parents calls =
     (let spans = span_to_agent calls
      in fold (\<lambda>(a, _, p) d.
           case (if truthy p then dget spans (the p) else None) of
             None \<Rightarrow> d | Some q \<Rightarrow> if q = a then d else set_default a (Some q) d) calls [])"

definition all_parents :: "(string \<times> string option \<times> string option) list \<Rightarrow> parent_map" where
  "all_parents calls = fold (\<lambda>a d. set_default a None d) (dkeys (agent_counts calls)) (linked_parents calls)"

definition session_agents :: "'a cost_db_scheme \<Rightarrow> session_key \<Rightarrow> agent_node list" where
  "session_agents db k =
     (let calls = session_calls db k; counts = agent_counts calls; parents = all_parents calls
      in sort_key an_depth (sort_key an_agent_id
           (map (\<lambda>a. \<lparr>an_agent_id = a, an_parent = parent_of parents a, an_depth = agent_depth parents a,
                     an_count = dget_or counts a 0\<rparr>) (dkeys counts))))"

end
