(* ===== verification/Trace_Laws.thy ===== *)
theory Trace_Laws
  imports Trace_Queries Query_Laws Rollup_Laws
begin

text \<open>
  The laws of the trace queries: the depth of an agent, the totals of the sessions, and where the keyset of the
  attempt listing is not unique.
\<close>

section \<open>The depth of an agent\<close>

text \<open>The length of a chain of parents.\<close>

inductive chain :: "parent_map \<Rightarrow> string option \<Rightarrow> nat \<Rightarrow> bool" for parents where
  top: "chain parents None 0"
| up: "chain parents (parent_of parents c) n \<Longrightarrow> chain parents (Some c) (Suc n)"

inductive_cases chain_NoneE: "chain parents None n"
inductive_cases chain_SomeE: "chain parents (Some c) n"

lemma chain_unique: "chain parents cur n \<Longrightarrow> chain parents cur m \<Longrightarrow> n = m"
proof (induction arbitrary: m rule: chain.induct)
  case top
  then show ?case by (rule chain_NoneE) simp
next
  case (up c n)
  from up.prems show ?case by (rule chain_SomeE) (simp add: up.IH)
qed

text \<open>A parent map without cycles: parents rank below their children.\<close>

definition ranked :: "(string \<Rightarrow> nat) \<Rightarrow> parent_map \<Rightarrow> bool" where
  "ranked rank parents \<longleftrightarrow> (\<forall>a p. parent_of parents a = Some p \<longrightarrow> rank p < rank a)"

lemma ranked_chain: "ranked rank parents \<Longrightarrow> \<exists>n. chain parents (Some c) n"
proof (induction "rank c" arbitrary: c rule: less_induct)
  case less
  show ?case
  proof (cases "parent_of parents c")
    case None
    then show ?thesis using chain.up [of parents c 0] chain.top by auto
  next
    case (Some p)
    then have "rank p < rank c" using less.prems by (simp add: ranked_def)
    then obtain n where "chain parents (Some p) n" using less by blast
    then show ?thesis using chain.up [of parents c n] Some by auto
  qed
qed

lemma chain_depth:
  assumes "ranked rank parents"
  shows "chain parents cur n \<Longrightarrow> \<forall>c. cur = Some c \<longrightarrow> rank c < rank agent \<and> (\<forall>s \<in> seen. rank c < rank s)
    \<Longrightarrow> depth_loop parents depth seen agent cur = depth + n"
proof (induction arbitrary: depth seen agent rule: chain.induct)
  case top
  then show ?case by (simp add: depth_loop.simps)
next
  case (up c n)
  have "c \<notin> seen" using up.prems by auto
  moreover have "\<forall>p. parent_of parents c = Some p \<longrightarrow> rank p < rank c
      \<and> (\<forall>s \<in> insert (if depth = 0 then agent else c) seen. rank p < rank s)"
    using assms up.prems unfolding ranked_def by (auto; meson order.strict_trans)
  ultimately show ?case using up.IH [where seen = "insert (if depth = 0 then agent else c) seen" and depth = "Suc depth" and agent = c]
    by (subst depth_loop.simps) simp
qed

lemma depth_chain:
  assumes "ranked rank parents"
  shows "\<exists>n. chain parents (parent_of parents a) n \<and> agent_depth parents a = n"
proof -
  have "\<exists>n. chain parents (parent_of parents a) n"
    using ranked_chain [OF assms] chain.top by (cases "parent_of parents a") auto
  then obtain n where n: "chain parents (parent_of parents a) n" by blast
  moreover have "\<forall>c. parent_of parents a = Some c \<longrightarrow> rank c < rank a \<and> (\<forall>s \<in> {}. rank c < rank s)"
    using assms by (simp add: ranked_def)
  ultimately show ?thesis using chain_depth [OF assms n, of a "{}" 0] by (auto simp: agent_depth_def)
qed

lemma depth_loop_bound:
  "depth_loop parents depth seen agent cur \<le> depth + (if depth = 0 then 1 else 0)
     + card (named_parents parents \<union> set_option cur - seen)"
proof (induction parents depth seen agent cur rule: depth_loop.induct)
  case (1 parents depth seen agent cur)
  show ?case
  proof (cases "cur = None \<or> the cur \<in> seen")
    case True
    then show ?thesis by (subst depth_loop.simps) (auto split: option.split)
  next
    case False
    then obtain c where c: "cur = Some c" "c \<notin> seen" by auto
    let ?seen = "insert (if depth = 0 then agent else c) seen"
    have sub: "set_option (parent_of parents c) \<subseteq> named_parents parents"
      using parent_named by (cases "parent_of parents c") auto
    have le: "card (named_parents parents \<union> set_option (parent_of parents c) - ?seen) \<le> card (named_parents parents \<union> {c} - seen)"
      using sub by (intro card_mono) auto
    have lt: "card (named_parents parents \<union> set_option (parent_of parents c) - ?seen) < card (named_parents parents \<union> {c} - seen)"
      if "depth \<noteq> 0"
      using that c(2) sub by (intro psubset_card_mono) auto
    have "depth_loop parents depth seen agent cur = depth_loop parents (depth + 1) ?seen c (parent_of parents c)"
      using c by (subst depth_loop.simps) simp
    moreover have "depth_loop parents (depth + 1) ?seen c (parent_of parents c)
        \<le> depth + 1 + card (named_parents parents \<union> set_option (parent_of parents c) - ?seen)"
      using 1 [OF c] by simp
    ultimately show ?thesis using le lt c by (cases "depth = 0") auto
  qed
qed

text \<open>
  C35. The loop that computes an agent's depth ends for every parent map, cyclic ones included: the depth is at
  most one more than the number of agents that are parents. When the map has no cycle, a root has depth 0 and
  every other agent is one deeper than its parent.
\<close>

theorem agent_depth_terminates:
  shows "agent_depth parents a \<le> 1 + card (named_parents parents)
    \<and> ((\<exists>rank. ranked rank parents) \<longrightarrow>
        agent_depth parents a = (case parent_of parents a of None \<Rightarrow> 0 | Some p \<Rightarrow> Suc (agent_depth parents p)))"
proof (intro conjI impI)
  have sub: "set_option (parent_of parents a) \<subseteq> named_parents parents"
    using parent_named by (cases "parent_of parents a") auto
  then have "named_parents parents \<union> set_option (parent_of parents a) - {} = named_parents parents" by auto
  then show "agent_depth parents a \<le> 1 + card (named_parents parents)"
    using depth_loop_bound [of parents 0 "{}" a "parent_of parents a"] by (simp add: agent_depth_def)
next
  assume "\<exists>rank. ranked rank parents"
  then obtain rank where rank: "ranked rank parents" ..
  obtain n where n: "chain parents (parent_of parents a) n" "agent_depth parents a = n" using depth_chain [OF rank] by blast
  show "agent_depth parents a = (case parent_of parents a of None \<Rightarrow> 0 | Some p \<Rightarrow> Suc (agent_depth parents p))"
  proof (cases "parent_of parents a")
    case None
    then show ?thesis using n chain_NoneE by auto
  next
    case (Some p)
    obtain m where m: "chain parents (parent_of parents p) m" "agent_depth parents p = m" using depth_chain [OF rank] by blast
    then have "chain parents (parent_of parents a) (Suc m)" unfolding Some by (rule_tac chain.up)
    then show ?thesis using n m(2) Some chain_unique by auto
  qed
qed

text \<open>
  On a cyclic parent map the reported depth can exceed the number of other agents: of three agents of which
  the second and the third are each other's parents, the first one has depth 3.
\<close>

theorem cyclic_depth_overcounts:
  "agent_depth [(''a'', Some ''b''), (''b'', Some ''c''), (''c'', Some ''b'')] ''a'' = 3"
  by (simp add: agent_depth_def parent_of_def depth_loop.simps)

theorem agent_depth_terminates_witness:
  "agent_depth [(''a'', Some ''b''), (''b'', None)] ''a'' = 1"
proof -
  let ?m = "[(''a'', Some ''b''), (''b'', None)]"
  have "ranked (\<lambda>x. if x = ''a'' then 1 else 0) ?m" by (auto simp: ranked_def parent_of_def split: if_splits)
  then have "agent_depth ?m x = (case parent_of ?m x of None \<Rightarrow> 0 | Some p \<Rightarrow> Suc (agent_depth ?m p))" for x
    using agent_depth_terminates [of ?m x] by blast
  from this [of "''a''"] this [of "''b''"] show ?thesis by (simp add: parent_of_def)
qed

section \<open>Sessions\<close>

lemma groups_conserve:
  fixes h :: "'r \<Rightarrow> 'v::comm_monoid_add"
  shows "sum_list (map (\<lambda>(k, rows). sum_list (map h rows)) (sql_groups key xs)) = sum_list (map h xs)"
  using sum_list_groups [of "group_keys key xs" key xs h] by (simp add: sql_groups_def comp_def)

lemma groups_count: "sum_list (map (\<lambda>(k, rows). length rows) (sql_groups key xs)) = length xs"
  using groups_conserve [of "\<lambda>_. 1 :: nat" key xs] by (simp add: sum_list_triv case_prod_unfold)

lemma groups_keys: "map fst (sql_groups key xs) = group_keys key xs"
  by (simp add: sql_groups_def comp_def)

lemma group_rows: "(k, rows) \<in> set (sql_groups key xs) \<Longrightarrow> rows = filter (\<lambda>x. key x = k) xs \<and> rows \<noteq> []"
  by (auto simp: sql_groups_def filter_empty_conv)

lemma sorted_groups_sum: "sum_list (map f (sort_key k1 (sort_key k2 (sort_key k3 gs)))) = sum_list (map f gs)" for f :: "'b \<Rightarrow> 'v::comm_monoid_add"
  by (simp flip: sum_mset_sum_list)

text \<open>
  The sessions partition the attempts of a range: on one page that holds them all, no session appears twice, the
  attempt counts add up to the number of final attempts in the range that pass the filters, the tokens to their
  tokens, and each row counts exactly the attempts of its session. The hypothesis: the page size is at least the
  number of attempts.
\<close>

theorem sessions_conserve:
  defines "matching \<equiv> \<lambda>start finish f db. filter (\<lambda>r. in_range start finish r \<and> attempt_filter db f r) (lb_events (cd_ledger db))"
  assumes "length (matching start finish f db) \<le> limit"
  shows "\<exists>rows. list_sessions cu scoped start finish f None limit db = Inr \<lparr>pg_items = rows, pg_next = None\<rparr>
    \<and> distinct (map sn_key rows)
    \<and> sum_list (map sn_attempt_count rows) = length (matching start finish f db)
    \<and> sum_list (map sn_total_tokens rows) = sum_list (map event_token_total (matching start finish f db))
    \<and> (\<forall>s \<in> set rows. sn_attempt_count s = length (filter (\<lambda>r. session_key_of db r = sn_key s) (matching start finish f db)))"
proof -
  let ?m = "matching start finish f db"
  let ?g = "session_groups start finish f db"
  let ?s = "sort_key (fst \<circ> fst) (sort_key (fst \<circ> snd \<circ> fst) (sort_key (snd \<circ> snd \<circ> fst) ?g))"
  let ?rows = "map (session_row_of scoped) ?s"
  have g: "?g = sql_groups (session_key_of db) ?m" by (simp add: session_groups_def matching_def)
  have "length ?g \<le> length ?m"
    using card_image_le [of "set ?m" "session_key_of db"] distinct_card [OF distinct_group_keys, of "session_key_of db" ?m]
    by (simp add: g sql_groups_def) (meson card_length order_trans)
  then have len: "length ?s \<le> limit" using assms(2) by simp
  have page: "list_sessions cu scoped start finish f None limit db = Inr \<lparr>pg_items = ?rows, pg_next = None\<rparr>"
    using len by (simp add: list_sessions_def cursor_offset_def build_page_def Let_def)
  have "sn_key \<circ> session_row_of scoped = fst" by (simp add: session_row_of_def fun_eq_iff)
  then have keys: "map sn_key ?rows = map fst ?s" by simp
  have "mset (map fst ?s) = mset (map fst ?g)" by simp
  then have "distinct (map fst ?s) \<longleftrightarrow> distinct (map fst ?g)" by (rule mset_eq_imp_distinct_iff)
  moreover have "distinct (map fst ?g)" by (simp only: g groups_keys distinct_group_keys)
  ultimately have 1: "distinct (map sn_key ?rows)" unfolding keys by blast
  have "sum_list (map sn_attempt_count ?rows) = sum_list (map (\<lambda>(k, rows). length rows) ?g)"
    unfolding map_map sorted_groups_sum by (simp add: session_row_of_def case_prod_unfold comp_def)
  then have 2: "sum_list (map sn_attempt_count ?rows) = length ?m" by (simp only: g groups_count)
  have "sum_list (map sn_total_tokens ?rows) = sum_list (map (\<lambda>(k, rows). sum_list (map event_token_total rows)) ?g)"
    unfolding map_map sorted_groups_sum by (simp add: session_row_of_def case_prod_unfold comp_def)
  then have 3: "sum_list (map sn_total_tokens ?rows) = sum_list (map event_token_total ?m)" by (simp only: g groups_conserve)
  have 4: "\<forall>s \<in> set ?rows. sn_attempt_count s = length (filter (\<lambda>r. session_key_of db r = sn_key s) ?m)"
    using group_rows [of _ _ "session_key_of db" ?m] by (auto simp: session_row_of_def g)
  show ?thesis using page 1 2 3 4 by blast
qed

section \<open>Where the keyset is not unique\<close>

text \<open>
  The attempt listing orders by start time and event id, which is unique for one provider only: two attempts of
  two providers with the same start and the same event id make a client that reads pages of one row miss one of
  them; the second page is empty and says that it is the last.
\<close>

theorem attempt_pages_skip:
  assumes "codec_ok cu (attempt_listing enc dec)" and "lg_ts_started r = lg_ts_started q" and "lg_event_id r = lg_event_id q"
  shows "\<exists>x. follow cu (attempt_listing enc dec) 1 None [[r, q], [r, q]] = Inr ([[x], []], True)"
proof -
  let ?L = "attempt_listing enc dec"
  have n: "None = cursor_at cu ?L None" by (simp add: cursor_at_def)
  have key: "ls_key ?L q = ls_key ?L r" using assms(2,3) by (simp add: ls_key_def attempt_listing_def)
  have all: "filter (past ?L None) [r, q] = [r, q]" by (simp add: past_def)
  obtain x y where S: "ordered_rows ?L [r, q] = [x, y]" "x = r \<or> x = q"
  proof -
    have "length (ordered_rows ?L [r, q]) = 2" "set (ordered_rows ?L [r, q]) = {r, q}" by (auto simp: ordered_rows_def Let_def)
    then show thesis using that by (cases "ordered_rows ?L [r, q]"; cases "tl (ordered_rows ?L [r, q])") auto
  qed
  have kx: "ls_key ?L x = ls_key ?L r" using S(2) key by auto
  have none: "filter (past ?L (Some (ls_key ?L x))) [r, q] = []"
    using keyset_order.irrefl [OF keyset_any] by (simp add: past_def key kx)
  obtain s where s: "cursor_at cu ?L (Some (ls_key ?L x)) = Some s" by (auto simp: cursor_at_def split: prod.splits)
  have 1: "list_page cu ?L None 1 [r, q] = Inr \<lparr>pg_items = [x], pg_next = Some s\<rparr>"
    by (subst n, subst list_page_at [OF assms(1)]) (simp only: all S(1), simp add: s Let_def)
  have 2: "list_page cu ?L (Some s) 1 [r, q] = Inr \<lparr>pg_items = [], pg_next = None\<rparr>"
    by (subst s [symmetric], subst list_page_at [OF assms(1)]) (simp only: none, simp add: ordered_rows_def Let_def)
  show ?thesis using 1 2 by simp
qed

section \<open>Witnesses\<close>

lemma attempt_codec_ok: "codec_ok stroke_codec (attempt_listing JInt int_id_of)"
  by (simp add: codec_ok_def attempt_listing_def int_id_of_def str_id_of_def stroke_codec_str)

definition attempt_of :: "string \<Rightarrow> ledger_row" where
  "attempt_of p = (usage_event_v2_row (sample_event Final 0 5) None None)\<lparr>lg_provider := p\<rparr>"

theorem attempt_pages_skip_witness:
  "\<exists>x. follow stroke_codec (attempt_listing JInt int_id_of) 1 None
      [[attempt_of ''openai'', attempt_of ''zai''], [attempt_of ''openai'', attempt_of ''zai'']] = Inr ([[x], []], True)"
  by (rule attempt_pages_skip [OF attempt_codec_ok]) (simp_all add: attempt_of_def)

definition no_filters :: query_filters where
  "no_filters = \<lparr>qf_provider = None, qf_native_model = None, qf_source = None, qf_machine = None, qf_project = None,
     qf_session_id = None, qf_agent = None, qf_environment = None, qf_outcome = None, qf_trace_id = None,
     qf_unknown_provider = False, qf_unknown_model = False\<rparr>"

theorem sessions_conserve_witness:
  "\<exists>rows. list_sessions stroke_codec (\<lambda>k. snd (snd k)) 0 10 no_filters None 5 (sample_rollup_db [] [])
      = Inr \<lparr>pg_items = rows, pg_next = None\<rparr> \<and> sum_list (map sn_attempt_count rows) = 1"
proof -
  have m: "filter (\<lambda>r. in_range 0 10 r \<and> attempt_filter (sample_rollup_db [] []) no_filters r)
      (lb_events (cd_ledger (sample_rollup_db [] []))) = [usage_event_v2_row (sample_event Final 0 5) None None]"
    by (simp add: sample_rollup_db_def in_range_def attempt_filter_def no_filters_def opt_eq_def)
      (simp add: is_final_attempt_def usage_event_v2_row_def sample_event_def as_utc_dt_def)
  show ?thesis using sessions_conserve [of 0 10 "sample_rollup_db [] []" no_filters 5 stroke_codec "\<lambda>k. snd (snd k)"]
    unfolding m by auto
qed

end
