(* ===== verification/Cost_Types.thy ===== *)
theory Cost_Types
  imports Cost_Worker Repricing_Laws Deletion
begin

text \<open>
  What every cost row looks like, whichever operations wrote the table: the worker, the recording of a wire event, a
  repricing, a revert, a deletion and a retention sweep. What they do to the cost table are atomic changes of three
  kinds; a property of cost tables that these keep (the locale) is kept by the operations.
\<close>

section \<open>Well-typed costs\<close>

definition BILLING_MODES :: "string list" where
  "BILLING_MODES = [API_BILLED, SUBSCRIPTION]"

text \<open>
  A row has its amount in the column of its billing mode exactly when its status says that something was priced, and
  names its missing units only when there are some.
\<close>

definition cost_typed :: "computed_cost \<Rightarrow> bool" where
  "cost_typed c \<longleftrightarrow> cc_cost_status c \<in> set COST_STATUSES \<and> cc_billing_mode c \<in> set BILLING_MODES
     \<and> (cc_amount c \<noteq> None \<longleftrightarrow> cc_billing_mode c = API_BILLED \<and> cc_cost_status c \<notin> set UNPRICED_STATUSES)
     \<and> (cc_subscription_equivalent_amount c \<noteq> None \<longleftrightarrow>
          cc_billing_mode c = SUBSCRIPTION \<and> cc_cost_status c \<notin> set UNPRICED_STATUSES)
     \<and> (cc_missing_units c \<noteq> Some [])"

lemma cost_typed_active [simp]: "cost_typed (c\<lparr>cc_active := b\<rparr>) = cost_typed c"
  by (simp add: cost_typed_def)

lemma billing_modes_differ [simp]: "API_BILLED \<noteq> SUBSCRIPTION" "SUBSCRIPTION \<noteq> API_BILLED"
  by (simp_all add: API_BILLED_def SUBSCRIPTION_def)

definition result_typed :: "cost_result \<Rightarrow> bool" where
  "result_typed res \<longleftrightarrow> cr_cost_status res \<in> set COST_STATUSES
     \<and> (cr_amount res \<noteq> None \<longleftrightarrow> cr_cost_status res \<notin> set UNPRICED_STATUSES)"

lemma result_typed_simps [simp]:
  "result_typed (mk_result None ''error'' m)" "result_typed (mk_result None ''unpriced'' m)"
  "result_typed (mk_result (Some x) ''priced'' m)" "result_typed (mk_result (Some x) ''partial'' m)"
  by (simp_all add: result_typed_def mk_result_def COST_STATUSES_def UNPRICED_STATUSES_def)

lemma compute_cost_typed: "compute_cost reg rates inp = Inr res \<Longrightarrow> result_typed res"
  by (auto simp: compute_cost_def zero_consumption_result_def Let_def split: sum.splits if_splits option.splits prod.splits)

lemma cost_row_typed:
  "result_typed res \<Longrightarrow> mode \<in> set BILLING_MODES \<Longrightarrow> cost_typed (cost_row k v mode observed now res)"
  by (auto simp: cost_typed_def cost_row_def result_typed_def BILLING_MODES_def)

section \<open>The steps of the cost table\<close>

inductive recorded_costs :: "computed_cost list \<Rightarrow> bool" where
  empty: "recorded_costs []"
| recorded: "recorded_costs costs \<Longrightarrow> result_typed res \<Longrightarrow> mode \<in> set BILLING_MODES
    \<Longrightarrow> record_cost (cost_row k v mode observed now res) costs = (Inr costs' :: unit cost_error + _)
    \<Longrightarrow> recorded_costs costs'"
| activated: "recorded_costs costs \<Longrightarrow> recorded_costs (activate_version k v costs)"
| erased: "recorded_costs costs \<Longrightarrow> recorded_costs (filter (\<lambda>c. cost_key c \<notin> keys) costs)"

lemma record_cost_typed:
  assumes "record_cost new costs = Inr costs'" and "cost_typed new" and "\<forall>c \<in> set costs. cost_typed c"
  shows "\<forall>c \<in> set costs'. cost_typed c"
proof -
  have d: "\<forall>c \<in> set (deactivate k costs). cost_typed c" for k using assms(3) by (auto simp: deactivate_def)
  have "c \<in> set (deactivate (cost_key new) costs) \<or> c = new\<lparr>cc_active := True\<rparr>" if "c \<in> set costs'" for c
    using assms(1) that by (auto simp: record_cost_def Let_def split: if_splits list.splits)
  then show ?thesis using d assms(2) cost_typed_active by blast
qed

lemma record_cost_keeps_inv:
  assumes "record_cost new costs = (Inr costs' :: 'e cost_error + _)" and "cost_inv costs"
  shows "cost_inv costs'"
proof -
  have "cc_cost_status new \<in> set COST_STATUSES" using assms(1) by (simp add: record_cost_def split: if_splits)
  then obtain costs2 where "record_cost new costs = (Inr costs2 :: 'e cost_error + _)" and "cost_inv costs2"
    using record_cost_ok [OF assms(2)] by blast
  then show ?thesis using assms(1) by simp
qed

lemma recorded_typed: "recorded_costs costs \<Longrightarrow> (\<forall>c \<in> set costs. cost_typed c) \<and> cost_inv costs"
proof (induction rule: recorded_costs.induct)
  case empty
  show ?case by (simp add: cost_inv_def)
next
  case (recorded costs res mode k v observed now costs')
  then show ?case using record_cost_typed cost_row_typed record_cost_keeps_inv by blast
next
  case (activated costs k v)
  then show ?case using activate_version_inv [of costs k v] by (simp add: activate_version_map) (auto simp: activate_version_map)
next
  case (erased costs keys)
  then show ?case by (simp add: cost_inv_iff) (metis distinct_map_filter)
qed

section \<open>The operations take these steps\<close>

text \<open>The billing modes of the overrides and of the sources are among \<open>modes\<close>.\<close>

definition modes_within :: "string set \<Rightarrow> (string, string) dict \<Rightarrow> 'a cost_db_scheme \<Rightarrow> bool" where
  "modes_within modes overrides db \<longleftrightarrow> snd ` set overrides \<subseteq> modes
     \<and> so_billing_mode ` set (st_rows (cd_sources db)) \<subseteq> modes"

lemma resolved_mode_within:
  assumes "modes_within modes overrides db"
  shows "resolve_billing_mode (source_billing_mode db i) machine overrides \<in> insert API_BILLED modes"
proof -
  have s: "source_billing_mode db i = Some m \<Longrightarrow> m \<in> modes" for m
    using assms by (force simp: source_billing_mode_def modes_within_def split: option.splits dest!: map_of_SomeD)
  have o: "dget overrides k = Some m \<Longrightarrow> m \<in> modes" for k m
    using assms by (force simp: modes_within_def dest: map_of_SomeD)
  show ?thesis using s o unfolding resolve_billing_mode_def
    by (auto split: option.splits simp: bind_eq_Some_conv)
qed

locale cost_table =
  fixes modes :: "string set" and good :: "computed_cost list \<Rightarrow> bool"
  assumes recorded_good: "good costs \<Longrightarrow> compute_cost reg rates inp = (Inr res :: unit cost_error + cost_result)
      \<Longrightarrow> mode \<in> insert API_BILLED modes
      \<Longrightarrow> record_cost (cost_row k v mode observed now res) costs = (Inr costs' :: unit cost_error + computed_cost list)
      \<Longrightarrow> good costs'"
    and activated_good: "good costs \<Longrightarrow> good (activate_version k v costs)"
    and erased_good: "good costs \<Longrightarrow> good (filter (\<lambda>c. cost_key c \<notin> keys) costs)"
begin

lemma record_inputs_good:
  assumes "record_inputs cfg rates now k inp v observed db = (Inr (row, db') :: unit cost_error + _)"
    and "modes_within modes (cf_overrides cfg) db" and "good (cd_costs db)"
  shows "good (cd_costs db') \<and> cd_sources db' = cd_sources db"
proof -
  let ?mode = "resolve_billing_mode (source_billing_mode db (pi_source_id inp)) (pi_machine inp) (cf_overrides cfg)"
  obtain res costs where c: "compute_cost (cf_registry cfg) (rates inp) inp = (Inr res :: unit cost_error + _)"
    and r: "record_cost (cost_row k (case v of None \<Rightarrow> current_pricing_version db | Some v \<Rightarrow> v) ?mode observed now res)
        (cd_costs db) = (Inr costs :: unit cost_error + _)" and db': "db' = db\<lparr>cd_costs := costs\<rparr>"
    using assms(1) by (auto simp: record_inputs_def Let_def split: sum.splits)
  have "good costs" by (rule recorded_good [OF assms(3) c resolved_mode_within [OF assms(2)] r])
  then show ?thesis by (simp add: db')
qed

lemma record_rows_good:
  "record_rows cfg now v rows db = Inr db' \<Longrightarrow> modes_within modes (cf_overrides cfg) db \<Longrightarrow> good (cd_costs db)
    \<Longrightarrow> good (cd_costs db') \<and> cd_sources db' = cd_sources db"
proof (induction rows arbitrary: db)
  case (Cons r rows)
  obtain c db1 where step: "compute_and_record_row cfg (db_rates db) now r (billable_units_for db (row_key r)) (Some v) db
      = (Inr (c, db1) :: unit cost_error + _)" and rest: "record_rows cfg now v rows db1 = Inr db'"
    using Cons.prems(1) by (auto split: sum.splits)
  have "good (cd_costs db1) \<and> cd_sources db1 = cd_sources db"
  proof (cases "is_final_attempt r")
    case True
    then obtain row where "record_inputs cfg (db_rates db) now (row_key r) (row_inputs r (billable_units_for db (row_key r)))
        (Some v) (lg_observed_cost r) db = (Inr (row, db1) :: unit cost_error + _)"
      using step by (auto simp: compute_and_record_row_def split: sum.splits)
    then show ?thesis using record_inputs_good Cons.prems(2,3) by blast
  next
    case False
    then show ?thesis using step Cons.prems(3) by (simp add: compute_and_record_row_def)
  qed
  then show ?case using Cons.IH [OF rest] Cons.prems(2) by (simp add: modes_within_def)
qed simp

lemma wire_event_good:
  assumes "compute_and_record cfg rates now e v db = (Inr (row, db') :: unit cost_error + _)"
    and "modes_within modes (cf_overrides cfg) db" and "good (cd_costs db)"
  shows "good (cd_costs db')"
proof (cases "e2_event_kind e \<noteq> Attempt \<or> e2_finality e \<noteq> Final")
  case True
  then show ?thesis using assms(1,3) by (auto simp: compute_and_record_def)
next
  case False
  then obtain row1 where "record_inputs cfg rates now (e2_provider e, e2_event_id e) (wire_inputs e) v (e2_observed_cost e) db
      = (Inr (row1, db') :: unit cost_error + _)"
    using assms(1) by (auto simp: compute_and_record_def split: sum.splits)
  from record_inputs_good [OF this assms(2,3)] show ?thesis ..
qed

lemma sweep_good:
  assumes "sweep_uncosted_costs n ov now db = Inr (m, db')" and "modes_within modes ov db" and "good (cd_costs db)"
  shows "good (cd_costs db') \<and> cd_sources db' = cd_sources db"
proof -
  have "db' = db \<or> (\<exists>v rows. record_rows (worker_config ov) now v rows db = Inr db')"
    using assms(1) by (auto simp: sweep_uncosted_costs_def Let_def split: sum.splits if_splits)
  moreover have "modes_within modes (cf_overrides (worker_config ov)) db" using assms(2) by (simp add: worker_config_def)
  ultimately show ?thesis using record_rows_good assms(3) by blast
qed

lemma cost_loop_good:
  "modes_within modes ov db \<Longrightarrow> good (cd_costs db) \<Longrightarrow> good (cd_costs (cost_loop b ov nows db))"
proof (induction nows arbitrary: db)
  case (Cons now nows)
  show ?case
  proof (cases "sweep_uncosted_costs b ov now db")
    case (Inl e)
    then show ?thesis using Cons by simp
  next
    case (Inr p)
    obtain n db' where p: "p = (n, db')" by (cases p)
    have "good (cd_costs db') \<and> cd_sources db' = cd_sources db" using sweep_good Inr p Cons.prems by blast
    then show ?thesis using Inr p Cons by (simp add: modes_within_def)
  qed
qed simp

lemma reprice_good:
  assumes "reprice actor start finish p m ov now db = Inr (r, db')" and "modes_within modes ov db" and "good (cd_costs db)"
  shows "good (cd_costs db')"
proof -
  obtain version db1 where b: "bump_pricing_version now db = (version, db1)" by fastforce
  then have 1: "cd_costs db1 = cd_costs db" "cd_sources db1 = cd_sources db"
    by (auto simp: bump_pricing_version_def Let_def)
  obtain db2 where rows: "record_rows (worker_config ov) now version (matching_events start finish p m db1) db1 = Inr db2"
    and db': "cd_costs db' = cd_costs db2" using assms(1) b by (auto simp: reprice_def Let_def split: sum.splits)
  show ?thesis
    using record_rows_good [OF rows] 1 assms(2,3) unfolding db' by (simp add: worker_config_def modes_within_def)
qed

lemma revert_rows_good: "revert_rows v rows costs = Inr (n, costs') \<Longrightarrow> good costs \<Longrightarrow> good costs'"
  by (induction rows arbitrary: costs n) (auto split: sum.splits option.splits prod.splits intro: activated_good)

lemma revert_good:
  "revert actor v start finish p m now db = Inr (r, db') \<Longrightarrow> good (cd_costs db) \<Longrightarrow> good (cd_costs db')"
  using revert_rows_good by (fastforce simp: revert_def split: sum.splits)

lemma erase_good: "good (cd_costs db) \<Longrightarrow> good (cd_costs (erase_events dialect criteria db))"
  using erased_good by (simp add: erase_events_def Let_def)

lemma delete_day_good: "good (cd_costs db) \<Longrightarrow> good (cd_costs (snd (delete_day_events day db)))"
  using erased_good by (simp add: delete_day_events_def Let_def)

end

interpretation recorded: cost_table "set BILLING_MODES" recorded_costs
proof
  show "recorded_costs costs'" if "recorded_costs costs"
    "compute_cost reg rates inp = (Inr res :: unit cost_error + cost_result)" "mode \<in> insert API_BILLED (set BILLING_MODES)"
    "record_cost (cost_row k v mode observed now res) costs = (Inr costs' :: unit cost_error + computed_cost list)"
    for costs reg rates inp res mode k v observed now costs'
    using recorded_costs.recorded [OF that(1) compute_cost_typed [OF that(2)] _ that(4)] that(3) by (simp add: BILLING_MODES_def)
qed (rule recorded_costs.activated recorded_costs.erased, assumption)+

text \<open>
  The operations make no other changes to the cost table: from a table that such steps leave, any run of the
  worker, any repricing, revert and deletion leaves such a table again. The hypotheses: the modes of the sources
  and the overrides are known ones, which the settings and the sources route check.
\<close>

theorem cost_operations_recorded:
  assumes "recorded_costs (cd_costs db)" and "modes_within (set BILLING_MODES) ov db"
  shows "recorded_costs (cd_costs (cost_loop b ov nows db))
    \<and> (\<forall>r db'. reprice actor start finish p m ov now db = Inr (r, db') \<longrightarrow> recorded_costs (cd_costs db'))
    \<and> (\<forall>r db'. revert actor v start finish p m now db = Inr (r, db') \<longrightarrow> recorded_costs (cd_costs db'))
    \<and> recorded_costs (cd_costs (erase_events dialect criteria db))
    \<and> recorded_costs (cd_costs (snd (delete_day_events day db)))"
proof (intro conjI allI impI)
  show "recorded_costs (cd_costs (cost_loop b ov nows db))" by (rule recorded.cost_loop_good [OF assms(2,1)])
  show "recorded_costs (cd_costs db')" if "reprice actor start finish p m ov now db = Inr (r, db')" for r db'
    by (rule recorded.reprice_good [OF that assms(2,1)])
  show "recorded_costs (cd_costs db')" if "revert actor v start finish p m now db = Inr (r, db')" for r db'
    by (rule recorded.revert_good [OF that assms(1)])
qed (rule recorded.erase_good recorded.delete_day_good, rule assms(1))+

section \<open>Every row, after any history\<close>

text \<open>
  The histories of a database whose billing modes, in overrides and sources, are at all times among \<open>modes\<close>: it
  starts without costs, and then the operations that write costs run, with anything else that leaves the cost
  table alone between them.
\<close>

inductive cost_history :: "string set \<Rightarrow> 'a rollup_db_scheme \<Rightarrow> bool" for modes where
  start: "cd_costs db = [] \<Longrightarrow> cost_history modes db"
| recorded: "cost_history modes db \<Longrightarrow> modes_within modes (cf_overrides cfg) db
    \<Longrightarrow> compute_and_record cfg rates now e v db = (Inr (row, db') :: unit cost_error + computed_cost option \<times> 'a rollup_db_scheme)
    \<Longrightarrow> cost_history modes db'"
| swept: "cost_history modes db \<Longrightarrow> modes_within modes ov db \<Longrightarrow> sweep_uncosted_costs n ov now db = Inr (m, db')
    \<Longrightarrow> cost_history modes db'"
| repriced: "cost_history modes db \<Longrightarrow> modes_within modes ov db
    \<Longrightarrow> reprice actor start finish p m ov now db = Inr (r, db') \<Longrightarrow> cost_history modes db'"
| reverted: "cost_history modes db \<Longrightarrow> revert actor v start finish p m now db = Inr (r, db') \<Longrightarrow> cost_history modes db'"
| erased: "cost_history modes db \<Longrightarrow> cost_history modes (erase_events dialect criteria db)"
| day_deleted: "cost_history modes db \<Longrightarrow> cost_history modes (snd (delete_day_events day db))"
| others: "cost_history modes db \<Longrightarrow> cd_costs db' = cd_costs db \<Longrightarrow> cost_history modes db'"

text \<open>A result has one of four statuses, an amount when some unit was priced, and missing units when some was not.\<close>

definition result_exact :: "cost_result \<Rightarrow> bool" where
  "result_exact res \<longleftrightarrow>
     (case cr_amount res of
        Some _ \<Rightarrow> cr_cost_status res = (if cr_missing_units res = [] then ''priced'' else ''partial'')
      | None \<Rightarrow> cr_cost_status res = ''unpriced'' \<or> cr_cost_status res = ''error'' \<and> cr_missing_units res = [])"

lemma compute_cost_exact: "compute_cost reg rates inp = Inr res \<Longrightarrow> result_exact res"
  by (auto simp: compute_cost_def zero_consumption_result_def result_exact_def mk_result_def Let_def
      split: sum.splits if_splits option.splits prod.splits)

definition cost_exact :: "string set \<Rightarrow> computed_cost \<Rightarrow> bool" where
  "cost_exact modes c \<longleftrightarrow> cc_billing_mode c \<in> modes
     \<and> (let amount = (if cc_billing_mode c = ''subscription'' then cc_subscription_equivalent_amount c else cc_amount c);
            other = (if cc_billing_mode c = ''subscription'' then cc_amount c else cc_subscription_equivalent_amount c)
        in other = None \<and> cc_missing_units c \<noteq> Some []
         \<and> (case amount of
              Some _ \<Rightarrow> cc_cost_status c = (if cc_missing_units c = None then ''priced'' else ''partial'')
            | None \<Rightarrow> cc_cost_status c = ''unpriced'' \<or> cc_cost_status c = ''error'' \<and> cc_missing_units c = None))"

lemma cost_exact_active [simp]: "cost_exact modes (c\<lparr>cc_active := b\<rparr>) = cost_exact modes c"
  by (simp add: cost_exact_def Let_def cong: option.case_cong)

lemma cost_row_exact:
  "result_exact res \<Longrightarrow> mode \<in> modes \<Longrightarrow> cost_exact modes (cost_row k v mode observed now res)"
  by (auto simp: cost_exact_def cost_row_def result_exact_def SUBSCRIPTION_def Let_def split: option.splits)

definition costs_exact :: "string set \<Rightarrow> computed_cost list \<Rightarrow> bool" where
  "costs_exact modes costs \<longleftrightarrow> (\<forall>c \<in> set costs. cost_exact modes c) \<and> cost_inv costs"

lemma record_cost_exact:
  assumes "record_cost new costs = (Inr costs' :: unit cost_error + _)" and "cost_exact modes new" and "costs_exact modes costs"
  shows "costs_exact modes costs'"
proof -
  have d: "\<forall>c \<in> set (deactivate k costs). cost_exact modes c" for k using assms(3) by (auto simp: deactivate_def costs_exact_def)
  have "c \<in> set (deactivate (cost_key new) costs) \<or> c = new\<lparr>cc_active := True\<rparr>" if "c \<in> set costs'" for c
    using assms(1) that by (auto simp: record_cost_def Let_def split: if_splits list.splits)
  then have "\<forall>c \<in> set costs'. cost_exact modes c" using d assms(2) cost_exact_active by blast
  then show ?thesis using record_cost_keeps_inv [OF assms(1)] assms(3) by (simp add: costs_exact_def)
qed

interpretation exact: cost_table modes "costs_exact (insert API_BILLED modes)" for modes
proof
  show "costs_exact (insert API_BILLED modes) costs'" if "costs_exact (insert API_BILLED modes) costs"
    "compute_cost reg rates inp = (Inr res :: unit cost_error + cost_result)" "mode \<in> insert API_BILLED modes"
    "record_cost (cost_row k v mode observed now res) costs = (Inr costs' :: unit cost_error + computed_cost list)"
    for costs reg rates inp res mode k v observed now costs'
    using record_cost_exact [OF that(4) cost_row_exact [OF compute_cost_exact [OF that(2)] that(3)] that(1)] .
  show "costs_exact (insert API_BILLED modes) (activate_version k v costs)"
    if "costs_exact (insert API_BILLED modes) costs" for costs k v
    using that activate_version_inv [of costs k v] by (auto simp: costs_exact_def activate_version_map)
  show "costs_exact (insert API_BILLED modes) (filter (\<lambda>c. cost_key c \<notin> keys) costs)"
    if "costs_exact (insert API_BILLED modes) costs" for costs keys
    using that by (simp add: costs_exact_def cost_inv_iff) (metis distinct_map_filter)
qed

lemma history_exact: "cost_history modes db \<Longrightarrow> costs_exact (insert API_BILLED modes) (cd_costs db)"
proof (induction rule: cost_history.induct)
  case (start db)
  then show ?case by (simp add: costs_exact_def cost_inv_def)
next
  case recorded
  then show ?case using exact.wire_event_good by blast
next
  case swept
  then show ?case using exact.sweep_good by blast
next
  case repriced
  then show ?case using exact.reprice_good by blast
next
  case reverted
  then show ?case using exact.revert_good by blast
next
  case erased
  then show ?case using exact.erase_good by blast
next
  case day_deleted
  then show ?case using exact.delete_day_good by blast
next
  case others
  then show ?case by simp
qed



theorem cost_operations_recorded_witness:
  "recorded_costs (cd_costs (cost_loop 5 [(''m'', SUBSCRIPTION)] [0] (sample_rollup_db [] [])))"
proof -
  have "recorded_costs (cd_costs (sample_rollup_db [] []))" by (simp add: sample_rollup_db_def recorded_costs.empty)
  moreover have "modes_within (set BILLING_MODES) [(''m'', SUBSCRIPTION)] (sample_rollup_db [] [])"
    by (simp add: modes_within_def sample_rollup_db_def BILLING_MODES_def)
  ultimately show ?thesis using cost_operations_recorded by blast
qed

end
