(* ===== verification/Ledger_Queries.thy ===== *)
theory Ledger_Queries
  imports Trace_Queries Registries "HOL-Library.Log_Nat"
begin

text \<open>
  \<open>services/queries_v2.py\<close>, \<open>services/cost_queries.py\<close> and \<open>services/heatmap_v2.py\<close>: usage and cost grouped by one
  dimension, the reconciliation of observed with computed cost, the two cost metrics, and the heatmap. Sums of
  amounts are exact; the division of the drift is rounded as the decimal context of 28 digits does.
\<close>

section \<open>Dimensions and filters\<close>

definition LEDGER_DIMENSIONS :: "(string, ledger_row \<Rightarrow> string) dict" where
  "LEDGER_DIMENSIONS = [(''provider'', lg_provider), (''model'', lg_native_model),
     (''machine'', \<lambda>r. coalesce (lg_machine r) []), (''project'', \<lambda>r. coalesce (lg_project r) []),
     (''environment'', \<lambda>r. coalesce (lg_environment r) []), (''session'', \<lambda>r. coalesce (lg_session_id r) [])]"

definition USAGE_DIMENSIONS :: "string list" where
  "USAGE_DIMENSIONS = [''day'', ''source''] @ dkeys LEDGER_DIMENSIONS"

definition day_key :: "ledger_row \<Rightarrow> string" where
  "day_key r = iso_date (utc_date (lg_ts_started r))"

text \<open>An unknown dimension is a \<open>KeyError\<close>, here \<open>None\<close>.\<close>

definition usage_key :: "'a cost_db_scheme \<Rightarrow> string \<Rightarrow> (ledger_row \<Rightarrow> string) option" where
  "usage_key db dimension =
     (if dimension = ''day'' then Some day_key
      else if dimension = ''source'' then Some (\<lambda>r. coalesce (source_name db (lg_source_id r)) [])
      else dget LEDGER_DIMENSIONS dimension)"

definition ledger_filters :: "registry_db \<Rightarrow> query_filters \<Rightarrow> ledger_row \<Rightarrow> bool" where
  "ledger_filters reg f r \<longleftrightarrow> opt_eq (qf_provider f) (lg_provider r) \<and> opt_eq (qf_native_model f) (lg_native_model r)
     \<and> opt_eq (map_option Some (qf_machine f)) (lg_machine r) \<and> opt_eq (map_option Some (qf_project f)) (lg_project r)
     \<and> opt_eq (map_option Some (qf_session_id f)) (lg_session_id r)
     \<and> opt_eq (map_option Some (qf_environment f)) (lg_environment r)
     \<and> (case qf_outcome f of None \<Rightarrow> True | Some out \<Rightarrow> lg_success r = (out = ''success''))
     \<and> (qf_unknown_provider f \<longrightarrow> lg_provider r \<notin> set (map pv_id (rb_providers reg)))
     \<and> (qf_unknown_model f \<longrightarrow> (lg_provider r, lg_native_model r) \<notin> set (map model_key (rb_models reg)))"

section \<open>Usage\<close>

record usage_agg_row =
  us_key :: string
  us_input_tokens :: int
  us_output_tokens :: int
  us_cache_read_tokens :: int
  us_cache_write_short_tokens :: int
  us_cache_write_long_tokens :: int
  us_reasoning_tokens :: int
  us_total_tokens :: int
  us_attempt_count :: nat

definition usage_agg :: "string \<times> ledger_row list \<Rightarrow> usage_agg_row" where
  "usage_agg = (\<lambda>(k, rows). \<lparr>us_key = k, us_input_tokens = sum_list (map lg_input_tokens rows),
     us_output_tokens = sum_list (map lg_output_tokens rows), us_cache_read_tokens = sum_list (map lg_cache_read_tokens rows),
     us_cache_write_short_tokens = sum_list (map lg_cache_write_short_tokens rows),
     us_cache_write_long_tokens = sum_list (map lg_cache_write_long_tokens rows),
     us_reasoning_tokens = sum_list (map lg_reasoning_tokens rows),
     us_total_tokens = sum_list (map event_token_total rows), us_attempt_count = length rows\<rparr>)"

text \<open>The rows that a usage query counts.\<close>

definition usage_rows :: "registry_db \<Rightarrow> int \<Rightarrow> int \<Rightarrow> query_filters \<Rightarrow> 'a cost_db_scheme \<Rightarrow> ledger_row list" where
  "usage_rows reg start finish f db = filter (\<lambda>r. in_range start finish r \<and> ledger_filters reg f r) (lb_events (cd_ledger db))"

definition grouped_usage ::
  "registry_db \<Rightarrow> string \<Rightarrow> int \<Rightarrow> int \<Rightarrow> query_filters \<Rightarrow> 'a cost_db_scheme \<Rightarrow> usage_agg_row list option" where
  "grouped_usage reg dimension start finish f db =
     map_option (\<lambda>key. map usage_agg (sort_key fst (sql_groups key (usage_rows reg start finish f db)))) (usage_key db dimension)"

section \<open>Costs\<close>

record cost_agg_row =
  cs_key :: string
  cs_actual_spend_usd :: decimal
  cs_subscription_value_usd :: decimal
  cs_priced_usd :: decimal
  cs_partial_usd :: decimal
  cs_estimated_usd :: decimal
  cs_unpriced_event_count :: nat
  cs_pricing_version :: string

text \<open>Active costs with the events that carry their key.\<close>

type_synonym cost_event = "computed_cost \<times> ledger_row"

definition cost_events :: "'a cost_db_scheme \<Rightarrow> cost_event list" where
  "cost_events db = concat (map (\<lambda>c. map (Pair c) (filter (\<lambda>r. cost_key c = row_key r) (lb_events (cd_ledger db))))
     (filter cc_active (cd_costs db)))"

definition sum_when :: "('x \<Rightarrow> bool) \<Rightarrow> ('x \<Rightarrow> decimal option) \<Rightarrow> 'x list \<Rightarrow> decimal" where
  "sum_when P f rows = coalesce (sql_sum (map (\<lambda>x. if P x then f x else None) rows)) 0"

definition is_subscription :: "computed_cost \<Rightarrow> bool" where
  "is_subscription c \<longleftrightarrow> cc_billing_mode c = SUBSCRIPTION"

definition spend_of_status :: "string \<Rightarrow> computed_cost list \<Rightarrow> decimal" where
  "spend_of_status status = sum_when (\<lambda>c. \<not> is_subscription c \<and> cc_cost_status c = status) cc_amount"

definition cost_agg :: "string \<times> computed_cost list \<Rightarrow> cost_agg_row" where
  "cost_agg = (\<lambda>(k, costs). \<lparr>cs_key = k,
     cs_actual_spend_usd = sum_when (\<lambda>c. \<not> is_subscription c) cc_amount costs,
     cs_subscription_value_usd = sum_when is_subscription cc_subscription_equivalent_amount costs,
     cs_priced_usd = spend_of_status ''priced'' costs,
     cs_partial_usd = spend_of_status ''partial'' costs,
     cs_estimated_usd = spend_of_status ''estimated'' costs,
     cs_unpriced_event_count = length (filter (\<lambda>c. cc_cost_status c \<in> set UNPRICED_STATUSES) costs),
     cs_pricing_version = (if length (remdups (map cc_pricing_version costs)) \<le> 1 then Min (set (map cc_pricing_version costs))
                           else ''mixed'')\<rparr>)"

text \<open>The rows that a cost query counts: of any event, final or not.\<close>

definition cost_rows ::
  "registry_db \<Rightarrow> int \<Rightarrow> int \<Rightarrow> query_filters \<Rightarrow> 'a cost_db_scheme \<Rightarrow> cost_event list" where
  "cost_rows reg start finish f db =
     filter (\<lambda>(c, r). start \<le> lg_ts_started r \<and> lg_ts_started r \<le> finish \<and> ledger_filters reg f r) (cost_events db)"

definition grouped_costs ::
  "registry_db \<Rightarrow> string \<Rightarrow> int \<Rightarrow> int \<Rightarrow> query_filters \<Rightarrow> 'a cost_db_scheme \<Rightarrow> cost_agg_row list option" where
  "grouped_costs reg dimension start finish f db =
     map_option (\<lambda>key. map (\<lambda>(k, rows). cost_agg (k, map fst rows))
         (sort_key fst (sql_groups (key \<circ> snd) (cost_rows reg start finish f db)))) (usage_key db dimension)"

section \<open>Reconciliation\<close>

text \<open>Rounding to 28 significant digits, and to two places.\<close>

definition int_digits :: "rat \<Rightarrow> int" where
  "int_digits x = (if 1 \<le> \<bar>x\<bar> then int (floorlog 10 (nat \<lfloor>\<bar>x\<bar>\<rfloor>)) else 1 - int (floorlog 10 (nat (\<lceil>1 / \<bar>x\<bar>\<rceil> - 1))))"

definition context_round :: "rat \<Rightarrow> rat" where
  "context_round x =
     (if x = 0 then 0
      else let k = 28 - int_digits x
           in if 0 \<le> k then of_int (round_half_even (x * 10 ^ nat k)) / 10 ^ nat k
              else of_int (round_half_even (x / 10 ^ nat (- k))) * 10 ^ nat (- k))"

definition quantize2 :: "decimal \<Rightarrow> decimal" where
  "quantize2 x = of_int (round_half_even (x * 100)) / 100"

record reconciliation_row =
  rn_provider :: string
  rn_computed_usd :: decimal
  rn_observed_usd :: decimal
  rn_drift_usd :: decimal
  rn_event_count :: nat
  rn_day :: "string option"
  rn_drift_pct :: "decimal option"

definition RECONCILIATION_DIMENSIONS :: "string list" where
  "RECONCILIATION_DIMENSIONS = [''provider'', ''day'']"

definition drift_pct_of :: "decimal \<Rightarrow> decimal \<Rightarrow> decimal option" where
  "drift_pct_of drift computed =
     (if computed \<noteq> 0 then Some (quantize2 (context_round (context_round (drift / computed) * 100))) else None)"

definition reconciliation_row_of :: "(string \<times> string option) \<times> computed_cost list \<Rightarrow> reconciliation_row" where
  "reconciliation_row_of = (\<lambda>((provider, day), costs).
     let computed = coalesce (sql_sum (map cc_amount costs)) 0;
         observed = coalesce (sql_sum (map (map_option dec_value \<circ> cc_observed_cost) costs)) 0;
         drift = observed - computed
     in \<lparr>rn_provider = provider, rn_computed_usd = computed, rn_observed_usd = observed, rn_drift_usd = drift,
         rn_event_count = length costs, rn_day = day, rn_drift_pct = drift_pct_of drift computed\<rparr>)"

definition observed_rows ::
  "registry_db \<Rightarrow> int \<Rightarrow> int \<Rightarrow> query_filters \<Rightarrow> 'a cost_db_scheme \<Rightarrow> cost_event list" where
  "observed_rows reg start finish f db = filter (\<lambda>(c, r). cc_observed_cost c \<noteq> None) (cost_rows reg start finish f db)"

definition cost_reconciliation ::
  "registry_db \<Rightarrow> int \<Rightarrow> int \<Rightarrow> query_filters \<Rightarrow> string \<Rightarrow> 'a cost_db_scheme \<Rightarrow> reconciliation_row list option" where
  "cost_reconciliation reg start finish f group_by db =
     (if group_by \<notin> set RECONCILIATION_DIMENSIONS then None
      else let by_day = (group_by = ''day'');
               key = (\<lambda>(c, r). (lg_provider r, if by_day then Some (day_key r) else None));
               groups = sql_groups key (observed_rows reg start finish f db);
               sorted = sort_key (fst \<circ> fst) (sort_key (\<lambda>g. coalesce (snd (fst g)) []) groups)
           in Some (map (\<lambda>(k, rows). reconciliation_row_of (k, map fst rows)) sorted))"

section \<open>The two cost metrics\<close>

record dual_metrics =
  dm_actual_spend_usd :: decimal
  dm_subscription_value_usd :: decimal

text \<open>Without bounds the costs are not joined with the events.\<close>

definition cost_sum ::
  "(computed_cost \<Rightarrow> decimal option) \<Rightarrow> string \<Rightarrow> int option \<Rightarrow> int option \<Rightarrow> 'a cost_db_scheme \<Rightarrow> decimal" where
  "cost_sum amount billing_mode start finish db =
     (let costs = (if start = None \<and> finish = None then filter cc_active (cd_costs db)
          else map fst (filter (\<lambda>(c, r). (case start of None \<Rightarrow> True | Some s \<Rightarrow> s \<le> lg_ts_started r)
                  \<and> (case finish of None \<Rightarrow> True | Some t \<Rightarrow> lg_ts_started r \<le> t)) (cost_events db)))
      in coalesce (sql_sum (map amount (filter (\<lambda>c. cc_billing_mode c = billing_mode) costs))) 0)"

definition dual_cost_metrics :: "int option \<Rightarrow> int option \<Rightarrow> 'a cost_db_scheme \<Rightarrow> dual_metrics" where
  "dual_cost_metrics start finish db =
     \<lparr>dm_actual_spend_usd = cost_sum cc_amount API_BILLED start finish db,
      dm_subscription_value_usd = cost_sum cc_subscription_equivalent_amount SUBSCRIPTION start finish db\<rparr>"

section \<open>The heatmap\<close>

record punch_cell =
  pc_weekday :: int
  pc_hour :: int
  pc_value :: int

record calendar_cell =
  cl_day :: date
  cl_value :: int

record heatmap =
  hm_punch_card :: "punch_cell list"
  hm_calendar :: "calendar_cell list"
  hm_total_tokens :: int
  hm_start :: date
  hm_end :: date

text \<open>The range ends at 23:59:59 of the last day.\<close>

definition day_bounds :: "date \<Rightarrow> date \<Rightarrow> int \<Rightarrow> bool" where
  "day_bounds start finish t \<longleftrightarrow> start * DAY_US \<le> t \<and> t \<le> finish * DAY_US + 86399 * SECOND_US"

definition hour_of :: "int \<Rightarrow> int" where
  "hour_of t = t mod DAY_US div (3600 * SECOND_US)"

definition heatmap_filters :: "query_filters \<Rightarrow> ledger_row \<Rightarrow> bool" where
  "heatmap_filters f r \<longleftrightarrow> filter_matches f r
     \<and> (case qf_outcome f of None \<Rightarrow> True | Some out \<Rightarrow> lg_success r = (out = ''success''))"

definition heat_step ::
  "ledger_row \<Rightarrow> (int \<times> int, int) dict \<times> (date, int) dict \<times> int \<Rightarrow> (int \<times> int, int) dict \<times> (date, int) dict \<times> int" where
  "heat_step r = (\<lambda>(punch, calendar, total_tokens).
     let t = lg_ts_started r; n = event_token_total r
     in (dadd (weekday (utc_date t), hour_of t) n punch, dadd (utc_date t) n calendar, total_tokens + n))"

definition heat_rows :: "query_filters \<Rightarrow> date \<Rightarrow> date \<Rightarrow> 'a cost_db_scheme \<Rightarrow> ledger_row list" where
  "heat_rows f start finish db =
     filter (\<lambda>r. is_final_attempt r \<and> day_bounds start finish (lg_ts_started r) \<and> heatmap_filters f r) (lb_events (cd_ledger db))"

definition build_heatmap :: "query_filters \<Rightarrow> date \<Rightarrow> date \<Rightarrow> 'a cost_db_scheme \<Rightarrow> heatmap" where
  "build_heatmap f start finish db =
     (case fold heat_step (heat_rows f start finish db) ([], [], 0) of
        (punch, calendar, total_tokens) \<Rightarrow>
          \<lparr>hm_punch_card = map (\<lambda>((wd, hr), v). \<lparr>pc_weekday = wd, pc_hour = hr, pc_value = v\<rparr>)
               (sort_key (fst \<circ> fst) (sort_key (snd \<circ> fst) punch)),
           hm_calendar = map (\<lambda>(d, v). \<lparr>cl_day = d, cl_value = v\<rparr>) (sort_key fst calendar),
           hm_total_tokens = total_tokens, hm_start = start, hm_end = finish\<rparr>)"

end
