(* ===== verification/Ledger_Query_Laws.thy ===== *)
theory Ledger_Query_Laws
  imports Ledger_Queries Trace_Laws Cost_Types
begin

text \<open>
  The laws of the grouped queries: they conserve what they group, agree with each other whatever the dimension, and
  where their ranges and filters differ.
\<close>

section \<open>Sorted groups\<close>

lemma sorted_group_keys: "sorted_wrt (<) (map fst (sort_key fst (sql_groups key xs)))"
proof -
  have "mset (map fst (sort_key fst (sql_groups key xs))) = mset (map fst (sql_groups key xs))" by simp
  then have "distinct (map fst (sort_key fst (sql_groups key xs))) \<longleftrightarrow> distinct (map fst (sql_groups key xs))"
    by (rule mset_eq_imp_distinct_iff)
  then have "distinct (map fst (sort_key fst (sql_groups key xs)))" by (simp only: groups_keys distinct_group_keys)
  then show ?thesis by (simp add: strict_sorted_iff)
qed

lemma sorted_sum: "sum_list (map f (sort_key k gs)) = sum_list (map f gs)" for f :: "'b \<Rightarrow> 'v::comm_monoid_add"
  by (simp flip: sum_mset_sum_list)

lemma sorted_groups_conserve:
  fixes h :: "'r \<Rightarrow> 'v::comm_monoid_add"
  shows "sum_list (map (\<lambda>(k, rows). sum_list (map h rows)) (sort_key fst (sql_groups key xs))) = sum_list (map h xs)"
  by (simp only: sorted_sum groups_conserve)

lemma group_filter: "(k, rows) \<in> set (sort_key f (sql_groups key xs)) \<Longrightarrow> rows = filter (\<lambda>x. key x = k) xs \<and> rows \<noteq> []"
  unfolding set_sort by (rule group_rows)

section \<open>Usage\<close>

definition us_columns :: "usage_agg_row \<Rightarrow> int list" where
  "us_columns u = [us_input_tokens u, us_output_tokens u, us_cache_read_tokens u, us_cache_write_short_tokens u,
     us_cache_write_long_tokens u, us_reasoning_tokens u, us_total_tokens u]"

lemma usage_agg_columns:
  assumes "i < 7"
  shows "us_columns (usage_agg (k, rows)) ! i = sum_list (map (\<lambda>r. token_columns r ! i) rows)"
proof -
  have "i \<in> {0, 1, 2, 3, 4, 5, 6}" using assms by auto
  then show ?thesis
    by (auto simp: us_columns_def usage_agg_def token_columns_def event_token_total_def [abs_def] ledger_tokens_def [abs_def] algebra_simps)
qed

lemma usage_key_known: "usage_key db dimension = None \<longleftrightarrow> dimension \<notin> set USAGE_DIMENSIONS"
  by (auto simp: usage_key_def USAGE_DIMENSIONS_def LEDGER_DIMENSIONS_def)

text \<open>
  Grouped usage conserves tokens and attempts in every dimension: the rows are sorted by distinct keys, each counts
  exactly the matching attempts of its key and at least one, and every column adds up to that of the matching
  attempts; so any two dimensions agree. The hypothesis: the dimension is a known one, that is, the query answers.
\<close>

theorem grouped_usage_conserves:
  assumes "grouped_usage reg dimension start finish f db = Some rows"
  shows "(\<forall>i < 7. sum_list (map (\<lambda>u. us_columns u ! i) rows)
        = sum_list (map (\<lambda>r. token_columns r ! i) (usage_rows reg start finish f db)))
    \<and> sum_list (map us_attempt_count rows) = length (usage_rows reg start finish f db)
    \<and> sorted_wrt (<) (map us_key rows)
    \<and> (\<forall>u \<in> set rows. 0 < us_attempt_count u \<and> (\<exists>key. usage_key db dimension = Some key
        \<and> us_attempt_count u = length (filter (\<lambda>r. key r = us_key u) (usage_rows reg start finish f db))))"
proof -
  let ?xs = "usage_rows reg start finish f db"
  obtain key where key: "usage_key db dimension = Some key"
    and rows: "rows = map usage_agg (sort_key fst (sql_groups key ?xs))"
    using assms by (auto simp: grouped_usage_def)
  have "sum_list (map (\<lambda>u. us_columns u ! i) rows) = sum_list (map (\<lambda>r. token_columns r ! i) ?xs)" if "i < 7" for i
  proof -
    have "(\<lambda>u. us_columns u ! i) \<circ> usage_agg = (\<lambda>(k, rows). sum_list (map (\<lambda>r. token_columns r ! i) rows))"
      using usage_agg_columns [OF that] by (auto simp: fun_eq_iff)
    then show ?thesis by (simp only: rows map_map sorted_groups_conserve)
  qed
  moreover have "sum_list (map us_attempt_count rows) = length ?xs"
  proof -
    have "us_attempt_count \<circ> usage_agg = (\<lambda>(k, rows). length rows)" by (simp add: usage_agg_def fun_eq_iff)
    then show ?thesis by (simp only: rows map_map sorted_sum groups_count)
  qed
  moreover have "us_key \<circ> usage_agg = fst" by (simp add: usage_agg_def fun_eq_iff)
  then have "sorted_wrt (<) (map us_key rows)" by (simp only: rows map_map sorted_group_keys)
  moreover have "\<forall>u \<in> set rows. 0 < us_attempt_count u \<and> us_attempt_count u = length (filter (\<lambda>r. key r = us_key u) ?xs)"
    using group_filter [of _ _ fst key ?xs] by (auto simp: rows usage_agg_def)
  ultimately show ?thesis using key by blast
qed

section \<open>Costs\<close>

lemma sum_when_sum: "sum_when P f xs = sum_list (map (\<lambda>x. if P x then coalesce (f x) 0 else 0) xs)"
  by (simp add: sum_when_def coalesce_sql_sum comp_def if_distrib [where f = "\<lambda>x. coalesce x 0"] cong: if_cong)

lemma cost_sum_sum:
  "coalesce (sql_sum (map f (filter P xs))) 0 = sum_when P f xs"
  unfolding sum_when_sum coalesce_sql_sum by (induction xs) simp_all

text \<open>The columns of a cost row as sums over its costs.\<close>

definition cost_columns :: "cost_agg_row \<Rightarrow> decimal list" where
  "cost_columns c = [cs_actual_spend_usd c, cs_subscription_value_usd c, cs_priced_usd c, cs_partial_usd c, cs_estimated_usd c,
     of_nat (cs_unpriced_event_count c)]"

definition cost_parts :: "computed_cost \<Rightarrow> decimal list" where
  "cost_parts c =
     (let spend = (if is_subscription c then 0 else coalesce (cc_amount c) 0);
          of_status = (\<lambda>s. if cc_cost_status c = s then spend else 0)
      in [spend, if is_subscription c then coalesce (cc_subscription_equivalent_amount c) 0 else 0,
          of_status ''priced'', of_status ''partial'', of_status ''estimated'',
          if cc_cost_status c \<in> set UNPRICED_STATUSES then 1 else 0])"

lemma count_filter: "of_nat (length (filter P xs)) = sum_list (map (\<lambda>x. if P x then 1 else 0 :: 'v::semiring_1) xs)"
  by (induction xs) simp_all

lemma cost_agg_columns:
  assumes "i < 6"
  shows "cost_columns (cost_agg (k, costs)) ! i = sum_list (map (\<lambda>c. cost_parts c ! i) costs)"
proof -
  have "i \<in> {0, 1, 2, 3, 4, 5}" using assms by auto
  then show ?thesis
    by (auto simp: cost_columns_def cost_agg_def cost_parts_def Let_def spend_of_status_def sum_when_sum count_filter
      intro!: arg_cong [where f = sum_list])
qed

lemma typed_spend:
  assumes "cost_typed c"
  shows "cost_parts c ! 0 = cost_parts c ! 2 + cost_parts c ! 3 + cost_parts c ! 4"
  using assms by (auto simp: cost_typed_def cost_parts_def Let_def is_subscription_def COST_STATUSES_def UNPRICED_STATUSES_def
      BILLING_MODES_def)

lemma unfiltered: "ledger_filters reg no_filters r"
  by (simp add: ledger_filters_def no_filters_def opt_eq_def)

text \<open>
  C37. The cost of a range is the same in every view: with a cost table that the operations can leave, the actual spend
  and the subscription value of the grouped rows add up to the two cost metrics, whatever the dimension, the
  unpriced events are counted once each, and in every row the actual spend is its priced, partial and estimated parts.
  The two metrics are never mixed. The hypotheses: the table is one the operations can leave, and the dimension is known.
\<close>

theorem cost_views_agree:
  assumes "recorded_costs (cd_costs db)" and "grouped_costs reg dimension start finish no_filters db = Some rows"
  shows "sum_list (map cs_actual_spend_usd rows) = dm_actual_spend_usd (dual_cost_metrics (Some start) (Some finish) db)
    \<and> sum_list (map cs_subscription_value_usd rows) = dm_subscription_value_usd (dual_cost_metrics (Some start) (Some finish) db)
    \<and> sum_list (map cs_unpriced_event_count rows)
        = length (filter (\<lambda>(c, r). cc_cost_status c \<in> set UNPRICED_STATUSES) (cost_rows reg start finish no_filters db))
    \<and> sorted_wrt (<) (map cs_key rows)
    \<and> (\<forall>q \<in> set rows. cs_actual_spend_usd q = cs_priced_usd q + cs_partial_usd q + cs_estimated_usd q)"
proof -
  let ?xs = "cost_rows reg start finish no_filters db"
  let ?agg = "\<lambda>(k, rows). cost_agg (k, map fst rows)"
  obtain key where rows: "rows = map ?agg (sort_key fst (sql_groups (key \<circ> snd) ?xs))"
    using assms(2) by (auto simp: grouped_costs_def)
  have col: "sum_list (map (\<lambda>q. cost_columns q ! i) rows) = sum_list (map (\<lambda>x. cost_parts (fst x) ! i) ?xs)" if "i < 6" for i
  proof -
    have "map (\<lambda>q. cost_columns q ! i) rows
        = map (\<lambda>(k, rows). sum_list (map (\<lambda>x. cost_parts (fst x) ! i) rows)) (sort_key fst (sql_groups (key \<circ> snd) ?xs))"
      using cost_agg_columns [OF that] by (auto simp: rows comp_def)
    then show ?thesis by (simp only: sorted_groups_conserve)
  qed
  have typed: "\<forall>c \<in> set (cd_costs db). cost_typed c" using recorded_typed [OF assms(1)] ..
  then have xs: "\<forall>x \<in> set ?xs. cost_typed (fst x)" by (auto simp: cost_rows_def cost_events_def)
  have ranged: "?xs = filter (\<lambda>(c, r). start \<le> lg_ts_started r \<and> lg_ts_started r \<le> finish) (cost_events db)"
    by (simp add: cost_rows_def unfiltered)
  have metric: "cost_sum amount mode (Some start) (Some finish) db
      = sum_list (map (\<lambda>x. if cc_billing_mode (fst x) = mode then coalesce (amount (fst x)) 0 else 0) ?xs)" for amount mode
    unfolding cost_sum_def Let_def cost_sum_sum ranged by (simp add: sum_when_sum comp_def)
  have mode: "cc_billing_mode (fst x) = API_BILLED \<longleftrightarrow> \<not> is_subscription (fst x)" if "x \<in> set ?xs" for x
    using xs that by (auto simp: cost_typed_def is_subscription_def BILLING_MODES_def)
  have "sum_list (map cs_actual_spend_usd rows) = dm_actual_spend_usd (dual_cost_metrics (Some start) (Some finish) db)"
    using col [of 0] mode unfolding dual_cost_metrics_def
    by (simp add: cost_columns_def cost_parts_def Let_def metric) (auto intro!: arg_cong [where f = sum_list] map_cong)
  moreover have "sum_list (map cs_subscription_value_usd rows)
      = dm_subscription_value_usd (dual_cost_metrics (Some start) (Some finish) db)"
    using col [of 1] unfolding dual_cost_metrics_def by (simp add: cost_columns_def cost_parts_def Let_def metric is_subscription_def)
  moreover have "sum_list (map cs_unpriced_event_count rows)
      = length (filter (\<lambda>(c, r). cc_cost_status c \<in> set UNPRICED_STATUSES) ?xs)"
  proof -
    have "of_nat (sum_list (map cs_unpriced_event_count rows)) = sum_list (map (\<lambda>q. cost_columns q ! 5) rows)"
      by (induction rows) (simp_all add: cost_columns_def)
    also have "\<dots> = of_nat (length (filter (\<lambda>(c, r). cc_cost_status c \<in> set UNPRICED_STATUSES) ?xs))"
      using col [of 5] by (simp add: count_filter cost_parts_def Let_def case_prod_unfold)
    finally show ?thesis by (simp only: of_nat_eq_iff)
  qed
  moreover have "sorted_wrt (<) (map cs_key rows)"
  proof -
    have "map cs_key rows = map fst (sort_key fst (sql_groups (key \<circ> snd) ?xs))" by (auto simp: rows cost_agg_def)
    then show ?thesis by (simp only: sorted_group_keys)
  qed
  moreover have "cs_actual_spend_usd q = cs_priced_usd q + cs_partial_usd q + cs_estimated_usd q" if "q \<in> set rows" for q
  proof -
    obtain k ys where q: "q = cost_agg (k, map fst ys)" and "(k, ys) \<in> set (sort_key fst (sql_groups (key \<circ> snd) ?xs))"
      using \<open>q \<in> set rows\<close> by (auto simp: rows)
    then have "\<forall>c \<in> set (map fst ys). cost_typed c" using group_filter [of k ys fst "key \<circ> snd" ?xs] xs by auto
    then have "sum_list (map (\<lambda>c. cost_parts c ! 0) (map fst ys))
        = sum_list (map (\<lambda>c. cost_parts c ! 2 + cost_parts c ! 3 + cost_parts c ! 4) (map fst ys))"
      using typed_spend by (intro arg_cong [where f = sum_list] map_cong) auto
    then have "cost_columns q ! 0 = cost_columns q ! 2 + cost_columns q ! 3 + cost_columns q ! 4"
      unfolding q by (simp add: cost_agg_columns sum_list_addf del: map_map)
    then show ?thesis by (simp add: cost_columns_def)
  qed
  ultimately show ?thesis by blast
qed

section \<open>Reconciliation\<close>

lemma groups_conserve_some:
  fixes h :: "'r \<Rightarrow> 'v::comm_monoid_add"
  shows "sum_list (map (\<lambda>(k, rows). sum_list (map h rows)) (filter (P \<circ> fst) (sql_groups key xs)))
    = sum_list (map h (filter (\<lambda>x. P (key x)) xs))"
proof -
  let ?h = "\<lambda>x. if P (key x) then h x else 0"
  have f: "sum_list (map g (filter Q ys)) = sum_list (map (\<lambda>y. if Q y then g y else 0) ys)" for g :: "'y \<Rightarrow> 'v" and Q ys
    by (induction ys) simp_all
  have g: "sum_list (map ?h rows) = (if P k then sum_list (map h rows) else 0)" if "(k, rows) \<in> set (sql_groups key xs)" for k rows
  proof -
    have "\<forall>x \<in> set rows. key x = k" using group_rows [OF that] by simp
    then have m: "map ?h rows = map (\<lambda>x. if P k then h x else 0) rows" by simp
    show ?thesis unfolding m by simp
  qed
  have "sum_list (map (\<lambda>(k, rows). sum_list (map h rows)) (filter (P \<circ> fst) (sql_groups key xs)))
      = sum_list (map (\<lambda>(k, rows). sum_list (map ?h rows)) (sql_groups key xs))"
    unfolding f by (intro arg_cong [where f = sum_list] map_cong [OF refl]) (auto simp: g)
  then show ?thesis unfolding groups_conserve f .
qed

lemma sum_filter_mset:
  fixes f :: "'r \<Rightarrow> 'v::comm_monoid_add"
  assumes "mset xs = mset ys"
  shows "sum_list (map f (filter P xs)) = sum_list (map f (filter P ys))"
proof -
  have "mset (map f (filter P xs)) = mset (map f (filter P ys))" using assms by simp
  from arg_cong [OF this, of sum_mset] show ?thesis by (simp only: sum_mset_sum_list)
qed

definition rec_columns :: "reconciliation_row \<Rightarrow> decimal list" where
  "rec_columns q = [rn_computed_usd q, rn_observed_usd q, rn_drift_usd q, of_nat (rn_event_count q)]"

definition rec_parts :: "computed_cost \<Rightarrow> decimal list" where
  "rec_parts c = (let computed = coalesce (cc_amount c) 0; observed = coalesce (map_option dec_value (cc_observed_cost c)) 0
     in [computed, observed, observed - computed, 1])"

lemma rec_row_columns:
  assumes "i < 4"
  shows "rec_columns (reconciliation_row_of (k, costs)) ! i = sum_list (map (\<lambda>c. rec_parts c ! i) costs)"
proof -
  have "i \<in> {0, 1, 2, 3}" using assms by auto
  then show ?thesis
    by (auto simp: rec_columns_def reconciliation_row_of_def rec_parts_def Let_def coalesce_sql_sum comp_def case_prod_unfold
      sum_list_subtractf sum_list_triv)
qed

text \<open>
  The reconciliation by day refines the one by provider: the computed and the observed cost, the drift and the count
  of a provider's row are the sums of its days; every row's drift is its observed minus its computed cost, and its
  percentage is missing exactly when the computed cost is zero.
\<close>

theorem reconciliation_refines:
  assumes "cost_reconciliation reg start finish f ''provider'' db = Some totals"
    and "cost_reconciliation reg start finish f ''day'' db = Some days"
  shows "\<forall>q \<in> set totals. (\<forall>i < 4. rec_columns q ! i
        = sum_list (map (\<lambda>d. rec_columns d ! i) (filter (\<lambda>d. rn_provider d = rn_provider q) days)))
    \<and> 0 < rn_event_count q \<and> rn_drift_usd q = rn_observed_usd q - rn_computed_usd q
    \<and> (rn_drift_pct q = None \<longleftrightarrow> rn_computed_usd q = 0)"
proof (intro ballI)
  fix q assume q: "q \<in> set totals"
  let ?xs = "observed_rows reg start finish f db"
  let ?row = "\<lambda>(k, rows). reconciliation_row_of (k, map fst rows)"
  let ?pkey = "\<lambda>(c, r). (lg_provider r, None :: string option)"
  let ?dkey = "\<lambda>(c, r). (lg_provider r, Some (day_key r))"
  have known: "''provider'' \<in> set RECONCILIATION_DIMENSIONS" "''day'' \<in> set RECONCILIATION_DIMENSIONS"
    by (simp_all add: RECONCILIATION_DIMENSIONS_def)
  obtain ps where ps: "totals = map ?row ps" "set ps = set (sql_groups ?pkey ?xs)"
    using assms(1) known by (auto simp: cost_reconciliation_def)
  obtain ds where ds: "days = map ?row ds" "mset ds = mset (sql_groups ?dkey ?xs)"
    using assms(2) known by (auto simp: cost_reconciliation_def)
  obtain p rows where g: "q = reconciliation_row_of ((p, None), map fst rows)" "((p, None), rows) \<in> set (sql_groups ?pkey ?xs)"
  proof -
    obtain k rows where k: "(k, rows) \<in> set (sql_groups ?pkey ?xs)" "q = reconciliation_row_of (k, map fst rows)"
      using q ps by auto
    then obtain x where "x \<in> set ?xs" "?pkey x = k" using group_rows [OF k(1)] by (auto simp: filter_empty_conv)
    then have "snd k = None" by (auto simp: case_prod_unfold)
    then show thesis using that k by (cases k) auto
  qed
  have rows: "rows = filter (\<lambda>x. fst (?pkey x) = p) ?xs" "rows \<noteq> []"
    using group_rows [OF g(2)] by (auto simp: case_prod_unfold)
  have "rec_columns q ! i = sum_list (map (\<lambda>d. rec_columns d ! i) (filter (\<lambda>d. rn_provider d = rn_provider q) days))"
    if "i < 4" for i
  proof -
    have prov: "rn_provider (reconciliation_row_of (k, cs)) = fst k" for k cs
      by (simp add: reconciliation_row_of_def Let_def case_prod_unfold)
    have "sum_list (map (\<lambda>d. rec_columns d ! i) (filter (\<lambda>d. rn_provider d = p) days))
        = sum_list (map (\<lambda>d. rec_columns (?row d) ! i) (filter ((\<lambda>k. fst k = p) \<circ> fst) ds))"
      unfolding ds(1) filter_map by (simp add: comp_def prov case_prod_unfold)
    also have "\<dots> = sum_list (map (\<lambda>d. rec_columns (?row d) ! i) (filter ((\<lambda>k. fst k = p) \<circ> fst) (sql_groups ?dkey ?xs)))"
      by (rule sum_filter_mset [OF ds(2)])
    also have "\<dots> = sum_list (map (\<lambda>(k, rows). sum_list (map (\<lambda>x. rec_parts (fst x) ! i) rows))
        (filter ((\<lambda>k. fst k = p) \<circ> fst) (sql_groups ?dkey ?xs)))"
      using rec_row_columns [OF that] by (intro arg_cong [where f = sum_list] map_cong [OF refl]) (auto simp: comp_def)
    also have "\<dots> = sum_list (map (\<lambda>x. rec_parts (fst x) ! i) (filter (\<lambda>x. fst (?dkey x) = p) ?xs))"
      by (rule groups_conserve_some)
    also have "\<dots> = rec_columns q ! i"
      using rec_row_columns [OF that] rows by (simp add: g(1) case_prod_unfold comp_def)
    finally show ?thesis by (simp add: g(1) reconciliation_row_of_def Let_def)
  qed
  moreover have "0 < rn_event_count q" "rn_drift_usd q = rn_observed_usd q - rn_computed_usd q"
    "rn_drift_pct q = None \<longleftrightarrow> rn_computed_usd q = 0"
    using rows(2) by (simp_all add: g(1) reconciliation_row_of_def Let_def drift_pct_of_def)
  ultimately show "(\<forall>i < 4. rec_columns q ! i
        = sum_list (map (\<lambda>d. rec_columns d ! i) (filter (\<lambda>d. rn_provider d = rn_provider q) days)))
    \<and> 0 < rn_event_count q \<and> rn_drift_usd q = rn_observed_usd q - rn_computed_usd q
    \<and> (rn_drift_pct q = None \<longleftrightarrow> rn_computed_usd q = 0)" by blast
qed

section \<open>The heatmap\<close>

lemma fold_dadd_get: "dget_or (fold (\<lambda>x. dadd (key x) (h x)) xs d) k 0 = dget_or d k 0 + sum_list (map h (filter (\<lambda>x. key x = k) xs))"
  by (induction xs arbitrary: d) (simp_all add: dict_simps ac_simps)

lemma fold_dadd_sum: "dsum (fold (\<lambda>x. dadd (key x) (h x)) xs d) = dsum d + sum_list (map h xs)"
  by (induction xs arbitrary: d) (simp_all add: dict_simps ac_simps)

lemma fold_dadd_keys: "set (dkeys (fold (\<lambda>x. dadd (key x) (h x)) xs d)) = set (dkeys d) \<union> key ` set xs"
  by (induction xs arbitrary: d) auto

lemma fold_dadd_distinct: "distinct (dkeys d) \<Longrightarrow> distinct (dkeys (fold (\<lambda>x. dadd (key x) (h x)) xs d))"
  by (induction xs arbitrary: d) simp_all

definition punch_key :: "ledger_row \<Rightarrow> int \<times> int" where
  "punch_key r = (weekday (utc_date (lg_ts_started r)), hour_of (lg_ts_started r))"

definition row_day :: "ledger_row \<Rightarrow> date" where
  "row_day r = utc_date (lg_ts_started r)"

lemma heat_fold:
  "fold heat_step rows (p, c, n) = (fold (\<lambda>r. dadd (punch_key r) (event_token_total r)) rows p,
     fold (\<lambda>r. dadd (row_day r) (event_token_total r)) rows c, n + sum_list (map event_token_total rows))"
  by (induction rows arbitrary: p c n) (simp_all add: heat_step_def punch_key_def row_day_def Let_def)

lemma punch_key_range: "punch_key r \<in> {0..6} \<times> {0..23}"
proof -
  have "0 \<le> t mod DAY_US \<and> t mod DAY_US \<le> 86399999999" for t :: int
    using pos_mod_sign [of DAY_US t] pos_mod_bound [of DAY_US t] by simp
  then have "0 \<le> hour_of t \<and> hour_of t \<le> 23" for t
    using zdiv_mono1 [of "t mod DAY_US" 86399999999 "3600 * SECOND_US"] by (simp add: hour_of_def pos_imp_zdiv_nonneg_iff)
  moreover have "0 \<le> weekday d \<and> weekday d \<le> 6" for d
    using pos_mod_sign [of 7 "d + 3"] pos_mod_bound [of 7 "d + 3"] by (simp add: weekday_def)
  ultimately show ?thesis by (simp add: punch_key_def)
qed

text \<open>What a sorted cell list holds.\<close>

lemma cells_of_fold:
  fixes h :: "'r \<Rightarrow> int"
  assumes "mset cells = mset (fold (\<lambda>x. dadd (key x) (h x)) rows [])"
  shows "sum_list (map snd cells) = sum_list (map h rows)" and "distinct (map fst cells)"
    and "fst ` set cells = key ` set rows"
    and "\<forall>(k, v) \<in> set cells. v = sum_list (map h (filter (\<lambda>x. key x = k) rows))"
proof -
  let ?d = "fold (\<lambda>x. dadd (key x) (h x)) rows []"
  have d: "distinct (dkeys ?d)" by (rule fold_dadd_distinct) simp
  have s: "set cells = set ?d" using assms by (rule mset_eq_setD)
  have "sum_list (map snd cells) = sum_list (map snd ?d)" using sum_filter_mset [OF assms, of snd "\<lambda>_. True"] by simp
  then show "sum_list (map snd cells) = sum_list (map h rows)" using fold_dadd_sum [of key h rows "[]"] by (simp add: dsum_def)
  have "mset (map fst cells) = mset (dkeys ?d)" using assms by simp
  then show "distinct (map fst cells)" using d mset_eq_imp_distinct_iff by blast
  show "fst ` set cells = key ` set rows" unfolding s using fold_dadd_keys [of key h rows "[]"] by simp
  have "v = sum_list (map h (filter (\<lambda>x. key x = k) rows))" if "(k, v) \<in> set cells" for k v
  proof -
    have "dget ?d k = Some v" using that d unfolding s by (simp add: map_of_eq_Some_iff)
    then have "v = dget_or ?d k 0" by (simp add: dget_or_def)
    then show ?thesis by (simp add: fold_dadd_get) (simp add: dget_or_def)
  qed
  then show "\<forall>(k, v) \<in> set cells. v = sum_list (map h (filter (\<lambda>x. key x = k) rows))" by blast
qed

text \<open>
  The heatmap conserves tokens: the punch card and the calendar each add up to the total, which is that of the
  matching final attempts; no cell appears twice, weekdays and hours are in range, every calendar day lies in the
  requested range and holds exactly the tokens of that day. An event within the last second of the last day,
  after its start, is left out.
\<close>

theorem heatmap_conserves:
  "let hm = build_heatmap f start finish db; rows = heat_rows f start finish db
   in hm_total_tokens hm = sum_list (map event_token_total rows)
    \<and> sum_list (map pc_value (hm_punch_card hm)) = hm_total_tokens hm
    \<and> sum_list (map cl_value (hm_calendar hm)) = hm_total_tokens hm
    \<and> distinct (map (\<lambda>c. (pc_weekday c, pc_hour c)) (hm_punch_card hm))
    \<and> (\<forall>c \<in> set (hm_punch_card hm). pc_weekday c \<in> {0..6} \<and> pc_hour c \<in> {0..23})
    \<and> sorted_wrt (<) (map cl_day (hm_calendar hm))
    \<and> (\<forall>c \<in> set (hm_calendar hm). start \<le> cl_day c \<and> cl_day c \<le> finish
        \<and> cl_value c = sum_list (map event_token_total (filter (\<lambda>r. row_day r = cl_day c) rows)))
    \<and> (\<forall>r. finish * DAY_US + 86399 * SECOND_US < lg_ts_started r \<longrightarrow> r \<notin> set rows)"
proof -
  let ?rows = "heat_rows f start finish db"
  let ?hm = "build_heatmap f start finish db"
  let ?punch = "sort_key (fst \<circ> fst) (sort_key (snd \<circ> fst) (fold (\<lambda>r. dadd (punch_key r) (event_token_total r)) ?rows []))"
  let ?cal = "sort_key fst (fold (\<lambda>r. dadd (row_day r) (event_token_total r)) ?rows [])"
  have hm: "hm_total_tokens ?hm = sum_list (map event_token_total ?rows)"
    "hm_punch_card ?hm = map (\<lambda>((wd, hr), v). \<lparr>pc_weekday = wd, pc_hour = hr, pc_value = v\<rparr>) ?punch"
    "hm_calendar ?hm = map (\<lambda>(d, v). \<lparr>cl_day = d, cl_value = v\<rparr>) ?cal"
    by (simp_all add: build_heatmap_def heat_fold)
  note punch = cells_of_fold [of ?punch punch_key event_token_total ?rows, OF trans [OF mset_sort mset_sort]]
  note cal = cells_of_fold [of ?cal row_day event_token_total ?rows, OF mset_sort]
  have p: "map pc_value (hm_punch_card ?hm) = map snd ?punch"
    "map (\<lambda>c. (pc_weekday c, pc_hour c)) (hm_punch_card ?hm) = map fst ?punch"
    by (simp_all add: hm case_prod_unfold)
  have c: "map cl_value (hm_calendar ?hm) = map snd ?cal" "map cl_day (hm_calendar ?hm) = map fst ?cal"
    by (simp_all add: hm case_prod_unfold)
  have "(pc_weekday q, pc_hour q) \<in> punch_key ` set ?rows" if "q \<in> set (hm_punch_card ?hm)" for q
  proof -
    have "(pc_weekday q, pc_hour q) \<in> set (map fst ?punch)" unfolding p(2) [symmetric] using that by auto
    then show ?thesis using punch(3) by simp
  qed
  then have range: "\<forall>q \<in> set (hm_punch_card ?hm). pc_weekday q \<in> {0..6} \<and> pc_hour q \<in> {0..23}"
    using punch_key_range by (metis (no_types, lifting) imageE mem_Sigma_iff)
  have sorted: "sorted_wrt (<) (map cl_day (hm_calendar ?hm))"
    using cal(2) unfolding c(2) by (simp add: strict_sorted_iff)
  have day: "start \<le> row_day r \<and> row_day r \<le> finish" if "r \<in> set ?rows" for r
  proof -
    have "start * DAY_US \<le> lg_ts_started r" "lg_ts_started r < finish * DAY_US + DAY_US"
      using that by (simp_all add: heat_rows_def day_bounds_def)
    moreover have "row_day r * DAY_US \<le> lg_ts_started r \<and> lg_ts_started r < row_day r * DAY_US + DAY_US"
      using utc_date_window [of "lg_ts_started r" "row_day r"] by (simp add: row_day_def)
    ultimately show ?thesis by (intro conjI) linarith+
  qed
  have cells: "start \<le> cl_day q \<and> cl_day q \<le> finish
      \<and> cl_value q = sum_list (map event_token_total (filter (\<lambda>r. row_day r = cl_day q) ?rows))"
    if q: "q \<in> set (hm_calendar ?hm)" for q
  proof -
    obtain d v where dv: "(d, v) \<in> set ?cal" "q = \<lparr>cl_day = d, cl_value = v\<rparr>"
      using q by (auto simp: hm)
    have "d \<in> row_day ` set ?rows" using imageI [OF dv(1), of fst] unfolding cal(3) by simp
    moreover have "v = sum_list (map event_token_total (filter (\<lambda>r. row_day r = d) ?rows))" using bspec [OF cal(4) dv(1)] by simp
    ultimately show ?thesis using day unfolding dv(2) by auto
  qed
  have late: "\<forall>r. finish * DAY_US + 86399 * SECOND_US < lg_ts_started r \<longrightarrow> r \<notin> set ?rows"
    by (simp add: heat_rows_def day_bounds_def)
  show ?thesis unfolding Let_def
    using punch(1,2) cal(1) range sorted cells late unfolding p c hm(1) by blast
qed

section \<open>Witnesses\<close>

definition empty_registry :: registry_db where
  "empty_registry = \<lparr>rb_providers = [], rb_models = [], rb_dq = lb_dq empty_ledger, rb_settings = []\<rparr>"

abbreviation sample_attempt :: ledger_row where
  "sample_attempt \<equiv> usage_event_v2_row (sample_event Final 0 5) None None"

lemma sample_in_range: "filter (\<lambda>r. in_range 0 10 r \<and> ledger_filters reg no_filters r)
    (lb_events (cd_ledger (sample_rollup_db costs rows))) = [sample_attempt]"
  by (simp add: sample_rollup_db_def in_range_def unfiltered)
    (simp add: is_final_attempt_def usage_event_v2_row_def sample_event_def as_utc_dt_def)

theorem grouped_usage_conserves_witness:
  "\<exists>rows. grouped_usage empty_registry ''day'' 0 10 no_filters (sample_rollup_db [] []) = Some rows
    \<and> sum_list (map us_attempt_count rows) = 1 \<and> sum_list (map (\<lambda>u. us_columns u ! 6) rows) = 15"
proof -
  obtain rows where rows: "grouped_usage empty_registry ''day'' 0 10 no_filters (sample_rollup_db [] []) = Some rows"
    by (auto simp: grouped_usage_def usage_key_def)
  have xs: "usage_rows empty_registry 0 10 no_filters (sample_rollup_db [] []) = [sample_attempt]"
    unfolding usage_rows_def by (rule sample_in_range)
  have "(6::nat) < 7" by simp
  then show ?thesis using grouped_usage_conserves [OF rows] rows unfolding xs by (auto simp: sample_columns)
qed

definition observed_cost_row :: computed_cost where
  "observed_cost_row = cost_row (''openai'', ''e1'') ''1'' API_BILLED (Some (Dec 3 0)) 0 (mk_result (Some 2) ''priced'' [])"

lemma recorded_one: "c = cost_row k v mode obs now (mk_result (Some x) ''priced'' []) \<Longrightarrow> mode \<in> set BILLING_MODES \<Longrightarrow> recorded_costs [c]"
proof -
  assume c: "c = cost_row k v mode obs now (mk_result (Some x) ''priced'' [])" and m: "mode \<in> set BILLING_MODES"
  have "record_cost c [] = (Inr [c] :: unit cost_error + _)"
    by (simp add: c record_cost_def deactivate_def cost_row_def mk_result_def COST_STATUSES_def)
  from recorded_costs.recorded [OF recorded_costs.empty _ m this [unfolded c]] show "recorded_costs [c]" by (simp add: c)
qed

theorem cost_views_agree_witness:
  "\<exists>rows. grouped_costs empty_registry ''provider'' 0 10 no_filters (sample_rollup_db [subscription_cost] []) = Some rows
    \<and> sum_list (map cs_subscription_value_usd rows) = 2 \<and> sum_list (map cs_actual_spend_usd rows) = 0"
proof -
  let ?db = "sample_rollup_db [subscription_cost] []"
  obtain rows where rows: "grouped_costs empty_registry ''provider'' 0 10 no_filters ?db = Some rows"
    by (auto simp: grouped_costs_def usage_key_def LEDGER_DIMENSIONS_def)
  have "recorded_costs (cd_costs ?db)"
    using recorded_one [OF subscription_cost_def] by (simp add: sample_rollup_db_def BILLING_MODES_def)
  moreover have "cost_events ?db = [(subscription_cost, sample_attempt)]"
    by (simp add: cost_events_def sample_rollup_db_def)
      (simp add: subscription_cost_def cost_row_def cost_key_def row_key_def usage_event_v2_row_def sample_event_def)
  then have "dual_cost_metrics (Some 0) (Some 10) ?db = \<lparr>dm_actual_spend_usd = 0, dm_subscription_value_usd = 2\<rparr>"
    by (simp add: dual_cost_metrics_def cost_sum_def)
      (simp add: subscription_cost_def cost_row_def mk_result_def usage_event_v2_row_def sample_event_def as_utc_dt_def sql_sum_def)
  ultimately show ?thesis using cost_views_agree [of ?db empty_registry "''provider''" 0 10, OF _ rows] rows by auto
qed

theorem reconciliation_refines_witness:
  "\<exists>totals days q. cost_reconciliation empty_registry 0 10 no_filters ''provider'' (sample_rollup_db [observed_cost_row] []) = Some totals
    \<and> cost_reconciliation empty_registry 0 10 no_filters ''day'' (sample_rollup_db [observed_cost_row] []) = Some days
    \<and> totals = [q] \<and> rn_drift_usd q = 1
    \<and> rec_columns q ! 2 = sum_list (map (\<lambda>d. rec_columns d ! 2) (filter (\<lambda>d. rn_provider d = rn_provider q) days))"
proof -
  let ?db = "sample_rollup_db [observed_cost_row] []"
  have "cost_events ?db = [(observed_cost_row, sample_attempt)]"
    by (simp add: cost_events_def sample_rollup_db_def)
      (simp add: observed_cost_row_def cost_row_def cost_key_def row_key_def usage_event_v2_row_def sample_event_def)
  then have xs: "observed_rows empty_registry 0 10 no_filters ?db = [(observed_cost_row, sample_attempt)]"
    by (simp add: observed_rows_def cost_rows_def unfiltered)
      (simp add: observed_cost_row_def cost_row_def usage_event_v2_row_def sample_event_def as_utc_dt_def)
  have one: "sql_groups key [x] = [(key x, [x])]" for key :: "cost_event \<Rightarrow> string \<times> string option" and x
    by (simp add: sql_groups_def group_keys_def)
  obtain q where totals: "cost_reconciliation empty_registry 0 10 no_filters ''provider'' ?db = Some [q]" and drift: "rn_drift_usd q = 1"
    by (simp add: cost_reconciliation_def RECONCILIATION_DIMENSIONS_def xs one reconciliation_row_of_def Let_def)
      (simp add: observed_cost_row_def cost_row_def mk_result_def sql_sum_def pow10_def)
  obtain days where days: "cost_reconciliation empty_registry 0 10 no_filters ''day'' ?db = Some days"
    by (simp add: cost_reconciliation_def RECONCILIATION_DIMENSIONS_def)
  have "(2::nat) < 4" by simp
  then show ?thesis using reconciliation_refines [OF totals days] totals days drift by (metis list.set_intros(1))
qed

theorem heatmap_conserves_witness:
  "sum_list (map pc_value (hm_punch_card (build_heatmap no_filters 0 0 (sample_rollup_db [] [])))) = 15"
proof -
  have "heat_rows no_filters 0 0 (sample_rollup_db [] []) = [sample_attempt]"
    by (simp add: heat_rows_def sample_rollup_db_def heatmap_filters_def filter_matches_def no_filters_def)
      (simp add: is_final_attempt_def usage_event_v2_row_def sample_event_def as_utc_dt_def day_bounds_def)
  moreover have "event_token_total sample_attempt = 15"
    by (simp add: event_token_total_def ledger_tokens_def usage_event_v2_row_def sample_event_def)
  ultimately show ?thesis using heatmap_conserves [of no_filters 0 0 "sample_rollup_db [] []"] by (simp add: Let_def)
qed

end
