(* ===== verification/Dashboard_Queries.thy ===== *)
theory Dashboard_Queries
  imports Ledger_Queries Alert_Rules
begin

text \<open>
  The dashboard's queries: \<open>services/queries.py\<close> over the rollups and the v1 view of the ledger, the session statistics
  of \<open>services/session_stats.py\<close> and the anomaly report of \<open>services/insights.py\<close>. Floats are exact rationals; a
  comparison with a multiple of a standard deviation is the comparison of the squares. Groups that a query leaves
  unordered come in the order of their first rows, rows with equal sort keys in table order.
\<close>

section \<open>Session statistics\<close>

definition INFLECTION_MULTIPLE :: rat where "INFLECTION_MULTIPLE = 2"

definition MIN_TURNS_FOR_INFLECTION :: nat where "MIN_TURNS_FOR_INFLECTION = 4"

record session_stats =
  st_tokens_per_turn :: rat
  st_cache_hit_rate :: rat
  st_context_growth :: rat
  st_inflection_index :: "nat option"

definition mean_of :: "int list \<Rightarrow> rat" where
  "mean_of xs = of_int (sum_list xs) / of_nat (length xs)"

definition context_growth :: "int list \<Rightarrow> rat" where
  "context_growth totals =
     (if length totals < 2 then 1
      else let mid = length totals div 2; early_mean = mean_of (take mid totals); late_mean = mean_of (drop mid totals)
           in if early_mean = 0 then 1 else late_mean / early_mean)"

definition median_of :: "int list \<Rightarrow> rat" where
  "median_of xs =
     (let s = sort xs; n = length xs
      in if odd n then of_int (s ! (n div 2)) else of_int (s ! (n div 2 - 1) + s ! (n div 2)) / 2)"

definition inflection_index :: "int list \<Rightarrow> nat option" where
  "inflection_index totals =
     (if length totals < MIN_TURNS_FOR_INFLECTION then None
      else let median = median_of totals
           in if median \<le> 0 then None
              else map_option fst (find (\<lambda>(i, v). of_int v > median * INFLECTION_MULTIPLE) (enumerate 0 totals)))"

definition hit_rate :: "int \<Rightarrow> int \<Rightarrow> rat" where
  "hit_rate cache_read inputs = (let prompt = cache_read + inputs in if prompt = 0 then 0 else of_int cache_read / of_int prompt)"

definition compute_session_stats :: "int list \<Rightarrow> int list \<Rightarrow> int list \<Rightarrow> session_stats" where
  "compute_session_stats totals cache_reads inputs =
     (if totals = [] then \<lparr>st_tokens_per_turn = 0, st_cache_hit_rate = 0, st_context_growth = 1, st_inflection_index = None\<rparr>
      else \<lparr>st_tokens_per_turn = mean_of totals, st_cache_hit_rate = hit_rate (sum_list cache_reads) (sum_list inputs),
            st_context_growth = context_growth totals, st_inflection_index = inflection_index totals\<rparr>)"

section \<open>Usage buckets\<close>

record usage_bucket =
  ub_key :: string
  ub_input_tokens :: int
  ub_output_tokens :: int
  ub_cache_read_tokens :: int
  ub_cache_write_short_tokens :: int
  ub_cache_write_long_tokens :: int
  ub_total_tokens :: int
  ub_cost_usd :: "decimal option"

text \<open>The totals of the rollup rows of a key; their reasoning column (the sixth) is not read.\<close>

definition rollup_column :: "nat \<Rightarrow> rollup_row list \<Rightarrow> int" where
  "rollup_column i rows = sum_list (map (\<lambda>q. ro_tokens q ! i) rows)"

definition bucket_of_rollups :: "string \<Rightarrow> rollup_row list \<Rightarrow> usage_bucket" where
  "bucket_of_rollups k rows = \<lparr>ub_key = k, ub_input_tokens = rollup_column 0 rows, ub_output_tokens = rollup_column 1 rows,
     ub_cache_read_tokens = rollup_column 2 rows, ub_cache_write_short_tokens = rollup_column 3 rows,
     ub_cache_write_long_tokens = rollup_column 4 rows, ub_total_tokens = rollup_column 6 rows,
     ub_cost_usd = sql_sum (map ro_cost_usd rows)\<rparr>"

definition bucket_of_events :: "string \<Rightarrow> usage_row list \<Rightarrow> usage_bucket" where
  "bucket_of_events k rows = \<lparr>ub_key = k, ub_input_tokens = sum_list (map ue_input_tokens rows),
     ub_output_tokens = sum_list (map ue_output_tokens rows), ub_cache_read_tokens = sum_list (map ue_cache_read_tokens rows),
     ub_cache_write_short_tokens = sum_list (map ue_cache_write_short_tokens rows),
     ub_cache_write_long_tokens = sum_list (map ue_cache_write_long_tokens rows),
     ub_total_tokens = sum_list (map row_tokens rows), ub_cost_usd = sql_sum (map ur_cost_usd rows)\<rparr>"

record bucket_filters =
  bf_provider :: "string option"
  bf_machine :: "string option"
  bf_model :: "string option"
  bf_project :: "string option"

definition rollup_filters :: "date \<Rightarrow> date \<Rightarrow> bucket_filters \<Rightarrow> rollup_row \<Rightarrow> bool" where
  "rollup_filters start finish f q \<longleftrightarrow> start \<le> ro_day q \<and> ro_day q \<le> finish
     \<and> opt_eq (bf_provider f) (rg_provider (ro_grain q)) \<and> opt_eq (bf_machine f) (rg_machine (ro_grain q))
     \<and> opt_eq (bf_model f) (rg_model (ro_grain q)) \<and> opt_eq (bf_project f) (rg_project (ro_grain q))"

definition ROLLUP_DIMENSIONS :: "(string, rollup_grain \<Rightarrow> string) dict" where
  "ROLLUP_DIMENSIONS = [(''provider'', rg_provider), (''model'', rg_model), (''machine'', rg_machine), (''project'', rg_project)]"

definition view_instant :: "usage_row \<Rightarrow> int" where
  "view_instant e = dt_instant (ue_ts e)"

definition usage_by_session :: "date \<Rightarrow> date \<Rightarrow> bucket_filters \<Rightarrow> 'a rollup_db_scheme \<Rightarrow> usage_bucket list" where
  "usage_by_session start finish f db =
     map (\<lambda>(k, rows). bucket_of_events k rows)
       (sql_groups (\<lambda>e. coalesce (ue_session_id e) [])
         (filter (\<lambda>e. day_bounds start finish (view_instant e) \<and> opt_eq (bf_provider f) (ue_provider e)
            \<and> opt_eq (map_option Some (bf_machine f)) (ue_machine e) \<and> opt_eq (bf_model f) (ue_native_model e)
            \<and> opt_eq (map_option Some (bf_project f)) (ue_project e)) (usage_view (cd_ledger db))))"

text \<open>An unsupported grouping is a \<open>ValueError\<close>, here \<open>None\<close>.\<close>

definition usage_grouped ::
  "string \<Rightarrow> date \<Rightarrow> date \<Rightarrow> bucket_filters \<Rightarrow> 'a rollup_db_scheme \<Rightarrow> usage_bucket list option" where
  "usage_grouped group_by start finish f db =
     (let rows = filter (rollup_filters start finish f) (rd_rollups db)
      in if group_by = ''session'' then Some (usage_by_session start finish f db)
         else if group_by = ''day'' then
           Some (map (\<lambda>(d, rs). bucket_of_rollups (iso_date d) rs) (sort_key fst (sql_groups ro_day rows)))
         else map_option (\<lambda>dim. map (\<lambda>(k, rs). bucket_of_rollups k rs) (sort_key fst (sql_groups (dim \<circ> ro_grain) rows)))
                (dget ROLLUP_DIMENSIONS group_by))"

section \<open>The overview\<close>

record overview =
  ov_totals :: usage_bucket
  ov_session_count :: nat
  ov_machine_count :: nat
  ov_first_event :: "int option"
  ov_last_event :: "int option"

text \<open>\<open>count(distinct x)\<close> skips nulls.\<close>

definition count_distinct :: "'v option list \<Rightarrow> nat" where
  "count_distinct xs = length (remdups (filter (\<lambda>x. x \<noteq> None) xs))"

definition overview_of :: "'a rollup_db_scheme \<Rightarrow> overview" where
  "overview_of db =
     (let events = usage_view (cd_ledger db); ts = map view_instant events
      in \<lparr>ov_totals = bucket_of_rollups [] (rd_rollups db), ov_session_count = count_distinct (map ue_session_id events),
          ov_machine_count = count_distinct (map ue_machine events),
          ov_first_event = (if ts = [] then None else Some (Min (set ts))),
          ov_last_event = (if ts = [] then None else Some (Max (set ts)))\<rparr>)"

definition no_bucket_filters :: bucket_filters where
  "no_bucket_filters = \<lparr>bf_provider = None, bf_machine = None, bf_model = None, bf_project = None\<rparr>"

definition total_cost :: "date \<Rightarrow> date \<Rightarrow> 'a rollup_db_scheme \<Rightarrow> decimal" where
  "total_cost start finish db =
     coalesce (sql_sum (map ro_cost_usd (filter (rollup_filters start finish no_bucket_filters) (rd_rollups db)))) 0"

definition punch_card ::
  "date \<Rightarrow> date \<Rightarrow> string option \<Rightarrow> string option \<Rightarrow> string list \<Rightarrow> 'a cost_db_scheme \<Rightarrow> (int \<times> int, int) dict" where
  "punch_card start finish machine project roots db =
     fold (\<lambda>e d. if project \<noteq> None \<and> Some (project_group (ue_project e) roots) \<noteq> project then d
                 else dadd (weekday (utc_date (view_instant e)), hour_of (view_instant e)) (row_tokens e) d)
       (filter (\<lambda>e. day_bounds start finish (view_instant e) \<and> opt_eq (map_option Some machine) (ue_machine e))
         (usage_view (cd_ledger db))) []"

section \<open>Sessions\<close>

record session_summary =
  sm_session_id :: string
  sm_provider :: string
  sm_machine :: "string option"
  sm_project :: string
  sm_started_at :: int
  sm_last_at :: int
  sm_message_count :: nat
  sm_total_tokens :: int
  sm_cost_usd :: "decimal option"

text \<open>\<open>min\<close> over a nullable column skips nulls.\<close>

definition sql_min :: "'v::linorder option list \<Rightarrow> 'v option" where
  "sql_min xs = (case filter (\<lambda>x. x \<noteq> None) xs of [] \<Rightarrow> None | ys \<Rightarrow> Some (Min (set (map the ys))))"

text \<open>The groups of the rows that belong to a session.\<close>

definition view_sessions :: "'a cost_db_scheme \<Rightarrow> (string \<times> usage_row list) list" where
  "view_sessions db = sql_groups (\<lambda>e. the (ue_session_id e)) (filter (\<lambda>e. ue_session_id e \<noteq> None) (usage_view (cd_ledger db)))"

definition session_summary_of :: "string list \<Rightarrow> string \<times> usage_row list \<Rightarrow> session_summary" where
  "session_summary_of roots = (\<lambda>(sid, rows). \<lparr>sm_session_id = sid, sm_provider = Min (set (map ue_provider rows)),
     sm_machine = sql_min (map ue_machine rows), sm_project = project_group (sql_min (map ue_project rows)) roots,
     sm_started_at = Min (set (map view_instant rows)), sm_last_at = Max (set (map view_instant rows)),
     sm_message_count = length rows, sm_total_tokens = sum_list (map row_tokens rows),
     sm_cost_usd = sql_sum (map ur_cost_usd rows)\<rparr>)"

definition list_sessions_v1 :: "nat \<Rightarrow> string list \<Rightarrow> 'a cost_db_scheme \<Rightarrow> session_summary list" where
  "list_sessions_v1 limit roots db =
     take limit (sort_key (\<lambda>s. - sm_last_at s) (map (session_summary_of roots) (view_sessions db)))"

record session_event =
  se_ts :: int
  se_model :: string
  se_input_tokens :: int
  se_output_tokens :: int
  se_cache_read_tokens :: int
  se_cache_write_short_tokens :: int
  se_cache_write_long_tokens :: int
  se_total_tokens :: int
  se_cost_usd :: "decimal option"

record session_detail_v1 =
  sd_session_id :: string
  sd_project :: string
  sd_machine :: "string option"
  sd_events :: "session_event list"
  sd_stats :: session_stats

definition session_event_of :: "usage_row \<Rightarrow> session_event" where
  "session_event_of e = \<lparr>se_ts = view_instant e, se_model = ue_native_model e, se_input_tokens = ue_input_tokens e,
     se_output_tokens = ue_output_tokens e, se_cache_read_tokens = ue_cache_read_tokens e,
     se_cache_write_short_tokens = ue_cache_write_short_tokens e, se_cache_write_long_tokens = ue_cache_write_long_tokens e,
     se_total_tokens = row_tokens e, se_cost_usd = ur_cost_usd e\<rparr>"

definition session_detail_of :: "string list \<Rightarrow> string \<Rightarrow> 'a cost_db_scheme \<Rightarrow> session_detail_v1 option" where
  "session_detail_of roots sid db =
     (let rows = sort_key view_instant (filter (\<lambda>e. ue_session_id e = Some sid) (usage_view (cd_ledger db)));
          events = map session_event_of rows
      in if rows = [] then None
         else Some \<lparr>sd_session_id = sid, sd_project = project_group (ue_project (hd rows)) roots,
                 sd_machine = ue_machine (hd rows), sd_events = events,
                 sd_stats = compute_session_stats (map se_total_tokens events) (map se_cache_read_tokens events)
                              (map se_input_tokens events)\<rparr>)"

section \<open>Machines\<close>

record machine_summary =
  ms_id :: string
  ms_platform :: "string option"
  ms_last_seen :: int
  ms_collector_version :: "string option"
  ms_total_tokens :: int
  ms_event_count :: nat

definition list_machines :: "machine_row list \<Rightarrow> 'a cost_db_scheme \<Rightarrow> machine_summary list" where
  "list_machines machines db =
     map (\<lambda>m. let rows = filter (\<lambda>e. ue_machine e = Some (mr_id m)) (usage_view (cd_ledger db))
              in \<lparr>ms_id = mr_id m, ms_platform = mr_platform m, ms_last_seen = mr_last_seen m,
                  ms_collector_version = mr_collector_version m, ms_total_tokens = sum_list (map row_tokens rows),
                  ms_event_count = length rows\<rparr>) machines"

section \<open>Anomalies\<close>

definition MIN_SESSIONS :: nat where "MIN_SESSIONS = 20"

definition MIN_TOKEN_FLOOR :: int where "MIN_TOKEN_FLOOR = 50000"

definition SIGMA_MULTIPLE :: rat where "SIGMA_MULTIPLE = 2"

record session_agg =
  sa_session_id :: string
  sa_project :: string
  sa_total_tokens :: int
  sa_cost_usd :: "rat option"
  sa_cache_read_tokens :: int
  sa_input_tokens :: int

definition cache_hit_rate :: "session_agg \<Rightarrow> rat" where
  "cache_hit_rate s = hit_rate (sa_cache_read_tokens s) (sa_input_tokens s)"

record anomaly =
  am_session_id :: string
  am_project :: string
  am_reasons :: "string list"
  am_severity_score :: rat
  am_total_tokens :: int
  am_cost_usd :: "rat option"
  am_cache_hit_rate :: rat

record anomaly_report =
  ar_enough_data :: bool
  ar_session_count :: nat
  ar_anomalies :: "anomaly list"

definition fmean :: "rat list \<Rightarrow> rat" where
  "fmean xs = sum_list xs / of_nat (length xs)"

definition pvariance :: "rat list \<Rightarrow> rat" where
  "pvariance xs = fmean (map (\<lambda>x. (x - fmean xs) ^ 2) xs)"

text \<open>\<open>x > m + SIGMA_MULTIPLE * s\<close> and \<open>x < m - SIGMA_MULTIPLE * s\<close> for the standard deviation \<open>s\<close> of a population with variance \<open>v\<close>.\<close>

definition above_sigma :: "rat \<Rightarrow> rat list \<Rightarrow> bool" where
  "above_sigma x xs \<longleftrightarrow> fmean xs < x \<and> SIGMA_MULTIPLE ^ 2 * pvariance xs < (x - fmean xs) ^ 2"

definition below_sigma :: "rat \<Rightarrow> rat list \<Rightarrow> bool" where
  "below_sigma x xs \<longleftrightarrow> x < fmean xs \<and> SIGMA_MULTIPLE ^ 2 * pvariance xs < (x - fmean xs) ^ 2"

text \<open>The three baselines: tokens, costs and hit rates. Fewer than two costs have no deviation.\<close>

definition token_base :: "session_agg list \<Rightarrow> rat list" where
  "token_base sessions = map (of_int \<circ> sa_total_tokens) sessions"

definition cost_base :: "session_agg list \<Rightarrow> rat list" where
  "cost_base sessions = List.map_filter sa_cost_usd sessions"

definition hit_base :: "session_agg list \<Rightarrow> rat list" where
  "hit_base sessions = map cache_hit_rate sessions"

definition mean_cost :: "session_agg list \<Rightarrow> rat" where
  "mean_cost sessions = (if cost_base sessions = [] then 0 else fmean (cost_base sessions))"

definition reasons_of :: "int \<Rightarrow> session_agg list \<Rightarrow> session_agg \<Rightarrow> string list" where
  "reasons_of floor_tokens sessions s =
     (let big = (floor_tokens \<le> sa_total_tokens s)
      in (if big \<and> 0 < pvariance (token_base sessions) \<and> above_sigma (of_int (sa_total_tokens s)) (token_base sessions)
          then [''high tokens''] else [])
       @ (case sa_cost_usd s of None \<Rightarrow> []
          | Some c \<Rightarrow> if 1 < length (cost_base sessions) \<and> 0 < pvariance (cost_base sessions) \<and> above_sigma c (cost_base sessions)
              then [''high cost''] else [])
       @ (if big \<and> 0 < pvariance (hit_base sessions) \<and> below_sigma (cache_hit_rate s) (hit_base sessions)
          then [''low cache reuse''] else [])
       @ (case sa_cost_usd s of None \<Rightarrow> []
          | Some c \<Rightarrow> if mean_cost sessions < c \<and> cache_hit_rate s < fmean (hit_base sessions) \<and> big
              then [''cost-inefficient''] else []))"

definition severity_of :: "session_agg \<Rightarrow> rat" where
  "severity_of s = (case sa_cost_usd s of None \<Rightarrow> 0 | Some c \<Rightarrow> c) * (1 - cache_hit_rate s)"

definition anomaly_of :: "int \<Rightarrow> session_agg list \<Rightarrow> session_agg \<Rightarrow> anomaly" where
  "anomaly_of floor_tokens sessions s = \<lparr>am_session_id = sa_session_id s, am_project = sa_project s,
     am_reasons = reasons_of floor_tokens sessions s, am_severity_score = severity_of s, am_total_tokens = sa_total_tokens s,
     am_cost_usd = sa_cost_usd s, am_cache_hit_rate = cache_hit_rate s\<rparr>"

definition classify_anomalies :: "session_agg list \<Rightarrow> nat \<Rightarrow> int \<Rightarrow> anomaly_report" where
  "classify_anomalies sessions min_sessions floor_tokens =
     (if length sessions < min_sessions then \<lparr>ar_enough_data = False, ar_session_count = length sessions, ar_anomalies = []\<rparr>
      else \<lparr>ar_enough_data = True, ar_session_count = length sessions,
            ar_anomalies = sort_key (\<lambda>a. - am_severity_score a)
              (map (anomaly_of floor_tokens sessions) (filter (\<lambda>s. reasons_of floor_tokens sessions s \<noteq> []) sessions))\<rparr>)"

definition session_agg_of :: "string list \<Rightarrow> string \<times> usage_row list \<Rightarrow> session_agg" where
  "session_agg_of roots = (\<lambda>(sid, rows). \<lparr>sa_session_id = sid, sa_project = project_group (sql_min (map ue_project rows)) roots,
     sa_total_tokens = sum_list (map row_tokens rows), sa_cost_usd = sql_sum (map ur_cost_usd rows),
     sa_cache_read_tokens = sum_list (map ue_cache_read_tokens rows), sa_input_tokens = sum_list (map ue_input_tokens rows)\<rparr>)"

definition detect_anomalies :: "string list \<Rightarrow> 'a cost_db_scheme \<Rightarrow> anomaly_report" where
  "detect_anomalies roots db = classify_anomalies (map (session_agg_of roots) (view_sessions db)) MIN_SESSIONS MIN_TOKEN_FLOOR"

end
