(* ===== verification/Dashboard_Laws.thy ===== *)
theory Dashboard_Laws
  imports Dashboard_Queries Ledger_Query_Laws Retention_Laws
begin

text \<open>
  The laws of the dashboard's queries: after a rebuild they agree with the ledger, what the session grouping counts
  instead, and the bounds of the session statistics and of the anomaly report.
\<close>

section \<open>Buckets\<close>

definition ub_columns :: "usage_bucket \<Rightarrow> int list" where
  "ub_columns b = [ub_input_tokens b, ub_output_tokens b, ub_cache_read_tokens b, ub_cache_write_short_tokens b,
     ub_cache_write_long_tokens b, ub_total_tokens b]"

text \<open>The ledger columns that the six columns of a bucket stand for.\<close>

definition COUNTED :: "nat list" where
  "COUNTED = [0, 1, 2, 3, 4, 6]"

lemma bucket_columns: "j < 6 \<Longrightarrow> ub_columns (bucket_of_rollups k rows) ! j = rollup_column (COUNTED ! j) rows"
proof -
  assume "j < 6"
  then have "j \<in> {0, 1, 2, 3, 4, 5}" by auto
  then show ?thesis by (auto simp: ub_columns_def bucket_of_rollups_def COUNTED_def)
qed

lemma usage_grouped_sum:
  assumes "usage_grouped group_by start finish f db = Some bs" and "group_by \<noteq> ''session''" and "j < 6"
  shows "sum_list (map (\<lambda>b. ub_columns b ! j) bs) = rollup_column (COUNTED ! j) (filter (rollup_filters start finish f) (rd_rollups db))"
proof -
  let ?rows = "filter (rollup_filters start finish f) (rd_rollups db)"
  have sum: "sum_list (map (\<lambda>b. ub_columns b ! j) (map (\<lambda>(k, rs). bucket_of_rollups (name k) rs) (sort_key fst (sql_groups key ?rows))))
      = rollup_column (COUNTED ! j) ?rows" for name :: "'k::linorder \<Rightarrow> string" and key
  proof -
    have "map (\<lambda>b. ub_columns b ! j) (map (\<lambda>(k, rs). bucket_of_rollups (name k) rs) (sort_key fst (sql_groups key ?rows)))
        = map (\<lambda>(k, rs). sum_list (map (\<lambda>q. ro_tokens q ! (COUNTED ! j)) rs)) (sort_key fst (sql_groups key ?rows))"
      using bucket_columns [OF assms(3)] by (auto simp: rollup_column_def)
    then show ?thesis by (simp only: sorted_groups_conserve rollup_column_def)
  qed
  show ?thesis
  proof (cases "group_by = ''day''")
    case True
    then show ?thesis using assms(1) sum [of iso_date ro_day] by (auto simp: usage_grouped_def)
  next
    case False
    then obtain dim where "bs = map (\<lambda>(k, rs). bucket_of_rollups k rs) (sort_key fst (sql_groups (dim \<circ> ro_grain) ?rows))"
      using assms(1,2) by (auto simp: usage_grouped_def)
    then show ?thesis using sum [of "\<lambda>k. k" "dim \<circ> ro_grain"] by simp
  qed
qed

section \<open>The dashboard and the ledger\<close>

lemma in_days: "in_range (start * DAY_US) (finish * DAY_US + DAY_US - 1) r
    \<longleftrightarrow> is_final_attempt r \<and> start \<le> row_day r \<and> row_day r \<le> finish"
proof -
  have "row_day r * DAY_US \<le> lg_ts_started r \<and> lg_ts_started r < row_day r * DAY_US + DAY_US"
    using utc_date_window [of "lg_ts_started r" "row_day r"] by (simp add: row_day_def)
  then have "start * DAY_US \<le> lg_ts_started r \<and> lg_ts_started r \<le> finish * DAY_US + DAY_US - 1
      \<longleftrightarrow> start \<le> row_day r \<and> row_day r \<le> finish" by (intro iffI conjI) linarith+
  then show ?thesis by (simp only: in_range_def)
qed

text \<open>The events of the days of a range, day by day.\<close>

lemma days_sum:
  fixes h :: "ledger_row \<Rightarrow> int"
  shows "sum_list (map (\<lambda>d. sum_list (map h (day_events db d))) [start..finish])
    = sum_list (map h (filter (in_range (start * DAY_US) (finish * DAY_US + DAY_US - 1)) (lb_events (cd_ledger db))))"
proof -
  let ?rows = "filter (in_range (start * DAY_US) (finish * DAY_US + DAY_US - 1)) (lb_events (cd_ledger db))"
  have "day_events db d = filter (\<lambda>r. row_day r = d) ?rows" if "d \<in> set [start..finish]" for d
    using that by (auto simp: day_events_def in_days [simplified] row_day_def intro!: filter_cong)
  then have "sum_list (map (\<lambda>d. sum_list (map h (day_events db d))) [start..finish])
      = sum_list (map (\<lambda>d. sum_list (map h (filter (\<lambda>r. row_day r = d) ?rows))) [start..finish])"
    by (intro arg_cong [where f = sum_list] map_cong) simp_all
  also have "\<dots> = sum_list (map h ?rows)"
    by (rule sum_list_groups) (auto simp: in_days [simplified])
  finally show ?thesis .
qed

lemma rollup_days_sum:
  "rollup_column i (filter (\<lambda>q. start \<le> ro_day q \<and> ro_day q \<le> finish) rows)
    = sum_list (map (\<lambda>d. rollup_column i (filter (\<lambda>q. ro_day q = d) rows)) [start..finish])"
proof -
  let ?rows = "filter (\<lambda>q. start \<le> ro_day q \<and> ro_day q \<le> finish) rows"
  have "rollup_column i (filter (\<lambda>q. ro_day q = d) rows) = sum_list (map (\<lambda>q. ro_tokens q ! i) (filter (\<lambda>q. ro_day q = d) ?rows))"
    if "d \<in> set [start..finish]" for d
    using that unfolding rollup_column_def by (auto intro!: arg_cong [where f = "\<lambda>xs. sum_list (map (\<lambda>q. ro_tokens q ! i) xs)"] filter_cong)
  then have "sum_list (map (\<lambda>d. rollup_column i (filter (\<lambda>q. ro_day q = d) rows)) [start..finish])
      = sum_list (map (\<lambda>d. sum_list (map (\<lambda>q. ro_tokens q ! i) (filter (\<lambda>q. ro_day q = d) ?rows))) [start..finish])"
    by (intro arg_cong [where f = sum_list] map_cong) simp_all
  also have "\<dots> = rollup_column i ?rows"
    unfolding rollup_column_def by (rule sum_list_groups) auto
  finally show ?thesis by simp
qed

section \<open>The grouping by session\<close>

lemma view_row_tokens: "row_tokens (usage_view_row r) = ledger_tokens r"
  by (simp add: row_tokens_def usage_view_row_def ledger_tokens_def)

lemma view_row_instant: "view_instant (usage_view_row r) = lg_ts_started r"
  by (simp add: view_instant_def usage_view_row_def as_utc_dt_def)

text \<open>The columns of the compatibility view, in the order of a bucket: the total is without reasoning.\<close>

definition view_columns :: "ledger_row \<Rightarrow> int list" where
  "view_columns r = [lg_input_tokens r, lg_output_tokens r, lg_cache_read_tokens r, lg_cache_write_short_tokens r,
     lg_cache_write_long_tokens r, ledger_tokens r]"

lemma sum_view:
  "sum_list (map (\<lambda>e. g e) (filter P (usage_view st)))
    = sum_list (map (\<lambda>r. g (usage_view_row r)) (filter (\<lambda>r. lg_event_kind r = ''attempt'' \<and> P (usage_view_row r)) (lb_events st)))"
proof -
  have "sum_list (map g (filter P (map usage_view_row rows)))
      = sum_list (map (\<lambda>r. g (usage_view_row r)) (filter (\<lambda>r. P (usage_view_row r)) rows))" for rows
    by (induction rows) simp_all
  then show ?thesis by (simp add: usage_view_def)
qed

lemma session_grouping_sum:
  assumes "j < 6"
  shows "sum_list (map (\<lambda>b. ub_columns b ! j) (usage_by_session start finish no_bucket_filters db))
    = sum_list (map (\<lambda>r. view_columns r ! j)
        (filter (\<lambda>r. lg_event_kind r = ''attempt'' \<and> day_bounds start finish (lg_ts_started r)) (lb_events (cd_ledger db))))"
proof -
  define g where "g e = [ue_input_tokens e, ue_output_tokens e, ue_cache_read_tokens e, ue_cache_write_short_tokens e,
     ue_cache_write_long_tokens e, row_tokens e] ! j" for e :: usage_row
  have j: "j \<in> {0, 1, 2, 3, 4, 5}" using assms by auto
  then have col: "ub_columns (bucket_of_events k rows) ! j = sum_list (map g rows)" for k rows
    by (auto simp: ub_columns_def bucket_of_events_def g_def [abs_def])
  have row: "g (usage_view_row r) = view_columns r ! j" for r
    unfolding g_def view_columns_def view_row_tokens by (simp add: usage_view_row_def)
  have b: "map (\<lambda>b. ub_columns b ! j) (usage_by_session start finish no_bucket_filters db)
      = map (\<lambda>(k, rows). sum_list (map g rows)) (sql_groups (\<lambda>e. coalesce (ue_session_id e) [])
         (filter (\<lambda>e. day_bounds start finish (view_instant e)) (usage_view (cd_ledger db))))"
    by (simp add: usage_by_session_def no_bucket_filters_def opt_eq_def col case_prod_unfold)
  show ?thesis unfolding b groups_conserve sum_view view_row_instant row ..
qed

text \<open>
  C38. What the dashboard's usage query without filters counts after a rebuild, in each of its six token columns, for
  every range of days and every supported grouping. By day, provider, model, machine or project, its buckets add up to
  the v2 usage rows over the same days, in any dimension, plus the rollups of these days that were imported and that the
  ledger does not have. By session, they add up to the attempts of the view instead: snapshots included, the
  last second of the last day after its start left out, and a total without reasoning. The hypotheses: the
  rollup and cost tables are well-formed, and both queries answer.
\<close>

theorem dashboard_matches_ledger:
  fixes db :: "'a rollup_db_scheme"
  assumes "distinct (map ro_key (rd_rollups db))" and "cost_inv (cd_costs db)"
    and "usage_grouped group_by start finish no_bucket_filters (snd (rebuild_all_rollups roots db)) = Some buckets"
    and "grouped_usage reg dimension (start * DAY_US) (finish * DAY_US + DAY_US - 1) no_filters db = Some usage"
    and "j < 6"
  shows "sum_list (map (\<lambda>b. ub_columns b ! j) buckets) =
    (if group_by = ''session''
     then sum_list (map (\<lambda>r. view_columns r ! j) (filter (\<lambda>r. lg_event_kind r = ''attempt''
            \<and> start * DAY_US \<le> lg_ts_started r \<and> lg_ts_started r \<le> finish * DAY_US + 86399 * SECOND_US) (lb_events (cd_ledger db))))
     else sum_list (map (\<lambda>u. us_columns u ! (COUNTED ! j)) usage)
        + sum_list (map (\<lambda>q. ro_tokens q ! (COUNTED ! j))
            (filter (\<lambda>q. ro_provenance q \<noteq> DERIVED \<and> start \<le> ro_day q \<and> ro_day q \<le> finish) (rd_rollups db))))"
proof (cases "group_by = ''session''")
  case True
  then have "buckets = usage_by_session start finish no_bucket_filters (snd (rebuild_all_rollups roots db))"
    using assms(3) by (simp add: usage_grouped_def Let_def)
  then show ?thesis
    using True session_grouping_sum [OF assms(5), of start finish "snd (rebuild_all_rollups roots db)", unfolded day_bounds_def rebuild_frame]
    by simp
next
  case False
  let ?table = "rd_rollups (snd (rebuild_all_rollups roots db))"
  let ?i = "COUNTED ! j" and ?in = "\<lambda>q. start \<le> ro_day q \<and> ro_day q \<le> finish"
  have i: "?i < 7"
  proof -
    have "j \<in> {0, 1, 2, 3, 4, 5}" using assms(5) by auto
    then show ?thesis by (auto simp: COUNTED_def)
  qed
  note rows = rebuild_rows [OF assms(1), where roots = roots]
  have split: "rollup_column ?i (filter ?in t) = rollup_column ?i (filter ?in (filter (\<lambda>q. ro_provenance q = DERIVED) t))
      + rollup_column ?i (filter ?in (filter (\<lambda>q. ro_provenance q \<noteq> DERIVED) t))" for t
    by (induction t) (auto simp: rollup_column_def)
  have day: "rollup_column ?i (filter (\<lambda>q. ro_day q = d) (filter (\<lambda>q. ro_provenance q = DERIVED) ?table))
      = sum_list (map (\<lambda>r. token_columns r ! ?i) (day_events db d))" for d
  proof -
    have "filter (\<lambda>q. ro_day q = d) (filter (\<lambda>q. ro_provenance q = DERIVED) ?table) = aggregate_day db d roots"
      using rows [of d] by (simp add: conj_commute)
    then show ?thesis by (simp add: rollup_column_def day_tokens [OF assms(2) i])
  qed
  have "rollup_column ?i (filter ?in (filter (\<lambda>q. ro_provenance q = DERIVED) ?table)) = sum_list (map (\<lambda>r. token_columns r ! ?i)
      (filter (in_range (start * DAY_US) (finish * DAY_US + DAY_US - 1)) (lb_events (cd_ledger db))))"
    unfolding rollup_days_sum day by (rule days_sum)
  also have "\<dots> = sum_list (map (\<lambda>u. us_columns u ! ?i) usage)"
    using grouped_usage_conserves [OF assms(4), THEN conjunct1] i by (simp add: usage_rows_def unfiltered)
  finally have derived: "rollup_column ?i (filter ?in (filter (\<lambda>q. ro_provenance q = DERIVED) ?table)) = \<dots>" .
  have imported: "filter ?in (filter (\<lambda>q. ro_provenance q \<noteq> DERIVED) ?table)
      = filter (\<lambda>q. ro_provenance q \<noteq> DERIVED \<and> start \<le> ro_day q \<and> ro_day q \<le> finish) (rd_rollups db)"
    using rows by (simp add: conj_ac)
  have "sum_list (map (\<lambda>b. ub_columns b ! j) buckets) = rollup_column ?i (filter ?in ?table)"
    using usage_grouped_sum [OF assms(3) False assms(5)] by (simp add: rollup_filters_def [abs_def] no_bucket_filters_def opt_eq_def)
  then show ?thesis using False unfolding split [of ?table] derived imported by (simp add: rollup_column_def)
qed

text \<open>
  The totals of the grouping by session in any state: the tokens without reasoning of all attempts of the range,
  snapshots included, except those of the last second of the last day after its start.
\<close>

theorem session_grouping_counts:
  "\<exists>bs. usage_grouped ''session'' start finish no_bucket_filters db = Some bs
    \<and> sum_list (map ub_total_tokens bs) = sum_list (map ledger_tokens
        (filter (\<lambda>r. lg_event_kind r = ''attempt'' \<and> day_bounds start finish (lg_ts_started r)) (lb_events (cd_ledger db))))"
proof -
  have "(5::nat) < 6" by simp
  from session_grouping_sum [OF this, of start finish db]
  have "sum_list (map ub_total_tokens (usage_by_session start finish no_bucket_filters db)) = sum_list (map ledger_tokens
        (filter (\<lambda>r. lg_event_kind r = ''attempt'' \<and> day_bounds start finish (lg_ts_started r)) (lb_events (cd_ledger db))))"
    by (simp add: ub_columns_def view_columns_def)
  then show ?thesis by (simp add: usage_grouped_def Let_def)
qed

section \<open>Session statistics\<close>

lemma mean_nonneg: "\<forall>x \<in> set xs. 0 \<le> x \<Longrightarrow> 0 \<le> mean_of xs"
  by (simp add: mean_of_def sum_list_nonneg)

lemma hit_rate_unit: "0 \<le> cache_read \<Longrightarrow> 0 \<le> inputs \<Longrightarrow> 0 \<le> hit_rate cache_read inputs \<and> hit_rate cache_read inputs \<le> 1"
  by (auto simp: hit_rate_def Let_def divide_le_eq)

lemma growth_nonneg: "\<forall>x \<in> set xs. 0 \<le> x \<Longrightarrow> 0 \<le> context_growth xs"
proof -
  assume "\<forall>x \<in> set xs. 0 \<le> x"
  then have "0 \<le> mean_of (take n xs)" "0 \<le> mean_of (drop n xs)" for n
    by (blast intro: mean_nonneg dest: in_set_takeD in_set_dropD)+
  then show ?thesis by (simp add: context_growth_def Let_def)
qed

lemma find_enumerate:
  "find (\<lambda>(i, v). P v) (enumerate k xs) = Some (i, v) \<Longrightarrow> k \<le> i \<and> i < k + length xs \<and> xs ! (i - k) = v \<and> P v
    \<and> (\<forall>j < i - k. \<not> P (xs ! j))"
proof (induction xs arbitrary: k)
  case (Cons x xs)
  show ?case
  proof (cases "P x")
    case True
    then show ?thesis using Cons.prems by simp
  next
    case False
    then have IH: "Suc k \<le> i \<and> i < Suc k + length xs \<and> xs ! (i - Suc k) = v \<and> P v \<and> (\<forall>j < i - Suc k. \<not> P (xs ! j))"
      using Cons.IH [of "Suc k"] Cons.prems by simp
    then have "k < i" by simp
    then have "i - k = Suc (i - Suc k)" by (simp add: Suc_diff_Suc)
    then show ?thesis using IH False by (auto simp: less_Suc_eq_0_disj)
  qed
qed simp

text \<open>
  The statistics of a session of non-negative token counts are in their ranges: the mean turn and the growth are not
  negative, the cache-hit rate lies between 0 and 1, and an inflection is the first turn above twice the median of
  at least four turns.
\<close>

theorem session_stats_in_range:
  assumes "\<forall>x \<in> set totals. 0 \<le> x" and "\<forall>x \<in> set cache_reads. 0 \<le> x" and "\<forall>x \<in> set inputs. 0 \<le> x"
  defines "stats \<equiv> compute_session_stats totals cache_reads inputs"
  shows "0 \<le> st_tokens_per_turn stats \<and> 0 \<le> st_context_growth stats
    \<and> 0 \<le> st_cache_hit_rate stats \<and> st_cache_hit_rate stats \<le> 1
    \<and> (\<forall>i. st_inflection_index stats = Some i \<longrightarrow> 4 \<le> length totals \<and> i < length totals
        \<and> 2 * median_of totals < of_int (totals ! i) \<and> (\<forall>j < i. of_int (totals ! j) \<le> 2 * median_of totals))"
proof -
  have "4 \<le> length totals \<and> i < length totals \<and> 2 * median_of totals < of_int (totals ! i)
      \<and> (\<forall>j < i. of_int (totals ! j) \<le> 2 * median_of totals)" if h: "inflection_index totals = Some i" for i
  proof -
    obtain v where f: "find (\<lambda>(i, v). 2 * median_of totals < of_int v) (enumerate 0 totals) = Some (i, v)"
      using h by (auto simp: inflection_index_def Let_def INFLECTION_MULTIPLE_def mult.commute split: if_splits)
    have "4 \<le> length totals" using h by (simp add: inflection_index_def MIN_TURNS_FOR_INFLECTION_def split: if_splits)
    then show ?thesis using find_enumerate [OF f] by auto
  qed
  moreover have "0 \<le> hit_rate (sum_list cache_reads) (sum_list inputs) \<and> hit_rate (sum_list cache_reads) (sum_list inputs) \<le> 1"
    using assms(2,3) by (intro hit_rate_unit) (simp_all add: sum_list_nonneg)
  ultimately show ?thesis
    using mean_nonneg [OF assms(1)] growth_nonneg [OF assms(1)] by (simp add: stats_def compute_session_stats_def)
qed

section \<open>Anomalies\<close>

text \<open>Chebyshev's inequality for a finite population.\<close>

lemma variance_nonneg: "0 \<le> pvariance xs"
  by (auto simp: pvariance_def fmean_def intro!: divide_nonneg_nonneg sum_list_nonneg)

lemma chebyshev:
  assumes "0 < pvariance xs"
  shows "4 * length (filter (\<lambda>x. 4 * pvariance xs < (x - fmean xs) ^ 2) xs) \<le> length xs"
proof -
  define m v where "m = fmean xs" and "v = pvariance xs"
  define far where "far = filter (\<lambda>x. 4 * v < (x - m) ^ 2) xs"
  have xs: "0 < length xs" using assms by (cases xs) (simp_all add: pvariance_def fmean_def)
  have total_square: "sum_list (map (\<lambda>x. (x - m) ^ 2) xs) = of_nat (length xs) * v"
    using xs by (simp add: v_def m_def pvariance_def fmean_def [of "map f ys" for f ys])
  have "of_nat (length far) * (4 * v) \<le> sum_list (map (\<lambda>x. (x - m) ^ 2) far)"
    unfolding far_def by (induction xs) (auto simp: algebra_simps)
  also have "sum_list (map (\<lambda>x. (x - m) ^ 2) far) \<le> sum_list (map (\<lambda>x. (x - m) ^ 2) xs)"
    unfolding far_def by (induction xs) (simp_all add: add_increasing)
  finally have "of_nat (4 * length far) * v \<le> of_nat (length xs) * v" unfolding total_square by (simp add: algebra_simps)
  moreover have "0 < v" using assms by (simp add: v_def)
  ultimately have "(of_nat (4 * length far) :: rat) \<le> of_nat (length xs)" by (rule mult_right_le_imp_le)
  then have "4 * length far \<le> length xs" by (simp only: of_nat_le_iff)
  then show ?thesis by (simp only: far_def m_def v_def)
qed

lemma far_above: "above_sigma x xs \<Longrightarrow> 4 * pvariance xs < (x - fmean xs) ^ 2"
  by (simp add: above_sigma_def SIGMA_MULTIPLE_def)

lemma far_below: "below_sigma x xs \<Longrightarrow> 4 * pvariance xs < (x - fmean xs) ^ 2"
  by (simp add: below_sigma_def SIGMA_MULTIPLE_def)

text \<open>At most a quarter of a population is flagged by a rule that asks for a deviation of its measure.\<close>

lemma flagged_quarter:
  assumes "\<And>s. s \<in> set sessions \<Longrightarrow> flagged s \<Longrightarrow> 0 < pvariance base \<and> (\<exists>x. measure_of s = Some x \<and> 4 * pvariance base < (x - fmean base) ^ 2)"
    and "base = List.map_filter measure_of sessions"
  shows "4 * length (filter flagged sessions) \<le> length base"
proof (cases "0 < pvariance base")
  case True
  let ?far = "\<lambda>x. 4 * pvariance base < (x - fmean base) ^ 2"
  have "length (filter flagged ss) \<le> length (filter ?far (List.map_filter measure_of ss))" if "set ss \<subseteq> set sessions" for ss
    using that
  proof (induction ss)
    case (Cons s ss)
    then have IH: "length (filter flagged ss) \<le> length (filter ?far (List.map_filter measure_of ss))" by simp
    show ?case
    proof (cases "flagged s")
      case True
      then obtain x where "measure_of s = Some x" "?far x" using assms(1) [of s] Cons.prems by auto
      then show ?thesis using IH True by (simp add: map_filter_simps)
    next
      case False
      then show ?thesis using IH by (simp add: map_filter_simps split: option.split)
    qed
  qed simp
  then have "length (filter flagged sessions) \<le> length (filter ?far base)" by (simp add: assms(2))
  then show ?thesis using chebyshev [OF True] by linarith
next
  case False
  then have "filter flagged sessions = []" using assms(1) by (auto simp: filter_empty_conv)
  then show ?thesis by simp
qed

definition flagged_for :: "string \<Rightarrow> anomaly_report \<Rightarrow> nat" where
  "flagged_for reason rep = length (filter (\<lambda>a. reason \<in> set (am_reasons a)) (ar_anomalies rep))"

lemma flagged_count:
  assumes "\<not> length sessions < min_sessions"
  shows "flagged_for reason (classify_anomalies sessions min_sessions floor_tokens)
    = length (filter (\<lambda>s. reason \<in> set (reasons_of floor_tokens sessions s)) sessions)"
proof -
  have c: "length (filter P (sort_key k xs)) = length (filter P xs)" for P and k :: "anomaly \<Rightarrow> rat" and xs
    by (metis mset_filter mset_sort size_mset)
  have "length (filter (\<lambda>a. reason \<in> set (am_reasons a)) (map (anomaly_of floor_tokens sessions) (filter (\<lambda>s. reasons_of floor_tokens sessions s \<noteq> []) ss)))
      = length (filter (\<lambda>s. reason \<in> set (reasons_of floor_tokens sessions s)) ss)" for ss
    by (induction ss) (auto simp: anomaly_of_def)
  then show ?thesis using assms by (simp add: flagged_for_def classify_anomalies_def c)
qed

lemma high_cost:
  assumes "''high cost'' \<in> set (reasons_of floor_tokens sessions s)"
  shows "0 < pvariance (cost_base sessions) \<and> (\<exists>c. sa_cost_usd s = Some c \<and> above_sigma c (cost_base sessions))"
  using assms by (cases "sa_cost_usd s") (auto simp: reasons_of_def Let_def split: if_splits)

text \<open>
  The anomaly report flags outliers only: at most a quarter of the sessions for their tokens, a quarter of the priced
  ones for their cost and a quarter for their cache reuse; the anomalies come with decreasing severity, each with a
  reason, and a population below the minimum yields none.
\<close>

theorem anomalies_are_outliers:
  defines "report \<equiv> classify_anomalies"
  shows "4 * flagged_for ''high tokens'' (report sessions n f) \<le> length sessions
    \<and> 4 * flagged_for ''high cost'' (report sessions n f) \<le> length (cost_base sessions)
    \<and> 4 * flagged_for ''low cache reuse'' (report sessions n f) \<le> length sessions
    \<and> sorted_wrt (\<ge>) (map am_severity_score (ar_anomalies (report sessions n f)))
    \<and> (\<forall>a \<in> set (ar_anomalies (report sessions n f)). am_reasons a \<noteq> [])
    \<and> (length sessions < n \<longrightarrow> ar_anomalies (report sessions n f) = [])"
proof (cases "length sessions < n")
  case True
  then show ?thesis by (simp add: report_def classify_anomalies_def flagged_for_def)
next
  case False
  note count = flagged_count [OF False, of _ f]
  have "4 * flagged_for ''high tokens'' (report sessions n f) \<le> length (token_base sessions)"
    unfolding report_def count
    by (rule flagged_quarter [where measure_of = "\<lambda>s. Some (of_int (sa_total_tokens s))"])
      (auto simp: reasons_of_def Let_def token_base_def map_filter_def comp_def split: if_splits option.splits dest: far_above)
  moreover have "4 * flagged_for ''high cost'' (report sessions n f) \<le> length (cost_base sessions)"
    unfolding report_def count
    by (rule flagged_quarter [where measure_of = sa_cost_usd])
      (use high_cost far_above in \<open>blast, simp add: cost_base_def\<close>)
  moreover have "4 * flagged_for ''low cache reuse'' (report sessions n f) \<le> length (hit_base sessions)"
    unfolding report_def count
    by (rule flagged_quarter [where measure_of = "\<lambda>s. Some (cache_hit_rate s)"])
      (auto simp: reasons_of_def Let_def hit_base_def map_filter_def comp_def split: if_splits option.splits dest: far_below)
  moreover have "sorted (map (\<lambda>a. - am_severity_score a) (ar_anomalies (report sessions n f)))"
    using False by (simp add: report_def classify_anomalies_def)
  then have "sorted_wrt (\<ge>) (map am_severity_score (ar_anomalies (report sessions n f)))" by (simp add: sorted_wrt_map)
  moreover have "\<forall>a \<in> set (ar_anomalies (report sessions n f)). am_reasons a \<noteq> []"
    using False by (auto simp: report_def classify_anomalies_def anomaly_of_def)
  ultimately show ?thesis using False by (simp add: token_base_def hit_base_def)
qed

section \<open>Witnesses\<close>

theorem dashboard_matches_ledger_witness:
  "\<exists>buckets. usage_grouped ''day'' 0 0 no_bucket_filters (snd (rebuild_all_rollups DEFAULT_ROOTS (sample_rollup_db [] []))) = Some buckets
    \<and> sum_list (map ub_total_tokens buckets) = 15"
proof -
  let ?db = "sample_rollup_db [] []"
  have hyps: "distinct (map ro_key (rd_rollups ?db))" and none: "rd_rollups ?db = []"
    by (simp_all add: sample_rollup_db_def)
  obtain buckets where b: "usage_grouped ''day'' 0 0 no_bucket_filters (snd (rebuild_all_rollups DEFAULT_ROOTS ?db)) = Some buckets"
    by (simp add: usage_grouped_def Let_def)
  obtain usage where u: "grouped_usage empty_registry ''day'' (0 * DAY_US) (0 * DAY_US + DAY_US - 1) no_filters ?db = Some usage"
    by (auto simp: grouped_usage_def usage_key_def)
  have xs: "usage_rows empty_registry (0 * DAY_US) (0 * DAY_US + DAY_US - 1) no_filters ?db = [sample_attempt]"
    unfolding usage_rows_def by (simp add: sample_rollup_db_def in_range_def unfiltered)
      (simp add: is_final_attempt_def usage_event_v2_row_def sample_event_def as_utc_dt_def)
  have "(6::nat) < 7" "(5::nat) < 6" by simp_all
  then have "sum_list (map (\<lambda>u. us_columns u ! 6) usage) = 15"
    using grouped_usage_conserves [OF u, THEN conjunct1] unfolding xs by (simp add: sample_columns)
  then have "sum_list (map (\<lambda>b. ub_columns b ! 5) buckets) = 15"
    using dashboard_matches_ledger [OF hyps sample_inv b u, of 5] by (simp add: COUNTED_def none)
  then show ?thesis using b by (simp add: ub_columns_def)
qed

theorem session_stats_in_range_witness:
  "2 * median_of [1, 1, 1, 10] < 10 \<and> st_inflection_index (compute_session_stats [1, 1, 1, 10] [2] [3]) = Some 3
    \<and> st_cache_hit_rate (compute_session_stats [1, 1, 1, 10] [2] [3]) \<le> 1"
proof -
  have i: "st_inflection_index (compute_session_stats [1, 1, 1, 10] [2] [3]) = Some 3"
    by (simp add: compute_session_stats_def inflection_index_def MIN_TURNS_FOR_INFLECTION_def INFLECTION_MULTIPLE_def
        median_of_def Let_def sort_key_simps)
  show ?thesis using session_stats_in_range [of "[1, 1, 1, 10]" "[2]" "[3]"] i by auto
qed

definition plain_session :: "int \<Rightarrow> session_agg" where
  "plain_session n = \<lparr>sa_session_id = ''s'', sa_project = ''p'', sa_total_tokens = n, sa_cost_usd = None, sa_cache_read_tokens = 0,
     sa_input_tokens = n\<rparr>"

theorem anomalies_are_outliers_witness:
  "4 * flagged_for ''high tokens'' (classify_anomalies (map plain_session [1, 1, 90000]) 2 50000) \<le> 3"
  using anomalies_are_outliers [of "map plain_session [1, 1, 90000]" 2 50000] by simp

end
