(* ===== verification/Access.thy ===== *)
theory Access
  imports Audit_Log Rate_Limiter Claude_Code
begin

text \<open>
  Authentication, scopes and token management: \<open>api/auth.py\<close>, \<open>scopes.py\<close>, \<open>services/tokens.py\<close>, the routes of
  \<open>api/tokens.py\<close>, the transport helpers of \<open>api/security.py\<close>, and the rate guard of \<open>api/v2/ingest.py\<close>. The digest
  of a token is a parameter, as is the generated secret. A route returns its answer with the state that stays: the
  refresh of a token's last use is committed before the route runs.
\<close>

section \<open>Scopes\<close>

definition INGEST_EVENTS :: string where "INGEST_EVENTS = ''ingest:events''"
definition INGEST_LIMITS :: string where "INGEST_LIMITS = ''ingest:limits''"
definition INGEST_AGGREGATES :: string where "INGEST_AGGREGATES = ''ingest:aggregates''"
definition QUERY_READ :: string where "QUERY_READ = ''query:read''"
definition ADMIN_TOKENS :: string where "ADMIN_TOKENS = ''admin:tokens''"
definition ADMIN_CORRECTIONS :: string where "ADMIN_CORRECTIONS = ''admin:corrections''"
definition ADMIN_PRICING :: string where "ADMIN_PRICING = ''admin:pricing''"
definition ADMIN_RETENTION :: string where "ADMIN_RETENTION = ''admin:retention''"

definition ALL_SCOPES :: "string list" where
  "ALL_SCOPES = [INGEST_EVENTS, INGEST_LIMITS, INGEST_AGGREGATES, QUERY_READ, ADMIN_TOKENS, ADMIN_CORRECTIONS,
     ADMIN_PRICING, ADMIN_RETENTION]"

datatype access_error =
    Unauthorized | Forbidden string | Non_Ascii_Token | Several_Rows | Integrity_Error
  | Unknown_Scopes "string list" | Duplicate_Label string | Unknown_Label string | Rate_Limited int

text \<open>Known scopes in canonical order; the error names the unknown ones, sorted.\<close>

definition validate_scopes :: "string list \<Rightarrow> access_error + string list" where
  "validate_scopes scopes =
     (let unknown = filter (\<lambda>s. s \<notin> set ALL_SCOPES) (remdups scopes)
      in if unknown \<noteq> [] then Inl (Unknown_Scopes (sort unknown)) else Inr (filter (\<lambda>s. s \<in> set scopes) ALL_SCOPES))"

section \<open>Tokens\<close>

record api_token =
  tk_label :: string
  tk_hash :: string
  tk_created_at :: int
  tk_last_used :: "int option"
  tk_revoked :: bool
  tk_scopes :: "string list"
  tk_source_allowlist :: "string list option"

record principal =
  pn_label :: string
  pn_scopes :: "string list"
  pn_source_allowlist :: "string list option"
  pn_is_bootstrap :: bool

record access_env =
  ev_hash :: "string \<Rightarrow> string"
  ev_bootstrap :: "string option"

record access_db =
  ac_tokens :: "api_token list"
  ac_audit :: "audit_entry list"

definition one_or_none :: "'r list \<Rightarrow> access_error + 'r option" where
  "one_or_none rows = (case rows of [] \<Rightarrow> Inr None | [r] \<Rightarrow> Inr (Some r) | _ \<Rightarrow> Inl Several_Rows)"

text \<open>\<open>compare_digest\<close> of two strings refuses any that is not ASCII.\<close>

definition is_ascii :: "string \<Rightarrow> bool" where
  "is_ascii s = list_all (\<lambda>c. of_char c < (128 :: nat)) s"

definition matches_bootstrap :: "access_env \<Rightarrow> string \<Rightarrow> access_error + bool" where
  "matches_bootstrap env token =
     (case ev_bootstrap env of
        None \<Rightarrow> Inr False
      | Some configured \<Rightarrow>
          if configured = [] then Inr False
          else if is_ascii token \<and> is_ascii configured then Inr (token = configured) else Inl Non_Ascii_Token)"

text \<open>A missing or an empty allowlist is no restriction.\<close>

definition allowlist_of :: "string list option \<Rightarrow> string list option" where
  "allowlist_of names = (case names of None \<Rightarrow> None | Some ns \<Rightarrow> if ns = [] then None else Some ns)"

definition token_principal :: "api_token \<Rightarrow> principal" where
  "token_principal t = \<lparr>pn_label = tk_label t, pn_scopes = tk_scopes t,
     pn_source_allowlist = allowlist_of (tk_source_allowlist t), pn_is_bootstrap = False\<rparr>"

definition bootstrap_principal :: principal where
  "bootstrap_principal = \<lparr>pn_label = ''bootstrap'', pn_scopes = ALL_SCOPES, pn_source_allowlist = None, pn_is_bootstrap = True\<rparr>"

definition consume_db_token :: "int \<Rightarrow> string \<Rightarrow> api_token list \<Rightarrow> access_error + (principal \<times> api_token list) option" where
  "consume_db_token now h tokens =
     (case one_or_none (filter (\<lambda>t. tk_hash t = h \<and> \<not> tk_revoked t) tokens) of
        Inl e \<Rightarrow> Inl e
      | Inr None \<Rightarrow> Inr None
      | Inr (Some t) \<Rightarrow>
          Inr (Some (token_principal t,
            map (\<lambda>q. if tk_hash q = h \<and> \<not> tk_revoked q then q\<lparr>tk_last_used := Some now\<rparr> else q) tokens)))"

definition require_token ::
  "access_env \<Rightarrow> int \<Rightarrow> string option \<Rightarrow> api_token list \<Rightarrow> access_error + principal \<times> api_token list" where
  "require_token env now credentials tokens =
     (case credentials of
        None \<Rightarrow> Inl Unauthorized
      | Some token \<Rightarrow>
          if token = [] then Inl Unauthorized
          else case matches_bootstrap env token of
            Inl e \<Rightarrow> Inl e
          | Inr True \<Rightarrow> Inr (bootstrap_principal, tokens)
          | Inr False \<Rightarrow>
              (case consume_db_token now (ev_hash env token) tokens of
                 Inl e \<Rightarrow> Inl e | Inr None \<Rightarrow> Inl Unauthorized | Inr (Some r) \<Rightarrow> Inr r))"

definition has_scope :: "principal \<Rightarrow> string \<Rightarrow> bool" where
  "has_scope p s \<longleftrightarrow> s \<in> set (pn_scopes p)"

text \<open>A route behind \<open>require_scopes\<close>; a route that raises leaves what the authentication committed.\<close>

definition with_scopes ::
  "access_env \<Rightarrow> int \<Rightarrow> string option \<Rightarrow> string list \<Rightarrow> (principal \<Rightarrow> access_db \<Rightarrow> access_error + 'r \<times> access_db)
   \<Rightarrow> access_db \<Rightarrow> (access_error + 'r) \<times> access_db" where
  "with_scopes env now credentials needed route db =
     (case require_token env now credentials (ac_tokens db) of
        Inl e \<Rightarrow> (Inl e, db)
      | Inr (p, tokens) \<Rightarrow>
          let db1 = db\<lparr>ac_tokens := tokens\<rparr>
          in if \<not> list_all (has_scope p) needed then (Inl (Forbidden ''insufficient scope''), db1)
             else case route p db1 of Inl e \<Rightarrow> (Inl e, db1) | Inr (r, db2) \<Rightarrow> (Inr r, db2))"

section \<open>Token management\<close>

record created_token =
  ct_label :: string
  ct_token :: string
  ct_created_at :: int
  ct_scopes :: "string list"

definition TOKEN_PREFIX :: string where "TOKEN_PREFIX = ''tkm_''"

definition generate_token :: "string \<Rightarrow> string" where
  "generate_token random = TOKEN_PREFIX @ random"

text \<open>The label and the hash are unique columns.\<close>

definition create_token ::
  "access_env \<Rightarrow> int \<Rightarrow> string \<Rightarrow> string \<Rightarrow> string list option \<Rightarrow> string list option \<Rightarrow> api_token list
   \<Rightarrow> access_error + created_token \<times> api_token list" where
  "create_token env now random label scopes allowlist tokens =
     (case (case scopes of None \<Rightarrow> Inr ALL_SCOPES | Some ss \<Rightarrow> validate_scopes ss) of
        Inl e \<Rightarrow> Inl e
      | Inr resolved \<Rightarrow>
          (case one_or_none (filter (\<lambda>t. tk_label t = label) tokens) of
             Inl e \<Rightarrow> Inl e
           | Inr (Some _) \<Rightarrow> Inl (Duplicate_Label label)
           | Inr None \<Rightarrow>
               let token = generate_token random
               in if ev_hash env token \<in> tk_hash ` set tokens then Inl Integrity_Error
                  else Inr (\<lparr>ct_label = label, ct_token = token, ct_created_at = now, ct_scopes = resolved\<rparr>,
                    tokens @ [\<lparr>tk_label = label, tk_hash = ev_hash env token, tk_created_at = now, tk_last_used = None,
                      tk_revoked = False, tk_scopes = resolved, tk_source_allowlist = allowlist\<rparr>])))"

record token_info =
  tf_label :: string
  tf_created_at :: int
  tf_last_used :: "int option"
  tf_revoked :: bool
  tf_scopes :: "string list"
  tf_source_allowlist :: "string list option"

definition list_tokens :: "api_token list \<Rightarrow> token_info list" where
  "list_tokens tokens = map (\<lambda>t. \<lparr>tf_label = tk_label t, tf_created_at = tk_created_at t, tf_last_used = tk_last_used t,
     tf_revoked = tk_revoked t, tf_scopes = tk_scopes t, tf_source_allowlist = allowlist_of (tk_source_allowlist t)\<rparr>)
     (sort_key (\<lambda>t. - tk_created_at t) tokens)"

definition revoke_token :: "string \<Rightarrow> api_token list \<Rightarrow> access_error + bool \<times> api_token list" where
  "revoke_token label tokens =
     (case one_or_none (filter (\<lambda>t. tk_label t = label) tokens) of
        Inl e \<Rightarrow> Inl e
      | Inr None \<Rightarrow> Inr (False, tokens)
      | Inr (Some _) \<Rightarrow> Inr (True, map (\<lambda>t. if tk_label t = label then t\<lparr>tk_revoked := True\<rparr> else t) tokens))"

section \<open>The routes\<close>

definition audit_strings :: "string list option \<Rightarrow> audit_value" where
  "audit_strings xs = (case xs of None \<Rightarrow> AuNull | Some ss \<Rightarrow> AuArr (map AuStr ss))"

definition create_token_route ::
  "access_env \<Rightarrow> int \<Rightarrow> string \<Rightarrow> string option \<Rightarrow> string \<Rightarrow> string list option \<Rightarrow> string list option
   \<Rightarrow> access_db \<Rightarrow> (access_error + created_token) \<times> access_db" where
  "create_token_route env now random credentials label scopes allowlist =
     with_scopes env now credentials [ADMIN_TOKENS] (\<lambda>p db.
       case create_token env now random label scopes allowlist (ac_tokens db) of
         Inl e \<Rightarrow> Inl e
       | Inr (created, tokens) \<Rightarrow>
           Inr (created, db\<lparr>ac_tokens := tokens, ac_audit := audit_record (Some (pn_label p)) ''token_create'' (Some label)
             [(''scopes'', audit_strings (Some (ct_scopes created))), (''source_allowlist'', audit_strings allowlist)]
             now None (ac_audit db)\<rparr>))"

definition list_tokens_route ::
  "access_env \<Rightarrow> int \<Rightarrow> string option \<Rightarrow> access_db \<Rightarrow> (access_error + token_info list) \<times> access_db" where
  "list_tokens_route env now credentials =
     with_scopes env now credentials [ADMIN_TOKENS] (\<lambda>p db. Inr (list_tokens (ac_tokens db), db))"

definition revoke_token_route ::
  "access_env \<Rightarrow> int \<Rightarrow> string option \<Rightarrow> string \<Rightarrow> access_db \<Rightarrow> (access_error + unit) \<times> access_db" where
  "revoke_token_route env now credentials label =
     with_scopes env now credentials [ADMIN_TOKENS] (\<lambda>p db.
       case revoke_token label (ac_tokens db) of
         Inl e \<Rightarrow> Inl e
       | Inr (False, _) \<Rightarrow> Inl (Unknown_Label label)
       | Inr (True, tokens) \<Rightarrow>
           Inr ((), db\<lparr>ac_tokens := tokens, ac_audit := audit_record (Some (pn_label p)) ''token_revoke'' (Some label) []
             now None (ac_audit db)\<rparr>))"

section \<open>The rate guard and the transport helpers\<close>

definition ingest_rate_guard :: "rat \<Rightarrow> principal \<Rightarrow> rate_limiter \<Rightarrow> access_error option \<times> rate_limiter" where
  "ingest_rate_guard now p l =
     (case rl_check now (pn_label p) 1 l of
        (Some retry_after, l') \<Rightarrow> (Some (Rate_Limited (max 1 \<lceil>retry_after\<rceil>)), l')
      | (None, l') \<Rightarrow> (None, l'))"

definition str_contains :: "string \<Rightarrow> string \<Rightarrow> bool" where
  "str_contains needle s = list_ex (\<lambda>i. take (length needle) (drop i s) = needle) [0..<Suc (length s)]"

definition is_api_path :: "string \<Rightarrow> bool" where
  "is_api_path path \<longleftrightarrow> take 5 path = ''/api/''"

definition is_ingest_path :: "string \<Rightarrow> bool" where
  "is_ingest_path path = str_contains ''/ingest'' path"

definition is_health_path :: "string \<Rightarrow> bool" where
  "is_health_path path \<longleftrightarrow> path = ''/api/v1/health''"

text \<open>The key of a request by its \<open>Authorization\<close> header and its peer.\<close>

definition rate_key :: "string option \<Rightarrow> string option \<Rightarrow> string" where
  "rate_key authorization client_host =
     (let auth = (case authorization of None \<Rightarrow> [] | Some a \<Rightarrow> a)
      in if take 7 (str_lower auth) = ''bearer '' then ''token:'' @ str_strip (drop 7 auth)
         else ''host:'' @ (case client_host of Some h \<Rightarrow> h | None \<Rightarrow> ''unknown''))"

text \<open>What the middleware of \<open>app.py\<close> decides before a route runs; \<open>None\<close> lets the request through.\<close>

datatype guard_refusal = Body_Too_Large | Query_Limit_Exceeded int

record http_request =
  ht_path :: string
  ht_content_length :: "string option"
  ht_authorization :: "string option"
  ht_client_host :: "string option"

definition security_guard :: "int \<Rightarrow> rat \<Rightarrow> http_request \<Rightarrow> rate_limiter \<Rightarrow> guard_refusal option \<times> rate_limiter" where
  "security_guard max_request_bytes now req l =
     (let too_large = (case Option.bind (ht_content_length req) int_of_str of None \<Rightarrow> False | Some n \<Rightarrow> max_request_bytes < n);
          path = ht_path req
      in if too_large then (Some Body_Too_Large, l)
         else if is_api_path path \<and> \<not> is_ingest_path path \<and> \<not> is_health_path path
         then (case rl_check now (rate_key (ht_authorization req) (ht_client_host req)) 1 l of
                 (Some retry_after, l') \<Rightarrow> (Some (Query_Limit_Exceeded (max 1 \<lceil>retry_after\<rceil>)), l')
               | (None, l') \<Rightarrow> (None, l'))
         else (None, l))"

end
