(* ===== verification/Access_Laws.thy ===== *)
theory Access_Laws
  imports Access
begin

text \<open>
  What the tokens guarantee: over any history of requests, a bearer token is accepted exactly while it is minted and
  not revoked, with the scopes it was minted with; every change of the tokens is made by an administrator of tokens
  and audited.
\<close>

section \<open>Histories\<close>

record mint =
  mt_secret :: string
  mt_label :: string
  mt_scopes :: "string list"
  mt_source_allowlist :: "string list option"

definition empty_access :: access_db where
  "empty_access = \<lparr>ac_tokens = [], ac_audit = []\<rparr>"

text \<open>
  The states that requests can reach, with the tokens that were handed out and the labels that were revoked. Any
  other authenticated route refreshes at most the last use.
\<close>

inductive access_reach :: "access_env \<Rightarrow> mint list \<Rightarrow> string set \<Rightarrow> access_db \<Rightarrow> bool" for env where
  start: "access_reach env [] {} empty_access"
| other: "access_reach env ms rs db \<Longrightarrow> require_token env now cred (ac_tokens db) = Inr (p, tokens)
    \<Longrightarrow> access_reach env ms rs (db\<lparr>ac_tokens := tokens\<rparr>)"
| created: "access_reach env ms rs db
    \<Longrightarrow> create_token_route env now random cred label scopes allowlist db = (Inr c, db')
    \<Longrightarrow> access_reach env (ms @ [\<lparr>mt_secret = ct_token c, mt_label = ct_label c, mt_scopes = ct_scopes c,
          mt_source_allowlist = allowlist\<rparr>]) rs db'"
| create_refused: "access_reach env ms rs db
    \<Longrightarrow> create_token_route env now random cred label scopes allowlist db = (Inl e, db') \<Longrightarrow> access_reach env ms rs db'"
| listed: "access_reach env ms rs db \<Longrightarrow> list_tokens_route env now cred db = (r, db') \<Longrightarrow> access_reach env ms rs db'"
| revoked: "access_reach env ms rs db \<Longrightarrow> revoke_token_route env now cred label db = (Inr (), db')
    \<Longrightarrow> access_reach env ms (insert label rs) db'"
| revoke_refused: "access_reach env ms rs db \<Longrightarrow> revoke_token_route env now cred label db = (Inl e, db')
    \<Longrightarrow> access_reach env ms rs db'"

section \<open>The invariant\<close>

definition token_of :: "access_env \<Rightarrow> string set \<Rightarrow> mint \<Rightarrow> api_token \<Rightarrow> bool" where
  "token_of env rs m t \<longleftrightarrow> tk_label t = mt_label m \<and> tk_hash t = ev_hash env (mt_secret m) \<and> tk_scopes t = mt_scopes m
     \<and> tk_source_allowlist t = mt_source_allowlist m \<and> (tk_revoked t \<longleftrightarrow> mt_label m \<in> rs)"

definition canonical :: "string list \<Rightarrow> bool" where
  "canonical scopes \<longleftrightarrow> scopes = filter (\<lambda>s. s \<in> set scopes) ALL_SCOPES"

definition tokens_inv :: "access_env \<Rightarrow> mint list \<Rightarrow> string set \<Rightarrow> api_token list \<Rightarrow> bool" where
  "tokens_inv env ms rs tokens \<longleftrightarrow> list_all2 (token_of env rs) ms tokens \<and> distinct (map tk_label tokens)
     \<and> distinct (map tk_hash tokens) \<and> rs \<subseteq> mt_label ` set ms \<and> (\<forall>m \<in> set ms. canonical (mt_scopes m))"

lemma canonical_validated: "validate_scopes scopes = Inr ss \<Longrightarrow> canonical ss"
  by (auto simp: validate_scopes_def canonical_def Let_def split: if_splits intro!: filter_cong)

lemma canonical_all: "canonical ALL_SCOPES"
  by (simp add: canonical_def)

lemma map_keeps:
  assumes "\<And>t. f (g t) = f t"
  shows "map f (map g xs) = map f xs"
  using assms by simp

text \<open>The refresh of the last use keeps everything else.\<close>

definition same_tokens :: "api_token list \<Rightarrow> api_token list \<Rightarrow> bool" where
  "same_tokens ts us \<longleftrightarrow> map (\<lambda>t. t\<lparr>tk_last_used := None\<rparr>) ts = map (\<lambda>t. t\<lparr>tk_last_used := None\<rparr>) us"

lemma same_tokens_refl [simp]: "same_tokens ts ts"
  by (simp add: same_tokens_def)

lemma same_tokens_inv:
  assumes "same_tokens ts us" and "tokens_inv env ms rs ts"
  shows "tokens_inv env ms rs us"
proof -
  let ?n = "\<lambda>t. t\<lparr>tk_last_used := None\<rparr>"
  have n: "token_of env rs m (?n t) = token_of env rs m t" for m t by (simp add: token_of_def)
  have all2: "list_all2 (token_of env rs) ms (map ?n xs) = list_all2 (token_of env rs) ms xs" for xs
    by (simp add: list_all2_conv_all_nth n cong: conj_cong)
  have l: "map tk_label (map ?n xs) = map tk_label xs" "map tk_hash (map ?n xs) = map tk_hash xs" for xs by simp_all
  show ?thesis using assms l [of ts] l [of us] all2 [of ts] all2 [of us] unfolding tokens_inv_def same_tokens_def by metis
qed

lemma require_token_same:
  "require_token env now cred tokens = Inr (p, tokens') \<Longrightarrow> same_tokens tokens tokens'"
  by (auto simp: require_token_def consume_db_token_def same_tokens_def one_or_none_def
      split: option.splits if_splits sum.splits bool.splits list.splits)

text \<open>A route behind a scope check either ends before it runs or runs on the same tokens for a principal with the scopes.\<close>

lemma with_scopes_cases:
  assumes "with_scopes env now cred needed route db = (r, db')"
  obtains (refused) e where "r = Inl e" and "same_tokens (ac_tokens db) (ac_tokens db')" and "ac_audit db' = ac_audit db"
  | (ran) p db1 x where "require_token env now cred (ac_tokens db) = Inr (p, ac_tokens db1)" and "list_all (has_scope p) needed"
      and "same_tokens (ac_tokens db) (ac_tokens db1)" and "ac_audit db1 = ac_audit db"
      and "r = Inr x" and "route p db1 = Inr (x, db')"
proof (cases "require_token env now cred (ac_tokens db)")
  case (Inl e)
  then show thesis using assms refused by (auto simp: with_scopes_def)
next
  case (Inr q)
  obtain p tokens where q: "q = (p, tokens)" by (cases q)
  let ?db1 = "db\<lparr>ac_tokens := tokens\<rparr>"
  have same: "same_tokens (ac_tokens db) (ac_tokens ?db1)" using require_token_same Inr q by simp
  show thesis
  proof (cases "list_all (has_scope p) needed")
    case False
    then show thesis using assms refused same Inr q by (auto simp: with_scopes_def Let_def)
  next
    case True
    show thesis
    proof (cases "route p ?db1")
      case (Inl e)
      then show thesis using assms refused same Inr q True \<open>require_token env now cred (ac_tokens db) = Inr q\<close>
        by (auto simp: with_scopes_def Let_def)
    next
      case run: (Inr y)
      then obtain x db2 where y: "y = (x, db2)" by (cases y)
      then have "r = Inr x" "db' = db2" using assms run True Inr q by (auto simp: with_scopes_def Let_def)
      then show thesis using ran [of p ?db1 x] True same run y Inr q by simp
    qed
  qed
qed

lemma create_token_row:
  assumes "create_token env now random label scopes allowlist tokens = Inr (c, tokens')"
  shows "tokens' = tokens @ [\<lparr>tk_label = label, tk_hash = ev_hash env (ct_token c), tk_created_at = now, tk_last_used = None,
      tk_revoked = False, tk_scopes = ct_scopes c, tk_source_allowlist = allowlist\<rparr>]
    \<and> ct_label c = label \<and> label \<notin> tk_label ` set tokens \<and> ev_hash env (ct_token c) \<notin> tk_hash ` set tokens
    \<and> canonical (ct_scopes c) \<and> ct_token c = generate_token random"
proof -
  obtain resolved where r: "(case scopes of None \<Rightarrow> Inr ALL_SCOPES | Some ss \<Rightarrow> validate_scopes ss) = Inr resolved"
    using assms by (auto simp: create_token_def split: sum.splits)
  then have c: "canonical resolved" using canonical_validated canonical_all by (auto split: option.splits)
  have none: "filter (\<lambda>t. tk_label t = label) tokens = []"
    using assms r by (auto simp: create_token_def one_or_none_def split: list.splits option.splits)
  then have "label \<notin> tk_label ` set tokens" by (auto simp: filter_empty_conv)
  then show ?thesis using assms r c none by (auto simp: create_token_def one_or_none_def Let_def split: if_splits)
qed

lemma inv_create:
  assumes "tokens_inv env ms rs tokens" and "create_token env now random label scopes allowlist tokens = Inr (c, tokens')"
  shows "tokens_inv env (ms @ [\<lparr>mt_secret = ct_token c, mt_label = ct_label c, mt_scopes = ct_scopes c,
    mt_source_allowlist = allowlist\<rparr>]) rs tokens'"
proof -
  note row = create_token_row [OF assms(2)]
  have "tk_label ` set tokens = mt_label ` set ms"
  proof -
    have "map tk_label tokens = map mt_label ms"
      using assms(1) unfolding tokens_inv_def
      by (auto simp: list_all2_conv_all_nth token_of_def intro: nth_equalityI)
    then show ?thesis by (metis set_map)
  qed
  then have "label \<notin> rs" using row assms(1) by (auto simp: tokens_inv_def)
  then have "list_all2 (token_of env rs) (ms @ [\<lparr>mt_secret = ct_token c, mt_label = ct_label c, mt_scopes = ct_scopes c,
      mt_source_allowlist = allowlist\<rparr>]) tokens'"
    using assms(1) row by (auto simp: tokens_inv_def token_of_def intro!: list_all2_appendI)
  then show ?thesis using assms(1) row by (auto simp: tokens_inv_def)
qed

lemma revoke_token_row:
  "revoke_token label tokens = Inr (True, tokens')
    \<Longrightarrow> tokens' = map (\<lambda>t. if tk_label t = label then t\<lparr>tk_revoked := True\<rparr> else t) tokens"
  by (auto simp: revoke_token_def one_or_none_def split: list.splits)

lemma revoked_all:
  "\<forall>t \<in> set (map (\<lambda>t. if tk_label t = label then t\<lparr>tk_revoked := True\<rparr> else t) tokens). tk_label t = label \<longrightarrow> tk_revoked t"
proof (intro ballI impI)
  fix q assume q: "q \<in> set (map (\<lambda>t. if tk_label t = label then t\<lparr>tk_revoked := True\<rparr> else t) tokens)" and l: "tk_label q = label"
  from q obtain t where t: "q = (if tk_label t = label then t\<lparr>tk_revoked := True\<rparr> else t)"
    unfolding set_map by (elim imageE) (rule that)
  show "tk_revoked q"
  proof (cases "tk_label t = label")
    case False
    then show ?thesis using t l by argo
  qed (simp add: t)
qed

lemma inv_revoke:
  assumes "tokens_inv env ms rs tokens" and "revoke_token label tokens = Inr (True, tokens')"
  shows "tokens_inv env ms (insert label rs) tokens'"
proof -
  let ?f = "\<lambda>t. if tk_label t = label then t\<lparr>tk_revoked := True\<rparr> else t"
  have t': "tokens' = map ?f tokens" and "filter (\<lambda>t. tk_label t = label) tokens \<noteq> []"
    using assms(2) by (auto simp: revoke_token_def one_or_none_def split: list.splits)
  then obtain t where t: "t \<in> set tokens" "tk_label t = label" by (auto simp: filter_empty_conv)
  have all2: "list_all2 (token_of env rs) ms tokens" using assms(1) by (simp add: tokens_inv_def)
  then obtain m where "m \<in> set ms" "token_of env rs m t" using t(1) by (metis in_set_conv_nth list_all2_conv_all_nth)
  then have "label \<in> mt_label ` set ms" using t(2) by (auto simp: token_of_def)
  moreover have "list_all2 (token_of env (insert label rs)) ms tokens'"
    using all2 by (auto simp: t' list_all2_conv_all_nth token_of_def)
  moreover have "map tk_label tokens' = map tk_label tokens" "map tk_hash tokens' = map tk_hash tokens" by (simp_all add: t')
  ultimately show ?thesis using assms(1) by (simp add: tokens_inv_def)
qed

lemma reach_inv: "access_reach env ms rs db \<Longrightarrow> tokens_inv env ms rs (ac_tokens db)"
proof (induction rule: access_reach.induct)
  case start
  show ?case by (simp add: tokens_inv_def empty_access_def)
next
  case (other ms rs db now cred p tokens)
  then show ?case using require_token_same same_tokens_inv by fastforce
next
  case (created ms rs db now random cred label scopes allowlist c db')
  from created(2) [unfolded create_token_route_def] show ?case
  proof (cases rule: with_scopes_cases)
    case (ran p db1 x)
    have x: "x = c" using ran by simp
    obtain tokens where "create_token env now random label scopes allowlist (ac_tokens db1) = Inr (c, tokens)"
      and "ac_tokens db' = tokens" using ran(6) x by (auto split: sum.splits)
    then show ?thesis using inv_create same_tokens_inv [OF ran(3) created.IH] by blast
  qed simp
next
  case (create_refused ms rs db now random cred label scopes allowlist e db')
  from create_refused(2) [unfolded create_token_route_def] show ?case
    by (cases rule: with_scopes_cases) (use create_refused.IH same_tokens_inv in auto)
next
  case (listed ms rs db now cred r db')
  from listed(2) [unfolded list_tokens_route_def] show ?case
    by (cases rule: with_scopes_cases) (use listed.IH same_tokens_inv in auto)
next
  case (revoked ms rs db now cred label db')
  from revoked(2) [unfolded revoke_token_route_def] show ?case
  proof (cases rule: with_scopes_cases)
    case (ran p db1 x)
    obtain tokens where "revoke_token label (ac_tokens db1) = Inr (True, tokens)" and "ac_tokens db' = tokens"
      using ran(6) by (auto split: sum.splits bool.splits prod.splits)
    then show ?thesis using inv_revoke same_tokens_inv [OF ran(3) revoked.IH] by blast
  qed simp
next
  case (revoke_refused ms rs db now cred label e db')
  from revoke_refused(2) [unfolded revoke_token_route_def] show ?case
    by (cases rule: with_scopes_cases) (use revoke_refused.IH same_tokens_inv in auto)
qed

section \<open>What a token is worth\<close>

lemma live_token:
  "distinct (map tk_hash tokens) \<Longrightarrow>
    one_or_none (filter (\<lambda>t. tk_hash t = h \<and> \<not> tk_revoked t) tokens) = Inr (find (\<lambda>t. tk_hash t = h \<and> \<not> tk_revoked t) tokens)"
proof (induction tokens)
  case (Cons t tokens)
  show ?case
  proof (cases "tk_hash t = h \<and> \<not> tk_revoked t")
    case True
    then have "filter (\<lambda>t. tk_hash t = h \<and> \<not> tk_revoked t) tokens = []"
      using Cons.prems by (auto simp: filter_empty_conv) (metis image_eqI)
    then show ?thesis using True by (simp add: one_or_none_def)
  next
    case False
    then have "filter (\<lambda>t. tk_hash t = h \<and> \<not> tk_revoked t) (t # tokens) = filter (\<lambda>t. tk_hash t = h \<and> \<not> tk_revoked t) tokens"
      by simp
    then show ?thesis using Cons False by auto
  qed
qed (simp add: one_or_none_def)

lemma live_tokens:
  "tokens_inv env ms rs tokens \<Longrightarrow>
    one_or_none (filter (\<lambda>t. tk_hash t = h \<and> \<not> tk_revoked t) tokens) = Inr (find (\<lambda>t. tk_hash t = h \<and> \<not> tk_revoked t) tokens)"
  by (simp add: tokens_inv_def live_token)

text \<open>
  C27. A bearer token is worth what it was minted for, while it is not revoked: after any history of requests, a token
  other than the bootstrap one is accepted exactly if it is the secret of a minted token whose label has not been
  revoked, and then with the label, the scopes and the allowlist it was minted with, where no list and the empty list
  both mean that every source is allowed, and never as the bootstrap principal; any other is unauthorized. The
  hypotheses: the history, the digest has no collision among the secrets and the token, and the token is not empty.
\<close>

theorem token_authority:
  assumes "access_reach env ms rs db" and "inj_on (ev_hash env) (insert t (mt_secret ` set ms))"
    and "matches_bootstrap env t = Inr False" and "t \<noteq> []"
  shows "case require_token env now (Some t) (ac_tokens db) of
      Inl e \<Rightarrow> e = Unauthorized \<and> (\<forall>m \<in> set ms. mt_secret m = t \<longrightarrow> mt_label m \<in> rs)
    | Inr (p, _) \<Rightarrow> \<exists>m \<in> set ms. mt_secret m = t \<and> mt_label m \<notin> rs
        \<and> pn_label p = mt_label m \<and> pn_scopes p = mt_scopes m \<and> \<not> pn_is_bootstrap p
        \<and> pn_source_allowlist p = (case mt_source_allowlist m of Some (name # names) \<Rightarrow> Some (name # names) | _ \<Rightarrow> None)"
proof -
  let ?live = "\<lambda>q. tk_hash q = ev_hash env t \<and> \<not> tk_revoked q"
  have inv: "tokens_inv env ms rs (ac_tokens db)" using reach_inv [OF assms(1)] .
  then have all2: "list_all2 (token_of env rs) ms (ac_tokens db)" by (simp add: tokens_inv_def)
  have run: "require_token env now (Some t) (ac_tokens db) =
    (case find ?live (ac_tokens db) of None \<Rightarrow> Inl Unauthorized
     | Some q \<Rightarrow> Inr (token_principal q, map (\<lambda>q. if ?live q then q\<lparr>tk_last_used := Some now\<rparr> else q) (ac_tokens db)))"
    using assms(3,4) by (simp add: require_token_def consume_db_token_def live_tokens [OF inv] split: option.split)
  show ?thesis
  proof (cases "find ?live (ac_tokens db)")
    case None
    have "mt_label m \<in> rs" if m: "m \<in> set ms" "mt_secret m = t" for m
    proof -
      obtain q where "q \<in> set (ac_tokens db)" "token_of env rs m q"
        using all2 m(1) by (metis in_set_conv_nth list_all2_conv_all_nth)
      then show ?thesis using None m(2) by (auto simp: find_None_iff token_of_def)
    qed
    then show ?thesis using run None by simp
  next
    case (Some q)
    then have q: "q \<in> set (ac_tokens db)" "?live q" by (auto simp: find_Some_iff)
    then obtain m where m: "m \<in> set ms" "token_of env rs m q" using all2 by (metis in_set_conv_nth list_all2_conv_all_nth)
    then have "ev_hash env (mt_secret m) = ev_hash env t" using q(2) by (simp add: token_of_def)
    then have "mt_secret m = t" using inj_onD [OF assms(2)] m(1) by blast
    moreover have "pn_label (token_principal q) = mt_label m" "pn_scopes (token_principal q) = mt_scopes m"
      "\<not> pn_is_bootstrap (token_principal q)" "mt_label m \<notin> rs"
      "pn_source_allowlist (token_principal q) = (case mt_source_allowlist m of Some (name # names) \<Rightarrow> Some (name # names) | _ \<Rightarrow> None)"
      using m(2) q(2) by (auto simp: token_of_def token_principal_def allowlist_of_def split: option.split list.split)
    ultimately show ?thesis using run Some m(1) by auto
  qed
qed

section \<open>Who changes the tokens\<close>

text \<open>
  C39. The token table changes by audited acts of token administrators only: a create or a revoke that is refused leaves
  the tokens, up to a last use, and the audit log as they were; one that succeeds was asked for by a principal with
  the scope for it and adds exactly one audit entry in its name, and a created token has known scopes in canonical order.
\<close>

theorem token_changes_audited:
  assumes "create_token_route env now random cred label scopes allowlist db = (r, db')"
    and "revoke_token_route env now cred label db = (r2, db2)"
  shows "(case r of
      Inl e \<Rightarrow> same_tokens (ac_tokens db) (ac_tokens db') \<and> ac_audit db' = ac_audit db
    | Inr c \<Rightarrow> canonical (ct_scopes c) \<and> (\<exists>p tokens. require_token env now cred (ac_tokens db) = Inr (p, tokens)
        \<and> has_scope p ADMIN_TOKENS \<and> (\<exists>entry. ac_audit db' = ac_audit db @ [entry] \<and> au_actor entry = Some (pn_label p)
            \<and> au_action entry = ''token_create'' \<and> au_subject entry = Some label)))
    \<and> (case r2 of
      Inl e \<Rightarrow> same_tokens (ac_tokens db) (ac_tokens db2) \<and> ac_audit db2 = ac_audit db
    | Inr _ \<Rightarrow> (\<forall>t \<in> set (ac_tokens db2). tk_label t = label \<longrightarrow> tk_revoked t)
        \<and> (\<exists>p tokens. require_token env now cred (ac_tokens db) = Inr (p, tokens) \<and> has_scope p ADMIN_TOKENS
          \<and> (\<exists>entry. ac_audit db2 = ac_audit db @ [entry] \<and> au_actor entry = Some (pn_label p)
              \<and> au_action entry = ''token_revoke'' \<and> au_subject entry = Some label)))"
proof
  from assms(1) [unfolded create_token_route_def] show "case r of
      Inl e \<Rightarrow> same_tokens (ac_tokens db) (ac_tokens db') \<and> ac_audit db' = ac_audit db
    | Inr c \<Rightarrow> canonical (ct_scopes c) \<and> (\<exists>p tokens. require_token env now cred (ac_tokens db) = Inr (p, tokens)
        \<and> has_scope p ADMIN_TOKENS \<and> (\<exists>entry. ac_audit db' = ac_audit db @ [entry] \<and> au_actor entry = Some (pn_label p)
            \<and> au_action entry = ''token_create'' \<and> au_subject entry = Some label))"
  proof (cases rule: with_scopes_cases)
    case (ran p db1 c)
    obtain tokens where c: "create_token env now random label scopes allowlist (ac_tokens db1) = Inr (c, tokens)"
      and db': "ac_audit db' = audit_record (Some (pn_label p)) ''token_create'' (Some label)
             [(''scopes'', audit_strings (Some (ct_scopes c))), (''source_allowlist'', audit_strings allowlist)]
             now None (ac_audit db1)"
      using ran(6) by (auto split: sum.splits)
    have 1: "canonical (ct_scopes c)" using create_token_row [OF c] by blast
    have 2: "has_scope p ADMIN_TOKENS" using ran(2) by simp
    have 3: "\<exists>entry. ac_audit db' = ac_audit db @ [entry] \<and> au_actor entry = Some (pn_label p)
        \<and> au_action entry = ''token_create'' \<and> au_subject entry = Some label"
      unfolding db' ran(4) by (simp add: audit_record_def)
    show ?thesis unfolding ran(5) sum.case
      by (rule conjI [OF 1]) (rule exI [of _ p], rule exI [of _ "ac_tokens db1"], rule conjI [OF ran(1) conjI [OF 2 3]])
  qed simp
next
  from assms(2) [unfolded revoke_token_route_def] show "case r2 of
      Inl e \<Rightarrow> same_tokens (ac_tokens db) (ac_tokens db2) \<and> ac_audit db2 = ac_audit db
    | Inr _ \<Rightarrow> (\<forall>t \<in> set (ac_tokens db2). tk_label t = label \<longrightarrow> tk_revoked t)
        \<and> (\<exists>p tokens. require_token env now cred (ac_tokens db) = Inr (p, tokens) \<and> has_scope p ADMIN_TOKENS
          \<and> (\<exists>entry. ac_audit db2 = ac_audit db @ [entry] \<and> au_actor entry = Some (pn_label p)
              \<and> au_action entry = ''token_revoke'' \<and> au_subject entry = Some label))"
  proof (cases rule: with_scopes_cases)
    case (ran p db1 x)
    obtain tokens where c: "revoke_token label (ac_tokens db1) = Inr (True, tokens)" and t: "ac_tokens db2 = tokens"
      and db': "ac_audit db2 = audit_record (Some (pn_label p)) ''token_revoke'' (Some label) [] now None (ac_audit db1)"
      using ran(6) by (auto split: sum.splits bool.splits prod.splits)
    have "\<forall>t \<in> set tokens. tk_label t = label \<longrightarrow> tk_revoked t" by (subst revoke_token_row [OF c]) (rule revoked_all)
    then have 1: "\<forall>t \<in> set (ac_tokens db2). tk_label t = label \<longrightarrow> tk_revoked t" by (simp only: t)
    have 2: "has_scope p ADMIN_TOKENS" using ran(2) by simp
    have 3: "\<exists>entry. ac_audit db2 = ac_audit db @ [entry] \<and> au_actor entry = Some (pn_label p)
        \<and> au_action entry = ''token_revoke'' \<and> au_subject entry = Some label"
      unfolding db' ran(4) by (simp add: audit_record_def)
    show ?thesis unfolding ran(5) sum.case
      by (rule conjI [OF 1]) (rule exI [of _ p], rule exI [of _ "ac_tokens db1"], rule conjI [OF ran(1) conjI [OF 2 3]])
  qed simp
qed

section \<open>Where the code does less than it says\<close>

text \<open>
  A token minted with an empty allowlist may report for every source: the empty list is read as no list.
\<close>

theorem empty_allowlist_unrestricted:
  "pn_source_allowlist (token_principal (t\<lparr>tk_source_allowlist := Some []\<rparr>)) = None"
  by (simp add: token_principal_def allowlist_of_def)

text \<open>
  When a bootstrap token is configured, a bearer token with a character that is not ASCII fails with an error of the
  comparison and not as unauthorized.
\<close>

theorem non_ascii_token_fails:
  assumes "ev_bootstrap env = Some configured" and "configured \<noteq> []" and "\<not> is_ascii t"
  shows "require_token env now (Some t) tokens = Inl Non_Ascii_Token"
proof -
  have "t \<noteq> []" using assms(3) by (auto simp: is_ascii_def)
  then show ?thesis using assms by (simp add: require_token_def matches_bootstrap_def)
qed

text \<open>
  No path of the v1 ingest is limited by the middleware, which leaves the limiter as it was: only the size of the
  body is checked.
\<close>

theorem ingest_paths_unlimited:
  assumes "ht_path req \<in> {''/api/v1/ingest/events'', ''/api/v1/ingest/limits'', ''/api/v1/ingest/bootstrap''}"
  shows "security_guard m now req l = (case Option.bind (ht_content_length req) int_of_str of
      Some n \<Rightarrow> (if m < n then (Some Body_Too_Large, l) else (None, l)) | None \<Rightarrow> (None, l))"
proof -
  have "is_ingest_path (ht_path req)" using assms by (auto simp: is_ingest_path_def str_contains_def)
  then show ?thesis by (simp add: security_guard_def Let_def split: option.split)
qed

section \<open>Witnesses\<close>

definition plain_env :: access_env where
  "plain_env = \<lparr>ev_hash = id, ev_bootstrap = Some ''root''\<rparr>"

lemma bootstrap_creates:
  "create_token_route plain_env 1 ''r'' (Some ''root'') ''ci'' (Some [QUERY_READ]) None empty_access =
    (Inr \<lparr>ct_label = ''ci'', ct_token = ''tkm_r'', ct_created_at = 1, ct_scopes = [QUERY_READ]\<rparr>,
     \<lparr>ac_tokens = [\<lparr>tk_label = ''ci'', tk_hash = ''tkm_r'', tk_created_at = 1, tk_last_used = None, tk_revoked = False,
         tk_scopes = [QUERY_READ], tk_source_allowlist = None\<rparr>],
      ac_audit = audit_record (Some ''bootstrap'') ''token_create'' (Some ''ci'')
        [(''scopes'', audit_strings (Some [QUERY_READ])), (''source_allowlist'', AuNull)] 1 None []\<rparr>)"
  by code_simp

lemma bootstrap_creates_listed:
  "create_token_route plain_env 1 ''r'' (Some ''root'') ''ci'' (Some [QUERY_READ]) (Some [''laptop'']) empty_access =
    (Inr \<lparr>ct_label = ''ci'', ct_token = ''tkm_r'', ct_created_at = 1, ct_scopes = [QUERY_READ]\<rparr>,
     \<lparr>ac_tokens = [\<lparr>tk_label = ''ci'', tk_hash = ''tkm_r'', tk_created_at = 1, tk_last_used = None, tk_revoked = False,
         tk_scopes = [QUERY_READ], tk_source_allowlist = Some [''laptop'']\<rparr>],
      ac_audit = audit_record (Some ''bootstrap'') ''token_create'' (Some ''ci'')
        [(''scopes'', audit_strings (Some [QUERY_READ])), (''source_allowlist'', audit_strings (Some [''laptop'']))] 1 None []\<rparr>)"
  by code_simp

theorem token_authority_witness:
  "\<exists>ms db p tokens. access_reach plain_env ms {} db \<and> require_token plain_env 2 (Some ''tkm_r'') (ac_tokens db) = Inr (p, tokens)
    \<and> pn_scopes p = [QUERY_READ] \<and> pn_source_allowlist p = Some [''laptop'']"
proof -
  let ?m = "\<lparr>mt_secret = ''tkm_r'', mt_label = ''ci'', mt_scopes = [QUERY_READ], mt_source_allowlist = Some [''laptop'']\<rparr>"
  obtain db where db: "access_reach plain_env [?m] {} db"
    using access_reach.created [OF access_reach.start bootstrap_creates_listed] by auto
  have "inj_on (ev_hash plain_env) S" for S by (simp add: plain_env_def)
  moreover have "matches_bootstrap plain_env ''tkm_r'' = Inr False" by code_simp
  ultimately have "case require_token plain_env 2 (Some ''tkm_r'') (ac_tokens db) of
      Inl e \<Rightarrow> e = Unauthorized \<and> (\<forall>m \<in> set [?m]. mt_secret m = ''tkm_r'' \<longrightarrow> mt_label m \<in> {})
    | Inr (p, _) \<Rightarrow> \<exists>m \<in> set [?m]. mt_secret m = ''tkm_r'' \<and> mt_label m \<notin> {}
        \<and> pn_label p = mt_label m \<and> pn_scopes p = mt_scopes m \<and> \<not> pn_is_bootstrap p
        \<and> pn_source_allowlist p = (case mt_source_allowlist m of Some (name # names) \<Rightarrow> Some (name # names) | _ \<Rightarrow> None)"
    by (intro token_authority [OF db]) simp_all
  then show ?thesis using db by (fastforce split: sum.splits prod.splits)
qed

theorem token_changes_audited_witness:
  "\<exists>r db' r2 db2. create_token_route plain_env 1 ''r'' (Some ''root'') ''ci'' (Some [QUERY_READ]) None empty_access = (r, db')
    \<and> revoke_token_route plain_env 1 (Some ''root'') ''ci'' empty_access = (r2, db2) \<and> ac_audit db2 = [] \<and> length (ac_audit db') = 1"
proof -
  obtain r2 db2 where r2: "revoke_token_route plain_env 1 (Some ''root'') ''ci'' empty_access = (r2, db2)" by fastforce
  have "fst (revoke_token_route plain_env 1 (Some ''root'') ''ci'' empty_access) = Inl (Unknown_Label ''ci'')" by code_simp
  then have "r2 = Inl (Unknown_Label ''ci'')" unfolding r2 by simp
  then show ?thesis using token_changes_audited [OF bootstrap_creates r2] bootstrap_creates r2 by (auto simp: empty_access_def)
qed

theorem non_ascii_token_fails_witness:
  "require_token plain_env 0 (Some [CHR 0xE9]) [] = Inl Non_Ascii_Token"
  by (rule non_ascii_token_fails [of plain_env "''root''"]) (simp_all add: plain_env_def is_ascii_def)

theorem ingest_paths_unlimited_witness:
  "security_guard 100 0 \<lparr>ht_path = ''/api/v1/ingest/events'', ht_content_length = None, ht_authorization = None,
     ht_client_host = None\<rparr> (new_limiter 0 0) = (None, new_limiter 0 0)"
  by (subst ingest_paths_unlimited) simp_all

end
