(* ===== verification/Ingest_Api.thy ===== *)
theory Ingest_Api
  imports Access Ingest_Laws Limit_Ingest
begin

text \<open>
  The v2 ingest routes (\<open>api/v2/ingest.py\<close>): authentication, scope and rate guard, the body, the envelope, the events,
  the allowlist of sources, and the service behind them. What the wire models accept of a JSON value, gunzip and the
  JSON decoder are parameters; the answer of a route comes with the state that stays.
\<close>

section \<open>Bodies and answers\<close>

text \<open>
  \<open>gzip.decompress\<close> fails with an \<open>OSError\<close> or \<open>EOFError\<close>, which the route catches, or with a \<open>zlib.error\<close>; the
  JSON decoder with a \<open>JSONDecodeError\<close>, which the route catches, or with a \<open>UnicodeDecodeError\<close>.
\<close>

datatype gunzip_error = Gzip_OS_Error | Zlib_Error

datatype loads_error = Json_Decode_Error | Unicode_Decode_Error

record api_issue =
  as_index :: int
  as_field_path :: string
  as_code :: string

datatype api_error =
    Denied access_error | Bad_Gzip_Body | Body_Over_Limit | Bad_Json_Body | Body_Not_Object
  | Invalid_Batch "api_issue list" | Too_Many_Events nat | Corrections_Forbidden | Sources_Denied "api_issue list"
  | Service_Failed ingest_error | Meta_Failed meta_error | Uncaught

fun http_status :: "api_error \<Rightarrow> int" where
  "http_status (Denied Unauthorized) = 401"
| "http_status (Denied (Forbidden _)) = 403"
| "http_status (Denied (Rate_Limited _)) = 429"
| "http_status (Denied _) = 500"
| "http_status Bad_Gzip_Body = 400"
| "http_status Body_Over_Limit = 413"
| "http_status Bad_Json_Body = 400"
| "http_status Body_Not_Object = 400"
| "http_status (Invalid_Batch _) = 422"
| "http_status (Too_Many_Events _) = 413"
| "http_status Corrections_Forbidden = 403"
| "http_status (Sources_Denied _) = 403"
| "http_status (Service_Failed _) = 500"
| "http_status (Meta_Failed _) = 500"
| "http_status Uncaught = 500"

record batch_envelope =
  be_events :: "json list"
  be_return_ids :: bool
  be_correction :: bool

record wire_models =
  wm_gunzip :: "string \<Rightarrow> gunzip_error + string"
  wm_loads :: "string \<Rightarrow> loads_error + json"
  wm_envelope :: "(string \<times> json) list \<Rightarrow> (string \<times> string) list + batch_envelope"
  wm_event :: "json \<Rightarrow> (string \<times> string) list + usage_event_v2"
  wm_limit :: "json \<Rightarrow> (string \<times> string) list + limit_snapshot_v2"
  wm_aggregate :: "json \<Rightarrow> (string \<times> string) list + aggregate_import_v2"
  wm_bytes :: "usage_event_v2 \<Rightarrow> nat"

record api_settings =
  sg_max_bytes :: nat
  sg_max_events :: nat
  sg_service :: ingest_service
  sg_min_interval :: rat
  sg_dialect :: dialect

record api_request =
  aq_encoding :: string
  aq_body :: string
  aq_request_id :: "string option"

definition load_body :: "wire_models \<Rightarrow> nat \<Rightarrow> api_request \<Rightarrow> api_error + (string \<times> json) list" where
  "load_body w max_bytes req =
     (case (if str_contains ''gzip'' (str_lower (aq_encoding req)) then wm_gunzip w (aq_body req) else Inr (aq_body req)) of
        Inl Gzip_OS_Error \<Rightarrow> Inl Bad_Gzip_Body
      | Inl Zlib_Error \<Rightarrow> Inl Uncaught
      | Inr raw \<Rightarrow>
          if max_bytes < length raw then Inl Body_Over_Limit
          else (case wm_loads w raw of
                  Inl Json_Decode_Error \<Rightarrow> Inl Bad_Json_Body
                | Inl Unicode_Decode_Error \<Rightarrow> Inl Uncaught
                | Inr (JObj entries) \<Rightarrow> Inr entries
                | Inr _ \<Rightarrow> Inl Body_Not_Object))"

definition items_at :: "int \<Rightarrow> (string \<times> string) list \<Rightarrow> api_issue list" where
  "items_at index errs = map (\<lambda>(path, code). \<lparr>as_index = index, as_field_path = path, as_code = code\<rparr>) errs"

text \<open>Each item is decoded on its own; the errors name its position.\<close>

definition decode_items :: "(json \<Rightarrow> (string \<times> string) list + 'e) \<Rightarrow> json list \<Rightarrow> (nat \<times> 'e) list \<times> api_issue list" where
  "decode_items decode raws =
     (let results = map (\<lambda>(i, raw). (i, decode raw)) (enumerate 0 raws)
      in (List.map_filter (\<lambda>(i, r). case r of Inl _ \<Rightarrow> None | Inr e \<Rightarrow> Some (i, e)) results,
          concat (map (\<lambda>(i, r). case r of Inl errs \<Rightarrow> items_at (int i) errs | Inr _ \<Rightarrow> []) results)))"

definition source_denials :: "principal \<Rightarrow> (nat \<times> usage_event_v2) list \<Rightarrow> api_issue list" where
  "source_denials p events =
     (case pn_source_allowlist p of
        None \<Rightarrow> []
      | Some allowed \<Rightarrow> map (\<lambda>(i, e). \<lparr>as_index = int i, as_field_path = ''source.name'', as_code = ''source_not_allowed''\<rparr>)
          (filter (\<lambda>(i, e). sr_name (e2_source e) \<notin> set allowed) events))"

definition batch_items :: "batch_issue list \<Rightarrow> api_issue list" where
  "batch_items issues = map (\<lambda>b. \<lparr>as_index = int (bi_index b), as_field_path = bi_field_path b, as_code = bi_code b\<rparr>) issues"

section \<open>Events\<close>

definition decode_envelope :: "wire_models \<Rightarrow> api_settings \<Rightarrow> api_request \<Rightarrow> api_error + batch_envelope" where
  "decode_envelope w sg req =
     (case load_body w (sg_max_bytes sg) req of
        Inl e \<Rightarrow> Inl e
      | Inr entries \<Rightarrow>
          (case wm_envelope w entries of
             Inl errs \<Rightarrow> Inl (Invalid_Batch (items_at (- 1) errs))
           | Inr env \<Rightarrow> if sg_max_events sg < length (be_events env) then Inl (Too_Many_Events (length (be_events env))) else Inr env))"

definition ingest_call_of :: "principal \<Rightarrow> api_request \<Rightarrow> batch_envelope \<Rightarrow> ingest_call" where
  "ingest_call_of p req env = \<lparr>ic_token_label = Some (pn_label p), ic_request_id = aq_request_id req, ic_mode = REVISION,
     ic_correction = be_correction env, ic_actor = Some (pn_label p), ic_return_ids = be_return_ids env\<rparr>"

definition ingest_events_body ::
  "wire_models \<Rightarrow> api_settings \<Rightarrow> string \<Rightarrow> int \<Rightarrow> principal \<Rightarrow> api_request \<Rightarrow> ingest_db
   \<Rightarrow> api_error + ingest_result \<times> ingest_db" where
  "ingest_events_body w sg batch_id now p req db =
     (case decode_envelope w sg req of
        Inl e \<Rightarrow> Inl e
      | Inr env \<Rightarrow>
          if be_correction env \<and> \<not> has_scope p ADMIN_CORRECTIONS then Inl Corrections_Forbidden
          else case decode_items (wm_event w) (be_events env) of (valid, errors) \<Rightarrow>
            if errors \<noteq> [] then Inl (Invalid_Batch errors)
            else if source_denials p valid \<noteq> [] then Inl (Sources_Denied (source_denials p valid))
            else case ingest (wm_bytes w) (sg_service sg) batch_id (ingest_call_of p req env) now (map snd valid) db of
                Inl (BatchValidation issues) \<Rightarrow> Inl (Invalid_Batch (batch_items issues))
              | Inl e \<Rightarrow> Inl (Service_Failed e)
              | Inr r \<Rightarrow> Inr r)"

text \<open>The pre-flight check: valid, with all errors of the schema and of the privacy policy.\<close>

definition validate_events_body ::
  "wire_models \<Rightarrow> api_settings \<Rightarrow> api_request \<Rightarrow> api_error + bool \<times> api_issue list" where
  "validate_events_body w sg req =
     (case load_body w (sg_max_bytes sg) req of
        Inl e \<Rightarrow> Inl e
      | Inr entries \<Rightarrow>
          (case wm_envelope w entries of
             Inl errs \<Rightarrow> Inr (False, items_at (- 1) errs)
           | Inr env \<Rightarrow>
               if sg_max_events sg < length (be_events env) then Inl (Too_Many_Events (length (be_events env)))
               else case decode_items (wm_event w) (be_events env) of (valid, errors) \<Rightarrow>
                 let privacy = concat (map (\<lambda>(i, e). map (\<lambda>v. \<lparr>as_index = int i, as_field_path = vi_field_path v,
                       as_code = vi_code v\<rparr>) (pr_issues (sanitize (wm_bytes w) (sv_policy (sg_service sg)) e))) valid);
                     all_errors = errors @ privacy
                 in Inr (all_errors = [], all_errors)))"

section \<open>Limits and aggregates\<close>

definition is_two :: "json option \<Rightarrow> bool" where
  "is_two v \<longleftrightarrow> (case v of Some (JInt n) \<Rightarrow> n = 2 | Some (JNum q) \<Rightarrow> q = 2 | _ \<Rightarrow> False)"

definition validate_batch_of ::
  "(json \<Rightarrow> (string \<times> string) list + 'e) \<Rightarrow> string \<Rightarrow> nat \<Rightarrow> (string \<times> json) list \<Rightarrow> api_error + 'e list \<times> api_issue list" where
  "validate_batch_of decode list_key max_events entries =
     (let version_errors = (if is_two (map_of entries ''schema_version'') then []
            else [\<lparr>as_index = - 1, as_field_path = ''schema_version'', as_code = ''invalid_schema_version''\<rparr>]);
          no_list = Inr ([], version_errors @ [\<lparr>as_index = - 1, as_field_path = list_key, as_code = ''invalid''\<rparr>])
      in case map_of entries list_key of
           Some (JArr raws) \<Rightarrow>
             if raws = [] then no_list
             else if max_events < length raws then Inl (Too_Many_Events (length raws))
             else (case decode_items decode raws of (valid, errors) \<Rightarrow> Inr (map snd valid, version_errors @ errors))
         | _ \<Rightarrow> no_list)"

definition meta_call_of :: "principal \<Rightarrow> api_request \<Rightarrow> string \<Rightarrow> int \<Rightarrow> rat \<Rightarrow> meta_call" where
  "meta_call_of p req batch_id now interval = \<lparr>mc_token_label = Some (pn_label p), mc_request_id = aq_request_id req,
     mc_source_id = None, mc_min_interval = interval, mc_batch_id = batch_id, mc_received_at = now\<rparr>"

definition ingest_limits_body ::
  "wire_models \<Rightarrow> api_settings \<Rightarrow> string \<Rightarrow> int \<Rightarrow> principal \<Rightarrow> api_request \<Rightarrow> meta_db
   \<Rightarrow> api_error + (string \<times> nat) \<times> meta_db" where
  "ingest_limits_body w sg batch_id now p req db =
     (case load_body w (sg_max_bytes sg) req of
        Inl e \<Rightarrow> Inl e
      | Inr entries \<Rightarrow>
          (case validate_batch_of (wm_limit w) ''snapshots'' (sg_max_events sg) entries of
             Inl e \<Rightarrow> Inl e
           | Inr (snapshots, errors) \<Rightarrow>
               if errors \<noteq> [] then Inl (Invalid_Batch errors)
               else (case ingest_limits (sg_dialect sg) (meta_call_of p req batch_id now (sg_min_interval sg)) snapshots db of
                       Inl e \<Rightarrow> Inl (Meta_Failed e) | Inr r \<Rightarrow> Inr r)))"

definition ingest_aggregates_body ::
  "wire_models \<Rightarrow> api_settings \<Rightarrow> string \<Rightarrow> int \<Rightarrow> principal \<Rightarrow> api_request \<Rightarrow> meta_db
   \<Rightarrow> api_error + (string \<times> nat) \<times> meta_db" where
  "ingest_aggregates_body w sg batch_id now p req db =
     (case load_body w (sg_max_bytes sg) req of
        Inl e \<Rightarrow> Inl e
      | Inr entries \<Rightarrow>
          (case validate_batch_of (wm_aggregate w) ''aggregates'' (sg_max_events sg) entries of
             Inl e \<Rightarrow> Inl e
           | Inr (aggregates, errors) \<Rightarrow>
               if errors \<noteq> [] then Inl (Invalid_Batch errors)
               else Inr (ingest_aggregates (meta_call_of p req batch_id now 0) aggregates db)))"

section \<open>Behind the guard\<close>

record 'd api_state =
  ap_access :: access_db
  ap_limiter :: rate_limiter
  ap_db :: 'd

text \<open>Authentication and scope first, then the bucket of the token's label.\<close>

definition ingest_guard ::
  "access_env \<Rightarrow> int \<Rightarrow> rat \<Rightarrow> string option \<Rightarrow> string \<Rightarrow> 'd api_state \<Rightarrow> (api_error + principal) \<times> 'd api_state" where
  "ingest_guard env now clock cred scope st =
     (case require_token env now cred (ac_tokens (ap_access st)) of
        Inl e \<Rightarrow> (Inl (Denied e), st)
      | Inr (p, tokens) \<Rightarrow>
          let st1 = st\<lparr>ap_access := (ap_access st)\<lparr>ac_tokens := tokens\<rparr>\<rparr>
          in if \<not> has_scope p scope then (Inl (Denied (Forbidden ''insufficient scope'')), st1)
             else case ingest_rate_guard clock p (ap_limiter st1) of
                 (Some e, l) \<Rightarrow> (Inl (Denied e), st1\<lparr>ap_limiter := l\<rparr>)
               | (None, l) \<Rightarrow> (Inr p, st1\<lparr>ap_limiter := l\<rparr>))"

definition guarded_route ::
  "access_env \<Rightarrow> int \<Rightarrow> rat \<Rightarrow> string option \<Rightarrow> string \<Rightarrow> (principal \<Rightarrow> 'd \<Rightarrow> api_error + 'r \<times> 'd) \<Rightarrow> 'd api_state
   \<Rightarrow> (api_error + 'r) \<times> 'd api_state" where
  "guarded_route env now clock cred scope body st =
     (case ingest_guard env now clock cred scope st of
        (Inl e, st1) \<Rightarrow> (Inl e, st1)
      | (Inr p, st1) \<Rightarrow>
          (case body p (ap_db st1) of Inl e \<Rightarrow> (Inl e, st1) | Inr (r, db) \<Rightarrow> (Inr r, st1\<lparr>ap_db := db\<rparr>)))"

definition events_route ::
  "access_env \<Rightarrow> wire_models \<Rightarrow> api_settings \<Rightarrow> string \<Rightarrow> int \<Rightarrow> rat \<Rightarrow> string option \<Rightarrow> api_request \<Rightarrow> ingest_db api_state
   \<Rightarrow> (api_error + ingest_result) \<times> ingest_db api_state" where
  "events_route env w sg batch_id now clock cred req =
     guarded_route env now clock cred INGEST_EVENTS (\<lambda>p. ingest_events_body w sg batch_id now p req)"

definition validate_route ::
  "access_env \<Rightarrow> wire_models \<Rightarrow> api_settings \<Rightarrow> int \<Rightarrow> rat \<Rightarrow> string option \<Rightarrow> api_request \<Rightarrow> 'd api_state
   \<Rightarrow> (api_error + bool \<times> api_issue list) \<times> 'd api_state" where
  "validate_route env w sg now clock cred req =
     guarded_route env now clock cred INGEST_EVENTS
       (\<lambda>p db. case validate_events_body w sg req of Inl e \<Rightarrow> Inl e | Inr r \<Rightarrow> Inr (r, db))"

definition limits_route ::
  "access_env \<Rightarrow> wire_models \<Rightarrow> api_settings \<Rightarrow> string \<Rightarrow> int \<Rightarrow> rat \<Rightarrow> string option \<Rightarrow> api_request \<Rightarrow> meta_db api_state
   \<Rightarrow> (api_error + string \<times> nat) \<times> meta_db api_state" where
  "limits_route env w sg batch_id now clock cred req =
     guarded_route env now clock cred INGEST_LIMITS (\<lambda>p. ingest_limits_body w sg batch_id now p req)"

definition aggregates_route ::
  "access_env \<Rightarrow> wire_models \<Rightarrow> api_settings \<Rightarrow> string \<Rightarrow> int \<Rightarrow> rat \<Rightarrow> string option \<Rightarrow> api_request \<Rightarrow> meta_db api_state
   \<Rightarrow> (api_error + string \<times> nat) \<times> meta_db api_state" where
  "aggregates_route env w sg batch_id now clock cred req =
     guarded_route env now clock cred INGEST_AGGREGATES (\<lambda>p. ingest_aggregates_body w sg batch_id now p req)"

section \<open>Readiness\<close>

datatype ready_state = Unavailable | Migrations_Pending | Ready

text \<open>\<open>None\<close> for a database that cannot be reached, otherwise its stamped revision.\<close>

definition readiness :: "string option \<Rightarrow> string option option \<Rightarrow> ready_state \<times> int" where
  "readiness head_revision database =
     (case database of
        None \<Rightarrow> (Unavailable, 503)
      | Some revision \<Rightarrow>
          if revision \<noteq> None \<and> revision = head_revision then (Ready, 200) else (Migrations_Pending, 503))"

end
