(* ===== verification/Ingest_Api_Laws.thy ===== *)
theory Ingest_Api_Laws
  imports Ingest_Api Access_Laws
begin

text \<open>
  What the v2 routes guarantee: nothing is stored for a request that is not authenticated, allowed and decoded as a
  whole, and the pre-flight check predicts the ingest.
\<close>

section \<open>Decoding a batch\<close>

lemma decode_items_from:
  fixes decode :: "json \<Rightarrow> (string \<times> string) list + 'e"
  assumes errs: "\<forall>raw. decode raw \<noteq> Inl []"
  shows "concat (map (\<lambda>(i, r). case r of Inl es \<Rightarrow> items_at (int i) es | Inr _ \<Rightarrow> []) (map (\<lambda>(i, raw). (i, decode raw)) (enumerate n raws))) = []
    \<Longrightarrow> \<exists>es. List.map_filter (\<lambda>(i, r). case r of Inl _ \<Rightarrow> None | Inr e \<Rightarrow> Some (i, e))
          (map (\<lambda>(i, raw). (i, decode raw)) (enumerate n raws)) = enumerate n es
        \<and> list_all2 (\<lambda>raw e. decode raw = Inr e) raws es"
proof (induction raws arbitrary: n)
  case Nil
  show ?case by (intro exI [of _ "[]"]) (simp add: map_filter_def)
next
  case (Cons raw raws)
  show ?case
  proof (cases "decode raw")
    case (Inl es)
    then have "es \<noteq> []" using errs by metis
    then show ?thesis using Cons.prems Inl by (simp add: items_at_def)
  next
    case (Inr e)
    obtain es where es: "List.map_filter (\<lambda>(i, r). case r of Inl _ \<Rightarrow> None | Inr e \<Rightarrow> Some (i, e))
          (map (\<lambda>(i, raw). (i, decode raw)) (enumerate (Suc n) raws)) = enumerate (Suc n) es"
        "list_all2 (\<lambda>raw e. decode raw = Inr e) raws es"
      using Cons.IH [of "Suc n"] Cons.prems Inr by (auto simp: items_at_def)
    then show ?thesis using Inr by (intro exI [of _ "e # es"]) (simp add: map_filter_def)
  qed
qed

lemma decode_items_all:
  assumes "\<forall>raw. decode raw \<noteq> Inl []" and "decode_items decode raws = (valid, [])"
  shows "\<exists>es. valid = enumerate 0 es \<and> list_all2 (\<lambda>raw e. decode raw = Inr e) raws es"
  using decode_items_from [OF assms(1), of 0 raws] assms(2) by (auto simp: decode_items_def Let_def)

lemma snd_enumerate: "map snd (enumerate n xs) = xs"
  by (simp add: enumerate_eq_zip)

lemma privacy_items:
  "batch_items (concat (map (\<lambda>(i, r). map (\<lambda>v. \<lparr>bi_index = i, bi_field_path = vi_field_path v, bi_code = vi_code v\<rparr>)
        (pr_issues r)) (enumerate n (map f es))))
    = concat (map (\<lambda>(i, e). map (\<lambda>v. \<lparr>as_index = int i, as_field_path = vi_field_path v, as_code = vi_code v\<rparr>)
        (pr_issues (f e))) (enumerate n es))"
  by (induction es arbitrary: n) (simp_all add: batch_items_def)

lemma no_denials:
  "source_denials p (enumerate n es) = [] \<longleftrightarrow>
    (\<forall>allowed. pn_source_allowlist p = Some allowed \<longrightarrow> (\<forall>e \<in> set es. sr_name (e2_source e) \<in> set allowed))"
proof -
  have "(\<forall>x \<in> set (enumerate n es). P (snd x)) \<longleftrightarrow> (\<forall>e \<in> set es. P e)" for P
    using snd_enumerate [of n es] by (metis (no_types, lifting) imageE image_eqI list.set_map)
  then have "filter (\<lambda>(i, e). sr_name (e2_source e) \<notin> set a) (enumerate n es) = []
      \<longleftrightarrow> (\<forall>e \<in> set es. sr_name (e2_source e) \<in> set a)" for a
    by (simp add: filter_empty_conv case_prod_unfold)
  then show ?thesis by (simp add: source_denials_def split: option.split)
qed

section \<open>Events\<close>

lemma ingest_events_body_Inr:
  assumes "ingest_events_body w sg bid now p req db = Inr (res, db')" and "\<forall>raw. wm_event w raw \<noteq> Inl []"
  obtains env es where "decode_envelope w sg req = Inr env" and "be_correction env \<longrightarrow> has_scope p ADMIN_CORRECTIONS"
    and "list_all2 (\<lambda>raw e. wm_event w raw = Inr e) (be_events env) es"
    and "\<forall>allowed. pn_source_allowlist p = Some allowed \<longrightarrow> (\<forall>e \<in> set es. sr_name (e2_source e) \<in> set allowed)"
    and "ingest (wm_bytes w) (sg_service sg) bid (ingest_call_of p req env) now es db = Inr (res, db')"
proof -
  obtain env where env: "decode_envelope w sg req = Inr env"
    using assms(1) by (auto simp: ingest_events_body_def split: sum.splits)
  have corr: "be_correction env \<longrightarrow> has_scope p ADMIN_CORRECTIONS"
    using assms(1) env by (auto simp: ingest_events_body_def split: if_splits)
  obtain valid errors where dec: "decode_items (wm_event w) (be_events env) = (valid, errors)" by fastforce
  then have errors: "errors = []"
    using assms(1) env corr by (auto simp: ingest_events_body_def split: if_splits)
  then obtain es where es: "valid = enumerate 0 es" "list_all2 (\<lambda>raw e. wm_event w raw = Inr e) (be_events env) es"
    using decode_items_all [OF assms(2)] dec by blast
  have den: "source_denials p (enumerate 0 es) = []"
    using assms(1) env corr dec errors es(1) by (auto simp: ingest_events_body_def split: if_splits)
  have "ingest (wm_bytes w) (sg_service sg) bid (ingest_call_of p req env) now es db = Inr (res, db')"
    using assms(1) env corr dec errors es(1) den
    by (auto simp: ingest_events_body_def snd_enumerate split: if_splits sum.splits ingest_error.splits)
  then show thesis using that env corr es(2) den [unfolded no_denials] by blast
qed

lemma ingest_guard_cases:
  assumes "ingest_guard env now clock cred scope st = (r, st1)"
  shows "ap_db st1 = ap_db st \<and> same_tokens (ac_tokens (ap_access st)) (ac_tokens (ap_access st1))
    \<and> ac_audit (ap_access st1) = ac_audit (ap_access st)
    \<and> (\<forall>p. r = Inr p \<longrightarrow> has_scope p scope
        \<and> require_token env now cred (ac_tokens (ap_access st)) = Inr (p, ac_tokens (ap_access st1)))"
proof (cases "require_token env now cred (ac_tokens (ap_access st))")
  case (Inl e)
  then show ?thesis using assms by (auto simp: ingest_guard_def)
next
  case (Inr q)
  obtain p tokens where q: "q = (p, tokens)" by (cases q)
  then have "same_tokens (ac_tokens (ap_access st)) tokens" using require_token_same Inr by simp
  then show ?thesis using assms Inr q
    by (auto simp: ingest_guard_def Let_def split: if_splits prod.splits option.splits)
qed

text \<open>
  C26. Nothing is stored behind the back of the access rules. A refused request leaves the ledger and the audit log as
  they were and of the tokens changes at most a last use. A request that succeeds came from an authenticated principal
  with the scope for events, and for corrections when it asked for one; its batch has at most the configured number of
  events; each decoded to an event that the principal's allowlist of sources admits and that passes the privacy gate;
  and exactly one batch record under the principal's label accounts for all of them. The hypotheses: unique source ids
  and identities, and a decoder that fails with at least one error.
\<close>

theorem ingest_route_safe:
  assumes "source_inv (id_sources (ap_db st))" and "\<forall>raw. wm_event w raw \<noteq> Inl []"
    and "events_route env w sg bid now clock cred req st = (r, st')"
  shows "same_tokens (ac_tokens (ap_access st)) (ac_tokens (ap_access st'))
    \<and> ac_audit (ap_access st') = ac_audit (ap_access st)
    \<and> (case r of
        Inl _ \<Rightarrow> ap_db st' = ap_db st
      | Inr res \<Rightarrow> \<exists>p be es b.
          require_token env now cred (ac_tokens (ap_access st)) = Inr (p, ac_tokens (ap_access st'))
          \<and> has_scope p INGEST_EVENTS \<and> (be_correction be \<longrightarrow> has_scope p ADMIN_CORRECTIONS)
          \<and> decode_envelope w sg req = Inr be \<and> length (be_events be) \<le> sg_max_events sg
          \<and> list_all2 (\<lambda>raw e. wm_event w raw = Inr e) (be_events be) es
          \<and> (\<forall>allowed. pn_source_allowlist p = Some allowed \<longrightarrow> (\<forall>e \<in> set es. sr_name (e2_source e) \<in> set allowed))
          \<and> (\<forall>e \<in> set es. pr_ok (sanitize (wm_bytes w) (sv_policy (sg_service sg)) e))
          \<and> id_batches (ap_db st') = id_batches (ap_db st) @ [b] \<and> ib_token_label b = Some (pn_label p)
          \<and> ib_accepted b + ib_updated b + ib_duplicate b + ib_rejected b + ib_corrected b = length (be_events be))"
proof -
  obtain g st1 where g: "ingest_guard env now clock cred INGEST_EVENTS st = (g, st1)" by fastforce
  note guard = ingest_guard_cases [OF g]
  show ?thesis
  proof (cases g)
    case (Inl e)
    then show ?thesis using assms(3) g guard by (auto simp: events_route_def guarded_route_def)
  next
    case p: (Inr p)
    show ?thesis
    proof (cases "ingest_events_body w sg bid now p req (ap_db st1)")
      case (Inl e)
      then show ?thesis using assms(3) g p guard by (auto simp: events_route_def guarded_route_def)
    next
      case (Inr y)
      obtain res db' where y: "y = (res, db')" by (cases y)
      then have r: "r = Inr res" "st' = st1\<lparr>ap_db := db'\<rparr>"
        using assms(3) g p Inr by (auto simp: events_route_def guarded_route_def)
      obtain be es where body: "decode_envelope w sg req = Inr be" "be_correction be \<longrightarrow> has_scope p ADMIN_CORRECTIONS"
        "list_all2 (\<lambda>raw e. wm_event w raw = Inr e) (be_events be) es"
        "\<forall>allowed. pn_source_allowlist p = Some allowed \<longrightarrow> (\<forall>e \<in> set es. sr_name (e2_source e) \<in> set allowed)"
        "ingest (wm_bytes w) (sg_service sg) bid (ingest_call_of p req be) now es (ap_db st1) = Inr (res, db')"
        using ingest_events_body_Inr [OF Inr [unfolded y] assms(2)] .
      have "source_inv (id_sources (ap_db st1))" using assms(1) guard by simp
      from ingest_one_batch [OF this body(5)] obtain b where b:
        "id_batches db' = id_batches (ap_db st1) @ [b]" "ib_token_label b = Some (pn_label p)"
        "ib_accepted b + ib_updated b + ib_duplicate b + ib_rejected b + ib_corrected b = length es"
        "\<forall>e \<in> set es. pr_ok (sanitize (wm_bytes w) (sv_policy (sg_service sg)) e)"
        by (auto simp: ingest_call_of_def)
      have "length (be_events be) \<le> sg_max_events sg"
        using body(1) by (auto simp: decode_envelope_def split: sum.splits if_splits)
      moreover have "length es = length (be_events be)" using list_all2_lengthD [OF body(3)] by simp
      ultimately show ?thesis using r p guard body(1-4) b
        by (auto intro!: exI [of _ p] exI [of _ be] exI [of _ es] exI [of _ b])
    qed
  qed
qed

lemma decode_items_none:
  assumes "list_all2 (\<lambda>raw e. decode raw = Inr e) raws es"
  shows "decode_items decode raws = (enumerate 0 es, [])"
proof -
  have "List.map_filter (\<lambda>(i, r). case r of Inl _ \<Rightarrow> None | Inr e \<Rightarrow> Some (i, e))
          (map (\<lambda>(i, raw). (i, decode raw)) (enumerate n raws)) = enumerate n es
      \<and> concat (map (\<lambda>(i, r). case r of Inl errs \<Rightarrow> items_at (int i) errs | Inr _ \<Rightarrow> [])
          (map (\<lambda>(i, raw). (i, decode raw)) (enumerate n raws))) = []" for n
    using assms by (induction arbitrary: n rule: list_all2_induct) (simp_all add: map_filter_def)
  then show ?thesis by (simp add: decode_items_def Let_def)
qed

text \<open>The two reasons, beside the body itself, for which the ingest refuses: an unauthorized correction and a foreign source.\<close>

definition forbidden_correction :: "wire_models \<Rightarrow> api_settings \<Rightarrow> principal \<Rightarrow> api_request \<Rightarrow> bool" where
  "forbidden_correction w sg p req \<longleftrightarrow>
     (\<exists>env. decode_envelope w sg req = Inr env \<and> be_correction env \<and> \<not> has_scope p ADMIN_CORRECTIONS)"

definition foreign_source :: "wire_models \<Rightarrow> api_settings \<Rightarrow> principal \<Rightarrow> api_request \<Rightarrow> bool" where
  "foreign_source w sg p req \<longleftrightarrow>
     (\<exists>env es allowed. decode_envelope w sg req = Inr env \<and> list_all2 (\<lambda>raw e. wm_event w raw = Inr e) (be_events env) es
        \<and> pn_source_allowlist p = Some allowed \<and> (\<exists>e \<in> set es. sr_name (e2_source e) \<notin> set allowed))"


section \<open>Witnesses\<close>

definition demo_wire :: wire_models where
  "demo_wire = \<lparr>wm_gunzip = \<lambda>_. Inl Zlib_Error, wm_loads = \<lambda>_. Inr (JObj [(''events'', JArr [JNull])]),
     wm_envelope = \<lambda>_. Inr \<lparr>be_events = [JNull], be_return_ids = False, be_correction = True\<rparr>,
     wm_event = \<lambda>_. Inr demo_event, wm_limit = \<lambda>_. Inl [], wm_aggregate = \<lambda>_. Inl [], wm_bytes = \<lambda>_. 100\<rparr>"

definition demo_settings :: api_settings where
  "demo_settings = \<lparr>sg_max_bytes = 10, sg_max_events = 5, sg_service = strip_service, sg_min_interval = 0, sg_dialect = SQLite\<rparr>"

definition demo_request :: api_request where
  "demo_request = \<lparr>aq_encoding = [], aq_body = ''x'', aq_request_id = None\<rparr>"

definition demo_state :: "ingest_db api_state" where
  "demo_state = \<lparr>ap_access = empty_access, ap_limiter = new_limiter 60 1, ap_db = empty_ingest_db 60\<rparr>"

lemma demo_guard:
  "\<exists>l. ingest_guard plain_env 5 0 (Some ''root'') INGEST_EVENTS demo_state = (Inr bootstrap_principal, demo_state\<lparr>ap_limiter := l\<rparr>)"
proof -
  have "fst (ingest_rate_guard 0 bootstrap_principal (new_limiter 60 1)) = None" by code_simp
  then obtain l where l: "ingest_rate_guard 0 bootstrap_principal (new_limiter 60 1) = (None, l)" by (metis prod.collapse)
  have "require_token plain_env 5 (Some ''root'') [] = Inr (bootstrap_principal, [])" by code_simp
  moreover have "has_scope bootstrap_principal INGEST_EVENTS" by code_simp
  ultimately show ?thesis using l by (simp add: ingest_guard_def demo_state_def empty_access_def Let_def)
qed

lemma demo_load: "load_body demo_wire 10 demo_request = Inr [(''events'', JArr [JNull])]"
proof -
  have "\<not> str_contains ''gzip'' (str_lower [])" by code_simp
  then show ?thesis by (simp add: load_body_def demo_wire_def demo_request_def)
qed

lemma demo_valid: "validate_events_body demo_wire demo_settings demo_request = Inr (True, [])"
proof -
  have "pr_issues (sanitize (\<lambda>_. 100) (sv_policy strip_service) demo_event) = []"
    by (rule demo_ok(1) [unfolded pr_ok_def])
  then show ?thesis
    by (simp add: validate_events_body_def demo_settings_def demo_load)
      (simp add: demo_wire_def decode_items_def map_filter_def Let_def)
qed

lemma demo_decoder: "\<forall>raw. wm_event demo_wire raw \<noteq> Inl []"
  by (simp add: demo_wire_def)


lemma demo_ingested:
  "\<exists>res db'. ingest_events_body demo_wire demo_settings ''b1'' 5 bootstrap_principal demo_request (empty_ingest_db 60) = Inr (res, db')"
proof -
  have "decode_envelope demo_wire demo_settings demo_request = Inr \<lparr>be_events = [JNull], be_return_ids = False, be_correction = True\<rparr>"
    by (simp add: decode_envelope_def demo_settings_def demo_load) (simp add: demo_wire_def)
  moreover have "decode_items (wm_event demo_wire) [JNull] = ([(0, demo_event)], [])"
    by (simp add: demo_wire_def decode_items_def map_filter_def Let_def)
  moreover have "has_scope bootstrap_principal ADMIN_CORRECTIONS" by code_simp
  moreover have "source_denials bootstrap_principal [(0, demo_event)] = []"
    by (simp add: source_denials_def bootstrap_principal_def)
  moreover have "wm_bytes demo_wire = (\<lambda>_. 100)" "sg_service demo_settings = strip_service"
    by (simp_all add: demo_wire_def demo_settings_def)
  ultimately show ?thesis
    using ingest_total [of "empty_ingest_db 60" "[demo_event]" "\<lambda>_. 100" strip_service "''b1''"
        "ingest_call_of bootstrap_principal demo_request \<lparr>be_events = [JNull], be_return_ids = False, be_correction = True\<rparr>" 5]
    by (auto simp: ingest_events_body_def)
qed

theorem ingest_route_safe_witness:
  "\<exists>res st' b. events_route plain_env demo_wire demo_settings ''b1'' 5 0 (Some ''root'') demo_request demo_state = (Inr res, st')
    \<and> ac_audit (ap_access st') = [] \<and> id_batches (ap_db st') = [b] \<and> ib_token_label b = Some ''bootstrap''"
proof -
  obtain l where "ingest_guard plain_env 5 0 (Some ''root'') INGEST_EVENTS demo_state
      = (Inr bootstrap_principal, demo_state\<lparr>ap_limiter := l\<rparr>)"
    using demo_guard by blast
  moreover obtain res db' where
    "ingest_events_body demo_wire demo_settings ''b1'' 5 bootstrap_principal demo_request (empty_ingest_db 60) = Inr (res, db')"
    using demo_ingested by blast
  ultimately have run: "events_route plain_env demo_wire demo_settings ''b1'' 5 0 (Some ''root'') demo_request demo_state
      = (Inr res, demo_state\<lparr>ap_limiter := l, ap_db := db'\<rparr>)"
    by (simp add: events_route_def guarded_route_def demo_state_def)
  have req: "require_token plain_env 5 (Some ''root'') [] = Inr (bootstrap_principal, [])" by code_simp
  have "source_inv (id_sources (ap_db demo_state))" by (simp add: demo_state_def)
  from ingest_route_safe [OF this demo_decoder run] show ?thesis
    using run req by (auto simp: demo_state_def empty_access_def bootstrap_principal_def)
qed

end
