(* ===== verification/Otel.thy ===== *)
theory Otel
  imports Access Alert_Rules Limit_Analytics Ingest_Laws Ingest_Api
begin

text \<open>
  The OpenTelemetry receiver: \<open>otel/semconv.py\<close>, \<open>otel/receiver.py\<close>, \<open>otel/convert.py\<close> and the route of
  \<open>api/v2/otel.py\<close>. JSON numbers are finite; the JSON decoder and the \<open>repr\<close> of a float or a container are
  parameters.
\<close>

section \<open>Floats and timestamps\<close>

text \<open>
  The nearest double of a number that is not too small for one, ties to even: what a division of integers returns.
  \<open>None\<close> of a timestamp stands for a year out of range.
\<close>

fun bit_len :: "nat \<Rightarrow> nat" where
  "bit_len n = (if n = 0 then 0 else Suc (bit_len (n div 2)))"

declare bit_len.simps [simp del]

definition pow2 :: "int \<Rightarrow> rat" where
  "pow2 z = (if 0 \<le> z then 2 ^ nat z else 1 / 2 ^ nat (- z))"

definition exponent_of :: "rat \<Rightarrow> int" where
  "exponent_of x =
     (let (p, q) = quotient_of x; e = int (bit_len (nat p)) - int (bit_len (nat q))
      in if x < pow2 e then e - 1 else e)"

definition double_of :: "rat \<Rightarrow> rat" where
  "double_of x =
     (if x = 0 then 0
      else let ulp = pow2 (exponent_of \<bar>x\<bar> - 52) in of_int (round_half_even (x / ulp)) * ulp)"

definition from_timestamp :: "rat \<Rightarrow> py_datetime option" where
  "from_timestamp x =
     (let whole = (if 0 \<le> x then \<lfloor>x\<rfloor> else \<lceil>x\<rceil>);
          us = whole * 1000000 + round_half_even (double_of ((x - of_int whole) * 1000000))
      in if MIN_WALL \<le> us \<and> us \<le> MAX_WALL then Some (as_utc_dt us) else None)"

definition ts_of_nanos :: "int \<Rightarrow> py_datetime option" where
  "ts_of_nanos n = from_timestamp (double_of (of_int n / 1000000000))"

section \<open>The pinned mapping\<close>

definition SEMCONV_VERSION :: string where "SEMCONV_VERSION = ''1.30.0''"
definition PROVIDER_ATTR :: string where "PROVIDER_ATTR = ''gen_ai.system''"
definition REQUESTED_MODEL_ATTR :: string where "REQUESTED_MODEL_ATTR = ''gen_ai.request.model''"
definition RESPONSE_MODEL_ATTR :: string where "RESPONSE_MODEL_ATTR = ''gen_ai.response.model''"
definition OPERATION_ATTR :: string where "OPERATION_ATTR = ''gen_ai.operation.name''"
definition ERROR_TYPE_ATTR :: string where "ERROR_TYPE_ATTR = ''error.type''"

definition TOKEN_ATTRS :: "string list" where
  "TOKEN_ATTRS = [''gen_ai.usage.input_tokens'', ''gen_ai.usage.output_tokens'', ''gen_ai.usage.cache_read_tokens'',
     ''gen_ai.usage.reasoning_tokens'']"

definition CONTENT_ATTRS :: "string list" where
  "CONTENT_ATTRS = [''gen_ai.prompt'', ''gen_ai.completion'', ''gen_ai.input.messages'', ''gen_ai.output.messages'']"

definition CONTENT_ATTR_PREFIXES :: "string list" where
  "CONTENT_ATTR_PREFIXES = [''gen_ai.prompt.'', ''gen_ai.completion.'']"

definition is_content_attr :: "string \<Rightarrow> bool" where
  "is_content_attr key \<longleftrightarrow>
     key \<in> set CONTENT_ATTRS \<or> list_ex (\<lambda>p. take (length p) key = p) CONTENT_ATTR_PREFIXES"

definition MAPPED_ATTRS :: "string list" where
  "MAPPED_ATTRS = [PROVIDER_ATTR, REQUESTED_MODEL_ATTR, RESPONSE_MODEL_ATTR, ERROR_TYPE_ATTR] @ TOKEN_ATTRS"

section \<open>Parsing an export\<close>

text \<open>
  \<open>Bad_Export\<close> is \<open>OtlpParseError\<close>; every other exception (an attribute of a value that is not a dict, an
  \<open>int\<close> of a text that is none, a year out of range, a validation error of the event) is \<open>Span_Failed\<close>, which
  nothing catches.
\<close>

datatype otel_error = Bad_Export | Span_Failed

record otel_span =
  sn_span_id :: string
  sn_name :: string
  sn_start :: int
  sn_attributes :: "(string, json) dict"
  sn_end :: "int option"
  sn_trace_id :: "json option"
  sn_parent_span_id :: "string option"
  sn_status_code :: "json option"
  sn_status_message :: "json option"
  sn_scope_name :: "json option"

definition attr_value :: "(string \<times> json) list \<Rightarrow> json" where
  "attr_value value =
     (case map_of value ''stringValue'' of Some v \<Rightarrow> v
      | None \<Rightarrow> (case map_of value ''intValue'' of Some v \<Rightarrow> (case py_int v of Some n \<Rightarrow> JInt n | None \<Rightarrow> v)
        | None \<Rightarrow> (case map_of value ''boolValue'' of Some v \<Rightarrow> JBool (py_truthy v)
          | None \<Rightarrow> (case map_of value ''doubleValue'' of Some v \<Rightarrow> v | None \<Rightarrow> JNull))))"

text \<open>\<open>for x in (v or [])\<close>\<close>

definition items_of :: "json option \<Rightarrow> otel_error + json list" where
  "items_of v =
     (case v of None \<Rightarrow> Inr []
      | Some w \<Rightarrow>
          if \<not> py_truthy w then Inr []
          else case w of JArr vs \<Rightarrow> Inr vs | JObj es \<Rightarrow> Inr (map (JStr \<circ> fst) es) | JStr s \<Rightarrow> Inr (map (\<lambda>c. JStr [c]) s)
            | _ \<Rightarrow> Inl Span_Failed)"

text \<open>\<open>(v or {})\<close>, of which the code takes a key\<close>

definition dict_of :: "json option \<Rightarrow> otel_error + (string \<times> json) list" where
  "dict_of v =
     (case v of None \<Rightarrow> Inr []
      | Some w \<Rightarrow> if \<not> py_truthy w then Inr [] else case w of JObj es \<Rightarrow> Inr es | _ \<Rightarrow> Inl Span_Failed)"

definition add_attribute :: "(string, json) dict \<Rightarrow> json \<Rightarrow> otel_error + (string, json) dict" where
  "add_attribute attrs item =
     (case item of
        JObj es \<Rightarrow>
          (case (jget es ''key'', jget es ''value'') of
             (Some (JStr key), Some (JObj value)) \<Rightarrow>
               Inr (if attr_value value = JNull then attrs else dset key (attr_value value) attrs)
           | _ \<Rightarrow> Inr attrs)
      | _ \<Rightarrow> Inl Span_Failed)"

fun attributes_of :: "(string, json) dict \<Rightarrow> json list \<Rightarrow> otel_error + (string, json) dict" where
  "attributes_of attrs [] = Inr attrs"
| "attributes_of attrs (item # raw) =
     (case add_attribute attrs item of Inl e \<Rightarrow> Inl e | Inr attrs' \<Rightarrow> attributes_of attrs' raw)"

definition span_attributes :: "json option \<Rightarrow> otel_error + (string, json) dict" where
  "span_attributes v = bind_err (items_of v) (attributes_of [])"

definition truthy_of :: "json option \<Rightarrow> json option" where
  "truthy_of v = (case v of None \<Rightarrow> None | Some w \<Rightarrow> if py_truthy w then Some w else None)"

definition span_of :: "(json \<Rightarrow> string) \<Rightarrow> json option \<Rightarrow> json \<Rightarrow> otel_error + otel_span" where
  "span_of show scope_name raw =
     (case raw of
        JObj es \<Rightarrow>
          (case (jget es ''spanId'', jget es ''startTimeUnixNano'') of
             (Some (JStr span_id), Some start) \<Rightarrow>
               bind_err (dict_of (jget es ''status'')) (\<lambda>status.
               bind_err (case py_int start of None \<Rightarrow> Inl Span_Failed | Some n \<Rightarrow> Inr n) (\<lambda>start_nano.
               bind_err (case jget es ''endTimeUnixNano'' of None \<Rightarrow> Inr None
                   | Some v \<Rightarrow> (case py_int v of None \<Rightarrow> Inl Span_Failed | Some n \<Rightarrow> Inr (Some n))) (\<lambda>end_nano.
               bind_err (span_attributes (jget es ''attributes'')) (\<lambda>attrs.
               Inr \<lparr>sn_span_id = span_id,
                    sn_name = (case map_of es ''name'' of None \<Rightarrow> [] | Some v \<Rightarrow> item_str show v),
                    sn_start = start_nano, sn_attributes = attrs, sn_end = end_nano,
                    sn_trace_id = truthy_of (jget es ''traceId''),
                    sn_parent_span_id = optional_str (jget es ''parentSpanId''),
                    sn_status_code = jget status ''code'', sn_status_message = jget status ''message'',
                    sn_scope_name = scope_name\<rparr>))))
           | _ \<Rightarrow> Inl Bad_Export)
      | _ \<Rightarrow> Inl Span_Failed)"

definition scope_spans :: "(json \<Rightarrow> string) \<Rightarrow> json \<Rightarrow> otel_error + otel_span list" where
  "scope_spans show scope =
     (case scope of
        JObj es \<Rightarrow>
          bind_err (dict_of (jget es ''scope'')) (\<lambda>names.
          bind_err (items_of (jget es ''spans'')) (\<lambda>raws.
          collect_results (map (span_of show (jget names ''name'')) raws)))
      | _ \<Rightarrow> Inl Span_Failed)"

definition resource_spans :: "(json \<Rightarrow> string) \<Rightarrow> json \<Rightarrow> otel_error + otel_span list" where
  "resource_spans show resource =
     (case resource of
        JObj es \<Rightarrow>
          bind_err (items_of (jget es ''scopeSpans'')) (\<lambda>scopes.
          bind_err (collect_results (map (scope_spans show) scopes)) (\<lambda>spans. Inr (concat spans)))
      | _ \<Rightarrow> Inl Span_Failed)"

definition parse_otlp_json :: "(json \<Rightarrow> string) \<Rightarrow> (string \<times> json) list \<Rightarrow> otel_error + otel_span list" where
  "parse_otlp_json show payload =
     (case jget payload ''resourceSpans'' of
        Some (JArr resources) \<Rightarrow>
          bind_err (collect_results (map (resource_spans show) resources)) (\<lambda>spans. Inr (concat spans))
      | _ \<Rightarrow> Inl Bad_Export)"

section \<open>From spans to events\<close>

definition clean_attrs :: "(string, json) dict \<Rightarrow> (string, json) dict" where
  "clean_attrs attrs = filter (\<lambda>(k, v). \<not> is_content_attr k) attrs"

definition span_extra :: "(string, json) dict \<Rightarrow> (string \<times> json) list" where
  "span_extra clean =
     [(''otel'', JObj ([(''semconv_version'', JStr SEMCONV_VERSION),
         (''attributes'', JObj (filter (\<lambda>(k, v). k \<notin> set MAPPED_ATTRS) clean))]
        @ (case dget clean PROVIDER_ATTR of None \<Rightarrow> [] | Some v \<Rightarrow> [(''system'', v)])
        @ (case dget clean OPERATION_ATTR of None \<Rightarrow> [] | Some v \<Rightarrow> [(''operation'', v)])))]"

definition token_attr :: "(string, json) dict \<Rightarrow> string \<Rightarrow> int" where
  "token_attr clean a = (case dget clean a of None \<Rightarrow> 0 | Some v \<Rightarrow> (case py_int v of None \<Rightarrow> 0 | Some n \<Rightarrow> n))"

definition span_errored :: "otel_span \<Rightarrow> (string, json) dict \<Rightarrow> bool" where
  "span_errored sp clean \<longleftrightarrow>
     sn_status_code sp = Some (JStr ''STATUS_CODE_ERROR'') \<or> dget clean ERROR_TYPE_ATTR \<noteq> None"

text \<open>A text field of the model: a text or \<open>None\<close>; any other value is a validation error.\<close>

definition text_field :: "json option \<Rightarrow> otel_error + string option" where
  "text_field v = (case v of None \<Rightarrow> Inr None | Some (JStr s) \<Rightarrow> Inr (Some s) | _ \<Rightarrow> Inl Span_Failed)"

definition time_field :: "int \<Rightarrow> otel_error + py_datetime" where
  "time_field n = (case ts_of_nanos n of None \<Rightarrow> Inl Span_Failed | Some t \<Rightarrow> Inr t)"

definition span_native_model :: "(json \<Rightarrow> string) \<Rightarrow> (string, json) dict \<Rightarrow> string" where
  "span_native_model show clean =
     (case truthy_of (dget clean RESPONSE_MODEL_ATTR) of Some v \<Rightarrow> item_str show v
      | None \<Rightarrow> (case truthy_of (dget clean REQUESTED_MODEL_ATTR) of Some v \<Rightarrow> item_str show v | None \<Rightarrow> ''unknown''))"

definition span_latency :: "otel_span \<Rightarrow> int option" where
  "span_latency sp = map_option (\<lambda>e. (if 0 \<le> (e - sn_start sp) div 1000000 then (e - sn_start sp) div 1000000 else 0)) (sn_end sp)"

definition span_event_of ::
  "(json \<Rightarrow> string) \<Rightarrow> string \<Rightarrow> otel_span \<Rightarrow> (string, json) dict \<Rightarrow> json \<Rightarrow> py_datetime \<Rightarrow> py_datetime option
   \<Rightarrow> string option \<Rightarrow> string option \<Rightarrow> usage_event_v2" where
  "span_event_of show src_name sp clean system started completed requested trace_id =
     \<lparr>e2_schema_version = 2, e2_event_id = sn_span_id sp, e2_event_kind = Attempt, e2_finality = Final, e2_sequence = 1,
      e2_logical_request_id = None, e2_attempt_id = None, e2_provider_request_id = None, e2_provider_response_id = None,
      e2_provider = str_lower (str_strip (item_str show system)), e2_native_model = span_native_model show clean,
      e2_requested_model = requested, e2_routed_model = None, e2_ts_started = started, e2_ts_first_token = None,
      e2_ts_completed = completed, e2_machine = None, e2_project = None, e2_session_id = None, e2_agent_id = None,
      e2_environment = None,
      e2_input_tokens = token_attr clean ''gen_ai.usage.input_tokens'',
      e2_output_tokens = token_attr clean ''gen_ai.usage.output_tokens'',
      e2_cache_read_tokens = token_attr clean ''gen_ai.usage.cache_read_tokens'',
      e2_cache_write_short_tokens = 0, e2_cache_write_long_tokens = 0,
      e2_reasoning_tokens = token_attr clean ''gen_ai.usage.reasoning_tokens'',
      e2_success = (\<not> span_errored sp clean),
      e2_outcome = Some (if span_errored sp clean then ''error'' else ''success''), e2_http_status = None,
      e2_stop_reason = None, e2_service_tier = None, e2_streaming = None, e2_latency_ms = span_latency sp,
      e2_time_to_first_token_ms = None, e2_tool_call_count = 0, e2_tool_histogram = None, e2_provenance = IMPORTED,
      e2_source = \<lparr>sr_type = Sdk_Source, sr_name = src_name, sr_version = SEMCONV_VERSION, sr_instance_id = None\<rparr>,
      e2_routing = None, e2_dimensions = [], e2_billable_units = None, e2_observed_cost = None,
      e2_extra = span_extra clean, e2_trace_id = trace_id, e2_span_id = Some (sn_span_id sp),
      e2_parent_span_id = sn_parent_span_id sp\<rparr>"

definition span_to_event :: "(json \<Rightarrow> string) \<Rightarrow> string \<Rightarrow> otel_span \<Rightarrow> otel_error + usage_event_v2 option" where
  "span_to_event show src_name sp =
     (let clean = clean_attrs (sn_attributes sp)
      in case truthy_of (dget clean PROVIDER_ATTR) of
           None \<Rightarrow> Inr None
         | Some system \<Rightarrow>
             bind_err (case sn_end sp of None \<Rightarrow> Inr None | Some n \<Rightarrow> bind_err (time_field n) (\<lambda>t. Inr (Some t))) (\<lambda>completed.
             bind_err (time_field (sn_start sp)) (\<lambda>started.
             bind_err (text_field (dget clean REQUESTED_MODEL_ATTR)) (\<lambda>requested.
             bind_err (text_field (sn_trace_id sp)) (\<lambda>trace_id.
             case validate_usage_event_v2 (span_event_of show src_name sp clean system started completed requested trace_id) of
               Inl _ \<Rightarrow> Inl Span_Failed | Inr e \<Rightarrow> Inr (Some e))))))"

definition spans_to_events :: "(json \<Rightarrow> string) \<Rightarrow> string \<Rightarrow> otel_span list \<Rightarrow> otel_error + usage_event_v2 list" where
  "spans_to_events show src_name spans =
     bind_err (collect_results (map (span_to_event show src_name) spans)) (\<lambda>events. Inr (List.map_filter id events))"

section \<open>The route\<close>

datatype trace_error =
    Trace_Denied access_error | Trace_Bad_Json | Trace_Not_Object | Trace_Bad_Export | Trace_Invalid "batch_issue list"
  | Trace_Service ingest_error | Trace_Uncaught

definition trace_call_of :: "principal \<Rightarrow> string option \<Rightarrow> ingest_call" where
  "trace_call_of p request_id = \<lparr>ic_token_label = Some (pn_label p), ic_request_id = request_id, ic_mode = REVISION,
     ic_correction = False, ic_actor = None, ic_return_ids = False\<rparr>"

definition export_events :: "(json \<Rightarrow> string) \<Rightarrow> loads_error + json \<Rightarrow> trace_error + usage_event_v2 list" where
  "export_events show body =
     (case body of
        Inl _ \<Rightarrow> Inl Trace_Bad_Json
      | Inr (JObj payload) \<Rightarrow>
          (case parse_otlp_json show payload of
             Inl Bad_Export \<Rightarrow> Inl Trace_Bad_Export
           | Inl Span_Failed \<Rightarrow> Inl Trace_Uncaught
           | Inr spans \<Rightarrow> (case spans_to_events show ''otel'' spans of Inl _ \<Rightarrow> Inl Trace_Uncaught | Inr events \<Rightarrow> Inr events))
      | Inr _ \<Rightarrow> Inl Trace_Not_Object)"

definition receive_traces ::
  "access_env \<Rightarrow> (json \<Rightarrow> string) \<Rightarrow> (usage_event_v2 \<Rightarrow> nat) \<Rightarrow> string \<Rightarrow> int \<Rightarrow> string option \<Rightarrow> string option
   \<Rightarrow> loads_error + json \<Rightarrow> ingest_db api_state \<Rightarrow> (trace_error + nat) \<times> ingest_db api_state" where
  "receive_traces env show bytes batch_id now cred request_id body st =
     (case require_token env now cred (ac_tokens (ap_access st)) of
        Inl e \<Rightarrow> (Inl (Trace_Denied e), st)
      | Inr (p, tokens) \<Rightarrow>
          let st1 = st\<lparr>ap_access := (ap_access st)\<lparr>ac_tokens := tokens\<rparr>\<rparr>
          in if \<not> has_scope p INGEST_EVENTS then (Inl (Trace_Denied (Forbidden ''insufficient scope'')), st1)
             else case export_events show body of
                 Inl e \<Rightarrow> (Inl e, st1)
               | Inr events \<Rightarrow>
                   (case ingest bytes default_service batch_id (trace_call_of p request_id) now events (ap_db st1) of
                      Inl (BatchValidation issues) \<Rightarrow> (Inl (Trace_Invalid issues), st1)
                    | Inl e \<Rightarrow> (Inl (Trace_Service e), st1)
                    | Inr (res, db) \<Rightarrow> (Inr (ir_accepted res), st1\<lparr>ap_db := db\<rparr>)))"

end
