(* ===== verification/Otel_Laws.thy ===== *)
theory Otel_Laws
  imports Otel Ingest_Api_Laws Limit_Analytics_Laws
begin

text \<open>
  What the trace receiver guarantees: the content of an export has no influence, each span of a model call becomes one
  final attempt, and the instant of a span survives the detour over a float to the microsecond.
\<close>

section \<open>Exports without their content\<close>

text \<open>The export with the attributes that carry content removed from every span.\<close>

definition content_item :: "json \<Rightarrow> bool" where
  "content_item item \<longleftrightarrow>
     (case item of JObj es \<Rightarrow> (case jget es ''key'' of Some (JStr k) \<Rightarrow> is_content_attr k | _ \<Rightarrow> False) | _ \<Rightarrow> False)"

definition map_at :: "string \<Rightarrow> (json \<Rightarrow> json) \<Rightarrow> json \<Rightarrow> json" where
  "map_at k f v = (case v of JObj es \<Rightarrow> JObj (map (\<lambda>(j, w). (j, if j = k then f w else w)) es) | _ \<Rightarrow> v)"

definition on_items :: "(json list \<Rightarrow> json list) \<Rightarrow> json \<Rightarrow> json" where
  "on_items f v = (case v of JArr vs \<Rightarrow> JArr (f vs) | _ \<Rightarrow> v)"

definition strip_span :: "json \<Rightarrow> json" where
  "strip_span = map_at ''attributes'' (on_items (filter (\<lambda>i. \<not> content_item i)))"

definition strip_scope :: "json \<Rightarrow> json" where
  "strip_scope = map_at ''spans'' (on_items (map strip_span))"

definition strip_resource :: "json \<Rightarrow> json" where
  "strip_resource = map_at ''scopeSpans'' (on_items (map strip_scope))"

definition strip_export :: "json \<Rightarrow> json" where
  "strip_export = map_at ''resourceSpans'' (on_items (map strip_resource))"

lemma map_of_map_at:
  "map_of (map (\<lambda>(j, w). (j, if j = k then f w else w)) es) i = (if i = k then map_option f (map_of es i) else map_of es i)"
  by (induction es) auto

lemma jget_alt: "jget ds m = (case map_of ds m of None \<Rightarrow> None | Some v \<Rightarrow> if v = JNull then None else Some v)"
  by (auto simp: jget_def split: option.split json.split)

lemma jget_map_at:
  assumes "\<And>v. f v = JNull \<longleftrightarrow> v = JNull"
  shows "jget (map (\<lambda>(j, w). (j, if j = k then f w else w)) es) i = (if i = k then map_option f (jget es i) else jget es i)"
  unfolding jget_alt map_of_map_at using assms by (simp split: option.split)

lemma on_items_null: "on_items f v = JNull \<longleftrightarrow> v = JNull"
  by (cases v) (simp_all add: on_items_def)

lemmas jget_on_items = jget_map_at [OF on_items_null]

lemma items_of_on_items:
  "items_of (map_option (on_items (map f)) v) = (case v of Some (JArr vs) \<Rightarrow> Inr (map f vs) | _ \<Rightarrow> items_of v)"
  by (cases v) (auto simp: items_of_def on_items_def split: json.splits)

lemma items_of_arr: "items_of (Some (JArr vs)) = Inr vs"
  by (simp add: items_of_def)

section \<open>Attributes\<close>

lemma clean_dset: "clean_attrs (dset k v a) = (if is_content_attr k then clean_attrs a else dset k v (clean_attrs a))"
  by (induction a) (auto simp: clean_attrs_def)

lemma clean_idem [simp]: "clean_attrs (clean_attrs a) = clean_attrs a"
  by (simp add: clean_attrs_def)

lemma content_attribute:
  "content_item i \<Longrightarrow> \<exists>a'. add_attribute a i = Inr a' \<and> clean_attrs a' = clean_attrs a"
  by (auto simp: content_item_def add_attribute_def clean_dset split: json.splits option.splits)

lemma other_attribute:
  assumes "clean_attrs a = clean_attrs b"
  shows "map_sum id clean_attrs (add_attribute a i) = map_sum id clean_attrs (add_attribute b i)"
  using assms by (auto simp: add_attribute_def clean_dset split: json.splits option.splits)

lemma attributes_without_content:
  "clean_attrs a = clean_attrs b \<Longrightarrow>
    map_sum id clean_attrs (attributes_of a (filter (\<lambda>i. \<not> content_item i) items)) = map_sum id clean_attrs (attributes_of b items)"
proof (induction items arbitrary: a b)
  case (Cons i items)
  show ?case
  proof (cases "content_item i")
    case True
    then obtain b' where b': "add_attribute b i = Inr b'" "clean_attrs b' = clean_attrs b" using content_attribute by blast
    have "clean_attrs a = clean_attrs b'" using Cons.prems b'(2) by simp
    from Cons.IH [OF this] show ?thesis using True b'(1) by simp
  next
    case False
    show ?thesis
    proof (cases "add_attribute b i")
      case (Inl e)
      then have "add_attribute a i = Inl e"
        using other_attribute [OF Cons.prems, of i] by (cases "add_attribute a i") auto
      then show ?thesis using Inl False by simp
    next
      case (Inr b')
      then obtain a' where "add_attribute a i = Inr a'" "clean_attrs a' = clean_attrs b'"
        using other_attribute [OF Cons.prems, of i] by (cases "add_attribute a i") auto
      then show ?thesis using Inr False Cons.IH by simp
    qed
  qed
qed simp

section \<open>Spans up to their content\<close>

definition clean_span :: "otel_span \<Rightarrow> otel_span" where
  "clean_span sp = sp\<lparr>sn_attributes := clean_attrs (sn_attributes sp)\<rparr>"

abbreviation clean_spans :: "otel_error + otel_span list \<Rightarrow> otel_error + otel_span list" where
  "clean_spans \<equiv> map_sum id (map clean_span)"

lemma clean_span_fields [simp]:
  "sn_attributes (clean_span sp) = clean_attrs (sn_attributes sp)" "sn_span_id (clean_span sp) = sn_span_id sp"
  "sn_start (clean_span sp) = sn_start sp" "sn_end (clean_span sp) = sn_end sp" "sn_trace_id (clean_span sp) = sn_trace_id sp"
  "sn_parent_span_id (clean_span sp) = sn_parent_span_id sp" "sn_status_code (clean_span sp) = sn_status_code sp"
  by (simp_all add: clean_span_def)

lemma span_event_clean: "span_event_of show src_name (clean_span sp) = span_event_of show src_name sp"
  unfolding fun_eq_iff span_event_of_def span_errored_def span_latency_def clean_span_fields by blast

lemma span_to_event_clean: "span_to_event show src_name (clean_span sp) = span_to_event show src_name sp"
  unfolding span_to_event_def Let_def span_event_clean clean_span_fields clean_idem by (rule refl)

lemma collect_results_sum: "collect_results (map (map_sum id f) rs) = map_sum id (map f) (collect_results rs)"
proof (induction rs)
  case (Cons r rs)
  then show ?case by (cases r; cases "collect_results rs") simp_all
qed simp

lemma collect_results_up_to:
  assumes "\<And>x. map_sum id f (h (g x)) = map_sum id f (h x)"
  shows "map_sum id (map f) (collect_results (map h (map g xs))) = map_sum id (map f) (collect_results (map h xs))"
  using assms by (simp flip: collect_results_sum add: o_def)

lemma strip_attributes:
  "map_sum id clean_attrs (span_attributes (map_option (on_items (filter (\<lambda>i. \<not> content_item i))) v))
    = map_sum id clean_attrs (span_attributes v)"
proof (cases "\<exists>vs. v = Some (JArr vs)")
  case True
  then show ?thesis using attributes_without_content [of "[]" "[]"] by (auto simp: on_items_def items_of_arr span_attributes_def)
next
  case False
  then have "map_option (on_items (filter (\<lambda>i. \<not> content_item i))) v = v"
    by (cases v) (auto simp: on_items_def split: json.splits)
  then show ?thesis by simp
qed

lemma bind_up_to:
  assumes "\<And>x. map_sum id f (k x) = map_sum id f (k' x)"
  shows "map_sum id f (bind_err r k) = map_sum id f (bind_err r k')"
  using assms by (cases r) simp_all

lemma attributes_up_to:
  assumes "map_sum id clean_attrs r = map_sum id clean_attrs r'" and "\<And>a. clean_span (F a) = clean_span (F (clean_attrs a))"
  shows "map_sum id clean_span (bind_err r (\<lambda>a. Inr (F a))) = map_sum id clean_span (bind_err r' (\<lambda>a. Inr (F a)))"
proof (cases r)
  case (Inr a)
  then obtain b where "r' = Inr b" "clean_attrs a = clean_attrs b" using assms(1) by (cases r') auto
  then show ?thesis using Inr assms(2) [of a] assms(2) [of b] by simp
next
  case (Inl e)
  then show ?thesis using assms(1) by (cases r') auto
qed

lemma strip_span_of: "map_sum id clean_span (span_of show scope (strip_span raw)) = map_sum id clean_span (span_of show scope raw)"
proof (cases raw)
  case (JObj es)
  let ?es = "map (\<lambda>(j, w). (j, if j = ''attributes'' then on_items (filter (\<lambda>i. \<not> content_item i)) w else w)) es"
  have strip: "strip_span (JObj es) = JObj ?es" by (simp add: strip_span_def map_at_def)
  have keys: "jget ?es k = jget es k" "map_of ?es k = map_of es k" if "k \<noteq> ''attributes''" for k
    using that by (simp_all add: jget_on_items map_of_map_at)
  have attrs: "jget ?es ''attributes'' = map_option (on_items (filter (\<lambda>i. \<not> content_item i))) (jget es ''attributes'')"
    by (simp add: jget_on_items)
  have names: "''spanId'' \<noteq> ''attributes''" "''startTimeUnixNano'' \<noteq> ''attributes''" "''status'' \<noteq> ''attributes''"
    "''endTimeUnixNano'' \<noteq> ''attributes''" "''name'' \<noteq> ''attributes''" "''traceId'' \<noteq> ''attributes''"
    "''parentSpanId'' \<noteq> ''attributes''" by simp_all
  note read = JObj strip span_of_def json.case names [THEN keys(1)] names [THEN keys(2)] attrs
  show ?thesis
  proof (cases "\<exists>s n. jget es ''spanId'' = Some (JStr s) \<and> jget es ''startTimeUnixNano'' = Some n")
    case True
    then obtain s n where sn: "jget es ''spanId'' = Some (JStr s)" "jget es ''startTimeUnixNano'' = Some n" by blast
    show ?thesis
      unfolding read sn prod.case option.case json.case
      by (rule bind_up_to)+ (rule attributes_up_to [OF strip_attributes], simp add: clean_span_def)
  next
    case False
    then show ?thesis unfolding read by (auto split: option.splits json.splits)
  qed
qed (simp_all add: strip_span_def map_at_def)

lemma items_up_to:
  assumes "\<And>x. map_sum id f (h (g x)) = map_sum id f (h x)"
  shows "map_sum id (map f) (bind_err (items_of (map_option (on_items (map g)) v)) (\<lambda>raws. collect_results (map h raws)))
      = map_sum id (map f) (bind_err (items_of v) (\<lambda>raws. collect_results (map h raws)))"
proof (cases "\<exists>vs. v = Some (JArr vs)")
  case True
  then show ?thesis using collect_results_up_to [of f h g, OF assms] by (auto simp: on_items_def items_of_arr)
next
  case False
  then have "map_option (on_items (map g)) v = v" by (cases v) (auto simp: on_items_def split: json.splits)
  then show ?thesis by simp
qed

lemma strip_scope_spans: "clean_spans (scope_spans show (strip_scope scope)) = clean_spans (scope_spans show scope)"
proof (cases scope)
  case (JObj es)
  let ?es = "map (\<lambda>(j, w). (j, if j = ''spans'' then on_items (map strip_span) w else w)) es"
  have 1: "jget ?es ''scope'' = jget es ''scope''" "jget ?es ''spans'' = map_option (on_items (map strip_span)) (jget es ''spans'')"
    by (simp_all add: jget_on_items)
  show ?thesis
    unfolding JObj strip_scope_def map_at_def scope_spans_def json.case 1
    by (rule bind_up_to) (rule items_up_to, rule strip_span_of)
qed (simp_all add: strip_scope_def map_at_def)

lemma concat_up_to:
  assumes "map_sum id (map (map f)) r = map_sum id (map (map f)) r'"
  shows "map_sum id (map f) (bind_err r (\<lambda>xss. Inr (concat xss))) = map_sum id (map f) (bind_err r' (\<lambda>xss. Inr (concat xss)))"
proof (cases r)
  case (Inr xss)
  then obtain yss where "r' = Inr yss" "map (map f) xss = map (map f) yss" using assms by (cases r') auto
  then show ?thesis using Inr by (simp add: map_concat)
next
  case (Inl e)
  then show ?thesis using assms by (cases r') auto
qed

lemma bind_assoc: "bind_err (bind_err r f) g = bind_err r (\<lambda>x. bind_err (f x) g)"
  by (cases r) simp_all

lemma strip_resource_spans: "clean_spans (resource_spans show (strip_resource resource)) = clean_spans (resource_spans show resource)"
proof (cases resource)
  case (JObj es)
  let ?es = "map (\<lambda>(j, w). (j, if j = ''scopeSpans'' then on_items (map strip_scope) w else w)) es"
  have 1: "jget ?es ''scopeSpans'' = map_option (on_items (map strip_scope)) (jget es ''scopeSpans'')"
    by (simp add: jget_on_items)
  show ?thesis
    unfolding JObj strip_resource_def map_at_def resource_spans_def json.case 1 bind_assoc [symmetric]
    by (rule concat_up_to) (rule items_up_to, rule strip_scope_spans)
qed (simp_all add: strip_resource_def map_at_def)

lemma strip_parse:
  "clean_spans (parse_otlp_json show (map (\<lambda>(j, w). (j, if j = ''resourceSpans'' then on_items (map strip_resource) w else w)) payload))
    = clean_spans (parse_otlp_json show payload)"
proof -
  let ?es = "map (\<lambda>(j, w). (j, if j = ''resourceSpans'' then on_items (map strip_resource) w else w)) payload"
  let ?v = "jget payload ''resourceSpans''"
  have 1: "jget ?es ''resourceSpans'' = map_option (on_items (map strip_resource)) ?v" by (simp add: jget_on_items)
  show ?thesis
  proof (cases "\<exists>vs. ?v = Some (JArr vs)")
    case True
    then obtain vs where v: "?v = Some (JArr vs)" by blast
    have 2: "jget ?es ''resourceSpans'' = Some (JArr (map strip_resource vs))" using 1 v by (simp add: on_items_def)
    show ?thesis
      unfolding parse_otlp_json_def 2 v option.case json.case
      by (rule concat_up_to) (rule collect_results_up_to, rule strip_resource_spans)
  next
    case False
    then have "map_option (on_items (map strip_resource)) ?v = ?v" by (cases ?v) (auto simp: on_items_def split: json.splits)
    then show ?thesis unfolding parse_otlp_json_def 1 by simp
  qed
qed

lemma spans_to_events_clean: "spans_to_events show src_name (map clean_span spans) = spans_to_events show src_name spans"
  by (simp add: spans_to_events_def o_def span_to_event_clean)

lemma strip_export_events: "export_events show (Inr (strip_export body)) = export_events show (Inr body)"
proof (cases body)
  case (JObj payload)
  let ?es = "map (\<lambda>(j, w). (j, if j = ''resourceSpans'' then on_items (map strip_resource) w else w)) payload"
  have strip: "strip_export (JObj payload) = JObj ?es" by (simp add: strip_export_def map_at_def)
  note same = strip_parse [of "show" payload]
  show ?thesis
  proof (cases "parse_otlp_json show payload")
    case (Inl e)
    then have "parse_otlp_json show ?es = Inl e" using same by (cases "parse_otlp_json show ?es") auto
    then show ?thesis using Inl by (simp add: JObj strip export_events_def)
  next
    case (Inr spans)
    then obtain spans' where "parse_otlp_json show ?es = Inr spans'" "map clean_span spans' = map clean_span spans"
      using same by (cases "parse_otlp_json show ?es") auto
    then show ?thesis using Inr spans_to_events_clean [of "show" "''otel''" spans] spans_to_events_clean [of "show" "''otel''" spans']
      by (simp add: JObj strip export_events_def)
  qed
qed (simp_all add: strip_export_def map_at_def)

section \<open>The content has no influence\<close>

text \<open>
  C40. The content of a trace export has no influence: removing the content attributes from all its spans, prompts,
  completions and messages, changes neither the answer of the route nor anything that is stored.
\<close>

theorem trace_content_ignored:
  "receive_traces env show bytes bid now cred request_id (Inr (strip_export body)) st
    = receive_traces env show bytes bid now cred request_id (Inr body) st"
  unfolding receive_traces_def strip_export_events by (rule refl)

section \<open>One attempt per span\<close>

definition genai_span :: "otel_span \<Rightarrow> bool" where
  "genai_span sp \<longleftrightarrow> truthy_of (dget (clean_attrs (sn_attributes sp)) PROVIDER_ATTR) \<noteq> None"

definition span_attempt :: "otel_span \<Rightarrow> usage_event_v2 \<Rightarrow> bool" where
  "span_attempt sp e \<longleftrightarrow> e2_event_id e = sn_span_id sp \<and> e2_span_id e = Some (sn_span_id sp) \<and> e2_event_kind e = Attempt
     \<and> e2_finality e = Final \<and> e2_sequence e = 1 \<and> e2_provenance e = IMPORTED \<and> sr_type (e2_source e) = Sdk_Source
     \<and> e2_success e = (\<not> span_errored sp (clean_attrs (sn_attributes sp))) \<and> 0 \<le> e2_total_tokens e
     \<and> e2_extra e = span_extra (clean_attrs (sn_attributes sp))"

lemma validated_same:
  assumes "validate_usage_event_v2 e = Inr e'" and "e2_billable_units e = None"
  shows "e' = e \<and> 0 \<le> e2_total_tokens e"
  using assms by (auto simp: validate_usage_event_v2_def first_error_all_None e2_total_tokens_def split: sum.splits if_splits)

lemma span_to_event_Inr:
  assumes "span_to_event show src_name sp = Inr r"
  shows "case r of None \<Rightarrow> \<not> genai_span sp | Some e \<Rightarrow> genai_span sp \<and> span_attempt sp e"
proof (cases "truthy_of (dget (clean_attrs (sn_attributes sp)) PROVIDER_ATTR)")
  case None
  then show ?thesis using assms by (auto simp: span_to_event_def Let_def genai_span_def)
next
  case (Some system)
  then obtain started completed requested trace_id e where r: "r = Some e"
    and v: "validate_usage_event_v2 (span_event_of show src_name sp (clean_attrs (sn_attributes sp)) system started completed requested trace_id) = Inr e"
    using assms by (auto simp: span_to_event_def Let_def bind_err_def split: sum.splits option.splits)
  have "e2_billable_units (span_event_of show src_name sp (clean_attrs (sn_attributes sp)) system started completed requested trace_id) = None"
    by (simp add: span_event_of_def)
  from validated_same [OF v this] have e: "e = span_event_of show src_name sp (clean_attrs (sn_attributes sp)) system started completed requested trace_id"
    and total: "0 \<le> e2_total_tokens e" by auto
  have "span_attempt sp e" using total unfolding span_attempt_def by (simp add: e span_event_of_def)
  then show ?thesis using r Some by (simp add: genai_span_def)
qed

text \<open>
  Each span of a model call becomes one event, in the order of the export, and no other span does: a final attempt
  with the id of the span, non-negative tokens, the success of the span, and of its attributes only what is no content.
\<close>

theorem spans_become_attempts:
  assumes "spans_to_events show src_name spans = Inr events"
  shows "list_all2 span_attempt (filter genai_span spans) events"
proof -
  obtain rs where rs: "map (span_to_event show src_name) spans = map Inr rs" and events: "events = List.map_filter id rs"
    using assms by (cases "collect_results (map (span_to_event show src_name) spans)")
      (auto simp: spans_to_events_def collect_results_Inr)
  have "list_all2 span_attempt (filter genai_span spans) (List.map_filter id rs)" using rs
  proof (induction spans arbitrary: rs)
    case (Cons sp spans)
    then obtain r rs' where r: "rs = r # rs'" "span_to_event show src_name sp = Inr r"
      "map (span_to_event show src_name) spans = map Inr rs'" by (cases rs) auto
    then show ?case using Cons.IH [OF r(3)] span_to_event_Inr [OF r(2)] by (cases r) (auto simp: map_filter_def)
  qed (simp add: map_filter_def)
  then show ?thesis by (simp add: events)
qed

section \<open>Instants over floats\<close>

lemma bit_len_bounds: "0 < n \<Longrightarrow> n < 2 ^ bit_len n \<and> 2 ^ bit_len n \<le> 2 * n"
proof (induction n rule: bit_len.induct)
  case (1 n)
  show ?case
  proof (cases "n div 2 = 0")
    case True
    then have "n = 1" using 1 by auto
    then show ?thesis by (simp add: bit_len.simps)
  next
    case False
    then have "n div 2 < 2 ^ bit_len (n div 2) \<and> 2 ^ bit_len (n div 2) \<le> 2 * (n div 2)" using 1 by simp
    moreover have "bit_len n = Suc (bit_len (n div 2))" using 1 by (simp add: bit_len.simps [of n])
    ultimately show ?thesis by auto
  qed
qed

lemma pow2_powi: "pow2 z = 2 powi z"
  by (simp add: pow2_def power_int_def power_one_over inverse_eq_divide)

lemma pow2_pos [simp]: "0 < pow2 z"
  by (simp add: pow2_powi)

lemma pow2_diff: "pow2 (int a - int b) = 2 ^ a / 2 ^ b"
  by (simp add: pow2_powi power_int_diff)

lemma exponent_of_le:
  assumes "0 < x"
  shows "pow2 (exponent_of x) \<le> x"
proof -
  obtain p q where pq: "quotient_of x = (p, q)" by fastforce
  have q: "0 < q" using quotient_of_denom_pos [OF pq] .
  have x: "x = of_int p / of_int q" using quotient_of_div [OF pq] .
  then have p: "0 < p" using assms q by (simp add: zero_less_divide_iff)
  let ?e = "int (bit_len (nat p)) - int (bit_len (nat q))"
  have P: "2 ^ bit_len (nat p) \<le> (2 * of_int p :: rat)" and Q: "(of_int q :: rat) < 2 ^ bit_len (nat q)"
  proof -
    have "2 ^ bit_len (nat p) \<le> 2 * nat p" "nat q < 2 ^ bit_len (nat q)"
      using bit_len_bounds [of "nat p"] bit_len_bounds [of "nat q"] p q by simp_all
    then have "of_nat (2 ^ bit_len (nat p)) \<le> (of_nat (2 * nat p) :: rat)" "(of_nat (nat q) :: rat) < of_nat (2 ^ bit_len (nat q))"
      unfolding of_nat_le_iff of_nat_less_iff by blast+
    then show "2 ^ bit_len (nat p) \<le> (2 * of_int p :: rat)" "(of_int q :: rat) < 2 ^ bit_len (nat q)"
      using p q by simp_all
  qed
  have "pow2 (?e - 1) = pow2 ?e / 2" by (simp add: pow2_powi power_int_diff)
  also have "\<dots> = 2 ^ bit_len (nat p) / 2 / 2 ^ bit_len (nat q)" by (simp add: pow2_diff)
  also have "\<dots> \<le> of_int p / 2 ^ bit_len (nat q)" using P by (intro divide_right_mono) simp_all
  also have "\<dots> \<le> x" unfolding x using Q p q by (intro divide_left_mono) (auto intro: less_imp_le)
  finally have "pow2 (?e - 1) \<le> x" .
  then show ?thesis by (cases "x < pow2 ?e") (simp_all add: exponent_of_def pq Let_def)
qed

lemma double_of_error: "\<bar>double_of x - x\<bar> \<le> \<bar>x\<bar> / 2 ^ 53"
proof (cases "x = 0")
  case False
  define ulp where "ulp = pow2 (exponent_of \<bar>x\<bar> - 52)"
  have ulp: "0 < ulp" by (simp add: ulp_def)
  have "ulp = pow2 (exponent_of \<bar>x\<bar>) / 2 ^ 52" by (simp add: ulp_def pow2_powi power_int_diff)
  also have "\<dots> \<le> \<bar>x\<bar> / 2 ^ 52" using exponent_of_le [of "\<bar>x\<bar>"] False by (simp add: divide_right_mono)
  finally have small: "ulp \<le> \<bar>x\<bar> / 2 ^ 52" .
  have "double_of x - x = (of_int (round_half_even (x / ulp)) - x / ulp) * ulp"
    using False ulp by (simp add: double_of_def Let_def left_diff_distrib flip: ulp_def)
  then have "\<bar>double_of x - x\<bar> = \<bar>of_int (round_half_even (x / ulp)) - x / ulp\<bar> * ulp" using ulp by (simp add: abs_mult)
  also have "\<dots> \<le> 1 / 2 * ulp" using round_half_even_error ulp by (intro mult_right_mono) simp_all
  also have "\<dots> \<le> \<bar>x\<bar> / 2 ^ 53" using small by simp
  finally show ?thesis .
qed (simp add: double_of_def)

lemma from_timestamp_error:
  assumes "0 \<le> x"
  shows "\<exists>us. from_timestamp x = (if MIN_WALL \<le> us \<and> us \<le> MAX_WALL then Some (as_utc_dt us) else None)
    \<and> \<bar>of_int us - x * 1000000\<bar> \<le> 1 / 2 + 1000000 / 2 ^ 53"
proof -
  define f where "f = (x - of_int \<lfloor>x\<rfloor>) * 1000000"
  have "0 \<le> x - of_int \<lfloor>x\<rfloor>" "x - of_int \<lfloor>x\<rfloor> \<le> 1" by linarith+
  then have f: "0 \<le> f" "f \<le> 1000000" by (simp_all add: f_def)
  let ?us = "\<lfloor>x\<rfloor> * 1000000 + round_half_even (double_of f)"
  have "\<bar>of_int (round_half_even (double_of f)) - double_of f\<bar> \<le> 1 / 2" by (rule round_half_even_error)
  moreover have "\<bar>double_of f - f\<bar> \<le> 1000000 / 2 ^ 53"
  proof -
    have "\<bar>double_of f - f\<bar> \<le> \<bar>f\<bar> / 2 ^ 53" by (rule double_of_error)
    also have "\<dots> \<le> 1000000 / 2 ^ 53" using f by (intro divide_right_mono) simp_all
    finally show ?thesis .
  qed
  moreover have "of_int ?us - x * 1000000 = of_int (round_half_even (double_of f)) - f" by (simp add: f_def algebra_simps)
  ultimately have "\<bar>of_int ?us - x * 1000000\<bar> \<le> 1 / 2 + 1000000 / 2 ^ 53" by linarith
  moreover have "from_timestamp x = (if MIN_WALL \<le> ?us \<and> ?us \<le> MAX_WALL then Some (as_utc_dt ?us) else None)"
    using assms by (simp add: from_timestamp_def Let_def f_def)
  ultimately show ?thesis by blast
qed

text \<open>
  The instant of a span survives the division to a float and back to the microsecond: for every time from 1970 to 2096
  the event has an instant, in UTC, and it differs from the nanoseconds of the span by less than a microsecond.
\<close>

theorem span_instant_close:
  assumes "0 \<le> n" and "n \<le> 4 * 10 ^ 18"
  shows "\<exists>t. ts_of_nanos n = Some t \<and> dt_offset t = 0 \<and> \<bar>1000 * dt_instant t - n\<bar> < 1000"
proof -
  define x :: rat where "x = of_int n / 1000000000"
  have n: "0 \<le> (of_int n :: rat)" "(of_int n :: rat) \<le> 4 * 10 ^ 18"
    using assms by (simp, metis assms(2) of_int_le_iff of_int_mult of_int_numeral of_int_power)
  have x: "0 \<le> x" "x \<le> 4000000000" using n by (simp_all add: x_def)
  have d: "\<bar>double_of x - x\<bar> \<le> x / 2 ^ 53" using double_of_error [of x] x by simp
  moreover have "x / 2 ^ 53 \<le> x" using x by simp
  ultimately have "0 \<le> double_of x" by linarith
  from from_timestamp_error [OF this] obtain us where us:
    "from_timestamp (double_of x) = (if MIN_WALL \<le> us \<and> us \<le> MAX_WALL then Some (as_utc_dt us) else None)"
    "\<bar>of_int us - double_of x * 1000000\<bar> \<le> 1 / 2 + 1000000 / 2 ^ 53" by blast
  have "x / 2 ^ 53 \<le> 9 / 20000000" using x by simp
  then have 1: "\<bar>double_of x - x\<bar> \<le> 9 / 20000000" using d by linarith
  have "(1 / 2 + 1000000 / 2 ^ 53 :: rat) \<le> 51 / 100" by simp
  then have 2: "\<bar>of_int us - double_of x * 1000000\<bar> \<le> 51 / 100" using us(2) by linarith
  have "\<bar>of_int us - x * 1000000\<bar> < 1" using 1 2 by linarith
  then have "\<bar>1000 * of_int us - (of_int n :: rat)\<bar> < 1000" by (simp add: x_def abs_less_iff)
  then have "\<bar>of_int (1000 * us - n) :: rat\<bar> < of_int 1000" by simp
  then have close: "\<bar>1000 * us - n\<bar> < 1000" unfolding of_int_abs [symmetric] of_int_less_iff .
  then have "MIN_WALL \<le> us" "us \<le> MAX_WALL" using assms by (simp_all add: MIN_WALL_def MAX_WALL_def)
  then show ?thesis using us(1) close by (simp add: ts_of_nanos_def x_def as_utc_dt_def)
qed

section \<open>Where the receiver does less than it says\<close>

text \<open>
  A span whose status is the integer that OTLP uses, whatever its value, and that has no error type counts as a
  success.
\<close>

theorem integer_status_is_success:
  assumes "span_to_event show src_name sp = Inr (Some e)" and "sn_status_code sp = Some (JInt code)"
    and "dget (clean_attrs (sn_attributes sp)) ERROR_TYPE_ATTR = None"
  shows "e2_success e"
  using span_to_event_Inr [OF assms(1)] assms(2,3) by (simp add: span_attempt_def span_errored_def)

text \<open>
  One span that cannot be converted fails the whole export with an error that nothing catches.
\<close>

theorem failed_span_fails_export:
  assumes "parse_otlp_json show payload = Inr spans" and "sp \<in> set spans" and "span_to_event show ''otel'' sp = Inl err"
  shows "export_events show (Inr (JObj payload)) = Inl Trace_Uncaught"
proof -
  have "collect_results (map (span_to_event show ''otel'') spans) \<noteq> Inr xs" for xs
  proof
    assume "collect_results (map (span_to_event show ''otel'') spans) = Inr xs"
    then have "map (span_to_event show ''otel'') spans = map Inr xs" by (simp add: collect_results_Inr)
    then have "span_to_event show ''otel'' sp \<in> set (map Inr xs)" using assms(2) by (metis image_eqI list.set_map)
    then show False using assms(3) by auto
  qed
  then obtain e where "collect_results (map (span_to_event show ''otel'') spans) = Inl e" by (metis sum.exhaust)
  then show ?thesis by (simp add: export_events_def assms(1) spans_to_events_def)
qed

section \<open>Witnesses\<close>

definition text_attr :: "string \<Rightarrow> string \<Rightarrow> json" where
  "text_attr k v = JObj [(''key'', JStr k), (''value'', JObj [(''stringValue'', JStr v)])]"

definition demo_export :: "json list \<Rightarrow> json" where
  "demo_export attrs = JObj [(''resourceSpans'', JArr [JObj [(''scopeSpans'', JArr [JObj [(''spans'', JArr [JObj
     [(''spanId'', JStr ''s1''), (''startTimeUnixNano'', JStr ''0''), (''status'', JObj [(''code'', JInt 2)]),
      (''attributes'', JArr attrs)]])]])]])]"

lemma demo_stripped:
  "strip_export (demo_export [text_attr ''gen_ai.system'' ''OpenAI'', text_attr ''gen_ai.prompt.0.content'' ''secret''])
    = demo_export [text_attr ''gen_ai.system'' ''OpenAI'']"
  by code_simp

definition demo_span :: otel_span where
  "demo_span = \<lparr>sn_span_id = ''s1'', sn_name = [], sn_start = 0, sn_attributes = [(''gen_ai.system'', JStr ''OpenAI'')],
     sn_end = None, sn_trace_id = None, sn_parent_span_id = None, sn_status_code = Some (JInt 2),
     sn_status_message = None, sn_scope_name = None\<rparr>"

lemma demo_converted: "\<exists>e. span_to_event (\<lambda>_. []) ''otel'' demo_span = Inr (Some e)"
proof -
  have "(case span_to_event (\<lambda>_. []) ''otel'' demo_span of Inr (Some e) \<Rightarrow> True | _ \<Rightarrow> False)" by code_simp
  then show ?thesis by (auto split: sum.splits option.splits)
qed

theorem integer_status_is_success_witness:
  "\<exists>e. span_to_event (\<lambda>_. []) ''otel'' demo_span = Inr (Some e) \<and> e2_success e"
proof -
  obtain e where e: "span_to_event (\<lambda>_. []) ''otel'' demo_span = Inr (Some e)" using demo_converted by blast
  moreover have "sn_status_code demo_span = Some (JInt 2)" "dget (clean_attrs (sn_attributes demo_span)) ERROR_TYPE_ATTR = None"
    by code_simp+
  ultimately show ?thesis using integer_status_is_success by blast
qed

theorem spans_become_attempts_witness:
  "\<exists>e. spans_to_events (\<lambda>_. []) ''otel'' [demo_span] = Inr [e] \<and> span_attempt demo_span e"
proof -
  obtain e where "span_to_event (\<lambda>_. []) ''otel'' demo_span = Inr (Some e)" using demo_converted by blast
  then have run: "spans_to_events (\<lambda>_. []) ''otel'' [demo_span] = Inr [e]" by (simp add: spans_to_events_def map_filter_def)
  have "genai_span demo_span" by code_simp
  then show ?thesis using spans_become_attempts [OF run] run by simp
qed

theorem span_instant_close_witness:
  "\<exists>t. ts_of_nanos 1783684800123456789 = Some t \<and> \<bar>1000 * dt_instant t - 1783684800123456789\<bar> < 1000"
  using span_instant_close [of 1783684800123456789] by auto

definition broken_payload :: "(string \<times> json) list" where
  "broken_payload = [(''resourceSpans'', JArr [JObj [(''scopeSpans'', JArr [JObj [(''spans'', JArr [JObj
     [(''spanId'', JStr []), (''startTimeUnixNano'', JInt 0), (''attributes'', JArr [text_attr ''gen_ai.system'' ''x''])]])]])]])]"

theorem failed_span_fails_export_witness:
  "export_events (\<lambda>_. []) (Inr (JObj broken_payload)) = Inl Trace_Uncaught"
proof -
  let ?sp = "demo_span\<lparr>sn_span_id := [], sn_attributes := [(''gen_ai.system'', JStr ''x'')], sn_status_code := None\<rparr>"
  have "parse_otlp_json (\<lambda>_. []) broken_payload = Inr [?sp]" by code_simp
  moreover have "span_to_event (\<lambda>_. []) ''otel'' ?sp = Inl Span_Failed" by code_simp
  ultimately show ?thesis by (rule failed_span_fails_export [OF _ list.set_intros(1)])
qed

end
