(* ===== verification/Spec2Isabelle.thy ===== *)
theory Spec2Isabelle
  imports Prelude Py_Json Core_Models Units Usage_V2 Pricing_Strategies Price_Table Registry Price_Sources
    Projects Audit_Log Rate_Cards Rate_Card_Laws Rate_Card_Import Data_Quality Sources Revisions Revision_Laws
    Ledger_Props Cost_Engine Cost_Props Cost_Worker Rollups Rollup_Laws Repricing Repricing_Laws Privacy
    Ingest_V2 Ingest_Laws Ingest_Replay Claude_Code Collector Collector_Laws
    Rate_Limiter Registries Limit_Ingest Limit_Ingest_Laws Limit_Analytics Limit_Analytics_Laws Ingest_V1 Ingest_V1_Laws
    Py_Text Alert_Rules Alert_Engine Alert_Laws Channel_Config Retention Retention_Worker Retention_Laws
    Deletion Deletion_Laws Query_Framework Query_Laws Trace_Queries Trace_Laws
    Cost_Types Ledger_Queries Ledger_Query_Laws Dashboard_Queries Dashboard_Laws
    Access Access_Laws Ingest_Api Ingest_Api_Laws Otel Otel_Laws
begin

text \<open>
  \<^bold>\<open>Tokemetry.\<close> Tokemetry collects the token usage of AI coding tools. Collectors on the machines parse
  session logs and upload events; the server stores them in a ledger of immutable revisions, prices them
  with rate cards, aggregates them by day and serves queries. This development models the core of the
  server and of the shared package \<open>tokemetry_core\<close> and proves what makes it correct.

  \<^bold>\<open>Conventions.\<close> A class is a record with the source's fields, prefixed; an enum is a datatype with a
  function to its wire string. Python integers are \<open>int\<close>, \<open>Decimal\<close> amounts are rationals where only the value
  matters and a coefficient with an exponent (\<open>pydecimal\<close>) where the digits do; dictionaries are association
  lists in insertion order, the tables of the database are lists of rows with the next primary key. A date is
  a day number, an aware datetime a pair of its instant in microseconds and its UTC offset. Exceptions are
  \<open>Inl\<close> values; a handler that raises rolls its transaction back, so the caller keeps the old tables. The
  clock, generated ids, digests and sizes that other libraries compute are parameters.

  \<^bold>\<open>Theories and code.\<close>
  \<^item> \<open>Prelude\<close>: the named lemma collections, dictionaries, ordered choice (\<open>max_by\<close>, \<open>min_by\<close>), text and
    dates. \<open>Py_Json\<close>: JSON values, \<open>json.loads\<close> accessors and decimal text.
  \<^item> \<open>Core_Models\<close> (\<open>tokemetry_core/models.py\<close>), \<open>Units\<close> (\<open>units.py\<close>), \<open>Usage_V2\<close> (\<open>usage_v2.py\<close>): the wire
    models and their validators.
  \<^item> \<open>Pricing_Strategies\<close> (\<open>pricing/strategies\<close>, \<open>interfaces.py\<close>), \<open>Price_Table\<close> (\<open>pricing/table.py\<close>,
    \<open>anthropic.py\<close>, \<open>litellm.py\<close>), \<open>Price_Sources\<close> (\<open>pricing/sources\<close>), \<open>Registry\<close> (\<open>registry.py\<close>,
    \<open>normalization.py\<close>, the v1 \<open>services/cost.py\<close>), \<open>Projects\<close> (\<open>projects.py\<close>).
  \<^item> \<open>Audit_Log\<close> (\<open>services/audit.py\<close>), \<open>Rate_Cards\<close>, \<open>Rate_Card_Laws\<close>, \<open>Rate_Card_Import\<close>
    (\<open>pricing_v2.py\<close>, \<open>pricing_admin.py\<close>, \<open>pricing_import.py\<close>): the dated rate cards.
  \<^item> \<open>Data_Quality\<close>, \<open>Sources\<close>, \<open>Revisions\<close>, \<open>Revision_Laws\<close>, \<open>Ledger_Props\<close> (\<open>data_quality.py\<close>,
    \<open>sources.py\<close>, \<open>trace_context.py\<close>, \<open>revisions.py\<close>): the event ledger.
  \<^item> \<open>Cost_Engine\<close>, \<open>Cost_Props\<close>, \<open>Cost_Worker\<close> (\<open>billing_mode.py\<close>, \<open>computed_costs.py\<close>, \<open>cost_v2.py\<close>,
    \<open>cost_worker.py\<close>, the loop of \<open>app.py\<close>): the pricing of ledger rows.
  \<^item> \<open>Rollups\<close>, \<open>Rollup_Laws\<close> (\<open>rollups.py\<close>, the rollup upsert of \<open>db/upsert.py\<close>): daily aggregation.
  \<^item> \<open>Repricing\<close>, \<open>Repricing_Laws\<close> (\<open>repricing.py\<close>, \<open>cache_savings.py\<close>): a range priced again and reverted.
  \<^item> \<open>Privacy\<close> (\<open>privacy.py\<close>), \<open>Ingest_V2\<close>, \<open>Ingest_Laws\<close>, \<open>Ingest_Replay\<close> (\<open>ingest_v2.py\<close>,
    \<open>logical_requests.py\<close>): the batch ingest that composes the gate, the sources, the ledger and the requests.
  \<^item> \<open>Claude_Code\<close> (\<open>providers/claude_code.py\<close>), \<open>Collector\<close>, \<open>Collector_Laws\<close> (\<open>state.py\<close>, \<open>runner.py\<close>,
    \<open>uploader.py\<close>, \<open>wire.py\<close>, \<open>config.py\<close>, \<open>sources.py\<close> of \<open>tokemetry_collector\<close>): the collector, from the lines
    of a session log to the batches the server confirmed.
  \<^item> \<open>Rate_Limiter\<close> (\<open>rate_limit.py\<close>): the token bucket of the ingest endpoints.
  \<^item> \<open>Registries\<close> (\<open>registries.py\<close>, \<open>registry_backfill.py\<close>): provider resolution, model observation, backfill.
  \<^item> \<open>Limit_Ingest\<close>, \<open>Limit_Ingest_Laws\<close> (\<open>ingest_v2_meta.py\<close>): limit snapshots with flood control, and
    aggregate imports. \<open>Limit_Analytics\<close>, \<open>Limit_Analytics_Laws\<close> (\<open>limit_grouping.py\<close>, \<open>limit_forecast.py\<close>,
    \<open>analytics.py\<close>, the estimate of \<open>live_overview.py\<close>): what is computed from the snapshots.
  \<^item> \<open>Ingest_V1\<close>, \<open>Ingest_V1_Laws\<close> (\<open>validation.py\<close>, \<open>ingest.py\<close>): the v1 ingest over the same ledger.

  \<^item> \<open>Py_Text\<close>: number and time formatting of the standard library, with the calendar. \<open>Alert_Rules\<close>,
    \<open>Alert_Engine\<close>, \<open>Alert_Laws\<close> (\<open>services/alerting\<close>, the view of migration 0010): the rules, the engine and its log;
    \<open>Channel_Config\<close> (\<open>channel_config.py\<close>): the settings of the channels.
  \<^item> \<open>Retention\<close>, \<open>Retention_Worker\<close>, \<open>Retention_Laws\<close> (\<open>retention.py\<close>, \<open>retention_worker.py\<close>): the policy and the sweep.
    \<open>Deletion\<close>, \<open>Deletion_Laws\<close> (\<open>admin_deletion.py\<close>, \<open>api/v2/admin_data.py\<close>): administrative deletion.
  \<^item> \<open>Query_Framework\<close>, \<open>Query_Laws\<close> (\<open>query_framework.py\<close>, \<open>resource_queries.py\<close>): keyset pages and the resource
    listings. \<open>Trace_Queries\<close>, \<open>Trace_Laws\<close> (\<open>trace_queries.py\<close>, \<open>agent_hierarchy.py\<close>): attempts, requests, sessions
    and their agents.
  \<^item> \<open>Cost_Types\<close>: the histories of the cost table and what its rows look like. \<open>Ledger_Queries\<close>,
    \<open>Ledger_Query_Laws\<close> (\<open>queries_v2.py\<close>, \<open>cost_queries.py\<close>, \<open>heatmap_v2.py\<close>): grouped usage and cost, the reconciliation
    and the heatmap. \<open>Dashboard_Queries\<close>, \<open>Dashboard_Laws\<close> (\<open>queries.py\<close>, \<open>session_stats.py\<close>, \<open>insights.py\<close>): the queries of
    the dashboard.
  \<^item> \<open>Access\<close>, \<open>Access_Laws\<close> (\<open>api/auth.py\<close>, \<open>scopes.py\<close>, \<open>services/tokens.py\<close>, \<open>api/tokens.py\<close>, \<open>api/security.py\<close>,
    the middleware of \<open>app.py\<close>): who may do what. \<open>Ingest_Api\<close>, \<open>Ingest_Api_Laws\<close> (\<open>api/v2/ingest.py\<close>): the routes
    in front of the ingest services. \<open>Otel\<close>, \<open>Otel_Laws\<close> (\<open>otel\<close>, \<open>api/v2/otel.py\<close>): the trace
    receiver.

  \<^bold>\<open>Interfaces.\<close> The locales state what one part may assume of another and are interpreted on the model:
  an abstract settling policy, which both conflict modes of the revision engine implement; the rate history
  that the cost engine relies on and that imports provide; additive measures that survive the merging of
  rollup groups; invariants of the ledger, which the whole ingest keeps once a single event keeps them; an incremental
  source of events, for which the collector's progress is proved and which the Claude Code source implements; a
  strict total order of keys, for which following cursors is proved and which both directions of the keyset have; a
  property of cost tables that recording, activating and erasing keep, which then every operation on costs keeps.

  \<^bold>\<open>What is proved.\<close> A strategy passes on just the counters its provider bills and rate resolution picks the best card in effect,
  independently of order; administration and proper imports keep ranges disjoint and past costs unchanged.
  The ledger has one active row per event, in revision mode every replaced row is archived, the outcome of a set of snapshots
  and a final does not depend on their order, and replays do nothing. Every final attempt is eventually
  priced once; the rollups of a day add up to its events; a repricing can be reverted. A batch is refused
  as a whole or accounted for event by event, no content reaches the ledger, and a fully written batch
  sent again only adds a batch record. The collector loses no record that it has passed, uploads in order and polls limits at their pace.
  The limiter grants at most its capacity and refill; the streams of limit snapshots stay spaced, are forecast
  one by one, and the usage blocks partition the events; a provider string keeps its canonical id; the v1 ingest
  never loses output tokens. A pass of the alert engine does to a rule just what its state, its log and its finding say, the channel
  views hide secrets; a sweep keeps what its policy keeps and removes raw events only behind rollups that account for
  them, and a deletion is guarded, exact and audited. Following the cursors of a listing ends, misses nothing and repeats nothing,
  also under inserts; the sessions partition the attempts. Every cost
  row is well-typed; grouped usage, cost, reconciliation and heatmap add up to what they group, and after a rebuild
  the dashboard counts the ledger and the imported rollups. A token is worth what it was minted for until it is revoked, the tokens change by audited acts only, an
  ingest request stores nothing unless all of it is allowed and decoded, and the pre-flight check predicts the ingest up to
  the rights of the caller; the
  content of a trace export has no influence, and the instants of its spans survive their detour over floats. Where the code does less than its documentation says, the theorem shows the case.

  \<^bold>\<open>Bounds.\<close> All recursions are structural or have a measure; the worker loop takes a list of wake-ups, and
  the bound under which it drains is stated as the number of rows over the batch size.

  \<^bold>\<open>Not modelled.\<close> HTTP routing and response models, with the decoding of a body into the wire models; SQL text and the session, of which only
  the effect on the tables is modelled; the concurrency of transactions; the generated client; database
  migrations and backfills; message texts.
\<close>

end
